(* ===== verification/Prelude.thy ===== *)
theory Prelude
  imports Main "HOL-Library.Word" "HOL-Library.List_Lexorder" "HOL-Library.Multiset"
begin

text \<open>
  Shared vocabulary of the development: JavaScript strings as lists of UTF-16 code units,
  JavaScript truthiness of optional strings, the \<open>Map\<close> objects of the source as
  insertion-ordered association lists, the sequencing of stateful steps that may throw, and
  the generic lemmas on lists and sorting that the components use.
\<close>

named_theorems store_laws \<open>lookup laws of the insertion-ordered maps\<close>

section \<open>JavaScript strings\<close>

text \<open>
  A JavaScript string is a sequence of 16-bit code units; nothing forces surrogates to come
  in pairs. \<open>js\<close> turns an ASCII literal of the source into such a string.
\<close>

type_synonym jstr = "16 word list"

definition uc :: "char \<Rightarrow> 16 word" where
  "uc c = of_nat (of_char c)"

definition js :: "string \<Rightarrow> jstr" where
  "js s = map uc s"

lemma of_char_less_256: "of_char c < (256::nat)"
  by (simp add: of_char_def)

lemma unat_uc: "unat (uc c) = of_char c"
proof -
  have "of_char c < (65536::nat)" using of_char_less_256 [of c] by linarith
  then show ?thesis by (simp add: uc_def unat_of_nat take_bit_eq_mod)
qed

lemma uc_eq_iff [simp]: "uc c = uc d \<longleftrightarrow> c = d"
proof
  assume "uc c = uc d"
  then have "unat (uc c) = unat (uc d)" by simp
  then show "c = d" by (simp add: unat_uc)
qed simp

lemma inj_uc: "inj uc"
  by (simp add: inj_def)

lemma js_eq_iff [simp]: "js s = js t \<longleftrightarrow> s = t"
  by (simp add: js_def inj_map_eq_map [OF inj_uc])

lemma js_Nil [simp]: "js [] = []"
  by (simp add: js_def)

lemma js_Cons: "js (c # s) = uc c # js s"
  by (simp add: js_def)

lemma js_append: "js (s @ t) = js s @ js t"
  by (simp add: js_def)

lemma js_eq_Nil_iff [simp]: "js s = [] \<longleftrightarrow> s = []" "[] = js s \<longleftrightarrow> s = []"
  by (simp_all add: js_def)

text \<open>An optional string field is truthy when it is present and not empty.\<close>

fun truthy :: "jstr option \<Rightarrow> bool" where
  "truthy None = False"
| "truthy (Some s) = (s \<noteq> [])"

lemma truthy_iff: "truthy x \<longleftrightarrow> (\<exists>s. x = Some s \<and> s \<noteq> [])"
  by (cases x) simp_all

text \<open>Decimal digits of a natural number, as \<open>String(n)\<close> prints them.\<close>

definition digit_unit :: "nat \<Rightarrow> 16 word" where
  "digit_unit d = of_nat (48 + d)"

fun nat_dec :: "nat \<Rightarrow> jstr" where
  "nat_dec n = (if n < 10 then [digit_unit n] else nat_dec (n div 10) @ [digit_unit (n mod 10)])"

declare nat_dec.simps [simp del]

definition int_dec :: "int \<Rightarrow> jstr" where
  "int_dec i = (if i < 0 then uc CHR ''-'' # nat_dec (nat (- i)) else nat_dec (nat i))"

fun intercalate :: "'a list \<Rightarrow> 'a list list \<Rightarrow> 'a list" where
  "intercalate sep [] = []"
| "intercalate sep [x] = x"
| "intercalate sep (x # y # xs) = x @ sep @ intercalate sep (y # xs)"

section \<open>Insertion-ordered maps\<close>

text \<open>
  A JavaScript \<open>Map\<close> remembers the insertion order of its keys; \<open>set\<close> on a present key
  keeps its position. The model is an association list with distinct keys; \<open>get\<close> is the
  library's \<open>map_of\<close>.
\<close>

type_synonym ('k, 'v) omap = "('k \<times> 'v) list"

fun omap_set :: "'k \<Rightarrow> 'v \<Rightarrow> ('k, 'v) omap \<Rightarrow> ('k, 'v) omap" where
  "omap_set k v [] = [(k, v)]"
| "omap_set k v ((k', v') # m) = (if k' = k then (k, v) # m else (k', v') # omap_set k v m)"

definition omap_delete :: "'k \<Rightarrow> ('k, 'v) omap \<Rightarrow> ('k, 'v) omap" where
  "omap_delete k m = filter (\<lambda>(k', v). k' \<noteq> k) m"

abbreviation okeys :: "('k, 'v) omap \<Rightarrow> 'k list" where
  "okeys m \<equiv> map fst m"

definition omap_wf :: "('k, 'v) omap \<Rightarrow> bool" where
  "omap_wf m \<longleftrightarrow> distinct (okeys m)"

lemma map_of_omap_set [store_laws]: "map_of (omap_set k v m) = (map_of m)(k \<mapsto> v)"
  by (induction k v m rule: omap_set.induct) auto

lemma map_of_omap_delete [store_laws]: "map_of (omap_delete k m) = (map_of m)(k := None)"
  by (induction m) (auto simp: omap_delete_def fun_eq_iff)

lemma set_okeys_omap_set: "set (okeys (omap_set k v m)) = insert k (set (okeys m))"
  by (induction k v m rule: omap_set.induct) auto

lemma in_okeys_iff: "k \<in> fst ` set m \<longleftrightarrow> (\<exists>v. (k, v) \<in> set m)"
  by force

lemma omap_wf_Nil [simp]: "omap_wf []"
  by (simp add: omap_wf_def)

lemma omap_wf_set: "omap_wf m \<Longrightarrow> omap_wf (omap_set k v m)"
proof (induction m)
  case (Cons p m)
  then show ?case
    by (cases p) (auto simp: omap_wf_def set_okeys_omap_set [unfolded set_map])
qed (simp add: omap_wf_def)

lemma omap_wf_filter: "omap_wf m \<Longrightarrow> omap_wf (filter P m)"
  by (simp add: omap_wf_def distinct_map_filter)

lemma omap_wf_delete: "omap_wf m \<Longrightarrow> omap_wf (omap_delete k m)"
  by (simp add: omap_delete_def omap_wf_filter)

lemma map_of_filter_wf:
  "omap_wf m \<Longrightarrow> map_of (filter P m) k = (case map_of m k of None \<Rightarrow> None | Some v \<Rightarrow> if P (k, v) then Some v else None)"
proof (induction m)
  case (Cons p m)
  then show ?case
    by (cases p) (auto simp: omap_wf_def split: option.splits dest: map_of_SomeD intro: rev_image_eqI)
qed simp

lemma length_omap_set: "length (omap_set k v m) = (if k \<in> set (okeys m) then length m else Suc (length m))"
  by (induction k v m rule: omap_set.induct) auto

section \<open>Sequencing steps that may throw\<close>

text \<open>
  A step takes the state and returns the new state together with either the thrown error
  (\<open>Inl\<close>) or the result (\<open>Inr\<close>). State changed before a throw stays changed, as in the
  source. \<open>and_then\<close> is the sequencing of two statements.
\<close>

type_synonym ('s, 'e, 'a) step = "'s \<Rightarrow> ('e + 'a) \<times> 's"

definition and_then :: "('s, 'e, 'a) step \<Rightarrow> ('a \<Rightarrow> ('s, 'e, 'b) step) \<Rightarrow> ('s, 'e, 'b) step" where
  "and_then m f = (\<lambda>s. case m s of (Inl e, s') \<Rightarrow> (Inl e, s') | (Inr a, s') \<Rightarrow> f a s')"

definition return :: "'a \<Rightarrow> ('s, 'e, 'a) step" where
  "return a = (\<lambda>s. (Inr a, s))"

definition throw :: "'e \<Rightarrow> ('s, 'e, 'a) step" where
  "throw e = (\<lambda>s. (Inl e, s))"

lemma and_then_return [simp]: "and_then (return a) f = f a"
  by (simp add: and_then_def return_def)

lemma and_then_throw [simp]: "and_then (throw e) f = throw e"
  by (simp add: and_then_def throw_def)

lemma and_then_Inr:
  "and_then m f s = (Inr b, s'') \<longleftrightarrow> (\<exists>a s'. m s = (Inr a, s') \<and> f a s' = (Inr b, s''))"
  by (auto simp: and_then_def split: prod.splits sum.splits)

lemma find_SomeD: "find P xs = Some x \<Longrightarrow> x \<in> set xs \<and> P x"
  by (induction xs) (auto split: if_splits)

section \<open>Sorting by distinct keys\<close>

lemma distinct_keys_mset: "mset xs = mset ys \<Longrightarrow> distinct (map fst xs) \<longleftrightarrow> distinct (map fst ys)"
proof -
  assume "mset xs = mset ys"
  then have "mset (map fst xs) = mset (map fst ys)" by simp
  then show ?thesis by (rule mset_eq_imp_distinct_iff)
qed

lemma sort_key_mset_eq:
  assumes "mset xs = mset ys" and "distinct (map fst xs)"
  shows "sort_key fst xs = sort_key (fst :: 'k::linorder \<times> 'v \<Rightarrow> 'k) ys"
proof -
  have inj: "inj_on fst (set xs)" using assms(2) by (simp add: distinct_map)
  have set_eq: "set ys = set xs" using assms(1) by (metis set_mset_mset)
  have "mset (sort_key fst xs) = mset (sort_key fst ys)" using assms(1) by simp
  moreover have "sorted (map fst (sort_key fst xs))" "sorted (map fst (sort_key fst ys))"
    by simp_all
  moreover have "mset (map fst (sort_key fst xs)) = mset (map fst (sort_key fst ys))"
    using assms(1) by (metis mset_map mset_sort)
  ultimately have "map fst (sort_key fst xs) = map fst (sort_key fst ys)"
    by (metis properties_for_sort sorted_sort_id)
  then show ?thesis
    using inj set_eq by (intro map_inj_on [of fst]) (simp_all add: inj_on_def)
qed

end
