(* ===== verification/Js_Values.thy ===== *)
theory Js_Values
  imports Prelude
begin

text \<open>
  JavaScript values as the program handles them (\<open>unknown\<close>, JSON trees and \<open>undefined\<close>),
  and property assignment with the enumeration order of ECMAScript.
  Numbers are the integers a double holds exactly; fractions are not modelled. An object is
  the list of its own enumerable properties in enumeration order: array-index keys in
  ascending numeric order, then the other keys in insertion order.
\<close>

datatype jsval =
    JUndef
  | JNull
  | JBool bool
  | JNum int
  | JStr jstr
  | JArr "jsval list"
  | JObj "(jstr \<times> jsval) list"

abbreviation jlit :: "string \<Rightarrow> jsval" where
  "jlit s \<equiv> JStr (js s)"

section \<open>Conversions of the language\<close>

fun js_truthy :: "jsval \<Rightarrow> bool" where
  "js_truthy JUndef = False"
| "js_truthy JNull = False"
| "js_truthy (JBool b) = b"
| "js_truthy (JNum n) = (n \<noteq> 0)"
| "js_truthy (JStr s) = (s \<noteq> [])"
| "js_truthy (JArr _) = True"
| "js_truthy (JObj _) = True"

text \<open>
  \<open>v.key\<close> (and \<open>v?.key\<close>): reading a property of \<open>undefined\<close> or \<open>null\<close> throws a
  \<open>TypeError\<close> (\<open>None\<close>); the keys the program reads are not properties of the built-in
  prototypes, so any other value without the key gives \<open>undefined\<close>.
\<close>

definition own_value :: "(jstr \<times> jsval) list \<Rightarrow> jstr \<Rightarrow> jsval" where
  "own_value kvs k = (case map_of kvs k of None \<Rightarrow> JUndef | Some v \<Rightarrow> v)"

fun js_member :: "jsval \<Rightarrow> jstr \<Rightarrow> jsval option" where
  "js_member JUndef k = None"
| "js_member JNull k = None"
| "js_member (JObj kvs) k = Some (own_value kvs k)"
| "js_member _ k = Some JUndef"

definition js_member_opt :: "jsval \<Rightarrow> jstr \<Rightarrow> jsval" where
  "js_member_opt v k = (case js_member v k of None \<Rightarrow> JUndef | Some w \<Rightarrow> w)"

text \<open>\<open>String(v)\<close>, also what a template literal prints.\<close>

fun js_to_string :: "jsval \<Rightarrow> jstr" where
  "js_to_string JUndef = js ''undefined''"
| "js_to_string JNull = js ''null''"
| "js_to_string (JBool b) = (if b then js ''true'' else js ''false'')"
| "js_to_string (JNum n) = int_dec n"
| "js_to_string (JStr s) = s"
| "js_to_string (JArr vs) =
     intercalate (js '','') (map (\<lambda>v. if v = JUndef \<or> v = JNull then [] else js_to_string v) vs)"
| "js_to_string (JObj _) = js ''[object Object]''"

section \<open>Dates\<close>

text \<open>The date (year, month, day) of a day number counted from 1970-01-01.\<close>

definition civil_date :: "int \<Rightarrow> int \<times> int \<times> int" where
  "civil_date days =
     (let z = days + 719468; era = z div 146097; doe = z mod 146097;
          yoe = (doe - doe div 1460 + doe div 36524 - doe div 146096) div 365;
          doy = doe - (365 * yoe + yoe div 4 - yoe div 100);
          mp = (5 * doy + 2) div 153;
          d = doy - (153 * mp + 2) div 5 + 1;
          m = (if mp < 10 then mp + 3 else mp - 9)
      in (yoe + era * 400 + (if m \<le> 2 then 1 else 0), m, d))"

definition zero_pad :: "nat \<Rightarrow> int \<Rightarrow> jstr" where
  "zero_pad w n = (let ds = nat_dec (nat n) in replicate (w - length ds) (uc CHR ''0'') @ ds)"

definition iso_year :: "int \<Rightarrow> jstr" where
  "iso_year y =
     (if 0 \<le> y \<and> y \<le> 9999 then zero_pad 4 y
      else (if y < 0 then js ''-'' else js ''+'') @ zero_pad 6 (abs y))"

text \<open>\<open>new Date(ms).toISOString()\<close> of a time value in range.\<close>

definition iso_string :: "int \<Rightarrow> jstr" where
  "iso_string ms =
     (case civil_date (ms div 86400000) of (y, m, d) \<Rightarrow>
        let t = ms mod 86400000 in
        iso_year y @ js ''-'' @ zero_pad 2 m @ js ''-'' @ zero_pad 2 d @ js ''T'' @
        zero_pad 2 (t div 3600000) @ js '':'' @ zero_pad 2 (t div 60000 mod 60) @ js '':'' @
        zero_pad 2 (t div 1000 mod 60) @ js ''.'' @ zero_pad 3 (t mod 1000) @ js ''Z'')"

section \<open>Property assignment\<close>

definition is_digit_unit :: "16 word \<Rightarrow> bool" where
  "is_digit_unit u \<longleftrightarrow> 48 \<le> unat u \<and> unat u \<le> 57"

definition digits_value :: "jstr \<Rightarrow> nat" where
  "digits_value s = foldl (\<lambda>n u. 10 * n + (unat u - 48)) 0 s"

text \<open>An array index is the canonical decimal of a number below \<open>2^32 - 1\<close>.\<close>

definition is_array_index :: "jstr \<Rightarrow> bool" where
  "is_array_index k \<longleftrightarrow> k \<noteq> [] \<and> length k \<le> 10 \<and> list_all is_digit_unit k \<and>
     (hd k \<noteq> uc CHR ''0'' \<or> length k = 1) \<and> digits_value k < 4294967295"

fun put_index :: "jstr \<Rightarrow> 'v \<Rightarrow> (jstr \<times> 'v) list \<Rightarrow> (jstr \<times> 'v) list" where
  "put_index k v [] = [(k, v)]"
| "put_index k v ((k', v') # o') =
     (if is_array_index k' \<and> digits_value k' < digits_value k then (k', v') # put_index k v o'
      else (k, v) # (k', v') # o')"

text \<open>
  \<open>o[k] = v\<close> on an object with the ordinary prototype: a present key keeps its place, a new
  array index goes among the indices, any other new key to the end. Assigning \<open>__proto__\<close>
  runs the setter of \<open>Object.prototype\<close> and creates no own property.
\<close>

definition js_assign :: "jstr \<Rightarrow> 'v \<Rightarrow> (jstr \<times> 'v) list \<Rightarrow> (jstr \<times> 'v) list" where
  "js_assign k v kvs =
     (if k = js ''__proto__'' then kvs
      else if k \<in> set (map fst kvs) then omap_set k v kvs
      else if is_array_index k then put_index k v kvs
      else kvs @ [(k, v)])"

definition js_assign_all :: "(jstr \<times> 'v) list \<Rightarrow> (jstr \<times> 'v) list \<Rightarrow> (jstr \<times> 'v) list" where
  "js_assign_all kvs acc = foldl (\<lambda>a (k, v). js_assign k v a) acc kvs"

lemma mset_put_index: "mset (put_index k v kvs) = add_mset (k, v) (mset kvs)"
  by (induction k v kvs rule: put_index.induct) auto

lemma mset_js_assign_new:
  "k \<notin> set (map fst kvs) \<Longrightarrow>
   mset (js_assign k v kvs) = (if k = js ''__proto__'' then mset kvs else add_mset (k, v) (mset kvs))"
  by (simp add: js_assign_def mset_put_index)

lemma mset_js_assign_all:
  assumes "distinct (map fst kvs)" and "set (map fst kvs) \<inter> set (map fst acc) = {}"
  shows "mset (js_assign_all kvs acc) = mset (filter (\<lambda>(k, v). k \<noteq> js ''__proto__'') kvs) + mset acc"
  using assms
proof (induction kvs arbitrary: acc)
  case Nil
  then show ?case by (simp add: js_assign_all_def)
next
  case (Cons p kvs)
  obtain k v where p: "p = (k, v)" by (cases p)
  let ?acc = "js_assign k v acc"
  have new: "k \<notin> set (map fst acc)" using Cons.prems p by auto
  have m: "mset ?acc = (if k = js ''__proto__'' then mset acc else add_mset (k, v) (mset acc))"
    using mset_js_assign_new [OF new] .
  have "set (map fst ?acc) \<subseteq> insert k (set (map fst acc))"
    using m by (metis (no_types, lifting) list.set_map set_mset_mset set_mset_add_mset_insert
        image_insert fst_conv insertI2 subsetI)
  moreover have "set (map fst kvs) \<inter> insert k (set (map fst acc)) = {}"
    using Cons.prems p by simp
  ultimately have disj: "set (map fst kvs) \<inter> set (map fst ?acc) = {}" by blast
  have "distinct (map fst kvs)" using Cons.prems by simp
  then have "mset (js_assign_all kvs ?acc) =
      mset (filter (\<lambda>(k, v). k \<noteq> js ''__proto__'') kvs) + mset ?acc"
    using disj by (rule Cons.IH)
  then show ?case using m p by (simp add: js_assign_all_def)
qed

end
