(* ===== verification/Schema_Complexity.thy ===== *)
theory Schema_Complexity
  imports Js_Values
begin

text \<open>
  \<open>packages/core/src/json-schema-validator.ts\<close>: the walk that bounds the size and nesting of
  an untrusted JSON Schema before it reaches the compiler, against a reference count, and the
  compilation around it. The compiler AJV is a parameter.
\<close>

section \<open>The walk\<close>

text \<open>The state of the walk is \<open>(totalNodes, maxSeenDepth)\<close>; an error carries nodes and depth.\<close>

datatype complexity_error = Too_Many_Nodes nat nat | Too_Deep nat nat

type_synonym walk_state = "nat \<times> nat"

definition enter_node :: "nat \<Rightarrow> nat \<Rightarrow> nat \<Rightarrow> walk_state \<Rightarrow> complexity_error + walk_state" where
  "enter_node maxNodes maxDepth depth st =
     (let totalNodes = Suc (fst st); maxSeen = snd st in
      if totalNodes > maxNodes then Inl (Too_Many_Nodes totalNodes maxSeen)
      else if depth > maxDepth then Inl (Too_Deep totalNodes depth)
      else Inr (totalNodes, maxSeen))"

definition see_depth :: "nat \<Rightarrow> walk_state \<Rightarrow> walk_state" where
  "see_depth depth st = (fst st, max depth (snd st))"

fun walk :: "nat \<Rightarrow> nat \<Rightarrow> jsval \<Rightarrow> nat \<Rightarrow> walk_state \<Rightarrow> complexity_error + walk_state"
  and walk_items :: "nat \<Rightarrow> nat \<Rightarrow> jsval list \<Rightarrow> nat \<Rightarrow> walk_state \<Rightarrow> complexity_error + walk_state"
  and walk_values :: "nat \<Rightarrow> nat \<Rightarrow> (jstr \<times> jsval) list \<Rightarrow> nat \<Rightarrow> walk_state \<Rightarrow> complexity_error + walk_state"
where
  "walk maxNodes maxDepth (JArr vs) depth st =
     (case enter_node maxNodes maxDepth depth (see_depth depth st) of
        Inl e \<Rightarrow> Inl e | Inr st' \<Rightarrow> walk_items maxNodes maxDepth vs (depth + 1) st')"
| "walk maxNodes maxDepth (JObj kvs) depth st =
     (case enter_node maxNodes maxDepth depth (see_depth depth st) of
        Inl e \<Rightarrow> Inl e | Inr st' \<Rightarrow> walk_values maxNodes maxDepth kvs (depth + 1) st')"
| "walk maxNodes maxDepth v depth st = Inr (see_depth depth st)"
| "walk_items maxNodes maxDepth [] depth st = Inr st"
| "walk_items maxNodes maxDepth (v # vs) depth st =
     (case walk maxNodes maxDepth v depth st of
        Inl e \<Rightarrow> Inl e | Inr st' \<Rightarrow> walk_items maxNodes maxDepth vs depth st')"
| "walk_values maxNodes maxDepth [] depth st = Inr st"
| "walk_values maxNodes maxDepth ((k, v) # kvs) depth st =
     (case walk maxNodes maxDepth v depth st of
        Inl e \<Rightarrow> Inl e | Inr st' \<Rightarrow> walk_values maxNodes maxDepth kvs depth st')"

definition validateSchemaComplexity :: "jsval \<Rightarrow> nat \<Rightarrow> nat \<Rightarrow> complexity_error + unit" where
  "validateSchemaComplexity schema maxNodes maxDepth =
     (case walk maxNodes maxDepth schema 1 (0, 0) of Inl e \<Rightarrow> Inl e | Inr _ \<Rightarrow> Inr ())"

section \<open>Compilation\<close>

datatype path_segment = Seg_Index int | Seg_Key jstr

record schema_issue =
  is_message :: jstr
  is_path :: "path_segment list"

record ajv_error =
  aj_instancePath :: "jstr option"
  aj_message :: "jstr option"

datatype compile_error = Schema_Complexity complexity_error | Schema_Compilation jstr

text \<open>\<open>s.split('/').filter(Boolean)\<close>\<close>

fun split_slash :: "jstr \<Rightarrow> jstr \<Rightarrow> jstr list" where
  "split_slash acc [] = (if acc = [] then [] else [acc])"
| "split_slash acc (u # s) =
     (if u = uc CHR ''/'' then (if acc = [] then [] else [acc]) @ split_slash [] s
      else split_slash (acc @ [u]) s)"

text \<open>
  A segment that \<open>Number\<close> reads as an integer and \<open>String\<close> prints back: a decimal in the
  range of exact integers.
\<close>

definition segment_int :: "jstr \<Rightarrow> int option" where
  "segment_int s =
     (let neg = (s \<noteq> [] \<and> hd s = uc CHR ''-''); ds = (if neg then tl s else s);
          n = (if neg then - int (digits_value ds) else int (digits_value ds))
      in if ds \<noteq> [] \<and> list_all is_digit_unit ds \<and> int_dec n = s \<and> \<bar>n\<bar> \<le> 9007199254740992
         then Some n else None)"

definition path_of :: "jstr \<Rightarrow> path_segment list" where
  "path_of p = map (\<lambda>s. case segment_int s of Some n \<Rightarrow> Seg_Index n | None \<Rightarrow> Seg_Key s) (split_slash [] p)"

definition str_or :: "jstr option \<Rightarrow> jstr \<Rightarrow> jstr" where
  "str_or s d = (if truthy s then the s else d)"

definition issue_of :: "ajv_error \<Rightarrow> schema_issue" where
  "issue_of e =
     \<lparr>is_message = str_or (aj_instancePath e) (js ''<root>'') @ js '' '' @
        (case aj_message e of None \<Rightarrow> js ''failed validation'' | Some m \<Rightarrow> m),
      is_path = path_of (str_or (aj_instancePath e) [])\<rparr>"

text \<open>
  AJV compiles a schema to a predicate with an error list, or throws. The result of
  \<open>safeParse\<close> is the list of issues or the value itself.
\<close>

type_synonym ajv = "jsval \<Rightarrow> jstr + (jsval \<Rightarrow> bool \<times> ajv_error list)"

type_synonym json_validator = "jsval \<Rightarrow> schema_issue list + jsval"

definition no_constraint :: "jsval \<Rightarrow> bool" where
  "no_constraint schema \<longleftrightarrow> schema \<in> {JUndef, JNull, JObj [], JArr []}"

definition refine_with :: "(jsval \<Rightarrow> bool \<times> ajv_error list) \<Rightarrow> json_validator" where
  "refine_with validate v =
     (case validate v of
        (True, _) \<Rightarrow> Inr v
      | (False, []) \<Rightarrow> Inr v
      | (False, errs) \<Rightarrow> Inl (map issue_of errs))"

definition compileJsonSchema :: "ajv \<Rightarrow> jsval \<Rightarrow> bool \<Rightarrow> compile_error + json_validator" where
  "compileJsonSchema ajv schema skip =
     (if skip then Inr Inr
      else if no_constraint schema then Inr Inr
      else case validateSchemaComplexity schema 1000 32 of
        Inl e \<Rightarrow> Inl (Schema_Complexity e)
      | Inr _ \<Rightarrow>
          (case ajv schema of
             Inl msg \<Rightarrow> Inl (Schema_Compilation msg)
           | Inr validate \<Rightarrow> Inr (refine_with validate)))"

section \<open>Reference count\<close>

fun nodes :: "jsval \<Rightarrow> nat" where
  "nodes (JArr vs) = Suc (sum_list (map nodes vs))"
| "nodes (JObj kvs) = Suc (sum_list (map (\<lambda>(k, v). nodes v) kvs))"
| "nodes v = 0"

fun nesting :: "jsval \<Rightarrow> nat" where
  "nesting (JArr vs) = Suc (fold max (map nesting vs) 0)"
| "nesting (JObj kvs) = Suc (fold max (map (\<lambda>(k, v). nesting v) kvs) 0)"
| "nesting v = 0"

lemma fold_max_Cons: "fold max ns (a :: nat) = max a (fold max ns 0)"
proof (induction ns arbitrary: a)
  case (Cons x ns)
  show ?case
    using Cons [of "max x a"] Cons [of x] by (simp add: max.assoc max.left_commute max.commute)
qed simp

definition fits :: "nat \<Rightarrow> nat \<Rightarrow> nat \<Rightarrow> nat \<Rightarrow> nat \<Rightarrow> nat \<Rightarrow> bool" where
  "fits maxNodes maxDepth ns h depth n \<longleftrightarrow> n + ns \<le> maxNodes \<and> (h = 0 \<or> depth + h \<le> Suc maxDepth)"

text \<open>What a walk over \<open>ns\<close> nodes of nesting \<open>h\<close> must return.\<close>

definition walk_spec ::
  "nat \<Rightarrow> nat \<Rightarrow> nat \<Rightarrow> nat \<Rightarrow> nat \<Rightarrow> walk_state \<Rightarrow> complexity_error + walk_state \<Rightarrow> bool" where
  "walk_spec maxNodes maxDepth ns h depth st r \<longleftrightarrow> fst st \<le> maxNodes \<longrightarrow>
     (if fits maxNodes maxDepth ns h depth (fst st) then \<exists>m'. r = Inr (fst st + ns, m') else \<exists>e. r = Inl e)"

lemma walk_spec_seq:
  assumes "walk_spec N D ns h d st r" and "\<And>st'. r = Inr st' \<Longrightarrow> walk_spec N D ns' h' d st' (f st')"
  shows "walk_spec N D (ns + ns') (max h h') d st (case r of Inl e \<Rightarrow> Inl e | Inr st' \<Rightarrow> f st')"
proof (cases "fst st \<le> N \<and> fits N D ns h d (fst st)")
  case True
  then obtain m' where r: "r = Inr (fst st + ns, m')" using assms(1) by (auto simp: walk_spec_def)
  with assms(2) [OF r] True show ?thesis
    by (auto simp: walk_spec_def fits_def add.assoc max_def)
next
  case False
  then show ?thesis using assms(1) by (auto simp: walk_spec_def fits_def max_def)
qed

lemma walk_spec_enter:
  assumes "\<And>st'. enter_node N D d (see_depth d st) = Inr st' \<Longrightarrow> walk_spec N D ns h (d + 1) st' (f st')"
  shows "walk_spec N D (Suc ns) (Suc h) d st
    (case enter_node N D d (see_depth d st) of Inl e \<Rightarrow> Inl e | Inr st' \<Rightarrow> f st')"
proof (cases "Suc (fst st) \<le> N \<and> d \<le> D")
  case True
  then have e: "enter_node N D d (see_depth d st) = Inr (Suc (fst st), max d (snd st))"
    by (simp add: enter_node_def see_depth_def)
  from assms [OF e] True show ?thesis by (auto simp: e walk_spec_def fits_def)
next
  case False
  then show ?thesis by (auto simp: enter_node_def see_depth_def walk_spec_def fits_def Let_def)
qed

lemma walk_spec_leaf: "walk_spec N D 0 0 d st (Inr (fst st, m))"
  by (simp add: walk_spec_def fits_def)

lemma walk_spec_empty: "walk_spec N D 0 0 d st (Inr st)"
  using walk_spec_leaf [of N D d st "snd st"] by simp

lemma walk_meets_spec:
  "walk_spec N D (nodes v) (nesting v) d st (walk N D v d st)"
  "walk_spec N D (sum_list (map nodes vs)) (fold max (map nesting vs) 0) d st (walk_items N D vs d st)"
  "walk_spec N D (sum_list (map (\<lambda>(k, v). nodes v) kvs)) (fold max (map (\<lambda>(k, v). nesting v) kvs) 0) d st
     (walk_values N D kvs d st)"
proof (induction N D v d st and N D vs d st and N D kvs d st rule: walk_walk_items_walk_values.induct,
    goal_cases arr obj undef null bool num str nil cons vnil vcons)
  case arr
  then show ?case unfolding walk.simps nodes.simps nesting.simps by (rule walk_spec_enter)
next
  case obj
  then show ?case unfolding walk.simps nodes.simps nesting.simps by (rule walk_spec_enter)
next
  case (cons N D v vs d st)
  from walk_spec_seq [OF cons] show ?case by (simp add: fold_max_Cons [of _ "nesting v"])
next
  case (vcons N D k v kvs d st)
  from walk_spec_seq [OF vcons] show ?case by (simp add: fold_max_Cons [of _ "nesting v"])
qed (simp_all add: walk_spec_leaf walk_spec_empty see_depth_def)

text \<open>
  C30. The complexity check rejects a schema exactly when it has more than the allowed number of
  objects and arrays or nests them deeper than allowed; it always returns.
\<close>

theorem validateSchemaComplexity_iff:
  "validateSchemaComplexity schema maxNodes maxDepth = Inr () \<longleftrightarrow>
     nodes schema \<le> maxNodes \<and> nesting schema \<le> maxDepth"
proof -
  have "nesting schema = 0 \<longleftrightarrow> nodes schema = 0" by (cases schema) simp_all
  then show ?thesis
    using walk_meets_spec(1) [of maxNodes maxDepth schema 1 "(0, 0)"]
    by (auto simp: validateSchemaComplexity_def walk_spec_def fits_def split: sum.splits if_splits)
qed

text \<open>
  A schema that constrains something is never compiled to a validator that lets everything
  through by accident: unless validation was switched off, the validator accepts a value
  exactly when the compiler's predicate accepts it or reports no error, and the schema obeys
  the limits of 1000 nodes and depth 32.
\<close>

theorem compileJsonSchema_faithful:
  assumes "compileJsonSchema ajv schema False = Inr validator" and "\<not> no_constraint schema"
  shows "\<exists>validate. ajv schema = Inr validate \<and> nodes schema \<le> 1000 \<and> nesting schema \<le> 32 \<and>
    (\<forall>v. (\<exists>w. validator v = Inr w) \<longleftrightarrow> fst (validate v) \<or> snd (validate v) = []) \<and>
    (\<forall>v w. validator v = Inr w \<longrightarrow> w = v)"
proof -
  from assms have ok: "validateSchemaComplexity schema 1000 32 = Inr ()"
    by (auto simp: compileJsonSchema_def split: sum.splits)
  then have "nodes schema \<le> 1000 \<and> nesting schema \<le> 32"
    using walk_meets_spec(1) [of 1000 32 schema 1 "(0, 0)"]
    by (cases schema) (auto simp: validateSchemaComplexity_def walk_spec_def fits_def split: sum.splits if_splits)
  moreover from assms ok obtain validate where v: "ajv schema = Inr validate" "validator = refine_with validate"
    by (auto simp: compileJsonSchema_def split: sum.splits)
  have "(\<exists>w. refine_with validate v = Inr w) \<longleftrightarrow> fst (validate v) \<or> snd (validate v) = []"
    "\<forall>w. refine_with validate v = Inr w \<longrightarrow> w = v" for v
    by (cases "validate v"; cases "fst (validate v)"; cases "snd (validate v)"; simp add: refine_with_def)+
  ultimately show ?thesis using v by blast
qed

definition toy_ajv :: ajv where
  "toy_ajv schema = Inr (\<lambda>v. (v = JNum 1, [\<lparr>aj_instancePath = Some (js ''/a/10''), aj_message = None\<rparr>]))"

theorem compileJsonSchema_faithful_witness:
  "\<exists>validator. compileJsonSchema toy_ajv (JObj [(js ''type'', jlit ''number'')]) False = Inr validator \<and>
     (\<forall>v w. validator v = Inr w \<longrightarrow> w = v)"
proof -
  let ?s = "JObj [(js ''type'', jlit ''number'')]"
  have "compileJsonSchema toy_ajv ?s False = Inr (refine_with (\<lambda>v. (v = JNum 1,
      [\<lparr>aj_instancePath = Some (js ''/a/10''), aj_message = None\<rparr>])))"
    by (simp add: compileJsonSchema_def no_constraint_def validateSchemaComplexity_def enter_node_def
        see_depth_def toy_ajv_def)
  from compileJsonSchema_faithful [OF this] show ?thesis
    using \<open>compileJsonSchema toy_ajv ?s False = _\<close> by (auto simp: no_constraint_def)
qed

end
