(* ===== verification/Json_Text.thy ===== *)
theory Json_Text
  imports Js_Values
begin

text \<open>
  \<open>JSON.stringify\<close> of the values of \<open>Js_Values\<close>, and the fact the hashes rest on: the
  text determines the value, up to the \<open>undefined\<close> entries that the text leaves out.
\<close>

section \<open>JSON text\<close>

definition is_high :: "16 word \<Rightarrow> bool" where
  "is_high u \<longleftrightarrow> 55296 \<le> unat u \<and> unat u \<le> 56319"

definition is_low :: "16 word \<Rightarrow> bool" where
  "is_low u \<longleftrightarrow> 56320 \<le> unat u \<and> unat u \<le> 57343"

definition hex_unit :: "nat \<Rightarrow> 16 word" where
  "hex_unit d = of_nat (if d < 10 then 48 + d else 87 + d)"

definition u_escape :: "16 word \<Rightarrow> jstr" where
  "u_escape u = (let n = unat u in
     [92, 117, hex_unit (n div 4096), hex_unit (n div 256 mod 16),
      hex_unit (n div 16 mod 16), hex_unit (n mod 16)])"

text \<open>\<open>QuoteJSONString\<close>: short escapes, four-digit hexadecimal escapes for other controls and for lone surrogates.\<close>

definition escape_unit :: "16 word \<Rightarrow> jstr" where
  "escape_unit u =
     (if u = 8 then [92, 98] else if u = 9 then [92, 116] else if u = 10 then [92, 110]
      else if u = 12 then [92, 102] else if u = 13 then [92, 114]
      else if u = 34 then [92, 34] else if u = 92 then [92, 92]
      else if unat u < 32 \<or> is_high u \<or> is_low u then u_escape u
      else [u])"

fun escape_units :: "jstr \<Rightarrow> jstr" where
  "escape_units [] = []"
| "escape_units [u] = escape_unit u"
| "escape_units (u # w # s) =
     (if is_high u \<and> is_low w then u # w # escape_units s
      else escape_unit u @ escape_units (w # s))"

definition quote_json :: "jstr \<Rightarrow> jstr" where
  "quote_json s = [34] @ escape_units s @ [34]"

text \<open>
  \<open>ser\<close> is \<open>SerializeJSONProperty\<close> inside a container: \<open>undefined\<close> prints as \<open>null\<close> in an
  array, and a property whose value is \<open>undefined\<close> is left out. At the top level
  \<open>JSON.stringify(undefined)\<close> is \<open>undefined\<close> (\<open>None\<close>).
\<close>

fun ser :: "jsval \<Rightarrow> jstr" where
  "ser JUndef = js ''null''"
| "ser JNull = js ''null''"
| "ser (JBool b) = (if b then js ''true'' else js ''false'')"
| "ser (JNum n) = int_dec n"
| "ser (JStr s) = quote_json s"
| "ser (JArr vs) = [91] @ intercalate [44] (map ser vs) @ [93]"
| "ser (JObj kvs) = [123] @
     intercalate [44] (map (\<lambda>(k, v). quote_json k @ [58] @ ser v) (filter (\<lambda>(k, v). v \<noteq> JUndef) kvs))
     @ [125]"

definition json_stringify :: "jsval \<Rightarrow> jstr option" where
  "json_stringify v = (if v = JUndef then None else Some (ser v))"

section \<open>The text determines the value\<close>

text \<open>Reading a quoted string back, as any JSON reader does.\<close>

definition hex_value :: "16 word \<Rightarrow> nat" where
  "hex_value u = (if unat u < 58 then unat u - 48 else unat u - 87)"

definition short_unescape :: "16 word \<Rightarrow> 16 word" where
  "short_unescape c = (if c = 98 then 8 else if c = 116 then 9 else if c = 110 then 10
     else if c = 102 then 12 else if c = 114 then 13 else c)"

definition hex4 :: "16 word \<Rightarrow> 16 word \<Rightarrow> 16 word \<Rightarrow> 16 word \<Rightarrow> 16 word" where
  "hex4 a b c d = of_nat (hex_value a * 4096 + hex_value b * 256 + hex_value c * 16 + hex_value d)"

definition cons_read :: "16 word \<Rightarrow> (jstr \<times> jstr) option \<Rightarrow> (jstr \<times> jstr) option" where
  "cons_read u r = map_option (\<lambda>(s, rest). (u # s, rest)) r"

fun read_units :: "jstr \<Rightarrow> (jstr \<times> jstr) option" where
  "read_units [] = None"
| "read_units (u # rest) =
     (if u = 34 then Some ([], rest)
      else if u = 92 then
        (case rest of
           [] \<Rightarrow> None
         | c # rest1 \<Rightarrow>
             if c = 117 then
               (case rest1 of
                  a # b # c' # d # rest2 \<Rightarrow> cons_read (hex4 a b c' d) (read_units rest2)
                | _ \<Rightarrow> None)
             else cons_read (short_unescape c) (read_units rest1))
      else cons_read u (read_units rest))"

lemma hex_value_unit: "d < 16 \<Longrightarrow> hex_value (hex_unit d) = d"
  by (auto simp: hex_value_def hex_unit_def unat_of_nat take_bit_eq_mod simp del: of_nat_add)

lemma hex4_u_escape:
  "hex4 (hex_unit (unat u div 4096)) (hex_unit (unat u div 256 mod 16))
        (hex_unit (unat u div 16 mod 16)) (hex_unit (unat u mod 16)) = (u :: 16 word)"
proof -
  have "unat u < 65536" using unsigned_less [of u] by simp
  then have d: "unat u div 4096 < 16" by (simp add: less_mult_imp_div_less)
  have sum: "unat u div 4096 * 4096 + unat u div 256 mod 16 * 256
      + unat u div 16 mod 16 * 16 + unat u mod 16 = unat u"
  proof -
    have b: "unat u div 256 = unat u div 16 div 16" "unat u div 4096 = unat u div 16 div 16 div 16"
      by (simp_all add: div_mult2_eq [symmetric])
    show ?thesis unfolding b
      using div_mult_mod_eq [of "unat u" 16] div_mult_mod_eq [of "unat u div 16" 16]
        div_mult_mod_eq [of "unat u div 16 div 16" 16]
      by linarith
  qed
  show ?thesis
    unfolding hex4_def hex_value_unit [OF d] by (simp add: hex_value_unit sum del: of_nat_add of_nat_mult)
qed

lemma read_escape_unit: "read_units (escape_unit u @ s) = cons_read u (read_units s)"
  by (auto simp: escape_unit_def u_escape_def Let_def short_unescape_def hex4_u_escape
      is_high_def is_low_def)

lemma read_escape_units: "read_units (escape_units s @ 34 # r) = Some (s, r)"
proof (induction s rule: escape_units.induct)
  case (3 u w s)
  show ?case
  proof (cases "is_high u \<and> is_low w")
    case True
    then have "u \<noteq> 34" "u \<noteq> 92" "w \<noteq> 34" "w \<noteq> 92" by (auto simp: is_high_def is_low_def)
    with True 3 show ?thesis by (simp add: cons_read_def)
  next
    case False
    then have "escape_units (u # w # s) = escape_unit u @ escape_units (w # s)" by auto
    with 3 False show ?thesis
      by (simp add: read_escape_unit cons_read_def del: read_units.simps escape_units.simps)
  qed
qed (simp_all add: read_escape_unit cons_read_def)

lemma quote_json_prefix:
  assumes "quote_json s @ r = quote_json t @ r'"
  shows "s = t \<and> r = r'"
proof -
  have "escape_units s @ 34 # r = escape_units t @ 34 # r'"
    using assms by (simp add: quote_json_def)
  then have "Some (s, r) = Some (t, r')" by (metis read_escape_units)
  then show ?thesis by simp
qed

text \<open>Decimal numerals: all digits, and the digits give the number back.\<close>

lemma unat_digit_unit: "d < 10 \<Longrightarrow> unat (digit_unit d) = 48 + d"
  by (simp add: digit_unit_def unat_of_nat take_bit_eq_mod del: of_nat_add)

lemma digits_value_snoc: "digits_value (s @ [u]) = 10 * digits_value s + (unat u - 48)"
  by (simp add: digits_value_def)

lemma digit_unit_is_digit: "d < 10 \<Longrightarrow> is_digit_unit (digit_unit d)"
  by (simp add: is_digit_unit_def unat_digit_unit)

lemma nat_dec_digits: "list_all is_digit_unit (nat_dec n)"
proof (induction n rule: nat_dec.induct)
  case (1 n)
  then show ?case
    by (subst nat_dec.simps) (simp add: digit_unit_is_digit)
qed

lemma nat_dec_value: "digits_value (nat_dec n) = n"
proof (induction n rule: nat_dec.induct)
  case (1 n)
  show ?case
  proof (cases "n < 10")
    case True
    then show ?thesis by (subst nat_dec.simps) (simp add: digits_value_def unat_digit_unit)
  next
    case False
    with 1 show ?thesis
      by (subst nat_dec.simps) (simp add: digits_value_snoc unat_digit_unit)
  qed
qed

lemma nat_dec_nonempty [simp]: "nat_dec n \<noteq> []"
  by (subst nat_dec.simps) simp

definition delim :: "jstr \<Rightarrow> bool" where
  "delim r \<longleftrightarrow> r = [] \<or> hd r \<in> {44, 93, 125}"

lemma delim_Cons [simp]: "delim (c # r) \<longleftrightarrow> c = 44 \<or> c = 93 \<or> c = 125"
  by (simp add: delim_def)

lemma delim_not_digit: "delim (c # r) \<Longrightarrow> \<not> is_digit_unit c"
  by (auto simp: is_digit_unit_def)

lemma take_digits:
  assumes "list_all is_digit_unit s" and "delim r"
  shows "takeWhile is_digit_unit (s @ r) = s" "dropWhile is_digit_unit (s @ r) = r"
  using assms by (induction s; cases r; auto simp: delim_not_digit)+

lemma nat_dec_prefix:
  assumes eq: "nat_dec m @ r = nat_dec n @ r'" and d: "delim r" "delim r'"
  shows "m = n \<and> r = r'"
proof -
  have "nat_dec m = nat_dec n"
    using eq take_digits(1) [OF nat_dec_digits d(1)] take_digits(1) [OF nat_dec_digits d(2)] by metis
  then have "m = n" by (metis nat_dec_value)
  with eq show ?thesis by simp
qed

lemma hd_nat_dec_digit: "is_digit_unit (hd (nat_dec n))"
  using nat_dec_digits [of n] by (cases "nat_dec n") auto

lemma minus_unit: "uc CHR ''-'' = 45"
  by (simp add: uc_def)

lemma int_dec_prefix:
  assumes eq: "int_dec i @ r = int_dec j @ r'" and d: "delim r" "delim r'"
  shows "i = j \<and> r = r'"
proof -
  have nm: "45 # a \<noteq> nat_dec k @ b" for a b k
    using hd_nat_dec_digit [of k] by (cases "nat_dec k") (auto simp: is_digit_unit_def)
  show ?thesis
  proof (cases "i < 0"; cases "j < 0")
    assume "i < 0" "j < 0"
    with eq have "nat_dec (nat (- i)) @ r = nat_dec (nat (- j)) @ r'" by (simp add: int_dec_def)
    from nat_dec_prefix [OF this d] \<open>i < 0\<close> \<open>j < 0\<close> show ?thesis by auto
  next
    assume "\<not> i < 0" "\<not> j < 0"
    with eq have "nat_dec (nat i) @ r = nat_dec (nat j) @ r'" by (simp add: int_dec_def)
    from nat_dec_prefix [OF this d] \<open>\<not> i < 0\<close> \<open>\<not> j < 0\<close> show ?thesis by auto
  qed (use eq nm in \<open>simp_all add: int_dec_def minus_unit, metis+\<close>)
qed

section \<open>Values without \<open>undefined\<close>\<close>

fun js_defined :: "jsval \<Rightarrow> bool" where
  "js_defined JUndef = False"
| "js_defined (JArr vs) = list_all js_defined vs"
| "js_defined (JObj kvs) = list_all (\<lambda>(k, v). js_defined v) kvs"
| "js_defined _ = True"

text \<open>What the text keeps of a value: \<open>undefined\<close> entries of arrays as \<open>null\<close>, such properties dropped.\<close>

fun js_norm :: "jsval \<Rightarrow> jsval" where
  "js_norm JUndef = JNull"
| "js_norm (JArr vs) = JArr (map js_norm vs)"
| "js_norm (JObj kvs) = JObj (map (\<lambda>(k, v). (k, js_norm v)) (filter (\<lambda>(k, v). v \<noteq> JUndef) kvs))"
| "js_norm v = v"

lemma js_norm_defined: "js_defined (js_norm v)"
  by (induction v rule: js_norm.induct) (auto simp: list_all_iff)

lemma js_norm_not_undef [simp]: "js_norm v \<noteq> JUndef"
  by (cases v) simp_all

lemma ser_norm: "ser (js_norm v) = ser v"
proof (induction v rule: js_norm.induct)
  case (2 vs)
  then show ?case by (simp add: comp_def cong: map_cong)
next
  case (3 kvs)
  let ?d = "filter (\<lambda>(k, v). v \<noteq> JUndef) kvs"
  have f: "filter (\<lambda>(k, v). v \<noteq> JUndef) (map (\<lambda>(k, v). (k, js_norm v)) ?d)
      = map (\<lambda>(k, v). (k, js_norm v)) ?d"
    by (rule filter_True) auto
  have e: "map (\<lambda>(k, v). quote_json k @ [58] @ ser v) (map (\<lambda>(k, v). (k, js_norm v)) ?d)
      = map (\<lambda>(k, v). quote_json k @ [58] @ ser v) ?d"
    using 3 by (auto simp: comp_def)
  show ?case unfolding js_norm.simps ser.simps f e ..
qed simp_all

lemma js_norm_id: "js_defined v \<Longrightarrow> js_norm v = v"
proof (induction v rule: js_norm.induct)
  case (2 vs)
  then show ?case by (simp add: list_all_iff map_idI)
next
  case (3 kvs)
  then have "filter (\<lambda>(k, v). v \<noteq> JUndef) kvs = kvs"
    by (intro filter_True) (auto simp: list_all_iff)
  with 3 show ?case by (auto simp: list_all_iff intro!: map_idI)
qed simp_all

section \<open>Unique reading of the text\<close>

lemma intercalate_Cons: "intercalate sep (x # xs) = x @ concat (map (\<lambda>y. sep @ y) xs)"
  by (induction xs arbitrary: x) simp_all

lemma tail_prefix:
  assumes "\<And>x y r r'. x \<in> set xs \<Longrightarrow> y \<in> set ys \<Longrightarrow> delim r \<Longrightarrow> delim r' \<Longrightarrow>
             f x @ r = f y @ r' \<Longrightarrow> x = y \<and> r = r'"
    and c: "c = 93 \<or> c = 125"
    and "concat (map (\<lambda>y. 44 # f y) xs) @ c # r = concat (map (\<lambda>y. 44 # f y) ys) @ c # r'"
  shows "xs = ys \<and> r = (r' :: jstr)"
  using assms(1,3)
proof (induction xs arbitrary: ys)
  case Nil
  then show ?case using c by (cases ys) auto
next
  case (Cons x xs)
  then obtain y ys' where ys: "ys = y # ys'" using c by (cases ys) auto
  let ?t = "\<lambda>zs q. concat (map (\<lambda>y. 44 # f y) zs) @ c # q"
  have d: "delim (?t zs q)" for zs q using c by (cases zs) auto
  have "f x @ ?t xs r = f y @ ?t ys' r'" using Cons.prems(2) ys by simp
  then have "x = y \<and> ?t xs r = ?t ys' r'"
    using Cons.prems(1) [of x y "?t xs r" "?t ys' r'"] ys d by simp
  moreover from this have "xs = ys' \<and> r = r'"
    using Cons.prems(1) ys by (intro Cons.IH) auto
  ultimately show ?case using ys by simp
qed

lemma body_prefix:
  assumes el: "\<And>x y r r'. x \<in> set xs \<Longrightarrow> y \<in> set ys \<Longrightarrow> delim r \<Longrightarrow> delim r' \<Longrightarrow>
             f x @ r = f y @ r' \<Longrightarrow> x = y \<and> r = r'"
    and hd: "\<And>x r. x \<in> set xs \<union> set ys \<Longrightarrow> hd (f x @ c # r) \<noteq> c"
    and c: "c = 93 \<or> c = 125"
    and eq: "intercalate [44] (map f xs) @ c # r = intercalate [44] (map f ys) @ c # r'"
  shows "xs = ys \<and> r = (r' :: jstr)"
proof (cases xs; cases ys)
  fix x xs' y ys' assume xs: "xs = x # xs'" and ys: "ys = y # ys'"
  let ?t = "\<lambda>zs q. concat (map (\<lambda>y. 44 # f y) zs) @ c # q"
  have d: "delim (?t zs q)" for zs q using c by (cases zs) auto
  have "f x @ ?t xs' r = f y @ ?t ys' r'"
    using eq xs ys by (simp add: intercalate_Cons comp_def)
  then have "x = y \<and> ?t xs' r = ?t ys' r'"
    using el [of x y "?t xs' r" "?t ys' r'"] xs ys d by simp
  moreover from this have "xs' = ys' \<and> r = r'"
    using el xs ys c by (intro tail_prefix [of xs' ys' f c r r']) auto
  ultimately show ?thesis using xs ys by simp
next
  fix y ys' assume n: "xs = []" and ys: "ys = y # ys'"
  have ne: "f y \<noteq> []" using hd [of y r] ys by (cases "f y") auto
  have "c # r = f y @ concat (map (\<lambda>y. 44 # f y) ys') @ c # r'"
    using eq n ys by (simp add: intercalate_Cons comp_def)
  then show ?thesis using hd [of y r] ys ne by (cases "f y") auto
next
  fix x xs' assume n: "ys = []" and xs: "xs = x # xs'"
  have ne: "f x \<noteq> []" using hd [of x r] xs by (cases "f x") auto
  have "c # r' = f x @ concat (map (\<lambda>y. 44 # f y) xs') @ c # r"
    using eq n xs by (simp add: intercalate_Cons comp_def)
  then show ?thesis using hd [of x r] xs ne by (cases "f x") auto
qed (use eq in auto)

text \<open>The first unit of a text tells which kind of value it is.\<close>

fun js_kind :: "jsval \<Rightarrow> nat" where
  "js_kind JUndef = 0"
| "js_kind JNull = 0"
| "js_kind (JBool b) = (if b then 1 else 2)"
| "js_kind (JNum _) = 3"
| "js_kind (JStr _) = 4"
| "js_kind (JArr _) = 5"
| "js_kind (JObj _) = 6"

definition unit_kind :: "16 word \<Rightarrow> nat" where
  "unit_kind u = (if u = 110 then 0 else if u = 116 then 1 else if u = 102 then 2
     else if u = 34 then 4 else if u = 91 then 5 else if u = 123 then 6 else 3)"

lemma js_words: "js ''null'' = [110, 117, 108, 108]" "js ''true'' = [116, 114, 117, 101]"
  "js ''false'' = [102, 97, 108, 115, 101]"
  by (simp_all add: js_def uc_def)

lemma hd_int_dec: "hd (int_dec i) = 45 \<or> is_digit_unit (hd (int_dec i))"
  by (simp add: int_dec_def minus_unit hd_nat_dec_digit)

lemma int_dec_nonempty [simp]: "int_dec i \<noteq> []"
  by (simp add: int_dec_def)

lemma ser_head: "unit_kind (hd (ser v @ r)) = js_kind v"
proof (cases v)
  case (JNum i)
  have "hd (int_dec i) \<notin> {110, 116, 102, 34, 91, 123}"
    using hd_int_dec [of i] by (auto simp: is_digit_unit_def)
  then show ?thesis by (simp add: JNum unit_kind_def hd_append)
qed (simp_all add: unit_kind_def js_words quote_json_def)

lemma ser_hd_not_close: "hd (ser v @ 93 # r) \<noteq> 93"
proof
  assume h: "hd (ser v @ 93 # r) = 93"
  then have "js_kind v = 3" using ser_head [of v "93 # r"] by (simp add: unit_kind_def)
  then obtain i where "v = JNum i" by (cases v) (auto split: if_splits)
  with h hd_int_dec [of i] show False by (auto simp: hd_append is_digit_unit_def)
qed

lemma quote_hd_not_close: "hd (quote_json k @ r) \<noteq> 125"
  by (simp add: quote_json_def)

theorem ser_prefix:
  assumes "js_defined v" "js_defined w" "delim r" "delim r'" "ser v @ r = ser w @ r'"
  shows "v = w \<and> r = r'"
  using assms
proof (induction v arbitrary: w r r')
  case (JNum i)
  have "js_kind w = 3" using JNum.prems(5) by (metis js_kind.simps(4) ser_head)
  then obtain j where "w = JNum j" by (cases w) (auto split: if_splits)
  with JNum.prems show ?case using int_dec_prefix [of i r j r'] by simp
next
  case (JStr s)
  have "js_kind w = 4" using JStr.prems(5) by (metis js_kind.simps(5) ser_head)
  then obtain t where "w = JStr t" by (cases w) (auto split: if_splits)
  with JStr.prems show ?case using quote_json_prefix [of s r t r'] by simp
next
  case (JArr vs)
  have "js_kind w = 5" using JArr.prems(5) by (metis js_kind.simps(6) ser_head)
  then obtain ws where w: "w = JArr ws" by (cases w) (auto split: if_splits)
  have "intercalate [44] (map ser vs) @ 93 # r = intercalate [44] (map ser ws) @ 93 # r'"
    using JArr.prems(5) w by simp
  moreover have "v = w' \<and> q = q'"
    if "v \<in> set vs" "w' \<in> set ws" "delim q" "delim q'" "ser v @ q = ser w' @ q'" for v w' q q'
    using JArr.IH [OF that(1)] JArr.prems(1,2) w that by (auto simp: list_all_iff)
  ultimately have "vs = ws \<and> r = r'"
    using ser_hd_not_close by (intro body_prefix [of vs ws ser 93]) auto
  then show ?case using w by simp
next
  case (JObj kvs)
  let ?f = "\<lambda>(k, v). quote_json k @ [58] @ ser v"
  have "js_kind w = 6" using JObj.prems(5) by (metis js_kind.simps(7) ser_head)
  then obtain lws where w: "w = JObj lws" by (cases w) (auto split: if_splits)
  have nu: "filter (\<lambda>(k, v). v \<noteq> JUndef) xs = xs" if "js_defined (JObj xs)" for xs
    using that by (intro filter_True) (auto simp: list_all_iff)
  have "intercalate [44] (map ?f kvs) @ 125 # r = intercalate [44] (map ?f lws) @ 125 # r'"
    using JObj.prems(5) w nu [of kvs] nu [of lws] JObj.prems(1,2) by simp
  moreover have "p = p' \<and> q = q'"
    if p: "p \<in> set kvs" "p' \<in> set lws" "delim q" "delim q'" "?f p @ q = ?f p' @ q'" for p p' q q'
  proof -
    obtain k v k' v' where kv: "p = (k, v)" "p' = (k', v')" by (cases p; cases p')
    then have "quote_json k @ (58 # ser v @ q) = quote_json k' @ (58 # ser v' @ q')"
      using p(5) by simp
    from quote_json_prefix [OF this] have "k = k'" "ser v @ q = ser v' @ q'" by simp_all
    moreover have "js_defined v" "js_defined v'"
      using p(1,2) kv w JObj.prems(1,2) by (auto simp: list_all_iff)
    ultimately show ?thesis
      using JObj.IH [OF p(1), of v v' q q'] p(3,4) kv by (simp add: snds.simps)
  qed
  ultimately have "kvs = lws \<and> r = r'"
    using quote_hd_not_close by (intro body_prefix [of kvs lws ?f 125]) (auto split: prod.splits)
  then show ?case using w by simp
next
  case JNull
  have "js_kind w = 0" using JNull.prems(5) by (metis js_kind.simps(2) ser_head)
  then have "w = JNull" using JNull.prems(2) by (cases w) (auto split: if_splits)
  with JNull.prems show ?case by simp
next
  case (JBool b)
  have "js_kind w = (if b then 1 else 2)" using JBool.prems(5) by (metis js_kind.simps(3) ser_head)
  then have "w = JBool b" by (cases w) (auto split: if_splits)
  with JBool.prems show ?case by simp
qed simp

text \<open>Two values have the same JSON text exactly when they agree up to dropped \<open>undefined\<close>.\<close>

lemma ser_eq_iff: "ser v = ser w \<longleftrightarrow> js_norm v = js_norm w"
proof
  assume "ser v = ser w"
  then have "ser (js_norm v) @ [] = ser (js_norm w) @ []" by (simp add: ser_norm)
  moreover have "delim []" by (simp add: delim_def)
  ultimately show "js_norm v = js_norm w"
    using ser_prefix [OF js_norm_defined js_norm_defined] by blast
qed (metis ser_norm)

lemma json_stringify_eq_iff:
  "json_stringify v = json_stringify w \<longleftrightarrow> (v = JUndef \<longleftrightarrow> w = JUndef) \<and> js_norm v = js_norm w"
  by (auto simp: json_stringify_def ser_eq_iff)

end
