(* ===== verification/Canonical.thy ===== *)
theory Canonical
  imports Json_Text
begin

text \<open>
  The canonical form of \<open>packages/core/src/index.ts\<close>: \<open>canonicalize\<close> sorts the keys of every
  object by UTF-16 code units and rebuilds it by assignment, so the enumeration order of
  ECMAScript has the last word; \<open>canonEqual\<close> and \<open>canonicalHash\<close> go through its JSON text.
  The hash and the signature scheme are third-party code: a parameter of the model.
\<close>

section \<open>Cryptographic primitives\<close>

text \<open>
  \<open>cx_sha256\<close> is the hexadecimal SHA-256 of a string's UTF-8 bytes; \<open>cx_sign\<close> takes message and
  private key, \<open>cx_verify\<close> signature, message and public key, all keys and signatures in
  hexadecimal. \<open>None\<close> is an exception of the library (malformed hexadecimal, wrong length).
\<close>

record crypto =
  cx_sha256 :: "jstr \<Rightarrow> jstr"
  cx_sign :: "jstr \<Rightarrow> jstr \<Rightarrow> jstr option"
  cx_verify :: "jstr \<Rightarrow> jstr \<Rightarrow> jstr \<Rightarrow> bool option"

text \<open>
  Documented behaviour of ed25519: with a key pair, signing returns a non-empty signature and
  that signature verifies over the same message with the public key.
\<close>

definition key_pair_ok :: "crypto \<Rightarrow> jstr \<Rightarrow> jstr \<Rightarrow> bool" where
  "key_pair_ok C pub priv \<longleftrightarrow> pub \<noteq> [] \<and>
     (\<forall>m. \<exists>sig. cx_sign C m priv = Some sig \<and> sig \<noteq> [] \<and> cx_verify C sig m pub = Some True)"

text \<open>\<open>try { return ed.verify(...) } catch { return false }\<close>\<close>

definition verify_or_false :: "crypto \<Rightarrow> jstr \<Rightarrow> jstr \<Rightarrow> jstr \<Rightarrow> bool" where
  "verify_or_false C sig m pub = (case cx_verify C sig m pub of Some b \<Rightarrow> b | None \<Rightarrow> False)"

lemma verify_or_false_iff: "verify_or_false C sig m pub \<longleftrightarrow> cx_verify C sig m pub = Some True"
  by (auto simp: verify_or_false_def split: option.splits)

text \<open>A toy instance for the witnesses: the hash is the identity, a signature is key and message.\<close>

definition toy_crypto :: crypto where
  "toy_crypto = \<lparr>cx_sha256 = (\<lambda>m. m), cx_sign = (\<lambda>m k. Some (k @ m)),
     cx_verify = (\<lambda>sig m pub. Some (sig = pub @ m))\<rparr>"

lemma toy_key_pair: "k \<noteq> [] \<Longrightarrow> key_pair_ok toy_crypto k k"
  by (simp add: key_pair_ok_def toy_crypto_def)

section \<open>Canonicalisation\<close>

fun canonicalize :: "jsval \<Rightarrow> jsval" where
  "canonicalize (JArr vs) = JArr (map canonicalize vs)"
| "canonicalize (JObj kvs) =
     JObj (js_assign_all (map (\<lambda>(k, v). (k, canonicalize v)) (sort_key fst kvs)) [])"
| "canonicalize v = v"

definition canonEqual :: "jsval \<Rightarrow> jsval \<Rightarrow> bool" where
  "canonEqual a b \<longleftrightarrow> json_stringify (canonicalize a) = json_stringify (canonicalize b)"

text \<open>Hashing \<open>undefined\<close> throws a \<open>TypeError\<close> in \<open>update\<close>: \<open>None\<close>.\<close>

definition canonicalHash :: "crypto \<Rightarrow> jsval \<Rightarrow> jstr option" where
  "canonicalHash C v = map_option (cx_sha256 C) (json_stringify (canonicalize v))"

text \<open>A value as the runtime holds it: distinct keys in every object.\<close>

fun js_wf :: "jsval \<Rightarrow> bool" where
  "js_wf (JArr vs) = list_all js_wf vs"
| "js_wf (JObj kvs) = (distinct (map fst kvs) \<and> list_all (\<lambda>(k, v). js_wf v) kvs)"
| "js_wf v = True"

text \<open>Two values that differ only in the order in which keys were inserted, at any depth.\<close>

inductive key_permuted :: "jsval \<Rightarrow> jsval \<Rightarrow> bool" where
  atom: "key_permuted v v"
| arr: "list_all2 key_permuted vs ws \<Longrightarrow> key_permuted (JArr vs) (JArr ws)"
| obj: "list_all2 (\<lambda>p q. fst p = fst q \<and> key_permuted (snd p) (snd q)) kvs mid \<Longrightarrow>
        mset mid = mset lws \<Longrightarrow> key_permuted (JObj kvs) (JObj lws)"
monos list.rel_mono prod.rel_mono

section \<open>Objects rebuilt by assignment\<close>

abbreviation no_proto :: "jstr \<times> jsval \<Rightarrow> bool" where
  "no_proto p \<equiv> fst p \<noteq> js ''__proto__''"

definition canon_field :: "jstr \<times> jsval \<Rightarrow> jstr \<times> jsval" where
  "canon_field = (\<lambda>(k, v). (k, canonicalize v))"

lemma canon_field_simps [simp]: "fst (canon_field p) = fst p" "snd (canon_field p) = canonicalize (snd p)"
  by (simp_all add: canon_field_def split: prod.splits)

lemma map_insort_key:
  "(\<And>p. fst (g p) = fst p) \<Longrightarrow> map g (insort_key fst x xs) = insort_key fst (g x) (map g xs)"
  by (induction xs) simp_all

lemma map_sort_key:
  "(\<And>p. fst (g p) = fst p) \<Longrightarrow> map g (sort_key fst xs) = sort_key fst (map g xs)"
  by (induction xs) (simp_all add: map_insort_key)

lemma canonicalize_obj:
  "canonicalize (JObj kvs) = JObj (js_assign_all (sort_key fst (map canon_field kvs)) [])"
  by (simp add: map_sort_key flip: canon_field_def)

lemma js_assign_all_no_proto: "js_assign_all (filter no_proto kvs) acc = js_assign_all kvs acc"
proof (induction kvs arbitrary: acc)
  case (Cons p kvs)
  then show ?case by (cases p) (simp add: js_assign_all_def js_assign_def)
qed (simp add: js_assign_all_def)

lemma okeys_canon_field: "map fst (map canon_field kvs) = map fst kvs"
  by simp

lemma mset_rebuilt:
  assumes "distinct (map fst kvs)"
  shows "mset (js_assign_all (sort_key fst kvs) []) = mset (filter no_proto kvs)"
proof -
  have m: "mset (sort_key fst kvs) = mset kvs" by simp
  have "distinct (map fst (sort_key fst kvs))"
    using assms distinct_keys_mset [OF m] by simp
  then have "mset (js_assign_all (sort_key fst kvs) []) = mset (filter no_proto (sort_key fst kvs))"
    by (subst mset_js_assign_all) (simp_all add: case_prod_beta)
  also have "\<dots> = mset (filter no_proto kvs)"
    by (simp add: filter_sort)
  finally show ?thesis .
qed

lemma rebuilt_mset_eq:
  assumes "mset kvs = mset lws" "distinct (map fst kvs)"
  shows "js_assign_all (sort_key fst kvs) [] = js_assign_all (sort_key fst lws) []"
  using sort_key_mset_eq [OF assms] by simp

lemma rebuilt_twice:
  assumes "distinct (map fst (kvs :: (jstr \<times> jsval) list))"
  shows "js_assign_all (sort_key fst (js_assign_all (sort_key fst kvs) [])) []
       = js_assign_all (sort_key fst kvs) []"
proof -
  let ?o = "js_assign_all (sort_key fst kvs) []"
  have m: "mset ?o = mset (filter no_proto kvs)" by (rule mset_rebuilt [OF assms])
  have "distinct (map fst (filter no_proto kvs))" using assms by (simp add: distinct_map_filter)
  then have "distinct (map fst ?o)" using distinct_keys_mset [OF m] by simp
  then have "js_assign_all (sort_key fst ?o) [] = js_assign_all (sort_key fst (filter no_proto kvs)) []"
    by (rule rebuilt_mset_eq [OF m])
  also have "\<dots> = js_assign_all (filter no_proto (sort_key fst kvs)) []" by (simp add: filter_sort)
  finally show ?thesis by (simp add: js_assign_all_no_proto)
qed

section \<open>Canonical form decides equality up to key order\<close>

lemma canonicalize_wf: "js_wf v \<Longrightarrow> js_wf (canonicalize v)"
proof (induction v)
  case (JObj kvs)
  let ?a = "map canon_field kvs"
  have d: "distinct (map fst ?a)" using JObj.prems by (simp add: comp_def)
  have m: "mset (js_assign_all (sort_key fst ?a) []) = mset (filter no_proto ?a)"
    by (rule mset_rebuilt [OF d])
  have "distinct (map fst (filter no_proto ?a))" using d by (rule distinct_map_filter)
  then have "distinct (map fst (js_assign_all (sort_key fst ?a) []))"
    using distinct_keys_mset [OF m] by simp
  moreover have "js_wf (snd p)" if "p \<in> set (js_assign_all (sort_key fst ?a) [])" for p
  proof -
    from that have "p \<in> set (filter no_proto ?a)" using m by (metis set_mset_mset)
    then obtain q where q: "q \<in> set kvs" "p = canon_field q" by auto
    then have "js_wf (snd q)" using JObj.prems by (auto simp: list_all_iff)
    then show ?thesis using JObj.IH [OF q(1)] q(2) by (simp add: snds.simps)
  qed
  ultimately show ?case by (auto simp: canonicalize_obj list_all_iff simp del: canonicalize.simps)
qed (simp_all add: list_all_iff)

text \<open>
  Canonicalising a value that is already canonical changes nothing: the canonical form is a
  normal form.
\<close>

theorem canonicalize_idempotent: "js_wf v \<Longrightarrow> canonicalize (canonicalize v) = canonicalize v"
proof (induction v)
  case (JArr vs)
  then show ?case by (simp add: list_all_iff)
next
  case (JObj kvs)
  let ?a = "map canon_field kvs"
  let ?o = "js_assign_all (sort_key fst ?a) []"
  have d: "distinct (map fst ?a)" using JObj.prems by (simp add: comp_def)
  have "canon_field p = p" if "p \<in> set ?o" for p
  proof -
    from that have "p \<in> set (filter no_proto ?a)" using mset_rebuilt [OF d] by (metis set_mset_mset)
    then obtain q where q: "q \<in> set kvs" "p = canon_field q" by auto
    then have "js_wf (snd q)" using JObj.prems by (auto simp: list_all_iff)
    then show ?thesis using JObj.IH [OF q(1)] q(2) by (simp add: snds.simps prod_eq_iff)
  qed
  then have "map canon_field ?o = ?o" by (simp add: map_idI)
  then show ?case unfolding canonicalize_obj by (simp add: rebuilt_twice [OF d])
qed simp_all

fun js_no_proto :: "jsval \<Rightarrow> bool" where
  "js_no_proto (JArr vs) = list_all js_no_proto vs"
| "js_no_proto (JObj kvs) = list_all (\<lambda>(k, v). k \<noteq> js ''__proto__'' \<and> js_no_proto v) kvs"
| "js_no_proto v = True"

lemma key_permuted_canonical:
  assumes "key_permuted v w" and "js_wf v"
  shows "canonicalize v = canonicalize w"
  using assms
proof (induction rule: key_permuted.induct)
  case (arr vs ws)
  then have "list_all2 (\<lambda>v w. canonicalize v = canonicalize w) vs ws"
    by (auto simp: list_all2_conv_all_nth list_all_length)
  then show ?case by (simp add: list_all2_conv_all_nth list_eq_iff_nth_eq)
next
  case (obj kvs mid lws)
  have "list_all2 (\<lambda>p q. canon_field p = canon_field q) kvs mid"
    using obj(1) obj.prems
    by (auto simp: list_all2_conv_all_nth list_all_length prod_eq_iff case_prod_beta)
  then have e: "map canon_field kvs = map canon_field mid"
    by (simp add: list_all2_conv_all_nth list_eq_iff_nth_eq)
  moreover have "mset (map canon_field mid) = mset (map canon_field lws)" using obj(2) by simp
  ultimately have "mset (map canon_field kvs) = mset (map canon_field lws)" by metis
  moreover have "distinct (map fst (map canon_field kvs))" using obj.prems by (simp add: comp_def)
  ultimately show ?case unfolding canonicalize_obj by (simp add: rebuilt_mset_eq)
qed simp

lemma canonical_key_permuted:
  assumes "canonicalize v = canonicalize w" "js_wf v" "js_wf w" "js_no_proto v" "js_no_proto w"
  shows "key_permuted v w"
  using assms
proof (induction v arbitrary: w)
  case (JArr vs)
  from JArr.prems(1) obtain ws where w: "w = JArr ws" and e: "map canonicalize vs = map canonicalize ws"
    by (cases w) auto
  have "list_all2 key_permuted vs ws"
    unfolding list_all2_conv_all_nth
  proof (intro conjI allI impI)
    show "length vs = length ws" using e by (metis length_map)
    fix i assume i: "i < length vs"
    then have "canonicalize (vs ! i) = canonicalize (ws ! i)" using e by (metis length_map nth_map)
    then show "key_permuted (vs ! i) (ws ! i)"
      using JArr i w map_eq_imp_length_eq [OF e] by (auto simp: list_all_length)
  qed
  then show ?case unfolding w by (rule key_permuted.arr)
next
  case (JObj kvs)
  from JObj.prems(1) obtain lws where w: "w = JObj lws" by (cases w) auto
  let ?f = "map canon_field"
  have d: "distinct (map fst (?f kvs))" "distinct (map fst (?f lws))"
    using JObj.prems w by (simp_all add: comp_def)
  have np: "filter no_proto (?f xs) = ?f xs" if "js_no_proto (JObj xs)" for xs
    using that by (intro filter_True) (auto simp: list_all_iff)
  have "js_assign_all (sort_key fst (?f kvs)) [] = js_assign_all (sort_key fst (?f lws)) []"
    using JObj.prems(1) unfolding w canonicalize_obj by simp
  then have m: "mset (?f kvs) = mset (?f lws)"
    using mset_rebuilt [OF d(1)] mset_rebuilt [OF d(2)]
    unfolding np [OF JObj.prems(4)] np [OF JObj.prems(5) [unfolded w]] by metis
  have "list_all2 (\<lambda>p q. p = canon_field q) (?f lws) lws"
    by (simp add: list_all2_conv_all_nth)
  from list_all2_reorder_left_invariance [OF this m]
  obtain mid where mid: "list_all2 (\<lambda>p q. p = canon_field q) (?f kvs) mid" "mset mid = mset lws"
    by blast
  have "list_all2 (\<lambda>p q. fst p = fst q \<and> key_permuted (snd p) (snd q)) kvs mid"
    unfolding list_all2_conv_all_nth
  proof (intro conjI allI impI)
    show "length kvs = length mid" using mid(1) by (simp add: list_all2_conv_all_nth)
    fix i assume i: "i < length kvs"
    have c: "canon_field (kvs ! i) = canon_field (mid ! i)"
      using mid(1) i by (simp add: list_all2_conv_all_nth)
    show "fst (kvs ! i) = fst (mid ! i)" using c by (metis canon_field_simps(1))
    have "mid ! i \<in> set lws" using i mid by (metis list_all2_lengthD length_map nth_mem set_mset_mset)
    then have "js_wf (snd (mid ! i))" "js_no_proto (snd (mid ! i))"
      using JObj.prems w by (auto simp: list_all_iff)
    moreover have "js_wf (snd (kvs ! i))" "js_no_proto (snd (kvs ! i))"
      using JObj.prems i by (auto simp: list_all_length case_prod_beta)
    moreover have "canonicalize (snd (kvs ! i)) = canonicalize (snd (mid ! i))"
      using c by (metis canon_field_simps(2))
    ultimately show "key_permuted (snd (kvs ! i)) (snd (mid ! i))"
      using i by (intro JObj.IH [of "kvs ! i"]) (simp_all add: snds.simps)
  qed
  then show ?case unfolding w using mid(2) by (rule key_permuted.obj)
qed (case_tac w; simp add: key_permuted.atom)+

text \<open>
  C14. Two values have the same canonical form exactly when they differ only in the order in
  which their keys were inserted (objects without an own \<open>__proto__\<close> key).
\<close>

theorem canonicalize_eq_iff:
  assumes "js_wf v" "js_wf w" "js_no_proto v" "js_no_proto w"
  shows "canonicalize v = canonicalize w \<longleftrightarrow> key_permuted v w"
  using assms key_permuted_canonical canonical_key_permuted by blast

text \<open>
  A canonical hash commits to the value: if two values hash alike and the two texts are
  not a collision of SHA-256, their canonical forms agree up to \<open>undefined\<close> entries.
\<close>

theorem canonicalHash_commits:
  assumes "canonicalHash C v = Some h" "canonicalHash C w = Some h"
    and "cx_sha256 C (ser (canonicalize v)) = cx_sha256 C (ser (canonicalize w)) \<Longrightarrow>
         ser (canonicalize v) = ser (canonicalize w)"
  shows "js_norm (canonicalize v) = js_norm (canonicalize w)"
  using assms by (auto simp: canonicalHash_def json_stringify_def ser_eq_iff split: if_splits)

section \<open>The order of keys in the canonical form\<close>

abbreviation index_key :: "jstr \<times> jsval \<Rightarrow> bool" where
  "index_key p \<equiv> is_array_index (fst p)"

definition index_part :: "(jstr \<times> jsval) list \<Rightarrow> bool" where
  "index_part I \<longleftrightarrow> (\<forall>p\<in>set I. index_key p) \<and> sorted (map (\<lambda>p. digits_value (fst p)) I)"

lemma put_index_parts:
  assumes "index_part I" "\<forall>p\<in>set N. \<not> index_key p" "is_array_index k"
  shows "\<exists>I'. put_index k v (I @ N) = I' @ N \<and> index_part I' \<and> mset I' = add_mset (k, v) (mset I)"
  using assms(1)
proof (induction I)
  case Nil
  then show ?case using assms(2,3)
    by (intro exI [of _ "[(k, v)]"]) (cases N; auto simp: index_part_def)
next
  case (Cons p I)
  obtain k' v' where p: "p = (k', v')" by (cases p)
  show ?case
  proof (cases "digits_value k' < digits_value k")
    case True
    from Cons obtain I' where I': "put_index k v (I @ N) = I' @ N" "index_part I'"
      "mset I' = add_mset (k, v) (mset I)" by (auto simp: index_part_def)
    have "set I' = insert (k, v) (set I)" using I'(3) by (metis set_mset_mset set_mset_add_mset_insert)
    with True Cons.prems I' p have "index_part (p # I')" by (auto simp: index_part_def)
    with True Cons.prems I' p show ?thesis
      by (intro exI [of _ "p # I'"]) (auto simp: index_part_def)
  next
    case False
    with Cons.prems p assms(3) have "index_part ((k, v) # p # I)" by (auto simp: index_part_def)
    with False p show ?thesis by (intro exI [of _ "(k, v) # p # I"]) auto
  qed
qed

lemma js_assign_all_parts:
  assumes "distinct (map fst kvs)" "set (map fst kvs) \<inter> set (map fst (I @ N)) = {}"
    and "list_all no_proto kvs" "index_part I" "\<forall>p\<in>set N. \<not> index_key p"
  shows "\<exists>I'. js_assign_all kvs (I @ N) = I' @ N @ filter (Not \<circ> index_key) kvs \<and> index_part I' \<and>
           mset I' = mset (filter index_key kvs) + mset I"
  using assms
proof (induction kvs arbitrary: I N)
  case Nil
  then show ?case by (simp add: js_assign_all_def)
next
  case (Cons p kvs)
  obtain k v where p: "p = (k, v)" by (cases p)
  have np: "k \<noteq> js ''__proto__''" and new: "k \<notin> set (map fst (I @ N))"
    using Cons.prems p by auto
  have d: "distinct (map fst kvs)" "list_all no_proto kvs" using Cons.prems by auto
  show ?case
  proof (cases "is_array_index k")
    case True
    from put_index_parts [OF Cons.prems(4,5) True] obtain I' where
      I': "put_index k v (I @ N) = I' @ N" "index_part I'" "mset I' = add_mset (k, v) (mset I)" by blast
    have sI: "set I' = insert (k, v) (set I)" using I'(3) by (metis set_mset_mset set_mset_add_mset_insert)
    have step: "js_assign_all (p # kvs) (I @ N) = js_assign_all kvs (I' @ N)"
      using np new True I'(1) by (simp add: js_assign_all_def p js_assign_def)
    have "set (map fst kvs) \<inter> set (map fst (I' @ N)) = {}"
      using Cons.prems(1,2) p sI by auto
    from Cons.IH [OF d(1) this d(2) I'(2) Cons.prems(5)] step I'(3) True p show ?thesis by auto
  next
    case False
    have step: "js_assign_all (p # kvs) (I @ N) = js_assign_all kvs (I @ (N @ [(k, v)]))"
      using np new False by (simp add: js_assign_all_def p js_assign_def)
    have "set (map fst kvs) \<inter> set (map fst (I @ (N @ [(k, v)]))) = {}"
      using Cons.prems(1,2) p by auto
    moreover have "\<forall>p\<in>set (N @ [(k, v)]). \<not> index_key p" using Cons.prems(5) False by auto
    ultimately obtain I' where
      "js_assign_all kvs (I @ (N @ [(k, v)])) = I' @ (N @ [(k, v)]) @ filter (Not \<circ> index_key) kvs"
      "index_part I'" "mset I' = mset (filter index_key kvs) + mset I"
      using Cons.IH [OF d(1) _ d(2) Cons.prems(4)] by blast
    then show ?thesis using step False p by (intro exI [of _ I']) (simp add: comp_def)
  qed
qed

lemma canonical_object_order:
  assumes wf: "js_wf (JObj kvs)" and np: "\<forall>p\<in>set kvs. no_proto p"
  shows "\<exists>I. canonicalize (JObj kvs) = JObj (I @ map canon_field (filter (Not \<circ> index_key) (sort_key fst kvs)))
      \<and> index_part I \<and> mset I = mset (map canon_field (filter index_key kvs))"
proof -
  let ?s = "sort_key fst (map canon_field kvs)"
  have "distinct (map fst (map canon_field kvs))" using wf by (simp add: comp_def)
  then have "distinct (map fst ?s)" using distinct_keys_mset [of ?s "map canon_field kvs"] by simp
  moreover have "list_all no_proto ?s" using np by (simp add: list_all_iff)
  moreover have "index_part []" by (simp add: index_part_def)
  ultimately obtain I where I: "js_assign_all ?s ([] @ []) = I @ [] @ filter (Not \<circ> index_key) ?s"
      "index_part I" "mset I = mset (filter index_key ?s) + mset []"
    using js_assign_all_parts [of ?s "[]" "[]"] by fastforce
  have f: "filter P (map canon_field xs) = map canon_field (filter P xs)"
    if "\<And>p. P (canon_field p) = P p" for P xs using that by (induction xs) simp_all
  have "filter (Not \<circ> index_key) ?s = map canon_field (filter (Not \<circ> index_key) (sort_key fst kvs))"
    unfolding map_sort_key [of canon_field kvs, symmetric, OF canon_field_simps(1)] by (rule f) simp
  moreover have "mset I = mset (map canon_field (filter index_key kvs))"
  proof -
    have "mset I = mset (filter index_key ?s)" using I(3) by simp
    also have "\<dots> = mset (filter index_key (map canon_field kvs))"
      by (simp only: mset_filter mset_sort)
    also have "\<dots> = mset (map canon_field (filter index_key kvs))" by (subst f) simp_all
    finally show ?thesis .
  qed
  ultimately show ?thesis using I(1,2) unfolding canonicalize_obj by auto
qed

text \<open>
  The keys of a canonical object: first the array-index keys in ascending numeric order,
  then every other key in the order of its UTF-16 code units.
\<close>

theorem canonical_key_order:
  assumes "js_wf (JObj kvs)" and "js ''__proto__'' \<notin> set (map fst kvs)"
  shows "\<exists>idx o'. canonicalize (JObj kvs) = JObj o' \<and>
      map fst o' = idx @ sort (filter (\<lambda>k. \<not> is_array_index k) (map fst kvs)) \<and>
      sorted (map digits_value idx) \<and> mset idx = mset (filter is_array_index (map fst kvs))"
proof -
  obtain I where I: "canonicalize (JObj kvs) =
      JObj (I @ map canon_field (filter (Not \<circ> index_key) (sort_key fst kvs)))"
      "index_part I" "mset I = mset (map canon_field (filter index_key kvs))"
    using canonical_object_order [OF assms(1)] assms(2) by force
  have ff: "map fst (filter (\<lambda>p. P (fst p)) xs) = filter P (map fst xs)" for P and xs :: "(jstr \<times> jsval) list"
    by (induction xs) simp_all
  have "map fst (sort_key fst kvs) = sort (map fst kvs)"
    by (rule properties_for_sort [symmetric]) simp_all
  then have N: "map fst (filter (Not \<circ> index_key) (sort_key fst kvs))
      = sort (filter (\<lambda>k. \<not> is_array_index k) (map fst kvs))"
    using ff [of "\<lambda>k. \<not> is_array_index k" "sort_key fst kvs"] by (simp add: comp_def filter_sort)
  have "mset (map fst I) = mset (map fst (filter index_key kvs))"
    using I(3) by (simp add: multiset.map_comp comp_def)
  then have "mset (map fst I) = mset (filter is_array_index (map fst kvs))"
    by (simp only: ff)
  moreover have "sorted (map digits_value (map fst I))"
    using I(2) by (simp add: index_part_def comp_def)
  ultimately show ?thesis using I(1) N
    by (intro exI [of _ "map fst I"] exI) (auto simp: comp_def)
qed

text \<open>
  RFC 8785 orders the keys \<open>"10"\<close> and \<open>"9"\<close> as \<open>"10"\<close>, \<open>"9"\<close>; the canonical form of the
  code has \<open>"9"\<close> first.
\<close>

theorem canonical_index_keys_not_jcs:
  "canonicalize (JObj [(js ''10'', a), (js ''9'', b)])
     = JObj [(js ''9'', canonicalize b), (js ''10'', canonicalize a)] \<and>
   sort [js ''9'', js ''10''] = [js ''10'', js ''9'']"
  by (simp add: js_assign_all_def js_assign_def is_array_index_def js_def uc_def is_digit_unit_def
      digits_value_def)

text \<open>
  An own key \<open>__proto__\<close>, which \<open>JSON.parse\<close> can produce, never reaches the canonical
  form: values that differ only there have the same canonical hash.
\<close>

theorem canonicalHash_ignores_proto:
  assumes "js_wf (JObj kvs)"
  shows "canonicalHash C (JObj kvs) = canonicalHash C (JObj (filter (\<lambda>(k, v). k \<noteq> js ''__proto__'') kvs))"
proof -
  have f: "filter no_proto (map canon_field xs) = map canon_field (filter no_proto xs)" for xs
    by (induction xs) simp_all
  have "js_assign_all (sort_key fst (map canon_field (filter no_proto kvs))) []
      = js_assign_all (filter no_proto (sort_key fst (map canon_field kvs))) []"
    by (simp add: filter_sort f)
  then have "canonicalize (JObj (filter no_proto kvs)) = canonicalize (JObj kvs)"
    unfolding canonicalize_obj by (simp add: js_assign_all_no_proto)
  moreover have "(\<lambda>(k, v :: jsval). k \<noteq> js ''__proto__'') = no_proto" by auto
  ultimately show ?thesis by (simp add: canonicalHash_def del: canonicalize.simps)
qed

section \<open>Concrete values\<close>

definition ba :: jsval where
  "ba = JObj [(js ''b'', JNum 1), (js ''a'', JNum 2)]"

definition ab :: jsval where
  "ab = JObj [(js ''a'', JNum 2), (js ''b'', JNum 1)]"

lemma canonicalize_ab: "canonicalize ba = ab" "canonicalize ab = ab"
  by (simp_all add: ba_def ab_def js_assign_all_def js_assign_def is_array_index_def js_def uc_def is_digit_unit_def)

lemma ab_wf: "js_wf ba" "js_wf ab" "js_no_proto ba" "js_no_proto ab"
  by (simp_all add: ba_def ab_def)

theorem canonicalize_idempotent_witness: "canonicalize (canonicalize ba) = ab"
  using canonicalize_idempotent [of ba] by (simp add: ab_wf canonicalize_ab)

theorem canonicalize_eq_iff_witness: "key_permuted ba ab"
  using canonicalize_eq_iff [of ba ab] by (simp add: ab_wf canonicalize_ab)

theorem canonicalHash_commits_witness: "js_norm (canonicalize ba) = js_norm (canonicalize ab)"
proof (rule canonicalHash_commits [of toy_crypto ba "ser ab"])
  show "canonicalHash toy_crypto ba = Some (ser ab)" "canonicalHash toy_crypto ab = Some (ser ab)"
    by (simp_all add: canonicalHash_def canonicalize_ab toy_crypto_def json_stringify_def) (simp_all add: ab_def)
qed (simp add: toy_crypto_def)

theorem canonical_key_order_witness:
  "\<exists>idx o'. canonicalize ba = JObj o' \<and> map fst o' = idx @ sort (filter (\<lambda>k. \<not> is_array_index k) [js ''b'', js ''a''])"
  using canonical_key_order [of "[(js ''b'', JNum 1), (js ''a'', JNum 2)]"] by (auto simp: ba_def)

theorem canonicalHash_ignores_proto_witness:
  "canonicalHash toy_crypto (JObj [(js ''__proto__'', JNum 1), (js ''a'', JNum 2)])
     = canonicalHash toy_crypto (JObj [(js ''a'', JNum 2)])"
  using canonicalHash_ignores_proto [of "[(js ''__proto__'', JNum 1), (js ''a'', JNum 2)]" toy_crypto] by simp

end
