(* ===== verification/Glyph_Types.thy ===== *)
theory Glyph_Types
  imports Canonical
begin

text \<open>
  The wire types of \<open>packages/types/src/types.ts\<close> as records and datatypes, field by field
  under a prefix that keeps the field names apart, with the JSON value each of them is at run
  time. An optional field is an \<open>option\<close>; absent it is \<open>undefined\<close> in the JSON value. The
  values are those that have their declared TypeScript type.
\<close>

section \<open>Version constants\<close>

definition PROTOCOL_VERSION :: jstr where
  "PROTOCOL_VERSION = js ''1.0''"

definition RECEIPT_VERSION :: jstr where
  "RECEIPT_VERSION = js ''0.3''"

definition MANIFEST_VERSION :: jstr where
  "MANIFEST_VERSION = js ''0.1''"

section \<open>Cards\<close>

datatype risk_tier = Safe | Caution | Danger

datatype latency = Fast | Medium | Slow

datatype card_depth = Minimal | Standard | Rich

datatype att_policy = Att_None | Att_Danger | Att_All

record glyph_cost =
  co_latency :: latency
  co_sideEffects :: bool
  co_reversible :: bool
  co_riskTier :: risk_tier
  co_requiresConfirmation :: bool

record card_example =
  ex_description :: jstr
  ex_input :: jsval
  ex_output :: jsval

record failure_mode =
  fm_code :: jstr
  fm_description :: jstr

record card_attestation =
  at_type :: jstr
  at_payload :: jstr
  at_reference :: "jstr option"

record glyph_card =
  gc_id :: jstr
  gc_version :: jstr
  gc_name :: jstr
  gc_intent :: jstr
  gc_tags :: "jstr list"
  gc_cost :: glyph_cost
  gc_idempotent :: bool
  gc_input :: jsval
  gc_output :: jsval
  gc_examples :: "card_example list"
  gc_failureModes :: "failure_mode list"
  gc_provider :: jstr
  gc_requiredScopes :: "jstr list option"
  gc_attestation :: "card_attestation option"
  gc_publicKey :: "jstr option"
  gc_signature :: "jstr option"
  gc_createdAt :: jstr

record lexicon_entry =
  lx_id :: jstr
  lx_name :: jstr
  lx_intent :: jstr
  lx_tags :: "jstr list"
  lx_riskTier :: risk_tier

section \<open>Calls, receipts and envelopes\<close>

datatype finding_kind = Unicode_Tags | Zero_Width | Bidi_Override | Control_Char | Nfkc_Normalized

record sanitization_finding =
  sf_path :: jstr
  sf_kind :: finding_kind
  sf_count :: nat

record sanitization =
  sn_modified :: bool
  sn_findings :: "sanitization_finding list"

text \<open>
  A receipt without its signature (\<open>Omit<CallReceipt, 'signature'>\<close>) is the base record, the
  signed receipt extends it. The client call id is whatever value the caller sent.
\<close>

record receipt_base =
  cr_receiptVersion :: jstr
  cr_callId :: jstr
  cr_clientCallId :: "jsval option"
  cr_glyphId :: jstr
  cr_glyphName :: jstr
  cr_inputHash :: jstr
  cr_outputHash :: jstr
  cr_inspectionHash :: jstr
  cr_riskTier :: risk_tier
  cr_provider :: jstr
  cr_latencyMs :: int
  cr_timestamp :: jstr
  cr_serverPublicKey :: jstr

record call_receipt = receipt_base +
  cr_signature :: jstr

record sealed_envelope =
  se_glyphId :: jstr
  se_callId :: jstr
  se_payload :: jsval
  se_latencyMs :: int
  se_provider :: jstr
  se_timestamp :: jstr
  se_inspection :: "sanitization option"
  se_receipt :: "call_receipt option"

record confirmation_ticket =
  ct_confirmationToken :: jstr
  ct_glyphId :: jstr
  ct_name :: jstr
  ct_cost :: glyph_cost
  ct_input :: jsval
  ct_expiresAt :: jstr

record handshake_response =
  hr_protocolVersion :: jstr
  hr_sessionId :: jstr
  hr_lexicon :: "lexicon_entry list"
  hr_cardDepth :: jsval
  hr_serverVersion :: jstr

section \<open>Diffs, pins and manifests\<close>

datatype severity = Breaking | Review

record card_field_change =
  ch_field :: jstr
  ch_severity :: severity
  ch_before :: jsval
  ch_after :: jsval

record card_diff =
  df_changed :: bool
  df_idChanged :: bool
  df_keyChanged :: bool
  df_changes :: "card_field_change list"
  df_requiresApproval :: bool

record pin =
  pin_toolName :: jstr
  pin_approvedAt :: jstr
  pin_card :: glyph_card
  pin_revokedAt :: "jstr option"
  pin_revokeReason :: "jstr option"

datatype security_impact = Impact_None | Impact_Low | Impact_High

record manifest_base =
  um_manifestVersion :: jstr
  um_toolName :: jstr
  um_previousCardId :: jstr
  um_newCardId :: jstr
  um_reason :: jstr
  um_breaking :: bool
  um_securityImpact :: security_impact
  um_issuedAt :: jstr
  um_serverPublicKey :: jstr

record update_manifest = manifest_base +
  um_signature :: jstr

section \<open>Key registries and provider trust\<close>

record key_group =
  kg_threshold :: int
  kg_participants :: int

record key_entry =
  ke_fingerprint :: jstr
  ke_publicKey :: jstr
  ke_validFrom :: jstr
  ke_validUntil :: "jstr option"
  ke_revokedAt :: "jstr option"
  ke_revocationReason :: "jstr option"
  ke_signedBy :: "jstr option"
  ke_signature :: "jstr option"
  ke_group :: "key_group option"

record registry_base =
  kr_registryVersion :: jstr
  kr_serverId :: jstr
  kr_active :: jstr
  kr_keys :: "key_entry list"
  kr_issuedAt :: jstr
  kr_ttlSeconds :: int

record key_registry = registry_base +
  kr_signature :: jstr

record provider_policies =
  pp_requireAttestation :: "att_policy option"
  pp_allowedRiskTiers :: "risk_tier list option"
  pp_requireReceiptVerification :: "bool option"

record provider_trust_entry =
  pt_provider :: jstr
  pt_publicKeys :: "jstr list"
  pt_genesisKey :: "jstr option"
  pt_policies :: "provider_policies option"
  pt_conformanceReport :: "jstr option"
  pt_registeredAt :: "jstr option"

datatype provider_status = Provider_Active | Provider_Revoked

record registry_provider =
  rp_name :: jstr
  rp_endpoint :: jstr
  rp_publicKey :: jstr
  rp_intent :: "jstr option"
  rp_conformanceBadge :: "jstr option"
  rp_lastVerifiedAt :: "jstr option"
  rp_tags :: "jstr list option"
  rp_status :: provider_status
  rp_revokedAt :: "jstr option"
  rp_revocationReason :: "jstr option"

record registry_signer =
  rs_name :: jstr
  rs_publicKey :: jstr
  rs_fingerprint :: jstr

record providers_base =
  pr_registryVersion :: jstr
  pr_registryId :: jstr
  pr_issuedAt :: jstr
  pr_ttlSeconds :: int
  pr_providers :: "registry_provider list"
  pr_signedBy :: registry_signer

record providers_registry = providers_base +
  pr_signature :: jstr

end
