(* ===== verification/Type_Json.thy ===== *)
theory Type_Json
  imports Glyph_Types
begin

text \<open>
  The JSON value of every wire type, and when two such values have the same canonical text.
  \<open>canon_eqs\<close> collects the equations that decide \<open>canonEqual\<close> on the values the program
  hashes: two records have the same canonical text exactly when their fields do.
\<close>

named_theorems canon_eqs \<open>canonical equality of the values the program hashes\<close>

section \<open>Canonical equality, field by field\<close>

lemma canonicalize_undef [simp]: "canonicalize v = JUndef \<longleftrightarrow> v = JUndef"
  by (cases v) simp_all

lemma canonEqual_iff:
  "canonEqual a b \<longleftrightarrow> (a = JUndef \<longleftrightarrow> b = JUndef) \<and> js_norm (canonicalize a) = js_norm (canonicalize b)"
  by (simp add: canonEqual_def json_stringify_eq_iff)

lemma canonEqual_refl [simp]: "canonEqual a a"
  by (simp add: canonEqual_def)

lemma canonEqual_sym: "canonEqual a b \<longleftrightarrow> canonEqual b a"
  by (auto simp: canonEqual_def)

lemma canonEqual_trans: "canonEqual a b \<Longrightarrow> canonEqual b c \<Longrightarrow> canonEqual a c"
  by (simp add: canonEqual_def)

text \<open>The place of a key in a rebuilt object does not depend on the values.\<close>

definition retag :: "(jstr \<Rightarrow> jsval) \<Rightarrow> (jstr \<times> jsval) list \<Rightarrow> (jstr \<times> jsval) list" where
  "retag g kvs = map (\<lambda>p. (fst p, g (fst p))) kvs"

lemma okeys_retag [simp]: "map fst (retag g kvs) = map fst kvs"
  by (simp add: retag_def)

lemma retag_omap_set: "omap_set k (g k) (retag g kvs) = retag g (omap_set k v kvs)"
  by (induction k v kvs rule: omap_set.induct) (simp_all add: retag_def)

lemma retag_put_index: "put_index k (g k) (retag g kvs) = retag g (put_index k v kvs)"
  by (induction k v kvs rule: put_index.induct) (simp_all add: retag_def)

lemma retag_js_assign: "js_assign k (g k) (retag g kvs) = retag g (js_assign k v kvs)"
  by (simp add: js_assign_def retag_omap_set [of k g kvs v] retag_put_index [of k g kvs v])
     (simp add: retag_def)

lemma retag_js_assign_all: "js_assign_all (retag g kvs) (retag g acc) = retag g (js_assign_all kvs acc)"
proof (induction kvs arbitrary: acc)
  case Nil
  then show ?case by (simp add: js_assign_all_def retag_def)
next
  case (Cons p kvs)
  obtain k v where p: "p = (k, v)" by (cases p)
  have "js_assign_all (retag g (p # kvs)) (retag g acc)
      = js_assign_all (retag g kvs) (js_assign k (g k) (retag g acc))"
    by (simp add: js_assign_all_def retag_def p)
  also have "\<dots> = retag g (js_assign_all kvs (js_assign k v acc))"
    by (simp add: retag_js_assign [of k g acc v] Cons.IH)
  finally show ?case by (simp add: js_assign_all_def p)
qed

lemma retag_rebuilt:
  "js_assign_all (sort_key fst (retag g kvs)) [] = retag g (js_assign_all (sort_key fst kvs) [])"
  using retag_js_assign_all [of g "sort_key fst kvs" "[]"]
  by (simp add: retag_def map_sort_key)

lemma retag_norm_eq:
  assumes "distinct (map fst kvs)"
  shows "js_norm (JObj (retag g kvs)) = js_norm (JObj (retag h kvs)) \<longleftrightarrow>
    (\<forall>k\<in>set (map fst kvs). (g k = JUndef \<longleftrightarrow> h k = JUndef) \<and> js_norm (g k) = js_norm (h k))"
  using assms
proof (induction kvs)
  case Nil
  then show ?case by (simp add: retag_def)
next
  case (Cons p kvs)
  define f where "f g = map (\<lambda>(k, v). (k, js_norm v)) (filter (\<lambda>(k, v). v \<noteq> JUndef) (retag g kvs))" for g
  have e: "js_norm (JObj (retag g (p # kvs)))
      = JObj ((if g (fst p) = JUndef then [] else [(fst p, js_norm (g (fst p)))]) @ f g)" for g
    by (simp add: retag_def f_def)
  have "fst p \<notin> fst ` set (f g)" for g
    using Cons.prems by (auto simp: f_def retag_def in_okeys_iff)
  then have ne: "(fst p, x) # f g \<noteq> f h" "f h \<noteq> (fst p, x) # f g" for g h x
    by (metis fst_conv image_insert insertCI list.simps(15))+
  have "f g = f h \<longleftrightarrow> (\<forall>k\<in>set (map fst kvs). (g k = JUndef \<longleftrightarrow> h k = JUndef) \<and> js_norm (g k) = js_norm (h k))"
    using Cons by (simp add: f_def)
  then show ?case unfolding e
    using ne by (cases "g (fst p) = JUndef"; cases "h (fst p) = JUndef") simp_all
qed

lemma own_value_in: "distinct (map fst kvs) \<Longrightarrow> p \<in> set kvs \<Longrightarrow> own_value kvs (fst p) = snd p"
  by (cases p) (simp add: own_value_def)

lemma canonEqual_obj:
  assumes keys: "map fst kvs = map fst lws" and d: "distinct (map fst kvs)"
    and np: "js ''__proto__'' \<notin> set (map fst kvs)"
  shows "canonEqual (JObj kvs) (JObj lws) \<longleftrightarrow> list_all2 canonEqual (map snd kvs) (map snd lws)"
proof -
  let ?g = "\<lambda>k. canonicalize (own_value kvs k)" and ?h = "\<lambda>k. canonicalize (own_value lws k)"
  let ?nulls = "map (\<lambda>p. (fst p, JNull)) kvs"
  let ?b = "js_assign_all (sort_key fst ?nulls) []"
  have d2: "distinct (map fst lws)" using d keys by simp
  have len: "length lws = length kvs" using map_eq_imp_length_eq [OF keys] by simp
  have same: "fst (lws ! i) = fst (kvs ! i)" if "i < length kvs" for i
    using that keys len by (metis nth_map)
  have ov: "own_value kvs (fst (kvs ! i)) = snd (kvs ! i)" "own_value lws (fst (kvs ! i)) = snd (lws ! i)"
    if "i < length kvs" for i
    using that len own_value_in [OF d, of "kvs ! i"] own_value_in [OF d2, of "lws ! i"] same [OF that]
    by simp_all
  have r: "map canon_field kvs = retag ?g ?nulls" "map canon_field lws = retag ?h ?nulls"
    by (rule nth_equalityI; use ov same len in \<open>simp add: retag_def prod_eq_iff\<close>)+
  have nf: "filter no_proto ?nulls = ?nulls" using np by (intro filter_True) (auto simp: in_okeys_iff)
  have "distinct (map fst ?nulls)" using d by (simp add: comp_def)
  from mset_rebuilt [OF this] have mb: "mset ?b = mset ?nulls" unfolding nf .
  have db: "distinct (map fst ?b)" using distinct_keys_mset [OF mb] d by (simp add: comp_def)
  have kb: "set (map fst ?b) = set (map fst kvs)"
    using mset_eq_setD [OF mb] by (simp add: image_image)
  have "canonEqual (JObj kvs) (JObj lws) \<longleftrightarrow> js_norm (JObj (retag ?g ?b)) = js_norm (JObj (retag ?h ?b))"
    by (simp only: canonEqual_iff canonicalize_obj r retag_rebuilt) simp
  also have "\<dots> \<longleftrightarrow> (\<forall>k\<in>set (map fst kvs). canonEqual (own_value kvs k) (own_value lws k))"
    by (simp only: retag_norm_eq [OF db] kb canonEqual_iff canonicalize_undef)
  also have "\<dots> \<longleftrightarrow> list_all2 canonEqual (map snd kvs) (map snd lws)"
    using ov len by (auto simp: list_all2_conv_all_nth all_set_conv_all_nth)
  finally show ?thesis .
qed

text \<open>Atoms, arrays without \<open>undefined\<close>, optional values.\<close>

lemma canonEqual_atoms [canon_eqs]:
  "canonEqual (JStr s) (JStr t) \<longleftrightarrow> s = t"
  "canonEqual (JNum i) (JNum j) \<longleftrightarrow> i = j"
  "canonEqual (JBool a) (JBool b) \<longleftrightarrow> a = b"
  by (auto simp: canonEqual_iff)

lemma canonEqual_undef [simp]: "canonEqual JUndef w \<longleftrightarrow> w = JUndef" "canonEqual w JUndef \<longleftrightarrow> w = JUndef"
  by (auto simp: canonEqual_iff)

lemma canonEqual_arr:
  assumes "JUndef \<notin> set vs" "JUndef \<notin> set ws"
  shows "canonEqual (JArr vs) (JArr ws) \<longleftrightarrow> list_all2 canonEqual vs ws"
proof -
  have "canonEqual (JArr vs) (JArr ws) \<longleftrightarrow>
      map (\<lambda>v. js_norm (canonicalize v)) vs = map (\<lambda>v. js_norm (canonicalize v)) ws"
    by (simp add: canonEqual_iff comp_def)
  also have "\<dots> \<longleftrightarrow> list_all2 (\<lambda>v w. js_norm (canonicalize v) = js_norm (canonicalize w)) vs ws"
    by (auto simp: list_all2_conv_all_nth list_eq_iff_nth_eq)
  also have "\<dots> \<longleftrightarrow> list_all2 canonEqual vs ws"
    using assms by (auto simp: list_all2_conv_all_nth canonEqual_iff) (metis nth_mem)+
  finally show ?thesis .
qed

definition jstrs :: "jstr list \<Rightarrow> jsval" where
  "jstrs ss = JArr (map JStr ss)"

lemma canonEqual_jstrs [canon_eqs]: "canonEqual (jstrs xs) (jstrs ys) \<longleftrightarrow> xs = ys"
proof -
  have "canonEqual (jstrs xs) (jstrs ys) \<longleftrightarrow> list_all2 canonEqual (map JStr xs) (map JStr ys)"
    unfolding jstrs_def by (rule canonEqual_arr) auto
  then show ?thesis
    by (auto simp: list_all2_conv_all_nth canon_eqs list_eq_iff_nth_eq)
qed

fun jopt :: "('a \<Rightarrow> jsval) \<Rightarrow> 'a option \<Rightarrow> jsval" where
  "jopt f None = JUndef"
| "jopt f (Some x) = f x"

lemma canonEqual_opt_str [canon_eqs]: "canonEqual (jopt JStr a) (jopt JStr b) \<longleftrightarrow> a = b"
  by (cases a; cases b) (simp_all add: canon_eqs)

lemma canonEqual_opt_strs [canon_eqs]: "canonEqual (jopt jstrs a) (jopt jstrs b) \<longleftrightarrow> a = b"
  by (cases a; cases b) (simp_all add: canon_eqs, simp_all add: jstrs_def)

section \<open>Encoders\<close>

fun risk_str :: "risk_tier \<Rightarrow> jstr" where
  "risk_str Safe = js ''safe''"
| "risk_str Caution = js ''caution''"
| "risk_str Danger = js ''danger''"

fun latency_str :: "latency \<Rightarrow> jstr" where
  "latency_str Fast = js ''fast''"
| "latency_str Medium = js ''medium''"
| "latency_str Slow = js ''slow''"

fun kind_str :: "finding_kind \<Rightarrow> jstr" where
  "kind_str Unicode_Tags = js ''unicode-tags''"
| "kind_str Zero_Width = js ''zero-width''"
| "kind_str Bidi_Override = js ''bidi-override''"
| "kind_str Control_Char = js ''control-char''"
| "kind_str Nfkc_Normalized = js ''nfkc-normalized''"

fun impact_str :: "security_impact \<Rightarrow> jstr" where
  "impact_str Impact_None = js ''none''"
| "impact_str Impact_Low = js ''low''"
| "impact_str Impact_High = js ''high''"

fun status_str :: "provider_status \<Rightarrow> jstr" where
  "status_str Provider_Active = js ''active''"
| "status_str Provider_Revoked = js ''revoked''"

lemma risk_str_eq [simp]: "risk_str a = risk_str b \<longleftrightarrow> a = b"
  by (cases a; cases b) simp_all

lemma latency_str_eq [simp]: "latency_str a = latency_str b \<longleftrightarrow> a = b"
  by (cases a; cases b) simp_all

lemma kind_str_eq [simp]: "kind_str a = kind_str b \<longleftrightarrow> a = b"
  by (cases a; cases b) simp_all

lemma impact_str_eq [simp]: "impact_str a = impact_str b \<longleftrightarrow> a = b"
  by (cases a; cases b) simp_all

definition cost_json :: "glyph_cost \<Rightarrow> jsval" where
  "cost_json c = JObj
     [(js ''latency'', JStr (latency_str (co_latency c))),
      (js ''sideEffects'', JBool (co_sideEffects c)),
      (js ''reversible'', JBool (co_reversible c)),
      (js ''riskTier'', JStr (risk_str (co_riskTier c))),
      (js ''requiresConfirmation'', JBool (co_requiresConfirmation c))]"

definition example_json :: "card_example \<Rightarrow> jsval" where
  "example_json e = JObj
     [(js ''description'', JStr (ex_description e)), (js ''input'', ex_input e), (js ''output'', ex_output e)]"

definition failure_json :: "failure_mode \<Rightarrow> jsval" where
  "failure_json f = JObj [(js ''code'', JStr (fm_code f)), (js ''description'', JStr (fm_description f))]"

definition attestation_json :: "card_attestation \<Rightarrow> jsval" where
  "attestation_json a = JObj
     [(js ''type'', JStr (at_type a)), (js ''payload'', JStr (at_payload a)),
      (js ''reference'', jopt JStr (at_reference a))]"

definition finding_json :: "sanitization_finding \<Rightarrow> jsval" where
  "finding_json f = JObj
     [(js ''path'', JStr (sf_path f)), (js ''kind'', JStr (kind_str (sf_kind f))),
      (js ''count'', JNum (int (sf_count f)))]"

definition sanitization_json :: "sanitization \<Rightarrow> jsval" where
  "sanitization_json r = JObj
     [(js ''modified'', JBool (sn_modified r)), (js ''findings'', JArr (map finding_json (sn_findings r)))]"

definition receipt_json :: "'a receipt_base_scheme \<Rightarrow> jsval" where
  "receipt_json r = JObj
     [(js ''receiptVersion'', JStr (cr_receiptVersion r)), (js ''callId'', JStr (cr_callId r)),
      (js ''glyphId'', JStr (cr_glyphId r)), (js ''glyphName'', JStr (cr_glyphName r)),
      (js ''inputHash'', JStr (cr_inputHash r)), (js ''outputHash'', JStr (cr_outputHash r)),
      (js ''inspectionHash'', JStr (cr_inspectionHash r)),
      (js ''riskTier'', JStr (risk_str (cr_riskTier r))), (js ''provider'', JStr (cr_provider r)),
      (js ''latencyMs'', JNum (cr_latencyMs r)), (js ''timestamp'', JStr (cr_timestamp r)),
      (js ''serverPublicKey'', JStr (cr_serverPublicKey r)),
      (js ''clientCallId'', jopt (\<lambda>v. v) (cr_clientCallId r))]"

definition manifest_json :: "'a manifest_base_scheme \<Rightarrow> jsval" where
  "manifest_json m = JObj
     [(js ''manifestVersion'', JStr (um_manifestVersion m)), (js ''toolName'', JStr (um_toolName m)),
      (js ''previousCardId'', JStr (um_previousCardId m)), (js ''newCardId'', JStr (um_newCardId m)),
      (js ''reason'', JStr (um_reason m)), (js ''breaking'', JBool (um_breaking m)),
      (js ''securityImpact'', JStr (impact_str (um_securityImpact m))),
      (js ''issuedAt'', JStr (um_issuedAt m)), (js ''serverPublicKey'', JStr (um_serverPublicKey m))]"

definition group_json :: "key_group \<Rightarrow> jsval" where
  "group_json g = JObj
     [(js ''threshold'', JNum (kg_threshold g)), (js ''participants'', JNum (kg_participants g))]"

definition key_entry_json :: "key_entry \<Rightarrow> jsval" where
  "key_entry_json e = JObj
     [(js ''fingerprint'', JStr (ke_fingerprint e)), (js ''publicKey'', JStr (ke_publicKey e)),
      (js ''validFrom'', JStr (ke_validFrom e)), (js ''validUntil'', jopt JStr (ke_validUntil e)),
      (js ''revokedAt'', jopt JStr (ke_revokedAt e)),
      (js ''revocationReason'', jopt JStr (ke_revocationReason e)),
      (js ''signedBy'', jopt JStr (ke_signedBy e)), (js ''signature'', jopt JStr (ke_signature e)),
      (js ''group'', jopt group_json (ke_group e))]"

definition provider_json :: "registry_provider \<Rightarrow> jsval" where
  "provider_json p = JObj
     [(js ''name'', JStr (rp_name p)), (js ''endpoint'', JStr (rp_endpoint p)),
      (js ''publicKey'', JStr (rp_publicKey p)), (js ''intent'', jopt JStr (rp_intent p)),
      (js ''conformanceBadge'', jopt JStr (rp_conformanceBadge p)),
      (js ''lastVerifiedAt'', jopt JStr (rp_lastVerifiedAt p)), (js ''tags'', jopt jstrs (rp_tags p)),
      (js ''status'', JStr (status_str (rp_status p))), (js ''revokedAt'', jopt JStr (rp_revokedAt p)),
      (js ''revocationReason'', jopt JStr (rp_revocationReason p))]"

definition signer_json :: "registry_signer \<Rightarrow> jsval" where
  "signer_json s = JObj
     [(js ''name'', JStr (rs_name s)), (js ''publicKey'', JStr (rs_publicKey s)),
      (js ''fingerprint'', JStr (rs_fingerprint s))]"

section \<open>Equal texts, equal records\<close>

lemma canonEqual_cost [canon_eqs]: "canonEqual (cost_json a) (cost_json b) \<longleftrightarrow> a = b"
proof -
  have "canonEqual (cost_json a) (cost_json b) \<longleftrightarrow>
      co_latency a = co_latency b \<and> co_sideEffects a = co_sideEffects b \<and>
      co_reversible a = co_reversible b \<and> co_riskTier a = co_riskTier b \<and>
      co_requiresConfirmation a = co_requiresConfirmation b"
    unfolding cost_json_def by (subst canonEqual_obj) (auto simp: canon_eqs)
  then show ?thesis by (cases a; cases b) simp
qed

lemma canonEqual_manifest [canon_eqs]:
  "canonEqual (manifest_json a) (manifest_json b) \<longleftrightarrow>
     um_manifestVersion a = um_manifestVersion b \<and> um_toolName a = um_toolName b \<and>
     um_previousCardId a = um_previousCardId b \<and> um_newCardId a = um_newCardId b \<and>
     um_reason a = um_reason b \<and> um_breaking a = um_breaking b \<and>
     um_securityImpact a = um_securityImpact b \<and> um_issuedAt a = um_issuedAt b \<and>
     um_serverPublicKey a = um_serverPublicKey b"
  unfolding manifest_json_def by (subst canonEqual_obj) (auto simp: canon_eqs)

lemma canonEqual_receipt [canon_eqs]:
  "canonEqual (receipt_json a) (receipt_json b) \<longleftrightarrow>
     cr_receiptVersion a = cr_receiptVersion b \<and> cr_callId a = cr_callId b \<and>
     cr_glyphId a = cr_glyphId b \<and> cr_glyphName a = cr_glyphName b \<and>
     cr_inputHash a = cr_inputHash b \<and> cr_outputHash a = cr_outputHash b \<and>
     cr_inspectionHash a = cr_inspectionHash b \<and> cr_riskTier a = cr_riskTier b \<and>
     cr_provider a = cr_provider b \<and> cr_latencyMs a = cr_latencyMs b \<and>
     cr_timestamp a = cr_timestamp b \<and> cr_serverPublicKey a = cr_serverPublicKey b \<and>
     canonEqual (jopt (\<lambda>v. v) (cr_clientCallId a)) (jopt (\<lambda>v. v) (cr_clientCallId b))"
  unfolding receipt_json_def by (subst canonEqual_obj) (auto simp: canon_eqs)

lemma canonEqual_attestation [canon_eqs]:
  "canonEqual (attestation_json a) (attestation_json b) \<longleftrightarrow> a = b"
proof -
  have "canonEqual (attestation_json a) (attestation_json b) \<longleftrightarrow>
      at_type a = at_type b \<and> at_payload a = at_payload b \<and> at_reference a = at_reference b"
    unfolding attestation_json_def by (subst canonEqual_obj) (auto simp: canon_eqs)
  then show ?thesis by (cases a; cases b) simp
qed

lemma canonEqual_opt_attestation [canon_eqs]:
  "canonEqual (jopt attestation_json a) (jopt attestation_json b) \<longleftrightarrow> a = b"
  by (cases a; cases b) (simp_all add: canon_eqs, simp_all add: attestation_json_def)

lemma canonEqual_failure [canon_eqs]: "canonEqual (failure_json a) (failure_json b) \<longleftrightarrow> a = b"
proof -
  have "canonEqual (failure_json a) (failure_json b) \<longleftrightarrow>
      fm_code a = fm_code b \<and> fm_description a = fm_description b"
    unfolding failure_json_def by (subst canonEqual_obj) (auto simp: canon_eqs)
  then show ?thesis by (cases a; cases b) simp
qed

lemma canonEqual_finding [canon_eqs]: "canonEqual (finding_json a) (finding_json b) \<longleftrightarrow> a = b"
proof -
  have "canonEqual (finding_json a) (finding_json b) \<longleftrightarrow>
      sf_path a = sf_path b \<and> sf_kind a = sf_kind b \<and> sf_count a = sf_count b"
    unfolding finding_json_def by (subst canonEqual_obj) (auto simp: canon_eqs)
  then show ?thesis by (cases a; cases b) simp
qed

lemma canonEqual_mapped:
  assumes "\<And>x y. canonEqual (f x) (f y) \<longleftrightarrow> x = y" "\<And>x. f x \<noteq> JUndef"
  shows "canonEqual (JArr (map f xs)) (JArr (map f ys)) \<longleftrightarrow> xs = ys"
proof -
  have "JUndef \<notin> set (map f zs)" for zs using assms(2) by (metis ex_map_conv)
  then have "canonEqual (JArr (map f xs)) (JArr (map f ys)) \<longleftrightarrow> list_all2 canonEqual (map f xs) (map f ys)"
    by (intro canonEqual_arr)
  then show ?thesis
    by (auto simp: list_all2_conv_all_nth assms(1) list_eq_iff_nth_eq)
qed

lemma canonEqual_findings [canon_eqs]:
  "canonEqual (JArr (map finding_json xs)) (JArr (map finding_json ys)) \<longleftrightarrow> xs = ys"
  by (rule canonEqual_mapped) (simp add: canon_eqs, simp add: finding_json_def)

lemma canonEqual_sanitization [canon_eqs]:
  "canonEqual (sanitization_json a) (sanitization_json b) \<longleftrightarrow> a = b"
proof -
  have "canonEqual (sanitization_json a) (sanitization_json b) \<longleftrightarrow>
      sn_modified a = sn_modified b \<and> sn_findings a = sn_findings b"
    unfolding sanitization_json_def
    by (subst canonEqual_obj) (auto simp: canon_eqs)
  then show ?thesis by (cases a; cases b) simp
qed

text \<open>Values built by the encoders are never \<open>undefined\<close>.\<close>

lemma encoders_defined [simp]:
  "cost_json c \<noteq> JUndef" "example_json e \<noteq> JUndef" "failure_json f \<noteq> JUndef"
  "attestation_json a \<noteq> JUndef" "sanitization_json s \<noteq> JUndef" "receipt_json r \<noteq> JUndef"
  "manifest_json m \<noteq> JUndef" "key_entry_json k \<noteq> JUndef" "jstrs x \<noteq> JUndef" "group_json g \<noteq> JUndef"
  by (simp_all add: cost_json_def example_json_def failure_json_def attestation_json_def
      sanitization_json_def receipt_json_def manifest_json_def key_entry_json_def jstrs_def group_json_def)

text \<open>Hashes of values without \<open>undefined\<close> at the top exist, and agree when the values do.\<close>

lemma canonicalHash_Some: "v \<noteq> JUndef \<Longrightarrow> canonicalHash C v = Some (cx_sha256 C (ser (canonicalize v)))"
  by (simp add: canonicalHash_def json_stringify_def)

lemma canonicalHash_None_iff [simp]: "canonicalHash C v = None \<longleftrightarrow> v = JUndef"
  by (auto simp: canonicalHash_def json_stringify_def)

lemma canonEqual_hash: "canonEqual v w \<Longrightarrow> canonicalHash C v = canonicalHash C w"
  by (simp add: canonEqual_def canonicalHash_def)

definition no_collision :: "crypto \<Rightarrow> jsval \<Rightarrow> jsval \<Rightarrow> bool" where
  "no_collision C v w \<longleftrightarrow>
     (cx_sha256 C (ser (canonicalize v)) = cx_sha256 C (ser (canonicalize w)) \<longrightarrow>
      ser (canonicalize v) = ser (canonicalize w))"

lemma hash_eq_canonEqual:
  assumes "canonicalHash C v = canonicalHash C w" "no_collision C v w"
  shows "canonEqual v w"
  using assms by (auto simp: canonicalHash_def json_stringify_def no_collision_def canonEqual_def
      split: if_splits)

lemma toy_no_collision: "no_collision toy_crypto v w"
  by (simp add: no_collision_def toy_crypto_def)

end
