(* ===== verification/Key_Registry.thy ===== *)
theory Key_Registry
  imports Type_Json
begin

text \<open>
  \<open>packages/core/src/key-registry.ts\<close> and \<open>providers-registry.ts\<close>: the signed list of a
  server's keys, its verification as a chain of signatures, the status of one key at a time, the
  builders used for genesis, rotation and revocation, and the three sources a verifier can read
  a registry from. \<open>parse_time\<close> is \<open>Date.parse\<close>; \<open>None\<close> is \<open>NaN\<close>, which no comparison satisfies.
\<close>

section \<open>Payloads\<close>

definition KEY_REGISTRY_VERSION :: jstr where
  "KEY_REGISTRY_VERSION = js ''1.0''"

text \<open>\<open>canonicalHash\<close> of an object, which never throws.\<close>

definition object_hash :: "crypto \<Rightarrow> (jstr \<times> jsval) list \<Rightarrow> jstr" where
  "object_hash C kvs = cx_sha256 C (ser (canonicalize (JObj kvs)))"

lemma object_hash_canonicalHash: "canonicalHash C (JObj kvs) = Some (object_hash C kvs)"
  by (simp add: object_hash_def canonicalHash_Some)

definition fingerprintKey :: "crypto \<Rightarrow> jstr \<Rightarrow> jstr" where
  "fingerprintKey C publicKey = cx_sha256 C publicKey"

definition entrySigningPayload :: "crypto \<Rightarrow> key_entry \<Rightarrow> jstr" where
  "entrySigningPayload C e = object_hash C
     [(js ''fingerprint'', JStr (ke_fingerprint e)),
      (js ''publicKey'', JStr (ke_publicKey e)),
      (js ''validFrom'', JStr (ke_validFrom e)),
      (js ''signedBy'', case ke_signedBy e of None \<Rightarrow> JNull | Some p \<Rightarrow> JStr p)]"

definition registrySigningPayload :: "crypto \<Rightarrow> 'a registry_base_scheme \<Rightarrow> jstr" where
  "registrySigningPayload C r = object_hash C
     [(js ''registryVersion'', JStr (kr_registryVersion r)),
      (js ''serverId'', JStr (kr_serverId r)),
      (js ''active'', JStr (kr_active r)),
      (js ''keys'', JArr (map key_entry_json (kr_keys r))),
      (js ''issuedAt'', JStr (kr_issuedAt r)),
      (js ''ttlSeconds'', JNum (kr_ttlSeconds r))]"

section \<open>Verification\<close>

text \<open>First loop: every fingerprint is the hash of its key; \<open>None\<close> is \<open>return false\<close>.\<close>

fun index_entries :: "crypto \<Rightarrow> key_entry list \<Rightarrow> (jstr, key_entry) omap \<Rightarrow> (jstr, key_entry) omap option" where
  "index_entries C [] m = Some m"
| "index_entries C (e # es) m =
     (if fingerprintKey C (ke_publicKey e) \<noteq> ke_fingerprint e then None
      else index_entries C es (omap_set (ke_fingerprint e) e m))"

text \<open>
  Second loop: every entry with a parent carries a signature of that parent. The outer
  \<open>None\<close> is an exception of the signature library, which this function does not catch.
\<close>

fun check_parents :: "crypto \<Rightarrow> (jstr, key_entry) omap \<Rightarrow> key_entry list \<Rightarrow> bool option" where
  "check_parents C m [] = Some True"
| "check_parents C m (e # es) =
     (if \<not> truthy (ke_signedBy e) then check_parents C m es
      else if \<not> truthy (ke_signature e) then Some False
      else case map_of m (the (ke_signedBy e)) of
        None \<Rightarrow> Some False
      | Some parent \<Rightarrow>
          (case cx_verify C (the (ke_signature e)) (entrySigningPayload C e) (ke_publicKey parent) of
             None \<Rightarrow> None
           | Some ok \<Rightarrow> if \<not> ok then Some False else check_parents C m es))"

definition verifyKeyRegistry :: "crypto \<Rightarrow> key_registry \<Rightarrow> bool option" where
  "verifyKeyRegistry C r =
     (if kr_registryVersion r \<noteq> KEY_REGISTRY_VERSION then Some False
      else case index_entries C (kr_keys r) [] of
        None \<Rightarrow> Some False
      | Some m \<Rightarrow>
          (case check_parents C m (kr_keys r) of
             None \<Rightarrow> None
           | Some False \<Rightarrow> Some False
           | Some True \<Rightarrow>
               (case map_of m (kr_active r) of
                  None \<Rightarrow> Some False
                | Some active \<Rightarrow>
                    if truthy (ke_revokedAt active) then Some False
                    else cx_verify C (kr_signature r) (registrySigningPayload C r) (ke_publicKey active))))"

section \<open>The status of a key\<close>

datatype resolve_result =
    Active key_entry
  | Retired key_entry
  | Revoked key_entry "jstr option"
  | Expired key_entry
  | Not_Yet_Valid key_entry
  | Unknown

definition time_le :: "(jstr \<Rightarrow> int option) \<Rightarrow> jstr \<Rightarrow> int \<Rightarrow> bool" where
  "time_le parse_time s now = (case parse_time s of None \<Rightarrow> False | Some t \<Rightarrow> t \<le> now)"

definition time_gt :: "(jstr \<Rightarrow> int option) \<Rightarrow> jstr \<Rightarrow> int \<Rightarrow> bool" where
  "time_gt parse_time s now = (case parse_time s of None \<Rightarrow> False | Some t \<Rightarrow> t > now)"

definition entry_status :: "(jstr \<Rightarrow> int option) \<Rightarrow> int \<Rightarrow> key_entry \<Rightarrow> resolve_result" where
  "entry_status parse_time now e =
     (if truthy (ke_revokedAt e) \<and> time_le parse_time (the (ke_revokedAt e)) now
      then Revoked e (ke_revocationReason e)
      else if time_gt parse_time (ke_validFrom e) now then Not_Yet_Valid e
      else if truthy (ke_validUntil e) \<and> time_le parse_time (the (ke_validUntil e)) now then Expired e
      else if truthy (ke_validUntil e) then Retired e
      else Active e)"

fun resolve_entries :: "(jstr \<Rightarrow> int option) \<Rightarrow> int \<Rightarrow> jstr \<Rightarrow> key_entry list \<Rightarrow> resolve_result" where
  "resolve_entries parse_time now target [] = Unknown"
| "resolve_entries parse_time now target (e # es) =
     (if ke_fingerprint e \<noteq> target then resolve_entries parse_time now target es
      else entry_status parse_time now e)"

definition resolveKey :: "crypto \<Rightarrow> (jstr \<Rightarrow> int option) \<Rightarrow> key_registry \<Rightarrow> jstr \<Rightarrow> int \<Rightarrow> resolve_result" where
  "resolveKey C parse_time r publicKey at =
     resolve_entries parse_time at (fingerprintKey C publicKey) (kr_keys r)"

section \<open>Builders\<close>

datatype registry_error =
    No_Active_Key | Signing_Threw | Verification_Threw | Verification_Failed | Refusing_To_Save
  | Read_Failed | Malformed_Json | Fetch_Failed | Http_Status int

definition active_entry :: "key_entry list \<Rightarrow> key_entry option" where
  "active_entry entries = find (\<lambda>e. \<not> truthy (ke_validUntil e) \<and> \<not> truthy (ke_revokedAt e)) (rev entries)"

text \<open>\<open>now\<close> is the current time, used when \<open>issuedAt\<close> is absent.\<close>

definition buildKeyRegistry ::
  "crypto \<Rightarrow> jstr \<Rightarrow> jstr \<Rightarrow> key_entry list \<Rightarrow> jstr \<Rightarrow> int option \<Rightarrow> jstr option
    \<Rightarrow> registry_error + key_registry" where
  "buildKeyRegistry C now serverId entries activePrivateKey ttlSeconds issuedAt =
     (case active_entry entries of
        None \<Rightarrow> Inl No_Active_Key
      | Some active \<Rightarrow>
          let base = \<lparr>kr_registryVersion = KEY_REGISTRY_VERSION, kr_serverId = serverId,
                      kr_active = ke_fingerprint active, kr_keys = entries,
                      kr_issuedAt = (case issuedAt of None \<Rightarrow> now | Some t \<Rightarrow> t),
                      kr_ttlSeconds = (case ttlSeconds of None \<Rightarrow> 3600 | Some t \<Rightarrow> t)\<rparr>
          in case cx_sign C (registrySigningPayload C base) activePrivateKey of
               None \<Rightarrow> Inl Signing_Threw
             | Some signature \<Rightarrow>
                 Inr (registry_base.extend base (key_registry.fields signature)))"

text \<open>The parent is given by its fingerprint and its private key.\<close>

definition buildKeyEntry :: "crypto \<Rightarrow> jstr \<Rightarrow> jstr \<Rightarrow> (jstr \<times> jstr) option \<Rightarrow> key_entry option" where
  "buildKeyEntry C publicKey validFrom parent =
     (let base = \<lparr>ke_fingerprint = fingerprintKey C publicKey, ke_publicKey = publicKey,
                  ke_validFrom = validFrom, ke_validUntil = None, ke_revokedAt = None,
                  ke_revocationReason = None, ke_signedBy = map_option fst parent,
                  ke_signature = None, ke_group = None\<rparr>
      in case parent of
           None \<Rightarrow> Some base
         | Some (fp, priv) \<Rightarrow>
             map_option (\<lambda>sig. base\<lparr>ke_signature := Some sig\<rparr>)
               (cx_sign C (entrySigningPayload C base) priv))"

section \<open>Sources\<close>

text \<open>
  A source is asked for its registry and for the status of a key. The file's content is what
  \<open>readFile\<close> and \<open>JSON.parse\<close> make of it; the network's answer to \<open>GET /keys\<close> is an argument.
\<close>

datatype 'a disk_file = No_File | Malformed | Holds 'a

type_synonym static_source = key_registry

definition static_registry :: "static_source \<Rightarrow> (registry_error + key_registry) \<times> static_source" where
  "static_registry s = (Inr s, s)"

definition static_resolve ::
  "crypto \<Rightarrow> (jstr \<Rightarrow> int option) \<Rightarrow> jstr \<Rightarrow> int \<Rightarrow> static_source
    \<Rightarrow> (registry_error + resolve_result) \<times> static_source" where
  "static_resolve C parse_time pub at s = (Inr (resolveKey C parse_time s pub at), s)"

definition static_update :: "key_registry \<Rightarrow> static_source \<Rightarrow> static_source" where
  "static_update next s = next"

record file_source =
  fk_cache :: "key_registry option"
  fk_disk :: "key_registry disk_file"

definition file_load :: "crypto \<Rightarrow> (file_source, registry_error, key_registry) step" where
  "file_load C s =
     (case fk_cache s of
        Some r \<Rightarrow> (Inr r, s)
      | None \<Rightarrow>
          (case fk_disk s of
             No_File \<Rightarrow> (Inl Read_Failed, s)
           | Malformed \<Rightarrow> (Inl Malformed_Json, s)
           | Holds parsed \<Rightarrow>
               (case verifyKeyRegistry C parsed of
                  None \<Rightarrow> (Inl Verification_Threw, s)
                | Some False \<Rightarrow> (Inl Verification_Failed, s)
                | Some True \<Rightarrow> (Inr parsed, s\<lparr>fk_cache := Some parsed\<rparr>))))"

definition file_save :: "crypto \<Rightarrow> key_registry \<Rightarrow> (file_source, registry_error, unit) step" where
  "file_save C r s =
     (case verifyKeyRegistry C r of
        None \<Rightarrow> (Inl Verification_Threw, s)
      | Some False \<Rightarrow> (Inl Refusing_To_Save, s)
      | Some True \<Rightarrow> (Inr (), s\<lparr>fk_disk := Holds r, fk_cache := Some r\<rparr>))"

definition file_resolve ::
  "crypto \<Rightarrow> (jstr \<Rightarrow> int option) \<Rightarrow> jstr \<Rightarrow> int \<Rightarrow> (file_source, registry_error, resolve_result) step" where
  "file_resolve C parse_time pub at =
     and_then (file_load C) (\<lambda>r. return (resolveKey C parse_time r pub at))"

datatype keys_response = Keys_Unreachable | Keys_Status int | Keys_Malformed | Keys_Body key_registry

record http_source =
  hk_cache :: "(key_registry \<times> int) option"
  hk_maxAge :: "int option"

definition http_fetch_keys ::
  "crypto \<Rightarrow> int \<Rightarrow> keys_response \<Rightarrow> (http_source, registry_error, key_registry) step" where
  "http_fetch_keys C now response s =
     (case response of
        Keys_Unreachable \<Rightarrow> (Inl Fetch_Failed, s)
      | Keys_Status code \<Rightarrow> (Inl (Http_Status code), s)
      | Keys_Malformed \<Rightarrow> (Inl Malformed_Json, s)
      | Keys_Body parsed \<Rightarrow>
          (case verifyKeyRegistry C parsed of
             None \<Rightarrow> (Inl Verification_Threw, s)
           | Some False \<Rightarrow> (Inl Verification_Failed, s)
           | Some True \<Rightarrow>
               let ttl = min (kr_ttlSeconds parsed) (case hk_maxAge s of None \<Rightarrow> 3600 | Some a \<Rightarrow> a)
               in (Inr parsed, s\<lparr>hk_cache := Some (parsed, now + ttl * 1000)\<rparr>)))"

definition http_registry ::
  "crypto \<Rightarrow> int \<Rightarrow> keys_response \<Rightarrow> (http_source, registry_error, key_registry) step" where
  "http_registry C now response s =
     (case hk_cache s of
        Some (value, expiresAt) \<Rightarrow>
          if expiresAt > now then (Inr value, s) else http_fetch_keys C now response s
      | None \<Rightarrow> http_fetch_keys C now response s)"

definition http_resolve ::
  "crypto \<Rightarrow> (jstr \<Rightarrow> int option) \<Rightarrow> int \<Rightarrow> keys_response \<Rightarrow> jstr \<Rightarrow> int
    \<Rightarrow> (http_source, registry_error, resolve_result) step" where
  "http_resolve C parse_time now response pub at =
     and_then (http_registry C now response) (\<lambda>r. return (resolveKey C parse_time r pub at))"

section \<open>Public providers registry\<close>

definition PROVIDERS_REGISTRY_VERSION :: jstr where
  "PROVIDERS_REGISTRY_VERSION = js ''1.0''"

definition providersSigningPayload :: "crypto \<Rightarrow> 'a providers_base_scheme \<Rightarrow> jstr" where
  "providersSigningPayload C r = object_hash C
     [(js ''registryVersion'', JStr (pr_registryVersion r)),
      (js ''registryId'', JStr (pr_registryId r)),
      (js ''issuedAt'', JStr (pr_issuedAt r)),
      (js ''ttlSeconds'', JNum (pr_ttlSeconds r)),
      (js ''providers'', JArr (map provider_json (pr_providers r))),
      (js ''signedBy'', signer_json (pr_signedBy r))]"

definition signProvidersRegistry :: "crypto \<Rightarrow> 'a providers_base_scheme \<Rightarrow> jstr \<Rightarrow> jstr option" where
  "signProvidersRegistry C r privateKey = cx_sign C (providersSigningPayload C r) privateKey"

definition verifyProvidersRegistry :: "crypto \<Rightarrow> providers_registry \<Rightarrow> jstr option \<Rightarrow> bool" where
  "verifyProvidersRegistry C r trustRoot =
     (if pr_signature r = [] \<or> rs_publicKey (pr_signedBy r) = [] then False
      else if pr_registryVersion r \<noteq> PROVIDERS_REGISTRY_VERSION then False
      else if truthy trustRoot \<and> the trustRoot \<noteq> rs_publicKey (pr_signedBy r) then False
      else verify_or_false C (pr_signature r) (providersSigningPayload C r) (rs_publicKey (pr_signedBy r)))"

section \<open>What verification establishes\<close>

definition fingerprints_ok :: "crypto \<Rightarrow> key_entry list \<Rightarrow> bool" where
  "fingerprints_ok C es \<longleftrightarrow> (\<forall>e\<in>set es. ke_fingerprint e = fingerprintKey C (ke_publicKey e))"

text \<open>\<open>signed_by_in C es e\<close>: some entry of \<open>es\<close> with the named fingerprint signed \<open>e\<close>.\<close>

definition signed_by_in :: "crypto \<Rightarrow> key_entry list \<Rightarrow> key_entry \<Rightarrow> bool" where
  "signed_by_in C es e \<longleftrightarrow> truthy (ke_signedBy e) \<longrightarrow> truthy (ke_signature e) \<and>
     (\<exists>p\<in>set es. Some (ke_fingerprint p) = ke_signedBy e \<and>
        cx_verify C (the (ke_signature e)) (entrySigningPayload C e) (ke_publicKey p) = Some True)"

lemma index_entries_Some:
  "index_entries C es m = Some m' \<Longrightarrow>
     fingerprints_ok C es \<and> (\<forall>k e. map_of m' k = Some e \<longrightarrow> map_of m k = Some e \<or> e \<in> set es \<and> ke_fingerprint e = k)"
proof (induction es arbitrary: m)
  case (Cons e es)
  then have fp: "fingerprintKey C (ke_publicKey e) = ke_fingerprint e"
    and rest: "index_entries C es (omap_set (ke_fingerprint e) e m) = Some m'"
    by (auto split: if_splits)
  have IH: "fingerprints_ok C es" "\<And>k x. map_of m' k = Some x \<Longrightarrow>
      map_of (omap_set (ke_fingerprint e) e m) k = Some x \<or> x \<in> set es \<and> ke_fingerprint x = k"
    using Cons.IH [OF rest] by auto
  have "map_of m k = Some x \<or> x \<in> set (e # es) \<and> ke_fingerprint x = k" if "map_of m' k = Some x" for k x
    using IH(2) [OF that] by (auto simp: store_laws split: if_splits)
  with fp IH(1) show ?case by (auto simp: fingerprints_ok_def)
qed (simp add: fingerprints_ok_def)

lemma index_entries_distinct:
  assumes "fingerprints_ok C es" "distinct (map ke_fingerprint es)"
  shows "\<exists>m'. index_entries C es m = Some m' \<and> (\<forall>e\<in>set es. map_of m' (ke_fingerprint e) = Some e) \<and>
    (\<forall>k. k \<notin> ke_fingerprint ` set es \<longrightarrow> map_of m' k = map_of m k)"
  using assms
proof (induction es arbitrary: m)
  case (Cons e es)
  from Cons.IH [of "omap_set (ke_fingerprint e) e m"] Cons.prems obtain m' where
    m': "index_entries C es (omap_set (ke_fingerprint e) e m) = Some m'"
      "\<forall>e\<in>set es. map_of m' (ke_fingerprint e) = Some e"
      "\<And>k. k \<notin> ke_fingerprint ` set es \<Longrightarrow> map_of m' k = map_of (omap_set (ke_fingerprint e) e m) k"
    by (auto simp: fingerprints_ok_def)
  moreover have "ke_fingerprint e \<notin> ke_fingerprint ` set es" using Cons.prems by simp
  ultimately show ?case using Cons.prems by (auto simp: fingerprints_ok_def store_laws)
qed simp

lemma check_parents_True:
  "check_parents C m es = Some True \<longleftrightarrow>
     (\<forall>e\<in>set es. truthy (ke_signedBy e) \<longrightarrow> truthy (ke_signature e) \<and>
        (\<exists>p. map_of m (the (ke_signedBy e)) = Some p \<and>
           cx_verify C (the (ke_signature e)) (entrySigningPayload C e) (ke_publicKey p) = Some True))"
  by (induction es) (auto split: option.splits if_splits)

text \<open>
  C16. A registry that verifies is a chain of signatures: the version is the known one, every
  fingerprint is the hash of its key, every entry that names a parent is signed by an entry of
  the registry with that fingerprint, and the whole is signed by an entry that is not revoked.
\<close>

theorem verifyKeyRegistry_chain:
  assumes "verifyKeyRegistry C r = Some True"
  shows "kr_registryVersion r = KEY_REGISTRY_VERSION \<and> fingerprints_ok C (kr_keys r) \<and>
    (\<forall>e\<in>set (kr_keys r). signed_by_in C (kr_keys r) e) \<and>
    (\<exists>a\<in>set (kr_keys r). ke_fingerprint a = kr_active r \<and> \<not> truthy (ke_revokedAt a) \<and>
       cx_verify C (kr_signature r) (registrySigningPayload C r) (ke_publicKey a) = Some True)"
proof -
  from assms obtain m where m: "index_entries C (kr_keys r) [] = Some m"
    "check_parents C m (kr_keys r) = Some True" and v: "kr_registryVersion r = KEY_REGISTRY_VERSION"
    by (auto simp: verifyKeyRegistry_def split: if_splits option.splits bool.splits)
  with assms obtain a where a: "map_of m (kr_active r) = Some a" "\<not> truthy (ke_revokedAt a)"
    "cx_verify C (kr_signature r) (registrySigningPayload C r) (ke_publicKey a) = Some True"
    by (auto simp: verifyKeyRegistry_def split: if_splits option.splits)
  have i: "fingerprints_ok C (kr_keys r)"
    "\<And>k e. map_of m k = Some e \<Longrightarrow> e \<in> set (kr_keys r) \<and> ke_fingerprint e = k"
    using index_entries_Some [OF m(1)] by auto
  have "signed_by_in C (kr_keys r) e" if "e \<in> set (kr_keys r)" for e
    using m(2) that i(2) unfolding check_parents_True signed_by_in_def
    by (metis option.collapse truthy.simps(1))
  then show ?thesis using v i a by metis
qed

text \<open>The converse needs distinct fingerprints, as two entries of one fingerprint shadow each other.\<close>

lemma verifyKeyRegistry_complete:
  assumes "kr_registryVersion r = KEY_REGISTRY_VERSION" "fingerprints_ok C (kr_keys r)"
    and d: "distinct (map ke_fingerprint (kr_keys r))"
    and s: "\<forall>e\<in>set (kr_keys r). signed_by_in C (kr_keys r) e"
    and a: "a \<in> set (kr_keys r)" "ke_fingerprint a = kr_active r" "\<not> truthy (ke_revokedAt a)"
      "cx_verify C (kr_signature r) (registrySigningPayload C r) (ke_publicKey a) = Some True"
  shows "verifyKeyRegistry C r = Some True"
proof -
  from index_entries_distinct [OF assms(2) d] obtain m where
    m: "index_entries C (kr_keys r) [] = Some m"
      "\<And>e. e \<in> set (kr_keys r) \<Longrightarrow> map_of m (ke_fingerprint e) = Some e" by blast
  have "check_parents C m (kr_keys r) = Some True"
    unfolding check_parents_True
  proof (intro ballI impI)
    fix e assume e: "e \<in> set (kr_keys r)" "truthy (ke_signedBy e)"
    with s obtain p where p: "truthy (ke_signature e)" "p \<in> set (kr_keys r)"
      "Some (ke_fingerprint p) = ke_signedBy e"
      "cx_verify C (the (ke_signature e)) (entrySigningPayload C e) (ke_publicKey p) = Some True"
      unfolding signed_by_in_def by blast
    have "map_of m (the (ke_signedBy e)) = Some p" using m(2) [OF p(2)] p(3) by (metis option.sel)
    with p(1,4) show "truthy (ke_signature e) \<and> (\<exists>p. map_of m (the (ke_signedBy e)) = Some p \<and>
        cx_verify C (the (ke_signature e)) (entrySigningPayload C e) (ke_publicKey p) = Some True)" by blast
  qed
  then show ?thesis using assms m(1) m(2) [OF a(1)] by (simp add: verifyKeyRegistry_def)
qed

section \<open>Genesis, rotation, retirement, revocation\<close>

text \<open>
  How the entries of a registry come about: a genesis entry, new entries signed by the key of
  an entry already present, and entries that are later retired or revoked in place.
\<close>

inductive key_history :: "crypto \<Rightarrow> key_entry list \<Rightarrow> bool" for C where
  genesis: "buildKeyEntry C pub from None = Some e \<Longrightarrow> key_history C [e]"
| rotate: "key_history C es \<Longrightarrow> p \<in> set es \<Longrightarrow> key_pair_ok C (ke_publicKey p) priv \<Longrightarrow>
    buildKeyEntry C pub from (Some (ke_fingerprint p, priv)) = Some e \<Longrightarrow>
    ke_fingerprint e \<notin> set (map ke_fingerprint es) \<Longrightarrow> key_history C (es @ [e])"
| retire: "key_history C es \<Longrightarrow> i < length es \<Longrightarrow>
    key_history C (es[i := (es ! i)\<lparr>ke_validUntil := Some t\<rparr>])"
| revoke: "key_history C es \<Longrightarrow> i < length es \<Longrightarrow>
    key_history C (es[i := (es ! i)\<lparr>ke_revokedAt := Some t, ke_revocationReason := reason\<rparr>])"

inductive_cases key_history_NilE: "key_history C []"

definition history_ok :: "crypto \<Rightarrow> key_entry list \<Rightarrow> bool" where
  "history_ok C es \<longleftrightarrow> fingerprints_ok C es \<and> distinct (map ke_fingerprint es) \<and>
     (\<forall>e\<in>set es. signed_by_in C es e)"

definition key_core :: "key_entry \<Rightarrow> key_entry" where
  "key_core e = e\<lparr>ke_validUntil := None, ke_revokedAt := None, ke_revocationReason := None\<rparr>"

lemma key_core_simps [simp]:
  "ke_fingerprint (key_core e) = ke_fingerprint e" "ke_publicKey (key_core e) = ke_publicKey e"
  "ke_signedBy (key_core e) = ke_signedBy e" "ke_signature (key_core e) = ke_signature e"
  "entrySigningPayload C (key_core e) = entrySigningPayload C e"
  by (simp_all add: key_core_def entrySigningPayload_def)

lemma history_ok_core: "history_ok C (map key_core es) \<longleftrightarrow> history_ok C es"
  by (simp add: history_ok_def fingerprints_ok_def signed_by_in_def comp_def)

lemma history_ok_update:
  assumes "key_core e' = key_core (es ! i)"
  shows "history_ok C (es[i := e']) \<longleftrightarrow> history_ok C es"
proof (cases "i < length es")
  case True
  then have "map key_core (es[i := e']) = map key_core es"
    using assms by (simp add: map_update list_update_same_conv)
  then show ?thesis using history_ok_core by metis
qed (simp add: list_update_beyond)

lemma signed_by_in_mono: "signed_by_in C es e \<Longrightarrow> set es \<subseteq> set es' \<Longrightarrow> signed_by_in C es' e"
  unfolding signed_by_in_def by blast

lemma buildKeyEntry_parent:
  assumes "buildKeyEntry C pub from (Some (fp, priv)) = Some e" "key_pair_ok C ppub priv"
  shows "ke_fingerprint e = fingerprintKey C pub \<and> ke_publicKey e = pub \<and> ke_signedBy e = Some fp \<and>
    truthy (ke_signature e) \<and> cx_verify C (the (ke_signature e)) (entrySigningPayload C e) ppub = Some True"
proof -
  define b where "b = \<lparr>ke_fingerprint = fingerprintKey C pub, ke_publicKey = pub, ke_validFrom = from,
    ke_validUntil = None, ke_revokedAt = None, ke_revocationReason = None, ke_signedBy = Some fp,
    ke_signature = None, ke_group = None\<rparr>"
  have e: "map_option (\<lambda>sig. b\<lparr>ke_signature := Some sig\<rparr>) (cx_sign C (entrySigningPayload C b) priv) = Some e"
    using assms(1) by (simp add: buildKeyEntry_def b_def)
  obtain sig where sig: "cx_sign C (entrySigningPayload C b) priv = Some sig" "sig \<noteq> []"
    "cx_verify C sig (entrySigningPayload C b) ppub = Some True"
    using assms(2) unfolding key_pair_ok_def by blast
  with e have "e = b\<lparr>ke_signature := Some sig\<rparr>" by simp
  moreover from this have "entrySigningPayload C e = entrySigningPayload C b" by (simp add: entrySigningPayload_def)
  ultimately show ?thesis using sig by (simp add: b_def)
qed

lemma history_ok_append:
  assumes "history_ok C es" "p \<in> set es" "key_pair_ok C (ke_publicKey p) priv"
    "buildKeyEntry C pub from (Some (ke_fingerprint p, priv)) = Some e" "ke_fingerprint e \<notin> set (map ke_fingerprint es)"
  shows "history_ok C (es @ [e])"
proof -
  note b = buildKeyEntry_parent [OF assms(4,3)]
  have "signed_by_in C (es @ [e]) e" using b assms(2) by (auto simp: signed_by_in_def)
  moreover have "signed_by_in C (es @ [e]) x" if "x \<in> set es" for x
    using assms(1) that signed_by_in_mono [of C es x "es @ [e]"] by (auto simp: history_ok_def)
  ultimately show ?thesis using assms b by (auto simp: history_ok_def fingerprints_ok_def)
qed

lemma key_history_ok: "key_history C es \<Longrightarrow> history_ok C es"
proof (induction rule: key_history.induct)
  case (genesis pub "from" e)
  then show ?case by (auto simp: buildKeyEntry_def history_ok_def fingerprints_ok_def signed_by_in_def)
next
  case (rotate es p priv pub "from" e)
  then show ?case by (intro history_ok_append)
next
  case (retire es i t)
  then show ?case using history_ok_update [of _ es i C] by (simp add: key_core_def)
next
  case (revoke es i t reason)
  then show ?case using history_ok_update [of _ es i C] by (simp add: key_core_def)
qed

lemma active_entryD:
  "active_entry es = Some a \<Longrightarrow> a \<in> set es \<and> \<not> truthy (ke_validUntil a) \<and> \<not> truthy (ke_revokedAt a)"
  by (auto simp: active_entry_def dest: find_SomeD)

lemma registry_payload_extend [simp]:
  "registrySigningPayload C (registry_base.extend b x) = registrySigningPayload C b"
  by (simp add: registrySigningPayload_def registry_base.defs)

lemma buildKeyRegistry_ok:
  assumes "history_ok C es" and "active_entry es = Some a" and "key_pair_ok C (ke_publicKey a) priv"
  shows "\<exists>r. buildKeyRegistry C now sid es priv ttl issued = Inr r \<and> verifyKeyRegistry C r = Some True \<and>
    kr_keys r = es \<and> kr_active r = ke_fingerprint a"
proof -
  define b where "b = \<lparr>kr_registryVersion = KEY_REGISTRY_VERSION, kr_serverId = sid,
    kr_active = ke_fingerprint a, kr_keys = es, kr_issuedAt = (case issued of None \<Rightarrow> now | Some t \<Rightarrow> t),
    kr_ttlSeconds = (case ttl of None \<Rightarrow> 3600 | Some t \<Rightarrow> t)\<rparr>"
  obtain sig where sig: "cx_sign C (registrySigningPayload C b) priv = Some sig"
    "cx_verify C sig (registrySigningPayload C b) (ke_publicKey a) = Some True"
    using assms(3) unfolding key_pair_ok_def by blast
  let ?r = "registry_base.extend b (key_registry.fields sig)"
  have f: "kr_registryVersion ?r = KEY_REGISTRY_VERSION" "kr_keys ?r = es" "kr_active ?r = ke_fingerprint a"
    "kr_signature ?r = sig"
    by (simp_all add: b_def registry_base.defs key_registry.defs)
  have "buildKeyRegistry C now sid es priv ttl issued = Inr ?r"
    using assms(2) sig(1) by (simp add: buildKeyRegistry_def b_def [symmetric] Let_def)
  moreover have "verifyKeyRegistry C ?r = Some True"
    using active_entryD [OF assms(2)] sig(2) assms(1)
    by (intro verifyKeyRegistry_complete [of _ _ a]) (simp_all add: f history_ok_def)
  ultimately show ?thesis using f by blast
qed

text \<open>
  Whatever sequence of rotations, retirements and revocations produced the entries, the
  registry the builder signs with the active entry's private key verifies, lists exactly those
  entries and names as active key one that is neither retired nor revoked.
\<close>

theorem buildKeyRegistry_verifies:
  assumes "key_history C es" and "active_entry es = Some a" and "key_pair_ok C (ke_publicKey a) priv"
  shows "\<exists>r. buildKeyRegistry C now sid es priv ttl issued = Inr r \<and> verifyKeyRegistry C r = Some True \<and>
    kr_keys r = es \<and> kr_active r = ke_fingerprint a \<and> \<not> truthy (ke_validUntil a) \<and> \<not> truthy (ke_revokedAt a)"
  using buildKeyRegistry_ok [OF key_history_ok [OF assms(1)] assms(2,3)] active_entryD [OF assms(2)] by blast

section \<open>Status over time\<close>

lemma resolveKey_entry:
  "(\<forall>at. resolveKey C parse_time r pub at = Unknown) \<or>
   (\<exists>e\<in>set (kr_keys r). ke_fingerprint e = fingerprintKey C pub \<and>
      (\<forall>at. resolveKey C parse_time r pub at = entry_status parse_time at e))"
proof -
  have "(\<forall>at. resolve_entries parse_time at fp es = Unknown) \<or>
      (\<exists>e\<in>set es. ke_fingerprint e = fp \<and> (\<forall>at. resolve_entries parse_time at fp es = entry_status parse_time at e))" for fp es
    by (induction es) auto
  then show ?thesis by (simp add: resolveKey_def)
qed

lemma entry_status_Revoked:
  "entry_status parse_time at e = Revoked e' reason \<longleftrightarrow>
     e' = e \<and> reason = ke_revocationReason e \<and> truthy (ke_revokedAt e) \<and> time_le parse_time (the (ke_revokedAt e)) at"
  by (auto simp: entry_status_def)

lemma entry_status_Active:
  "entry_status parse_time at e = Active e' \<longleftrightarrow>
     e' = e \<and> \<not> (truthy (ke_revokedAt e) \<and> time_le parse_time (the (ke_revokedAt e)) at) \<and>
     \<not> time_gt parse_time (ke_validFrom e) at \<and> \<not> truthy (ke_validUntil e)"
  by (auto simp: entry_status_def)

lemma time_le_mono: "time_le parse_time s now \<Longrightarrow> now \<le> now' \<Longrightarrow> time_le parse_time s now'"
  by (auto simp: time_le_def split: option.splits)

text \<open>
  Revocation is permanent: once a key resolves as revoked, it resolves as revoked, with the
  same entry and reason, at every later time.
\<close>

theorem revoked_forever:
  assumes "resolveKey C parse_time r pub at = Revoked e reason" and "at \<le> at'"
  shows "resolveKey C parse_time r pub at' = Revoked e reason"
  using resolveKey_entry [of C parse_time r pub] assms time_le_mono by (force simp: entry_status_Revoked)

text \<open>
  A key is reported usable for signing only when the registry lists it by its fingerprint
  without an end of validity, its start has passed (when it is a date), and it is not revoked
  at that time.
\<close>

theorem resolveKey_active:
  assumes "resolveKey C parse_time r pub at = Active e"
  shows "e \<in> set (kr_keys r) \<and> ke_fingerprint e = fingerprintKey C pub \<and> \<not> truthy (ke_validUntil e) \<and>
    (truthy (ke_revokedAt e) \<longrightarrow> \<not> time_le parse_time (the (ke_revokedAt e)) at) \<and>
    (\<forall>t. parse_time (ke_validFrom e) = Some t \<longrightarrow> t \<le> at)"
proof -
  from resolveKey_entry [of C parse_time r pub] assms obtain e' where
    "e' \<in> set (kr_keys r)" "ke_fingerprint e' = fingerprintKey C pub" "entry_status parse_time at e' = Active e"
    by force
  then show ?thesis by (auto simp: entry_status_Active time_gt_def)
qed

text \<open>
  A revocation date that \<open>Date.parse\<close> does not understand revokes nothing: the entry still
  resolves as active at every time after its start.
\<close>

theorem unparsable_revocation_ignored:
  "parse_time t = None \<Longrightarrow> time_le parse_time (ke_validFrom e) at \<Longrightarrow> ke_validUntil e = None \<Longrightarrow>
     entry_status parse_time at (e\<lparr>ke_revokedAt := Some t\<rparr>) = Active (e\<lparr>ke_revokedAt := Some t\<rparr>)"
  by (auto simp: entry_status_def time_le_def time_gt_def split: option.splits)

text \<open>
  The message a parent signs for an entry leaves out the end of validity, the revocation
  and the signing group: they can be changed without invalidating the parent's signature.
\<close>

theorem entry_signature_scope:
  "entrySigningPayload C (e\<lparr>ke_validUntil := u, ke_revokedAt := v, ke_revocationReason := w, ke_group := g\<rparr>)
     = entrySigningPayload C e"
  by (simp add: entrySigningPayload_def)

section \<open>Sources hand out verified registries only\<close>

text \<open>
  The interface \<open>KeyRegistrySource\<close>: \<open>reg\<close> is \<open>registry()\<close>, \<open>res\<close> is \<open>resolve\<close>, \<open>ok\<close> the
  invariant of the source's own state.
\<close>

locale key_source =
  fixes reg :: "('s, registry_error, key_registry) step"
    and res :: "jstr \<Rightarrow> int \<Rightarrow> ('s, registry_error, resolve_result) step"
    and C :: crypto
    and parse_time :: "jstr \<Rightarrow> int option"
    and ok :: "'s \<Rightarrow> bool"
  assumes res_reg: "res pub at s = and_then reg (\<lambda>r. return (resolveKey C parse_time r pub at)) s"
    and reg_ok: "ok s \<Longrightarrow> reg s = (Inr r, s') \<Longrightarrow> verifyKeyRegistry C r = Some True \<and> ok s'"
    and reg_err: "ok s \<Longrightarrow> reg s = (Inl e, s') \<Longrightarrow> ok s'"
begin

lemma res_Inr:
  "ok s \<Longrightarrow> res pub at s = (Inr x, s') \<Longrightarrow>
     \<exists>r. verifyKeyRegistry C r = Some True \<and> x = resolveKey C parse_time r pub at \<and> ok s'"
  using reg_ok by (fastforce simp: res_reg and_then_Inr return_def)

lemma res_preserves: "ok s \<Longrightarrow> ok (snd (res pub at s))"
  unfolding res_reg and_then_def return_def
  by (cases "reg s"; cases "fst (reg s)") (auto dest: reg_ok reg_err)

end

definition registry_ok :: "crypto \<Rightarrow> key_registry \<Rightarrow> bool" where
  "registry_ok C r \<longleftrightarrow> verifyKeyRegistry C r = Some True"

definition file_ok :: "crypto \<Rightarrow> file_source \<Rightarrow> bool" where
  "file_ok C s \<longleftrightarrow> (\<forall>r. fk_cache s = Some r \<longrightarrow> registry_ok C r)"

definition http_ok :: "crypto \<Rightarrow> http_source \<Rightarrow> bool" where
  "http_ok C s \<longleftrightarrow> (\<forall>r t. hk_cache s = Some (r, t) \<longrightarrow> registry_ok C r)"

lemmas source_ok_defs = registry_ok_def file_ok_def http_ok_def

interpretation static_keys: key_source static_registry "static_resolve C parse_time" C parse_time "registry_ok C"
  for C parse_time
  by unfold_locales
     (simp_all add: static_registry_def static_resolve_def and_then_def return_def registry_ok_def)

interpretation file_keys: key_source "file_load C" "file_resolve C parse_time" C parse_time "file_ok C"
  for C parse_time
  by unfold_locales
     (auto simp: file_resolve_def file_load_def source_ok_defs
       split: option.splits disk_file.splits bool.splits)

interpretation http_keys:
  key_source "http_registry C now response" "http_resolve C parse_time now response" C parse_time "http_ok C"
  for C parse_time now response
  by unfold_locales
     (auto simp: http_resolve_def http_registry_def http_fetch_keys_def source_ok_defs Let_def
       split: option.splits keys_response.splits bool.splits if_splits)

text \<open>
  A client that asks the HTTP source (with a cache that only verified registries entered)
  gets its answer from a registry whose chain of trust was verified, also when the answer comes
  from the cache, and the cache stays so.
\<close>

theorem http_resolve_verified:
  assumes "http_ok C s" and "http_resolve C parse_time now response pub at s = (Inr x, s')"
  shows "\<exists>r. verifyKeyRegistry C r = Some True \<and> x = resolveKey C parse_time r pub at \<and> http_ok C s'"
  using http_keys.res_Inr [OF assms] .

text \<open>
  The file source refuses to save a registry that does not verify and leaves the file as it
  was; a saved registry is what a fresh process loads.
\<close>

theorem file_save_load:
  "file_save C r s = (Inr (), s') \<Longrightarrow>
     verifyKeyRegistry C r = Some True \<and>
     fst (file_load C (s'\<lparr>fk_cache := None\<rparr>)) = Inr r \<and> fst (file_load C s') = Inr r"
  by (auto simp: file_save_def file_load_def split: option.splits bool.splits)

lemma file_save_refuses: "verifyKeyRegistry C r \<noteq> Some True \<Longrightarrow> snd (file_save C r s) = s"
  by (auto simp: file_save_def split: option.splits bool.splits)

section \<open>The providers registry\<close>

lemma providers_payload_extend [simp]:
  "providersSigningPayload C (providers_base.truncate r) = providersSigningPayload C r"
  "providersSigningPayload C (r\<lparr>pr_signature := sig\<rparr>) = providersSigningPayload C r"
  by (simp_all add: providersSigningPayload_def providers_base.defs)

text \<open>
  A directory signed with the issuer's key pair verifies, and with a pinned trust root it
  verifies exactly when that root is the issuer's key.
\<close>

theorem providers_trust_root:
  assumes "key_pair_ok C (rs_publicKey (pr_signedBy r)) priv"
    and "pr_registryVersion r = PROVIDERS_REGISTRY_VERSION" and "root \<noteq> []"
  shows "\<exists>sig. signProvidersRegistry C (providers_base.truncate r) priv = Some sig \<and>
    (verifyProvidersRegistry C (r\<lparr>pr_signature := sig\<rparr>) (Some root)
       \<longleftrightarrow> root = rs_publicKey (pr_signedBy r)) \<and>
    verifyProvidersRegistry C (r\<lparr>pr_signature := sig\<rparr>) None"
  using assms
  by (auto simp: key_pair_ok_def signProvidersRegistry_def verifyProvidersRegistry_def verify_or_false_iff)

section \<open>Concrete registries\<close>

definition toy_genesis :: key_entry where
  "toy_genesis = \<lparr>ke_fingerprint = js ''g'', ke_publicKey = js ''g'', ke_validFrom = js ''t0'',
     ke_validUntil = None, ke_revokedAt = None, ke_revocationReason = None, ke_signedBy = None,
     ke_signature = None, ke_group = None\<rparr>"

lemma toy_genesis_history: "key_history toy_crypto [toy_genesis]"
  by (rule key_history.genesis [of _ "js ''g''" "js ''t0''"])
     (simp add: buildKeyEntry_def toy_genesis_def fingerprintKey_def toy_crypto_def Let_def)

lemma toy_active: "active_entry [toy_genesis] = Some toy_genesis"
  by (simp add: active_entry_def toy_genesis_def)

lemma toy_genesis_pair: "key_pair_ok toy_crypto (ke_publicKey toy_genesis) (js ''g'')"
  by (simp add: toy_genesis_def toy_key_pair)

theorem buildKeyRegistry_verifies_witness:
  "\<exists>r. buildKeyRegistry toy_crypto [] (js ''s'') [toy_genesis] (js ''g'') None None = Inr r \<and>
     verifyKeyRegistry toy_crypto r = Some True"
  using buildKeyRegistry_verifies [OF toy_genesis_history toy_active toy_genesis_pair] by blast

definition toy_registry :: key_registry where
  "toy_registry = projr (buildKeyRegistry toy_crypto [] (js ''s'') [toy_genesis] (js ''g'') None None)"

lemma toy_registry_verifies:
  "verifyKeyRegistry toy_crypto toy_registry = Some True \<and> kr_keys toy_registry = [toy_genesis] \<and>
     kr_active toy_registry = js ''g''"
  using buildKeyRegistry_ok [OF key_history_ok [OF toy_genesis_history] toy_active toy_genesis_pair,
      of "[]" "js ''s''" None None]
  by (auto simp: toy_registry_def toy_genesis_def)

definition no_dates :: "jstr \<Rightarrow> int option" where
  "no_dates s = (if s = js ''t0'' then Some 0 else if s = js ''t5'' then Some 5 else None)"

theorem verifyKeyRegistry_chain_witness:
  "fingerprints_ok toy_crypto (kr_keys toy_registry) \<and>
    (\<exists>a\<in>set (kr_keys toy_registry). ke_fingerprint a = kr_active toy_registry)"
  using verifyKeyRegistry_chain [OF conjunct1 [OF toy_registry_verifies]] by blast

definition toy_revoked :: key_registry where
  "toy_revoked = toy_registry\<lparr>kr_keys := [toy_genesis\<lparr>ke_revokedAt := Some (js ''t5'')\<rparr>]\<rparr>"

lemma toy_revoked_at: "resolveKey toy_crypto no_dates toy_revoked (js ''g'') 7
    = Revoked (toy_genesis\<lparr>ke_revokedAt := Some (js ''t5'')\<rparr>) None"
  by (simp add: resolveKey_def toy_revoked_def fingerprintKey_def toy_crypto_def toy_genesis_def
      entry_status_def time_le_def no_dates_def)

theorem revoked_forever_witness:
  "resolveKey toy_crypto no_dates toy_revoked (js ''g'') 9
     = Revoked (toy_genesis\<lparr>ke_revokedAt := Some (js ''t5'')\<rparr>) None"
  using revoked_forever [OF toy_revoked_at, of 9] by simp

lemma toy_active_at: "resolveKey toy_crypto no_dates toy_registry (js ''g'') 7 = Active toy_genesis"
  by (simp add: resolveKey_def toy_registry_verifies fingerprintKey_def)
     (simp add: toy_crypto_def toy_genesis_def entry_status_def time_gt_def no_dates_def)

theorem resolveKey_active_witness: "ke_fingerprint toy_genesis = fingerprintKey toy_crypto (js ''g'')"
  using resolveKey_active [OF toy_active_at] by blast

theorem unparsable_revocation_ignored_witness:
  "entry_status no_dates 7 (toy_genesis\<lparr>ke_revokedAt := Some (js ''soon'')\<rparr>)
     = Active (toy_genesis\<lparr>ke_revokedAt := Some (js ''soon'')\<rparr>)"
  by (rule unparsable_revocation_ignored) (simp_all add: no_dates_def time_le_def toy_genesis_def)

definition toy_http :: http_source where
  "toy_http = \<lparr>hk_cache = None, hk_maxAge = None\<rparr>"

lemma toy_http_resolve:
  "\<exists>s'. http_resolve toy_crypto no_dates 7 (Keys_Body toy_registry) (js ''g'') 7 toy_http
     = (Inr (Active toy_genesis), s')"
  by (simp add: http_resolve_def and_then_def http_registry_def http_fetch_keys_def toy_http_def
      toy_registry_verifies return_def toy_active_at Let_def)

theorem http_resolve_verified_witness:
  "\<exists>r. verifyKeyRegistry toy_crypto r = Some True \<and>
     Active toy_genesis = resolveKey toy_crypto no_dates r (js ''g'') 7"
proof -
  from toy_http_resolve obtain s' where
    "http_resolve toy_crypto no_dates 7 (Keys_Body toy_registry) (js ''g'') 7 toy_http = (Inr (Active toy_genesis), s')"
    by blast
  moreover have "http_ok toy_crypto toy_http" by (simp add: http_ok_def toy_http_def)
  ultimately show ?thesis using http_resolve_verified by blast
qed

theorem file_save_load_witness:
  "fst (file_load toy_crypto \<lparr>fk_cache = None, fk_disk = Holds toy_registry\<rparr>) = Inr toy_registry"
  using file_save_load [of toy_crypto toy_registry "\<lparr>fk_cache = None, fk_disk = No_File\<rparr>"]
  by (simp add: file_save_def toy_registry_verifies)

definition toy_directory :: providers_registry where
  "toy_directory = \<lparr>pr_registryVersion = js ''1.0'', pr_registryId = js ''r'', pr_issuedAt = js ''t0'',
     pr_ttlSeconds = 60, pr_providers = [],
     pr_signedBy = \<lparr>rs_name = js ''n'', rs_publicKey = js ''k'', rs_fingerprint = js ''k''\<rparr>, pr_signature = []\<rparr>"

theorem providers_trust_root_witness:
  "\<exists>sig. \<not> verifyProvidersRegistry toy_crypto (toy_directory\<lparr>pr_signature := sig\<rparr>) (Some (js ''x'')) \<and>
     verifyProvidersRegistry toy_crypto (toy_directory\<lparr>pr_signature := sig\<rparr>) None"
  using providers_trust_root [of toy_crypto toy_directory "js ''k''" "js ''x''"]
  by (auto simp: toy_directory_def PROVIDERS_REGISTRY_VERSION_def toy_key_pair)

end
