(* ===== verification/Stores.thy ===== *)
theory Stores
  imports Prelude
begin

text \<open>
  \<open>packages/server/src/stores.ts\<close>: confirmation tickets, rate-limit counters and recorded
  responses. Each store is stated as an interface (a locale with the laws its clients rely on)
  and interpreted on the in-memory implementation; \<open>Date.now()\<close> is the argument \<open>now\<close>.
\<close>

section \<open>Confirmation tickets\<close>

record pending_confirmation =
  pc_glyphName :: jstr
  pc_inputHash :: jstr
  pc_expiresAt :: int

record confirmation_backlog =
  bl_size :: nat
  bl_earliestExpiresAt :: "int option"

type_synonym confirmations = "(jstr, pending_confirmation) omap"

definition confirmation_put :: "jstr \<Rightarrow> pending_confirmation \<Rightarrow> confirmations \<Rightarrow> confirmations" where
  "confirmation_put token entry m = omap_set token entry m"

definition confirmation_consume :: "jstr \<Rightarrow> confirmations \<Rightarrow> pending_confirmation option \<times> confirmations" where
  "confirmation_consume token m =
     (case map_of m token of
        Some entry \<Rightarrow> (Some entry, omap_delete token m)
      | None \<Rightarrow> (None, m))"

text \<open>One pass over the entries: expired ones are deleted, the others compete for the earliest expiry.\<close>

fun earliest :: "int option \<Rightarrow> int list \<Rightarrow> int option" where
  "earliest acc [] = acc"
| "earliest acc (t # ts) = earliest (case acc of None \<Rightarrow> Some t | Some a \<Rightarrow> if t < a then Some t else Some a) ts"

definition live_at :: "int \<Rightarrow> jstr \<times> pending_confirmation \<Rightarrow> bool" where
  "live_at now p \<longleftrightarrow> now < pc_expiresAt (snd p)"

definition confirmation_sweep :: "int \<Rightarrow> confirmations \<Rightarrow> confirmation_backlog \<times> confirmations" where
  "confirmation_sweep now m =
     (let kept = filter (live_at now) m in
      (\<lparr>bl_size = length kept,
        bl_earliestExpiresAt = earliest None (map (\<lambda>p. pc_expiresAt (snd p)) kept)\<rparr>, kept))"

lemma earliest_Some: "\<exists>t. earliest (Some a) ts = Some t \<and> t \<in> set (a # ts) \<and> (\<forall>x\<in>set (a # ts). t \<le> x)"
proof (induction ts arbitrary: a)
  case (Cons x ts)
  define b where "b = (if x < a then x else a)"
  have "earliest (Some a) (x # ts) = earliest (Some b) ts" by (simp add: b_def)
  moreover obtain t where "earliest (Some b) ts = Some t" "t \<in> set (b # ts)" "\<forall>x\<in>set (b # ts). t \<le> x"
    using Cons.IH by blast
  moreover have "b \<le> a" "b \<le> x" "b \<in> {a, x}" by (simp_all add: b_def)
  ultimately show ?case by auto
qed simp

lemma earliest_None: "ts \<noteq> [] \<Longrightarrow> \<exists>t. earliest None ts = Some t \<and> t \<in> set ts \<and> (\<forall>x\<in>set ts. t \<le> x)"
  using earliest_Some by (cases ts) auto

text \<open>The contract of a confirmation store, over an abstract view \<open>pending\<close> of its content.\<close>

locale confirmation_store =
  fixes wf :: "'s \<Rightarrow> bool"
    and pending :: "'s \<Rightarrow> jstr \<Rightarrow> pending_confirmation option"
    and put :: "jstr \<Rightarrow> pending_confirmation \<Rightarrow> 's \<Rightarrow> 's"
    and consume :: "jstr \<Rightarrow> 's \<Rightarrow> pending_confirmation option \<times> 's"
    and sweep :: "int \<Rightarrow> 's \<Rightarrow> confirmation_backlog \<times> 's"
  assumes wf_put: "wf s \<Longrightarrow> wf (put t e s)"
    and wf_consume: "wf s \<Longrightarrow> wf (snd (consume t s))"
    and wf_sweep: "wf s \<Longrightarrow> wf (snd (sweep now s))"
    and pending_put: "wf s \<Longrightarrow> pending (put t e s) = (pending s)(t \<mapsto> e)"
    and consumed: "wf s \<Longrightarrow> fst (consume t s) = pending s t"
    and pending_consume: "wf s \<Longrightarrow> pending (snd (consume t s)) = (pending s)(t := None)"
    and pending_sweep: "wf s \<Longrightarrow> pending (snd (sweep now s)) t =
      (case pending s t of None \<Rightarrow> None | Some e \<Rightarrow> if now < pc_expiresAt e then Some e else None)"
    and sweep_size: "wf s \<Longrightarrow> bl_size (fst (sweep now s)) = card (dom (pending (snd (sweep now s))))"
    and finite_pending: "wf s \<Longrightarrow> finite (dom (pending s))"
begin

lemma single_use:
  assumes "wf s"
  shows "fst (consume t (snd (consume t s))) = None"
  using consumed [OF wf_consume [OF assms]] pending_consume [OF assms] by simp

lemma put_consume: "wf s \<Longrightarrow> fst (consume t (put t e s)) = Some e"
  by (simp add: consumed wf_put pending_put)

lemma consume_other: "wf s \<Longrightarrow> u \<noteq> t \<Longrightarrow> fst (consume u (snd (consume t s))) = fst (consume u s)"
  by (simp add: consumed wf_consume pending_consume)

text \<open>A put after a sweep that found room keeps the store within its limit.\<close>

lemma bounded_put:
  assumes "wf s" "bl_size (fst (sweep now s)) < limit"
  shows "card (dom (pending (put t e (snd (sweep now s))))) \<le> limit"
proof -
  let ?s = "snd (sweep now s)"
  have f: "finite (dom (pending ?s))" using assms(1) by (simp add: finite_pending wf_sweep)
  have "card (dom (pending (put t e ?s))) = card (insert t (dom (pending ?s)))"
    using assms(1) by (simp add: pending_put wf_sweep)
  also have "\<dots> \<le> Suc (card (dom (pending ?s)))" using f by (simp add: card_insert_if)
  finally show ?thesis using assms sweep_size [OF assms(1), of now] by simp
qed

end

lemma card_dom_omap: "omap_wf m \<Longrightarrow> card (dom (map_of m)) = length m"
  by (simp add: dom_map_of_conv_image_fst omap_wf_def distinct_card [of "okeys m", simplified])

interpretation mem_confirmations:
  confirmation_store omap_wf map_of confirmation_put confirmation_consume confirmation_sweep
proof
  fix m :: confirmations and t now
  assume wf: "omap_wf m"
  show "omap_wf (confirmation_put t e m)" for e using wf by (simp add: confirmation_put_def omap_wf_set)
  show "omap_wf (snd (confirmation_consume t m))"
    using wf by (simp add: confirmation_consume_def omap_wf_delete split: option.splits)
  show w: "omap_wf (snd (confirmation_sweep now m))"
    using wf by (simp add: confirmation_sweep_def Let_def omap_wf_filter)
  show "map_of (confirmation_put t e m) = (map_of m)(t \<mapsto> e)" for e
    by (simp add: confirmation_put_def store_laws)
  show "fst (confirmation_consume t m) = map_of m t"
    by (simp add: confirmation_consume_def split: option.splits)
  show "map_of (snd (confirmation_consume t m)) = (map_of m)(t := None)"
    by (auto simp: confirmation_consume_def store_laws fun_upd_idem_iff split: option.splits)
  show "map_of (snd (confirmation_sweep now m)) t = (case map_of m t of None \<Rightarrow> None
      | Some e \<Rightarrow> if now < pc_expiresAt e then Some e else None)"
    using wf by (simp add: confirmation_sweep_def Let_def map_of_filter_wf live_at_def split: option.splits)
  show "bl_size (fst (confirmation_sweep now m)) = card (dom (map_of (snd (confirmation_sweep now m))))"
    using card_dom_omap [OF w] by (simp add: confirmation_sweep_def Let_def)
  show "finite (dom (map_of m))" by (rule finite_dom_map_of)
qed

text \<open>
  A confirmation ticket is single use, and a sweep drops exactly the expired tickets and
  counts the others: whatever else is stored or consumed in between, the second consumption of
  a token gives nothing unless it was put again.
\<close>

theorem confirmation_single_use:
  assumes "omap_wf m"
  shows "fst (confirmation_consume t (confirmation_put t e m)) = Some e \<and>
    fst (confirmation_consume t (snd (confirmation_consume t m))) = None \<and>
    (u \<noteq> t \<longrightarrow> fst (confirmation_consume u (snd (confirmation_consume t m))) = fst (confirmation_consume u m))"
  using mem_confirmations.put_consume [OF assms] mem_confirmations.single_use [OF assms]
    mem_confirmations.consume_other [OF assms] by blast

definition toy_ticket :: pending_confirmation where
  "toy_ticket = \<lparr>pc_glyphName = js ''wipe'', pc_inputHash = js ''h'', pc_expiresAt = 100\<rparr>"

theorem confirmation_single_use_witness:
  "fst (confirmation_consume (js ''t'') (confirmation_put (js ''t'') toy_ticket [])) = Some toy_ticket"
  using confirmation_single_use [OF omap_wf_Nil, of "js ''t''" toy_ticket] by blast

section \<open>Rate-limit counters\<close>

record rate_entry =
  re_count :: nat
  re_resetAt :: int

type_synonym rate_hits = "(jstr, rate_entry) omap"

text \<open>Deletes the first \<open>n\<close> expired entries of a map, in insertion order.\<close>

fun sweep_batch :: "nat \<Rightarrow> ('v \<Rightarrow> bool) \<Rightarrow> ('k, 'v) omap \<Rightarrow> ('k, 'v) omap" where
  "sweep_batch 0 expired m = m"
| "sweep_batch (Suc n) expired [] = []"
| "sweep_batch (Suc n) expired ((k, v) # m) =
     (if expired v then sweep_batch n expired m else (k, v) # sweep_batch (Suc n) expired m)"

definition rate_hit :: "jstr \<Rightarrow> int \<Rightarrow> int \<Rightarrow> rate_hits \<Rightarrow> rate_entry \<times> rate_hits" where
  "rate_hit key windowMs now hits =
     (let swept = sweep_batch 100 (\<lambda>e. re_resetAt e \<le> now) hits;
          entry = (case map_of swept key of
                     Some e \<Rightarrow> if now \<ge> re_resetAt e then \<lparr>re_count = 0, re_resetAt = now + windowMs\<rparr> else e
                   | None \<Rightarrow> \<lparr>re_count = 0, re_resetAt = now + windowMs\<rparr>);
          counted = entry\<lparr>re_count := Suc (re_count entry)\<rparr>
      in (counted, omap_set key counted swept))"

lemma set_sweep_batch: "set (sweep_batch n ex m) \<subseteq> set m"
  by (induction n ex m rule: sweep_batch.induct) auto

lemma sweep_batch_wf: "omap_wf m \<Longrightarrow> omap_wf (sweep_batch n ex m)"
proof (induction n ex m rule: sweep_batch.induct)
  case (3 n ex k v m)
  have "fst ` set (sweep_batch n' ex m) \<subseteq> fst ` set m" for n' using set_sweep_batch by (rule image_mono)
  with 3 show ?case by (auto simp: omap_wf_def)
qed simp_all

text \<open>A sweep keeps every entry that has not expired and invents none.\<close>

lemma sweep_batch_keeps: "p \<in> set m \<Longrightarrow> \<not> ex (snd p) \<Longrightarrow> p \<in> set (sweep_batch n ex m)"
  by (induction n ex m rule: sweep_batch.induct) auto

lemma sweep_batch_live:
  assumes "omap_wf m" "map_of m k = Some v" "\<not> ex v"
  shows "map_of (sweep_batch n ex m) k = Some v"
proof -
  have "(k, v) \<in> set (sweep_batch n ex m)"
    using sweep_batch_keeps [OF map_of_SomeD [OF assms(2)]] assms(3) by simp
  with sweep_batch_wf [OF assms(1)] show ?thesis by (simp add: omap_wf_def)
qed

lemma sweep_batch_old:
  "omap_wf m \<Longrightarrow> map_of (sweep_batch n ex m) k = Some v \<Longrightarrow> map_of m k = Some v"
  using set_sweep_batch [of n ex m] by (auto simp: omap_wf_def dest: map_of_SomeD intro: map_of_is_SomeI)

definition fresh_entry :: "int \<Rightarrow> int \<Rightarrow> rate_entry" where
  "fresh_entry windowMs now = \<lparr>re_count = 1, re_resetAt = now + windowMs\<rparr>"

lemma rate_hit_entry:
  assumes "omap_wf m"
  shows "fst (rate_hit k w now m) = (case map_of m k of
      Some e \<Rightarrow> if now < re_resetAt e then e\<lparr>re_count := Suc (re_count e)\<rparr> else fresh_entry w now
    | None \<Rightarrow> fresh_entry w now)"
proof -
  let ?s = "sweep_batch 100 (\<lambda>e. re_resetAt e \<le> now) m"
  have f: "\<lparr>re_count = 0, re_resetAt = now + w\<rparr>\<lparr>re_count := Suc 0\<rparr> = fresh_entry w now"
    by (simp add: fresh_entry_def)
  show ?thesis
  proof (cases "map_of m k")
    case None
    then have "map_of ?s k = None" using sweep_batch_old [OF assms] by (cases "map_of ?s k") fastforce+
    with None f show ?thesis by (simp add: rate_hit_def Let_def)
  next
    case (Some e)
    show ?thesis
    proof (cases "now < re_resetAt e")
      case True
      then have "map_of ?s k = Some e" using sweep_batch_live [OF assms Some] by simp
      with Some True show ?thesis by (simp add: rate_hit_def Let_def)
    next
      case False
      then have "map_of ?s k = None \<or> map_of ?s k = Some e"
        using sweep_batch_old [OF assms, of 100 "\<lambda>e. re_resetAt e \<le> now" k] Some by (cases "map_of ?s k") auto
      with Some False f show ?thesis by (auto simp: rate_hit_def Let_def)
    qed
  qed
qed

lemma rate_hit_state:
  assumes "omap_wf m"
  shows "omap_wf (snd (rate_hit k w now m))"
    and "map_of (snd (rate_hit k w now m)) k = Some (fst (rate_hit k w now m))"
    and "k' \<noteq> k \<Longrightarrow> map_of m k' = Some e \<Longrightarrow> now < re_resetAt e \<Longrightarrow>
      map_of (snd (rate_hit k w now m)) k' = Some e"
  using assms sweep_batch_live [OF assms, of k' e "\<lambda>e. re_resetAt e \<le> now" 100]
  by (simp_all add: rate_hit_def Let_def omap_wf_set sweep_batch_wf store_laws)

text \<open>A run of hits and the hits of one window that a limit of \<open>limit\<close> admits.\<close>

fun rate_run :: "int \<Rightarrow> (jstr \<times> int) list \<Rightarrow> rate_hits \<Rightarrow> (jstr \<times> rate_entry) list" where
  "rate_run w [] m = []"
| "rate_run w ((k, now) # hits) m =
     (case rate_hit k w now m of (e, m') \<Rightarrow> (k, e) # rate_run w hits m')"

definition admitted :: "nat \<Rightarrow> jstr \<Rightarrow> int \<Rightarrow> (jstr \<times> rate_entry) list \<Rightarrow> nat" where
  "admitted limit k R results =
     length (filter (\<lambda>(k', e). k' = k \<and> re_resetAt e = R \<and> re_count e \<le> limit) results)"

lemma rate_hit_future: "omap_wf m \<Longrightarrow> 0 < w \<Longrightarrow> now < re_resetAt (fst (rate_hit k w now m))"
  by (auto simp: rate_hit_entry fresh_entry_def split: option.splits)

lemma no_late_admission:
  assumes "0 < w" "omap_wf m" "\<forall>h\<in>set hits. R \<le> snd h"
  shows "admitted limit k R (rate_run w hits m) = 0"
  using assms
proof (induction hits arbitrary: m)
  case (Cons h hits)
  obtain k' now where h: "h = (k', now)" by (cases h)
  obtain e m' where r: "rate_hit k' w now m = (e, m')" by fastforce
  have "now < re_resetAt e" using rate_hit_future [of m w now k'] Cons.prems r by simp
  moreover have "omap_wf m'" using rate_hit_state(1) [of m k' w now] Cons.prems r by simp
  ultimately show ?case using Cons h r by (simp add: admitted_def)
qed (simp add: admitted_def)

definition room :: "nat \<Rightarrow> jstr \<Rightarrow> int \<Rightarrow> rate_hits \<Rightarrow> nat" where
  "room limit k R m =
     (case map_of m k of Some e \<Rightarrow> if re_resetAt e = R then limit - re_count e else limit | None \<Rightarrow> limit)"

lemma room_le: "room limit k R m \<le> limit"
  by (simp add: room_def split: option.splits)

lemma room_step:
  assumes "omap_wf m" "now < R" "rate_hit k' w now m = (e, m')"
  shows "(if k' = k \<and> re_resetAt e = R \<and> re_count e \<le> limit then 1 else 0) + room limit k R m'
    \<le> room limit k R m"
proof (cases "k' = k")
  case True
  have m': "map_of m' k = Some e" using rate_hit_state(2) [OF assms(1), of k w now] assms(3) True by simp
  have e: "e = (case map_of m k of
      Some e \<Rightarrow> if now < re_resetAt e then e\<lparr>re_count := Suc (re_count e)\<rparr> else fresh_entry w now
    | None \<Rightarrow> fresh_entry w now)"
    using rate_hit_entry [OF assms(1), of k w now] assms(3) True by simp
  show ?thesis using True m' assms(2)
    by (cases "map_of m k") (auto simp: room_def e fresh_entry_def)
next
  case False
  show ?thesis
  proof (cases "\<exists>e0. map_of m k = Some e0 \<and> re_resetAt e0 = R")
    case True
    then obtain e0 where e0: "map_of m k = Some e0" "re_resetAt e0 = R" by blast
    then have "map_of m' k = Some e0"
      using rate_hit_state(3) [OF assms(1) not_sym [OF False] e0(1), of now w] assms(2,3) by simp
    with e0(1) have "map_of m' k = map_of m k" by simp
    with False show ?thesis by (simp add: room_def)
  next
    case none: False
    then have "room limit k R m = limit" by (auto simp: room_def split: option.splits)
    with False room_le show ?thesis by simp
  qed
qed

lemma admitted_room:
  assumes "0 < w" "omap_wf m" "sorted (map snd hits)"
  shows "admitted limit k R (rate_run w hits m) \<le> room limit k R m"
  using assms
proof (induction hits arbitrary: m)
  case (Cons h hits)
  obtain k' now where h: "h = (k', now)" by (cases h)
  obtain e m' where r: "rate_hit k' w now m = (e, m')" by fastforce
  show ?case
  proof (cases "now < R")
    case True
    have "omap_wf m'" using rate_hit_state(1) [of m k' w now] Cons.prems r by simp
    then have "admitted limit k R (rate_run w hits m') \<le> room limit k R m'" using Cons by simp
    then show ?thesis using room_step [OF Cons.prems(2) True r, of k limit] h r
      by (auto simp: admitted_def split: if_splits)
  next
    case False
    then have "\<forall>x\<in>set (h # hits). R \<le> snd x" using Cons.prems(3) h by force
    from no_late_admission [OF Cons.prems(1,2) this] show ?thesis by simp
  qed
qed (simp add: admitted_def)

text \<open>
  The fixed-window limiter: however requests of different clients interleave, in any one
  window of a client at most \<open>limit\<close> of its requests are admitted, and every hit lies inside the
  window it is counted in. Sweeping expired entries never reopens a window.
\<close>

theorem rate_limit_window:
  assumes "0 < windowMs" and "sorted (map snd hits)"
  shows "admitted limit key R (rate_run windowMs hits []) \<le> limit"
  using admitted_room [OF assms(1) omap_wf_Nil assms(2), of limit key R]
  by (simp add: room_def)

theorem rate_limit_window_witness:
  "admitted 1 (js ''ip'') 10 (rate_run 10 [(js ''ip'', 0), (js ''ip'', 3), (js ''ip'', 9)] []) \<le> 1"
  by (rule rate_limit_window) simp_all

section \<open>Recorded responses\<close>

record dedupe_entry =
  de_responseJson :: jstr
  de_expiresAt :: int

type_synonym dedupe_entries = "(jstr, dedupe_entry) omap"

definition dedupe_get :: "int \<Rightarrow> jstr \<Rightarrow> dedupe_entries \<Rightarrow> jstr option \<times> dedupe_entries" where
  "dedupe_get now key m =
     (case map_of m key of
        None \<Rightarrow> (None, m)
      | Some e \<Rightarrow> if now \<ge> de_expiresAt e then (None, omap_delete key m)
                  else (Some (de_responseJson e), m))"

definition dedupe_put :: "int \<Rightarrow> jstr \<Rightarrow> jstr \<Rightarrow> int \<Rightarrow> dedupe_entries \<Rightarrow> dedupe_entries" where
  "dedupe_put now key responseJson ttlMs m =
     omap_set key \<lparr>de_responseJson = responseJson, de_expiresAt = now + ttlMs\<rparr>
       (sweep_batch 100 (\<lambda>e. de_expiresAt e \<le> now) m)"

text \<open>The contract: a live recording is replayed unchanged, an expired one never.\<close>

locale dedupe_store =
  fixes wf :: "'s \<Rightarrow> bool"
    and recorded :: "'s \<Rightarrow> jstr \<Rightarrow> dedupe_entry option"
    and get :: "int \<Rightarrow> jstr \<Rightarrow> 's \<Rightarrow> jstr option \<times> 's"
    and put :: "int \<Rightarrow> jstr \<Rightarrow> jstr \<Rightarrow> int \<Rightarrow> 's \<Rightarrow> 's"
  assumes wf_get: "wf s \<Longrightarrow> wf (snd (get now k s))"
    and wf_put: "wf s \<Longrightarrow> wf (put now k r ttl s)"
    and got: "wf s \<Longrightarrow> fst (get now k s) =
      (case recorded s k of None \<Rightarrow> None | Some e \<Rightarrow> if now < de_expiresAt e then Some (de_responseJson e) else None)"
    and recorded_put: "wf s \<Longrightarrow>
      recorded (put now k r ttl s) k = Some \<lparr>de_responseJson = r, de_expiresAt = now + ttl\<rparr>"
    and recorded_put_other: "wf s \<Longrightarrow> k' \<noteq> k \<Longrightarrow> recorded s k' = Some e \<Longrightarrow> now < de_expiresAt e \<Longrightarrow>
      recorded (put now k r ttl s) k' = Some e"
begin

lemma put_get: "wf s \<Longrightarrow> now' < now + ttl \<Longrightarrow> fst (get now' k (put now k r ttl s)) = Some r"
  by (simp add: got wf_put recorded_put)

lemma put_get_expired: "wf s \<Longrightarrow> now + ttl \<le> now' \<Longrightarrow> fst (get now' k (put now k r ttl s)) = None"
  by (simp add: got wf_put recorded_put)

lemma put_keeps_live:
  "wf s \<Longrightarrow> k' \<noteq> k \<Longrightarrow> now \<le> now' \<Longrightarrow> fst (get now' k' s) = Some r' \<Longrightarrow>
     fst (get now' k' (put now k r ttl s)) = Some r'"
  using recorded_put_other [of s k' k _ now]
  by (auto simp: got wf_put split: option.splits if_splits)

end

interpretation mem_dedupe: dedupe_store omap_wf map_of dedupe_get dedupe_put
proof
  fix m :: dedupe_entries and k k' now r ttl e
  assume wf: "omap_wf m"
  have w: "omap_wf (sweep_batch 100 (\<lambda>e. de_expiresAt e \<le> now) m)" using wf by (rule sweep_batch_wf)
  show "omap_wf (snd (dedupe_get now k m))"
    using wf by (auto simp: dedupe_get_def omap_wf_delete split: option.splits)
  show "omap_wf (dedupe_put now k r ttl m)" using w by (simp add: dedupe_put_def omap_wf_set)
  show "fst (dedupe_get now k m) = (case map_of m k of None \<Rightarrow> None
      | Some e \<Rightarrow> if now < de_expiresAt e then Some (de_responseJson e) else None)"
    by (cases "map_of m k") (simp_all add: dedupe_get_def)
  show "map_of (dedupe_put now k r ttl m) k = Some \<lparr>de_responseJson = r, de_expiresAt = now + ttl\<rparr>"
    by (simp add: dedupe_put_def store_laws)
  show "map_of (dedupe_put now k r ttl m) k' = Some e"
    if "k' \<noteq> k" "map_of m k' = Some e" "now < de_expiresAt e"
    using that sweep_batch_live [OF wf, of k' e "\<lambda>e. de_expiresAt e \<le> now" 100]
    by (simp add: dedupe_put_def store_laws)
qed

end
