(* ===== verification/Cards.thy ===== *)
theory Cards
  imports Type_Json
begin

text \<open>
  Cards, receipts and manifests of \<open>packages/core/src/index.ts\<close>: the content-addressed id, the
  signatures, the diff a human reviews, the lexicon view and the depth-stripped view.
\<close>

section \<open>The content-addressed id\<close>

text \<open>\<open>picked\<close>: the fields of \<open>CANONICAL_FIELDS\<close>, in that order; absent ones are \<open>undefined\<close>.\<close>

definition canonical_fields :: "glyph_card \<Rightarrow> (jstr \<times> jsval) list" where
  "canonical_fields c =
     [(js ''version'', JStr (gc_version c)),
      (js ''name'', JStr (gc_name c)),
      (js ''intent'', JStr (gc_intent c)),
      (js ''tags'', jstrs (gc_tags c)),
      (js ''cost'', cost_json (gc_cost c)),
      (js ''idempotent'', JBool (gc_idempotent c)),
      (js ''input'', gc_input c),
      (js ''output'', gc_output c),
      (js ''examples'', JArr (map example_json (gc_examples c))),
      (js ''failureModes'', JArr (map failure_json (gc_failureModes c))),
      (js ''provider'', JStr (gc_provider c)),
      (js ''requiredScopes'', jopt jstrs (gc_requiredScopes c)),
      (js ''attestation'', jopt attestation_json (gc_attestation c))]"

definition picked :: "glyph_card \<Rightarrow> jsval" where
  "picked c = JObj (canonical_fields c)"

definition computeGlyphId :: "crypto \<Rightarrow> glyph_card \<Rightarrow> jstr" where
  "computeGlyphId C c = cx_sha256 C (ser (canonicalize (picked c)))"

definition signGlyph :: "crypto \<Rightarrow> glyph_card \<Rightarrow> jstr \<Rightarrow> jstr option" where
  "signGlyph C c priv = cx_sign C (gc_id c) priv"

definition verifyGlyph :: "crypto \<Rightarrow> glyph_card \<Rightarrow> bool" where
  "verifyGlyph C c =
     (if \<not> truthy (gc_signature c) \<or> \<not> truthy (gc_publicKey c) then False
      else if computeGlyphId C c \<noteq> gc_id c then False
      else verify_or_false C (the (gc_signature c)) (gc_id c) (the (gc_publicKey c)))"

section \<open>Diffs\<close>

definition FIELD_SEVERITY :: "(jstr \<times> severity) list" where
  "FIELD_SEVERITY =
     [(js ''version'', Breaking), (js ''name'', Review), (js ''intent'', Review), (js ''tags'', Review),
      (js ''cost.latency'', Review), (js ''cost.sideEffects'', Breaking),
      (js ''cost.reversible'', Breaking), (js ''cost.riskTier'', Breaking),
      (js ''cost.requiresConfirmation'', Breaking), (js ''idempotent'', Breaking),
      (js ''input'', Breaking), (js ''output'', Breaking), (js ''examples'', Review),
      (js ''failureModes'', Review), (js ''provider'', Breaking), (js ''requiredScopes'', Breaking),
      (js ''publicKey'', Breaking), (js ''attestation'', Breaking)]"

definition field_severity :: "jstr \<Rightarrow> severity" where
  "field_severity f = (case map_of FIELD_SEVERITY f of Some s \<Rightarrow> s | None \<Rightarrow> Review)"

definition record_change :: "jstr \<Rightarrow> jsval \<Rightarrow> jsval \<Rightarrow> card_field_change list" where
  "record_change field before after =
     (if canonEqual before after then []
      else [\<lparr>ch_field = field, ch_severity = field_severity field, ch_before = before, ch_after = after\<rparr>])"

definition diff_changes :: "glyph_card \<Rightarrow> glyph_card \<Rightarrow> card_field_change list" where
  "diff_changes a n =
     record_change (js ''version'') (JStr (gc_version a)) (JStr (gc_version n)) @
     record_change (js ''name'') (JStr (gc_name a)) (JStr (gc_name n)) @
     record_change (js ''intent'') (JStr (gc_intent a)) (JStr (gc_intent n)) @
     record_change (js ''tags'') (jstrs (gc_tags a)) (jstrs (gc_tags n)) @
     record_change (js ''cost.latency'') (JStr (latency_str (co_latency (gc_cost a))))
       (JStr (latency_str (co_latency (gc_cost n)))) @
     record_change (js ''cost.sideEffects'') (JBool (co_sideEffects (gc_cost a)))
       (JBool (co_sideEffects (gc_cost n))) @
     record_change (js ''cost.reversible'') (JBool (co_reversible (gc_cost a)))
       (JBool (co_reversible (gc_cost n))) @
     record_change (js ''cost.riskTier'') (JStr (risk_str (co_riskTier (gc_cost a))))
       (JStr (risk_str (co_riskTier (gc_cost n)))) @
     record_change (js ''cost.requiresConfirmation'') (JBool (co_requiresConfirmation (gc_cost a)))
       (JBool (co_requiresConfirmation (gc_cost n))) @
     record_change (js ''idempotent'') (JBool (gc_idempotent a)) (JBool (gc_idempotent n)) @
     record_change (js ''input'') (gc_input a) (gc_input n) @
     record_change (js ''output'') (gc_output a) (gc_output n) @
     record_change (js ''examples'') (JArr (map example_json (gc_examples a)))
       (JArr (map example_json (gc_examples n))) @
     record_change (js ''failureModes'') (JArr (map failure_json (gc_failureModes a)))
       (JArr (map failure_json (gc_failureModes n))) @
     record_change (js ''provider'') (JStr (gc_provider a)) (JStr (gc_provider n)) @
     record_change (js ''requiredScopes'') (jopt jstrs (gc_requiredScopes a))
       (jopt jstrs (gc_requiredScopes n)) @
     record_change (js ''publicKey'') (jopt JStr (gc_publicKey a)) (jopt JStr (gc_publicKey n)) @
     record_change (js ''attestation'') (jopt attestation_json (gc_attestation a))
       (jopt attestation_json (gc_attestation n))"

definition diffCards :: "glyph_card \<Rightarrow> glyph_card \<Rightarrow> card_diff" where
  "diffCards a n =
     \<lparr>df_changed = diff_changes a n \<noteq> [],
      df_idChanged = gc_id a \<noteq> gc_id n,
      df_keyChanged = gc_publicKey a \<noteq> gc_publicKey n,
      df_changes = diff_changes a n,
      df_requiresApproval = list_ex (\<lambda>c. ch_severity c = Breaking) (diff_changes a n)\<rparr>"

section \<open>Receipts and manifests\<close>

definition sign_hash :: "crypto \<Rightarrow> jsval \<Rightarrow> jstr \<Rightarrow> jstr option" where
  "sign_hash C v priv = Option.bind (canonicalHash C v) (\<lambda>h. cx_sign C h priv)"

definition verify_hash :: "crypto \<Rightarrow> jsval \<Rightarrow> jstr \<Rightarrow> jstr \<Rightarrow> bool" where
  "verify_hash C v sig pub =
     (case canonicalHash C v of None \<Rightarrow> False | Some h \<Rightarrow> verify_or_false C sig h pub)"

definition signReceipt :: "crypto \<Rightarrow> receipt_base \<Rightarrow> jstr \<Rightarrow> jstr option" where
  "signReceipt C r priv = sign_hash C (receipt_json r) priv"

definition verifyReceipt :: "crypto \<Rightarrow> call_receipt \<Rightarrow> bool" where
  "verifyReceipt C r =
     (if cr_signature r = [] \<or> cr_serverPublicKey r = [] then False
      else verify_hash C (receipt_json r) (cr_signature r) (cr_serverPublicKey r))"

definition signManifest :: "crypto \<Rightarrow> manifest_base \<Rightarrow> jstr \<Rightarrow> jstr option" where
  "signManifest C m priv = sign_hash C (manifest_json m) priv"

definition verifyManifest :: "crypto \<Rightarrow> update_manifest \<Rightarrow> bool" where
  "verifyManifest C m =
     (if um_signature m = [] \<or> um_serverPublicKey m = [] then False
      else verify_hash C (manifest_json m) (um_signature m) (um_serverPublicKey m))"

definition KNOWN_ATTESTATION_TYPES :: "jstr list" where
  "KNOWN_ATTESTATION_TYPES = [js ''sigstore-bundle'', js ''slsa-provenance'', js ''in-toto'']"

text \<open>The result is the pair \<open>(ok, recognized)\<close>.\<close>

definition verifyAttestation :: "card_attestation option \<Rightarrow> bool \<times> bool" where
  "verifyAttestation att =
     (case att of
        None \<Rightarrow> (False, False)
      | Some a \<Rightarrow>
          let ok = at_type a \<noteq> [] \<and> at_payload a \<noteq> []
          in (ok, ok \<and> at_type a \<in> set KNOWN_ATTESTATION_TYPES))"

section \<open>Views of a card\<close>

definition toLexiconEntry :: "glyph_card \<Rightarrow> lexicon_entry" where
  "toLexiconEntry c =
     \<lparr>lx_id = gc_id c, lx_name = gc_name c, lx_intent = gc_intent c, lx_tags = gc_tags c,
      lx_riskTier = co_riskTier (gc_cost c)\<rparr>"

definition card_fields :: "glyph_card \<Rightarrow> (jstr \<times> jsval) list" where
  "card_fields c = canonical_fields c @
     [(js ''id'', JStr (gc_id c)), (js ''createdAt'', JStr (gc_createdAt c)),
      (js ''publicKey'', jopt JStr (gc_publicKey c)), (js ''signature'', jopt JStr (gc_signature c))]"

definition applyDepth :: "glyph_card \<Rightarrow> card_depth \<Rightarrow> (jstr \<times> jsval) list" where
  "applyDepth c depth =
     (if depth = Rich then card_fields c
      else
        let base = [(js ''id'', JStr (gc_id c)), (js ''name'', JStr (gc_name c)),
                    (js ''intent'', JStr (gc_intent c)), (js ''input'', gc_input c),
                    (js ''output'', gc_output c)]
        in if depth = Standard then
             base @ [(js ''cost'', cost_json (gc_cost c)),
                     (js ''examples'', JArr (map example_json (take 2 (gc_examples c))))]
           else base)"

text \<open>The fresh identifier and the current time are arguments.\<close>

definition sealResult ::
  "jstr \<Rightarrow> jstr \<Rightarrow> jstr \<Rightarrow> jstr \<Rightarrow> jsval \<Rightarrow> int \<Rightarrow> jstr \<Rightarrow> sanitization option \<Rightarrow> sealed_envelope" where
  "sealResult uuid now glyphId callId payload latencyMs provider inspection =
     \<lparr>se_glyphId = glyphId, se_callId = (if callId = [] then uuid else callId), se_payload = payload,
      se_latencyMs = latencyMs, se_provider = provider, se_timestamp = now,
      se_inspection = inspection, se_receipt = None\<rparr>"

section \<open>What the id covers\<close>

lemma canonEqual_picked:
  "canonEqual (picked a) (picked b) \<longleftrightarrow>
     gc_version a = gc_version b \<and> gc_name a = gc_name b \<and> gc_intent a = gc_intent b \<and>
     gc_tags a = gc_tags b \<and> gc_cost a = gc_cost b \<and> gc_idempotent a = gc_idempotent b \<and>
     canonEqual (gc_input a) (gc_input b) \<and> canonEqual (gc_output a) (gc_output b) \<and>
     canonEqual (JArr (map example_json (gc_examples a))) (JArr (map example_json (gc_examples b))) \<and>
     canonEqual (JArr (map failure_json (gc_failureModes a))) (JArr (map failure_json (gc_failureModes b))) \<and>
     gc_provider a = gc_provider b \<and> gc_requiredScopes a = gc_requiredScopes b \<and>
     gc_attestation a = gc_attestation b"
  unfolding picked_def by (subst canonEqual_obj) (auto simp: canonical_fields_def canon_eqs)

lemma picked_not_undef [simp]: "picked c \<noteq> JUndef"
  by (simp add: picked_def)

lemma computeGlyphId_eq_iff:
  assumes "no_collision C (picked a) (picked b)"
  shows "computeGlyphId C a = computeGlyphId C b \<longleftrightarrow> canonEqual (picked a) (picked b)"
  using assms by (auto simp: computeGlyphId_def no_collision_def canonEqual_def json_stringify_def)

text \<open>The id does not see the fields that are provenance.\<close>

lemma picked_provenance [simp]:
  "picked (c\<lparr>gc_id := i\<rparr>) = picked c" "picked (c\<lparr>gc_createdAt := t\<rparr>) = picked c"
  "picked (c\<lparr>gc_publicKey := p\<rparr>) = picked c" "picked (c\<lparr>gc_signature := s\<rparr>) = picked c"
  by (simp_all add: picked_def canonical_fields_def)

lemma computeGlyphId_provenance [simp]:
  "computeGlyphId C (c\<lparr>gc_id := i\<rparr>) = computeGlyphId C c"
  "computeGlyphId C (c\<lparr>gc_createdAt := t\<rparr>) = computeGlyphId C c"
  "computeGlyphId C (c\<lparr>gc_publicKey := p\<rparr>) = computeGlyphId C c"
  "computeGlyphId C (c\<lparr>gc_signature := s\<rparr>) = computeGlyphId C c"
  by (simp_all add: computeGlyphId_def)

lemma verifyGlyph_iff:
  "verifyGlyph C c \<longleftrightarrow> truthy (gc_signature c) \<and> truthy (gc_publicKey c) \<and> computeGlyphId C c = gc_id c \<and>
     cx_verify C (the (gc_signature c)) (gc_id c) (the (gc_publicKey c)) = Some True"
  by (auto simp: verifyGlyph_def verify_or_false_iff)

text \<open>
  Signing a card whose id is its content hash, with a working key pair, gives a card that
  verifies; this is what a server does when it registers a glyph.
\<close>

theorem signGlyph_verifies:
  assumes "key_pair_ok C pub priv" and "gc_id c = computeGlyphId C c"
  shows "\<exists>sig. signGlyph C c priv = Some sig \<and>
           verifyGlyph C (c\<lparr>gc_publicKey := Some pub, gc_signature := Some sig\<rparr>)"
  using assms by (auto simp: key_pair_ok_def signGlyph_def verifyGlyph_iff)


section \<open>The diff explains every change of the id\<close>

lemma record_change_Nil [simp]: "record_change f a b = [] \<longleftrightarrow> canonEqual a b"
  by (simp add: record_change_def)

lemma breaking_record_change:
  "list_ex (\<lambda>c. ch_severity c = Breaking) (record_change f a b) \<longleftrightarrow>
     \<not> canonEqual a b \<and> field_severity f = Breaking"
  by (simp add: record_change_def)

lemma diff_changes_Nil_iff:
  "diff_changes a n = [] \<longleftrightarrow> canonEqual (picked a) (picked n) \<and> gc_publicKey a = gc_publicKey n"
proof -
  have "gc_cost a = gc_cost n \<longleftrightarrow> co_latency (gc_cost a) = co_latency (gc_cost n) \<and>
      co_sideEffects (gc_cost a) = co_sideEffects (gc_cost n) \<and>
      co_reversible (gc_cost a) = co_reversible (gc_cost n) \<and>
      co_riskTier (gc_cost a) = co_riskTier (gc_cost n) \<and>
      co_requiresConfirmation (gc_cost a) = co_requiresConfirmation (gc_cost n)"
    by (cases "gc_cost a"; cases "gc_cost n") simp
  then show ?thesis
    by (simp add: diff_changes_def canonEqual_picked canon_eqs) blast
qed

text \<open>
  C10. The diff is a complete explainer: short of a hash collision, it reports a change exactly
  when the content-addressed id or the public key differs.
\<close>

theorem diffCards_complete:
  assumes "no_collision C (picked a) (picked n)"
  shows "df_changed (diffCards a n) \<longleftrightarrow>
    computeGlyphId C a \<noteq> computeGlyphId C n \<or> gc_publicKey a \<noteq> gc_publicKey n"
  using computeGlyphId_eq_iff [OF assms] diff_changes_Nil_iff [of a n] by (auto simp: diffCards_def)

lemma requiresApproval_iff:
  "df_requiresApproval (diffCards a n) \<longleftrightarrow>
     gc_version a \<noteq> gc_version n \<or>
     co_sideEffects (gc_cost a) \<noteq> co_sideEffects (gc_cost n) \<or>
     co_reversible (gc_cost a) \<noteq> co_reversible (gc_cost n) \<or>
     co_riskTier (gc_cost a) \<noteq> co_riskTier (gc_cost n) \<or>
     co_requiresConfirmation (gc_cost a) \<noteq> co_requiresConfirmation (gc_cost n) \<or>
     gc_idempotent a \<noteq> gc_idempotent n \<or>
     \<not> canonEqual (gc_input a) (gc_input n) \<or> \<not> canonEqual (gc_output a) (gc_output n) \<or>
     gc_provider a \<noteq> gc_provider n \<or> gc_requiredScopes a \<noteq> gc_requiredScopes n \<or>
     gc_publicKey a \<noteq> gc_publicKey n \<or> gc_attestation a \<noteq> gc_attestation n"
  by (simp add: diffCards_def diff_changes_def breaking_record_change field_severity_def
      FIELD_SEVERITY_def canon_eqs)

text \<open>
  A diff needs human approval exactly when a security-relevant field moved: version, side
  effects, reversibility, risk tier, confirmation, idempotence, a schema, the provider, the
  scopes, the key or the attestation. Name, intent, tags, latency, examples and failure modes
  alone never do.
\<close>

theorem diffCards_requiresApproval_iff:
  "df_requiresApproval (diffCards a n) \<longleftrightarrow>
     gc_version a \<noteq> gc_version n \<or>
     co_sideEffects (gc_cost a) \<noteq> co_sideEffects (gc_cost n) \<or>
     co_reversible (gc_cost a) \<noteq> co_reversible (gc_cost n) \<or>
     co_riskTier (gc_cost a) \<noteq> co_riskTier (gc_cost n) \<or>
     co_requiresConfirmation (gc_cost a) \<noteq> co_requiresConfirmation (gc_cost n) \<or>
     gc_idempotent a \<noteq> gc_idempotent n \<or>
     \<not> canonEqual (gc_input a) (gc_input n) \<or> \<not> canonEqual (gc_output a) (gc_output n) \<or>
     gc_provider a \<noteq> gc_provider n \<or> gc_requiredScopes a \<noteq> gc_requiredScopes n \<or>
     gc_publicKey a \<noteq> gc_publicKey n \<or> gc_attestation a \<noteq> gc_attestation n"
  by (rule requiresApproval_iff)

text \<open>
  The change recorded under \<open>cost.riskTier\<close>, which the promotion policy reads, is there exactly
  when the tier moved and carries the two tiers.
\<close>

lemma find_append: "find P (xs @ ys) = (case find P xs of None \<Rightarrow> find P ys | Some x \<Rightarrow> Some x)"
  by (induction xs) simp_all

lemma find_record_change:
  "find (\<lambda>c. ch_field c = f) (record_change g a b) =
     (if f = g \<and> \<not> canonEqual a b
      then Some \<lparr>ch_field = g, ch_severity = field_severity g, ch_before = a, ch_after = b\<rparr> else None)"
  by (simp add: record_change_def)

lemma diff_risk_change:
  "find (\<lambda>c. ch_field c = js ''cost.riskTier'') (diff_changes a n) =
     (if co_riskTier (gc_cost a) = co_riskTier (gc_cost n) then None
      else Some \<lparr>ch_field = js ''cost.riskTier'', ch_severity = Breaking,
             ch_before = JStr (risk_str (co_riskTier (gc_cost a))),
             ch_after = JStr (risk_str (co_riskTier (gc_cost n)))\<rparr>)"
  by (simp add: diff_changes_def find_append find_record_change canon_eqs field_severity_def FIELD_SEVERITY_def)

section \<open>What a receipt commits to\<close>

lemma sign_hash_verifies:
  assumes "key_pair_ok C pub priv" "v \<noteq> JUndef"
  shows "\<exists>sig. sign_hash C v priv = Some sig \<and> sig \<noteq> [] \<and> verify_hash C v sig pub"
  using assms by (auto simp: key_pair_ok_def sign_hash_def verify_hash_def canonicalHash_Some verify_or_false_iff)

lemma receipt_json_signature [simp]:
  "receipt_json (receipt_base.truncate r) = receipt_json r"
  "receipt_json (r\<lparr>cr_signature := sig\<rparr>) = receipt_json r"
  by (simp_all add: receipt_json_def receipt_base.defs)

text \<open>
  A receipt signed with a working key pair verifies against the public key it embeds.
\<close>

theorem signReceipt_verifies:
  assumes "key_pair_ok C (cr_serverPublicKey r) priv"
  shows "\<exists>sig. signReceipt C (receipt_base.truncate r) priv = Some sig \<and>
           verifyReceipt C (r\<lparr>cr_signature := sig\<rparr>)"
  using sign_hash_verifies [OF assms, of "receipt_json r"] assms
  by (auto simp: signReceipt_def verifyReceipt_def key_pair_ok_def)

text \<open>
  A receipt's signed hash commits to every field: two receipts with the same hash name the
  same card, input, output, inspection report, risk tier, provider, key, latency, time and call
  (short of a hash collision).
\<close>

theorem receipt_hash_commits:
  assumes "canonicalHash C (receipt_json r) = canonicalHash C (receipt_json q)"
    and "no_collision C (receipt_json r) (receipt_json q)"
  shows "cr_glyphId r = cr_glyphId q \<and> cr_glyphName r = cr_glyphName q \<and> cr_callId r = cr_callId q \<and>
    cr_inputHash r = cr_inputHash q \<and> cr_outputHash r = cr_outputHash q \<and>
    cr_inspectionHash r = cr_inspectionHash q \<and> cr_riskTier r = cr_riskTier q \<and>
    cr_provider r = cr_provider q \<and> cr_serverPublicKey r = cr_serverPublicKey q \<and>
    cr_latencyMs r = cr_latencyMs q \<and> cr_timestamp r = cr_timestamp q"
  using hash_eq_canonEqual [OF assms] by (simp add: canonEqual_receipt)

text \<open>A depth-stripped card never carries the fields that would let it be verified or pinned.\<close>

lemma applyDepth_unverifiable:
  "depth \<noteq> Rich \<Longrightarrow> js ''signature'' \<notin> set (map fst (applyDepth c depth)) \<and>
     js ''publicKey'' \<notin> set (map fst (applyDepth c depth))"
  by (cases depth) (simp_all add: applyDepth_def Let_def)

section \<open>Concrete cards\<close>

definition sample_cost :: glyph_cost where
  "sample_cost = \<lparr>co_latency = Fast, co_sideEffects = True, co_reversible = False,
     co_riskTier = Danger, co_requiresConfirmation = True\<rparr>"

definition sample_card :: glyph_card where
  "sample_card = \<lparr>gc_id = [], gc_version = js ''1.0.0'', gc_name = js ''wipe'', gc_intent = js ''wipe a disk'',
     gc_tags = [js ''disk''], gc_cost = sample_cost, gc_idempotent = False,
     gc_input = JObj [(js ''type'', jlit ''object'')], gc_output = JObj [], gc_examples = [],
     gc_failureModes = [], gc_provider = js ''acme'', gc_requiredScopes = None, gc_attestation = None,
     gc_publicKey = None, gc_signature = None, gc_createdAt = js ''2026-01-01''\<rparr>"

definition toy_sign_card :: "jstr \<Rightarrow> glyph_card \<Rightarrow> glyph_card" where
  "toy_sign_card k c = c\<lparr>gc_id := computeGlyphId toy_crypto c, gc_publicKey := Some k,
     gc_signature := Some (k @ computeGlyphId toy_crypto c)\<rparr>"

lemma toy_sign_card_verifies: "k \<noteq> [] \<Longrightarrow> verifyGlyph toy_crypto (toy_sign_card k c)"
  by (simp add: verifyGlyph_iff toy_sign_card_def) (simp add: toy_crypto_def)

definition sample_receipt :: call_receipt where
  "sample_receipt = \<lparr>cr_receiptVersion = RECEIPT_VERSION, cr_callId = js ''s1'', cr_clientCallId = Some (jlit ''c1''),
     cr_glyphId = js ''id'', cr_glyphName = js ''wipe'', cr_inputHash = js ''i'', cr_outputHash = js ''o'',
     cr_inspectionHash = js ''r'', cr_riskTier = Danger, cr_provider = js ''acme'', cr_latencyMs = 3,
     cr_timestamp = js ''t'', cr_serverPublicKey = js ''k'', cr_signature = []\<rparr>"

theorem signGlyph_verifies_witness:
  "\<exists>sig. verifyGlyph toy_crypto (sample_card\<lparr>gc_id := computeGlyphId toy_crypto sample_card,
      gc_publicKey := Some (js ''k''), gc_signature := Some sig\<rparr>)"
  using signGlyph_verifies [OF toy_key_pair [of "js ''k''"],
      of "sample_card\<lparr>gc_id := computeGlyphId toy_crypto sample_card\<rparr>"] by auto


theorem diffCards_complete_witness:
  "df_changed (diffCards sample_card (sample_card\<lparr>gc_publicKey := Some (js ''k'')\<rparr>))"
  using diffCards_complete [OF toy_no_collision, of sample_card "sample_card\<lparr>gc_publicKey := Some (js ''k'')\<rparr>"]
  by (simp add: sample_card_def)

theorem signReceipt_verifies_witness:
  "\<exists>sig. verifyReceipt toy_crypto (sample_receipt\<lparr>cr_signature := sig\<rparr>)"
proof -
  have "key_pair_ok toy_crypto (cr_serverPublicKey sample_receipt) (js ''k'')"
    by (simp add: sample_receipt_def toy_key_pair)
  from signReceipt_verifies [OF this] show ?thesis by blast
qed

theorem receipt_hash_commits_witness:
  "cr_callId (sample_receipt\<lparr>cr_signature := js ''x''\<rparr>) = js ''s1''"
proof -
  have "canonicalHash toy_crypto (receipt_json (sample_receipt\<lparr>cr_signature := js ''x''\<rparr>))
      = canonicalHash toy_crypto (receipt_json sample_receipt)" by simp
  from receipt_hash_commits [OF this toy_no_collision] show ?thesis by (simp add: sample_receipt_def)
qed

theorem diffCards_requiresApproval_iff_witness:
  "\<not> df_requiresApproval (diffCards sample_card (sample_card\<lparr>gc_intent := js ''erase''\<rparr>)) \<and>
   df_requiresApproval (diffCards sample_card (sample_card\<lparr>gc_provider := js ''evil''\<rparr>))"
  using diffCards_requiresApproval_iff [of sample_card "sample_card\<lparr>gc_intent := js ''erase''\<rparr>"]
    diffCards_requiresApproval_iff [of sample_card "sample_card\<lparr>gc_provider := js ''evil''\<rparr>"]
  by (simp add: sample_card_def)

end
