(* ===== verification/Middleware.thy ===== *)
theory Middleware
  imports Stores Cards
begin

text \<open>
  \<open>packages/server/src/middleware.ts\<close>, \<open>policy.ts\<close>, \<open>errors.ts\<close> and \<open>define.ts\<close>: error
  responses, the bearer-token gate, the rate limiter's choice of bucket, the scope check and
  the definition of a glyph.
\<close>

section \<open>Responses\<close>

datatype error_code =
    NOT_FOUND | VALIDATION_FAILED | CONFIRMATION_REQUIRED | INVALID_CONFIRMATION
  | CONFIRMATION_BACKLOG_FULL | OUTPUT_VALIDATION_FAILED | HANDLER_ERROR | HANDLER_TIMEOUT
  | UNAUTHORIZED | INSUFFICIENT_SCOPE | RATE_LIMITED | PROTOCOL_VERSION_UNSUPPORTED
  | MALFORMED_JSON | PAYLOAD_TOO_LARGE | INTERNAL_ERROR

record error_response =
  er_status :: int
  er_code :: error_code
  er_message :: jstr
  er_details :: "jsval option"
  er_retryAfter :: "int option"

text \<open>\<open>details\<close> is left out when it is \<open>undefined\<close>.\<close>

definition errorResponse :: "int \<Rightarrow> error_code \<Rightarrow> jstr \<Rightarrow> jsval \<Rightarrow> error_response" where
  "errorResponse status code message details =
     \<lparr>er_status = status, er_code = code, er_message = message,
      er_details = (if details = JUndef then None else Some details), er_retryAfter = None\<rparr>"

text \<open>\<open>Math.ceil(ms / 1000)\<close>\<close>

definition ceil_seconds :: "int \<Rightarrow> int" where
  "ceil_seconds ms = - ((- ms) div 1000)"

section \<open>Bearer tokens\<close>

definition bearerToken :: "jstr option \<Rightarrow> jstr" where
  "bearerToken authorization =
     (case authorization of
        None \<Rightarrow> []
      | Some header \<Rightarrow> if take 7 header = js ''Bearer '' then drop 7 header else [])"

record auth_config =
  au_tokens :: "jstr list option"
  au_verify :: "(jstr \<Rightarrow> bool) option"

text \<open>Two digests are compared in constant time; the result is equality of the digests.\<close>

definition buildVerify :: "crypto \<Rightarrow> auth_config \<Rightarrow> jstr \<Rightarrow> bool" where
  "buildVerify C config =
     (case au_verify config of
        Some verify \<Rightarrow> verify
      | None \<Rightarrow>
          let storedHashes = map (cx_sha256 C) (case au_tokens config of None \<Rightarrow> [] | Some ts \<Rightarrow> ts)
          in (\<lambda>token. list_ex (\<lambda>h. cx_sha256 C token = h) storedHashes))"

text \<open>A request as the middlewares see it; \<open>rq_remote\<close> is what \<open>getConnInfo\<close> reports, if anything.\<close>

record http_request =
  rq_path :: jstr
  rq_authorization :: "jstr option"
  rq_remote :: "jstr option"

text \<open>\<open>None\<close> is \<open>next()\<close>.\<close>

definition authMiddleware :: "crypto \<Rightarrow> auth_config \<Rightarrow> http_request \<Rightarrow> error_response option" where
  "authMiddleware C config rq =
     (if rq_path rq = js ''/health'' then None
      else let token = bearerToken (rq_authorization rq) in
        if token = [] \<or> \<not> buildVerify C config token
        then Some (errorResponse 401 UNAUTHORIZED (js ''Missing or invalid bearer token'') JUndef)
        else None)"

section \<open>Rate limiting\<close>

record rate_config =
  rc_windowMs :: int
  rc_max :: nat

definition clientKey :: "(jstr \<Rightarrow> bool) option \<Rightarrow> http_request \<Rightarrow> jstr" where
  "clientKey verifyToken rq =
     (let token = bearerToken (rq_authorization rq) in
      if token \<noteq> [] \<and> (case verifyToken of None \<Rightarrow> False | Some v \<Rightarrow> v token)
      then js ''token:'' @ token
      else js ''ip:'' @ (case rq_remote rq of None \<Rightarrow> js ''unknown'' | Some a \<Rightarrow> a))"

definition rateLimitMiddleware ::
  "rate_config \<Rightarrow> (jstr \<Rightarrow> bool) option \<Rightarrow> int \<Rightarrow> http_request \<Rightarrow> rate_hits
    \<Rightarrow> error_response option \<times> rate_hits" where
  "rateLimitMiddleware config verifyToken now rq hits =
     (if rq_path rq = js ''/health'' then (None, hits)
      else (case rate_hit (clientKey verifyToken rq) (rc_windowMs config) now hits of
        (e, hits') \<Rightarrow>
          (if re_count e > rc_max config
           then Some ((errorResponse 429 RATE_LIMITED (js ''Too many requests'') JUndef)
                  \<lparr>er_retryAfter := Some (ceil_seconds (re_resetAt e - now))\<rparr>)
           else None, hits')))"

section \<open>Scopes\<close>

record caller_principal =
  cp_id :: "jstr option"
  cp_scopes :: "jstr list"
  cp_tenant :: "jstr option"

definition missingScopes :: "jstr list option \<Rightarrow> caller_principal option \<Rightarrow> jstr list" where
  "missingScopes required caller =
     (case required of
        None \<Rightarrow> []
      | Some [] \<Rightarrow> []
      | Some rs \<Rightarrow>
          let have_scopes = (case caller of None \<Rightarrow> [] | Some p \<Rightarrow> cp_scopes p)
          in filter (\<lambda>s. s \<notin> set have_scopes) rs)"

section \<open>Defining a glyph\<close>

text \<open>
  A validator (Zod's \<open>safeParse\<close>) gives the issues or the parsed value. A handler returns a
  value or throws; whether it exceeds the timeout is decided by the environment of the call.
\<close>

type_synonym validator = "jsval \<Rightarrow> jsval + jsval"

datatype handler_result = Handler_Returns jsval | Handler_Throws jstr | Handler_Times_Out

record glyph_definition =
  gd_card :: glyph_card
  gd_inputSchema :: validator
  gd_outputSchema :: validator
  gd_handler :: "jsval \<Rightarrow> handler_result"

text \<open>The schemas are given with their JSON Schema, the result of the third-party conversion.\<close>

record glyph_config =
  cf_name :: jstr
  cf_intent :: jstr
  cf_tags :: "jstr list option"
  cf_cost :: glyph_cost
  cf_idempotent :: "bool option"
  cf_input :: "validator \<times> jsval"
  cf_output :: "validator \<times> jsval"
  cf_examples :: "card_example list option"
  cf_failureModes :: "failure_mode list option"
  cf_provider :: jstr
  cf_requiredScopes :: "jstr list option"
  cf_handler :: "jsval \<Rightarrow> handler_result"

definition default_to :: "'a \<Rightarrow> 'a option \<Rightarrow> 'a" where
  "default_to d x = (case x of None \<Rightarrow> d | Some v \<Rightarrow> v)"

definition declared_scopes :: "jstr list option \<Rightarrow> jstr list option" where
  "declared_scopes scopes = (case scopes of Some (s # ss) \<Rightarrow> Some (s # ss) | _ \<Rightarrow> None)"

definition partial_card :: "jstr \<Rightarrow> glyph_config \<Rightarrow> glyph_card" where
  "partial_card now config =
     \<lparr>gc_id = [], gc_version = js ''1.0.0'', gc_name = cf_name config,
      gc_intent = cf_intent config, gc_tags = default_to [] (cf_tags config),
      gc_cost = cf_cost config, gc_idempotent = default_to False (cf_idempotent config),
      gc_input = snd (cf_input config), gc_output = snd (cf_output config),
      gc_examples = default_to [] (cf_examples config),
      gc_failureModes = default_to [] (cf_failureModes config), gc_provider = cf_provider config,
      gc_requiredScopes = declared_scopes (cf_requiredScopes config), gc_attestation = None,
      gc_publicKey = None, gc_signature = None, gc_createdAt = now\<rparr>"

definition defineGlyph :: "crypto \<Rightarrow> jstr \<Rightarrow> glyph_config \<Rightarrow> glyph_definition" where
  "defineGlyph C now config =
     (let partial = partial_card now config in
      \<lparr>gd_card = partial\<lparr>gc_id := computeGlyphId C partial\<rparr>,
       gd_inputSchema = fst (cf_input config), gd_outputSchema = fst (cf_output config),
       gd_handler = cf_handler config\<rparr>)"

section \<open>What the gates guarantee\<close>

lemma defineGlyph_id: "gc_id (gd_card (defineGlyph C now config)) = computeGlyphId C (gd_card (defineGlyph C now config))"
  by (simp add: defineGlyph_def Let_def)

lemma missingScopes_Nil_iff:
  "missingScopes required caller = [] \<longleftrightarrow>
     set (default_to [] required) \<subseteq> (case caller of None \<Rightarrow> {} | Some p \<Rightarrow> set (cp_scopes p))"
  by (auto simp: missingScopes_def default_to_def filter_empty_conv Let_def split: option.splits list.splits)

lemma buildVerify_tokens:
  "au_verify config = None \<Longrightarrow>
     buildVerify C config token \<longleftrightarrow> (\<exists>t\<in>set (default_to [] (au_tokens config)). cx_sha256 C token = cx_sha256 C t)"
  by (auto simp: buildVerify_def default_to_def list_ex_iff Let_def split: option.splits)

text \<open>
  The authentication gate lets a request other than \<open>/health\<close> through exactly when it
  carries a non-empty bearer token whose digest is that of a configured token (or that the
  configured verifier accepts).
\<close>

theorem authMiddleware_passes_iff:
  assumes "rq_path rq \<noteq> js ''/health''"
  shows "authMiddleware C config rq = None \<longleftrightarrow>
    (\<exists>token. token \<noteq> [] \<and> rq_authorization rq = Some (js ''Bearer '' @ token) \<and>
       (case au_verify config of
          Some verify \<Rightarrow> verify token
        | None \<Rightarrow> \<exists>t\<in>set (default_to [] (au_tokens config)). cx_sha256 C token = cx_sha256 C t))"
proof -
  have b: "bearerToken a = token \<and> token \<noteq> [] \<longleftrightarrow> token \<noteq> [] \<and> a = Some (js ''Bearer '' @ token)" for a token
  proof (cases a)
    case (Some h)
    have "take 7 h = js ''Bearer '' \<Longrightarrow> h = js ''Bearer '' @ drop 7 h" by (metis append_take_drop_id)
    moreover have "length (js ''Bearer '') = 7" by (simp add: js_def)
    ultimately show ?thesis using Some by (auto simp: bearerToken_def)
  qed (simp add: bearerToken_def)
  have "authMiddleware C config rq = None \<longleftrightarrow>
      (\<exists>token. bearerToken (rq_authorization rq) = token \<and> token \<noteq> [] \<and> buildVerify C config token)"
    using assms by (simp add: authMiddleware_def Let_def)
  also have "\<dots> \<longleftrightarrow> (\<exists>token. token \<noteq> [] \<and> rq_authorization rq = Some (js ''Bearer '' @ token) \<and> buildVerify C config token)"
    using b by blast
  finally show ?thesis
    by (cases "au_verify config") (simp_all add: buildVerify_tokens, simp add: buildVerify_def)
qed

theorem authMiddleware_passes_iff_witness:
  "authMiddleware toy_crypto \<lparr>au_tokens = Some [js ''s3cret''], au_verify = None\<rparr>
     \<lparr>rq_path = js ''/lexicon'', rq_authorization = Some (js ''Bearer s3cret''), rq_remote = None\<rparr> = None"
  by (subst authMiddleware_passes_iff) (simp_all add: default_to_def js_def)

text \<open>
  An unverified token never buys a bucket of its own: with a verifier, a request whose
  token does not verify is counted under its address, whatever token it sends.
\<close>

theorem clientKey_unverified:
  assumes "\<not> v (bearerToken (rq_authorization rq))"
  shows "clientKey (Some v) rq = clientKey (Some v) (rq\<lparr>rq_authorization := None\<rparr>)"
  using assms by (simp add: clientKey_def Let_def bearerToken_def)

theorem clientKey_unverified_witness:
  "clientKey (Some (\<lambda>t. t = js ''good''))
     \<lparr>rq_path = [], rq_authorization = Some (js ''Bearer fake''), rq_remote = Some (js ''1.2.3.4'')\<rparr>
     = js ''ip:1.2.3.4''"
  using clientKey_unverified [of "\<lambda>t. t = js ''good''"
      "\<lparr>rq_path = [], rq_authorization = Some (js ''Bearer fake''), rq_remote = Some (js ''1.2.3.4'')\<rparr>"]
  by (simp add: bearerToken_def js_def clientKey_def Let_def)

end
