(* ===== verification/Signer.thy ===== *)
theory Signer
  imports Cards
begin

text \<open>
  \<open>packages/core/src/signer.ts\<close>: the signing interface of the server and the single-key
  ed25519 signer. The synchronous and asynchronous variants compute the same signature.
\<close>

record glyph_signer =
  sg_publicKey :: jstr
  sg_signGlyph :: "glyph_card \<Rightarrow> jstr option"
  sg_signManifest :: "manifest_base \<Rightarrow> jstr option"
  sg_signReceipt :: "receipt_base \<Rightarrow> jstr option"

definition ed25519_signer :: "crypto \<Rightarrow> jstr \<times> jstr \<Rightarrow> glyph_signer" where
  "ed25519_signer C keyPair =
     \<lparr>sg_publicKey = fst keyPair,
      sg_signGlyph = (\<lambda>card. signGlyph C card (snd keyPair)),
      sg_signManifest = (\<lambda>m. signManifest C m (snd keyPair)),
      sg_signReceipt = (\<lambda>r. signReceipt C r (snd keyPair))\<rparr>"

text \<open>What every signer owes the server: its signatures verify against its public key.\<close>

definition honest_signer :: "crypto \<Rightarrow> glyph_signer \<Rightarrow> bool" where
  "honest_signer C sg \<longleftrightarrow>
     (\<forall>c. gc_id c = computeGlyphId C c \<longrightarrow> (\<exists>sig. sg_signGlyph sg c = Some sig \<and>
        verifyGlyph C (c\<lparr>gc_publicKey := Some (sg_publicKey sg), gc_signature := Some sig\<rparr>))) \<and>
     (\<forall>m. um_serverPublicKey m = sg_publicKey sg \<longrightarrow> (\<exists>sig. sg_signManifest sg (manifest_base.truncate m) = Some sig \<and>
        verifyManifest C (m\<lparr>um_signature := sig\<rparr>))) \<and>
     (\<forall>r. cr_serverPublicKey r = sg_publicKey sg \<longrightarrow> (\<exists>sig. sg_signReceipt sg (receipt_base.truncate r) = Some sig \<and>
        verifyReceipt C (r\<lparr>cr_signature := sig\<rparr>)))"

locale signer_family =
  fixes C :: crypto
    and make :: "'k \<Rightarrow> glyph_signer"
    and usable :: "'k \<Rightarrow> bool"
  assumes honest: "usable k \<Longrightarrow> honest_signer C (make k)"
begin

lemma card_verifies:
  "usable k \<Longrightarrow> gc_id c = computeGlyphId C c \<Longrightarrow> sg_signGlyph (make k) c = Some sig \<Longrightarrow>
     verifyGlyph C (c\<lparr>gc_publicKey := Some (sg_publicKey (make k)), gc_signature := Some sig\<rparr>)"
  using honest [of k] unfolding honest_signer_def by (metis option.sel)

end

lemma manifest_json_signature [simp]:
  "manifest_json (manifest_base.truncate m) = manifest_json m"
  "manifest_json (m\<lparr>um_signature := sig\<rparr>) = manifest_json m"
  by (simp_all add: manifest_json_def manifest_base.defs)

lemma signed_card_verifies:
  assumes "key_pair_ok C pub priv" "gc_id c = computeGlyphId C c"
  shows "\<exists>sig. signGlyph C c priv = Some sig \<and>
           verifyGlyph C (c\<lparr>gc_publicKey := Some pub, gc_signature := Some sig\<rparr>)"
  using assms by (auto simp: key_pair_ok_def signGlyph_def verifyGlyph_iff)

lemma signed_manifest_verifies:
  assumes "key_pair_ok C pub priv" "um_serverPublicKey m = pub"
  shows "\<exists>sig. signManifest C (manifest_base.truncate m) priv = Some sig \<and> verifyManifest C (m\<lparr>um_signature := sig\<rparr>)"
  using sign_hash_verifies [OF assms(1), of "manifest_json m"] assms
  by (auto simp: signManifest_def verifyManifest_def key_pair_ok_def)

lemma signed_receipt_verifies:
  assumes "key_pair_ok C pub priv" "cr_serverPublicKey r = pub"
  shows "\<exists>sig. signReceipt C (receipt_base.truncate r) priv = Some sig \<and> verifyReceipt C (r\<lparr>cr_signature := sig\<rparr>)"
  using sign_hash_verifies [OF assms(1), of "receipt_json r"] assms
  by (auto simp: signReceipt_def verifyReceipt_def key_pair_ok_def)

interpretation ed25519: signer_family C "ed25519_signer C" "\<lambda>kp. key_pair_ok C (fst kp) (snd kp)" for C
  by unfold_locales
     (simp add: honest_signer_def ed25519_signer_def signed_card_verifies signed_manifest_verifies
        signed_receipt_verifies)

end
