(* ===== verification/Sanitize.thy ===== *)
theory Sanitize
  imports Type_Json "HOL-Library.Product_Lexorder"
begin

text \<open>
  The output sanitiser of \<open>packages/core/src/index.ts\<close>. Strings are UTF-16; the regular
  expressions carry the \<open>u\<close> flag, so they match code points: a surrogate pair is one code
  point, a lone surrogate another. \<open>String.prototype.normalize('NFKC')\<close> rests on the Unicode
  tables and is the parameter \<open>nfkc\<close>.
\<close>

section \<open>Code points of a UTF-16 string\<close>

fun decode :: "jstr \<Rightarrow> nat list" where
  "decode [] = []"
| "decode [u] = [unat u]"
| "decode (u # w # s) =
     (if is_high u \<and> is_low w
      then (65536 + (unat u - 55296) * 1024 + (unat w - 56320)) # decode s
      else unat u # decode (w # s))"

definition encode_point :: "nat \<Rightarrow> jstr" where
  "encode_point cp =
     (if cp < 65536 then [of_nat cp]
      else [of_nat (55296 + (cp - 65536) div 1024), of_nat (56320 + (cp - 65536) mod 1024)])"

definition encode :: "nat list \<Rightarrow> jstr" where
  "encode cps = concat (map encode_point cps)"

section \<open>The sanitiser\<close>

definition STRIP_CLASSES :: "(finding_kind \<times> (nat \<times> nat) list) list" where
  "STRIP_CLASSES =
     [(Unicode_Tags, [(0xe0000, 0xe007f)]),
      (Zero_Width, [(0x200b, 0x200d), (0xfeff, 0xfeff)]),
      (Bidi_Override, [(0x202a, 0x202e), (0x2066, 0x2069)]),
      (Control_Char, [(0x00, 0x08), (0x0b, 0x0c), (0x0e, 0x1f), (0x7f, 0x9f)])]"

text \<open>\<open>buildRegex\<close>: the character class of a list of ranges.\<close>

definition in_ranges :: "(nat \<times> nat) list \<Rightarrow> nat \<Rightarrow> bool" where
  "in_ranges rs cp \<longleftrightarrow> list_ex (\<lambda>(lo, hi). lo \<le> cp \<and> cp \<le> hi) rs"

fun escapeToken :: "jstr \<Rightarrow> jstr" where
  "escapeToken [] = []"
| "escapeToken (u # s) =
     (if u = uc CHR ''~'' then js ''~0'' else if u = uc CHR ''/'' then js ''~1'' else [u]) @ escapeToken s"

definition strip_step ::
  "jstr \<Rightarrow> finding_kind \<times> (nat \<times> nat) list \<Rightarrow> jstr \<times> sanitization_finding list
    \<Rightarrow> jstr \<times> sanitization_finding list" where
  "strip_step path cls acc =
     (case cls of (kind, rs) \<Rightarrow> case acc of (s, findings) \<Rightarrow>
        let matches = filter (in_ranges rs) (decode s) in
        if matches \<noteq> [] then
          (encode (filter (\<lambda>cp. \<not> in_ranges rs cp) (decode s)),
           findings @ [\<lparr>sf_path = path, sf_kind = kind, sf_count = length matches\<rparr>])
        else (s, findings))"

definition strip_all :: "jstr \<Rightarrow> jstr \<Rightarrow> jstr \<times> sanitization_finding list" where
  "strip_all path s = fold (strip_step path) STRIP_CLASSES (s, [])"

definition sanitizeString :: "(jstr \<Rightarrow> jstr) \<Rightarrow> jstr \<Rightarrow> jstr \<Rightarrow> jstr \<times> sanitization_finding list" where
  "sanitizeString nfkc input path =
     (case strip_all path input of (s, findings) \<Rightarrow>
        let normalized = nfkc s in
        if normalized \<noteq> s then
          let count = length (filter (\<lambda>cp. nfkc (encode_point cp) \<noteq> encode_point cp) (decode s))
          in (normalized,
              findings @ [\<lparr>sf_path = path, sf_kind = Nfkc_Normalized,
                           sf_count = (if count = 0 then 1 else count)\<rparr>])
        else (s, findings))"

function (sequential) sanitizeValue :: "(jstr \<Rightarrow> jstr) \<Rightarrow> jsval \<Rightarrow> jstr \<Rightarrow> jsval \<times> sanitization_finding list" where
  "sanitizeValue nfkc (JStr s) path = (case sanitizeString nfkc s path of (t, fs) \<Rightarrow> (JStr t, fs))"
| "sanitizeValue nfkc (JArr vs) path =
     (let rs = map (\<lambda>(i, v). sanitizeValue nfkc v (path @ js ''/'' @ nat_dec i)) (zip [0..<length vs] vs)
      in (JArr (map fst rs), concat (map snd rs)))"
| "sanitizeValue nfkc (JObj kvs) path =
     (let rs = map (\<lambda>(k, v). (k, sanitizeValue nfkc v (path @ js ''/'' @ escapeToken k))) kvs
      in (JObj (js_assign_all (map (\<lambda>(k, r). (k, fst r)) rs) []), concat (map (\<lambda>(k, r). snd r) rs)))"
| "sanitizeValue nfkc v path = (v, [])"
  by pat_completeness auto
termination
proof (relation "measure (\<lambda>(nfkc, v, path). size v)")
  fix nfkc :: "jstr \<Rightarrow> jstr" and vs :: "jsval list" and path x i v
  assume "x \<in> set (zip [0..<length vs] vs)" "(i, v) = x"
  then have "v \<in> set vs" by (metis set_zip_rightD)
  then have "size v \<le> size_list size vs" by (rule size_list_estimation') simp
  then show "((nfkc, v, path @ js ''/'' @ nat_dec i), nfkc, JArr vs, path)
      \<in> measure (\<lambda>(nfkc, v, path). size v)" by simp
next
  fix nfkc :: "jstr \<Rightarrow> jstr" and kvs :: "(jstr \<times> jsval) list" and path x k v
  assume "x \<in> set kvs" "(k :: jstr, v) = x"
  then have "size v \<le> size_list (size_prod (\<lambda>_. 0) size) kvs" by (intro size_list_estimation' [of x]) auto
  then show "((nfkc, v, path @ js ''/'' @ escapeToken k), nfkc, JObj kvs, path)
      \<in> measure (\<lambda>(nfkc, v, path). size v)" by simp
qed simp

definition finding_key :: "sanitization_finding \<Rightarrow> jstr \<times> jstr" where
  "finding_key f = (sf_path f, kind_str (sf_kind f))"

definition sanitize :: "(jstr \<Rightarrow> jstr) \<Rightarrow> jsval \<Rightarrow> jsval \<times> sanitization" where
  "sanitize nfkc v =
     (case sanitizeValue nfkc v [] of (cleaned, findings) \<Rightarrow>
        (cleaned, \<lparr>sn_modified = findings \<noteq> [], sn_findings = sort_key finding_key findings\<rparr>))"

section \<open>Well-formed UTF-16\<close>

definition scalar :: "nat \<Rightarrow> bool" where
  "scalar cp \<longleftrightarrow> cp < 1114112 \<and> \<not> (55296 \<le> cp \<and> cp \<le> 57343)"

definition wf16 :: "jstr \<Rightarrow> bool" where
  "wf16 s \<longleftrightarrow> list_all scalar (decode s)"

lemma decode_not_high: "\<not> is_high u \<Longrightarrow> decode (u # s) = unat u # decode s"
  by (cases s) auto

lemma unat16: "n < 65536 \<Longrightarrow> unat (of_nat n :: 16 word) = n"
  by (simp add: unat_of_nat take_bit_eq_mod)

lemma decode_encode_point: "scalar cp \<Longrightarrow> decode (encode_point cp @ s) = cp # decode s"
proof (cases "cp < 65536")
  case True
  assume "scalar cp"
  with True have "\<not> is_high (of_nat cp)" by (auto simp: scalar_def is_high_def unat16)
  with True show ?thesis by (simp add: encode_point_def decode_not_high unat16)
next
  case False
  assume "scalar cp"
  define n where "n = cp - 65536"
  have n: "n < 1048576" "cp = 65536 + n" using \<open>scalar cp\<close> False by (auto simp: n_def scalar_def)
  have d: "n div 1024 < 1024" using n(1) by (intro less_mult_imp_div_less) simp
  have m: "n mod 1024 < 1024" by simp
  have b: "55296 + n div 1024 < 65536" "56320 + n mod 1024 < 65536" using d m by linarith+
  have "is_high (of_nat (55296 + n div 1024))" "is_low (of_nat (56320 + n mod 1024))"
    using b d m by (simp_all add: is_high_def is_low_def unat16 del: of_nat_add)
  with b n show ?thesis
    by (simp add: encode_point_def unat16 div_mult_mod_eq del: of_nat_add)
qed

lemma decode_encode: "list_all scalar cps \<Longrightarrow> decode (encode cps) = cps"
proof (induction cps)
  case (Cons cp cps)
  then show ?case by (simp add: encode_def decode_encode_point)
qed (simp add: encode_def)

section \<open>Stripping\<close>

definition dirty :: "nat \<Rightarrow> bool" where
  "dirty cp \<longleftrightarrow> list_ex (\<lambda>(kind, rs). in_ranges rs cp) STRIP_CLASSES"

definition clean :: "jstr \<Rightarrow> bool" where
  "clean s \<longleftrightarrow> list_all (\<lambda>cp. \<not> dirty cp) (decode s)"

lemma list_all_filter: "list_all P xs \<Longrightarrow> list_all P (filter Q xs)"
  by (simp add: list_all_iff)

lemma strip_step_decode:
  assumes "wf16 s"
  shows "decode (fst (strip_step path (k, rs) (s, fs))) = filter (\<lambda>cp. \<not> in_ranges rs cp) (decode s)"
proof (cases "filter (in_ranges rs) (decode s) = []")
  case True
  then have "filter (\<lambda>cp. \<not> in_ranges rs cp) (decode s) = decode s"
    by (simp add: filter_empty_conv filter_id_conv)
  with True show ?thesis by (simp add: strip_step_def)
next
  case False
  with assms show ?thesis
    by (simp add: strip_step_def Let_def wf16_def decode_encode list_all_filter)
qed

lemma strip_step_wf16: "wf16 s \<Longrightarrow> wf16 (fst (strip_step path (k, rs) (s, fs)))"
  by (simp only: wf16_def strip_step_decode [unfolded wf16_def] list_all_filter)

lemma strip_fold_decode:
  assumes "wf16 (fst a)"
  shows "decode (fst (fold (strip_step path) cls a)) =
      filter (\<lambda>cp. \<not> list_ex (\<lambda>(k, rs). in_ranges rs cp) cls) (decode (fst a)) \<and>
    wf16 (fst (fold (strip_step path) cls a))"
  using assms
proof (induction cls arbitrary: a)
  case (Cons c cls)
  obtain k rs s fs where ca: "c = (k, rs)" "a = (s, fs)" by (cases c; cases a)
  have "wf16 (fst (strip_step path c a))" using Cons.prems ca strip_step_wf16 by simp
  from Cons.IH [OF this] show ?case
    using strip_step_decode [of s path k rs fs] Cons.prems ca by (simp add: conj_commute)
qed simp

lemma strip_all_decode:
  "wf16 s \<Longrightarrow> decode (fst (strip_all path s)) = filter (\<lambda>cp. \<not> dirty cp) (decode s)"
  using strip_fold_decode [of "(s, [])"] by (simp add: strip_all_def dirty_def)

lemma strip_all_wf16: "wf16 s \<Longrightarrow> wf16 (fst (strip_all path s))"
  using strip_fold_decode [of "(s, [])"] by (simp add: strip_all_def)

lemma strip_all_clean: "wf16 s \<Longrightarrow> clean (fst (strip_all path s))"
  by (simp add: clean_def strip_all_decode list_all_iff)

lemma strip_step_findings:
  "strip_step path (k, rs) (s, fs) =
     (if \<exists>cp\<in>set (decode s). in_ranges rs cp
      then (encode (filter (\<lambda>cp. \<not> in_ranges rs cp) (decode s)),
            fs @ [\<lparr>sf_path = path, sf_kind = k, sf_count = length (filter (in_ranges rs) (decode s))\<rparr>])
      else (s, fs))"
  by (auto simp: strip_step_def Let_def filter_empty_conv)

lemma fold_strip_id:
  "\<forall>cp\<in>set (decode s). \<not> list_ex (\<lambda>(k, rs). in_ranges rs cp) cls \<Longrightarrow>
     fold (strip_step path) cls (s, fs) = (s, fs)"
  by (induction cls) (auto simp: strip_step_findings)

lemma fold_strip_grows: "snd a \<noteq> [] \<Longrightarrow> snd (fold (strip_step path) cls a) \<noteq> []"
proof (induction cls arbitrary: a)
  case (Cons c cls)
  have "snd (strip_step path c a) \<noteq> []"
    using Cons.prems by (cases c; cases a) (simp add: strip_step_findings)
  then show ?case by (simp add: Cons.IH)
qed simp

lemma fold_strip_no_findings:
  "snd (fold (strip_step path) cls (s, [])) = [] \<Longrightarrow>
     \<forall>cp\<in>set (decode s). \<not> list_ex (\<lambda>(k, rs). in_ranges rs cp) cls"
proof (induction cls)
  case (Cons c cls)
  obtain k rs where c: "c = (k, rs)" by (cases c)
  have "\<not> (\<exists>cp\<in>set (decode s). in_ranges rs cp)"
  proof
    assume "\<exists>cp\<in>set (decode s). in_ranges rs cp"
    then have "snd (strip_step path c (s, [])) \<noteq> []" by (simp add: c strip_step_findings)
    then show False using Cons.prems fold_strip_grows by (metis fold_simps(2))
  qed
  then show ?case using Cons by (simp add: c strip_step_findings)
qed simp

lemma strip_all_no_findings_iff: "snd (strip_all path s) = [] \<longleftrightarrow> clean s"
  using fold_strip_no_findings [of path STRIP_CLASSES s] fold_strip_id [of s STRIP_CLASSES path "[]"]
  by (auto simp: strip_all_def clean_def dirty_def list_all_iff)

lemma strip_all_clean_id: "clean s \<Longrightarrow> strip_all path s = (s, [])"
  by (simp add: strip_all_def clean_def dirty_def list_all_iff fold_strip_id)

section \<open>Strings and values\<close>

text \<open>
  What the sanitiser relies on in NFKC (Unicode normalisation): it is idempotent, keeps UTF-16
  well formed, and never produces one of the stripped characters from text without them.
\<close>

definition nfkc_ok :: "(jstr \<Rightarrow> jstr) \<Rightarrow> bool" where
  "nfkc_ok nfkc \<longleftrightarrow> (\<forall>s. nfkc (nfkc s) = nfkc s \<and> (wf16 s \<longrightarrow> wf16 (nfkc s)) \<and>
     (clean s \<longrightarrow> clean (nfkc s)))"

definition inert :: "(jstr \<Rightarrow> jstr) \<Rightarrow> jstr \<Rightarrow> bool" where
  "inert nfkc s \<longleftrightarrow> clean s \<and> nfkc s = s"

lemma nfkc_okD:
  assumes "nfkc_ok nfkc"
  shows "nfkc (nfkc s) = nfkc s" and "wf16 s \<Longrightarrow> wf16 (nfkc s)" and "clean s \<Longrightarrow> clean (nfkc s)"
  using assms by (simp_all add: nfkc_ok_def)

lemma fst_sanitizeString: "fst (sanitizeString nfkc s path) = nfkc (fst (strip_all path s))"
  by (cases "strip_all path s") (simp add: sanitizeString_def Let_def)

lemma sanitizeString_inert: "nfkc_ok nfkc \<Longrightarrow> wf16 s \<Longrightarrow> inert nfkc (fst (sanitizeString nfkc s path))"
  by (simp add: fst_sanitizeString inert_def nfkc_okD strip_all_clean)

lemma sanitizeString_report: "snd (sanitizeString nfkc s path) = [] \<longleftrightarrow> inert nfkc s"
proof (cases "clean s")
  case True
  then show ?thesis by (simp add: sanitizeString_def strip_all_clean_id inert_def Let_def)
next
  case False
  then have "snd (strip_all path s) \<noteq> []" by (simp add: strip_all_no_findings_iff)
  with False show ?thesis
    by (cases "strip_all path s") (simp add: sanitizeString_def inert_def Let_def)
qed

lemma sanitizeString_id: "inert nfkc s \<Longrightarrow> sanitizeString nfkc s path = (s, [])"
  by (simp add: sanitizeString_def strip_all_clean_id inert_def)

text \<open>All string values of a value (the keys of objects are not string values).\<close>

fun js_strings :: "(jstr \<Rightarrow> bool) \<Rightarrow> jsval \<Rightarrow> bool" where
  "js_strings P (JStr s) = P s"
| "js_strings P (JArr vs) = list_all (js_strings P) vs"
| "js_strings P (JObj kvs) = list_all (\<lambda>(k, v). js_strings P v) kvs"
| "js_strings P v = True"

text \<open>An object as it stands after its properties were assigned one by one.\<close>

fun js_assigned :: "jsval \<Rightarrow> bool" where
  "js_assigned (JArr vs) = list_all js_assigned vs"
| "js_assigned (JObj kvs) = (js_assign_all kvs [] = kvs \<and> list_all (\<lambda>(k, v). js_assigned v) kvs)"
| "js_assigned v = True"

lemma set_js_assign: "set (js_assign k v acc) \<subseteq> insert (k, v) (set acc)"
proof -
  have "set (omap_set k v acc) \<subseteq> insert (k, v) (set acc)"
    by (induction k v acc rule: omap_set.induct) auto
  moreover have "set (put_index k v acc) = insert (k, v) (set acc)"
    using mset_put_index [of k v acc] by (metis set_mset_add_mset_insert set_mset_mset)
  ultimately show ?thesis by (auto simp: js_assign_def)
qed

lemma set_js_assign_all: "set (js_assign_all kvs acc) \<subseteq> set kvs \<union> set acc"
proof (induction kvs arbitrary: acc)
  case (Cons p kvs)
  obtain k v where p: "p = (k, v)" by (cases p)
  have "set (js_assign_all (p # kvs) acc) \<subseteq> set kvs \<union> set (js_assign k v acc)"
    using Cons.IH [of "js_assign k v acc"] by (simp add: js_assign_all_def p)
  then show ?case using set_js_assign [of k v acc] p by auto
qed (simp add: js_assign_all_def)

lemma nth_in_indexed: "i < length xs \<Longrightarrow> (i, xs ! i) \<in> set (zip [0..<length xs] xs)"
  by (auto simp: in_set_zip intro!: exI [of _ i])

lemma map_indexed: "map f (zip [0..<length xs] xs) = map (\<lambda>i. f (i, xs ! i)) [0..<length xs]"
  by (rule nth_equalityI) simp_all

lemma sanitizeValue_inert:
  "nfkc_ok nfkc \<Longrightarrow> js_strings wf16 v \<Longrightarrow> js_strings (inert nfkc) (fst (sanitizeValue nfkc v path))"
proof (induction nfkc v path rule: sanitizeValue.induct)
  case (1 nfkc s path)
  then show ?case
    using sanitizeString_inert [of nfkc s path] by (cases "sanitizeString nfkc s path") simp
next
  case (2 nfkc vs path)
  have "js_strings (inert nfkc) (fst (sanitizeValue nfkc v (path @ js ''/'' @ nat_dec i)))"
    if "(i, v) \<in> set (zip [0..<length vs] vs)" for i v
    using "2.IH" [OF that refl] "2.prems" set_zip_rightD [OF that] by (simp add: list_all_iff)
  then show ?case by (auto simp: Let_def list_all_iff)
next
  case (3 nfkc kvs path)
  let ?rs = "map (\<lambda>x. (fst x, fst (sanitizeValue nfkc (snd x) (path @ js ''/'' @ escapeToken (fst x))))) kvs"
  have "js_strings (inert nfkc) (snd q)" if "q \<in> set ?rs" for q
    using 3 that by (auto simp: list_all_iff)
  moreover have "set (js_assign_all ?rs []) \<subseteq> set ?rs"
    using set_js_assign_all [of ?rs "[]"] by (simp only: list.set Un_empty_right)
  ultimately have "js_strings (inert nfkc) (snd q)" if "q \<in> set (js_assign_all ?rs [])" for q
    using that by (meson subsetD)
  then show ?case by (simp add: Let_def list_all_iff comp_def case_prod_beta)
qed simp_all

lemma sanitizeValue_report:
  "snd (sanitizeValue nfkc v path) = [] \<longleftrightarrow> js_strings (inert nfkc) v"
proof (induction nfkc v path rule: sanitizeValue.induct)
  case (1 nfkc s path)
  show ?case
    using sanitizeString_report [of nfkc s path] by (cases "sanitizeString nfkc s path") simp
next
  case (2 nfkc vs path)
  have "snd (sanitizeValue nfkc (vs ! i) (path @ js ''/'' @ nat_dec i)) = [] \<longleftrightarrow> js_strings (inert nfkc) (vs ! i)"
    if "i < length vs" for i
    using 2 [OF nth_in_indexed [OF that] refl] .
  then show ?case by (auto simp: Let_def list_all_length map_indexed)
next
  case (3 nfkc kvs path)
  then show ?case by (auto simp: Let_def list_all_iff comp_def)
qed simp_all

lemma sanitizeValue_id:
  "js_strings (inert nfkc) v \<Longrightarrow> js_assigned v \<Longrightarrow> sanitizeValue nfkc v path = (v, [])"
proof (induction nfkc v path rule: sanitizeValue.induct)
  case (1 nfkc s path)
  then show ?case by (simp add: sanitizeString_id)
next
  case (2 nfkc vs path)
  have "sanitizeValue nfkc (vs ! i) (path @ js ''/'' @ nat_dec i) = (vs ! i, [])" if "i < length vs" for i
    using "2.IH" [OF nth_in_indexed [OF that] refl] "2.prems" that by (simp add: list_all_length)
  then have m: "map (\<lambda>(i, v). sanitizeValue nfkc v (path @ js ''/'' @ nat_dec i)) (zip [0..<length vs] vs)
      = map (\<lambda>v. (v, [])) vs"
    by (intro nth_equalityI) simp_all
  show ?case unfolding sanitizeValue.simps m by (simp add: Let_def comp_def)
next
  case (3 nfkc kvs path)
  have "sanitizeValue nfkc v (path @ js ''/'' @ escapeToken k) = (v, [])" if "(k, v) \<in> set kvs" for k v
    using "3.IH" [OF that refl] "3.prems" that by (auto simp: list_all_iff)
  then have m: "map (\<lambda>(k, v). (k, sanitizeValue nfkc v (path @ js ''/'' @ escapeToken k))) kvs
      = map (\<lambda>(k, v). (k, v, [])) kvs"
    by (intro map_cong) auto
  show ?case using 3(3) unfolding sanitizeValue.simps m by (simp add: Let_def comp_def case_prod_beta)
qed simp_all

section \<open>What a sanitised value promises\<close>

lemma sanitize_simps:
  "fst (sanitize nfkc v) = fst (sanitizeValue nfkc v [])"
  "sn_modified (snd (sanitize nfkc v)) \<longleftrightarrow> snd (sanitizeValue nfkc v []) \<noteq> []"
  "sn_findings (snd (sanitize nfkc v)) = sort_key finding_key (snd (sanitizeValue nfkc v []))"
  by (simp_all add: sanitize_def case_prod_beta)

definition sample_dirty :: jsval where
  "sample_dirty = JObj [(js ''note'', JArr [JStr [0x41, 0x200b, 0x42], JStr [0xdb40, 0xdc41], jlit ''ok''])]"

lemmas sample_sanitize_defs =
  sample_dirty_def js_def uc_def sanitize_simps strip_all_def strip_step_def STRIP_CLASSES_def in_ranges_def
  sanitizeString_def is_high_def is_low_def encode_def encode_point_def Let_def js_assign_all_def
  js_assign_def

lemma sample_dirty_wf: "js_strings wf16 sample_dirty"
  by (simp add: sample_dirty_def wf16_def scalar_def js_def uc_def is_high_def is_low_def)

lemma nfkc_ok_id: "nfkc_ok id"
  by (simp add: nfkc_ok_def)

text \<open>
  C15. Sanitising a value whose strings are well-formed UTF-16 leaves no tag, zero-width, bidi or
  control character in any string value at any depth, every string is in normal form, and a
  second pass reports no modification.
\<close>

theorem sanitize_removes_all:
  assumes "nfkc_ok nfkc" and "js_strings wf16 v"
  shows "js_strings (inert nfkc) (fst (sanitize nfkc v)) \<and>
    \<not> sn_modified (snd (sanitize nfkc (fst (sanitize nfkc v))))"
  using sanitizeValue_inert [OF assms] by (simp add: sanitize_simps sanitizeValue_report)

theorem sanitize_removes_all_witness:
  "js_strings (inert id) (fst (sanitize id sample_dirty)) \<and>
    \<not> sn_modified (snd (sanitize id (fst (sanitize id sample_dirty))))"
  using sanitize_removes_all [OF nfkc_ok_id sample_dirty_wf] .

text \<open>
  \<open>modified\<close> is honest: it is false exactly when every string value was already clean and
  normalised, the findings are then empty, and a value built by ordinary assignments comes back
  unchanged.
\<close>

theorem sanitize_unmodified:
  assumes "js_assigned v"
  shows "(\<not> sn_modified (snd (sanitize nfkc v)) \<longleftrightarrow> js_strings (inert nfkc) v) \<and>
    (\<not> sn_modified (snd (sanitize nfkc v)) \<longrightarrow>
      fst (sanitize nfkc v) = v \<and> sn_findings (snd (sanitize nfkc v)) = [])"
  using assms by (simp_all add: sanitize_simps sanitizeValue_report sanitizeValue_id)

definition sample_clean :: jsval where
  "sample_clean = JObj [(js ''a'', JArr [jlit ''ok'', JNum 3]), (js ''b'', JNull)]"

theorem sanitize_unmodified_witness:
  "js_strings (inert id) sample_clean \<and> fst (sanitize id sample_clean) = sample_clean"
proof -
  have a: "js_assigned sample_clean"
    by (simp add: sample_clean_def js_assign_all_def js_assign_def is_array_index_def is_digit_unit_def js_def uc_def)
  have b: "js_strings (inert id) sample_clean"
    by (simp add: sample_clean_def inert_def clean_def dirty_def STRIP_CLASSES_def in_ranges_def
        decode_not_high is_high_def js_def uc_def)
  show ?thesis using sanitize_unmodified [OF a, of id] b by blast
qed

text \<open>
  The stripping works on code points, so a zero-width space between two lone surrogates is
  removed and the surrogates then join: the sanitised string holds the tag character U+E0041,
  and a second pass changes it again.
\<close>

theorem sanitize_lone_surrogates:
  "fst (sanitize id (JStr [0xdb40, 0x200b, 0xdc41])) = JStr [0xdb40, 0xdc41] \<and>
   decode [0xdb40, 0xdc41] = [0xe0041] \<and>
   fst (sanitize id (JStr [0xdb40, 0xdc41])) = JStr []"
  by (simp add: sample_sanitize_defs)

text \<open>
  Object keys are copied as they are: a key with a zero-width space survives and nothing is
  reported; an own \<open>__proto__\<close> property disappears, also without a finding.
\<close>

theorem sanitize_ignores_keys:
  "sanitize nfkc (JObj [([0x61, 0x200b], JNull), (js ''__proto__'', JBool True)]) =
     (JObj [([0x61, 0x200b], JNull)], \<lparr>sn_modified = False, sn_findings = []\<rparr>)"
  by (simp add: sanitize_def Let_def js_assign_all_def js_assign_def is_array_index_def is_digit_unit_def js_def uc_def)

end
