(* ===== verification/Json_Parse.thy ===== *)
theory Json_Parse
  imports Canonical
begin

text \<open>
  \<open>JSON.parse\<close>, as the attestation verifiers and the stores use it: the grammar of RFC 8259
  over UTF-16 units, the last of several equal keys winning, own \<open>__proto__\<close> keys kept.
  Numbers with a fraction or an exponent lie outside the modelled values and are not read.
\<close>

section \<open>Tokens\<close>

definition is_ws :: "16 word \<Rightarrow> bool" where
  "is_ws u \<longleftrightarrow> u = 32 \<or> u = 9 \<or> u = 10 \<or> u = 13"

abbreviation skip_ws :: "jstr \<Rightarrow> jstr" where
  "skip_ws s \<equiv> dropWhile is_ws s"

definition is_hex_unit :: "16 word \<Rightarrow> bool" where
  "is_hex_unit u \<longleftrightarrow> (let n = unat u in (48 \<le> n \<and> n \<le> 57) \<or> (65 \<le> n \<and> n \<le> 70) \<or> (97 \<le> n \<and> n \<le> 102))"

definition hex_digit :: "16 word \<Rightarrow> nat" where
  "hex_digit u = (let n = unat u in if n \<le> 57 then n - 48 else if n \<le> 70 then n - 55 else n - 87)"

definition hex_unit4 :: "16 word \<Rightarrow> 16 word \<Rightarrow> 16 word \<Rightarrow> 16 word \<Rightarrow> 16 word option" where
  "hex_unit4 a b c d =
     (if list_all is_hex_unit [a, b, c, d]
      then Some (of_nat (hex_digit a * 4096 + hex_digit b * 256 + hex_digit c * 16 + hex_digit d)) else None)"

definition simple_escape :: "16 word \<Rightarrow> 16 word option" where
  "simple_escape c =
     map_of [(34, 34), (92, 92), (47, 47), (98, 8), (102, 12), (110, 10), (114, 13), (116, 9)] c"

fun parse_string :: "jstr \<Rightarrow> (jstr \<times> jstr) option" where
  "parse_string [] = None"
| "parse_string (u # rest) =
     (if u = 34 then Some ([], rest)
      else if unat u < 32 then None
      else if u = 92 then
        (case rest of
           [] \<Rightarrow> None
         | c # rest1 \<Rightarrow>
             if c = 117 then
               (case rest1 of
                  a # b # c' # d # rest2 \<Rightarrow>
                    (case hex_unit4 a b c' d of None \<Rightarrow> None | Some w \<Rightarrow> cons_read w (parse_string rest2))
                | _ \<Rightarrow> None)
             else (case simple_escape c of None \<Rightarrow> None | Some w \<Rightarrow> cons_read w (parse_string rest1)))
      else cons_read u (parse_string rest))"

definition parse_nat :: "jstr \<Rightarrow> (nat \<times> jstr) option" where
  "parse_nat s =
     (let ds = takeWhile is_digit_unit s; r = dropWhile is_digit_unit s in
      if ds = [] \<or> (hd ds = 48 \<and> length ds > 1) then None
      else (case r of u # _ \<Rightarrow> if u \<in> {46, 69, 101} then None else Some (digits_value ds, r)
                    | [] \<Rightarrow> Some (digits_value ds, r)))"

fun strip_prefix :: "jstr \<Rightarrow> jstr \<Rightarrow> jstr option" where
  "strip_prefix [] s = Some s"
| "strip_prefix (p # ps) [] = None"
| "strip_prefix (p # ps) (u # s) = (if p = u then strip_prefix ps s else None)"

lemma strip_prefix_Some: "strip_prefix p s = Some r \<longleftrightarrow> s = p @ r"
  by (induction p s rule: strip_prefix.induct) auto

definition parse_number :: "jstr \<Rightarrow> (jsval \<times> jstr) option" where
  "parse_number s =
     (case strip_prefix (js ''-'') s of
        Some r \<Rightarrow> map_option (\<lambda>(n, r'). (JNum (- int n), r')) (parse_nat r)
      | None \<Rightarrow> map_option (\<lambda>(n, r'). (JNum (int n), r')) (parse_nat s))"

definition or_else :: "'a option \<Rightarrow> 'a option \<Rightarrow> 'a option" where
  "or_else a b = (case a of Some x \<Rightarrow> Some x | None \<Rightarrow> b)"

definition parse_atom :: "jstr \<Rightarrow> (jsval \<times> jstr) option" where
  "parse_atom s =
     or_else (map_option (Pair (JBool True)) (strip_prefix (js ''true'') s))
    (or_else (map_option (Pair (JBool False)) (strip_prefix (js ''false'') s))
    (or_else (map_option (Pair JNull) (strip_prefix (js ''null'') s))
       (parse_number s)))"

section \<open>Values\<close>

text \<open>\<open>CreateDataProperty\<close>: as assignment, but a key \<open>__proto__\<close> becomes an own property.\<close>

definition js_define :: "jstr \<Rightarrow> jsval \<Rightarrow> (jstr \<times> jsval) list \<Rightarrow> (jstr \<times> jsval) list" where
  "js_define k v kvs =
     (if k \<in> set (map fst kvs) then omap_set k v kvs
      else if is_array_index k then put_index k v kvs
      else kvs @ [(k, v)])"

definition expect :: "16 word \<Rightarrow> jstr \<Rightarrow> jstr option" where
  "expect u s = (case skip_ws s of w # r \<Rightarrow> if w = u then Some r else None | [] \<Rightarrow> None)"

text \<open>Every level of the recursion reads at least one unit on every second call.\<close>

fun parse_value :: "nat \<Rightarrow> jstr \<Rightarrow> (jsval \<times> jstr) option"
  and parse_elems :: "nat \<Rightarrow> jstr \<Rightarrow> (jsval list \<times> jstr) option"
  and parse_members :: "nat \<Rightarrow> jstr \<Rightarrow> ((jstr \<times> jsval) list \<times> jstr) option"
where
  "parse_value 0 s = None"
| "parse_value (Suc n) s =
     (case skip_ws s of
        [] \<Rightarrow> None
      | u # r \<Rightarrow>
          if u = 34 then map_option (\<lambda>(t, r'). (JStr t, r')) (parse_string r)
          else if u = 91 then
            (case expect 93 r of
               Some r' \<Rightarrow> Some (JArr [], r')
             | None \<Rightarrow> map_option (\<lambda>(vs, r'). (JArr vs, r')) (parse_elems n r))
          else if u = 123 then
            (case expect 125 r of
               Some r' \<Rightarrow> Some (JObj [], r')
             | None \<Rightarrow> map_option (\<lambda>(kvs, r'). (JObj (foldl (\<lambda>o' (k, v). js_define k v o') [] kvs), r'))
                 (parse_members n r))
          else parse_atom (u # r))"
| "parse_elems 0 s = None"
| "parse_elems (Suc n) s =
     Option.bind (parse_value n s) (\<lambda>(v, r).
       case expect 44 r of
         Some r' \<Rightarrow> map_option (\<lambda>(vs, r''). (v # vs, r'')) (parse_elems n r')
       | None \<Rightarrow> map_option (Pair [v]) (expect 93 r))"
| "parse_members 0 s = None"
| "parse_members (Suc n) s =
     Option.bind (Option.bind (expect 34 s) parse_string) (\<lambda>(k, r1).
     Option.bind (Option.bind (expect 58 r1) (parse_value n)) (\<lambda>(v, r3).
       case expect 44 r3 of
         Some r4 \<Rightarrow> map_option (\<lambda>(kvs, r''). ((k, v) # kvs, r'')) (parse_members n r4)
       | None \<Rightarrow> map_option (Pair [(k, v)]) (expect 125 r3)))"

text \<open>\<open>None\<close> is the \<open>SyntaxError\<close>.\<close>

definition json_parse :: "jstr \<Rightarrow> jsval option" where
  "json_parse s =
     (case parse_value (2 * length s + 2) s of
        Some (v, r) \<Rightarrow> if skip_ws r = [] then Some v else None
      | None \<Rightarrow> None)"

lemmas json_parse_defs = json_parse_def parse_atom_def or_else_def parse_number_def parse_nat_def expect_def is_ws_def simple_escape_def
  is_digit_unit_def digits_value_def js_define_def cons_read_def js_def uc_def

text \<open>The equations that let \<open>simp\<close> run the reader on a literal text.\<close>

lemmas parse_numeral =
  parse_value.simps(2) [of "pred_numeral k", folded numeral_eq_Suc]
  parse_elems.simps(2) [of "pred_numeral k", folded numeral_eq_Suc]
  parse_members.simps(2) [of "pred_numeral k", folded numeral_eq_Suc] for k

lemmas json_parse_eval = json_parse_defs parse_numeral is_array_index_def

end
