(* ===== verification/Server.thy ===== *)
theory Server
  imports Middleware Signer Sanitize Json_Parse Key_Registry
begin

text \<open>
  \<open>packages/server/src/server.ts\<close>: registration, the confirmation protocol (\<open>prepare\<close>, then
  \<open>call\<close>), the signed receipt of every execution, and the read-only routes. A request handler is
  a sequence of steps on the server's state; an early \<open>return errorResponse(...)\<close> or an
  exception is the left value. Stores are the in-memory ones. \<open>sv_trace\<close> records the handler
  runs and the receipts given to the audit hook. Identifiers and times are arguments.
\<close>

section \<open>State\<close>

datatype server_event = Handler_Ran jstr jsval | Audit_Hook call_receipt

record server_state =
  sv_glyphs :: "(jstr, glyph_definition) omap"
  sv_manifests :: "(jstr, update_manifest) omap"
  sv_confirmations :: confirmations
  sv_dedupe :: "(int \<times> dedupe_entries) option"
  sv_trace :: "server_event list"

record server_config =
  sc_crypto :: crypto
  sc_nfkc :: "jstr \<Rightarrow> jstr"
  sc_signer :: glyph_signer
  sc_callTimeoutMs :: int
  sc_onCall :: bool
  sc_maxPending :: nat
  sc_maxBodyBytes :: int

definition CONFIRMATION_TTL_MS :: int where
  "CONFIRMATION_TTL_MS = 5 * 60000"

definition SERVER_VERSION :: jstr where
  "SERVER_VERSION = js ''1.4.3''"

type_synonym 'a handler_step = "(server_state, error_response, 'a) step"

section \<open>Construction\<close>

text \<open>
  The production guard: \<open>Inl\<close> is the thrown message, \<open>Inr\<close> the message logged as a warning, if
  any. \<open>strict\<close> is the option as given.
\<close>

definition production_guard ::
  "bool \<Rightarrow> bool option \<Rightarrow> bool \<Rightarrow> bool \<Rightarrow> bool \<Rightarrow> bool \<Rightarrow> jstr + jstr option" where
  "production_guard isProduction strict hasAuth hasRateLimit hasKeyPair hasSigner =
     (let strictProduction = default_to isProduction strict;
          missing = (if \<not> hasAuth then [js ''auth''] else []) @
                    (if \<not> hasRateLimit then [js ''rateLimit''] else []) @
                    (if \<not> hasKeyPair \<and> \<not> hasSigner then [js ''keyPair (or signer)''] else []);
          msg = js ''[glyph] Production mode requires: '' @ intercalate (js '', '') missing @
                js ''. Set strictProduction: false to bypass (not recommended).''
      in if isProduction \<and> missing \<noteq> [] then (if strictProduction then Inl msg else Inr (Some msg))
         else Inr None)"

definition initial_server :: "int option \<Rightarrow> server_state" where
  "initial_server dedupeTtl =
     \<lparr>sv_glyphs = [], sv_manifests = [], sv_confirmations = [],
      sv_dedupe = map_option (\<lambda>ttl. (ttl, [])) dedupeTtl, sv_trace = []\<rparr>"

section \<open>Registration\<close>

text \<open>The left value is the thrown error.\<close>

datatype register_error = Already_Registered jstr | Unknown_Glyph jstr | Signer_Threw

definition server_register ::
  "server_config \<Rightarrow> glyph_definition \<Rightarrow> (server_state, register_error, unit) step" where
  "server_register cfg g s =
     (let card = gd_card g; name = gc_name card in
      if map_of (sv_glyphs s) name \<noteq> None then (Inl (Already_Registered name), s)
      else case sg_signGlyph (sc_signer cfg) card of
        None \<Rightarrow> (Inl Signer_Threw, s)
      | Some sig \<Rightarrow>
          let signedCard = card\<lparr>gc_publicKey := Some (sg_publicKey (sc_signer cfg)), gc_signature := Some sig\<rparr>
          in (Inr (), s\<lparr>sv_glyphs := omap_set name (g\<lparr>gd_card := signedCard\<rparr>) (sv_glyphs s)\<rparr>))"

record manifest_spec =
  ms_previousCardId :: jstr
  ms_reason :: jstr
  ms_breaking :: bool
  ms_securityImpact :: security_impact

definition server_registerManifest ::
  "server_config \<Rightarrow> jstr \<Rightarrow> jstr \<Rightarrow> manifest_spec \<Rightarrow> (server_state, register_error, unit) step" where
  "server_registerManifest cfg now toolName m s =
     (case map_of (sv_glyphs s) toolName of
        None \<Rightarrow> (Inl (Unknown_Glyph toolName), s)
      | Some g \<Rightarrow>
          let base = \<lparr>um_manifestVersion = MANIFEST_VERSION, um_toolName = toolName,
                um_previousCardId = ms_previousCardId m, um_newCardId = gc_id (gd_card g),
                um_reason = ms_reason m, um_breaking = ms_breaking m,
                um_securityImpact = ms_securityImpact m, um_issuedAt = now,
                um_serverPublicKey = sg_publicKey (sc_signer cfg)\<rparr>
          in case sg_signManifest (sc_signer cfg) base of
               None \<Rightarrow> (Inl Signer_Threw, s)
             | Some sig \<Rightarrow>
                 (Inr (), s\<lparr>sv_manifests :=
                    omap_set toolName (manifest_base.extend base (update_manifest.fields sig)) (sv_manifests s)\<rparr>))"

section \<open>Reading a request\<close>

record raw_body =
  rb_contentLength :: "jstr option"
  rb_bytes :: int
  rb_text :: jstr

text \<open>\<open>Number.parseInt(s, 10)\<close>; \<open>None\<close> is \<open>NaN\<close>.\<close>

definition parse_int10 :: "jstr \<Rightarrow> int option" where
  "parse_int10 s =
     (let t = skip_ws s;
          neg = (t \<noteq> [] \<and> hd t = uc CHR ''-'');
          r = (if t \<noteq> [] \<and> (hd t = uc CHR ''-'' \<or> hd t = uc CHR ''+'') then tl t else t);
          ds = takeWhile is_digit_unit r
      in if ds = [] then None
         else Some (if neg then - int (digits_value ds) else int (digits_value ds)))"

definition payload_too_large :: error_response where
  "payload_too_large =
     errorResponse 413 PAYLOAD_TOO_LARGE (js ''Request body exceeds the maximum allowed size'') JUndef"

definition malformed_json :: error_response where
  "malformed_json = errorResponse 400 MALFORMED_JSON (js ''Request body is not valid JSON'') JUndef"

definition internal_error :: error_response where
  "internal_error = errorResponse 500 INTERNAL_ERROR (js ''Internal server error'') JUndef"

definition readJson :: "int \<Rightarrow> raw_body \<Rightarrow> error_response + jsval" where
  "readJson maxBytes body =
     (let parsed = (case json_parse (rb_text body) of None \<Rightarrow> Inl malformed_json | Some v \<Rightarrow> Inr v) in
      if truthy (rb_contentLength body) then
        (case parse_int10 (the (rb_contentLength body)) of
           Some n \<Rightarrow> if n > maxBytes then Inl payload_too_large else parsed
         | None \<Rightarrow> parsed)
      else if rb_bytes body > maxBytes then Inl payload_too_large
      else parsed)"

definition lift_result :: "error_response + 'a \<Rightarrow> 'a handler_step" where
  "lift_result r = (case r of Inl e \<Rightarrow> throw e | Inr a \<Rightarrow> return a)"

definition read_body :: "server_config \<Rightarrow> raw_body \<Rightarrow> jsval handler_step" where
  "read_body cfg raw = lift_result (readJson (sc_maxBodyBytes cfg) raw)"

text \<open>\<open>body.key\<close> on a parsed body; \<open>null\<close> has no properties and the \<open>TypeError\<close> is a 500.\<close>

definition body_member :: "jsval \<Rightarrow> jstr \<Rightarrow> jsval handler_step" where
  "body_member v k = (case js_member v k of None \<Rightarrow> throw internal_error | Some w \<Rightarrow> return w)"

definition hash_of :: "server_config \<Rightarrow> jsval \<Rightarrow> jstr handler_step" where
  "hash_of cfg v = (case canonicalHash (sc_crypto cfg) v of None \<Rightarrow> throw internal_error | Some h \<Rightarrow> return h)"

section \<open>Gates shared by prepare and call\<close>

definition find_glyph :: "jstr \<Rightarrow> glyph_definition handler_step" where
  "find_glyph name s =
     (case map_of (sv_glyphs s) name of
        None \<Rightarrow> (Inl (errorResponse 404 NOT_FOUND (js ''Glyph not found'') JUndef), s)
      | Some g \<Rightarrow> (Inr g, s))"

definition check_input :: "glyph_definition \<Rightarrow> jsval \<Rightarrow> jsval handler_step" where
  "check_input g v =
     (case gd_inputSchema g v of
        Inl issues \<Rightarrow> throw (errorResponse 400 VALIDATION_FAILED (js ''Input validation failed'') issues)
      | Inr d \<Rightarrow> return d)"

definition scope_gate :: "jstr \<Rightarrow> glyph_definition \<Rightarrow> caller_principal option \<Rightarrow> unit handler_step" where
  "scope_gate name g caller =
     (let missing = missingScopes (gc_requiredScopes (gd_card g)) caller in
      if missing \<noteq> [] then
        throw (errorResponse 403 INSUFFICIENT_SCOPE (js ''Caller is missing one or more required scopes'')
          (JObj [(js ''glyph'', JStr name), (js ''missing'', jstrs missing)]))
      else return ())"

section \<open>POST /glyphs/:name/prepare\<close>

text \<open>The sweep and the limit check; the ticket is put in a later step.\<close>

definition prepare_room :: "server_config \<Rightarrow> int \<Rightarrow> unit handler_step" where
  "prepare_room cfg now s =
     (case confirmation_sweep now (sv_confirmations s) of (backlog, kept) \<Rightarrow>
        let s' = s\<lparr>sv_confirmations := kept\<rparr> in
        if bl_size backlog \<ge> sc_maxPending cfg then
          (let earliestExpiry = default_to (now + CONFIRMATION_TTL_MS) (bl_earliestExpiresAt backlog) in
           (Inl ((errorResponse 503 CONFIRMATION_BACKLOG_FULL
                    (js ''Too many pending confirmations. Retry after the next ticket expires.'')
                    (JObj [(js ''maxPendingConfirmations'', JNum (int (sc_maxPending cfg)))]))
                 \<lparr>er_retryAfter := Some (max 1 (ceil_seconds (earliestExpiry - now)))\<rparr>), s'))
        else (Inr (), s'))"

definition put_ticket ::
  "jstr \<Rightarrow> jstr \<Rightarrow> glyph_definition \<Rightarrow> jsval \<Rightarrow> int \<Rightarrow> jstr \<Rightarrow> confirmation_ticket handler_step" where
  "put_ticket token name g data now inputHash s =
     (Inr \<lparr>ct_confirmationToken = token, ct_glyphId = gc_id (gd_card g), ct_name = gc_name (gd_card g),
           ct_cost = gc_cost (gd_card g), ct_input = data, ct_expiresAt = iso_string (now + CONFIRMATION_TTL_MS)\<rparr>,
      s\<lparr>sv_confirmations := confirmation_put token
          \<lparr>pc_glyphName = name, pc_inputHash = inputHash, pc_expiresAt = now + CONFIRMATION_TTL_MS\<rparr>
          (sv_confirmations s)\<rparr>)"

definition server_prepare ::
  "server_config \<Rightarrow> jstr \<Rightarrow> int \<Rightarrow> jstr \<Rightarrow> raw_body \<Rightarrow> caller_principal option
    \<Rightarrow> confirmation_ticket handler_step" where
  "server_prepare cfg token now name raw caller =
     and_then (find_glyph name) (\<lambda>g.
     and_then (read_body cfg raw) (\<lambda>body.
     and_then (body_member body (js ''input'')) (\<lambda>input.
     and_then (check_input g input) (\<lambda>data.
     and_then (scope_gate name g caller) (\<lambda>_.
     and_then (prepare_room cfg now) (\<lambda>_.
     and_then (hash_of cfg data) (\<lambda>inputHash.
       put_ticket token name g data now inputHash)))))))"

section \<open>POST /glyphs/:name/call\<close>

record call_env =
  en_callId :: jstr
  en_getNow :: int
  en_gateNow :: int
  en_latencyMs :: int
  en_receiptTime :: jstr
  en_envelopeTime :: jstr
  en_putNow :: int

text \<open>A reply is a fresh envelope, or the recorded text of an earlier one.\<close>

datatype call_reply = Sealed sealed_envelope | Replayed jstr

definition dedupe_key :: "server_config \<Rightarrow> jstr \<Rightarrow> jsval \<Rightarrow> jsval \<Rightarrow> jstr option handler_step" where
  "dedupe_key cfg name clientCallId data s =
     (if sv_dedupe s = None \<or> \<not> js_truthy clientCallId then (Inr None, s)
      else and_then (hash_of cfg data)
        (\<lambda>h. return (Some (name @ js '':'' @ js_to_string clientCallId @ js '':'' @ h))) s)"

definition dedupe_lookup :: "int \<Rightarrow> jstr option \<Rightarrow> jstr option handler_step" where
  "dedupe_lookup now key s =
     (case (sv_dedupe s, key) of
        (Some (ttl, m), Some k) \<Rightarrow>
          (case dedupe_get now k m of (r, m') \<Rightarrow> (Inr r, s\<lparr>sv_dedupe := Some (ttl, m')\<rparr>))
      | _ \<Rightarrow> (Inr None, s))"

definition consume_token :: "jsval \<Rightarrow> pending_confirmation option handler_step" where
  "consume_token token s =
     (case token of
        JStr t \<Rightarrow> (case confirmation_consume t (sv_confirmations s) of
                    (p, m) \<Rightarrow> (Inr p, s\<lparr>sv_confirmations := m\<rparr>))
      | _ \<Rightarrow> (Inr None, s))"

definition invalid_confirmation :: "string \<Rightarrow> error_response" where
  "invalid_confirmation msg = errorResponse 403 INVALID_CONFIRMATION (js msg) JUndef"

definition confirmation_required :: "jstr \<Rightarrow> glyph_definition \<Rightarrow> error_response" where
  "confirmation_required name g =
     errorResponse 403 CONFIRMATION_REQUIRED (js ''This glyph requires confirmation'')
       (JObj [(js ''glyph'', JStr name), (js ''cost'', cost_json (gc_cost (gd_card g))),
              (js ''hint'', JStr (js ''POST /glyphs/'' @ name @ js ''/prepare to obtain a confirmation token''))])"

definition ticket_matches ::
  "server_config \<Rightarrow> jstr \<Rightarrow> jsval \<Rightarrow> int \<Rightarrow> pending_confirmation \<Rightarrow> unit handler_step" where
  "ticket_matches cfg name data now p =
     (if now < pc_expiresAt p \<and> pc_glyphName p = name then
        and_then (hash_of cfg data) (\<lambda>h.
          if pc_inputHash p = h then return ()
          else throw (invalid_confirmation ''Expired or mismatched confirmation token''))
      else throw (invalid_confirmation ''Expired or mismatched confirmation token''))"

definition confirmation_gate ::
  "server_config \<Rightarrow> jstr \<Rightarrow> glyph_definition \<Rightarrow> jsval \<Rightarrow> jsval \<Rightarrow> int \<Rightarrow> unit handler_step" where
  "confirmation_gate cfg name g token data now =
     (if \<not> co_requiresConfirmation (gc_cost (gd_card g)) then return ()
      else if \<not> js_truthy token then throw (confirmation_required name g)
      else and_then (consume_token token) (\<lambda>pending.
        case pending of
          None \<Rightarrow> throw (invalid_confirmation ''Unknown or already-consumed confirmation token'')
        | Some p \<Rightarrow> ticket_matches cfg name data now p))"

definition log_event :: "server_event \<Rightarrow> unit handler_step" where
  "log_event e s = (Inr (), s\<lparr>sv_trace := sv_trace s @ [e]\<rparr>)"

definition run_handler :: "server_config \<Rightarrow> jstr \<Rightarrow> glyph_definition \<Rightarrow> jsval \<Rightarrow> jsval handler_step" where
  "run_handler cfg name g data =
     and_then (log_event (Handler_Ran name data)) (\<lambda>_.
       case gd_handler g data of
         Handler_Returns v \<Rightarrow> return v
       | Handler_Throws msg \<Rightarrow> throw (errorResponse 502 HANDLER_ERROR msg JUndef)
       | Handler_Times_Out \<Rightarrow>
           throw (errorResponse 504 HANDLER_TIMEOUT
             (js ''Handler exceeded the '' @ int_dec (sc_callTimeoutMs cfg) @ js ''ms timeout'') JUndef))"

definition check_output :: "glyph_definition \<Rightarrow> jsval \<Rightarrow> jsval handler_step" where
  "check_output g result =
     (case gd_outputSchema g result of
        Inl issues \<Rightarrow> throw (errorResponse 502 OUTPUT_VALIDATION_FAILED
          (js ''Handler output did not match the declared output schema'') issues)
      | Inr d \<Rightarrow> return d)"

definition receipt_of ::
  "server_config \<Rightarrow> call_env \<Rightarrow> glyph_definition \<Rightarrow> jsval \<Rightarrow> jstr \<Rightarrow> jstr \<Rightarrow> jstr \<Rightarrow> receipt_base" where
  "receipt_of cfg env g clientCallId inputHash outputHash inspectionHash =
     \<lparr>cr_receiptVersion = RECEIPT_VERSION, cr_callId = en_callId env,
      cr_clientCallId = (if js_truthy clientCallId then Some clientCallId else None),
      cr_glyphId = gc_id (gd_card g), cr_glyphName = gc_name (gd_card g), cr_inputHash = inputHash,
      cr_outputHash = outputHash, cr_inspectionHash = inspectionHash,
      cr_riskTier = co_riskTier (gc_cost (gd_card g)), cr_provider = gc_provider (gd_card g),
      cr_latencyMs = en_latencyMs env, cr_timestamp = en_receiptTime env,
      cr_serverPublicKey = sg_publicKey (sc_signer cfg)\<rparr>"

definition sign_receipt :: "server_config \<Rightarrow> receipt_base \<Rightarrow> call_receipt handler_step" where
  "sign_receipt cfg base =
     (case sg_signReceipt (sc_signer cfg) base of
        None \<Rightarrow> throw internal_error
      | Some sig \<Rightarrow> return (receipt_base.extend base (call_receipt.fields sig)))"

definition audit_hook :: "server_config \<Rightarrow> call_receipt \<Rightarrow> unit handler_step" where
  "audit_hook cfg r = (if sc_onCall cfg then log_event (Audit_Hook r) else return ())"

text \<open>The JSON text of the response that the dedupe store records.\<close>

definition signed_receipt_json :: "call_receipt \<Rightarrow> jsval" where
  "signed_receipt_json r =
     (case receipt_json r of JObj kvs \<Rightarrow> JObj (kvs @ [(js ''signature'', JStr (cr_signature r))]) | v \<Rightarrow> v)"

definition envelope_json :: "sealed_envelope \<Rightarrow> jsval" where
  "envelope_json e = JObj
     [(js ''type'', jlit ''data''), (js ''glyphId'', JStr (se_glyphId e)), (js ''callId'', JStr (se_callId e)),
      (js ''payload'', se_payload e),
      (js ''meta'', JObj [(js ''latencyMs'', JNum (se_latencyMs e)), (js ''provider'', JStr (se_provider e)),
                        (js ''timestamp'', JStr (se_timestamp e))]),
      (js ''inspection'', jopt sanitization_json (se_inspection e)),
      (js ''receipt'', jopt signed_receipt_json (se_receipt e))]"

definition record_response :: "int \<Rightarrow> jstr option \<Rightarrow> sealed_envelope \<Rightarrow> unit handler_step" where
  "record_response now key e s =
     (case (sv_dedupe s, key) of
        (Some (ttl, m), Some k) \<Rightarrow>
          (Inr (), s\<lparr>sv_dedupe := Some (ttl, dedupe_put now k (ser (envelope_json e)) ttl m)\<rparr>)
      | _ \<Rightarrow> (Inr (), s))"

definition seal_step ::
  "server_config \<Rightarrow> call_env \<Rightarrow> glyph_definition \<Rightarrow> jsval \<Rightarrow> jsval \<Rightarrow> jsval \<Rightarrow> sealed_envelope handler_step" where
  "seal_step cfg env g clientCallId data out =
     (case sanitize (sc_nfkc cfg) out of (cleanOutput, inspection) \<Rightarrow>
        and_then (hash_of cfg data) (\<lambda>inputHash.
        and_then (hash_of cfg cleanOutput) (\<lambda>outputHash.
        and_then (hash_of cfg (sanitization_json inspection)) (\<lambda>inspectionHash.
        and_then (sign_receipt cfg (receipt_of cfg env g clientCallId inputHash outputHash inspectionHash)) (\<lambda>receipt.
        and_then (audit_hook cfg receipt) (\<lambda>_.
          return ((sealResult (en_callId env) (en_envelopeTime env) (gc_id (gd_card g)) (en_callId env)
                     cleanOutput (en_latencyMs env) (gc_provider (gd_card g)) (Some inspection))
                  \<lparr>se_receipt := Some receipt\<rparr>)))))))"

definition execute_call ::
  "server_config \<Rightarrow> call_env \<Rightarrow> jstr \<Rightarrow> glyph_definition \<Rightarrow> jsval \<Rightarrow> jsval \<Rightarrow> jstr option
    \<Rightarrow> call_reply handler_step" where
  "execute_call cfg env name g clientCallId data key =
     and_then (run_handler cfg name g data) (\<lambda>result.
     and_then (check_output g result) (\<lambda>out.
     and_then (seal_step cfg env g clientCallId data out) (\<lambda>e.
     and_then (record_response (en_putNow env) key e) (\<lambda>_.
       return (Sealed e)))))"

text \<open>Everything before the handler: a recorded reply, or the admitted call.\<close>

datatype gate_result = Cached jstr | Admitted glyph_definition jsval jsval "jstr option"

definition call_gates ::
  "server_config \<Rightarrow> call_env \<Rightarrow> jstr \<Rightarrow> raw_body \<Rightarrow> caller_principal option \<Rightarrow> gate_result handler_step" where
  "call_gates cfg env name raw caller =
     and_then (find_glyph name) (\<lambda>g.
     and_then (read_body cfg raw) (\<lambda>body.
     and_then (body_member body (js ''callId'')) (\<lambda>clientCallId.
     and_then (check_input g (js_member_opt body (js ''input''))) (\<lambda>data.
     and_then (scope_gate name g caller) (\<lambda>_.
     and_then (dedupe_key cfg name clientCallId data) (\<lambda>key.
     and_then (dedupe_lookup (en_getNow env) key) (\<lambda>cached.
       if truthy cached then return (Cached (the cached))
       else
         and_then (confirmation_gate cfg name g (js_member_opt body (js ''confirmationToken'')) data (en_gateNow env))
           (\<lambda>_. return (Admitted g clientCallId data key)))))))))"

definition server_call ::
  "server_config \<Rightarrow> call_env \<Rightarrow> jstr \<Rightarrow> raw_body \<Rightarrow> caller_principal option \<Rightarrow> call_reply handler_step" where
  "server_call cfg env name raw caller =
     and_then (call_gates cfg env name raw caller) (\<lambda>r.
       case r of
         Cached text \<Rightarrow> return (Replayed text)
       | Admitted g clientCallId data key \<Rightarrow> execute_call cfg env name g clientCallId data key)"

section \<open>Read-only routes\<close>

text \<open>The middlewares in front of every route: the rate limiter first, then the token gate.\<close>

definition server_front ::
  "crypto \<Rightarrow> auth_config option \<Rightarrow> rate_config option \<Rightarrow> int \<Rightarrow> http_request \<Rightarrow> rate_hits
    \<Rightarrow> error_response option \<times> rate_hits" where
  "server_front C auth rate now rq hits =
     (case (case rate of
              None \<Rightarrow> (None, hits)
            | Some rc \<Rightarrow> rateLimitMiddleware rc (map_option (buildVerify C) auth) now rq hits) of
        (Some e, hits') \<Rightarrow> (Some e, hits')
      | (None, hits') \<Rightarrow> (case auth of None \<Rightarrow> None | Some a \<Rightarrow> authMiddleware C a rq, hits'))"

text \<open>\<open>GET /keys\<close>: the configured source's answer, an exception being its message.\<close>

definition server_keys :: "(jstr + key_registry) option \<Rightarrow> error_response + key_registry" where
  "server_keys source =
     (case source of
        None \<Rightarrow> Inl (errorResponse 404 NOT_FOUND (js ''No KeyRegistry published'') JUndef)
      | Some (Inl msg) \<Rightarrow> Inl (errorResponse 500 INTERNAL_ERROR msg JUndef)
      | Some (Inr r) \<Rightarrow> Inr r)"

definition server_lexicon :: "server_state \<Rightarrow> lexicon_entry list" where
  "server_lexicon s = map (\<lambda>(name, g). toLexiconEntry (gd_card g)) (sv_glyphs s)"

definition depth_of :: "jstr \<Rightarrow> card_depth option" where
  "depth_of d = map_of [(js ''minimal'', Minimal), (js ''standard'', Standard), (js ''rich'', Rich)] d"

definition server_card :: "jstr \<Rightarrow> jstr option \<Rightarrow> server_state \<Rightarrow> error_response + (jstr \<times> jsval) list" where
  "server_card name depthRaw s =
     (case (case depthRaw of None \<Rightarrow> Some Rich | Some d \<Rightarrow> depth_of d) of
        None \<Rightarrow> Inl (errorResponse 400 VALIDATION_FAILED (js ''Invalid depth value'')
          (JObj [(js ''field'', jlit ''depth''),
                 (js ''expected'', jstrs [js ''minimal'', js ''standard'', js ''rich'']),
                 (js ''got'', jopt JStr depthRaw)]))
      | Some depth \<Rightarrow>
          (case map_of (sv_glyphs s) name of
             None \<Rightarrow> Inl (errorResponse 404 NOT_FOUND (js ''Glyph not found'') JUndef)
           | Some g \<Rightarrow> Inr (applyDepth (gd_card g) depth)))"

definition server_manifest :: "jstr \<Rightarrow> server_state \<Rightarrow> error_response + update_manifest" where
  "server_manifest name s =
     (if map_of (sv_glyphs s) name = None
      then Inl (errorResponse 404 NOT_FOUND (js ''Glyph not found'') JUndef)
      else case map_of (sv_manifests s) name of
        None \<Rightarrow> Inl (errorResponse 404 NOT_FOUND (js ''No update manifest for this glyph'') JUndef)
      | Some m \<Rightarrow> Inr m)"

definition server_handshake :: "server_config \<Rightarrow> jstr \<Rightarrow> raw_body \<Rightarrow> handshake_response handler_step" where
  "server_handshake cfg sessionId raw =
     and_then (read_body cfg raw) (\<lambda>body.
     and_then (body_member body (js ''protocolVersion'')) (\<lambda>v.
       if v \<noteq> JStr PROTOCOL_VERSION then
         throw (errorResponse 426 PROTOCOL_VERSION_UNSUPPORTED
           (js ''This server speaks Glyph protocol '' @ PROTOCOL_VERSION)
           (JObj [(js ''serverProtocolVersion'', JStr PROTOCOL_VERSION),
                  (js ''clientProtocolVersion'', if v = JUndef then JNull else v)]))
       else (\<lambda>s. (Inr
         \<lparr>hr_protocolVersion = PROTOCOL_VERSION, hr_sessionId = sessionId, hr_lexicon = server_lexicon s,
          hr_cardDepth = (let d = js_member_opt body (js ''preferredCardDepth'')
                          in if d = JUndef \<or> d = JNull then jlit ''standard'' else d),
          hr_serverVersion = SERVER_VERSION\<rparr>, s))))"

section \<open>What each step can do\<close>

named_theorems step_inv \<open>when a step of a request handler succeeds, and with what effect\<close>

lemma find_glyph_inv [step_inv]:
  "find_glyph name s = (Inr g, s') \<longleftrightarrow> s' = s \<and> map_of (sv_glyphs s) name = Some g"
  by (auto simp: find_glyph_def split: option.splits)

lemma return_inv [step_inv]: "return a s = (r, s') \<longleftrightarrow> r = Inr a \<and> s' = s"
  by (auto simp: return_def)

lemma throw_inv [step_inv]: "throw e s = (r, s') \<longleftrightarrow> r = Inl e \<and> s' = s"
  by (auto simp: throw_def)

lemma read_body_inv [step_inv]:
  "read_body cfg raw s = (Inr v, s') \<longleftrightarrow> s' = s \<and> readJson (sc_maxBodyBytes cfg) raw = Inr v"
  by (auto simp: read_body_def lift_result_def return_def throw_def split: sum.splits)

lemma body_member_inv [step_inv]: "body_member v k s = (Inr w, s') \<longleftrightarrow> s' = s \<and> js_member v k = Some w"
  by (auto simp: body_member_def return_def throw_def split: option.splits)

lemma canonicalHash_undef [simp]: "canonicalHash C JUndef = None"
  by simp

lemma hash_of_inv [step_inv]:
  "hash_of cfg v s = (Inr h, s') \<longleftrightarrow> s' = s \<and> canonicalHash (sc_crypto cfg) v = Some h"
  by (cases "v = JUndef") (auto simp: hash_of_def return_def throw_def canonicalHash_Some)

lemma check_input_inv [step_inv]: "check_input g v s = (Inr d, s') \<longleftrightarrow> s' = s \<and> gd_inputSchema g v = Inr d"
  by (auto simp: check_input_def return_def throw_def split: sum.splits)

lemma check_output_inv [step_inv]: "check_output g v s = (Inr d, s') \<longleftrightarrow> s' = s \<and> gd_outputSchema g v = Inr d"
  by (auto simp: check_output_def return_def throw_def split: sum.splits)

lemma scope_gate_inv [step_inv]:
  "scope_gate name g caller s = (Inr u, s') \<longleftrightarrow>
     s' = s \<and> missingScopes (gc_requiredScopes (gd_card g)) caller = []"
  by (auto simp: scope_gate_def return_def throw_def Let_def)

lemma dedupe_key_inv [step_inv]:
  "dedupe_key cfg name cid data s = (Inr key, s') \<longleftrightarrow> s' = s \<and>
     (if sv_dedupe s = None \<or> \<not> js_truthy cid then key = None
      else \<exists>h. canonicalHash (sc_crypto cfg) data = Some h \<and>
        key = Some (name @ js '':'' @ js_to_string cid @ js '':'' @ h))"
  by (auto simp: dedupe_key_def and_then_Inr step_inv)

lemma sign_receipt_inv [step_inv]:
  "sign_receipt cfg b s = (Inr r, s') \<longleftrightarrow> s' = s \<and>
     (\<exists>sig. sg_signReceipt (sc_signer cfg) b = Some sig \<and> r = receipt_base.extend b (call_receipt.fields sig))"
  by (auto simp: sign_receipt_def return_def throw_def split: option.splits)

lemma log_event_inv [step_inv]: "log_event e s = (r, s') \<longleftrightarrow> r = Inr () \<and> s' = s\<lparr>sv_trace := sv_trace s @ [e]\<rparr>"
  by (auto simp: log_event_def)

lemma confirmation_gate_inv [step_inv]:
  "confirmation_gate cfg name g token data now s = (Inr u, s') \<longleftrightarrow>
     (if \<not> co_requiresConfirmation (gc_cost (gd_card g)) then s' = s
      else \<exists>t p. token = JStr t \<and> t \<noteq> [] \<and> map_of (sv_confirmations s) t = Some p \<and> now < pc_expiresAt p \<and>
        pc_glyphName p = name \<and> canonicalHash (sc_crypto cfg) data = Some (pc_inputHash p) \<and>
        s' = s\<lparr>sv_confirmations := omap_delete t (sv_confirmations s)\<rparr>)"
  by (cases token)
     (auto simp: confirmation_gate_def consume_token_def confirmation_consume_def ticket_matches_def
        and_then_Inr step_inv split: option.splits if_splits)

text \<open>Steps before the handler leave the trace alone and touch no glyph or manifest.\<close>

definition quiet :: "'a handler_step \<Rightarrow> bool" where
  "quiet m \<longleftrightarrow> (\<forall>s. sv_trace (snd (m s)) = sv_trace s \<and> sv_glyphs (snd (m s)) = sv_glyphs s \<and>
     sv_manifests (snd (m s)) = sv_manifests s)"

named_theorems quiet_intros \<open>steps that do not run handlers\<close>

lemma quiet_and_then [quiet_intros]: "quiet m \<Longrightarrow> (\<And>a. quiet (f a)) \<Longrightarrow> quiet (and_then m f)"
  unfolding quiet_def and_then_def by (auto split: prod.splits sum.splits) (metis snd_conv)+

lemma quiet_basic [quiet_intros]:
  "quiet (return a)" "quiet (throw e)" "quiet (find_glyph name)" "quiet (read_body cfg raw)"
  "quiet (body_member v k)" "quiet (hash_of cfg v)" "quiet (check_input g v)" "quiet (scope_gate name g caller)"
  "quiet (consume_token token)" "quiet (dedupe_lookup now key)" "quiet (prepare_room cfg now)"
  "quiet (put_ticket tok name g data now h)"
  by (auto simp: quiet_def return_def throw_def find_glyph_def read_body_def lift_result_def body_member_def
      hash_of_def check_input_def scope_gate_def consume_token_def dedupe_lookup_def prepare_room_def
      put_ticket_def Let_def split: option.splits sum.splits jsval.splits prod.splits)

lemma quiet_dedupe_key [quiet_intros]: "quiet (dedupe_key cfg name cid data)"
proof -
  have "quiet (and_then (hash_of cfg data)
      (\<lambda>h. return (Some (name @ js '':'' @ js_to_string cid @ js '':'' @ h))))"
    by (intro quiet_intros)
  then show ?thesis by (simp add: quiet_def dedupe_key_def)
qed

lemma quiet_confirmation_gate [quiet_intros]: "quiet (confirmation_gate cfg name g token data now)"
  unfolding confirmation_gate_def ticket_matches_def
  by (auto intro!: quiet_intros split: option.splits)

lemma quiet_call_gates: "quiet (call_gates cfg env name raw caller)"
  unfolding call_gates_def by (intro quiet_intros) (auto intro!: quiet_intros)

lemma quiet_prepare: "quiet (server_prepare cfg token now name raw caller)"
  unfolding server_prepare_def by (intro quiet_intros)

lemma quiet_call_gates_trace: "call_gates cfg env name raw caller s = (r, s') \<Longrightarrow> sv_trace s' = sv_trace s"
  using quiet_call_gates [of cfg env name raw caller] unfolding quiet_def by (metis snd_conv)

text \<open>The conditions under which a call is admitted to its handler.\<close>

definition call_admitted ::
  "server_config \<Rightarrow> call_env \<Rightarrow> jstr \<Rightarrow> raw_body \<Rightarrow> caller_principal option \<Rightarrow> server_state
    \<Rightarrow> glyph_definition \<Rightarrow> jsval \<Rightarrow> jsval \<Rightarrow> bool" where
  "call_admitted cfg env name raw caller s g body data \<longleftrightarrow>
     map_of (sv_glyphs s) name = Some g \<and> readJson (sc_maxBodyBytes cfg) raw = Inr body \<and>
     gd_inputSchema g (js_member_opt body (js ''input'')) = Inr data \<and>
     missingScopes (gc_requiredScopes (gd_card g)) caller = [] \<and>
     (co_requiresConfirmation (gc_cost (gd_card g)) \<longrightarrow>
        (\<exists>t p. js_member_opt body (js ''confirmationToken'') = JStr t \<and> t \<noteq> [] \<and>
           map_of (sv_confirmations s) t = Some p \<and> en_gateNow env < pc_expiresAt p \<and>
           pc_glyphName p = name \<and> canonicalHash (sc_crypto cfg) data = Some (pc_inputHash p)))"

lemma dedupe_lookup_state:
  "dedupe_lookup now key s = (Inr c, s') \<Longrightarrow> sv_confirmations s' = sv_confirmations s"
  by (auto simp: dedupe_lookup_def split: option.splits prod.splits)

lemma call_gates_Admitted:
  assumes "call_gates cfg env name raw caller s = (Inr (Admitted g cid data key), s')"
  shows "\<exists>body. call_admitted cfg env name raw caller s g body data \<and>
    js_member body (js ''callId'') = Some cid \<and>
    (co_requiresConfirmation (gc_cost (gd_card g)) \<longrightarrow>
       (\<exists>t. js_member_opt body (js ''confirmationToken'') = JStr t \<and>
          sv_confirmations s' = omap_delete t (sv_confirmations s)))"
proof -
  from assms obtain body key' cached s1 where
    g: "map_of (sv_glyphs s) name = Some g" "readJson (sc_maxBodyBytes cfg) raw = Inr body"
      "js_member body (js ''callId'') = Some cid" "gd_inputSchema g (js_member_opt body (js ''input'')) = Inr data"
      "missingScopes (gc_requiredScopes (gd_card g)) caller = []"
    and d: "dedupe_lookup (en_getNow env) key' s = (Inr cached, s1)" "\<not> truthy cached"
    and c: "confirmation_gate cfg name g (js_member_opt body (js ''confirmationToken'')) data (en_gateNow env) s1
      = (Inr (), s')"
    unfolding call_gates_def by (auto simp: and_then_Inr step_inv split: if_splits)
  from dedupe_lookup_state [OF d(1)] c g show ?thesis
    by (intro exI [of _ body]) (auto simp: confirmation_gate_inv call_admitted_def split: if_splits)
qed

lemma and_then_case: "and_then m f s = (case m s of (Inl e, s') \<Rightarrow> (Inl e, s') | (Inr a, s') \<Rightarrow> f a s')"
  by (simp add: and_then_def)

lemma record_response_quiet: "quiet (record_response now key e)"
  by (auto simp: quiet_def record_response_def split: option.splits prod.splits)

definition hooks_only :: "server_event list \<Rightarrow> bool" where
  "hooks_only es \<longleftrightarrow> (\<forall>e\<in>set es. case e of Audit_Hook _ \<Rightarrow> True | Handler_Ran _ _ \<Rightarrow> False)"

text \<open>\<open>appends P m\<close>: the step extends the trace by events that satisfy \<open>P\<close>.\<close>

definition appends :: "(server_event list \<Rightarrow> bool) \<Rightarrow> 'a handler_step \<Rightarrow> bool" where
  "appends P m \<longleftrightarrow> (\<forall>s. \<exists>es. sv_trace (snd (m s)) = sv_trace s @ es \<and> P es \<and>
     sv_confirmations (snd (m s)) = sv_confirmations s \<and> sv_glyphs (snd (m s)) = sv_glyphs s \<and>
     sv_manifests (snd (m s)) = sv_manifests s)"

lemma appends_and_then:
  assumes "appends hooks_only m" "\<And>a. appends hooks_only (f a)"
  shows "appends hooks_only (and_then m f)"
  unfolding appends_def
proof
  fix s
  from assms(1) obtain es where es: "sv_trace (snd (m s)) = sv_trace s @ es" "hooks_only es"
    "sv_confirmations (snd (m s)) = sv_confirmations s" "sv_glyphs (snd (m s)) = sv_glyphs s"
    "sv_manifests (snd (m s)) = sv_manifests s" unfolding appends_def by blast
  obtain r s1 where m: "m s = (r, s1)" by fastforce
  show "\<exists>es. sv_trace (snd (and_then m f s)) = sv_trace s @ es \<and> hooks_only es \<and>
      sv_confirmations (snd (and_then m f s)) = sv_confirmations s \<and>
      sv_glyphs (snd (and_then m f s)) = sv_glyphs s \<and> sv_manifests (snd (and_then m f s)) = sv_manifests s"
  proof (cases r)
    case (Inl e)
    then show ?thesis using es m by (auto simp: and_then_case)
  next
    case (Inr a)
    from assms(2) obtain es' where "sv_trace (snd (f a s1)) = sv_trace s1 @ es'" "hooks_only es'"
      "sv_confirmations (snd (f a s1)) = sv_confirmations s1" "sv_glyphs (snd (f a s1)) = sv_glyphs s1"
      "sv_manifests (snd (f a s1)) = sv_manifests s1" unfolding appends_def by blast
    then show ?thesis using es m Inr by (auto simp: and_then_case hooks_only_def intro!: exI [of _ "es @ es'"])
  qed
qed

lemma appends_basic:
  "appends hooks_only (return a)" "appends hooks_only (throw e)" "appends hooks_only (hash_of cfg v)"
  "appends hooks_only (check_output g v)" "appends hooks_only (sign_receipt cfg b)"
  "appends hooks_only (audit_hook cfg r)" "appends hooks_only (record_response now key env)"
  by (auto simp: appends_def return_def throw_def hash_of_def check_output_def sign_receipt_def
      audit_hook_def log_event_def record_response_def hooks_only_def
      split: option.splits sum.splits prod.splits)

lemma appends_seal: "appends hooks_only (seal_step cfg env g cid data out)"
  unfolding seal_step_def by (auto intro!: appends_and_then appends_basic split: prod.split)

text \<open>Whatever comes of it, an execution runs the handler once and only then the audit hook.\<close>

lemma execute_call_trace:
  "\<exists>hooks. sv_trace (snd (execute_call cfg env name g cid data key s))
       = sv_trace s @ Handler_Ran name data # hooks \<and> hooks_only hooks \<and>
     sv_confirmations (snd (execute_call cfg env name g cid data key s)) = sv_confirmations s \<and>
     sv_glyphs (snd (execute_call cfg env name g cid data key s)) = sv_glyphs s \<and>
     sv_manifests (snd (execute_call cfg env name g cid data key s)) = sv_manifests s"
proof -
  let ?s1 = "s\<lparr>sv_trace := sv_trace s @ [Handler_Ran name data]\<rparr>"
  have r: "run_handler cfg name g data s = (fst (run_handler cfg name g data s), ?s1)"
    by (auto simp: run_handler_def and_then_case log_event_def return_def throw_def split: handler_result.splits)
  let ?rest = "\<lambda>result. and_then (check_output g result) (\<lambda>out.
     and_then (seal_step cfg env g cid data out) (\<lambda>e.
     and_then (record_response (en_putNow env) key e) (\<lambda>_. return (Sealed e))))"
  have a: "appends hooks_only (?rest result)" for result
    by (intro appends_and_then appends_basic appends_seal)
  have e: "execute_call cfg env name g cid data key s =
      (case fst (run_handler cfg name g data s) of Inl e \<Rightarrow> (Inl e, ?s1) | Inr v \<Rightarrow> ?rest v ?s1)"
    unfolding execute_call_def by (subst and_then_case, subst r) simp
  show ?thesis
  proof (cases "fst (run_handler cfg name g data s)")
    case (Inl x)
    then show ?thesis by (simp add: e hooks_only_def)
  next
    case (Inr v)
    from a [of v] obtain es where "sv_trace (snd (?rest v ?s1)) = sv_trace ?s1 @ es" "hooks_only es"
      "sv_confirmations (snd (?rest v ?s1)) = sv_confirmations ?s1" "sv_glyphs (snd (?rest v ?s1)) = sv_glyphs ?s1"
      "sv_manifests (snd (?rest v ?s1)) = sv_manifests ?s1"
      unfolding appends_def by blast
    then show ?thesis by (simp add: e Inr)
  qed
qed

lemma server_call_ran:
  assumes "server_call cfg env name raw caller s = (r, s')" "sv_trace s' \<noteq> sv_trace s"
  shows "\<exists>g body data hooks. call_admitted cfg env name raw caller s g body data \<and>
    sv_trace s' = sv_trace s @ Handler_Ran name data # hooks \<and> hooks_only hooks \<and>
    (co_requiresConfirmation (gc_cost (gd_card g)) \<longrightarrow>
       (\<exists>t. js_member_opt body (js ''confirmationToken'') = JStr t \<and>
          sv_confirmations s' = omap_delete t (sv_confirmations s)))"
proof -
  obtain q s1 where q: "call_gates cfg env name raw caller s = (q, s1)" by fastforce
  have t: "sv_trace s1 = sv_trace s" by (rule quiet_call_gates_trace [OF q])
  show ?thesis
  proof (cases "\<exists>g cid data key. q = Inr (Admitted g cid data key)")
    case False
    then have "sv_trace s' = sv_trace s"
      using assms(1) q t by (auto simp: server_call_def and_then_case return_def split: sum.splits gate_result.splits)
    with assms(2) show ?thesis by simp
  next
    case True
    then obtain g cid data key where a: "q = Inr (Admitted g cid data key)" by blast
    then have s': "s' = snd (execute_call cfg env name g cid data key s1)"
      using assms(1) q by (simp add: server_call_def and_then_case)
    from call_gates_Admitted [of cfg env name raw caller s g cid data key s1] q a obtain body where
      b: "call_admitted cfg env name raw caller s g body data"
        "co_requiresConfirmation (gc_cost (gd_card g)) \<longrightarrow>
           (\<exists>t. js_member_opt body (js ''confirmationToken'') = JStr t \<and>
              sv_confirmations s1 = omap_delete t (sv_confirmations s))" by blast
    from execute_call_trace [of cfg env name g cid data key s1] b s' t show ?thesis by metis
  qed
qed

end
