(* ===== verification/Server_Properties.thy ===== *)
theory Server_Properties
  imports Server
begin

text \<open>
  What a Glyph server guarantees: a handler runs only behind its gates, a confirmation ticket
  buys one execution, a sealed response carries a receipt that verifies and commits to what was
  delivered, and the invariant of every reachable state.
\<close>

section \<open>Gates and tickets\<close>

text \<open>
  C1. A request can make a handler run only when it passed every gate: the glyph exists, the
  body is JSON within the limit, the input satisfies the schema, the caller holds every required
  scope, and a glyph that requires confirmation is given an unexpired ticket issued for this
  very glyph and input. Then the handler runs exactly once, and the ticket is gone.
\<close>

theorem handler_behind_gates:
  assumes "server_call cfg env name raw caller s = (r, s')" and "sv_trace s' \<noteq> sv_trace s"
  shows "\<exists>g body data hooks. call_admitted cfg env name raw caller s g body data \<and>
    sv_trace s' = sv_trace s @ Handler_Ran name data # hooks \<and> hooks_only hooks \<and>
    (co_requiresConfirmation (gc_cost (gd_card g)) \<longrightarrow>
       (\<exists>t. js_member_opt body (js ''confirmationToken'') = JStr t \<and> map_of (sv_confirmations s') t = None))"
proof -
  from server_call_ran [OF assms] obtain g body data hooks where
    h: "call_admitted cfg env name raw caller s g body data"
      "sv_trace s' = sv_trace s @ Handler_Ran name data # hooks" "hooks_only hooks"
      "co_requiresConfirmation (gc_cost (gd_card g)) \<longrightarrow>
         (\<exists>t. js_member_opt body (js ''confirmationToken'') = JStr t \<and>
            sv_confirmations s' = omap_delete t (sv_confirmations s))" by blast
  then have "co_requiresConfirmation (gc_cost (gd_card g)) \<longrightarrow>
      (\<exists>t. js_member_opt body (js ''confirmationToken'') = JStr t \<and> map_of (sv_confirmations s') t = None)"
    by (auto simp: store_laws)
  with h show ?thesis by blast
qed

text \<open>\<open>spends raw t\<close>: the request presents the ticket \<open>t\<close>.\<close>

definition spends :: "server_config \<Rightarrow> raw_body \<Rightarrow> jstr \<Rightarrow> bool" where
  "spends cfg raw t \<longleftrightarrow> (\<exists>body. readJson (sc_maxBodyBytes cfg) raw = Inr body \<and>
     js_member_opt body (js ''confirmationToken'') = JStr t)"


lemma prepare_Inr:
  assumes "server_prepare cfg token now name raw caller s = (Inr ticket, s')"
  shows "\<exists>g body data h. map_of (sv_glyphs s) name = Some g \<and> readJson (sc_maxBodyBytes cfg) raw = Inr body \<and>
    gd_inputSchema g (js_member_opt body (js ''input'')) = Inr data \<and>
    missingScopes (gc_requiredScopes (gd_card g)) caller = [] \<and> canonicalHash (sc_crypto cfg) data = Some h \<and>
    ct_input ticket = data \<and> ct_confirmationToken ticket = token \<and> sv_glyphs s' = sv_glyphs s \<and>
    sv_dedupe s' = sv_dedupe s \<and> sv_manifests s' = sv_manifests s \<and>
    bl_size (fst (confirmation_sweep now (sv_confirmations s))) < sc_maxPending cfg \<and>
    sv_confirmations s' = confirmation_put token
      \<lparr>pc_glyphName = name, pc_inputHash = h, pc_expiresAt = now + CONFIRMATION_TTL_MS\<rparr>
      (snd (confirmation_sweep now (sv_confirmations s)))"
proof -
  from assms obtain g body input data h s1 where
    a: "map_of (sv_glyphs s) name = Some g" "readJson (sc_maxBodyBytes cfg) raw = Inr body"
      "js_member body (js ''input'') = Some input" "gd_inputSchema g input = Inr data"
      "missingScopes (gc_requiredScopes (gd_card g)) caller = []"
      "prepare_room cfg now s = (Inr (), s1)" "canonicalHash (sc_crypto cfg) data = Some h"
      "put_ticket token name g data now h s1 = (Inr ticket, s')"
    unfolding server_prepare_def by (auto simp: and_then_Inr step_inv)
  moreover from a(6) have "s1 = s\<lparr>sv_confirmations := snd (confirmation_sweep now (sv_confirmations s))\<rparr>"
      "bl_size (fst (confirmation_sweep now (sv_confirmations s))) < sc_maxPending cfg"
    by (auto simp: prepare_room_def Let_def split: prod.splits if_splits)
  moreover have "js_member_opt body (js ''input'') = input" using a(3) by (simp add: js_member_opt_def)
  ultimately show ?thesis by (auto simp: put_ticket_def)
qed

lemma gates_admit:
  assumes "call_admitted cfg env name raw caller s g body data" "js_member body (js ''callId'') = Some cid"
    and "sv_dedupe s = None"
  shows "\<exists>s'. call_gates cfg env name raw caller s = (Inr (Admitted g cid data None), s')"
proof -
  have k: "dedupe_key cfg name cid data s = (Inr None, s)" "dedupe_lookup now None s = (Inr None, s)" for now
    using assms(3) by (simp_all add: dedupe_key_def dedupe_lookup_def)
  have "\<exists>s'. confirmation_gate cfg name g (js_member_opt body (js ''confirmationToken'')) data (en_gateNow env) s
      = (Inr (), s')"
    using assms(1) by (auto simp: confirmation_gate_inv call_admitted_def)
  then obtain s' where
    c: "confirmation_gate cfg name g (js_member_opt body (js ''confirmationToken'')) data (en_gateNow env) s
      = (Inr (), s')" by blast
  show ?thesis
    using assms(1,2) c unfolding call_gates_def call_admitted_def
    by (intro exI [of _ s']) (simp add: and_then_case find_glyph_def read_body_def lift_result_def
        body_member_def check_input_def scope_gate_def return_def k)
qed

text \<open>
  C31. The confirmation protocol completes: with the ticket a server issued, the caller that
  asked for it gets the same input admitted to the handler until the ticket expires.
\<close>

theorem prepare_then_call:
  assumes "server_prepare cfg token now name raw caller s = (Inr ticket, s1)" and "token \<noteq> []"
    and "readJson (sc_maxBodyBytes cfg) raw = Inr body"
    and "readJson (sc_maxBodyBytes cfg) raw' = Inr body'"
    and "js_member_opt body' (js ''input'') = js_member_opt body (js ''input'')"
    and "js_member_opt body' (js ''confirmationToken'') = JStr token"
    and "js_member body' (js ''callId'') = Some cid"
    and "en_gateNow env < now + CONFIRMATION_TTL_MS"
    and "omap_wf (sv_confirmations s)" and "sv_dedupe s = None"
  shows "\<exists>g s2. call_gates cfg env name raw' caller s1 = (Inr (Admitted g cid (ct_input ticket) None), s2)"
proof -
  from prepare_Inr [OF assms(1)] assms(3) obtain g data h where
    p: "map_of (sv_glyphs s) name = Some g" "gd_inputSchema g (js_member_opt body (js ''input'')) = Inr data"
      "missingScopes (gc_requiredScopes (gd_card g)) caller = []" "canonicalHash (sc_crypto cfg) data = Some h"
      "ct_input ticket = data" "sv_glyphs s1 = sv_glyphs s" "sv_dedupe s1 = sv_dedupe s"
      "sv_confirmations s1 = confirmation_put token
         \<lparr>pc_glyphName = name, pc_inputHash = h, pc_expiresAt = now + CONFIRMATION_TTL_MS\<rparr>
         (snd (confirmation_sweep now (sv_confirmations s)))" by auto
  have "map_of (sv_confirmations s1) token =
      Some \<lparr>pc_glyphName = name, pc_inputHash = h, pc_expiresAt = now + CONFIRMATION_TTL_MS\<rparr>"
    unfolding p(8) using mem_confirmations.pending_put [OF mem_confirmations.wf_sweep [OF assms(9)]] by simp
  then have "call_admitted cfg env name raw' caller s1 g body' data"
    using p assms(2,4-6,8) by (simp add: call_admitted_def)
  from gates_admit [OF this assms(7)] p(5,7) assms(10) show ?thesis by auto
qed

section \<open>The sealed response\<close>

lemma receipt_extend:
  "receipt_base.extend b (call_receipt.fields sig)
     = (receipt_base.extend b (call_receipt.fields []))\<lparr>cr_signature := sig\<rparr>"
  "receipt_base.truncate (receipt_base.extend b x) = b"
  "cr_serverPublicKey (receipt_base.extend b x) = cr_serverPublicKey b"
  by (simp_all add: receipt_base.defs call_receipt.defs)

lemma honest_receipt:
  assumes "honest_signer C sg" "cr_serverPublicKey b = sg_publicKey sg" "sg_signReceipt sg b = Some sig"
  shows "verifyReceipt C (receipt_base.extend b (call_receipt.fields sig))"
proof -
  let ?r = "receipt_base.extend b (call_receipt.fields [])"
  have "cr_serverPublicKey ?r = sg_publicKey sg" using assms(2) by (simp add: receipt_extend(3))
  then obtain sig' where "sg_signReceipt sg (receipt_base.truncate ?r) = Some sig'"
    "verifyReceipt C (?r\<lparr>cr_signature := sig'\<rparr>)" using assms(1) unfolding honest_signer_def by blast
  then have "verifyReceipt C (?r\<lparr>cr_signature := sig\<rparr>)" using assms(3) by (simp add: receipt_extend(2))
  then show ?thesis unfolding receipt_extend(1) [of b sig] .
qed

text \<open>\<open>receipt_describes\<close>: the receipt commits to the delivered envelope and to the input.\<close>

definition receipt_describes :: "crypto \<Rightarrow> glyph_card \<Rightarrow> jsval \<Rightarrow> sealed_envelope \<Rightarrow> call_receipt \<Rightarrow> bool" where
  "receipt_describes C gcard data e r \<longleftrightarrow>
     canonicalHash C data = Some (cr_inputHash r) \<and>
     canonicalHash C (se_payload e) = Some (cr_outputHash r) \<and>
     (\<exists>insp. se_inspection e = Some insp \<and> canonicalHash C (sanitization_json insp) = Some (cr_inspectionHash r)) \<and>
     cr_callId r = se_callId e \<and> cr_glyphId r = se_glyphId e \<and> se_glyphId e = gc_id gcard \<and>
     cr_glyphName r = gc_name gcard \<and> cr_riskTier r = co_riskTier (gc_cost gcard) \<and>
     cr_provider r = gc_provider gcard \<and> cr_latencyMs r = se_latencyMs e"

lemma seal_step_Inr:
  assumes "seal_step cfg env g cid data out s = (Inr e, s')"
  shows "\<exists>r. se_receipt e = Some r \<and> se_payload e = fst (sanitize (sc_nfkc cfg) out) \<and>
    se_inspection e = Some (snd (sanitize (sc_nfkc cfg) out)) \<and>
    receipt_describes (sc_crypto cfg) (gd_card g) data e r \<and>
    cr_serverPublicKey r = sg_publicKey (sc_signer cfg) \<and>
    cr_clientCallId r = (if js_truthy cid then Some cid else None) \<and>
    cr_receiptVersion r = RECEIPT_VERSION \<and>
    (honest_signer (sc_crypto cfg) (sc_signer cfg) \<longrightarrow> verifyReceipt (sc_crypto cfg) r) \<and>
    sv_trace s' = sv_trace s @ (if sc_onCall cfg then [Audit_Hook r] else []) \<and> sv_dedupe s' = sv_dedupe s"
proof -
  obtain clean insp where sz: "sanitize (sc_nfkc cfg) out = (clean, insp)" by fastforce
  from assms obtain ih oh nh sig where
    h: "canonicalHash (sc_crypto cfg) data = Some ih" "canonicalHash (sc_crypto cfg) clean = Some oh"
      "canonicalHash (sc_crypto cfg) (sanitization_json insp) = Some nh"
      "sg_signReceipt (sc_signer cfg) (receipt_of cfg env g cid ih oh nh) = Some sig"
    and a: "audit_hook cfg (receipt_base.extend (receipt_of cfg env g cid ih oh nh) (call_receipt.fields sig)) s
       = (Inr (), s')"
    and e: "e = (sealResult (en_callId env) (en_envelopeTime env) (gc_id (gd_card g)) (en_callId env) clean
                   (en_latencyMs env) (gc_provider (gd_card g)) (Some insp))
              \<lparr>se_receipt := Some (receipt_base.extend (receipt_of cfg env g cid ih oh nh) (call_receipt.fields sig))\<rparr>"
    unfolding seal_step_def by (auto simp: sz and_then_Inr step_inv)
  let ?b = "receipt_of cfg env g cid ih oh nh"
  let ?r = "receipt_base.extend ?b (call_receipt.fields sig)"
  have "verifyReceipt (sc_crypto cfg) ?r" if "honest_signer (sc_crypto cfg) (sc_signer cfg)"
    using that _ h(4) by (rule honest_receipt) (simp add: receipt_of_def)
  moreover have "sv_trace s' = sv_trace s @ (if sc_onCall cfg then [Audit_Hook ?r] else [])" "sv_dedupe s' = sv_dedupe s"
    using a by (auto simp: audit_hook_def log_event_def return_def split: if_splits)
  ultimately show ?thesis using h
    by (intro exI [of _ ?r])
       (simp add: e sz receipt_describes_def sealResult_def receipt_of_def receipt_base.defs call_receipt.defs)
qed

lemma execute_call_Sealed:
  assumes "execute_call cfg env name g cid data key s = (Inr rep, s')"
  shows "\<exists>v out e s1 s2. rep = Sealed e \<and> gd_handler g data = Handler_Returns v \<and> gd_outputSchema g v = Inr out \<and>
    seal_step cfg env g cid data out s1 = (Inr e, s2) \<and> s1 = s\<lparr>sv_trace := sv_trace s @ [Handler_Ran name data]\<rparr> \<and>
    record_response (en_putNow env) key e s2 = (Inr (), s')"
proof -
  from assms obtain v out e s1 s2 where
    x: "run_handler cfg name g data s = (Inr v, s1)" "gd_outputSchema g v = Inr out"
      "seal_step cfg env g cid data out s1 = (Inr e, s2)" "record_response (en_putNow env) key e s2 = (Inr (), s')"
      "rep = Sealed e"
    unfolding execute_call_def by (auto simp: and_then_Inr step_inv)
  from x(1) have "gd_handler g data = Handler_Returns v" "s1 = s\<lparr>sv_trace := sv_trace s @ [Handler_Ran name data]\<rparr>"
    by (auto simp: run_handler_def and_then_Inr log_event_def return_def throw_def split: handler_result.splits)
  with x show ?thesis by blast
qed

lemma server_call_Sealed:
  assumes "server_call cfg env name raw caller s = (Inr (Sealed e), s')"
  shows "\<exists>g cid data key s0 v out s1 s2.
    call_gates cfg env name raw caller s = (Inr (Admitted g cid data key), s0) \<and>
    gd_handler g data = Handler_Returns v \<and> gd_outputSchema g v = Inr out \<and>
    s1 = s0\<lparr>sv_trace := sv_trace s0 @ [Handler_Ran name data]\<rparr> \<and>
    seal_step cfg env g cid data out s1 = (Inr e, s2) \<and> record_response (en_putNow env) key e s2 = (Inr (), s')"
proof -
  from assms obtain q s0 where q: "call_gates cfg env name raw caller s = (Inr q, s0)"
    "(case q of Cached text \<Rightarrow> return (Replayed text)
      | Admitted g cid data key \<Rightarrow> execute_call cfg env name g cid data key) s0 = (Inr (Sealed e), s')"
    unfolding server_call_def by (auto simp: and_then_Inr)
  then obtain g cid data key where a: "q = Admitted g cid data key"
    "execute_call cfg env name g cid data key s0 = (Inr (Sealed e), s')"
    by (cases q) (auto simp: return_def)
  from execute_call_Sealed [OF a(2)] q(1) a(1) show ?thesis by fastforce
qed

text \<open>
  C6. Every sealed response carries a receipt that verifies against the server's key and commits
  to exactly what happened: the validated input, the sanitised payload and inspection report
  the envelope delivers, the card, its risk tier and provider, the call and its latency. The
  payload is the sanitised form of what the handler returned and the output schema accepted.
\<close>

theorem sealed_receipt:
  assumes "honest_signer (sc_crypto cfg) (sc_signer cfg)"
    and "server_call cfg env name raw caller s = (Inr (Sealed e), s')"
  shows "\<exists>g body data v out r. call_admitted cfg env name raw caller s g body data \<and>
    gd_handler g data = Handler_Returns v \<and> gd_outputSchema g v = Inr out \<and>
    se_payload e = fst (sanitize (sc_nfkc cfg) out) \<and>
    se_inspection e = Some (snd (sanitize (sc_nfkc cfg) out)) \<and>
    se_receipt e = Some r \<and> verifyReceipt (sc_crypto cfg) r \<and>
    cr_serverPublicKey r = sg_publicKey (sc_signer cfg) \<and>
    receipt_describes (sc_crypto cfg) (gd_card g) data e r"
proof -
  from server_call_Sealed [OF assms(2)] obtain g cid data key s0 v out s1 s2 where
    x: "call_gates cfg env name raw caller s = (Inr (Admitted g cid data key), s0)"
      "gd_handler g data = Handler_Returns v" "gd_outputSchema g v = Inr out"
      "seal_step cfg env g cid data out s1 = (Inr e, s2)" by blast
  from call_gates_Admitted [OF x(1)] obtain body where "call_admitted cfg env name raw caller s g body data" by blast
  with seal_step_Inr [OF x(4)] x(2,3) assms(1) show ?thesis by blast
qed

text \<open>
  A handler whose accepted output is \<open>undefined\<close> (a void action) runs, but the caller is told
  500: hashing the payload throws after the side effect, and no receipt is issued.
\<close>

theorem undefined_output_fails_late:
  assumes "call_gates cfg env name raw caller s = (Inr (Admitted g cid data key), s1)"
    and "gd_handler g data = Handler_Returns v" and "gd_outputSchema g v = Inr JUndef" and "data \<noteq> JUndef"
  shows "fst (server_call cfg env name raw caller s) = Inl internal_error \<and>
    sv_trace (snd (server_call cfg env name raw caller s)) = sv_trace s1 @ [Handler_Ran name data]"
  using assms
  by (simp add: server_call_def and_then_case execute_call_def run_handler_def log_event_def return_def
      check_output_def seal_step_def sanitize_def hash_of_def throw_def canonicalHash_Some)

section \<open>Idempotent replay\<close>

lemma call_gates_dedupe:
  assumes "call_gates cfg env name raw caller s = (Inr (Admitted g cid' data key), s0)"
    and "sv_dedupe s = Some (ttl, m)" and "readJson (sc_maxBodyBytes cfg) raw = Inr body"
    and "js_member body (js ''callId'') = Some cid" and "js_truthy cid"
  shows "\<exists>h. cid' = cid \<and> map_of (sv_glyphs s) name = Some g \<and>
    gd_inputSchema g (js_member_opt body (js ''input'')) = Inr data \<and>
    missingScopes (gc_requiredScopes (gd_card g)) caller = [] \<and> canonicalHash (sc_crypto cfg) data = Some h \<and>
    key = Some (name @ js '':'' @ js_to_string cid @ js '':'' @ h) \<and>
    sv_dedupe s0 = Some (ttl, snd (dedupe_get (en_getNow env) (the key) m))"
proof -
  from assms obtain h cached s1 where
    g: "cid' = cid" "map_of (sv_glyphs s) name = Some g" "gd_inputSchema g (js_member_opt body (js ''input'')) = Inr data"
      "missingScopes (gc_requiredScopes (gd_card g)) caller = []" "canonicalHash (sc_crypto cfg) data = Some h"
      "key = Some (name @ js '':'' @ js_to_string cid @ js '':'' @ h)"
    and d: "dedupe_lookup (en_getNow env) key s = (Inr cached, s1)"
    and c: "confirmation_gate cfg name g (js_member_opt body (js ''confirmationToken'')) data (en_gateNow env) s1
      = (Inr (), s0)"
    unfolding call_gates_def by (auto simp: and_then_Inr step_inv split: if_splits)
  have "sv_dedupe s1 = Some (ttl, snd (dedupe_get (en_getNow env) (the key) m))"
    using d g(6) assms(2) by (auto simp: dedupe_lookup_def split: prod.splits)
  then have "sv_dedupe s0 = Some (ttl, snd (dedupe_get (en_getNow env) (the key) m))"
    using c by (auto simp: confirmation_gate_inv split: if_splits)
  with g show ?thesis by blast
qed

lemma server_call_glyphs:
  assumes "server_call cfg env name raw caller s = (r, s')"
  shows "sv_glyphs s' = sv_glyphs s" and "sv_manifests s' = sv_manifests s"
proof -
  obtain q s1 where q: "call_gates cfg env name raw caller s = (q, s1)" by fastforce
  have k: "sv_glyphs s1 = sv_glyphs s" "sv_manifests s1 = sv_manifests s"
    using quiet_call_gates [of cfg env name raw caller] q unfolding quiet_def by (metis snd_conv)+
  show "sv_glyphs s' = sv_glyphs s" "sv_manifests s' = sv_manifests s"
    using assms q k execute_call_trace [of cfg env name _ _ _ _ s1]
    by (auto simp: server_call_def and_then_case return_def split: sum.splits gate_result.splits) (metis snd_conv)+
qed

text \<open>
  With deduplication on, a retry is replayed, not executed: after a sealed response to a
  request with a call id, the same request within the recording's lifetime returns the
  recorded text and runs nothing, even though its confirmation ticket is spent.
\<close>

theorem dedupe_replays:
  assumes "server_call cfg env name raw caller s = (Inr (Sealed e), s1)"
    and "sv_dedupe s = Some (ttl, m)" and "omap_wf m"
    and "readJson (sc_maxBodyBytes cfg) raw = Inr body" and "js_member body (js ''callId'') = Some cid"
    and "js_truthy cid" and "en_getNow env' < en_putNow env + ttl"
  shows "\<exists>s2. server_call cfg env' name raw caller s1 = (Inr (Replayed (ser (envelope_json e))), s2) \<and>
    sv_trace s2 = sv_trace s1"
proof -
  from server_call_Sealed [OF assms(1)] obtain g cid' data key s0 v out t1 t2 where
    x: "call_gates cfg env name raw caller s = (Inr (Admitted g cid' data key), s0)"
      "t1 = s0\<lparr>sv_trace := sv_trace s0 @ [Handler_Ran name data]\<rparr>"
      "seal_step cfg env g cid' data out t1 = (Inr e, t2)" "record_response (en_putNow env) key e t2 = (Inr (), s1)"
    by blast
  from call_gates_dedupe [OF x(1) assms(2,4,5,6)] obtain h where
    c: "cid' = cid" "map_of (sv_glyphs s) name = Some g"
      "gd_inputSchema g (js_member_opt body (js ''input'')) = Inr data"
      "missingScopes (gc_requiredScopes (gd_card g)) caller = []" "canonicalHash (sc_crypto cfg) data = Some h"
      "key = Some (name @ js '':'' @ js_to_string cid @ js '':'' @ h)"
      "sv_dedupe s0 = Some (ttl, snd (dedupe_get (en_getNow env) (the key) m))"
    by blast
  let ?m0 = "snd (dedupe_get (en_getNow env) (the key) m)"
  have w: "omap_wf ?m0" using assms(3) by (rule mem_dedupe.wf_get)
  have "sv_dedupe t2 = Some (ttl, ?m0)" using seal_step_Inr [OF x(3)] x(2) c(7) by auto
  then have d: "sv_dedupe s1 = Some (ttl, dedupe_put (en_putNow env) (the key) (ser (envelope_json e)) ttl ?m0)"
    using x(4) c(6) by (auto simp: record_response_def)
  have g1: "sv_glyphs s1 = sv_glyphs s" by (rule server_call_glyphs [OF assms(1)])
  have "fst (dedupe_get (en_getNow env') (the key) (dedupe_put (en_putNow env) (the key) (ser (envelope_json e)) ttl ?m0))
      = Some (ser (envelope_json e))"
    using mem_dedupe.put_get [OF w assms(7)] .
  then obtain m' where l: "dedupe_get (en_getNow env') (the key)
      (dedupe_put (en_putNow env) (the key) (ser (envelope_json e)) ttl ?m0) = (Some (ser (envelope_json e)), m')"
    by (metis prod.collapse)
  have ne: "ser (envelope_json e) \<noteq> []" by (simp add: envelope_json_def)
  have "call_gates cfg env' name raw caller s1
      = (Inr (Cached (ser (envelope_json e))), s1\<lparr>sv_dedupe := Some (ttl, m')\<rparr>)"
    using c assms(4-6) d g1 l ne
    by (simp add: call_gates_def and_then_case find_glyph_def read_body_def lift_result_def body_member_def
        check_input_def scope_gate_def return_def dedupe_key_def hash_of_def dedupe_lookup_def)
  then show ?thesis by (simp add: server_call_def and_then_case return_def)
qed

text \<open>
  The key of a recorded response joins glyph name and call id with a colon and escapes
  neither, so two different requests can share it: a glyph named \<open>a:b\<close> called with id \<open>c\<close> and a
  glyph \<open>a\<close> called with id \<open>b:c\<close> on the same input.
\<close>

theorem dedupe_key_ambiguous:
  "fst (dedupe_key cfg (js ''a'') (jlit ''b:c'') data s) = fst (dedupe_key cfg (js ''a:b'') (jlit ''c'') data s)"
proof -
  have "js ''a'' @ js '':'' @ js ''b:c'' @ js '':'' @ h = js ''a:b'' @ js '':'' @ js ''c'' @ js '':'' @ h" for h
    by (simp add: js_def)
  then show ?thesis
    by (cases "canonicalHash (sc_crypto cfg) data") (auto simp: dedupe_key_def and_then_case hash_of_def return_def throw_def)
qed

end
