(* ===== verification/Server_Invariant.thy ===== *)
theory Server_Invariant
  imports Server_Properties
begin

text \<open>
  The server as a transition system over registrations and requests, the invariant of its
  reachable states, the limit on pending confirmations with and without interleaving, and the
  concrete runs that show the properties of \<open>Server_Properties\<close> are not vacuous.
\<close>

section \<open>Requests that fail\<close>

lemma and_then_Inl:
  "and_then m f s = (Inl e, s'') \<longleftrightarrow>
     m s = (Inl e, s'') \<or> (\<exists>a s'. m s = (Inr a, s') \<and> f a s' = (Inl e, s''))"
  by (auto simp: and_then_def split: prod.splits sum.splits)

named_theorems step_err \<open>a step that fails leaves the state alone\<close>

lemma basic_err [step_err]:
  "find_glyph name s = (Inl e, s') \<Longrightarrow> s' = s"
  "read_body cfg raw s = (Inl e, s') \<Longrightarrow> s' = s"
  "body_member v k s = (Inl e, s') \<Longrightarrow> s' = s"
  "check_input g v s = (Inl e, s') \<Longrightarrow> s' = s"
  "check_output g v s = (Inl e, s') \<Longrightarrow> s' = s"
  "scope_gate name g caller s = (Inl e, s') \<Longrightarrow> s' = s"
  "hash_of cfg v s = (Inl e, s') \<Longrightarrow> s' = s"
  "sign_receipt cfg b s = (Inl e, s') \<Longrightarrow> s' = s"
  "audit_hook cfg r s = (Inl e, s') \<Longrightarrow> s' = s"
  "return a s = (Inl e, s') \<Longrightarrow> s' = s"
  by (auto simp: find_glyph_def read_body_def lift_result_def body_member_def check_input_def check_output_def
      scope_gate_def hash_of_def sign_receipt_def audit_hook_def log_event_def throw_def return_def Let_def
      split: option.splits sum.splits if_splits)

lemma seal_step_Inl: "seal_step cfg env g cid data out s = (Inl e, s') \<Longrightarrow> s' = s"
  by (cases "sanitize (sc_nfkc cfg) out")
     (auto simp: seal_step_def and_then_Inl step_inv audit_hook_def return_def log_event_def dest!: step_err
        split: if_splits)

lemma record_response_ok: "record_response now key e s \<noteq> (Inl x, s')"
  by (auto simp: record_response_def split: option.splits)

lemma execute_call_Inl:
  "execute_call cfg env name g cid data key s = (Inl e, s') \<Longrightarrow>
     sv_trace s' = sv_trace s @ [Handler_Ran name data]"
  by (auto simp: execute_call_def and_then_Inl step_inv run_handler_def and_then_Inr return_def throw_def
      record_response_ok dest!: step_err seal_step_Inl split: handler_result.splits)

lemma prepare_Inl:
  assumes "server_prepare cfg token now name raw caller s = (Inl e, s')"
  shows "s' = s \<or> s' = s\<lparr>sv_confirmations := snd (confirmation_sweep now (sv_confirmations s))\<rparr>"
proof -
  have room: "prepare_room cfg now s = (r, s1) \<Longrightarrow>
      s1 = s\<lparr>sv_confirmations := snd (confirmation_sweep now (sv_confirmations s))\<rparr>" for r s1
    by (auto simp: prepare_room_def Let_def split: prod.splits if_splits)
  have ok: "put_ticket token name g data now h s2 \<noteq> (Inl e, s')" for g data h s2
    by (simp add: put_ticket_def)
  show ?thesis
    using assms unfolding server_prepare_def
    by (auto simp: and_then_Inl step_inv ok dest!: step_err room)
qed

lemma server_call_audit:
  assumes "honest_signer (sc_crypto cfg) (sc_signer cfg)" and "server_call cfg env name raw caller s = (r, s')"
    and "Audit_Hook q \<in> set (sv_trace s')"
  shows "Audit_Hook q \<in> set (sv_trace s) \<or> verifyReceipt (sc_crypto cfg) q"
proof -
  obtain w s1 where w: "call_gates cfg env name raw caller s = (w, s1)" by fastforce
  have t: "sv_trace s1 = sv_trace s" by (rule quiet_call_gates_trace [OF w])
  show ?thesis
  proof (cases "\<exists>g cid data key. w = Inr (Admitted g cid data key)")
    case False
    then have "sv_trace s' = sv_trace s"
      using assms(2) w t by (auto simp: server_call_def and_then_case return_def split: sum.splits gate_result.splits)
    with assms(3) show ?thesis by simp
  next
    case True
    then obtain g cid data key where a: "w = Inr (Admitted g cid data key)" by blast
    then have x: "execute_call cfg env name g cid data key s1 = (r, s')"
      using assms(2) w by (simp add: server_call_def and_then_case)
    show ?thesis
    proof (cases r)
      case (Inl e)
      with execute_call_Inl x t assms(3) show ?thesis by fastforce
    next
      case (Inr rep)
      from execute_call_Sealed [of cfg env name g cid data key s1 rep s'] x Inr obtain out e t1 t2 where
        y: "seal_step cfg env g cid data out t1 = (Inr e, t2)" "sv_trace t1 = sv_trace s1 @ [Handler_Ran name data]"
          "record_response (en_putNow env) key e t2 = (Inr (), s')" by auto
      have "sv_trace s' = sv_trace t2"
        using record_response_quiet [of "en_putNow env" key e] y(3) unfolding quiet_def by (metis snd_conv)
      with seal_step_Inr [OF y(1)] y(2) t assms show ?thesis by (auto split: if_splits)
    qed
  qed
qed

section \<open>Pending confirmations only shrink during a call\<close>

definition shrinks :: "'a handler_step \<Rightarrow> bool" where
  "shrinks m \<longleftrightarrow> (\<forall>s. omap_wf (sv_confirmations s) \<longrightarrow> omap_wf (sv_confirmations (snd (m s))) \<and>
     length (sv_confirmations (snd (m s))) \<le> length (sv_confirmations s))"

lemma shrinks_and_then:
  assumes "shrinks m" "\<And>a. shrinks (f a)"
  shows "shrinks (and_then m f)"
  unfolding shrinks_def
proof (intro allI impI)
  fix s :: server_state assume wf: "omap_wf (sv_confirmations s)"
  obtain r s1 where m: "m s = (r, s1)" by fastforce
  have one: "omap_wf (sv_confirmations s1)" "length (sv_confirmations s1) \<le> length (sv_confirmations s)"
    using assms(1) wf m unfolding shrinks_def by (metis snd_conv)+
  show "omap_wf (sv_confirmations (snd (and_then m f s))) \<and>
      length (sv_confirmations (snd (and_then m f s))) \<le> length (sv_confirmations s)"
  proof (cases r)
    case (Inl e)
    with one m show ?thesis by (simp add: and_then_case)
  next
    case (Inr a)
    have "omap_wf (sv_confirmations (snd (f a s1)))"
      "length (sv_confirmations (snd (f a s1))) \<le> length (sv_confirmations s1)"
      using assms(2) [of a] one(1) unfolding shrinks_def by blast+
    with one(2) m Inr show ?thesis by (simp add: and_then_case)
  qed
qed

lemma shrinks_same: "(\<And>s. sv_confirmations (snd (m s)) = sv_confirmations s) \<Longrightarrow> shrinks m"
  by (simp add: shrinks_def)

lemma shrinks_basic:
  "shrinks (return a)" "shrinks (throw e)" "shrinks (find_glyph name)" "shrinks (read_body cfg raw)"
  "shrinks (body_member v k)" "shrinks (hash_of cfg v)" "shrinks (check_input g v)"
  "shrinks (scope_gate name g caller)" "shrinks (dedupe_lookup now key)"
  by (rule shrinks_same, auto simp: return_def throw_def find_glyph_def read_body_def lift_result_def
      body_member_def hash_of_def check_input_def scope_gate_def dedupe_lookup_def Let_def
      split: option.splits sum.splits prod.splits)+

lemma shrinks_dedupe_key: "shrinks (dedupe_key cfg name cid data)"
  by (rule shrinks_same) (auto simp: dedupe_key_def and_then_case hash_of_def return_def throw_def
      split: option.splits sum.splits prod.splits)

lemma shrinks_consume: "shrinks (consume_token token)"
  by (auto simp: shrinks_def consume_token_def confirmation_consume_def omap_wf_delete omap_delete_def
      omap_wf_filter split: jsval.splits option.splits)

lemma shrinks_gate: "shrinks (confirmation_gate cfg name g token data now)"
  unfolding confirmation_gate_def ticket_matches_def
  by (auto intro!: shrinks_and_then shrinks_basic shrinks_consume split: option.splits)

lemma shrinks_call_gates: "shrinks (call_gates cfg env name raw caller)"
  unfolding call_gates_def
  by (auto intro!: shrinks_and_then shrinks_basic shrinks_dedupe_key shrinks_gate)

lemma shrinks_call: "shrinks (server_call cfg env name raw caller)"
  unfolding server_call_def
proof (rule shrinks_and_then [OF shrinks_call_gates])
  fix q
  show "shrinks (case q of Cached text \<Rightarrow> return (Replayed text)
      | Admitted g cid data key \<Rightarrow> execute_call cfg env name g cid data key)"
    using execute_call_trace [of cfg env name]
    by (cases q) (simp_all add: shrinks_basic, meson shrinks_same)
qed

section \<open>Reachable states\<close>

inductive server_reach :: "server_config \<Rightarrow> server_state \<Rightarrow> bool" for cfg where
  start: "server_reach cfg (initial_server ttl)"
| register: "server_reach cfg s \<Longrightarrow> gc_id (gd_card g) = computeGlyphId (sc_crypto cfg) (gd_card g) \<Longrightarrow>
    server_register cfg g s = (r, s') \<Longrightarrow> server_reach cfg s'"
| manifest: "server_reach cfg s \<Longrightarrow> server_registerManifest cfg now name spec s = (r, s') \<Longrightarrow> server_reach cfg s'"
| prepare: "server_reach cfg s \<Longrightarrow> server_prepare cfg token now name raw caller s = (q, s') \<Longrightarrow> server_reach cfg s'"
| call: "server_reach cfg s \<Longrightarrow> server_call cfg env name raw caller s = (p, s') \<Longrightarrow> server_reach cfg s'"

definition server_inv :: "server_config \<Rightarrow> server_state \<Rightarrow> bool" where
  "server_inv cfg s \<longleftrightarrow>
     omap_wf (sv_confirmations s) \<and> length (sv_confirmations s) \<le> sc_maxPending cfg \<and>
     (\<forall>n g. map_of (sv_glyphs s) n = Some g \<longrightarrow>
        gc_name (gd_card g) = n \<and> gc_publicKey (gd_card g) = Some (sg_publicKey (sc_signer cfg)) \<and>
        verifyGlyph (sc_crypto cfg) (gd_card g)) \<and>
     (\<forall>n m. map_of (sv_manifests s) n = Some m \<longrightarrow>
        um_toolName m = n \<and> verifyManifest (sc_crypto cfg) m \<and>
        (\<exists>g. map_of (sv_glyphs s) n = Some g \<and> um_newCardId m = gc_id (gd_card g))) \<and>
     (\<forall>r. Audit_Hook r \<in> set (sv_trace s) \<longrightarrow> verifyReceipt (sc_crypto cfg) r)"

lemma manifest_extend:
  "manifest_base.extend b (update_manifest.fields sig)
     = (manifest_base.extend b (update_manifest.fields []))\<lparr>um_signature := sig\<rparr>"
  "manifest_base.truncate (manifest_base.extend b x) = b"
  "um_serverPublicKey (manifest_base.extend b x) = um_serverPublicKey b"
  "um_toolName (manifest_base.extend b x) = um_toolName b"
  "um_newCardId (manifest_base.extend b x) = um_newCardId b"
  by (simp_all add: manifest_base.defs update_manifest.defs)

lemma honest_manifest:
  assumes "honest_signer C sg" "um_serverPublicKey b = sg_publicKey sg" "sg_signManifest sg b = Some sig"
  shows "verifyManifest C (manifest_base.extend b (update_manifest.fields sig))"
proof -
  let ?m = "manifest_base.extend b (update_manifest.fields [])"
  have "um_serverPublicKey ?m = sg_publicKey sg" using assms(2) by (simp add: manifest_extend(3))
  then obtain sig' where "sg_signManifest sg (manifest_base.truncate ?m) = Some sig'"
    "verifyManifest C (?m\<lparr>um_signature := sig'\<rparr>)" using assms(1) unfolding honest_signer_def by blast
  then have "verifyManifest C (?m\<lparr>um_signature := sig\<rparr>)" using assms(3) by (simp add: manifest_extend(2))
  then show ?thesis unfolding manifest_extend(1) [of b sig] .
qed

lemma inv_register:
  assumes h: "honest_signer (sc_crypto cfg) (sc_signer cfg)" and inv: "server_inv cfg s"
    and id: "gc_id (gd_card g) = computeGlyphId (sc_crypto cfg) (gd_card g)"
    and step: "server_register cfg g s = (r, s')"
  shows "server_inv cfg s'"
proof -
  let ?n = "gc_name (gd_card g)"
  show ?thesis
  proof (cases "map_of (sv_glyphs s) ?n = None \<and> sg_signGlyph (sc_signer cfg) (gd_card g) \<noteq> None")
    case False
    then have "s' = s" using step by (auto simp: server_register_def Let_def split: option.splits if_splits)
    with inv show ?thesis by simp
  next
    case True
    then obtain sig where sig: "sg_signGlyph (sc_signer cfg) (gd_card g) = Some sig" by blast
    let ?c = "(gd_card g)\<lparr>gc_publicKey := Some (sg_publicKey (sc_signer cfg)), gc_signature := Some sig\<rparr>"
    have s': "s' = s\<lparr>sv_glyphs := omap_set ?n (g\<lparr>gd_card := ?c\<rparr>) (sv_glyphs s)\<rparr>"
      using step True sig by (simp add: server_register_def Let_def)
    have "verifyGlyph (sc_crypto cfg) ?c" using h id sig unfolding honest_signer_def by (metis option.sel)
    moreover have "map_of (sv_manifests s) ?n = None"
      using inv True unfolding server_inv_def by (metis not_None_eq)
    ultimately show ?thesis using inv by (auto simp: s' server_inv_def store_laws)
  qed
qed

lemma inv_manifest:
  assumes "honest_signer (sc_crypto cfg) (sc_signer cfg)" "server_inv cfg s"
    and "server_registerManifest cfg now name spec s = (r, s')"
  shows "server_inv cfg s'"
proof (cases "s' = s")
  case False
  then obtain g sig b where
    b: "map_of (sv_glyphs s) name = Some g" "sg_signManifest (sc_signer cfg) b = Some sig"
      "um_serverPublicKey b = sg_publicKey (sc_signer cfg)" "um_toolName b = name" "um_newCardId b = gc_id (gd_card g)"
      "s' = s\<lparr>sv_manifests := omap_set name (manifest_base.extend b (update_manifest.fields sig)) (sv_manifests s)\<rparr>"
    using assms(3) by (auto simp: server_registerManifest_def Let_def split: option.splits)
  then show ?thesis using assms(2) honest_manifest [OF assms(1) b(3,2)]
    by (auto simp: server_inv_def store_laws manifest_extend(4,5))
qed (use assms in simp)

lemma inv_prepare:
  assumes inv: "server_inv cfg s" and step: "server_prepare cfg token now name raw caller s = (q, s')"
  shows "server_inv cfg s'"
proof -
  have w: "omap_wf (sv_confirmations s)" using inv by (simp add: server_inv_def)
  have same: "sv_trace s' = sv_trace s" "sv_glyphs s' = sv_glyphs s" "sv_manifests s' = sv_manifests s"
    using quiet_prepare [of cfg token now name raw caller] step unfolding quiet_def by (metis snd_conv)+
  have sweep: "length (snd (confirmation_sweep now (sv_confirmations s))) \<le> length (sv_confirmations s)"
    "length (snd (confirmation_sweep now (sv_confirmations s)))
       = bl_size (fst (confirmation_sweep now (sv_confirmations s)))"
    by (simp_all add: confirmation_sweep_def Let_def)
  have "omap_wf (sv_confirmations s') \<and> length (sv_confirmations s') \<le> sc_maxPending cfg"
  proof (cases q)
    case (Inl e)
    with prepare_Inl [of cfg token now name raw caller s e s'] step inv sweep mem_confirmations.wf_sweep [OF w]
    show ?thesis by (auto simp: server_inv_def)
  next
    case (Inr ticket)
    from prepare_Inr [of cfg token now name raw caller s ticket s'] step Inr obtain p where
      p: "bl_size (fst (confirmation_sweep now (sv_confirmations s))) < sc_maxPending cfg"
        "sv_confirmations s' = confirmation_put token p (snd (confirmation_sweep now (sv_confirmations s)))" by auto
    then show ?thesis using sweep mem_confirmations.wf_put [OF mem_confirmations.wf_sweep [OF w]]
      by (simp add: confirmation_put_def length_omap_set)
  qed
  with inv same show ?thesis by (simp add: server_inv_def)
qed

lemma inv_call:
  assumes "honest_signer (sc_crypto cfg) (sc_signer cfg)" "server_inv cfg s"
    and "server_call cfg env name raw caller s = (p, s')"
  shows "server_inv cfg s'"
proof -
  have w: "omap_wf (sv_confirmations s)" "length (sv_confirmations s) \<le> sc_maxPending cfg"
    using assms(2) by (simp_all add: server_inv_def)
  have "snd (server_call cfg env name raw caller s) = s'" using assms(3) by simp
  then have "omap_wf (sv_confirmations s')" "length (sv_confirmations s') \<le> length (sv_confirmations s)"
    using shrinks_call [of cfg env name raw caller] w(1) unfolding shrinks_def by blast+
  moreover have "verifyReceipt (sc_crypto cfg) q" if "Audit_Hook q \<in> set (sv_trace s')" for q
    using server_call_audit [OF assms(1,3) that] assms(2) by (auto simp: server_inv_def)
  ultimately show ?thesis
    using assms(2) w(2) server_call_glyphs [OF assms(3)] by (simp add: server_inv_def)
qed


text \<open>
  The limit on pending confirmations is not a hard cap: the sweep that counts and the put
  that stores are separate awaits, and when two concurrent requests both pass the check before
  the first of them puts its ticket, two tickets are pending under a limit of one.
\<close>

theorem pending_limit_raced:
  assumes "sc_maxPending cfg = 1" and "sv_confirmations s = []" and "t1 \<noteq> t2"
    and "prepare_room cfg now s = (x, s1)" and "prepare_room cfg now s1 = (y, s2)"
    and "put_ticket t1 name g data now h s2 = (a, s3)" and "put_ticket t2 name g data now h s3 = (b, s4)"
  shows "x = Inr () \<and> y = Inr () \<and> length (sv_confirmations s4) = 2"
  using assms
  by (auto simp: prepare_room_def put_ticket_def confirmation_sweep_def confirmation_put_def Let_def)

section \<open>A concrete server\<close>

definition toy_glyph :: glyph_definition where
  "toy_glyph = \<lparr>gd_card = sample_card, gd_inputSchema = Inr, gd_outputSchema = Inr,
     gd_handler = (\<lambda>_. Handler_Returns (JNum 1))\<rparr>"

definition toy_config :: server_config where
  "toy_config = \<lparr>sc_crypto = toy_crypto, sc_nfkc = id,
     sc_signer = ed25519_signer toy_crypto (js ''k'', js ''k''), sc_callTimeoutMs = 30000, sc_onCall = True,
     sc_maxPending = 1, sc_maxBodyBytes = 1000\<rparr>"

definition toy_raw :: raw_body where
  "toy_raw = \<lparr>rb_contentLength = None, rb_bytes = 48,
     rb_text = js ''{\"input\":7,\"confirmationToken\":\"t\",\"callId\":\"c\"}''\<rparr>"

definition toy_body :: jsval where
  "toy_body = JObj [(js ''input'', JNum 7), (js ''confirmationToken'', jlit ''t''), (js ''callId'', jlit ''c'')]"

definition toy_env :: call_env where
  "toy_env = \<lparr>en_callId = js ''u'', en_getNow = 10, en_gateNow = 10, en_latencyMs = 2,
     en_receiptTime = js ''now'', en_envelopeTime = js ''now'', en_putNow = 10\<rparr>"

definition toy_server :: "(int \<times> dedupe_entries) option \<Rightarrow> server_state" where
  "toy_server d = \<lparr>sv_glyphs = [(js ''wipe'', toy_glyph)], sv_manifests = [],
     sv_confirmations = [(js ''t'', \<lparr>pc_glyphName = js ''wipe'', pc_inputHash = ser (JNum 7), pc_expiresAt = 100\<rparr>)],
     sv_dedupe = d, sv_trace = []\<rparr>"

lemma toy_read: "readJson (sc_maxBodyBytes toy_config) toy_raw = Inr toy_body"
  by (simp add: readJson_def toy_config_def toy_raw_def toy_body_def json_parse_eval)

lemma toy_members:
  "js_member toy_body (js ''callId'') = Some (jlit ''c'')"
  "js_member_opt toy_body (js ''input'') = JNum 7"
  "js_member_opt toy_body (js ''confirmationToken'') = jlit ''t''"
  "js_member toy_body (js ''input'') = Some (JNum 7)"
  by (simp_all add: toy_body_def js_member_opt_def own_value_def)

lemma toy_hash: "canonicalHash toy_crypto (JNum n) = Some (ser (JNum n))"
  by (simp add: canonicalHash_Some toy_crypto_def)

lemma toy_card_facts:
  "missingScopes (gc_requiredScopes sample_card) c = []" "co_requiresConfirmation (gc_cost sample_card)"
  by (simp_all add: sample_card_def sample_cost_def missingScopes_def)

lemma toy_config_simps [simp]:
  "sc_crypto toy_config = toy_crypto" "sc_nfkc toy_config = id" "sc_onCall toy_config" "sc_maxPending toy_config = 1"
  "sc_signer toy_config = ed25519_signer toy_crypto (js ''k'', js ''k'')"
  by (simp_all add: toy_config_def)

lemma toy_admitted: "call_admitted toy_config toy_env (js ''wipe'') toy_raw None (toy_server d) toy_glyph toy_body (JNum 7)"
  by (simp add: call_admitted_def toy_server_def toy_read toy_members toy_hash toy_env_def)
     (simp add: toy_glyph_def toy_card_facts)

lemma toy_honest: "honest_signer toy_crypto (ed25519_signer toy_crypto (js ''k'', js ''k''))"
  by (rule ed25519.honest) (simp add: toy_key_pair)

lemma toy_sanitize: "sanitize id (JNum n) = (JNum n, \<lparr>sn_modified = False, sn_findings = []\<rparr>)"
  by (simp add: sanitize_def)

lemma toy_sign: "sg_signReceipt (ed25519_signer toy_crypto (js ''k'', js ''k'')) b
    = Some (js ''k'' @ ser (canonicalize (receipt_json b)))"
  by (simp add: ed25519_signer_def signReceipt_def sign_hash_def canonicalHash_Some)
     (simp add: toy_crypto_def)

lemma toy_seal: "\<exists>e s'. seal_step toy_config toy_env toy_glyph cid (JNum 7) (JNum 1) s = (Inr e, s')"
  by (simp add: seal_step_def toy_sanitize and_then_case hash_of_def toy_hash return_def canonicalHash_Some
      sign_receipt_def toy_sign audit_hook_def log_event_def)

lemma toy_execute:
  "\<exists>e s'. execute_call toy_config toy_env (js ''wipe'') toy_glyph cid (JNum 7) key s = (Inr (Sealed e), s') \<and>
     sv_trace s' \<noteq> sv_trace s"
proof -
  let ?s1 = "s\<lparr>sv_trace := sv_trace s @ [Handler_Ran (js ''wipe'') (JNum 7)]\<rparr>"
  obtain e s2 where e: "seal_step toy_config toy_env toy_glyph cid (JNum 7) (JNum 1) ?s1 = (Inr e, s2)"
    using toy_seal by blast
  obtain s3 where r: "record_response (en_putNow toy_env) key e s2 = (Inr (), s3)"
    by (cases "record_response (en_putNow toy_env) key e s2"; cases "fst (record_response (en_putNow toy_env) key e s2)")
       (auto simp: record_response_ok)
  have x: "execute_call toy_config toy_env (js ''wipe'') toy_glyph cid (JNum 7) key s = (Inr (Sealed e), s3)"
    using e r by (simp add: execute_call_def and_then_case run_handler_def log_event_def toy_glyph_def return_def
        check_output_def)
  from execute_call_trace [of toy_config toy_env "js ''wipe''" toy_glyph cid "JNum 7" key s] x
  show ?thesis by fastforce
qed

lemma toy_call:
  "\<exists>e s'. server_call toy_config toy_env (js ''wipe'') toy_raw None (toy_server None) = (Inr (Sealed e), s') \<and>
     sv_trace s' \<noteq> sv_trace (toy_server None)"
proof -
  from gates_admit [OF toy_admitted toy_members(1), of None] obtain s1 where
    g: "call_gates toy_config toy_env (js ''wipe'') toy_raw None (toy_server None)
      = (Inr (Admitted toy_glyph (jlit ''c'') (JNum 7) None), s1)" by (auto simp: toy_server_def)
  then have "sv_trace s1 = sv_trace (toy_server None)" by (rule quiet_call_gates_trace)
  with toy_execute [of "jlit ''c''" None s1] g show ?thesis
    by (auto simp: server_call_def and_then_case)
qed

theorem handler_behind_gates_witness:
  "\<exists>s'. snd (server_call toy_config toy_env (js ''wipe'') toy_raw None (toy_server None)) = s' \<and>
     (\<exists>hooks. sv_trace s' = Handler_Ran (js ''wipe'') (JNum 7) # hooks \<and> hooks_only hooks)"
proof -
  from toy_call obtain e s' where
    c: "server_call toy_config toy_env (js ''wipe'') toy_raw None (toy_server None) = (Inr (Sealed e), s')"
      "sv_trace s' \<noteq> sv_trace (toy_server None)" by blast
  from handler_behind_gates [OF c] c(1) show ?thesis
    by (auto simp: call_admitted_def toy_server_def toy_read toy_members toy_glyph_def)
qed

lemma toy_spends: "spends toy_config toy_raw (js ''t'')"
  by (simp add: spends_def toy_read toy_members)


theorem sealed_receipt_witness:
  "\<exists>e s' r. server_call toy_config toy_env (js ''wipe'') toy_raw None (toy_server None) = (Inr (Sealed e), s') \<and>
     se_receipt e = Some r \<and> verifyReceipt toy_crypto r"
proof -
  from toy_call obtain e s' where
    c: "server_call toy_config toy_env (js ''wipe'') toy_raw None (toy_server None) = (Inr (Sealed e), s')" by blast
  from sealed_receipt [OF _ c] toy_honest c show ?thesis by auto
qed

definition fresh_server :: server_state where
  "fresh_server = (toy_server None)\<lparr>sv_confirmations := []\<rparr>"

lemma toy_prepare:
  "\<exists>ticket s'. server_prepare toy_config (js ''t'') 0 (js ''wipe'') toy_raw None fresh_server = (Inr ticket, s')"
  by (simp add: server_prepare_def and_then_case find_glyph_def fresh_server_def toy_server_def read_body_def
      lift_result_def toy_read return_def body_member_def toy_members)
     (simp add: check_input_def toy_glyph_def return_def scope_gate_def toy_card_facts prepare_room_def
        confirmation_sweep_def hash_of_def toy_hash put_ticket_def and_then_case)

theorem prepare_then_call_witness:
  "\<exists>s1 g data s2. call_gates toy_config toy_env (js ''wipe'') toy_raw None s1
     = (Inr (Admitted g (jlit ''c'') data None), s2)"
proof -
  from toy_prepare obtain ticket s' where
    p: "server_prepare toy_config (js ''t'') 0 (js ''wipe'') toy_raw None fresh_server = (Inr ticket, s')" by blast
  have t: "en_gateNow toy_env < 0 + CONFIRMATION_TTL_MS" by (simp add: toy_env_def CONFIRMATION_TTL_MS_def)
  have f: "omap_wf (sv_confirmations fresh_server)" "sv_dedupe fresh_server = None"
    by (simp_all add: fresh_server_def toy_server_def)
  from prepare_then_call [OF p _ toy_read toy_read refl toy_members(3,1) t f] show ?thesis by auto
qed

theorem undefined_output_fails_late_witness:
  "\<exists>s g. fst (server_call toy_config toy_env (js ''wipe'') toy_raw None s) = Inl internal_error \<and>
     sv_trace (snd (server_call toy_config toy_env (js ''wipe'') toy_raw None s)) = [g]"
proof -
  let ?g = "toy_glyph\<lparr>gd_handler := (\<lambda>_. Handler_Returns JUndef)\<rparr>"
  let ?s = "(toy_server None)\<lparr>sv_glyphs := [(js ''wipe'', ?g)]\<rparr>"
  have "call_admitted toy_config toy_env (js ''wipe'') toy_raw None ?s ?g toy_body (JNum 7)"
    by (simp add: call_admitted_def toy_server_def toy_read toy_members toy_hash toy_env_def)
       (simp add: toy_glyph_def toy_card_facts)
  from gates_admit [OF this toy_members(1)] obtain s1 where
    g: "call_gates toy_config toy_env (js ''wipe'') toy_raw None ?s = (Inr (Admitted ?g (jlit ''c'') (JNum 7) None), s1)"
    by (auto simp: toy_server_def)
  have "sv_trace s1 = []" using quiet_call_gates_trace [OF g] by (simp add: toy_server_def)
  with undefined_output_fails_late [OF g, of JUndef] show ?thesis by (auto simp: toy_glyph_def)
qed

lemma toy_dedupe_call:
  "\<exists>e s'. server_call toy_config toy_env (js ''wipe'') toy_raw None (toy_server (Some (60, []))) = (Inr (Sealed e), s')"
proof -
  let ?s = "toy_server (Some (60, []))"
  let ?key = "Some (js ''wipe'' @ js '':'' @ js ''c'' @ js '':'' @ ser (JNum 7))"
  have k: "dedupe_key toy_config (js ''wipe'') (jlit ''c'') (JNum 7) ?s = (Inr ?key, ?s)"
    by (simp add: dedupe_key_def toy_server_def and_then_case hash_of_def toy_hash return_def)
  have l: "dedupe_lookup (en_getNow toy_env) ?key ?s = (Inr None, ?s)"
    by (simp add: dedupe_lookup_def toy_server_def dedupe_get_def)
  have "\<exists>s1. confirmation_gate toy_config (js ''wipe'') toy_glyph (jlit ''t'') (JNum 7) (en_gateNow toy_env) ?s
      = (Inr (), s1)"
    using toy_admitted [of "Some (60, [])"] by (auto simp: confirmation_gate_inv call_admitted_def toy_members)
  then obtain s1 where c: "confirmation_gate toy_config (js ''wipe'') toy_glyph (jlit ''t'') (JNum 7)
      (en_gateNow toy_env) ?s = (Inr (), s1)" by blast
  have "call_gates toy_config toy_env (js ''wipe'') toy_raw None ?s
      = (Inr (Admitted toy_glyph (jlit ''c'') (JNum 7) ?key), s1)"
    using toy_admitted [of "Some (60, [])"] k l c toy_members unfolding call_gates_def call_admitted_def
    by (simp add: and_then_case find_glyph_def read_body_def lift_result_def body_member_def check_input_def
        scope_gate_def return_def toy_read)
  with toy_execute [of "jlit ''c''" ?key s1] show ?thesis by (auto simp: server_call_def and_then_case)
qed

theorem dedupe_replays_witness:
  "\<exists>s1 text s2. server_call toy_config (toy_env\<lparr>en_getNow := 30\<rparr>) (js ''wipe'') toy_raw None s1
     = (Inr (Replayed text), s2) \<and> sv_trace s2 = sv_trace s1"
proof -
  from toy_dedupe_call obtain e s1 where
    c: "server_call toy_config toy_env (js ''wipe'') toy_raw None (toy_server (Some (60, []))) = (Inr (Sealed e), s1)"
    by blast
  have "sv_dedupe (toy_server (Some (60, []))) = Some (60, [])" by (simp add: toy_server_def)
  from dedupe_replays [OF c this omap_wf_Nil toy_read toy_members(1), of "toy_env\<lparr>en_getNow := 30\<rparr>"]
  show ?thesis by (auto simp: toy_env_def)
qed



theorem pending_limit_raced_witness:
  "\<exists>s1 s2 s4. prepare_room toy_config 0 fresh_server = (Inr (), s1) \<and>
     prepare_room toy_config 0 s1 = (Inr (), s2) \<and>
     s4 = snd (put_ticket (js ''b'') [] toy_glyph JNull 0 [] (snd (put_ticket (js ''a'') [] toy_glyph JNull 0 [] s2))) \<and>
     length (sv_confirmations s4) = 2"
proof -
  obtain x s1 where x: "prepare_room toy_config 0 fresh_server = (x, s1)" by fastforce
  obtain y s2 where y: "prepare_room toy_config 0 s1 = (y, s2)" by fastforce
  obtain a s3 where a: "put_ticket (js ''a'') [] toy_glyph JNull 0 [] s2 = (a, s3)" by fastforce
  obtain b s4 where b: "put_ticket (js ''b'') [] toy_glyph JNull 0 [] s3 = (b, s4)" by fastforce
  have f: "sv_confirmations fresh_server = []" by (simp add: fresh_server_def)
  from pending_limit_raced [OF _ f _ x y a b] x y a b show ?thesis by simp
qed

end
