(* ===== verification/Pins.thy ===== *)
theory Pins
  imports Cards
begin

text \<open>
  The client's stores: approved-card pins (\<open>pins.ts\<close>, \<open>file-pin-store.ts\<close>) and updates parked
  for audit (\<open>audit-queue.ts\<close>, \<open>file-audit-queue.ts\<close> of \<open>packages/client/src\<close>). Each interface is
  a locale interpreted on the in-memory and on the file implementation. A file is what
  \<open>readFile\<close> and \<open>JSON.parse\<close> make of it; its entries come back in the enumeration order of
  a JavaScript object.
\<close>

section \<open>Files of keyed entries\<close>

datatype 'v store_file = File_Missing | File_Unreadable | File_Wrong_Version | File_Entries "(jstr, 'v) omap"

datatype store_error = Io_Error | Not_A_V1_File

text \<open>
  \<open>fs_writable\<close> is whether the next write of the file succeeds; \<open>fs_poisoned\<close> is that the promise
  \<open>writeChain\<close> has been rejected, after which \<open>writeChain.then(...)\<close> runs no further flush.
\<close>

record 'v file_store =
  fs_cache :: "(jstr, 'v) omap option"
  fs_disk :: "'v store_file"
  fs_writable :: bool
  fs_poisoned :: bool

text \<open>\<open>Object.fromEntries(cache)\<close>, printed and read back: array-index keys first, in numeric order.\<close>

definition enumeration_order :: "(jstr, 'v) omap \<Rightarrow> (jstr, 'v) omap" where
  "enumeration_order m =
     sort_key (\<lambda>p. digits_value (fst p)) (filter (\<lambda>p. is_array_index (fst p)) m) @
     filter (\<lambda>p. \<not> is_array_index (fst p)) m"

text \<open>\<open>load\<close>: the cache, or the file; a missing file is an empty store.\<close>

definition store_load :: "('v file_store, store_error, (jstr, 'v) omap) step" where
  "store_load s =
     (case fs_cache s of
        Some m \<Rightarrow> (Inr m, s)
      | None \<Rightarrow>
          (case fs_disk s of
             File_Missing \<Rightarrow> (Inr [], s\<lparr>fs_cache := Some []\<rparr>)
           | File_Unreadable \<Rightarrow> (Inl Io_Error, s)
           | File_Wrong_Version \<Rightarrow> (Inl Not_A_V1_File, s)
           | File_Entries m \<Rightarrow> (Inr m, s\<lparr>fs_cache := Some m\<rparr>)))"

text \<open>The cached map is updated at once, then flushed by the chain of writes of this store.\<close>

definition store_flush :: "(jstr, 'v) omap \<Rightarrow> ('v file_store, store_error, unit) step" where
  "store_flush m s =
     (let s' = s\<lparr>fs_cache := Some m\<rparr> in
      if fs_poisoned s then (Inl Io_Error, s')
      else if \<not> fs_writable s then (Inl Io_Error, s'\<lparr>fs_poisoned := True\<rparr>)
      else (Inr (), s'\<lparr>fs_disk := File_Entries (enumeration_order m)\<rparr>))"

definition file_get :: "jstr \<Rightarrow> ('v file_store, store_error, 'v option) step" where
  "file_get k = and_then store_load (\<lambda>m. return (map_of m k))"

definition file_put :: "jstr \<Rightarrow> 'v \<Rightarrow> ('v file_store, store_error, unit) step" where
  "file_put k v = and_then store_load (\<lambda>m. store_flush (omap_set k v m))"

definition file_list :: "('v file_store, store_error, 'v list) step" where
  "file_list = and_then store_load (\<lambda>m. return (map snd m))"

definition file_remove :: "jstr \<Rightarrow> ('v file_store, store_error, unit) step" where
  "file_remove k = and_then store_load (\<lambda>m.
     if k \<in> set (okeys m) then store_flush (omap_delete k m) else return ())"

definition file_entries :: "'v file_store \<Rightarrow> (jstr, 'v) omap" where
  "file_entries s =
     (case fs_cache s of Some m \<Rightarrow> m
      | None \<Rightarrow> (case fs_disk s of File_Entries m \<Rightarrow> m | _ \<Rightarrow> []))"

text \<open>
  The invariant: a readable and writable file, no failed write so far, and the file and the cache
  agree on every key.
\<close>

definition file_inv :: "'v file_store \<Rightarrow> bool" where
  "file_inv s \<longleftrightarrow> fs_writable s \<and> \<not> fs_poisoned s \<and> fs_disk s \<notin> {File_Unreadable, File_Wrong_Version} \<and> omap_wf (file_entries s) \<and>
     omap_wf (file_entries (s\<lparr>fs_cache := None\<rparr>)) \<and>
     map_of (file_entries (s\<lparr>fs_cache := None\<rparr>)) = map_of (file_entries s)"

lemma set_enumeration_order: "set (enumeration_order m) = set m"
  by (auto simp: enumeration_order_def)

lemma omap_wf_enumeration_order:
  assumes "omap_wf m"
  shows "omap_wf (enumeration_order m)"
proof -
  have "mset (enumeration_order m) = mset m"
    by (simp add: enumeration_order_def)
  from distinct_keys_mset [OF this] assms show ?thesis by (simp add: omap_wf_def)
qed

lemma map_of_eq_of_set:
  assumes "omap_wf m" "omap_wf m'" "set m = set m'"
  shows "map_of m = map_of m'"
proof
  fix k
  have d: "distinct (map fst m)" "distinct (map fst m')" using assms by (simp_all add: omap_wf_def)
  show "map_of m k = map_of m' k"
    using map_of_eq_Some_iff [OF d(1), of k] map_of_eq_Some_iff [OF d(2), of k] assms(3)
    by (cases "map_of m k"; cases "map_of m' k") auto
qed

lemma map_of_enumeration_order: "omap_wf m \<Longrightarrow> map_of (enumeration_order m) = map_of m"
  by (rule map_of_eq_of_set) (simp_all add: omap_wf_enumeration_order set_enumeration_order)

lemma store_load_ok:
  assumes "file_inv s"
  shows "\<exists>s'. store_load s = (Inr (file_entries s), s') \<and> file_inv s' \<and> file_entries s' = file_entries s \<and>
    fs_disk s' = fs_disk s \<and> fs_cache s' = Some (file_entries s)"
  using assms
  by (cases "fs_cache s"; cases "fs_disk s") (auto simp: store_load_def file_inv_def file_entries_def)

lemma store_flush_inv:
  assumes "omap_wf m" "file_inv s"
  shows "\<exists>s'. store_flush m s = (Inr (), s') \<and> file_inv s' \<and> file_entries s' = m"
  using assms
  by (simp add: store_flush_def file_inv_def file_entries_def omap_wf_enumeration_order map_of_enumeration_order Let_def)

lemma file_get_ok:
  "file_inv s \<Longrightarrow> \<exists>s'. file_get k s = (Inr (map_of (file_entries s) k), s') \<and> file_inv s' \<and>
     file_entries s' = file_entries s"
  using store_load_ok [of s] by (auto simp: file_get_def and_then_def return_def)

lemma file_put_ok:
  assumes "file_inv s"
  shows "\<exists>s'. file_put k v s = (Inr (), s') \<and> file_inv s' \<and> file_entries s' = omap_set k v (file_entries s)"
proof -
  have w: "omap_wf (omap_set k v (file_entries s))" using assms by (simp add: file_inv_def omap_wf_set)
  from store_load_ok [OF assms] obtain s' where l: "store_load s = (Inr (file_entries s), s')" "file_inv s'" by blast
  have "file_put k v s = store_flush (omap_set k v (file_entries s)) s'"
    using l by (simp add: file_put_def and_then_def)
  with store_flush_inv [OF w l(2)] show ?thesis by simp
qed

lemma file_list_ok:
  "file_inv s \<Longrightarrow> \<exists>s'. file_list s = (Inr (map snd (file_entries s)), s') \<and> file_inv s' \<and>
     file_entries s' = file_entries s"
  using store_load_ok [of s] by (auto simp: file_list_def and_then_def return_def)

lemma file_remove_ok:
  assumes "file_inv s"
  shows "\<exists>s'. file_remove k s = (Inr (), s') \<and> file_inv s' \<and> file_entries s' = omap_delete k (file_entries s)"
proof (cases "k \<in> set (okeys (file_entries s))")
  case True
  have w: "omap_wf (omap_delete k (file_entries s))" using assms by (simp add: file_inv_def omap_wf_delete)
  from store_load_ok [OF assms] obtain s' where l: "store_load s = (Inr (file_entries s), s')" "file_inv s'" by blast
  have "file_remove k s = store_flush (omap_delete k (file_entries s)) s'"
    using l True by (simp add: file_remove_def and_then_def)
  with store_flush_inv [OF w l(2)] show ?thesis by simp
next
  case False
  then have "omap_delete k (file_entries s) = file_entries s"
    by (force simp: omap_delete_def intro!: filter_True)
  with store_load_ok [OF assms] False show ?thesis
    by (auto simp: file_remove_def and_then_def return_def)
qed

section \<open>Pin stores\<close>

type_synonym pin_map = "(jstr, pin) omap"

definition mem_pin_get :: "jstr \<Rightarrow> (pin_map, store_error, pin option) step" where
  "mem_pin_get toolName m = (Inr (map_of m toolName), m)"

definition mem_pin_set :: "pin \<Rightarrow> (pin_map, store_error, unit) step" where
  "mem_pin_set p m = (Inr (), omap_set (pin_toolName p) p m)"

definition file_pin_get :: "jstr \<Rightarrow> (pin file_store, store_error, pin option) step" where
  "file_pin_get = file_get"

definition file_pin_set :: "pin \<Rightarrow> (pin file_store, store_error, unit) step" where
  "file_pin_set p = file_put (pin_toolName p) p"

definition file_pin_list :: "(pin file_store, store_error, pin list) step" where
  "file_pin_list = file_list"

text \<open>The interface \<open>PinStore\<close>, over the pins \<open>view s\<close> a state holds.\<close>

locale pin_store =
  fixes inv :: "'s \<Rightarrow> bool"
    and view :: "'s \<Rightarrow> jstr \<Rightarrow> pin option"
    and get :: "jstr \<Rightarrow> ('s, store_error, pin option) step"
    and set_pin :: "pin \<Rightarrow> ('s, store_error, unit) step"
  assumes get_law: "inv s \<Longrightarrow> \<exists>s'. get t s = (Inr (view s t), s') \<and> inv s' \<and> view s' = view s"
    and set_law: "inv s \<Longrightarrow> \<exists>s'. set_pin p s = (Inr (), s') \<and> inv s' \<and> view s' = (view s)(pin_toolName p \<mapsto> p)"
begin

lemma set_then_get:
  assumes "inv s"
  shows "\<exists>s1 s2. set_pin p s = (Inr (), s1) \<and> get t s1 =
    (Inr (if t = pin_toolName p then Some p else view s t), s2) \<and> inv s2"
proof -
  from set_law [OF assms, of p] obtain s1 where
    "set_pin p s = (Inr (), s1)" "inv s1" "view s1 = (view s)(pin_toolName p \<mapsto> p)" by blast
  with get_law [of s1 t] show ?thesis by auto
qed

end

interpretation mem_pins: pin_store omap_wf map_of mem_pin_get mem_pin_set
  by unfold_locales (simp_all add: mem_pin_get_def mem_pin_set_def omap_wf_set store_laws)

interpretation file_pins: pin_store file_inv "\<lambda>s. map_of (file_entries s)" file_pin_get file_pin_set
proof
  show "\<exists>s'. file_pin_get t s = (Inr (map_of (file_entries s) t), s') \<and> file_inv s' \<and>
      map_of (file_entries s') = map_of (file_entries s)" if "file_inv s" for s t
    using file_get_ok [OF that, of t] by (auto simp: file_pin_get_def)
  show "\<exists>s'. file_pin_set p s = (Inr (), s') \<and> file_inv s' \<and>
      map_of (file_entries s') = (map_of (file_entries s))(pin_toolName p \<mapsto> p)" if "file_inv s" for s p
    using file_put_ok [OF that, of "pin_toolName p" p] by (auto simp: file_pin_set_def store_laws)
qed

section \<open>Pending audits\<close>

record pending_entry =
  pe_toolName :: jstr
  pe_newCard :: glyph_card
  pe_diff :: card_diff
  pe_detectedAt :: jstr

type_synonym audit_queue = "(jstr, pending_entry) omap"

definition mem_enqueue :: "pending_entry \<Rightarrow> (audit_queue, store_error, unit) step" where
  "mem_enqueue e q = (Inr (), omap_set (pe_toolName e) e q)"

definition mem_queue_get :: "jstr \<Rightarrow> (audit_queue, store_error, pending_entry option) step" where
  "mem_queue_get t q = (Inr (map_of q t), q)"

definition mem_queue_list :: "(audit_queue, store_error, pending_entry list) step" where
  "mem_queue_list q = (Inr (map snd q), q)"

definition mem_queue_remove :: "jstr \<Rightarrow> (audit_queue, store_error, unit) step" where
  "mem_queue_remove t q = (Inr (), omap_delete t q)"

definition file_enqueue :: "pending_entry \<Rightarrow> (pending_entry file_store, store_error, unit) step" where
  "file_enqueue e = file_put (pe_toolName e) e"

definition file_queue_get :: "jstr \<Rightarrow> (pending_entry file_store, store_error, pending_entry option) step" where
  "file_queue_get = file_get"

definition file_queue_list :: "(pending_entry file_store, store_error, pending_entry list) step" where
  "file_queue_list = file_list"

definition file_queue_remove :: "jstr \<Rightarrow> (pending_entry file_store, store_error, unit) step" where
  "file_queue_remove = file_remove"

locale audit_store =
  fixes inv :: "'s \<Rightarrow> bool"
    and parked :: "'s \<Rightarrow> jstr \<Rightarrow> pending_entry option"
    and enqueue :: "pending_entry \<Rightarrow> ('s, store_error, unit) step"
    and get :: "jstr \<Rightarrow> ('s, store_error, pending_entry option) step"
    and list_all_entries :: "('s, store_error, pending_entry list) step"
    and remove :: "jstr \<Rightarrow> ('s, store_error, unit) step"
  assumes enqueue_law: "inv s \<Longrightarrow>
      \<exists>s'. enqueue e s = (Inr (), s') \<and> inv s' \<and> parked s' = (parked s)(pe_toolName e \<mapsto> e)"
    and get_law: "inv s \<Longrightarrow> \<exists>s'. get t s = (Inr (parked s t), s') \<and> inv s' \<and> parked s' = parked s"
    and list_law: "inv s \<Longrightarrow> \<exists>es s'. list_all_entries s = (Inr es, s') \<and> inv s' \<and> parked s' = parked s \<and>
      set es = ran (parked s)"
    and remove_law: "inv s \<Longrightarrow> \<exists>s'. remove t s = (Inr (), s') \<and> inv s' \<and> parked s' = (parked s)(t := None)"
begin

text \<open>Only the most recent update of a tool stays parked.\<close>

lemma latest_wins:
  assumes "inv s" "pe_toolName e = pe_toolName e'"
  shows "\<exists>s1 s2 es s3. enqueue e s = (Inr (), s1) \<and> enqueue e' s1 = (Inr (), s2) \<and>
    list_all_entries s2 = (Inr es, s3) \<and> e' \<in> set es \<and> parked s2 (pe_toolName e) = Some e'"
proof -
  from enqueue_law [OF assms(1)] obtain s1 where "enqueue e s = (Inr (), s1)" "inv s1" by blast
  moreover from enqueue_law [OF this(2), of e'] obtain s2 where
    s2: "enqueue e' s1 = (Inr (), s2)" "inv s2" "parked s2 = (parked s1)(pe_toolName e' \<mapsto> e')" by blast
  moreover from list_law [OF s2(2)] obtain es s3 where
    "list_all_entries s2 = (Inr es, s3)" "set es = ran (parked s2)" by blast
  ultimately show ?thesis using assms(2) by (auto simp: ran_def)
qed

end

lemma ran_map_of: "omap_wf m \<Longrightarrow> ran (map_of m) = set (map snd m)"
  by (simp add: omap_wf_def ran_distinct)

interpretation mem_queue: audit_store omap_wf map_of mem_enqueue mem_queue_get mem_queue_list mem_queue_remove
  by unfold_locales
     (auto simp: mem_enqueue_def mem_queue_get_def mem_queue_list_def mem_queue_remove_def omap_wf_set
       omap_wf_delete store_laws ran_map_of)

interpretation file_queue: audit_store file_inv "\<lambda>s. map_of (file_entries s)" file_enqueue file_queue_get
  file_queue_list file_queue_remove
proof
  fix s :: "pending_entry file_store" and e t
  assume inv: "file_inv s"
  show "\<exists>s'. file_enqueue e s = (Inr (), s') \<and> file_inv s' \<and>
      map_of (file_entries s') = (map_of (file_entries s))(pe_toolName e \<mapsto> e)"
    using file_put_ok [OF inv, of "pe_toolName e" e] by (auto simp: file_enqueue_def store_laws)
  show "\<exists>s'. file_queue_get t s = (Inr (map_of (file_entries s) t), s') \<and> file_inv s' \<and>
      map_of (file_entries s') = map_of (file_entries s)"
    using file_get_ok [OF inv, of t] by (auto simp: file_queue_get_def)
  show "\<exists>es s'. file_queue_list s = (Inr es, s') \<and> file_inv s' \<and>
      map_of (file_entries s') = map_of (file_entries s) \<and> set es = ran (map_of (file_entries s))"
    using file_list_ok [OF inv] inv by (auto simp: file_queue_list_def ran_map_of file_inv_def)
  show "\<exists>s'. file_queue_remove t s = (Inr (), s') \<and> file_inv s' \<and>
      map_of (file_entries s') = (map_of (file_entries s))(t := None)"
    using file_remove_ok [OF inv, of t] by (auto simp: file_queue_remove_def store_laws)
qed

section \<open>Either implementation\<close>

text \<open>A client holds one of the two stores of each kind; a call goes to the one it holds.\<close>

datatype pin_backend = Memory_Pins pin_map | Stored_Pins "pin file_store"

datatype queue_backend = Memory_Queue audit_queue | Stored_Queue "pending_entry file_store"

definition via :: "('s \<Rightarrow> 'b) \<Rightarrow> ('e + 'a) \<times> 's \<Rightarrow> ('e + 'a) \<times> 'b" where
  "via f r = (fst r, f (snd r))"

lemma via_pair [simp]: "via f (x, s) = (x, f s)"
  by (simp add: via_def)

definition pins_get :: "jstr \<Rightarrow> (pin_backend, store_error, pin option) step" where
  "pins_get t b =
     (case b of Memory_Pins m \<Rightarrow> via Memory_Pins (mem_pin_get t m)
      | Stored_Pins f \<Rightarrow> via Stored_Pins (file_pin_get t f))"

definition pins_set :: "pin \<Rightarrow> (pin_backend, store_error, unit) step" where
  "pins_set p b =
     (case b of Memory_Pins m \<Rightarrow> via Memory_Pins (mem_pin_set p m)
      | Stored_Pins f \<Rightarrow> via Stored_Pins (file_pin_set p f))"

fun pins_inv :: "pin_backend \<Rightarrow> bool" where
  "pins_inv (Memory_Pins m) = omap_wf m"
| "pins_inv (Stored_Pins f) = file_inv f"

fun pins_view :: "pin_backend \<Rightarrow> jstr \<Rightarrow> pin option" where
  "pins_view (Memory_Pins m) = map_of m"
| "pins_view (Stored_Pins f) = map_of (file_entries f)"

interpretation any_pins: pin_store pins_inv pins_view pins_get pins_set
proof
  show "\<exists>b'. pins_get t b = (Inr (pins_view b t), b') \<and> pins_inv b' \<and> pins_view b' = pins_view b"
    if "pins_inv b" for b t
  proof (cases b)
    case (Memory_Pins m)
    with mem_pins.get_law [of m t] that show ?thesis by (auto simp: pins_get_def)
  next
    case (Stored_Pins f)
    with file_pins.get_law [of f t] that show ?thesis by (auto simp: pins_get_def)
  qed
  show "\<exists>b'. pins_set p b = (Inr (), b') \<and> pins_inv b' \<and> pins_view b' = (pins_view b)(pin_toolName p \<mapsto> p)"
    if "pins_inv b" for b p
  proof (cases b)
    case (Memory_Pins m)
    with mem_pins.set_law [of m p] that show ?thesis by (auto simp: pins_set_def)
  next
    case (Stored_Pins f)
    with file_pins.set_law [of f p] that show ?thesis by (auto simp: pins_set_def)
  qed
qed

definition queue_put :: "pending_entry \<Rightarrow> (queue_backend, store_error, unit) step" where
  "queue_put e b =
     (case b of Memory_Queue q \<Rightarrow> via Memory_Queue (mem_enqueue e q)
      | Stored_Queue f \<Rightarrow> via Stored_Queue (file_enqueue e f))"

definition queue_get :: "jstr \<Rightarrow> (queue_backend, store_error, pending_entry option) step" where
  "queue_get t b =
     (case b of Memory_Queue q \<Rightarrow> via Memory_Queue (mem_queue_get t q)
      | Stored_Queue f \<Rightarrow> via Stored_Queue (file_queue_get t f))"

definition queue_list :: "(queue_backend, store_error, pending_entry list) step" where
  "queue_list b =
     (case b of Memory_Queue q \<Rightarrow> via Memory_Queue (mem_queue_list q)
      | Stored_Queue f \<Rightarrow> via Stored_Queue (file_queue_list f))"

definition queue_remove :: "jstr \<Rightarrow> (queue_backend, store_error, unit) step" where
  "queue_remove t b =
     (case b of Memory_Queue q \<Rightarrow> via Memory_Queue (mem_queue_remove t q)
      | Stored_Queue f \<Rightarrow> via Stored_Queue (file_queue_remove t f))"

fun queue_inv :: "queue_backend \<Rightarrow> bool" where
  "queue_inv (Memory_Queue q) = omap_wf q"
| "queue_inv (Stored_Queue f) = file_inv f"

fun queue_view :: "queue_backend \<Rightarrow> jstr \<Rightarrow> pending_entry option" where
  "queue_view (Memory_Queue q) = map_of q"
| "queue_view (Stored_Queue f) = map_of (file_entries f)"

interpretation any_queue: audit_store queue_inv queue_view queue_put queue_get queue_list queue_remove
proof
  fix b :: queue_backend and e t
  assume inv: "queue_inv b"
  show "\<exists>b'. queue_put e b = (Inr (), b') \<and> queue_inv b' \<and> queue_view b' = (queue_view b)(pe_toolName e \<mapsto> e)"
  proof (cases b)
    case (Memory_Queue q)
    with mem_queue.enqueue_law [of q e] inv show ?thesis by (auto simp: queue_put_def)
  next
    case (Stored_Queue f)
    with file_queue.enqueue_law [of f e] inv show ?thesis by (auto simp: queue_put_def)
  qed
  show "\<exists>b'. queue_get t b = (Inr (queue_view b t), b') \<and> queue_inv b' \<and> queue_view b' = queue_view b"
  proof (cases b)
    case (Memory_Queue q)
    with mem_queue.get_law [of q t] inv show ?thesis by (auto simp: queue_get_def)
  next
    case (Stored_Queue f)
    with file_queue.get_law [of f t] inv show ?thesis by (auto simp: queue_get_def)
  qed
  show "\<exists>es b'. queue_list b = (Inr es, b') \<and> queue_inv b' \<and> queue_view b' = queue_view b \<and>
      set es = ran (queue_view b)"
  proof (cases b)
    case (Memory_Queue q)
    with mem_queue.list_law [of q] inv show ?thesis by (auto simp: queue_list_def)
  next
    case (Stored_Queue f)
    with file_queue.list_law [of f] inv show ?thesis by (auto simp: queue_list_def)
  qed
  show "\<exists>b'. queue_remove t b = (Inr (), b') \<and> queue_inv b' \<and> queue_view b' = (queue_view b)(t := None)"
  proof (cases b)
    case (Memory_Queue q)
    with mem_queue.remove_law [of q t] inv show ?thesis by (auto simp: queue_remove_def)
  next
    case (Stored_Queue f)
    with file_queue.remove_law [of f t] inv show ?thesis by (auto simp: queue_remove_def)
  qed
qed

section \<open>Approvals survive a restart\<close>


definition toy_pin :: pin where
  "toy_pin = \<lparr>pin_toolName = js ''wipe'', pin_approvedAt = js ''now'', pin_card = sample_card,
     pin_revokedAt = None, pin_revokeReason = None\<rparr>"


section \<open>A failed write\<close>

text \<open>
  After one write that fails, no later \<open>set\<close> of the same store reaches the file, even when
  the file has become writable: each throws, while the pin it was given is what \<open>get\<close> returns
  from then on in this process.
\<close>

theorem failed_write_poisons:
  assumes "fs_cache s = Some m" "\<not> fs_writable s"
  shows "\<exists>s1 s2. file_pin_set p s = (Inl Io_Error, s1) \<and>
    file_pin_set q (s1\<lparr>fs_writable := True\<rparr>) = (Inl Io_Error, s2) \<and> fs_disk s2 = fs_disk s \<and>
    fst (file_pin_get (pin_toolName q) s2) = Inr (Some q)"
proof -
  have "file_pin_set p s = store_flush (omap_set (pin_toolName p) p m) s"
    using assms by (simp add: file_pin_set_def file_put_def and_then_def store_load_def)
  moreover obtain s1 where s1: "store_flush (omap_set (pin_toolName p) p m) s = (Inl Io_Error, s1)" "fs_poisoned s1"
    "fs_cache s1 = Some (omap_set (pin_toolName p) p m)" "fs_disk s1 = fs_disk s"
    using assms by (cases "fs_poisoned s") (auto simp: store_flush_def Let_def)
  moreover have "file_pin_set q (s1\<lparr>fs_writable := True\<rparr>) =
      (Inl Io_Error, s1\<lparr>fs_writable := True, fs_cache := Some (omap_set (pin_toolName q) q (omap_set (pin_toolName p) p m))\<rparr>)"
    using s1 by (simp add: file_pin_set_def file_put_def and_then_def store_load_def store_flush_def Let_def)
  ultimately show ?thesis
    by (auto simp: file_pin_get_def file_get_def and_then_def store_load_def return_def store_laws)
qed

theorem failed_write_poisons_witness:
  "\<exists>s1. file_pin_set toy_pin \<lparr>fs_cache = Some [], fs_disk = File_Missing, fs_writable = False, fs_poisoned = False\<rparr>
     = (Inl Io_Error, s1)"
  using failed_write_poisons [of "\<lparr>fs_cache = Some [], fs_disk = File_Missing, fs_writable = False, fs_poisoned = False\<rparr>"
      "[]" toy_pin toy_pin] by auto

end
