(* ===== verification/Promotion.thy ===== *)
theory Promotion
  imports Cards
begin

text \<open>
  The autonomous promotion policy of \<open>packages/client/src/promotion-policy.ts\<close>, over the audit
  reports of \<open>packages/client/src/index.ts\<close>. The risk tiers are ordered as \<open>RISK_ORDER\<close> ranks
  them, through the library's class of linear orders.
\<close>

section \<open>Risk tiers in order\<close>

fun tier_rank :: "risk_tier \<Rightarrow> int" where
  "tier_rank Safe = 0"
| "tier_rank Caution = 1"
| "tier_rank Danger = 2"

lemma tier_rank_eq [simp]: "tier_rank a = tier_rank b \<longleftrightarrow> a = b"
  by (cases a; cases b) simp_all

instantiation risk_tier :: linorder
begin

definition less_eq_risk_tier :: "risk_tier \<Rightarrow> risk_tier \<Rightarrow> bool" where
  "less_eq_risk_tier a b \<longleftrightarrow> tier_rank a \<le> tier_rank b"

definition less_risk_tier :: "risk_tier \<Rightarrow> risk_tier \<Rightarrow> bool" where
  "less_risk_tier a b \<longleftrightarrow> tier_rank a < tier_rank b"

instance
  by standard (auto simp: less_eq_risk_tier_def less_risk_tier_def)

end

section \<open>Reports and policies\<close>

datatype check_outcome = Check_Valid | Check_Invalid | Check_Absent

record audit_report =
  ap_toolName :: jstr
  ap_newCardId :: jstr
  ap_signatureValid :: bool
  ap_manifest :: check_outcome
  ap_attestation :: check_outcome
  ap_diff :: card_diff
  ap_ok :: bool
  ap_notes :: "jstr list"

record promotion_policy =
  po_requireManifest :: "bool option"
  po_requireAttestation :: "bool option"
  po_allowBreaking :: "bool option"
  po_allowRiskEscalation :: "bool option"
  po_allowKeyChange :: "bool option"

definition empty_policy :: promotion_policy where
  "empty_policy = \<lparr>po_requireManifest = None, po_requireAttestation = None, po_allowBreaking = None,
     po_allowRiskEscalation = None, po_allowKeyChange = None\<rparr>"

text \<open>
  \<open>RISK_ORDER[String(v)] ?? 0\<close>. The table is an object literal: a key it inherits yields a
  function or an object, which compares as \<open>NaN\<close> (\<open>None\<close>).
\<close>

definition inherited_keys :: "jstr list" where
  "inherited_keys = map js [''constructor'', ''__proto__'', ''__defineGetter__'', ''__defineSetter__'',
     ''__lookupGetter__'', ''__lookupSetter__'', ''hasOwnProperty'', ''isPrototypeOf'',
     ''propertyIsEnumerable'', ''toLocaleString'', ''toString'', ''valueOf'']"

definition RISK_ORDER :: "(jstr \<times> int) list" where
  "RISK_ORDER = [(js ''safe'', 0), (js ''caution'', 1), (js ''danger'', 2)]"

definition risk_rank :: "jsval \<Rightarrow> int option" where
  "risk_rank v =
     (let s = js_to_string v in
      case map_of RISK_ORDER s of
        Some n \<Rightarrow> Some n
      | None \<Rightarrow> if s \<in> set inherited_keys then None else Some 0)"

definition isRiskEscalation :: "jsval \<Rightarrow> jsval \<Rightarrow> bool" where
  "isRiskEscalation before after =
     (case (risk_rank before, risk_rank after) of (Some b, Some a) \<Rightarrow> a > b | _ \<Rightarrow> False)"

abbreviation flag :: "bool option \<Rightarrow> bool" where
  "flag x \<equiv> x = Some True"

definition reason_if :: "bool \<Rightarrow> string \<Rightarrow> jstr list" where
  "reason_if b msg = (if b then [js msg] else [])"

definition promotion_reasons :: "audit_report \<Rightarrow> promotion_policy \<Rightarrow> jstr list" where
  "promotion_reasons report policy =
     reason_if (\<not> ap_signatureValid report) ''card signature invalid'' @
     reason_if (\<not> ap_ok report) ''audit did not pass'' @
     reason_if (flag (po_requireManifest policy) \<and> ap_manifest report \<noteq> Check_Valid)
       ''policy requires a valid signed manifest'' @
     reason_if (flag (po_requireAttestation policy) \<and> ap_attestation report \<noteq> Check_Valid)
       ''policy requires a valid attestation'' @
     reason_if (df_requiresApproval (ap_diff report) \<and> \<not> flag (po_allowBreaking policy))
       ''breaking change not allowed by policy'' @
     reason_if (df_keyChanged (ap_diff report) \<and> \<not> flag (po_allowKeyChange policy))
       ''signing-key change not allowed by policy'' @
     (case find (\<lambda>c. ch_field c = js ''cost.riskTier'') (df_changes (ap_diff report)) of
        None \<Rightarrow> []
      | Some c \<Rightarrow> reason_if (isRiskEscalation (ch_before c) (ch_after c) \<and> \<not> flag (po_allowRiskEscalation policy))
          ''risk escalation not allowed by policy'')"

text \<open>The result is the pair \<open>(promote, reasons)\<close>.\<close>

definition evaluatePromotion :: "audit_report \<Rightarrow> promotion_policy \<Rightarrow> bool \<times> jstr list" where
  "evaluatePromotion report policy = (promotion_reasons report policy = [], promotion_reasons report policy)"

section \<open>What the policy lets through\<close>

lemma reason_if_Nil [simp]: "reason_if b msg = [] \<longleftrightarrow> \<not> b"
  by (simp add: reason_if_def)

lemma risk_rank_tier [simp]: "risk_rank (JStr (risk_str t)) = Some (tier_rank t)"
  by (cases t) (simp_all add: risk_rank_def RISK_ORDER_def)

lemma isRiskEscalation_tier [simp]:
  "isRiskEscalation (JStr (risk_str a)) (JStr (risk_str b)) \<longleftrightarrow> a < b"
  by (simp add: isRiskEscalation_def less_risk_tier_def)

text \<open>
  An update of a card is promotable exactly when its audit passed, the evidence the policy
  demands is there, and each class of change it makes is allowed: a security-relevant change by
  \<open>allowBreaking\<close>, another key by \<open>allowKeyChange\<close>, and a higher risk tier by both
  \<open>allowBreaking\<close> and \<open>allowRiskEscalation\<close>. A failed audit is never promotable.
\<close>

theorem evaluatePromotion_iff:
  assumes "ap_diff report = diffCards a n"
  shows "fst (evaluatePromotion report policy) \<longleftrightarrow>
    ap_signatureValid report \<and> ap_ok report \<and>
    (flag (po_requireManifest policy) \<longrightarrow> ap_manifest report = Check_Valid) \<and>
    (flag (po_requireAttestation policy) \<longrightarrow> ap_attestation report = Check_Valid) \<and>
    (df_requiresApproval (diffCards a n) \<longrightarrow> flag (po_allowBreaking policy)) \<and>
    (gc_publicKey a \<noteq> gc_publicKey n \<longrightarrow> flag (po_allowKeyChange policy)) \<and>
    (co_riskTier (gc_cost a) < co_riskTier (gc_cost n) \<longrightarrow> flag (po_allowRiskEscalation policy))"
proof -
  have "df_changes (diffCards a n) = diff_changes a n" "df_keyChanged (diffCards a n) = (gc_publicKey a \<noteq> gc_publicKey n)"
    by (simp_all add: diffCards_def)
  then show ?thesis
    by (auto simp: evaluatePromotion_def promotion_reasons_def assms diff_risk_change)
qed

definition sample_report :: "glyph_card \<Rightarrow> glyph_card \<Rightarrow> audit_report" where
  "sample_report a n = \<lparr>ap_toolName = gc_name a, ap_newCardId = gc_id n, ap_signatureValid = True,
     ap_manifest = Check_Absent, ap_attestation = Check_Absent, ap_diff = diffCards a n, ap_ok = True,
     ap_notes = []\<rparr>"

theorem evaluatePromotion_iff_witness:
  "\<not> fst (evaluatePromotion (sample_report (sample_card\<lparr>gc_cost := sample_cost\<lparr>co_riskTier := Safe\<rparr>\<rparr>) sample_card)
      (empty_policy\<lparr>po_allowBreaking := Some True\<rparr>))"
  using evaluatePromotion_iff [of "sample_report (sample_card\<lparr>gc_cost := sample_cost\<lparr>co_riskTier := Safe\<rparr>\<rparr>) sample_card"
      "sample_card\<lparr>gc_cost := sample_cost\<lparr>co_riskTier := Safe\<rparr>\<rparr>" sample_card
      "empty_policy\<lparr>po_allowBreaking := Some True\<rparr>"]
  by (simp add: sample_report_def empty_policy_def sample_card_def sample_cost_def less_risk_tier_def)

text \<open>
  The empty policy is documented to promote nothing; it promotes every audited update whose
  changes are all of the review class, here a reworded intent.
\<close>

theorem empty_policy_promotes:
  "evaluatePromotion (sample_report sample_card (sample_card\<lparr>gc_intent := js ''erase a disk''\<rparr>)) empty_policy
     = (True, [])"
proof -
  have "\<not> df_requiresApproval (diffCards sample_card (sample_card\<lparr>gc_intent := js ''erase a disk''\<rparr>))"
    by (simp add: requiresApproval_iff)
  then show ?thesis
    by (simp add: evaluatePromotion_def promotion_reasons_def sample_report_def empty_policy_def
        diffCards_def diff_risk_change)
qed

end
