(* ===== verification/Attestation.thy ===== *)
theory Attestation
  imports Cards Json_Parse
begin

text \<open>
  The attestation verifiers: \<open>packages/core/src/attestation.ts\<close> (registry and
  \<open>DigestVerifier\<close>), \<open>packages/core/src/keyless.ts\<close>, the structure-only verifiers of
  \<open>packages/client/src/attestation.ts\<close> and \<open>packages/attestation-sigstore\<close>. A verifier that
  throws gives \<open>None\<close>. The Sigstore library, the keyless backend and base64 decoding are
  parameters.
\<close>

record attestation_result =
  ar_valid :: bool
  ar_type :: jstr
  ar_trusted :: "bool option"
  ar_details :: jsval
  ar_error :: "jstr option"

definition refusal :: "jstr \<Rightarrow> jstr \<Rightarrow> attestation_result" where
  "refusal t msg = \<lparr>ar_valid = False, ar_type = t, ar_trusted = None, ar_details = JUndef, ar_error = Some msg\<rparr>"

definition verdict :: "jstr \<Rightarrow> bool \<Rightarrow> jsval \<Rightarrow> attestation_result" where
  "verdict t trusted details =
     \<lparr>ar_valid = True, ar_type = t, ar_trusted = Some trusted, ar_details = details, ar_error = None\<rparr>"

text \<open>The condition under which the client's \<open>requireAttestation\<close> gate opens.\<close>

definition opens_gate :: "attestation_result \<Rightarrow> bool" where
  "opens_gate r \<longleftrightarrow> ar_valid r \<and> ar_trusted r \<noteq> Some False"

lemma refusal_closed [simp]: "\<not> opens_gate (refusal t msg)" "ar_type (refusal t msg) = t"
  by (simp_all add: opens_gate_def refusal_def)

lemma verdict_gate [simp]: "opens_gate (verdict t b d) \<longleftrightarrow> b" "ar_type (verdict t b d) = t"
  by (simp_all add: opens_gate_def verdict_def)

section \<open>The registry of verifiers\<close>

record verifier =
  vf_type :: jstr
  vf_verify :: "glyph_card \<Rightarrow> attestation_result option"

type_synonym verifier_registry = "(jstr, verifier) omap"

definition registry_register :: "verifier \<Rightarrow> verifier_registry \<Rightarrow> verifier_registry" where
  "registry_register v m = omap_set (vf_type v) v m"

definition registry_get :: "jstr \<Rightarrow> verifier_registry \<Rightarrow> verifier option" where
  "registry_get t m = map_of m t"

definition registry_list :: "verifier_registry \<Rightarrow> jstr list" where
  "registry_list m = okeys m"

lemma registry_get_register:
  "registry_get t (registry_register v m) = (if t = vf_type v then Some v else registry_get t m)"
  by (simp add: registry_get_def registry_register_def store_laws)

section \<open>Container digests\<close>

definition is_lower_hex :: "16 word \<Rightarrow> bool" where
  "is_lower_hex u \<longleftrightarrow> (97 \<le> unat u \<and> unat u \<le> 102) \<or> (48 \<le> unat u \<and> unat u \<le> 57)"

text \<open>\<open>/^sha256:[a-f0-9]{64}$/\<close>\<close>

definition digest_format :: "jstr \<Rightarrow> bool" where
  "digest_format s \<longleftrightarrow> length s = 71 \<and> take 7 s = js ''sha256:'' \<and> list_all is_lower_hex (drop 7 s)"

definition digest_type :: jstr where
  "digest_type = js ''container-digest''"

definition format_only_limitation :: jstr where
  "format_only_limitation = js ''format-only validation '' @ [0x2014] @
     js '' set expectedDigest to bind this digest to the serving artifact (RFC-0008 '' @ [0xa7] @ js ''3.2)''"

definition digest_bound :: "jstr option \<Rightarrow> jstr \<Rightarrow> attestation_result" where
  "digest_bound expectedDigest digest =
     (if truthy expectedDigest \<and> Some digest \<noteq> expectedDigest then
        \<lparr>ar_valid = False, ar_type = digest_type, ar_trusted = None,
         ar_details = JObj [(js ''digest'', JStr digest), (js ''expectedDigest'', JStr (the expectedDigest))],
         ar_error = Some (js ''digest '' @ digest @ js '' does not match the pinned expected digest ''
                          @ the expectedDigest)\<rparr>
      else if \<not> truthy expectedDigest then
        verdict digest_type False
          (JObj [(js ''digest'', JStr digest), (js ''subjectBound'', JBool False),
                 (js ''limitation'', JStr format_only_limitation)])
      else
        verdict digest_type True
          (JObj [(js ''digest'', JStr digest), (js ''subjectBound'', JBool True)]))"

definition digest_verify :: "jstr option \<Rightarrow> glyph_card \<Rightarrow> attestation_result option" where
  "digest_verify expectedDigest c =
     Some (case gc_attestation c of
        None \<Rightarrow> refusal digest_type (js ''no attestation'')
      | Some a \<Rightarrow>
          (case json_parse (at_payload a) of
             None \<Rightarrow> refusal digest_type (js ''invalid JSON payload'')
           | Some (JObj kvs) \<Rightarrow>
               if js ''digest'' \<notin> set (map fst kvs)
               then refusal digest_type (js ''payload missing digest field'')
               else (case own_value kvs (js ''digest'') of
                       JStr digest \<Rightarrow>
                         if \<not> digest_format digest
                         then refusal digest_type
                                (js ''invalid digest format: expected sha256:<64 hex chars>, got \"'' @ digest @ [34])
                         else digest_bound expectedDigest digest
                     | _ \<Rightarrow> refusal digest_type (js ''digest must be a string''))
           | Some _ \<Rightarrow> refusal digest_type (js ''payload missing digest field'')))"

section \<open>Keyless bundles\<close>

definition KEYLESS_TYPE :: jstr where
  "KEYLESS_TYPE = js ''glyph-keyless-v1''"

record keyless_policy =
  kp_issuers :: "jstr list option"
  kp_identities :: "jstr list option"

fun is_JStr :: "jsval \<Rightarrow> bool" where
  "is_JStr (JStr _) = True"
| "is_JStr _ = False"

text \<open>The backend answers \<open>trusted\<close> and an optional error.\<close>

type_synonym keyless_backend = "jsval \<Rightarrow> glyph_card \<Rightarrow> (bool \<times> jstr option) option"

definition keylessSubjectDigest :: "crypto \<Rightarrow> glyph_card \<Rightarrow> jstr" where
  "keylessSubjectDigest C c = cx_sha256 C (computeGlyphId C (c\<lparr>gc_attestation := None\<rparr>))"

definition SEGMENT_DELIMITERS :: "16 word list" where
  "SEGMENT_DELIMITERS = [uc CHR '':'', uc CHR ''/'']"

text \<open>One allow entry against a string: equal, or a prefix that ends at a segment boundary.\<close>

definition entry_admits :: "jstr \<Rightarrow> jstr \<Rightarrow> bool" where
  "entry_admits a s \<longleftrightarrow> s = a \<or>
     (a \<noteq> [] \<and> take (length a) s = a \<and>
      (last a \<in> set SEGMENT_DELIMITERS \<or>
       (length a < length s \<and> s ! length a \<in> set SEGMENT_DELIMITERS)))"

text \<open>\<open>some\<close> runs from the left; \<open>startsWith\<close> on a value that is not a string throws.\<close>

fun match_some :: "jsval \<Rightarrow> jstr list \<Rightarrow> bool option" where
  "match_some value [] = Some False"
| "match_some value (a # as) =
     (case value of
        JStr s \<Rightarrow> if entry_admits a s then Some True else match_some value as
      | _ \<Rightarrow> if a = [] then match_some value as else None)"

definition matchesAny :: "jsval \<Rightarrow> jstr list option \<Rightarrow> bool option" where
  "matchesAny value allow =
     (case allow of None \<Rightarrow> Some True | Some [] \<Rightarrow> Some True | Some as \<Rightarrow> match_some value as)"

definition policy_ok :: "keyless_policy option \<Rightarrow> jsval \<Rightarrow> jsval \<Rightarrow> bool option" where
  "policy_ok policy issuer identity =
     (case matchesAny issuer (Option.bind policy kp_issuers) of
        None \<Rightarrow> None
      | Some False \<Rightarrow> Some False
      | Some True \<Rightarrow> matchesAny identity (Option.bind policy kp_identities))"

definition keyless_trust ::
  "keyless_policy option \<Rightarrow> keyless_backend option \<Rightarrow> jsval \<Rightarrow> glyph_card \<Rightarrow> attestation_result option" where
  "keyless_trust policy backend bundle c =
     (let issuer = js_member_opt bundle (js ''issuer''); identity = js_member_opt bundle (js ''identity'') in
      case policy_ok policy issuer identity of
        None \<Rightarrow> None
      | Some policyOk \<Rightarrow>
          (let result = (\<lambda>cryptoTrusted backendError.
             \<lparr>ar_valid = True, ar_type = KEYLESS_TYPE, ar_trusted = Some (cryptoTrusted \<and> policyOk),
              ar_details = JObj [(js ''issuer'', issuer), (js ''identity'', identity),
                                 (js ''policyOk'', JBool policyOk)],
              ar_error = (if truthy backendError then backendError else None)\<rparr>)
           in case backend of
                None \<Rightarrow> Some (result False None)
              | Some b \<Rightarrow> map_option (\<lambda>(trusted, error). result trusted error) (b bundle c)))"

definition keyless_verify ::
  "crypto \<Rightarrow> (jstr \<Rightarrow> jstr) \<Rightarrow> keyless_policy option \<Rightarrow> keyless_backend option
    \<Rightarrow> glyph_card \<Rightarrow> attestation_result option" where
  "keyless_verify C base64 policy backend c =
     (case gc_attestation c of
        None \<Rightarrow> Some (refusal KEYLESS_TYPE (js ''not a glyph-keyless-v1 attestation''))
      | Some a \<Rightarrow>
          if at_type a \<noteq> KEYLESS_TYPE
          then Some (refusal KEYLESS_TYPE (js ''not a glyph-keyless-v1 attestation''))
          else (case json_parse (base64 (at_payload a)) of
                  None \<Rightarrow> Some (refusal KEYLESS_TYPE (js ''malformed keyless bundle''))
                | Some bundle \<Rightarrow>
                    (case js_member bundle (js ''bundleVersion'') of
                       None \<Rightarrow> None
                     | Some v \<Rightarrow>
                         let sd = js_member_opt bundle (js ''subjectDigest'') in
                         if v \<noteq> JStr KEYLESS_TYPE \<or> \<not> is_JStr sd
                         then Some (refusal KEYLESS_TYPE (js ''unsupported or incomplete bundle''))
                         else if sd \<noteq> JStr (keylessSubjectDigest C c)
                         then Some (refusal KEYLESS_TYPE (js ''subject digest does not match card content''))
                         else keyless_trust policy backend bundle c)))"

section \<open>Structure-only verifiers\<close>

definition sigstore_type :: jstr where
  "sigstore_type = js ''sigstore''"

definition sigstore_limitation :: jstr where
  "sigstore_limitation = js ''structure-only validation '' @ [0x2014] @
     js '' full cryptographic verification requires sigstore-js dependency''"

text \<open>The deprecated \<open>SigstoreVerifier\<close>; \<open>issuer\<close> is never set.\<close>

definition sigstore_shape :: "jsval \<Rightarrow> attestation_result" where
  "sigstore_shape parsed =
     (let mediaType = js_member_opt parsed (js ''mediaType'');
          vm = js_member_opt parsed (js ''verificationMaterial'');
          cert = js_member_opt vm (js ''certificate'')
      in if \<not> js_truthy mediaType then refusal sigstore_type (js ''missing mediaType in Sigstore bundle'')
         else if \<not> js_truthy vm then refusal sigstore_type (js ''missing verificationMaterial in Sigstore bundle'')
         else if \<not> js_truthy (js_member_opt parsed (js ''messageSignature''))
         then refusal sigstore_type (js ''missing messageSignature in Sigstore bundle'')
         else verdict sigstore_type False
           (JObj [(js ''mediaType'', mediaType),
                  (js ''identity'', if js_truthy cert \<and> is_JStr (js_member_opt cert (js ''rawBytes''))
                                  then jlit ''certificate-present'' else JUndef),
                  (js ''issuer'', JUndef),
                  (js ''limitation'', JStr sigstore_limitation)]))"

definition sigstore_verify :: "glyph_card \<Rightarrow> attestation_result option" where
  "sigstore_verify c =
     (case gc_attestation c of
        None \<Rightarrow> Some (refusal sigstore_type (js ''no attestation on card''))
      | Some a \<Rightarrow>
          (case json_parse (at_payload a) of
             None \<Rightarrow> Some (refusal sigstore_type (js ''invalid JSON payload''))
           | Some parsed \<Rightarrow> if parsed = JNull then None else Some (sigstore_shape parsed)))"

definition SLSA_PREDICATE_TYPE :: jstr where
  "SLSA_PREDICATE_TYPE = js ''https://slsa.dev/provenance/v1''"

definition slsa_type :: jstr where
  "slsa_type = js ''slsa''"

text \<open>\<open>v[0]\<close> and \<open>v.length\<close> of a value that is neither \<open>undefined\<close> nor \<open>null\<close>.\<close>

fun js_index0 :: "jsval \<Rightarrow> jsval" where
  "js_index0 (JArr (v # vs)) = v"
| "js_index0 (JStr (u # s)) = JStr [u]"
| "js_index0 (JObj kvs) = own_value kvs (js ''0'')"
| "js_index0 _ = JUndef"

fun js_length :: "jsval \<Rightarrow> jsval" where
  "js_length (JArr vs) = JNum (int (length vs))"
| "js_length (JStr s) = JNum (int (length s))"
| "js_length (JObj kvs) = own_value kvs (js ''length'')"
| "js_length _ = JUndef"

definition nullish_or :: "jsval \<Rightarrow> jsval \<Rightarrow> jsval" where
  "nullish_or v d = (if v = JUndef \<or> v = JNull then d else v)"

definition slsa_shape :: "jsval \<Rightarrow> attestation_result option" where
  "slsa_shape parsed =
     (let ptype = js_member_opt parsed (js ''predicateType'');
          predicate = js_member_opt parsed (js ''predicate'');
          builder = js_member_opt (js_member_opt predicate (js ''builder'')) (js ''id'');
          subject = js_member_opt parsed (js ''subject'')
      in if ptype \<noteq> JStr SLSA_PREDICATE_TYPE then
           Some (refusal slsa_type (js ''expected predicateType '' @ [34] @ SLSA_PREDICATE_TYPE @ [34] @
             js '', got '' @ [34] @ js_to_string (nullish_or ptype (jlit ''undefined'')) @ [34]))
         else if \<not> js_truthy builder then Some (refusal slsa_type (js ''missing builder.id in SLSA predicate''))
         else if \<not> js_truthy subject \<or> js_length subject = JNum 0
         then Some (refusal slsa_type (js ''missing or empty subject array in SLSA provenance''))
         else (case js_member (js_index0 subject) (js ''digest'') of
            None \<Rightarrow> None
          | Some digest \<Rightarrow>
              if \<not> js_truthy (js_member_opt digest (js ''sha256'')) then
                Some (refusal slsa_type (js ''subject[0].digest.sha256 is missing '' @ [0x2014] @
                  js '' full digest validation requires external verifier''))
              else
                (let bd = js_member_opt predicate (js ''buildDefinition'') in
                 Some (verdict slsa_type False
                   (JObj [(js ''builder'', builder),
                          (js ''buildType'', if js_truthy bd then js_member_opt bd (js ''buildType'') else JUndef),
                          (js ''subject'',
                             JObj [(js ''name'', js_member_opt (js_index0 subject) (js ''name'')),
                                   (js ''digest'', digest)])])))))"

definition slsa_verify :: "glyph_card \<Rightarrow> attestation_result option" where
  "slsa_verify c =
     (case gc_attestation c of
        None \<Rightarrow> Some (refusal slsa_type (js ''no attestation on card''))
      | Some a \<Rightarrow>
          (case json_parse (at_payload a) of
             None \<Rightarrow> Some (refusal slsa_type (js ''invalid JSON payload''))
           | Some parsed \<Rightarrow> if parsed = JNull then None else slsa_shape parsed))"

section \<open>Sigstore bundles\<close>

text \<open>
  What \<open>@sigstore/bundle\<close> and \<open>@sigstore/verify\<close> provide: \<open>sl_bundle\<close> is \<open>bundleFromJSON\<close>,
  \<open>sl_chain\<close> the check of signature and chain under the injected trust material, thresholds
  and policy (an error message or the signer's identity and issuer), \<open>sl_dsse\<close> the decoded
  DSSE payload of a bundle that has one.
\<close>

record 'b sigstore_lib =
  sl_bundle :: "jsval \<Rightarrow> jstr + 'b"
  sl_chain :: "'b \<Rightarrow> jstr + jsval \<times> jsval"
  sl_dsse :: "'b \<Rightarrow> jstr option"

definition bundle_type :: jstr where
  "bundle_type = js ''sigstore-bundle''"

definition extractSubjectDigest :: "jstr \<Rightarrow> jsval" where
  "extractSubjectDigest payload =
     (case json_parse payload of
        None \<Rightarrow> JUndef
      | Some statement \<Rightarrow>
          js_member_opt (js_member_opt (js_index0 (js_member_opt statement (js ''subject''))) (js ''digest''))
            (js ''sha256''))"

definition bundle_bound :: "jstr option \<Rightarrow> jsval \<Rightarrow> jsval \<times> jsval \<Rightarrow> attestation_result" where
  "bundle_bound expected subjectDigest signer =
     (if truthy expected \<and> \<not> js_truthy subjectDigest then
        refusal bundle_type (js ''subject-digest binding required but the bundle carries no subject digest'')
      else if truthy expected \<and> subjectDigest \<noteq> JStr (the expected) then
        refusal bundle_type (js ''subject digest '' @ js_to_string subjectDigest @
          js '' does not match the pinned expected digest '' @ the expected)
      else verdict bundle_type True
        (JObj [(js ''identity'', fst signer), (js ''issuer'', snd signer), (js ''subjectDigest'', subjectDigest)]))"

text \<open>A syntax error of \<open>JSON.parse\<close> carries a message of the engine: the argument \<open>syntax_msg\<close>.\<close>

definition bundle_verify ::
  "'b sigstore_lib \<Rightarrow> jstr \<Rightarrow> jstr option \<Rightarrow> glyph_card \<Rightarrow> attestation_result option" where
  "bundle_verify L syntax_msg expected c =
     Some (case gc_attestation c of
        None \<Rightarrow> refusal bundle_type (js ''no attestation on card'')
      | Some a \<Rightarrow>
          (case (case json_parse (at_payload a) of None \<Rightarrow> Inl syntax_msg | Some v \<Rightarrow> sl_bundle L v) of
             Inl msg \<Rightarrow> refusal bundle_type (js ''malformed Sigstore bundle: '' @ msg)
           | Inr bundle \<Rightarrow>
               (case sl_chain L bundle of
                  Inl msg \<Rightarrow> refusal bundle_type (js ''cryptographic verification failed: '' @ msg)
                | Inr signer \<Rightarrow>
                    bundle_bound expected
                      (case sl_dsse L bundle of None \<Rightarrow> JUndef | Some p \<Rightarrow> extractSubjectDigest p) signer)))"

section \<open>The contract of a verifier\<close>

text \<open>
  Every verifier names its own type in its verdicts, fails closed on a card without an
  attestation, and looks at nothing of the card but its content and its attestation.
\<close>

locale attestation_verifier =
  fixes vtype :: jstr
    and verify :: "glyph_card \<Rightarrow> attestation_result option"
  assumes verdict_type: "verify c = Some r \<Longrightarrow> ar_type r = vtype"
    and no_attestation: "gc_attestation c = None \<Longrightarrow> \<exists>r. verify c = Some r \<and> \<not> ar_valid r"
begin

definition as_verifier :: verifier where
  "as_verifier = \<lparr>vf_type = vtype, vf_verify = verify\<rparr>"

lemma gate_needs_attestation: "verify c = Some r \<Longrightarrow> opens_gate r \<Longrightarrow> gc_attestation c \<noteq> None"
  using no_attestation [of c] by (auto simp: opens_gate_def)

lemma registered: "registry_get vtype (registry_register as_verifier m) = Some as_verifier"
  by (simp add: registry_get_register as_verifier_def)

end

locale structure_only_verifier = attestation_verifier +
  assumes never_trusted: "verify c = Some r \<Longrightarrow> ar_valid r \<Longrightarrow> ar_trusted r = Some False"
begin

lemma gate_closed: "verify c = Some r \<Longrightarrow> \<not> opens_gate r"
  using never_trusted by (auto simp: opens_gate_def)

end

lemma refusal_invalid [simp]: "\<not> ar_valid (refusal t m)"
  by (simp add: refusal_def)

lemma verdict_trusted [simp]: "ar_trusted (verdict t b d) = Some b"
  by (simp add: verdict_def)

lemmas option_case = option.splits jsval.splits if_splits sum.splits

interpretation digest: attestation_verifier digest_type "digest_verify expected" for expected
  by unfold_locales
     (auto simp: digest_verify_def digest_bound_def split: option_case)

interpretation keyless: attestation_verifier KEYLESS_TYPE "keyless_verify C base64 policy backend"
  for C base64 policy backend
  by unfold_locales
     (auto simp: keyless_verify_def keyless_trust_def Let_def split: option.splits if_splits)

interpretation sigstore: structure_only_verifier sigstore_type sigstore_verify
  by unfold_locales (auto simp: sigstore_verify_def sigstore_shape_def Let_def split: option.splits if_splits)

interpretation slsa: structure_only_verifier slsa_type slsa_verify
  by unfold_locales (auto simp: slsa_verify_def slsa_shape_def Let_def split: option.splits if_splits)

interpretation sigbundle: attestation_verifier bundle_type "bundle_verify L msg expected" for L msg expected
  by unfold_locales (auto simp: bundle_verify_def bundle_bound_def split: option.splits if_splits sum.splits)

section \<open>When the attestation gate opens\<close>

lemma digest_bound_gate: "opens_gate (digest_bound e d) \<longleftrightarrow> truthy e \<and> e = Some d"
  by (auto simp: digest_bound_def opens_gate_def verdict_def)

text \<open>
  A container digest opens the gate exactly when the consumer pinned a digest and the
  attestation's payload is a JSON object that carries that very digest, well formed. Without a
  pin no card passes.
\<close>

theorem digest_gate_iff:
  "(\<exists>r. digest_verify expected c = Some r \<and> opens_gate r) \<longleftrightarrow>
     (\<exists>d a kvs. expected = Some d \<and> d \<noteq> [] \<and> gc_attestation c = Some a \<and>
        json_parse (at_payload a) = Some (JObj kvs) \<and> (js ''digest'', JStr d) \<in> set kvs \<and>
        own_value kvs (js ''digest'') = JStr d \<and> digest_format d)"
proof -
  have m: "own_value kvs k = JStr d \<Longrightarrow> (k, JStr d) \<in> set kvs" for kvs k d
    by (auto simp: own_value_def dest: map_of_SomeD split: option.splits)
  let ?gate = "\<lambda>kvs. \<exists>d. expected = Some d \<and> d \<noteq> [] \<and> own_value kvs (js ''digest'') = JStr d \<and> digest_format d"
  show ?thesis
  proof (cases "\<exists>a kvs. gc_attestation c = Some a \<and> json_parse (at_payload a) = Some (JObj kvs)")
    case False
    then show ?thesis by (auto simp: digest_verify_def split: option.splits jsval.splits)
  next
    case True
    then obtain a kvs where a: "gc_attestation c = Some a" "json_parse (at_payload a) = Some (JObj kvs)" by blast
    then have "(\<exists>r. digest_verify expected c = Some r \<and> opens_gate r) \<longleftrightarrow> ?gate kvs"
      using m [of kvs "js ''digest''"]
      by (cases "own_value kvs (js ''digest'')") (force simp: digest_verify_def digest_bound_gate)+
    then show ?thesis using a m by auto
  qed
qed

lemma policy_ok_default: "policy_ok None i d = Some True"
  by (simp add: policy_ok_def matchesAny_def)

lemma keyless_trust_gate:
  "keyless_trust policy backend bundle c = Some r \<Longrightarrow> opens_gate r \<longleftrightarrow>
     policy_ok policy (js_member_opt bundle (js ''issuer'')) (js_member_opt bundle (js ''identity'')) = Some True \<and>
     (\<exists>b e. backend = Some b \<and> b bundle c = Some (True, e))"
  by (auto simp: keyless_trust_def Let_def opens_gate_def split: option.splits)

lemma keyless_bound:
  assumes "keyless_verify C base64 policy backend c = Some r" "ar_valid r"
  shows "\<exists>a bundle. gc_attestation c = Some a \<and> json_parse (base64 (at_payload a)) = Some bundle \<and>
    js_member_opt bundle (js ''subjectDigest'') = JStr (keylessSubjectDigest C c) \<and>
    keyless_trust policy backend bundle c = Some r"
  using assms by (auto simp: keyless_verify_def Let_def split: option.splits if_splits)

text \<open>
  C19. A keyless attestation opens the gate only for a card whose own content digest the bundle
  names, when a backend confirmed the certificate and log, and when the identity policy admits
  issuer and identity.
\<close>

theorem keyless_gate_sound:
  assumes "keyless_verify C base64 policy backend c = Some r" and "opens_gate r"
  shows "\<exists>a bundle b e. gc_attestation c = Some a \<and> json_parse (base64 (at_payload a)) = Some bundle \<and>
    js_member_opt bundle (js ''subjectDigest'') = JStr (keylessSubjectDigest C c) \<and>
    policy_ok policy (js_member_opt bundle (js ''issuer'')) (js_member_opt bundle (js ''identity'')) = Some True \<and>
    backend = Some b \<and> b bundle c = Some (True, e)"
  using keyless_bound [OF assms(1)] assms(2) keyless_trust_gate by (fastforce simp: opens_gate_def)

text \<open>The digest a bundle names does not depend on the attestation that carries it.\<close>

lemma keylessSubjectDigest_attach [simp]:
  "keylessSubjectDigest C (c\<lparr>gc_attestation := a\<rparr>) = keylessSubjectDigest C c"
  by (simp add: keylessSubjectDigest_def)

lemma picked_attestation_None:
  "canonEqual (picked (a\<lparr>gc_attestation := None\<rparr>)) (picked (b\<lparr>gc_attestation := None\<rparr>)) \<Longrightarrow>
     gc_name a = gc_name b \<and> gc_cost a = gc_cost b \<and> gc_provider a = gc_provider b \<and>
     canonEqual (gc_input a) (gc_input b) \<and> canonEqual (gc_output a) (gc_output b) \<and>
     gc_requiredScopes a = gc_requiredScopes b"
  by (simp add: canonEqual_picked)

text \<open>
  A keyless bundle cannot be replayed: two cards on which the same attestation is valid
  have, short of a collision of the hash, the same name, cost, schemas, provider and scopes.
\<close>

theorem keyless_no_replay:
  assumes "keyless_verify C base64 policy backend a = Some r" "ar_valid r"
    and "keyless_verify C base64 policy' backend' b = Some r'" "ar_valid r'"
    and "gc_attestation a = gc_attestation b"
    and "no_collision C (picked (a\<lparr>gc_attestation := None\<rparr>)) (picked (b\<lparr>gc_attestation := None\<rparr>))"
    and "cx_sha256 C (computeGlyphId C (a\<lparr>gc_attestation := None\<rparr>))
         = cx_sha256 C (computeGlyphId C (b\<lparr>gc_attestation := None\<rparr>)) \<longrightarrow>
         computeGlyphId C (a\<lparr>gc_attestation := None\<rparr>) = computeGlyphId C (b\<lparr>gc_attestation := None\<rparr>)"
  shows "gc_name a = gc_name b \<and> gc_cost a = gc_cost b \<and> gc_provider a = gc_provider b \<and>
    canonEqual (gc_input a) (gc_input b) \<and> canonEqual (gc_output a) (gc_output b) \<and>
    gc_requiredScopes a = gc_requiredScopes b"
proof -
  have "keylessSubjectDigest C a = keylessSubjectDigest C b"
    using keyless_bound [OF assms(1,2)] keyless_bound [OF assms(3,4)] assms(5) by auto
  then have "computeGlyphId C (a\<lparr>gc_attestation := None\<rparr>) = computeGlyphId C (b\<lparr>gc_attestation := None\<rparr>)"
    using assms(7) by (simp add: keylessSubjectDigest_def)
  then show ?thesis using computeGlyphId_eq_iff [OF assms(6)] picked_attestation_None by blast
qed

text \<open>
  An allow entry admits a longer value only at a segment boundary: \<open>repo:acme/tools\<close> admits
  itself and what continues with a colon or a slash, never \<open>repo:acme/tools-evil\<close>.
\<close>

theorem entry_admits_boundary:
  assumes "last a \<notin> set SEGMENT_DELIMITERS" and "a \<noteq> []"
  shows "entry_admits a s \<longleftrightarrow> s = a \<or> (\<exists>d rest. s = a @ d # rest \<and> d \<in> set SEGMENT_DELIMITERS)"
proof
  assume "entry_admits a s"
  with assms have "s = a \<or> take (length a) s = a \<and> length a < length s \<and> s ! length a \<in> set SEGMENT_DELIMITERS"
    by (auto simp: entry_admits_def)
  moreover have "s = take (length a) s @ s ! length a # drop (Suc (length a)) s" if "length a < length s"
    using that by (rule id_take_nth_drop)
  ultimately show "s = a \<or> (\<exists>d rest. s = a @ d # rest \<and> d \<in> set SEGMENT_DELIMITERS)" by metis
qed (use assms in \<open>auto simp: entry_admits_def\<close>)

text \<open>
  The structure-only verifiers of the client never open the gate, whatever the card.
\<close>

theorem structure_only_never_opens:
  "\<not> (\<exists>r. (sigstore_verify c = Some r \<or> slsa_verify c = Some r) \<and> opens_gate r)"
  using sigstore.gate_closed slsa.gate_closed by blast

text \<open>
  A Sigstore bundle opens the gate exactly when the library accepts signature and chain and,
  if a digest is pinned, the DSSE subject is that digest. Without a pin any bundle with a valid
  chain opens the gate for any card that carries it.
\<close>

theorem bundle_gate_iff:
  "(\<exists>r. bundle_verify L msg expected c = Some r \<and> opens_gate r) \<longleftrightarrow>
     (\<exists>a v b signer. gc_attestation c = Some a \<and> json_parse (at_payload a) = Some v \<and>
        sl_bundle L v = Inr b \<and> sl_chain L b = Inr signer \<and>
        (truthy expected \<longrightarrow> (\<exists>p. sl_dsse L b = Some p \<and> extractSubjectDigest p = JStr (the expected))))"
  by (cases "truthy expected")
     (auto simp: bundle_verify_def bundle_bound_def truthy_iff split: option.splits sum.splits if_splits)

section \<open>Concrete attestations\<close>

definition const_crypto :: crypto where
  "const_crypto = toy_crypto\<lparr>cx_sha256 := (\<lambda>m. js ''h'')\<rparr>"

definition toy_backend :: keyless_backend where
  "toy_backend b c = Some (True, None)"

definition toy_bundle_text :: jstr where
  "toy_bundle_text = js ''{\"bundleVersion\":\"glyph-keyless-v1\",\"subjectDigest\":\"h\"}''"

definition toy_bundle :: jsval where
  "toy_bundle = JObj [(js ''bundleVersion'', JStr KEYLESS_TYPE), (js ''subjectDigest'', jlit ''h'')]"

lemma toy_bundle_parses: "json_parse toy_bundle_text = Some toy_bundle"
  by (simp add: toy_bundle_text_def toy_bundle_def KEYLESS_TYPE_def json_parse_eval)

definition keyless_card :: glyph_card where
  "keyless_card = sample_card\<lparr>gc_attestation :=
     Some \<lparr>at_type = KEYLESS_TYPE, at_payload = toy_bundle_text, at_reference = None\<rparr>\<rparr>"

lemma keyless_card_verified:
  "\<exists>r. keyless_verify const_crypto id None (Some toy_backend) (keyless_card\<lparr>gc_createdAt := t\<rparr>) = Some r \<and>
     opens_gate r \<and> ar_valid r"
  by (simp add: keyless_verify_def keyless_card_def toy_bundle_parses)
     (simp add: toy_bundle_def own_value_def Let_def js_member_opt_def keylessSubjectDigest_def
        const_crypto_def keyless_trust_def policy_ok_default toy_backend_def opens_gate_def)

theorem keyless_gate_sound_witness:
  "\<exists>a. gc_attestation (keyless_card\<lparr>gc_createdAt := []\<rparr>) = Some a \<and>
     json_parse (at_payload a) = Some toy_bundle"
proof -
  from keyless_card_verified [of "[]"] obtain r where
    r: "keyless_verify const_crypto id None (Some toy_backend) (keyless_card\<lparr>gc_createdAt := []\<rparr>) = Some r"
      "opens_gate r" by blast
  from keyless_gate_sound [OF r] show ?thesis
    by (auto simp: keyless_card_def toy_bundle_parses)
qed

theorem keyless_no_replay_witness:
  "gc_name (keyless_card\<lparr>gc_createdAt := js ''x''\<rparr>) = gc_name (keyless_card\<lparr>gc_createdAt := js ''y''\<rparr>)"
proof -
  obtain r r' where
    r: "keyless_verify const_crypto id None (Some toy_backend) (keyless_card\<lparr>gc_createdAt := js ''x''\<rparr>) = Some r"
      "ar_valid r"
    and r': "keyless_verify const_crypto id None (Some toy_backend) (keyless_card\<lparr>gc_createdAt := js ''y''\<rparr>) = Some r'"
      "ar_valid r'"
    using keyless_card_verified by meson
  have p: "picked (keyless_card\<lparr>gc_createdAt := t, gc_attestation := None\<rparr>)
      = picked (keyless_card\<lparr>gc_attestation := None\<rparr>)" for t
    by (simp add: picked_def canonical_fields_def)
  from keyless_no_replay [OF r r'] show ?thesis
    by (simp add: p no_collision_def computeGlyphId_def)
qed

theorem entry_admits_boundary_witness:
  "\<not> entry_admits (js ''repo:acme/tools'') (js ''repo:acme/tools-evil'') \<and>
   entry_admits (js ''repo:acme/tools'') (js ''repo:acme/tools:ref'')"
proof -
  have "last (js ''repo:acme/tools'') \<notin> set SEGMENT_DELIMITERS" "js ''repo:acme/tools'' \<noteq> []"
    by (simp_all add: SEGMENT_DELIMITERS_def js_def)
  from entry_admits_boundary [OF this, of "js ''repo:acme/tools-evil''"]
    entry_admits_boundary [OF this, of "js ''repo:acme/tools:ref''"]
  show ?thesis by (simp add: js_def SEGMENT_DELIMITERS_def)
qed

definition toy_sigstore :: "unit sigstore_lib" where
  "toy_sigstore = \<lparr>sl_bundle = (\<lambda>v. Inr ()), sl_chain = (\<lambda>b. Inr (JUndef, JUndef)), sl_dsse = (\<lambda>b. None)\<rparr>"

theorem bundle_gate_iff_witness:
  "(\<exists>r. bundle_verify toy_sigstore [] None keyless_card = Some r \<and> opens_gate r) \<and>
   \<not> (\<exists>r. bundle_verify toy_sigstore [] (Some (js ''d'')) keyless_card = Some r \<and> opens_gate r)"
  unfolding bundle_gate_iff by (simp add: keyless_card_def toy_bundle_parses toy_sigstore_def)

end
