(* ===== verification/Trust.thy ===== *)
theory Trust
  imports Key_Registry Attestation
begin

text \<open>
  \<open>ProviderTrustResolver\<close> of \<open>packages/client/src/trust.ts\<close>: discovery of provider trust entries
  (explicit, file, HTTP) and genesis pinning. What the file and the network answer is an
  argument; \<open>None\<close> is a read, fetch or parse that failed.
\<close>

section \<open>Entries\<close>

text \<open>The fields the resolver and the client read; \<open>genesisKey\<close> is whatever the source holds.\<close>

record trust_entry =
  te_provider :: jstr
  te_publicKeys :: "jstr list"
  te_genesisKey :: jsval

definition explicit_entry :: "provider_trust_entry \<Rightarrow> trust_entry" where
  "explicit_entry e = \<lparr>te_provider = pt_provider e, te_publicKeys = pt_publicKeys e,
     te_genesisKey = jopt JStr (pt_genesisKey e)\<rparr>"

text \<open>A parsed value that passes \<open>isValidEntry\<close>, as an entry.\<close>

fun nonempty_strs :: "jsval list \<Rightarrow> jstr list option" where
  "nonempty_strs [] = Some []"
| "nonempty_strs (JStr s # vs) = (if s = [] then None else map_option (Cons s) (nonempty_strs vs))"
| "nonempty_strs (v # vs) = None"

definition valid_entry :: "jsval \<Rightarrow> trust_entry option" where
  "valid_entry value =
     (case value of
        JObj kvs \<Rightarrow>
          (case (own_value kvs (js ''provider''), own_value kvs (js ''publicKeys'')) of
             (JStr p, JArr ks) \<Rightarrow>
               (case nonempty_strs ks of
                  None \<Rightarrow> None
                | Some pubs \<Rightarrow>
                    if p = [] \<or> pubs = [] then None
                    else Some \<lparr>te_provider = p, te_publicKeys = pubs,
                               te_genesisKey = own_value kvs (js ''genesisKey'')\<rparr>)
           | _ \<Rightarrow> None)
      | _ \<Rightarrow> None)"

section \<open>The resolver\<close>

record trust_resolver =
  tr_cache :: "(jstr, trust_entry) omap"
  tr_genesis :: "(jstr, jsval) omap"
  tr_httpDiscovery :: bool

record trust_world =
  tw_file :: "jsval option"
  tw_http :: "jstr \<Rightarrow> jsval option"

definition new_resolver ::
  "bool option \<Rightarrow> provider_trust_entry list \<Rightarrow> (jstr, jstr) omap \<Rightarrow> trust_resolver" where
  "new_resolver httpDiscovery explicit genesis =
     \<lparr>tr_cache = foldl (\<lambda>m e. omap_set (pt_provider e) (explicit_entry e) m) [] explicit,
      tr_genesis = foldl (\<lambda>m (p, k). omap_set p (JStr k) m) [] genesis,
      tr_httpDiscovery = (httpDiscovery = Some True)\<rparr>"

definition genesis_of :: "trust_entry \<Rightarrow> jsval" where
  "genesis_of e = nullish_or (te_genesisKey e) (case te_publicKeys e of [] \<Rightarrow> JUndef | k # _ \<Rightarrow> JStr k)"

definition enforceGenesis ::
  "jstr \<Rightarrow> trust_entry \<Rightarrow> trust_resolver \<Rightarrow> trust_entry option \<times> trust_resolver" where
  "enforceGenesis provider e s =
     (if \<not> js_truthy (genesis_of e) then (Some e, s)
      else
        let pinned = (case map_of (tr_genesis s) provider of None \<Rightarrow> JUndef | Some k \<Rightarrow> k)
        in if \<not> js_truthy pinned
           then (Some e, s\<lparr>tr_genesis := omap_set provider (genesis_of e) (tr_genesis s)\<rparr>)
           else if genesis_of e \<noteq> pinned then (None, s)
           else (Some e, s))"

definition resolveFromFilesystem :: "trust_world \<Rightarrow> jstr \<Rightarrow> trust_entry option" where
  "resolveFromFilesystem w provider =
     (case Option.bind (tw_file w) valid_entry of
        None \<Rightarrow> None
      | Some e \<Rightarrow> if te_provider e = provider then Some e else None)"

definition trust_url :: "jstr \<Rightarrow> jstr" where
  "trust_url provider = js ''https://'' @ provider @ js ''/.well-known/glyph-trust''"

definition resolveFromHttp :: "trust_world \<Rightarrow> jstr \<Rightarrow> trust_entry option" where
  "resolveFromHttp w provider = Option.bind (tw_http w (trust_url provider)) valid_entry"

definition trust_remember ::
  "jstr \<Rightarrow> trust_entry \<Rightarrow> trust_resolver \<Rightarrow> trust_entry option \<times> trust_resolver" where
  "trust_remember provider e s = enforceGenesis provider e (s\<lparr>tr_cache := omap_set provider e (tr_cache s)\<rparr>)"

definition trust_resolve ::
  "trust_world \<Rightarrow> jstr \<Rightarrow> trust_resolver \<Rightarrow> trust_entry option \<times> trust_resolver" where
  "trust_resolve w provider s =
     (case map_of (tr_cache s) provider of
        Some e \<Rightarrow> enforceGenesis provider e s
      | None \<Rightarrow>
          (case resolveFromFilesystem w provider of
             Some e \<Rightarrow> trust_remember provider e s
           | None \<Rightarrow>
               if tr_httpDiscovery s then
                 (case resolveFromHttp w provider of
                    Some e \<Rightarrow> trust_remember provider e s
                  | None \<Rightarrow> (None, s))
               else (None, s)))"

definition trust_list :: "trust_resolver \<Rightarrow> jstr list" where
  "trust_list s = okeys (tr_cache s)"

definition getGenesis :: "jstr \<Rightarrow> trust_resolver \<Rightarrow> jsval" where
  "getGenesis provider s = (case map_of (tr_genesis s) provider of None \<Rightarrow> JUndef | Some k \<Rightarrow> k)"

section \<open>Genesis pins hold\<close>

text \<open>A resolver's life: resolutions of any provider, in any world.\<close>

inductive resolver_run :: "trust_resolver \<Rightarrow> trust_resolver \<Rightarrow> bool" where
  run_refl: "resolver_run s s"
| run_step: "resolver_run s s' \<Longrightarrow> resolver_run s (snd (trust_resolve w provider s'))"

inductive_simps resolver_run_cases: "resolver_run s t"

lemma enforceGenesis_pin:
  assumes "js_truthy (getGenesis p s)"
  shows "getGenesis p (snd (enforceGenesis q e s)) = getGenesis p s"
  using assms by (auto simp: enforceGenesis_def getGenesis_def Let_def store_laws)

lemma enforceGenesis_match:
  assumes "js_truthy (getGenesis p s)" "fst (enforceGenesis p e s) = Some e'"
  shows "genesis_of e' = getGenesis p s \<or> \<not> js_truthy (genesis_of e')"
  using assms by (auto simp: enforceGenesis_def getGenesis_def Let_def split: if_splits)

lemma getGenesis_cache [simp]: "getGenesis p (s\<lparr>tr_cache := c\<rparr>) = getGenesis p s"
  by (simp add: getGenesis_def)

lemma trust_resolve_enforces:
  "trust_resolve w q s = (None, s) \<or>
     (\<exists>e c. trust_resolve w q s = enforceGenesis q e (s\<lparr>tr_cache := c\<rparr>))"
proof -
  have same: "s = s\<lparr>tr_cache := tr_cache s\<rparr>" by simp
  show ?thesis
    unfolding trust_resolve_def trust_remember_def
    by (auto split: option.splits intro: exI [of _ "tr_cache s"]) (metis same)+
qed

lemma trust_resolve_pin:
  assumes "js_truthy (getGenesis p s)"
  shows "getGenesis p (snd (trust_resolve w q s)) = getGenesis p s"
  using trust_resolve_enforces [of w q s] enforceGenesis_pin [of p "s\<lparr>tr_cache := c\<rparr>" q for c] assms
  by (metis getGenesis_cache snd_conv)

lemma trust_resolve_match:
  assumes "js_truthy (getGenesis p s)" "fst (trust_resolve w p s) = Some e"
  shows "genesis_of e = getGenesis p s \<or> \<not> js_truthy (genesis_of e)"
  using trust_resolve_enforces [of w p s] enforceGenesis_match [of p "s\<lparr>tr_cache := c\<rparr>" for c] assms
  by (metis getGenesis_cache fst_conv option.distinct(1))

text \<open>
  Genesis pinning: once a provider's genesis key is pinned, whatever is resolved afterwards
  and whatever the file and the network answer, the pin stays, and every entry the resolver hands
  out for that provider presents the pinned key (or no genesis key that is truthy at all).
\<close>

theorem genesis_pinned:
  assumes "resolver_run s t" and "js_truthy (getGenesis p s)"
  shows "getGenesis p t = getGenesis p s \<and>
    (fst (trust_resolve w p t) = Some e \<longrightarrow> genesis_of e = getGenesis p s \<or> \<not> js_truthy (genesis_of e))"
proof -
  from assms have g: "getGenesis p t = getGenesis p s"
    by (induction rule: resolver_run.induct) (simp_all add: trust_resolve_pin)
  with trust_resolve_match [of p t w e] assms(2) show ?thesis by auto
qed

definition toy_trust_file :: "jstr \<Rightarrow> jsval \<Rightarrow> jsval" where
  "toy_trust_file key genesis =
     JObj [(js ''provider'', jlit ''acme''), (js ''publicKeys'', JArr [JStr key]), (js ''genesisKey'', genesis)]"

definition toy_world :: "jsval \<Rightarrow> trust_world" where
  "toy_world v = \<lparr>tw_file = Some v, tw_http = (\<lambda>_. None)\<rparr>"

definition pinned_resolver :: trust_resolver where
  "pinned_resolver = new_resolver None [] [(js ''acme'', js ''k1'')]"

lemmas trust_eval = trust_resolve_def resolveFromFilesystem_def toy_world_def toy_trust_file_def valid_entry_def
  trust_remember_def enforceGenesis_def genesis_of_def nullish_or_def pinned_resolver_def new_resolver_def
  own_value_def getGenesis_def

theorem genesis_pinned_witness:
  "getGenesis (js ''acme'') (snd (trust_resolve (toy_world (toy_trust_file (js ''k2'') JUndef)) (js ''acme'') pinned_resolver))
     = jlit ''k1'' \<and>
   fst (trust_resolve (toy_world (toy_trust_file (js ''k1'') JUndef)) (js ''acme'') pinned_resolver) \<noteq> None"
proof -
  have r: "resolver_run pinned_resolver
      (snd (trust_resolve (toy_world (toy_trust_file (js ''k2'') JUndef)) (js ''acme'') pinned_resolver))"
    by (intro run_step run_refl)
  have g: "getGenesis (js ''acme'') pinned_resolver = jlit ''k1''" by (simp add: trust_eval)
  have "js_truthy (getGenesis (js ''acme'') pinned_resolver)" by (simp add: g)
  from genesis_pinned [OF r this] g show ?thesis by (auto simp: trust_eval)
qed

text \<open>
  An entry whose \<open>genesisKey\<close> is the empty string skips the comparison: a provider pinned
  to one key is resolved to an entry that trusts another key only.
\<close>

theorem empty_genesis_bypasses_pin:
  "map_option te_publicKeys
     (fst (trust_resolve (toy_world (toy_trust_file (js ''evil'') (jlit ''''))) (js ''acme'') pinned_resolver))
     = Some [js ''evil'']"
  by (simp add: trust_eval)

end
