(* ===== verification/Uri.thy ===== *)
theory Uri
  imports Sanitize
begin

text \<open>
  The URL functions of the platform that the client and the adapters call: UTF-8,
  \<open>encodeURIComponent\<close> and \<open>URLSearchParams\<close>.
\<close>

section \<open>encodeURIComponent\<close>

definition uri_unreserved :: "nat \<Rightarrow> bool" where
  "uri_unreserved cp \<longleftrightarrow> (97 \<le> cp \<and> cp \<le> 122) \<or> (65 \<le> cp \<and> cp \<le> 90) \<or> (48 \<le> cp \<and> cp \<le> 57) \<or>
     cp \<in> set (map of_char ''-_.!~*()'') \<or> cp = 39"

definition utf8 :: "nat \<Rightarrow> nat list" where
  "utf8 cp =
     (if cp < 128 then [cp]
      else if cp < 2048 then [192 + cp div 64, 128 + cp mod 64]
      else if cp < 65536 then [224 + cp div 4096, 128 + cp div 64 mod 64, 128 + cp mod 64]
      else [240 + cp div 262144, 128 + cp div 4096 mod 64, 128 + cp div 64 mod 64, 128 + cp mod 64])"

definition hex_upper :: "nat \<Rightarrow> 16 word" where
  "hex_upper d = (if d < 10 then of_nat (48 + d) else of_nat (55 + d))"

definition percent :: "nat \<Rightarrow> jstr" where
  "percent b = [uc CHR ''%'', hex_upper (b div 16), hex_upper (b mod 16)]"

fun encode_points :: "nat list \<Rightarrow> jstr option" where
  "encode_points [] = Some []"
| "encode_points (cp # cps) =
     (if uri_unreserved cp then map_option (Cons (of_nat cp)) (encode_points cps)
      else if 55296 \<le> cp \<and> cp < 57344 then None
      else map_option (append (concat (map percent (utf8 cp)))) (encode_points cps))"

text \<open>A lone surrogate is a \<open>URIError\<close>.\<close>

definition encodeURIComponent :: "jstr \<Rightarrow> jstr option" where
  "encodeURIComponent s = encode_points (decode s)"

text \<open>\<open>replace(/\\/$/, '')\<close>\<close>

definition strip_slash :: "jstr \<Rightarrow> jstr" where
  "strip_slash s = (if s \<noteq> [] \<and> last s = uc CHR ''/'' then butlast s else s)"

section \<open>UTF-8\<close>

text \<open>A string is sent as scalar values: a lone surrogate becomes U+FFFD.\<close>

definition to_scalar :: "nat \<Rightarrow> nat" where
  "to_scalar cp = (if 55296 \<le> cp \<and> cp \<le> 57343 then 65533 else cp)"

definition utf8_bytes :: "jstr \<Rightarrow> nat list" where
  "utf8_bytes s = concat (map (\<lambda>cp. utf8 (to_scalar cp)) (decode s))"

text \<open>
  The decoder of the WHATWG encoding standard: after a lead byte, \<open>n\<close> continuation bytes, the
  first of them between \<open>lo\<close> and \<open>hi\<close>; a byte that does not fit is read again.
\<close>

fun utf8_tail :: "nat \<Rightarrow> nat \<Rightarrow> nat \<Rightarrow> nat \<Rightarrow> nat list \<Rightarrow> nat \<times> nat list" where
  "utf8_tail 0 lo hi cp bs = (cp, bs)"
| "utf8_tail (Suc n) lo hi cp [] = (65533, [])"
| "utf8_tail (Suc n) lo hi cp (b # bs) =
     (if lo \<le> b \<and> b \<le> hi then utf8_tail n 128 191 (cp * 64 + (b - 128)) bs else (65533, b # bs))"

definition utf8_lead :: "nat \<Rightarrow> nat list \<Rightarrow> nat \<times> nat list" where
  "utf8_lead b bs =
     (if b < 128 then (b, bs)
      else if 194 \<le> b \<and> b \<le> 223 then utf8_tail 1 128 191 (b - 192) bs
      else if 224 \<le> b \<and> b \<le> 239 then
        utf8_tail 2 (if b = 224 then 160 else 128) (if b = 237 then 159 else 191) (b - 224) bs
      else if 240 \<le> b \<and> b \<le> 244 then
        utf8_tail 3 (if b = 240 then 144 else 128) (if b = 244 then 143 else 191) (b - 240) bs
      else (65533, bs))"

lemma utf8_tail_length: "length (snd (utf8_tail n lo hi cp bs)) \<le> length bs"
  by (induction n lo hi cp bs rule: utf8_tail.induct) auto

lemma utf8_lead_length: "length (snd (utf8_lead b bs)) \<le> length bs"
  by (simp add: utf8_lead_def utf8_tail_length)

function utf8_decode :: "nat list \<Rightarrow> nat list" where
  "utf8_decode [] = []"
| "utf8_decode (b # bs) = fst (utf8_lead b bs) # utf8_decode (snd (utf8_lead b bs))"
  by pat_completeness auto
termination
  by (relation "measure length") (auto simp: utf8_lead_length less_Suc_eq_le)

lemma base64_digits:
  fixes n :: nat
  shows "n div 64 * 64 + n mod 64 = n" "n div 4096 * 64 + n div 64 mod 64 = n div 64"
    "n div 262144 * 64 + n div 4096 mod 64 = n div 4096"
proof -
  have "n div 4096 = n div 64 div 64" "n div 262144 = n div 4096 div 64" by (simp_all flip: div_mult2_eq)
  then show "n div 64 * 64 + n mod 64 = n" "n div 4096 * 64 + n div 64 mod 64 = n div 64"
    "n div 262144 * 64 + n div 4096 mod 64 = n div 4096" by (simp_all only: div_mult_mod_eq)
qed

lemma utf8_lead_scalar:
  assumes "scalar cp"
  shows "\<exists>b bs'. utf8 cp = b # bs' \<and> utf8_lead b (bs' @ bs) = (cp, bs)"
proof -
  have a: "cp < 1114112" "\<not> (55296 \<le> cp \<and> cp \<le> 57343)" using assms by (simp_all add: scalar_def)
  consider "cp < 128" | "128 \<le> cp" "cp < 2048" | "2048 \<le> cp" "cp < 65536" | "65536 \<le> cp" by linarith
  then show ?thesis
  proof cases
    case 1 then show ?thesis by (simp add: utf8_def utf8_lead_def)
  next
    case 2
    define y z where "y = cp div 64" and "z = cp mod 64"
    have e: "y * 64 + z = cp" unfolding y_def z_def by (rule div_mult_mod_eq)
    have d: "z < 64" by (simp add: z_def)
    then have "2 \<le> y" "y < 32" using 2 e by linarith+
    with d e have "utf8_lead (192 + y) ((128 + z) # bs) = (cp, bs)"
      by (simp add: utf8_lead_def)
    moreover have "utf8 cp = [192 + y, 128 + z]" using 2 by (simp add: utf8_def y_def z_def)
    ultimately show ?thesis by simp
  next
    case 3
    define x y z where "x = cp div 4096" and "y = cp div 64 mod 64" and "z = cp mod 64"
    have d: "y < 64" "z < 64" "x < 16"
      using 3 by (simp_all add: x_def y_def z_def less_mult_imp_div_less)
    have e: "(x * 64 + y) * 64 + z = cp" unfolding x_def y_def z_def base64_digits ..
    have "x = 0 \<Longrightarrow> 32 \<le> y" using 3 d e by simp
    moreover have "x = 13 \<Longrightarrow> y < 32" using a d e by (cases "y < 32") auto
    ultimately have "utf8_lead (224 + x) ((128 + y) # (128 + z) # bs) = (cp, bs)"
      using d e by (auto simp: utf8_lead_def numeral_2_eq_2)
    moreover have "utf8 cp = [224 + x, 128 + y, 128 + z]" using 3 by (simp add: utf8_def x_def y_def z_def)
    ultimately show ?thesis by simp
  next
    case 4
    define w x y z where "w = cp div 262144" and "x = cp div 4096 mod 64" and "y = cp div 64 mod 64" and "z = cp mod 64"
    have d: "x < 64" "y < 64" "z < 64" by (simp_all add: x_def y_def z_def)
    have e: "((w * 64 + x) * 64 + y) * 64 + z = cp"
      unfolding w_def x_def y_def z_def base64_digits ..
    then have f: "w * 262144 + x * 4096 + y * 64 + z = cp" by (simp add: distrib_right mult.assoc)
    have "w < 5" using a(1) f by linarith
    moreover have "w = 0 \<Longrightarrow> 16 \<le> x" using 4 d f by linarith
    moreover have "w = 4 \<Longrightarrow> x < 16" using a(1) d f by linarith
    ultimately have "utf8_lead (240 + w) ((128 + x) # (128 + y) # (128 + z) # bs) = (cp, bs)"
      using d e by (auto simp: utf8_lead_def numeral_3_eq_3)
    moreover have "utf8 cp = [240 + w, 128 + x, 128 + y, 128 + z]" using 4 by (simp add: utf8_def w_def x_def y_def z_def)
    ultimately show ?thesis by simp
  qed
qed

lemma utf8_decode_encode: "list_all scalar cps \<Longrightarrow> utf8_decode (concat (map utf8 cps)) = cps"
proof (induction cps)
  case (Cons cp cps)
  then have "scalar cp" by simp
  from utf8_lead_scalar [OF this, of "concat (map utf8 cps)"] obtain b bs where
    "utf8 cp = b # bs" "utf8_lead b (bs @ concat (map utf8 cps)) = (cp, concat (map utf8 cps))" by blast
  then show ?case using Cons by simp
qed simp

lemma scalar_of_digits:
  "n < 16 \<Longrightarrow> x < 64 \<Longrightarrow> y < 64 \<Longrightarrow> (n = 13 \<Longrightarrow> x < 32) \<Longrightarrow> scalar ((n * 64 + x) * 64 + y)"
  "n < 5 \<Longrightarrow> x < 64 \<Longrightarrow> y < 64 \<Longrightarrow> z < 64 \<Longrightarrow> (n = 0 \<Longrightarrow> 16 \<le> x) \<Longrightarrow> (n = 4 \<Longrightarrow> x < 16) \<Longrightarrow>
     scalar (((n * 64 + x) * 64 + y) * 64 + z)"
proof -
  assume a: "n < 16" "x < 64" "y < 64" "n = 13 \<Longrightarrow> x < 32"
  consider "n \<le> 12" | "n = 13" | "14 \<le> n" by linarith
  then show "scalar ((n * 64 + x) * 64 + y)" using a by cases (simp_all add: scalar_def distrib_right mult.assoc)
next
  assume "n < 5" "x < 64" "y < 64" "z < 64" "n = 0 \<Longrightarrow> 16 \<le> x" "n = 4 \<Longrightarrow> x < 16"
  then have a: "n < 5" "x < 64" "y < 64" "z < 64" and b: "n = 4 \<Longrightarrow> x < 16" "n = 0 \<Longrightarrow> 16 \<le> x" by blast+
  have e: "((n * 64 + x) * 64 + y) * 64 + z = n * 262144 + x * 4096 + y * 64 + z" by (simp add: distrib_right mult.assoc)
  consider "n = 0" | "1 \<le> n" "n \<le> 3" | "n = 4" using a(1) by linarith
  then show "scalar (((n * 64 + x) * 64 + y) * 64 + z)"
    unfolding e scalar_def using a b by cases simp_all
qed

lemma utf8_lead_is_scalar: "scalar (fst (utf8_lead b bs))"
proof -
  have 1: "scalar (fst (utf8_tail 1 128 191 n cs))" if "n < 32" "2 \<le> n" for n cs
    using that by (cases cs) (auto simp: scalar_def)
  have bad: "scalar 65533" by (simp add: scalar_def)
  have 2: "scalar (fst (utf8_tail 2 lo hi n cs))"
    if n: "n < 16" "n = 13 \<Longrightarrow> hi = 159" "128 \<le> lo" "hi \<le> 191" for n lo hi cs
  proof (cases "\<exists>a c r. cs = a # c # r \<and> lo \<le> a \<and> a \<le> hi \<and> 128 \<le> c \<and> c \<le> 191")
    case True
    then obtain a c r where c: "cs = a # c # r" "lo \<le> a" "a \<le> hi" "128 \<le> c" "c \<le> 191" by blast
    with n have "a - 128 < 64" "c - 128 < 64" "n = 13 \<Longrightarrow> a - 128 < 32" by auto
    from scalar_of_digits(1) [OF n(1) this] c show ?thesis by (simp add: numeral_2_eq_2)
  next
    case False
    then have "fst (utf8_tail 2 lo hi n cs) = 65533"
      by (cases cs; cases "tl cs") (auto simp: numeral_2_eq_2)
    with bad show ?thesis by simp
  qed
  have 3: "scalar (fst (utf8_tail 3 lo hi n cs))"
    if n: "n < 5" "n = 0 \<Longrightarrow> lo = 144" "n = 4 \<Longrightarrow> hi = 143" "128 \<le> lo" "hi \<le> 191" for n lo hi cs
  proof (cases "\<exists>a c d r. cs = a # c # d # r \<and> lo \<le> a \<and> a \<le> hi \<and> 128 \<le> c \<and> c \<le> 191 \<and> 128 \<le> d \<and> d \<le> 191")
    case True
    then obtain a c d r where c: "cs = a # c # d # r" "lo \<le> a" "a \<le> hi" "128 \<le> c" "c \<le> 191" "128 \<le> d" "d \<le> 191" by blast
    with n have "a - 128 < 64" "c - 128 < 64" "d - 128 < 64" "n = 0 \<Longrightarrow> 16 \<le> a - 128" "n = 4 \<Longrightarrow> a - 128 < 16" by auto
    from scalar_of_digits(2) [OF n(1) this] c show ?thesis by (simp add: numeral_3_eq_3)
  next
    case False
    then have "fst (utf8_tail 3 lo hi n cs) = 65533"
      by (cases cs; cases "tl cs"; cases "tl (tl cs)") (auto simp: numeral_3_eq_3)
    with bad show ?thesis by simp
  qed
  have 0: "b < 128 \<Longrightarrow> scalar b" by (simp add: scalar_def)
  show ?thesis
    unfolding utf8_lead_def by (auto simp del: One_nat_def intro!: 0 bad 1 2 3)
qed

lemma utf8_decode_scalar: "list_all scalar (utf8_decode bs)"
  by (induction bs rule: utf8_decode.induct) (simp_all add: utf8_lead_is_scalar)

section \<open>URLSearchParams\<close>

text \<open>A list of pairs; its strings are scalar values.\<close>

definition usv :: "jstr \<Rightarrow> jstr" where
  "usv s = encode (map to_scalar (decode s))"

type_synonym url_params = "(jstr \<times> jstr) list"

definition params_append :: "jstr \<Rightarrow> jstr \<Rightarrow> url_params \<Rightarrow> url_params" where
  "params_append k v ps = ps @ [(usv k, usv v)]"

text \<open>\<open>set\<close>: the first pair of that name gets the value, the others go.\<close>

fun replace_pair :: "jstr \<Rightarrow> jstr \<Rightarrow> url_params \<Rightarrow> url_params" where
  "replace_pair k v [] = [(k, v)]"
| "replace_pair k v ((k', v') # ps) =
     (if k' = k then (k, v) # filter (\<lambda>p. fst p \<noteq> k) ps else (k', v') # replace_pair k v ps)"

definition params_set :: "jstr \<Rightarrow> jstr \<Rightarrow> url_params \<Rightarrow> url_params" where
  "params_set k v ps = replace_pair (usv k) (usv v) ps"

text \<open>\<open>toString\<close>: \<open>application/x-www-form-urlencoded\<close>.\<close>

definition form_byte :: "nat \<Rightarrow> jstr" where
  "form_byte b =
     (if b = 32 then [uc CHR ''+'']
      else if (97 \<le> b \<and> b \<le> 122) \<or> (65 \<le> b \<and> b \<le> 90) \<or> (48 \<le> b \<and> b \<le> 57) \<or> b \<in> {42, 45, 46, 95}
      then [of_nat b] else percent b)"

definition form_encode :: "jstr \<Rightarrow> jstr" where
  "form_encode s = concat (map form_byte (utf8_bytes s))"

definition printed_pair :: "jstr \<times> jstr \<Rightarrow> jstr" where
  "printed_pair p = form_encode (fst p) @ js ''='' @ form_encode (snd p)"

definition params_to_string :: "url_params \<Rightarrow> jstr" where
  "params_to_string ps = intercalate (js ''&'') (map printed_pair ps)"

text \<open>\<open>new URLSearchParams(text)\<close>\<close>

definition hex_byte :: "nat \<Rightarrow> nat option" where
  "hex_byte b =
     (if 48 \<le> b \<and> b \<le> 57 then Some (b - 48) else if 65 \<le> b \<and> b \<le> 70 then Some (b - 55)
      else if 97 \<le> b \<and> b \<le> 102 then Some (b - 87) else None)"

fun percent_decode :: "nat list \<Rightarrow> nat list" where
  "percent_decode (p # a # b # bs) =
     (case (if p = 37 then hex_byte a else None, hex_byte b) of
        (Some m, Some n) \<Rightarrow> (16 * m + n) # percent_decode bs
      | _ \<Rightarrow> p # percent_decode (a # b # bs))"
| "percent_decode bs = bs"

definition form_decode :: "nat list \<Rightarrow> jstr" where
  "form_decode bs = encode (utf8_decode (percent_decode (map (\<lambda>b. if b = 43 then 32 else b) bs)))"

fun split_byte :: "nat \<Rightarrow> nat list \<Rightarrow> nat list list" where
  "split_byte c [] = [[]]"
| "split_byte c (b # bs) =
     (if b = c then [] # split_byte c bs
      else case split_byte c bs of [] \<Rightarrow> [[b]] | p # ps \<Rightarrow> (b # p) # ps)"

definition parse_pair :: "nat list \<Rightarrow> jstr \<times> jstr" where
  "parse_pair bs = (form_decode (takeWhile (\<lambda>b. b \<noteq> 61) bs), form_decode (tl (dropWhile (\<lambda>b. b \<noteq> 61) bs)))"

definition params_parse :: "jstr \<Rightarrow> url_params" where
  "params_parse s =
     (let t = (if s \<noteq> [] \<and> hd s = uc CHR ''?'' then tl s else s)
      in map parse_pair (filter (\<lambda>bs. bs \<noteq> []) (split_byte 38 (utf8_bytes t))))"

section \<open>Parsing reads what was printed\<close>

lemma unit_bound: "unat (u :: 16 word) < 65536"
  using unsigned_less [of u] by simp

lemma decode_bound: "list_all (\<lambda>cp. cp < 1114112) (decode s)"
proof (induction s rule: decode.induct)
  case (3 u w s)
  show ?case using 3 unit_bound [of u] unit_bound [of w] by (auto simp: is_high_def is_low_def)
next
  case (2 u)
  show ?case using unit_bound [of u] by simp
qed simp

lemma to_scalar_scalar: "list_all scalar (map to_scalar (decode s))"
  using decode_bound [of s] by (auto simp: list_all_iff to_scalar_def scalar_def)

lemma wf16_encode: "list_all scalar cps \<Longrightarrow> wf16 (encode cps)"
  by (simp add: wf16_def decode_encode)

lemma usv_wf16: "wf16 (usv s)"
  unfolding usv_def by (rule wf16_encode [OF to_scalar_scalar])

lemma encode_decode [simp]: "encode (decode s) = s"
proof (induction s rule: decode.induct)
  case (3 u w s)
  show ?case
  proof (cases "is_high u \<and> is_low w")
    case True
    let ?m = "unat u - 55296" and ?n = "unat w - 56320"
    have "?n < 1024" using True by (auto simp: is_low_def)
    then have "(?m * 1024 + ?n) div 1024 = ?m" "(?m * 1024 + ?n) mod 1024 = ?n" by simp_all
    then have "encode_point (65536 + ?m * 1024 + ?n) = [of_nat (55296 + ?m), of_nat (56320 + ?n)]"
      by (simp add: encode_point_def del: of_nat_add)
    moreover have "55296 + ?m = unat u" "56320 + ?n = unat w" using True by (auto simp: is_high_def is_low_def)
    ultimately show ?thesis using 3(1) [OF True] True by (simp add: encode_def del: of_nat_add)
  next
    case False
    then have "decode (u # w # s) = unat u # decode (w # s)" by auto
    then show ?thesis using 3(2) [OF False] unit_bound [of u] by (simp only:) (simp add: encode_def encode_point_def)
  qed
qed (simp_all add: encode_def encode_point_def unit_bound)

lemma to_scalar_id: "list_all scalar cps \<Longrightarrow> map to_scalar cps = cps"
  by (induction cps) (auto simp: to_scalar_def scalar_def)

lemma usv_id: "wf16 s \<Longrightarrow> usv s = s"
  by (simp add: usv_def wf16_def to_scalar_id)

lemma utf8_decode_bytes: "wf16 s \<Longrightarrow> utf8_decode (utf8_bytes s) = decode s"
  using utf8_decode_encode [of "decode s"] to_scalar_id [of "decode s"]
  by (simp add: utf8_bytes_def wf16_def flip: map_map [of utf8 to_scalar, unfolded comp_def])

lemma utf8_byte_range: "scalar cp \<Longrightarrow> b \<in> set (utf8 cp) \<Longrightarrow> b < 256"
  by (auto simp: utf8_def scalar_def split: if_splits)

lemma utf8_bytes_range: "b \<in> set (utf8_bytes s) \<Longrightarrow> b < 256"
  using to_scalar_scalar [of s] by (auto simp: utf8_bytes_def list_all_iff dest: utf8_byte_range)

text \<open>An ASCII text is its own encoding.\<close>

definition ascii :: "jstr \<Rightarrow> bool" where
  "ascii s \<longleftrightarrow> list_all (\<lambda>u. unat u < 128) s"

lemma utf8_bytes_ascii: "ascii s \<Longrightarrow> utf8_bytes s = map unat s"
proof (induction s rule: decode.induct)
  case (3 u w s)
  then have "\<not> is_high u" by (simp add: ascii_def is_high_def)
  then have d: "decode (u # w # s) = unat u # decode (w # s)" by simp
  have "utf8_bytes (w # s) = map unat (w # s)" using 3(2) \<open>\<not> is_high u\<close> 3(3) by (simp add: ascii_def)
  then show ?case using 3(3) unfolding utf8_bytes_def d by (simp add: ascii_def to_scalar_def utf8_def)
qed (simp_all add: utf8_bytes_def ascii_def to_scalar_def utf8_def)

lemma hex_upper_unat: "d < 16 \<Longrightarrow> unat (hex_upper d) = (if d < 10 then 48 + d else 55 + d)"
  by (simp add: hex_upper_def unat16 del: of_nat_add)

lemma hex_byte_upper: "d < 16 \<Longrightarrow> hex_byte (unat (hex_upper d)) = Some d"
  by (simp add: hex_upper_unat hex_byte_def)

lemma percent_unat: "b < 256 \<Longrightarrow> map unat (percent b) = [37, unat (hex_upper (b div 16)), unat (hex_upper (b mod 16))]"
  by (simp add: percent_def unat_uc)

lemma percent_decode_other: "p \<noteq> 37 \<Longrightarrow> percent_decode (p # bs) = p # percent_decode bs"
  by (cases bs; cases "tl bs") auto

lemma form_byte_cases:
  "form_byte b = percent b \<or> form_byte b = [43] \<and> b = 32 \<or>
   form_byte b = [of_nat b] \<and> b < 128 \<and> b \<noteq> 32 \<and> b \<noteq> 37 \<and> b \<noteq> 38 \<and> b \<noteq> 43 \<and> b \<noteq> 61 \<and> b \<noteq> 63"
  by (auto simp: form_byte_def uc_def)

lemma form_byte_unat:
  assumes "b < 256"
  shows "(\<forall>x\<in>set (map unat (form_byte b)). x < 128 \<and> x \<noteq> 38 \<and> x \<noteq> 61 \<and> x \<noteq> 63) \<and> form_byte b \<noteq> [] \<and>
    percent_decode (map (\<lambda>b. if b = 43 then 32 else b) (map unat (form_byte b)) @ bs) = b # percent_decode bs"
  using form_byte_cases [of b]
proof (elim disjE conjE)
  have d: "b div 16 < 16" "b mod 16 < 16" using assms by (simp_all add: less_mult_imp_div_less)
  have r: "unat (hex_upper d) < 128 \<and> unat (hex_upper d) \<notin> {38, 43, 61, 63}" if "d < 16" for d
    using hex_upper_unat [OF that] that by auto
  assume p: "form_byte b = percent b"
  then have m: "map unat (form_byte b) = [37, unat (hex_upper (b div 16)), unat (hex_upper (b mod 16))]"
    using percent_unat [OF assms] by simp
  show ?thesis unfolding m using r [OF d(1)] r [OF d(2)] d by (simp add: hex_byte_upper p percent_def)
qed (simp_all add: unat16 percent_decode_other)

lemma form_bytes:
  assumes "list_all (\<lambda>b. b < 256) bs"
  shows "list_all (\<lambda>x. x < 128 \<and> x \<noteq> 38 \<and> x \<noteq> 61 \<and> x \<noteq> 63) (map unat (concat (map form_byte bs)))"
    and "percent_decode (map (\<lambda>b. if b = 43 then 32 else b) (map unat (concat (map form_byte bs)))) = bs"
  using assms
proof (induction bs)
  case (Cons b bs)
  {
    case 1
    then show ?case using Cons.IH(1) form_byte_unat [of b "[]"] by (auto simp: list_all_iff)
  next
    case 2
    then show ?case
      using Cons.IH(2) form_byte_unat [of b "map (\<lambda>b. if b = 43 then 32 else b) (map unat (concat (map form_byte bs)))"]
      by simp
  }
qed simp_all

lemma utf8_bytes_all: "list_all (\<lambda>b. b < 256) (utf8_bytes s)"
  using utf8_bytes_range by (auto simp: list_all_iff)

lemma form_encode_plain: "list_all (\<lambda>x. x < 128 \<and> x \<noteq> 38 \<and> x \<noteq> 61 \<and> x \<noteq> 63) (map unat (form_encode s))"
  unfolding form_encode_def by (rule form_bytes(1) [OF utf8_bytes_all])

lemma form_decode_encode: "wf16 s \<Longrightarrow> form_decode (map unat (form_encode s)) = s"
  unfolding form_decode_def form_encode_def form_bytes(2) [OF utf8_bytes_all]
  by (simp add: utf8_decode_bytes)

lemma split_byte_piece: "list_all (\<lambda>b. b \<noteq> c) p \<Longrightarrow> split_byte c p = [p]"
  by (induction p) auto

lemma split_byte_append: "list_all (\<lambda>b. b \<noteq> c) p \<Longrightarrow> split_byte c (p @ c # bs) = p # split_byte c bs"
  by (induction p) auto

lemma printed_pair_bytes:
  "list_all (\<lambda>x. x < 128 \<and> x \<noteq> 38 \<and> x \<noteq> 63) (map unat (printed_pair p))" "map unat (printed_pair p) \<noteq> []"
  using form_encode_plain [of "fst p"] form_encode_plain [of "snd p"]
  by (auto simp: printed_pair_def list_all_iff js_Cons unat_uc)

lemma split_at:
  "\<forall>x\<in>set xs. x \<noteq> c \<Longrightarrow> takeWhile (\<lambda>b. b \<noteq> c) (xs @ c # ys) = xs \<and> dropWhile (\<lambda>b. b \<noteq> c) (xs @ c # ys) = c # ys"
  by (induction xs) auto

lemma parse_printed_pair:
  assumes "wf16 (fst p)" "wf16 (snd p)"
  shows "parse_pair (map unat (printed_pair p)) = p"
proof -
  have f: "\<forall>x\<in>set (map unat (form_encode (fst p))). x \<noteq> 61"
    using form_encode_plain [of "fst p"] by (simp add: list_all_iff)
  have m: "map unat (printed_pair p) = map unat (form_encode (fst p)) @ 61 # map unat (form_encode (snd p))"
    by (simp add: printed_pair_def js_Cons unat_uc)
  have "takeWhile (\<lambda>b. b \<noteq> 61) (map unat (printed_pair p)) = map unat (form_encode (fst p))"
    "dropWhile (\<lambda>b. b \<noteq> 61) (map unat (printed_pair p)) = 61 # map unat (form_encode (snd p))"
    unfolding m using split_at [OF f] by blast+
  then show ?thesis using assms by (simp add: parse_pair_def form_decode_encode)
qed

lemma split_printed:
  "ps \<noteq> [] \<Longrightarrow> split_byte 38 (map unat (intercalate (js ''&'') (map printed_pair ps))) = map (map unat \<circ> printed_pair) ps"
proof (induction ps rule: induct_list012)
  case (2 p)
  show ?case using printed_pair_bytes(1) [of p] by (simp add: split_byte_piece list_all_iff)
next
  case (3 p q ps)
  have "map unat (intercalate (js ''&'') (map printed_pair (p # q # ps)))
      = map unat (printed_pair p) @ 38 # map unat (intercalate (js ''&'') (map printed_pair (q # ps)))"
    by (simp add: js_Cons unat_uc)
  moreover have "list_all (\<lambda>b. b \<noteq> 38) (map unat (printed_pair p))"
    using printed_pair_bytes(1) [of p] by (simp add: list_all_iff)
  ultimately show ?case using 3(2) by (simp add: split_byte_append)
qed simp

lemma printed_ascii: "list_all (\<lambda>u. unat u < 128 \<and> unat u \<noteq> 63) (intercalate (js ''&'') (map printed_pair ps))"
proof (induction ps rule: induct_list012)
  case (2 p)
  show ?case using printed_pair_bytes(1) [of p] by (simp add: list_all_iff)
next
  case (3 p q ps)
  then show ?case using printed_pair_bytes(1) [of p] by (simp add: list_all_iff js_Cons unat_uc ball_Un)
qed simp

lemma params_parse_string:
  assumes "list_all (\<lambda>p. wf16 (fst p) \<and> wf16 (snd p)) ps"
  shows "params_parse (params_to_string ps) = ps"
proof (cases "ps = []")
  case True
  then show ?thesis by (simp add: params_parse_def params_to_string_def utf8_bytes_def)
next
  case False
  let ?s = "intercalate (js ''&'') (map printed_pair ps)"
  have s: "params_to_string ps = ?s" by (simp add: params_to_string_def)
  have "\<not> (?s \<noteq> [] \<and> hd ?s = uc CHR ''?'')"
  proof
    assume "?s \<noteq> [] \<and> hd ?s = uc CHR ''?''"
    then have "uc CHR ''?'' \<in> set ?s" by (metis hd_in_set)
    with printed_ascii [of ps] show False by (auto simp: list_all_iff unat_uc)
  qed
  then have "(if ?s \<noteq> [] \<and> hd ?s = uc CHR ''?'' then tl ?s else ?s) = ?s" by (rule if_not_P)
  moreover have "utf8_bytes ?s = map unat ?s"
    using printed_ascii [of ps] by (intro utf8_bytes_ascii) (simp add: ascii_def list_all_iff)
  ultimately have "params_parse ?s = map parse_pair (filter (\<lambda>bs. bs \<noteq> []) (map (map unat \<circ> printed_pair) ps))"
    unfolding params_parse_def Let_def by (simp only: split_printed [OF False])
  also have "filter (\<lambda>bs. bs \<noteq> []) (map (map unat \<circ> printed_pair) ps) = map (map unat \<circ> printed_pair) ps"
    using printed_pair_bytes(2) by (auto simp: filter_id_conv)
  also have "map parse_pair \<dots> = ps"
    using assms by (induction ps) (simp_all add: parse_printed_pair)
  finally show ?thesis by (simp add: s)
qed

lemma params_parse_wf16: "(k, v) \<in> set (params_parse s) \<Longrightarrow> wf16 k \<and> wf16 v"
  by (auto simp: params_parse_def parse_pair_def form_decode_def intro!: wf16_encode utf8_decode_scalar)

end
