(* ===== verification/Client.thy ===== *)
theory Client
  imports Pins Promotion Trust Attestation Middleware Uri
begin

text \<open>
  \<open>GlyphClient\<close> of \<open>packages/client/src/index.ts\<close>: the gates that stand before a call (pins,
  provider trust, attestation), the verification of the receipt after it, approvals and
  revocations, and the autonomous audits. Each method is a sequence of steps on the client's
  state; a thrown error is the left value and leaves the state changed so far. The server is an
  adversary: its answer may depend on the whole history of requests. Identifiers and times are
  arguments. A served body has its declared type.
\<close>

section \<open>Requests\<close>

datatype client_request =
    Get_Request jstr "(jstr, jstr) omap"
  | Post_Request jstr "(jstr, jstr) omap" "jstr option"

fun is_post :: "client_request \<Rightarrow> bool" where
  "is_post (Get_Request _ _) = False"
| "is_post (Post_Request _ _ _) = True"

text \<open>\<open>Not_Ok\<close> is a status outside 200--299 with the body's text; \<open>Bad_Body\<close> is not JSON.\<close>

datatype 'a reply = No_Reply | Not_Ok int jstr | Bad_Body | Reply 'a

record network =
  nt_handshake :: "client_request list \<Rightarrow> client_request \<Rightarrow> handshake_response reply"
  nt_lexicon :: "client_request list \<Rightarrow> client_request \<Rightarrow> lexicon_entry list reply"
  nt_card :: "client_request list \<Rightarrow> client_request \<Rightarrow> glyph_card reply"
  nt_ticket :: "client_request list \<Rightarrow> client_request \<Rightarrow> confirmation_ticket reply"
  nt_envelope :: "client_request list \<Rightarrow> client_request \<Rightarrow> sealed_envelope reply"
  nt_manifest :: "client_request list \<Rightarrow> client_request \<Rightarrow> update_manifest reply"
  nt_providers :: "client_request list \<Rightarrow> client_request \<Rightarrow> providers_registry reply"

section \<open>Configuration, state and errors\<close>

record client_config =
  cc_crypto :: crypto
  cc_net :: network
  cc_baseUrl :: jstr
  cc_consumerId :: jstr
  cc_contextBudget :: int
  cc_authToken :: "jstr option"
  cc_extraHeaders :: "(jstr, jstr) omap"
  cc_secureMode :: bool
  cc_autoApproveReviewChanges :: bool
  cc_verifyReceipts :: bool
  cc_trustEnabled :: bool
  cc_trustAllowUnknown :: bool
  cc_trustWorld :: "client_request list \<Rightarrow> trust_world"
  cc_tofu :: bool
  cc_resilientUpdates :: bool
  cc_autoPromotionPolicy :: "promotion_policy option"
  cc_requireAttestation :: att_policy
  cc_verifiers :: verifier_registry

record audit_decision =
  ad_report :: audit_report
  ad_promoted :: bool
  ad_reasons :: "jstr list"

text \<open>
  \<open>cl_requests\<close> is the history of requests sent; \<open>cl_parked\<close> and \<open>cl_decisions\<close> are what the
  hooks \<open>onPendingAudit\<close> and \<open>onAuditComplete\<close> were given; \<open>cl_background\<close> counts the audit
  passes scheduled and not yet run; \<open>cl_timers\<close> are the live interval timers.
\<close>

record client_state =
  cl_cache :: "(jstr, glyph_card) omap"
  cl_pins :: "pin_backend option"
  cl_queue :: "queue_backend option"
  cl_resolver :: "trust_resolver option"
  cl_requests :: "client_request list"
  cl_parked :: "pending_entry list"
  cl_decisions :: "audit_decision list"
  cl_runnerActive :: bool
  cl_runnerHandle :: "nat option"
  cl_timers :: "nat list"
  cl_nextTimer :: nat
  cl_background :: nat

datatype pin_status = Status_New | Status_Unchanged | Status_Changed | Status_Revoked

datatype trust_reason = Unknown_Provider | Untrusted_Key

datatype client_error =
    Verification_Failed jstr
  | Tool_Revoked jstr "jstr option"
  | Trust_Refused jstr trust_reason
  | Not_Approved jstr pin_status "card_diff option"
  | Attestation_Refused jstr jstr
  | No_Pin_Store
  | Nothing_To_Revoke jstr
  | Http_Failed jstr int jstr
  | Network_Failed
  | Malformed_Body
  | Malformed_Uri
  | Store_Failed store_error
  | Verifier_Threw
  | Type_Error

type_synonym 'a client_step = "(client_state, client_error, 'a) step"

section \<open>Construction\<close>

record client_options =
  op_baseUrl :: jstr
  op_consumerId :: "jstr option"
  op_contextBudget :: "int option"
  op_authToken :: "jstr option"
  op_headers :: "(jstr, jstr) omap option"
  op_pins :: "pin_backend option"
  op_secureMode :: "bool option"
  op_autoApproveReviewChanges :: "bool option"
  op_verifyReceipts :: "bool option"
  op_trust :: "(bool \<times> trust_resolver option \<times> bool option) option"
  op_requireAttestation :: "att_policy option"
  op_attestationVerifiers :: "verifier list option"
  op_resilientUpdates :: "bool option"
  op_pendingAuditQueue :: "queue_backend option"
  op_tofu :: "bool option"
  op_autoPromotionPolicy :: "promotion_policy option"

datatype option_error = Secure_Mode_Needs_Pins | Resilient_Needs_Pins | Tofu_Needs_Pins | Production_Needs_Pins

definition builtin_verifiers :: verifier_registry where
  "builtin_verifiers =
     registry_register \<lparr>vf_type = slsa_type, vf_verify = slsa_verify\<rparr>
       (registry_register \<lparr>vf_type = sigstore_type, vf_verify = sigstore_verify\<rparr> [])"

definition client_verifiers :: "verifier list \<Rightarrow> verifier_registry" where
  "client_verifiers vs = foldl (\<lambda>m v. registry_register v m) builtin_verifiers vs"

definition client_config_of :: "crypto \<Rightarrow> network \<Rightarrow> (client_request list \<Rightarrow> trust_world) \<Rightarrow> jstr
    \<Rightarrow> client_options \<Rightarrow> client_config" where
  "client_config_of C net world uuid opts =
     \<lparr>cc_crypto = C, cc_net = net, cc_baseUrl = strip_slash (op_baseUrl opts),
      cc_consumerId = default_to uuid (op_consumerId opts),
      cc_contextBudget = default_to 50000 (op_contextBudget opts), cc_authToken = op_authToken opts,
      cc_extraHeaders = default_to [] (op_headers opts),
      cc_secureMode = default_to False (op_secureMode opts),
      cc_autoApproveReviewChanges = default_to False (op_autoApproveReviewChanges opts),
      cc_verifyReceipts = default_to True (op_verifyReceipts opts),
      cc_trustEnabled = (case op_trust opts of None \<Rightarrow> False | Some (e, _, _) \<Rightarrow> e),
      cc_trustAllowUnknown = (case op_trust opts of None \<Rightarrow> False | Some (_, _, a) \<Rightarrow> default_to False a),
      cc_trustWorld = world, cc_tofu = default_to False (op_tofu opts),
      cc_resilientUpdates = default_to False (op_resilientUpdates opts),
      cc_autoPromotionPolicy = op_autoPromotionPolicy opts,
      cc_requireAttestation = default_to Att_None (op_requireAttestation opts),
      cc_verifiers = client_verifiers (default_to [] (op_attestationVerifiers opts))\<rparr>"

definition initial_client :: "client_options \<Rightarrow> client_state" where
  "initial_client opts =
     \<lparr>cl_cache = [], cl_pins = op_pins opts,
      cl_queue = (case op_pendingAuditQueue opts of
                    Some q \<Rightarrow> Some q
                  | None \<Rightarrow> if flag (op_resilientUpdates opts) then Some (Memory_Queue []) else None),
      cl_resolver = (case op_trust opts of None \<Rightarrow> None | Some (_, r, _) \<Rightarrow> r),
      cl_requests = [], cl_parked = [], cl_decisions = [], cl_runnerActive = False,
      cl_runnerHandle = None, cl_timers = [], cl_nextTimer = 0, cl_background = 0\<rparr>"

definition new_client :: "crypto \<Rightarrow> network \<Rightarrow> (client_request list \<Rightarrow> trust_world) \<Rightarrow> jstr
    \<Rightarrow> client_options \<Rightarrow> option_error + client_config \<times> client_state" where
  "new_client C net world uuid opts =
     (if flag (op_secureMode opts) \<and> op_pins opts = None then Inl Secure_Mode_Needs_Pins
      else if flag (op_resilientUpdates opts) \<and> op_pins opts = None then Inl Resilient_Needs_Pins
      else if flag (op_tofu opts) \<and> op_pins opts = None then Inl Tofu_Needs_Pins
      else Inr (client_config_of C net world uuid opts, initial_client opts))"

text \<open>\<open>{ secureMode: true, ..., ...options }\<close>: a given option overrides the hardened default.\<close>

definition or_option :: "'a \<Rightarrow> 'a option \<Rightarrow> 'a option" where
  "or_option d x = (case x of None \<Rightarrow> Some d | Some v \<Rightarrow> Some v)"

definition production_client :: "crypto \<Rightarrow> network \<Rightarrow> (client_request list \<Rightarrow> trust_world) \<Rightarrow> jstr
    \<Rightarrow> client_options \<Rightarrow> option_error + client_config \<times> client_state" where
  "production_client C net world uuid opts =
     (if op_pins opts = None then Inl Production_Needs_Pins
      else new_client C net world uuid
        (opts\<lparr>op_secureMode := or_option True (op_secureMode opts),
              op_verifyReceipts := or_option True (op_verifyReceipts opts),
              op_autoApproveReviewChanges := or_option False (op_autoApproveReviewChanges opts),
              op_tofu := or_option False (op_tofu opts)\<rparr>))"

section \<open>HTTP\<close>

definition buildHeaders :: "client_config \<Rightarrow> bool \<Rightarrow> (jstr, jstr) omap" where
  "buildHeaders cfg json =
     (let h = (if json then omap_set (js ''content-type'') (js ''application/json'') (cc_extraHeaders cfg)
               else cc_extraHeaders cfg)
      in if truthy (cc_authToken cfg)
         then omap_set (js ''authorization'') (js ''Bearer '' @ the (cc_authToken cfg)) h else h)"

definition fetch_reply ::
  "(client_request list \<Rightarrow> client_request \<Rightarrow> 'a reply) \<Rightarrow> client_request \<Rightarrow> 'a reply client_step" where
  "fetch_reply answer q s =
     (case answer (cl_requests s) q of
        No_Reply \<Rightarrow> (Inl Network_Failed, s\<lparr>cl_requests := cl_requests s @ [q]\<rparr>)
      | r \<Rightarrow> (Inr r, s\<lparr>cl_requests := cl_requests s @ [q]\<rparr>))"

definition body_or_throw :: "jstr \<Rightarrow> 'a reply \<Rightarrow> 'a client_step" where
  "body_or_throw what r =
     (case r of
        Reply v \<Rightarrow> return v
      | Not_Ok status text \<Rightarrow> throw (Http_Failed what status text)
      | _ \<Rightarrow> throw Malformed_Body)"

definition client_get ::
  "client_config \<Rightarrow> (client_request list \<Rightarrow> client_request \<Rightarrow> 'a reply) \<Rightarrow> jstr \<Rightarrow> 'a client_step" where
  "client_get cfg answer path =
     and_then (fetch_reply answer (Get_Request (cc_baseUrl cfg @ path) (buildHeaders cfg False)))
       (body_or_throw (js ''GET '' @ path))"

definition client_post ::
  "client_config \<Rightarrow> (client_request list \<Rightarrow> client_request \<Rightarrow> 'a reply) \<Rightarrow> jstr \<Rightarrow> jsval \<Rightarrow> 'a client_step" where
  "client_post cfg answer path body =
     and_then (fetch_reply answer
         (Post_Request (cc_baseUrl cfg @ path) (buildHeaders cfg True) (json_stringify body)))
       (body_or_throw (js ''POST '' @ path))"

definition with_encoded :: "jstr \<Rightarrow> (jstr \<Rightarrow> 'a client_step) \<Rightarrow> 'a client_step" where
  "with_encoded name f = (case encodeURIComponent name of None \<Rightarrow> throw Malformed_Uri | Some e \<Rightarrow> f e)"

definition depth_str :: "card_depth \<Rightarrow> jstr" where
  "depth_str d = (case d of Minimal \<Rightarrow> js ''minimal'' | Standard \<Rightarrow> js ''standard'' | Rich \<Rightarrow> js ''rich'')"

definition client_connect :: "client_config \<Rightarrow> card_depth option \<Rightarrow> handshake_response client_step" where
  "client_connect cfg depth =
     client_post cfg (nt_handshake (cc_net cfg)) (js ''/handshake'')
       (JObj [(js ''protocolVersion'', JStr PROTOCOL_VERSION), (js ''consumerId'', JStr (cc_consumerId cfg)),
              (js ''contextBudget'', JNum (cc_contextBudget cfg)),
              (js ''preferredCardDepth'', JStr (depth_str (default_to Standard depth)))])"

definition client_getLexicon :: "client_config \<Rightarrow> lexicon_entry list client_step" where
  "client_getLexicon cfg = client_get cfg (nt_lexicon (cc_net cfg)) (js ''/lexicon'')"

definition cache_card :: "jstr \<Rightarrow> glyph_card \<Rightarrow> unit client_step" where
  "cache_card name c s =
     (Inr (), if truthy (gc_signature c) \<and> truthy (gc_publicKey c)
              then s\<lparr>cl_cache := omap_set name c (cl_cache s)\<rparr> else s)"

definition client_getCard :: "client_config \<Rightarrow> jstr \<Rightarrow> card_depth option \<Rightarrow> glyph_card client_step" where
  "client_getCard cfg name depth =
     with_encoded name (\<lambda>enc.
     and_then (client_get cfg (nt_card (cc_net cfg))
         (js ''/glyphs/'' @ enc @ (case depth of None \<Rightarrow> [] | Some d \<Rightarrow> js ''?depth='' @ depth_str d))) (\<lambda>c.
       if truthy (gc_signature c) \<and> \<not> verifyGlyph (cc_crypto cfg) c
       then throw (Verification_Failed name)
       else and_then (cache_card name c) (\<lambda>_. return c)))"

definition client_prepare :: "client_config \<Rightarrow> jstr \<Rightarrow> jsval \<Rightarrow> confirmation_ticket client_step" where
  "client_prepare cfg name input =
     with_encoded name (\<lambda>enc.
       client_post cfg (nt_ticket (cc_net cfg)) (js ''/glyphs/'' @ enc @ js ''/prepare'')
         (JObj [(js ''input'', input)]))"

section \<open>Pins\<close>

definition with_pins :: "(pin_backend, store_error, 'a) step \<Rightarrow> 'a client_step" where
  "with_pins m s =
     (case cl_pins s of
        None \<Rightarrow> (Inl No_Pin_Store, s)
      | Some b \<Rightarrow>
          (case m b of
             (Inl e, b') \<Rightarrow> (Inl (Store_Failed e), s\<lparr>cl_pins := Some b'\<rparr>)
           | (Inr a, b') \<Rightarrow> (Inr a, s\<lparr>cl_pins := Some b'\<rparr>)))"

record card_inspection =
  ci_status :: pin_status
  ci_pin :: "pin option"
  ci_diff :: "card_diff option"

definition classify_card :: "pin option \<Rightarrow> glyph_card \<Rightarrow> card_inspection" where
  "classify_card p c =
     (case p of
        None \<Rightarrow> \<lparr>ci_status = Status_New, ci_pin = None, ci_diff = None\<rparr>
      | Some pin \<Rightarrow>
          if truthy (pin_revokedAt pin) then \<lparr>ci_status = Status_Revoked, ci_pin = Some pin, ci_diff = None\<rparr>
          else if gc_id (pin_card pin) = gc_id c \<and> gc_publicKey (pin_card pin) = gc_publicKey c
          then \<lparr>ci_status = Status_Unchanged, ci_pin = Some pin, ci_diff = None\<rparr>
          else \<lparr>ci_status = Status_Changed, ci_pin = Some pin, ci_diff = Some (diffCards (pin_card pin) c)\<rparr>)"

definition client_inspectCard :: "glyph_card \<Rightarrow> card_inspection client_step" where
  "client_inspectCard c = and_then (with_pins (pins_get (gc_name c))) (\<lambda>p. return (classify_card p c))"

definition client_approveCard :: "client_config \<Rightarrow> jstr \<Rightarrow> glyph_card \<Rightarrow> bool option \<Rightarrow> pin client_step" where
  "client_approveCard cfg now c reinstate =
     (if \<not> truthy (gc_signature c) \<or> \<not> verifyGlyph (cc_crypto cfg) c then throw (Verification_Failed (gc_name c))
      else and_then (with_pins (pins_get (gc_name c))) (\<lambda>existing.
        if (case existing of None \<Rightarrow> False | Some p \<Rightarrow> truthy (pin_revokedAt p)) \<and> \<not> flag reinstate
        then throw (Tool_Revoked (gc_name c) (pin_revokeReason (the existing)))
        else
          let pin = \<lparr>pin_toolName = gc_name c, pin_approvedAt = now, pin_card = c,
                     pin_revokedAt = None, pin_revokeReason = None\<rparr>
          in and_then (with_pins (pins_set pin)) (\<lambda>_. return pin)))"

definition client_revokeTool :: "jstr \<Rightarrow> jstr \<Rightarrow> jstr option \<Rightarrow> pin client_step" where
  "client_revokeTool now toolName reason =
     and_then (with_pins (pins_get toolName)) (\<lambda>p.
       case p of
         None \<Rightarrow> throw (Nothing_To_Revoke toolName)
       | Some pin \<Rightarrow>
           if truthy (pin_revokedAt pin) then return pin
           else
             let revoked = pin\<lparr>pin_revokedAt := Some now, pin_revokeReason := reason\<rparr>
             in and_then (with_pins (pins_set revoked)) (\<lambda>_. return revoked))"

definition lexicon_status :: "pin option \<Rightarrow> lexicon_entry \<Rightarrow> pin_status" where
  "lexicon_status p e =
     (case p of
        None \<Rightarrow> Status_New
      | Some pin \<Rightarrow>
          if truthy (pin_revokedAt pin) then Status_Revoked
          else if gc_id (pin_card pin) = lx_id e then Status_Unchanged else Status_Changed)"

fun inspect_entries :: "lexicon_entry list \<Rightarrow> (jstr \<times> pin_status) list client_step" where
  "inspect_entries [] = return []"
| "inspect_entries (e # es) =
     and_then (with_pins (pins_get (lx_name e))) (\<lambda>p.
     and_then (inspect_entries es) (\<lambda>out. return ((lx_name e, lexicon_status p e) # out)))"

definition client_inspectLexicon :: "lexicon_entry list \<Rightarrow> (jstr \<times> pin_status) list client_step" where
  "client_inspectLexicon es s = (if cl_pins s = None then (Inl No_Pin_Store, s) else inspect_entries es s)"

text \<open>\<open>this.pins ? await this.pins.get(name) : undefined\<close>\<close>

definition pin_if_any :: "jstr \<Rightarrow> pin option client_step" where
  "pin_if_any name s = (if cl_pins s = None then (Inr None, s) else with_pins (pins_get name) s)"

section \<open>Signed documents\<close>

definition manifest_ok :: "client_config \<Rightarrow> jstr \<Rightarrow> update_manifest \<Rightarrow> bool" where
  "manifest_ok cfg name m \<longleftrightarrow> um_toolName m = name \<and> verifyManifest (cc_crypto cfg) m"

definition manifest_reply :: "client_config \<Rightarrow> jstr \<Rightarrow> update_manifest reply \<Rightarrow> update_manifest option client_step" where
  "manifest_reply cfg name r =
     (case r of
        Not_Ok status text \<Rightarrow>
          if status = 404 then return None
          else throw (Http_Failed (js ''GET /glyphs/'' @ name @ js ''/manifest'') status [])
      | Reply m \<Rightarrow>
          if \<not> manifest_ok cfg name m then throw (Verification_Failed name)
          else and_then (pin_if_any name) (\<lambda>p.
            case p of
              Some pin \<Rightarrow>
                if gc_publicKey (pin_card pin) \<noteq> Some (um_serverPublicKey m) then throw (Verification_Failed name)
                else return (Some m)
            | None \<Rightarrow> return (Some m))
      | _ \<Rightarrow> throw Malformed_Body)"

definition client_getManifest :: "client_config \<Rightarrow> jstr \<Rightarrow> update_manifest option client_step" where
  "client_getManifest cfg name =
     with_encoded name (\<lambda>enc.
     and_then (fetch_reply (nt_manifest (cc_net cfg))
         (Get_Request (cc_baseUrl cfg @ js ''/glyphs/'' @ enc @ js ''/manifest'') (buildHeaders cfg False)))
       (manifest_reply cfg name))"

definition client_discoverProviders :: "client_config \<Rightarrow> jstr \<Rightarrow> jstr \<Rightarrow> providers_registry client_step" where
  "client_discoverProviders cfg url trustRoot =
     and_then (fetch_reply (nt_providers (cc_net cfg)) (Get_Request url (buildHeaders cfg False))) (\<lambda>r.
     and_then (body_or_throw (js ''GET '' @ url) r) (\<lambda>registry.
       if \<not> verifyProvidersRegistry (cc_crypto cfg) registry (Some trustRoot)
       then throw (Verification_Failed (pr_registryId registry))
       else return registry))"

text \<open>The checks (a) to (f) on a receipt, in their order.\<close>

definition client_verifyReceipt ::
  "client_config \<Rightarrow> sealed_envelope \<Rightarrow> glyph_card \<Rightarrow> jstr \<Rightarrow> unit client_step" where
  "client_verifyReceipt cfg e c callId =
     (let bad = throw (Verification_Failed (gc_name c)) in
      case se_receipt e of
        None \<Rightarrow> bad
      | Some r \<Rightarrow>
          if Some (cr_serverPublicKey r) \<noteq> gc_publicKey c then bad
          else if \<not> verifyReceipt (cc_crypto cfg) r then bad
          else if cr_glyphId r \<noteq> gc_id c then bad
          else (case canonicalHash (cc_crypto cfg) (se_payload e) of
            None \<Rightarrow> throw Type_Error
          | Some outputHash \<Rightarrow>
              if outputHash \<noteq> cr_outputHash r then bad
              else if canonicalHash (cc_crypto cfg)
                   (case se_inspection e of None \<Rightarrow> JObj [] | Some i \<Rightarrow> sanitization_json i)
                   \<noteq> Some (cr_inspectionHash r) then bad
              else if nullish_or (default_to JUndef (cr_clientCallId r)) (JStr (cr_callId r)) \<noteq> JStr callId then bad
              else return ()))"

section \<open>The gates before a call\<close>

definition current_card :: "client_config \<Rightarrow> jstr \<Rightarrow> glyph_card client_step" where
  "current_card cfg name s =
     (case map_of (cl_cache s) name of Some c \<Rightarrow> (Inr c, s) | None \<Rightarrow> client_getCard cfg name None s)"

text \<open>Without a configured resolver, each call makes a new one that is dropped afterwards.\<close>

definition resolve_provider :: "client_config \<Rightarrow> jstr \<Rightarrow> trust_entry option client_step" where
  "resolve_provider cfg provider s =
     (let w = cc_trustWorld cfg (cl_requests s) in
      case cl_resolver s of
        None \<Rightarrow> (Inr (fst (trust_resolve w provider (new_resolver None [] []))), s)
      | Some r \<Rightarrow> (case trust_resolve w provider r of (e, r') \<Rightarrow> (Inr e, s\<lparr>cl_resolver := Some r'\<rparr>)))"

definition enforceTrust :: "client_config \<Rightarrow> jstr \<Rightarrow> unit client_step" where
  "enforceTrust cfg name =
     (if \<not> cc_trustEnabled cfg then return ()
      else and_then (current_card cfg name) (\<lambda>c.
        and_then (resolve_provider cfg (gc_provider c)) (\<lambda>entry.
          case entry of
            None \<Rightarrow> if cc_trustAllowUnknown cfg then return ()
                    else throw (Trust_Refused (gc_provider c) Unknown_Provider)
          | Some e \<Rightarrow>
              if \<not> truthy (gc_publicKey c) \<or> the (gc_publicKey c) \<notin> set (te_publicKeys e)
              then throw (Trust_Refused (gc_provider c) Untrusted_Key)
              else return ())))"

definition with_queue :: "'a \<Rightarrow> (queue_backend, store_error, 'a) step \<Rightarrow> 'a client_step" where
  "with_queue d m s =
     (case cl_queue s of
        None \<Rightarrow> (Inr d, s)
      | Some q \<Rightarrow>
          (case m q of
             (Inl e, q') \<Rightarrow> (Inl (Store_Failed e), s\<lparr>cl_queue := Some q'\<rparr>)
           | (Inr a, q') \<Rightarrow> (Inr a, s\<lparr>cl_queue := Some q'\<rparr>)))"

definition triggerBackgroundAudit :: "client_state \<Rightarrow> client_state" where
  "triggerBackgroundAudit s = s\<lparr>cl_background := Suc (cl_background s)\<rparr>"

definition notify_parked :: "pending_entry \<Rightarrow> unit client_step" where
  "notify_parked e s =
     (let s' = s\<lparr>cl_parked := cl_parked s @ [e]\<rparr>
      in (Inr (), if cl_runnerActive s then triggerBackgroundAudit s' else s'))"

definition park_update :: "client_config \<Rightarrow> jstr \<Rightarrow> jstr \<Rightarrow> glyph_card \<Rightarrow> card_inspection \<Rightarrow> unit client_step" where
  "park_update cfg now name c i =
     (case (ci_pin i, ci_diff i) of
        (Some pin, Some diff) \<Rightarrow>
          if cc_resilientUpdates cfg \<and> ci_status i = Status_Changed then
            let e = \<lparr>pe_toolName = name, pe_newCard = c, pe_diff = diff, pe_detectedAt = now\<rparr>
            in and_then (with_queue () (queue_put e)) (\<lambda>_. notify_parked e)
          else throw (Not_Approved name (ci_status i) (ci_diff i))
      | _ \<Rightarrow> throw (Not_Approved name (ci_status i) (ci_diff i)))"

definition approve_or_park ::
  "client_config \<Rightarrow> jstr \<Rightarrow> jstr \<Rightarrow> glyph_card \<Rightarrow> card_inspection \<Rightarrow> unit client_step" where
  "approve_or_park cfg now name c i =
     (if cc_tofu cfg \<and> ci_status i = Status_New then
        if \<not> truthy (gc_signature c) \<or> \<not> verifyGlyph (cc_crypto cfg) c then throw (Verification_Failed name)
        else with_pins (pins_set \<lparr>pin_toolName = name, pin_approvedAt = now, pin_card = c,
               pin_revokedAt = None, pin_revokeReason = None\<rparr>)
      else if cc_secureMode cfg \<and> \<not> cc_autoApproveReviewChanges cfg then park_update cfg now name c i
      else (case (ci_pin i, ci_diff i) of
          (Some pin, Some diff) \<Rightarrow>
            if ci_status i = Status_Changed \<and> \<not> df_requiresApproval diff
            then with_pins (pins_set (pin\<lparr>pin_card := c, pin_approvedAt := now\<rparr>))
            else park_update cfg now name c i
        | _ \<Rightarrow> park_update cfg now name c i))"

definition ensureApproved :: "client_config \<Rightarrow> jstr \<Rightarrow> jstr \<Rightarrow> unit client_step" where
  "ensureApproved cfg now name s =
     (if cl_pins s = None then (Inr (), s)
      else and_then (current_card cfg name) (\<lambda>c.
        if gc_name c \<noteq> name then throw (Verification_Failed name)
        else and_then (client_inspectCard c) (\<lambda>i.
          case ci_status i of
            Status_Unchanged \<Rightarrow> return ()
          | Status_Revoked \<Rightarrow> throw (Tool_Revoked name (Option.bind (ci_pin i) pin_revokeReason))
          | _ \<Rightarrow> approve_or_park cfg now name c i)) s)"

text \<open>
  The loop over the registered verifiers: whether one opened the gate, and the failures noted
  before; \<open>None\<close> is a verifier that threw.
\<close>

definition failure_note :: "jstr \<Rightarrow> verifier \<Rightarrow> attestation_result \<Rightarrow> jstr list" where
  "failure_note t v r =
     (if ar_valid r \<and> ar_trusted r = Some False then [vf_type v @ js '': structural validation only'']
      else if truthy (ar_error r) then [t @ js '': '' @ the (ar_error r)] else [])"

fun run_verifiers :: "verifier_registry \<Rightarrow> glyph_card \<Rightarrow> jstr list \<Rightarrow> jstr list \<Rightarrow> (bool \<times> jstr list) option" where
  "run_verifiers reg c [] failures = Some (False, failures)"
| "run_verifiers reg c (t # ts) failures =
     (case registry_get t reg of
        None \<Rightarrow> run_verifiers reg c ts failures
      | Some v \<Rightarrow>
          (case vf_verify v c of
             None \<Rightarrow> None
           | Some r \<Rightarrow>
               if opens_gate r then Some (True, failures)
               else run_verifiers reg c ts (failures @ failure_note t v r)))"

definition attestationValid :: "client_config \<Rightarrow> glyph_card \<Rightarrow> bool client_step" where
  "attestationValid cfg c =
     (case run_verifiers (cc_verifiers cfg) c (registry_list (cc_verifiers cfg)) [] of
        None \<Rightarrow> throw Verifier_Threw
      | Some (ok, _) \<Rightarrow> return ok)"

definition policy_str :: "att_policy \<Rightarrow> jstr" where
  "policy_str p = (case p of Att_None \<Rightarrow> js ''none'' | Att_Danger \<Rightarrow> js ''danger'' | Att_All \<Rightarrow> js ''all'')"

definition attestation_required :: "att_policy \<Rightarrow> glyph_card \<Rightarrow> bool" where
  "attestation_required p c \<longleftrightarrow> p = Att_All \<or> (p = Att_Danger \<and> co_riskTier (gc_cost c) = Danger)"

definition check_attested :: "client_config \<Rightarrow> jstr \<Rightarrow> glyph_card \<Rightarrow> unit client_step" where
  "check_attested cfg name c =
     (if \<not> attestation_required (cc_requireAttestation cfg) c then return ()
      else if gc_attestation c = None then
        throw (Attestation_Refused name
          (js ''card has no attestation (policy: '' @ policy_str (cc_requireAttestation cfg) @ js '')''))
      else case run_verifiers (cc_verifiers cfg) c (registry_list (cc_verifiers cfg)) [] of
        None \<Rightarrow> throw Verifier_Threw
      | Some (True, _) \<Rightarrow> return ()
      | Some (False, failures) \<Rightarrow>
          throw (Attestation_Refused name
            (if failures \<noteq> [] then js ''all verifiers rejected: '' @ intercalate (js ''; '') failures
             else js ''no matching verifier'')))"

definition ensureAttested :: "client_config \<Rightarrow> jstr \<Rightarrow> unit client_step" where
  "ensureAttested cfg name =
     (if cc_requireAttestation cfg = Att_None then return ()
      else and_then (current_card cfg name) (\<lambda>c.
        if gc_name c \<noteq> name then throw (Verification_Failed name) else check_attested cfg name c))"

section \<open>Calls\<close>

definition send_call ::
  "client_config \<Rightarrow> jstr \<Rightarrow> jstr \<Rightarrow> jsval \<Rightarrow> jstr option \<Rightarrow> sealed_envelope client_step" where
  "send_call cfg callId name input token =
     with_encoded name (\<lambda>enc.
       client_post cfg (nt_envelope (cc_net cfg)) (js ''/glyphs/'' @ enc @ js ''/call'')
         (JObj [(js ''input'', input), (js ''callId'', JStr callId), (js ''confirmationToken'', jopt JStr token)]))"

definition check_receipt :: "client_config \<Rightarrow> jstr \<Rightarrow> jstr \<Rightarrow> sealed_envelope \<Rightarrow> unit client_step" where
  "check_receipt cfg callId name e s =
     (if cc_secureMode cfg \<and> cc_verifyReceipts cfg \<and> cl_pins s \<noteq> None then
        and_then (with_pins (pins_get name)) (\<lambda>p.
          case p of
            None \<Rightarrow> throw (Verification_Failed name)
          | Some pin \<Rightarrow> client_verifyReceipt cfg e (pin_card pin) callId) s
      else (Inr (), s))"

definition client_call ::
  "client_config \<Rightarrow> jstr \<Rightarrow> jstr \<Rightarrow> jstr \<Rightarrow> jsval \<Rightarrow> jstr option \<Rightarrow> sealed_envelope client_step" where
  "client_call cfg now callId name input token =
     and_then (ensureApproved cfg now name) (\<lambda>_.
     and_then (enforceTrust cfg name) (\<lambda>_.
     and_then (ensureAttested cfg name) (\<lambda>_.
     and_then (send_call cfg callId name input token) (\<lambda>e.
     and_then (check_receipt cfg callId name e) (\<lambda>_. return e)))))"

definition client_invoke ::
  "client_config \<Rightarrow> jstr \<Rightarrow> jstr \<Rightarrow> jstr \<Rightarrow> jsval \<Rightarrow> jstr option \<Rightarrow> jsval client_step" where
  "client_invoke cfg now callId name input token =
     and_then (client_call cfg now callId name input token) (\<lambda>e. return (se_payload e))"

section \<open>Audits\<close>

definition client_pendingAudits :: "pending_entry list client_step" where
  "client_pendingAudits = with_queue [] queue_list"

definition startAuditRunner :: "int option \<Rightarrow> client_state \<Rightarrow> client_state" where
  "startAuditRunner intervalMs s =
     (let s' = s\<lparr>cl_runnerActive := True\<rparr> in
      case intervalMs of
        None \<Rightarrow> s'
      | Some ms \<Rightarrow>
          if ms > 0 then
            s'\<lparr>cl_runnerHandle := Some (cl_nextTimer s), cl_timers := cl_timers s @ [cl_nextTimer s],
               cl_nextTimer := Suc (cl_nextTimer s)\<rparr>
          else s')"

definition stopAuditRunner :: "client_state \<Rightarrow> client_state" where
  "stopAuditRunner s =
     (let s' = s\<lparr>cl_runnerActive := False\<rparr> in
      case cl_runnerHandle s of
        None \<Rightarrow> s'
      | Some h \<Rightarrow> s'\<lparr>cl_timers := filter (\<lambda>t. t \<noteq> h) (cl_timers s), cl_runnerHandle := None\<rparr>)"

text \<open>\<open>try { ... } catch\<close>: a throw becomes \<open>None\<close>; what the block changed stays.\<close>

definition catching :: "'a client_step \<Rightarrow> 'a option client_step" where
  "catching m s = (case m s of (Inl e, s') \<Rightarrow> (Inr None, s') | (Inr a, s') \<Rightarrow> (Inr (Some a), s'))"

definition describes_update :: "update_manifest \<Rightarrow> pending_entry \<Rightarrow> pin option \<Rightarrow> bool" where
  "describes_update m e p \<longleftrightarrow> um_newCardId m = gc_id (pe_newCard e) \<and>
     (case p of None \<Rightarrow> True | Some pin \<Rightarrow> um_previousCardId m = gc_id (pin_card pin))"

definition audit_manifest :: "client_config \<Rightarrow> pending_entry \<Rightarrow> (check_outcome \<times> jstr list) client_step" where
  "audit_manifest cfg e =
     and_then (catching
       (and_then (client_getManifest cfg (pe_toolName e)) (\<lambda>m.
          case m of
            None \<Rightarrow> return (Check_Absent, [])
          | Some man \<Rightarrow> and_then (pin_if_any (pe_toolName e)) (\<lambda>p.
              return (if describes_update man e p then (Check_Valid, [])
                      else (Check_Invalid, [js ''manifest does not describe this update''])))))) (\<lambda>r.
       return (default_to (Check_Invalid, [js ''manifest failed verification'']) r))"

definition audit_attestation :: "client_config \<Rightarrow> glyph_card \<Rightarrow> (check_outcome \<times> jstr list) client_step" where
  "audit_attestation cfg c =
     (if gc_attestation c = None then return (Check_Absent, [])
      else and_then (attestationValid cfg c) (\<lambda>ok.
        return (if ok then (Check_Valid, []) else (Check_Invalid, [js ''attestation rejected by all verifiers'']))))"

definition auditEntry :: "client_config \<Rightarrow> pending_entry \<Rightarrow> audit_report client_step" where
  "auditEntry cfg e =
     (let c = pe_newCard e;
          signatureValid = (truthy (gc_signature c) \<and> verifyGlyph (cc_crypto cfg) c)
      in and_then (audit_manifest cfg e) (\<lambda>(manifest, notes1).
         and_then (audit_attestation cfg c) (\<lambda>(attestation, notes2).
           return \<lparr>ap_toolName = pe_toolName e, ap_newCardId = gc_id c, ap_signatureValid = signatureValid,
             ap_manifest = manifest, ap_attestation = attestation, ap_diff = pe_diff e,
             ap_ok = (signatureValid \<and> manifest \<noteq> Check_Invalid \<and> attestation \<noteq> Check_Invalid),
             ap_notes = (if signatureValid then [] else [js ''card signature/content hash failed verification'']) @
                        notes1 @ notes2\<rparr>)))"

fun audit_entries :: "client_config \<Rightarrow> pending_entry list \<Rightarrow> audit_report list client_step" where
  "audit_entries cfg [] = return []"
| "audit_entries cfg (e # es) =
     and_then (auditEntry cfg e) (\<lambda>r. and_then (audit_entries cfg es) (\<lambda>rs. return (r # rs)))"

definition auditPending :: "client_config \<Rightarrow> audit_report list client_step" where
  "auditPending cfg = and_then client_pendingAudits (audit_entries cfg)"

text \<open>The decision on one report: what the queue and the pins hold now, not at the audit.\<close>

definition policy_verdict :: "client_config \<Rightarrow> audit_report \<Rightarrow> bool \<times> jstr list" where
  "policy_verdict cfg report =
     (case cc_autoPromotionPolicy cfg of
        Some policy \<Rightarrow> evaluatePromotion report policy
      | None \<Rightarrow> (False, [js ''no auto-promotion policy configured'']))"

definition promotable_entry :: "audit_report \<Rightarrow> pending_entry option \<Rightarrow> pin option \<Rightarrow> bool" where
  "promotable_entry report entry p \<longleftrightarrow>
     (case entry of None \<Rightarrow> False | Some e \<Rightarrow> gc_id (pe_newCard e) = ap_newCardId report) \<and>
     \<not> (case p of None \<Rightarrow> False | Some pin \<Rightarrow> truthy (pin_revokedAt pin))"

definition promote_report :: "client_config \<Rightarrow> (jstr \<Rightarrow> jstr) \<Rightarrow> audit_report \<Rightarrow> bool client_step" where
  "promote_report cfg nowOf report s =
     (if fst (policy_verdict cfg report) \<and> cl_pins s \<noteq> None then
        and_then (with_queue None (queue_get (ap_toolName report))) (\<lambda>entry.
        and_then (with_pins (pins_get (ap_toolName report))) (\<lambda>p.
          if promotable_entry report entry p then
            and_then (with_pins (pins_set \<lparr>pin_toolName = ap_toolName report,
                pin_approvedAt = nowOf (ap_toolName report), pin_card = pe_newCard (the entry),
                pin_revokedAt = None, pin_revokeReason = None\<rparr>)) (\<lambda>_.
            and_then (with_queue () (queue_remove (ap_toolName report))) (\<lambda>_. return True))
          else return False)) s
      else (Inr False, s))"

definition notify_decision :: "audit_decision \<Rightarrow> unit client_step" where
  "notify_decision d s = (Inr (), s\<lparr>cl_decisions := cl_decisions s @ [d]\<rparr>)"

fun promote_reports :: "client_config \<Rightarrow> (jstr \<Rightarrow> jstr) \<Rightarrow> audit_report list \<Rightarrow> audit_decision list client_step" where
  "promote_reports cfg nowOf [] = return []"
| "promote_reports cfg nowOf (r # rs) =
     and_then (promote_report cfg nowOf r) (\<lambda>promoted.
       let d = \<lparr>ad_report = r, ad_promoted = promoted, ad_reasons = snd (policy_verdict cfg r)\<rparr>
       in and_then (notify_decision d) (\<lambda>_.
          and_then (promote_reports cfg nowOf rs) (\<lambda>ds. return (d # ds))))"

definition processAudits :: "client_config \<Rightarrow> (jstr \<Rightarrow> jstr) \<Rightarrow> audit_decision list client_step" where
  "processAudits cfg nowOf s =
     (if \<not> cc_resilientUpdates cfg \<or> cl_queue s = None then (Inr [], s)
      else and_then (auditPending cfg) (promote_reports cfg nowOf) s)"

text \<open>A scheduled pass runs; its outcome and any throw are dropped.\<close>

definition background_pass :: "client_config \<Rightarrow> (jstr \<Rightarrow> jstr) \<Rightarrow> client_state \<Rightarrow> client_state" where
  "background_pass cfg nowOf s =
     (if cl_background s = 0 then s
      else snd (processAudits cfg nowOf (s\<lparr>cl_background := cl_background s - 1\<rparr>)))"

end
