(* ===== verification/Client_Gates.thy ===== *)
theory Client_Gates
  imports Client
begin

text \<open>
  What the client's methods leave alone, and what it takes to pass each gate. \<open>reads s t\<close>: from
  \<open>s\<close> to \<open>t\<close> no pin and no parked update changed and only GET requests were sent. The laws of
  the stores come from the interpretations of \<open>pin_store\<close> and \<open>audit_store\<close>.
\<close>

named_theorems reads_intros \<open>steps that only read\<close>

section \<open>The stores as seen by the client\<close>

definition pins_of :: "client_state \<Rightarrow> jstr \<Rightarrow> pin option" where
  "pins_of s t = (case cl_pins s of None \<Rightarrow> None | Some b \<Rightarrow> pins_view b t)"

definition parked_of :: "client_state \<Rightarrow> jstr \<Rightarrow> pending_entry option" where
  "parked_of s t = (case cl_queue s of None \<Rightarrow> None | Some q \<Rightarrow> queue_view q t)"

lemma views [simp]:
  "cl_pins s = Some b \<Longrightarrow> pins_of s = pins_view b" "cl_pins s = None \<Longrightarrow> pins_of s = (\<lambda>_. None)"
  "cl_queue s = Some q \<Longrightarrow> parked_of s = queue_view q" "cl_queue s = None \<Longrightarrow> parked_of s = (\<lambda>_. None)"
  by (auto simp: pins_of_def parked_of_def)

lemma views_update [simp]:
  "pins_of (s\<lparr>cl_queue := q\<rparr>) = pins_of s" "parked_of (s\<lparr>cl_pins := b\<rparr>) = parked_of s"
  by (auto simp: pins_of_def parked_of_def)

text \<open>Pins and parked updates are kept under the name of their tool, which is their card's name.\<close>

definition stores_ok :: "client_state \<Rightarrow> bool" where
  "stores_ok s \<longleftrightarrow> pred_option pins_inv (cl_pins s) \<and> pred_option queue_inv (cl_queue s) \<and>
     (\<forall>t p. pins_of s t = Some p \<longrightarrow> pin_toolName p = t \<and> gc_name (pin_card p) = t) \<and>
     (\<forall>t e. parked_of s t = Some e \<longrightarrow> pe_toolName e = t \<and> gc_name (pe_newCard e) = t)"

definition gets_only :: "client_request list \<Rightarrow> client_request list \<Rightarrow> bool" where
  "gets_only rs rs' \<longleftrightarrow> (\<exists>qs. rs' = rs @ qs \<and> list_all (\<lambda>q. \<not> is_post q) qs)"

lemma gets_only_refl [simp]: "gets_only rs rs"
  by (simp add: gets_only_def)

lemma gets_only_trans: "gets_only a b \<Longrightarrow> gets_only b c \<Longrightarrow> gets_only a c"
  by (auto simp: gets_only_def)

lemma gets_only_get: "gets_only rs (rs @ [Get_Request u h])"
  by (simp add: gets_only_def)

definition reads :: "client_state \<Rightarrow> client_state \<Rightarrow> bool" where
  "reads s t \<longleftrightarrow> pins_of t = pins_of s \<and> parked_of t = parked_of s \<and>
     (cl_pins t = None) = (cl_pins s = None) \<and> (cl_queue t = None) = (cl_queue s = None) \<and>
     pred_option pins_inv (cl_pins t) = pred_option pins_inv (cl_pins s) \<and>
     pred_option queue_inv (cl_queue t) = pred_option queue_inv (cl_queue s) \<and>
     gets_only (cl_requests s) (cl_requests t)"

lemma reads_refl [simp]: "reads s s"
  by (simp add: reads_def)

lemma reads_trans: "reads a b \<Longrightarrow> reads b c \<Longrightarrow> reads a c"
  by (auto simp: reads_def intro: gets_only_trans)

lemma reads_ok: "reads s t \<Longrightarrow> stores_ok s \<Longrightarrow> stores_ok t"
  by (simp add: reads_def stores_ok_def)

lemma readsD:
  assumes "reads s t"
  shows "pins_of t = pins_of s" "parked_of t = parked_of s" "(cl_pins t = None) = (cl_pins s = None)"
    "gets_only (cl_requests s) (cl_requests t)"
  using assms by (simp_all add: reads_def)

lemma reads_same:
  assumes "cl_pins t = cl_pins s" "cl_queue t = cl_queue s" "gets_only (cl_requests s) (cl_requests t)"
  shows "reads s t"
  using assms by (simp add: reads_def fun_eq_iff pins_of_def parked_of_def)

definition reader :: "'a client_step \<Rightarrow> bool" where
  "reader m \<longleftrightarrow> (\<forall>s. stores_ok s \<longrightarrow> reads s (snd (m s)))"

lemma readerD: "reader m \<Longrightarrow> stores_ok s \<Longrightarrow> m s = (r, t) \<Longrightarrow> reads s t"
  unfolding reader_def by (metis snd_conv)

lemma reader_and_then [reads_intros]:
  assumes "reader m" "\<And>a. reader (f a)"
  shows "reader (and_then m f)"
  unfolding reader_def
proof (intro allI impI)
  fix s :: client_state
  assume ok: "stores_ok s"
  obtain r t where m: "m s = (r, t)" by fastforce
  have st: "reads s t" by (rule readerD [OF assms(1) ok m])
  show "reads s (snd (and_then m f s))"
  proof (cases r)
    case (Inl e)
    then show ?thesis using m st by (simp add: and_then_def)
  next
    case (Inr a)
    have "reads t (snd (f a t))"
      using assms(2) [of a] reads_ok [OF st ok] by (simp add: reader_def)
    then show ?thesis using m st Inr reads_trans by (auto simp: and_then_def)
  qed
qed

lemma reader_basic [reads_intros]:
  "reader (return a)" "reader (throw e)" "reader (fetch_reply answer (Get_Request u h))"
  "reader (body_or_throw w r)" "reader (cache_card name c)" "reader (resolve_provider cfg p)"
  by (auto simp: reader_def return_def throw_def fetch_reply_def body_or_throw_def cache_card_def
      resolve_provider_def Let_def gets_only_get intro!: reads_same split: reply.splits option.splits prod.splits)

text \<open>Reading a store: the value, and a state that differs in the cache of the file only.\<close>

lemma with_pins_get:
  assumes "stores_ok s" "cl_pins s \<noteq> None"
  shows "\<exists>t. with_pins (pins_get name) s = (Inr (pins_of s name), t) \<and> reads s t"
proof -
  obtain b where b: "cl_pins s = Some b" using assms(2) by blast
  have "pins_inv b" using assms(1) b by (simp add: stores_ok_def)
  from any_pins.get_law [OF this] obtain b' where
    "pins_get name b = (Inr (pins_view b name), b')" "pins_inv b'" "pins_view b' = pins_view b" by blast
  then show ?thesis using b \<open>pins_inv b\<close>
    by (auto simp: with_pins_def reads_def pins_of_def parked_of_def fun_eq_iff)
qed

lemma with_pins_set:
  assumes "stores_ok s" "cl_pins s \<noteq> None"
  shows "\<exists>t. with_pins (pins_set p) s = (Inr (), t) \<and> pins_of t = (pins_of s)(pin_toolName p \<mapsto> p) \<and>
    parked_of t = parked_of s \<and> cl_requests t = cl_requests s \<and> cl_pins t \<noteq> None \<and>
    (gc_name (pin_card p) = pin_toolName p \<longrightarrow> stores_ok t)"
proof -
  obtain b where b: "cl_pins s = Some b" using assms(2) by blast
  have "pins_inv b" using assms(1) b by (simp add: stores_ok_def)
  from any_pins.set_law [OF this] obtain b' where b':
    "pins_set p b = (Inr (), b')" "pins_inv b'" "pins_view b' = (pins_view b)(pin_toolName p \<mapsto> p)" by blast
  let ?t = "s\<lparr>cl_pins := Some b'\<rparr>"
  have v: "pins_of ?t = (pins_of s)(pin_toolName p \<mapsto> p)" using b b'(3) by (simp add: pins_of_def fun_eq_iff)
  have "parked_of ?t = parked_of s" by (simp add: parked_of_def fun_eq_iff)
  with v assms(1) b b' show ?thesis
    by (intro exI [of _ ?t]) (auto simp: with_pins_def stores_ok_def)
qed

lemma with_queue_ok:
  assumes "stores_ok s"
  shows "\<exists>t. with_queue None (queue_get n) s = (Inr (parked_of s n), t) \<and> reads s t"
    and "\<exists>es t. with_queue [] queue_list s = (Inr es, t) \<and> reads s t \<and> set es = ran (parked_of s)"
proof -
  have "(\<exists>t. with_queue None (queue_get n) s = (Inr (parked_of s n), t) \<and> reads s t) \<and>
    (\<exists>es t. with_queue [] queue_list s = (Inr es, t) \<and> reads s t \<and> set es = ran (parked_of s))"
  proof (cases "cl_queue s")
    case None
    then have "parked_of s = (\<lambda>_. None)" by (simp add: parked_of_def fun_eq_iff)
    with None show ?thesis by (simp add: with_queue_def)
  next
    case (Some q)
    have i: "queue_inv q" using assms Some by (simp add: stores_ok_def)
    have v: "parked_of s = queue_view q" using Some by (simp add: parked_of_def fun_eq_iff)
    from any_queue.get_law [OF i, of n] obtain q1 where
      1: "queue_get n q = (Inr (queue_view q n), q1)" "queue_inv q1" "queue_view q1 = queue_view q" by blast
    from any_queue.list_law [OF i] obtain es q2 where
      2: "queue_list q = (Inr es, q2)" "queue_inv q2" "queue_view q2 = queue_view q" "set es = ran (queue_view q)"
      by blast
    from 1 2 Some i v show ?thesis by (simp add: with_queue_def reads_def)
  qed
  then show "\<exists>t. with_queue None (queue_get n) s = (Inr (parked_of s n), t) \<and> reads s t"
    and "\<exists>es t. with_queue [] queue_list s = (Inr es, t) \<and> reads s t \<and> set es = ran (parked_of s)" by blast+
qed

lemma with_queue_remove:
  assumes "stores_ok s"
  shows "\<exists>t. with_queue () (queue_remove n) s = (Inr (), t) \<and> stores_ok t \<and> pins_of t = pins_of s \<and>
    parked_of t = (parked_of s)(n := None) \<and> cl_requests t = cl_requests s \<and> cl_pins t = cl_pins s"
proof (cases "cl_queue s")
  case None
  then have "parked_of s = (\<lambda>_. None)" by (simp add: parked_of_def fun_eq_iff)
  with None assms show ?thesis by (simp add: with_queue_def fun_eq_iff)
next
  case (Some q)
  have i: "queue_inv q" using assms Some by (simp add: stores_ok_def)
  from any_queue.remove_law [OF i, of n] obtain q' where
    q': "queue_remove n q = (Inr (), q')" "queue_inv q'" "queue_view q' = (queue_view q)(n := None)" by blast
  let ?t = "s\<lparr>cl_queue := Some q'\<rparr>"
  have "parked_of ?t = (parked_of s)(n := None)" using q' Some by (simp add: parked_of_def fun_eq_iff)
  moreover have "pins_of ?t = pins_of s" by (simp add: pins_of_def fun_eq_iff)
  ultimately show ?thesis using Some q' assms
    by (intro exI [of _ ?t]) (simp add: with_queue_def stores_ok_def)
qed

lemma with_queue_put:
  assumes "stores_ok s" "gc_name (pe_newCard e) = pe_toolName e"
  shows "\<exists>t. with_queue () (queue_put e) s = (Inr (), t) \<and> stores_ok t \<and> pins_of t = pins_of s \<and>
    cl_requests t = cl_requests s \<and> (cl_queue s \<noteq> None \<longrightarrow> parked_of t = (parked_of s)(pe_toolName e \<mapsto> e)) \<and>
    cl_pins t = cl_pins s"
proof (cases "cl_queue s")
  case None
  with assms show ?thesis by (simp add: with_queue_def)
next
  case (Some q)
  have i: "queue_inv q" using assms(1) Some by (simp add: stores_ok_def)
  from any_queue.enqueue_law [OF i, of e] obtain q' where
    q': "queue_put e q = (Inr (), q')" "queue_inv q'" "queue_view q' = (queue_view q)(pe_toolName e \<mapsto> e)" by blast
  let ?t = "s\<lparr>cl_queue := Some q'\<rparr>"
  have "parked_of ?t = (parked_of s)(pe_toolName e \<mapsto> e)" using q' Some by (simp add: parked_of_def fun_eq_iff)
  moreover have "pins_of ?t = pins_of s" by (simp add: pins_of_def fun_eq_iff)
  ultimately show ?thesis using Some q' assms
    by (intro exI [of _ ?t]) (auto simp: with_queue_def stores_ok_def)
qed

lemma reader_pins_get [reads_intros]: "reader (with_pins (pins_get name))"
  unfolding reader_def
proof (intro allI impI)
  fix s :: client_state
  assume "stores_ok s"
  with with_pins_get [of s name] show "reads s (snd (with_pins (pins_get name) s))"
    by (cases "cl_pins s = None") (auto simp: with_pins_def)
qed

lemma reader_queue [reads_intros]:
  "reader (with_queue None (queue_get n))" "reader client_pendingAudits"
proof -
  show "reader (with_queue None (queue_get n))"
    using with_queue_ok(1) [of _ n] by (fastforce simp: reader_def)
  show "reader client_pendingAudits"
    using with_queue_ok(2) by (fastforce simp: reader_def client_pendingAudits_def)
qed

lemma reader_pin_if_any [reads_intros]: "reader (pin_if_any name)"
  using reader_pins_get [of name] by (auto simp: reader_def pin_if_any_def)

lemma pin_if_any_ok: "stores_ok s \<Longrightarrow> pin_if_any name s = (Inr p, t) \<Longrightarrow> p = pins_of s name"
  using with_pins_get [of s name] by (auto simp: pin_if_any_def pins_of_def split: if_splits)

lemma reader_catching [reads_intros]: "reader m \<Longrightarrow> reader (catching m)"
  by (auto simp: reader_def catching_def split: prod.splits sum.splits)

section \<open>Methods that only read\<close>

lemma reader_client_get [reads_intros]: "reader (client_get cfg answer path)"
  unfolding client_get_def by (intro reads_intros)

lemma reader_getCard [reads_intros]: "reader (client_getCard cfg name depth)"
  unfolding client_getCard_def with_encoded_def by (auto intro!: reads_intros split: option.splits)

lemma reader_current_card [reads_intros]: "reader (current_card cfg name)"
  using reader_getCard [of cfg name None] by (auto simp: reader_def current_card_def split: option.splits)

lemma reader_enforceTrust [reads_intros]: "reader (enforceTrust cfg name)"
  unfolding enforceTrust_def by (auto intro!: reads_intros split: option.splits)

lemma reader_check_attested [reads_intros]: "reader (check_attested cfg name c)"
  unfolding check_attested_def by (auto intro!: reads_intros split: option.splits bool.splits)

lemma reader_ensureAttested [reads_intros]: "reader (ensureAttested cfg name)"
  unfolding ensureAttested_def by (auto intro!: reads_intros)

lemma reader_inspectCard [reads_intros]: "reader (client_inspectCard c)"
  unfolding client_inspectCard_def by (intro reads_intros)

lemma reader_inspect_entries [reads_intros]: "reader (inspect_entries es)"
  by (induction es) (auto intro!: reads_intros)

lemma reader_inspectLexicon [reads_intros]: "reader (client_inspectLexicon es)"
  using reader_inspect_entries [of es] by (auto simp: reader_def client_inspectLexicon_def)

lemma reader_getManifest [reads_intros]: "reader (client_getManifest cfg name)"
  unfolding client_getManifest_def with_encoded_def manifest_reply_def
  by (auto intro!: reads_intros split: option.splits reply.splits)

lemma reader_discover [reads_intros]: "reader (client_discoverProviders cfg url root)"
  unfolding client_discoverProviders_def by (auto intro!: reads_intros)

lemma reader_verifyReceipt [reads_intros]: "reader (client_verifyReceipt cfg e c callId)"
  unfolding client_verifyReceipt_def Let_def by (auto intro!: reads_intros split: option.splits)

lemma reader_check_receipt [reads_intros]: "reader (check_receipt cfg callId name e)"
proof -
  have "reader (and_then (with_pins (pins_get name)) (\<lambda>p. case p of
      None \<Rightarrow> throw (Verification_Failed name) | Some pin \<Rightarrow> client_verifyReceipt cfg e (pin_card pin) callId))"
    by (auto intro!: reads_intros split: option.splits)
  then show ?thesis by (auto simp: reader_def check_receipt_def)
qed

lemma reader_audit [reads_intros]: "reader (auditEntry cfg e)" "reader (auditPending cfg)"
proof -
  have m: "reader (audit_manifest cfg e)" for e
    unfolding audit_manifest_def by (auto intro!: reads_intros split: option.splits)
  have a: "reader (audit_attestation cfg c)" for c
    unfolding audit_attestation_def attestationValid_def by (auto intro!: reads_intros split: option.splits)
  have e: "reader (auditEntry cfg e)" for e
    unfolding auditEntry_def Let_def by (auto intro!: reads_intros m a split: prod.split)
  have "reader (audit_entries cfg es)" for es
    by (induction es) (auto intro!: reads_intros e)
  then show "reader (auditEntry cfg e)" "reader (auditPending cfg)"
    using e unfolding auditPending_def by (auto intro!: reads_intros)
qed

section \<open>Passing the pin gate\<close>

text \<open>The ways a call passes \<open>ensureApproved\<close> with a pin store, with the pins afterwards.\<close>

inductive approved ::
  "client_config \<Rightarrow> jstr \<Rightarrow> jstr \<Rightarrow> glyph_card \<Rightarrow> client_state \<Rightarrow> client_state \<Rightarrow> bool"
  for cfg now name c s t where
  approved_unchanged:
    "pins_of s name = Some p \<Longrightarrow> \<not> truthy (pin_revokedAt p) \<Longrightarrow> gc_id (pin_card p) = gc_id c \<Longrightarrow>
     gc_publicKey (pin_card p) = gc_publicKey c \<Longrightarrow> pins_of t = pins_of s \<Longrightarrow> parked_of t = parked_of s \<Longrightarrow>
     approved cfg now name c s t"
| approved_first_use:
    "pins_of s name = None \<Longrightarrow> cc_tofu cfg \<Longrightarrow> verifyGlyph (cc_crypto cfg) c \<Longrightarrow>
     pins_of t = (pins_of s)(name \<mapsto> \<lparr>pin_toolName = name, pin_approvedAt = now, pin_card = c,
       pin_revokedAt = None, pin_revokeReason = None\<rparr>) \<Longrightarrow> parked_of t = parked_of s \<Longrightarrow>
     approved cfg now name c s t"
| approved_review:
    "pins_of s name = Some p \<Longrightarrow> \<not> truthy (pin_revokedAt p) \<Longrightarrow>
     \<not> cc_secureMode cfg \<or> cc_autoApproveReviewChanges cfg \<Longrightarrow>
     \<not> df_requiresApproval (diffCards (pin_card p) c) \<Longrightarrow>
     pins_of t = (pins_of s)(name \<mapsto> p\<lparr>pin_card := c, pin_approvedAt := now\<rparr>) \<Longrightarrow> parked_of t = parked_of s \<Longrightarrow>
     approved cfg now name c s t"
| approved_parked:
    "pins_of s name = Some p \<Longrightarrow> \<not> truthy (pin_revokedAt p) \<Longrightarrow> cc_resilientUpdates cfg \<Longrightarrow>
     gc_id (pin_card p) \<noteq> gc_id c \<or> gc_publicKey (pin_card p) \<noteq> gc_publicKey c \<Longrightarrow> pins_of t = pins_of s \<Longrightarrow>
     (cl_queue s \<noteq> None \<Longrightarrow> parked_of t = (parked_of s)(name \<mapsto> \<lparr>pe_toolName = name, pe_newCard = c,
        pe_diff = diffCards (pin_card p) c, pe_detectedAt = now\<rparr>)) \<Longrightarrow>
     approved cfg now name c s t"

text \<open>States that agree on the stores and on the requests, up to GETs.\<close>

lemma approved_transfer:
  assumes "approved cfg now name c s1 t" "reads s s1"
  shows "approved cfg now name c s t"
proof -
  have q: "(cl_queue s1 = None) = (cl_queue s = None)" using assms(2) by (simp add: reads_def)
  from assms(1) show ?thesis
  proof cases
    case (approved_unchanged p)
    then show ?thesis using readsD [OF assms(2)] by (intro approved.approved_unchanged [of s name p]) auto
  next
    case approved_first_use
    then show ?thesis using readsD [OF assms(2)] by (intro approved.approved_first_use) auto
  next
    case (approved_review p)
    then show ?thesis using readsD [OF assms(2)] by (intro approved.approved_review [of s name p]) auto
  next
    case (approved_parked p)
    then show ?thesis using readsD [OF assms(2)] q by (intro approved.approved_parked [of s name p]) auto
  qed
qed

lemma classify_card_cases:
  "ci_status (classify_card p c) = Status_New \<Longrightarrow> p = None"
  "ci_status (classify_card p c) = Status_Unchanged \<Longrightarrow> \<exists>q. p = Some q \<and> \<not> truthy (pin_revokedAt q) \<and>
     gc_id (pin_card q) = gc_id c \<and> gc_publicKey (pin_card q) = gc_publicKey c"
  "ci_status (classify_card p c) = Status_Changed \<Longrightarrow> \<exists>q. p = Some q \<and> \<not> truthy (pin_revokedAt q) \<and>
     (gc_id (pin_card q) \<noteq> gc_id c \<or> gc_publicKey (pin_card q) \<noteq> gc_publicKey c) \<and>
     classify_card p c = \<lparr>ci_status = Status_Changed, ci_pin = Some q, ci_diff = Some (diffCards (pin_card q) c)\<rparr>"
  "ci_status (classify_card p c) = Status_Revoked \<longleftrightarrow> (\<exists>q. p = Some q \<and> truthy (pin_revokedAt q))"
  by (auto simp: classify_card_def split: option.splits if_splits)

text \<open>\<open>gate_ok cfg now name c s t\<close>: the gate was passed with card \<open>c\<close>, from \<open>s\<close> to \<open>t\<close>.\<close>

definition gate_ok ::
  "client_config \<Rightarrow> jstr \<Rightarrow> jstr \<Rightarrow> glyph_card \<Rightarrow> client_state \<Rightarrow> client_state \<Rightarrow> bool" where
  "gate_ok cfg now name c s t \<longleftrightarrow> approved cfg now name c s t \<and> stores_ok t \<and> cl_pins t \<noteq> None \<and>
     gets_only (cl_requests s) (cl_requests t)"

lemma gate_ok_transfer: "gate_ok cfg now name c s1 t \<Longrightarrow> reads s s1 \<Longrightarrow> gate_ok cfg now name c s t"
  by (auto simp: gate_ok_def intro: approved_transfer gets_only_trans dest: readsD(4))

lemma notify_parked_ok:
  "\<exists>u. notify_parked e t = (Inr (), u) \<and> pins_of u = pins_of t \<and> parked_of u = parked_of t \<and>
     cl_requests u = cl_requests t \<and> cl_pins u = cl_pins t \<and> cl_queue u = cl_queue t"
  by (simp add: notify_parked_def Let_def triggerBackgroundAudit_def fun_eq_iff pins_of_def parked_of_def)

lemma stores_ok_cong: "cl_pins u = cl_pins t \<Longrightarrow> cl_queue u = cl_queue t \<Longrightarrow> stores_ok u = stores_ok t"
  by (simp add: stores_ok_def pins_of_def parked_of_def)

lemma park_update_cases:
  assumes "stores_ok s" "gc_name c = name" "pins_of s name = Some p" "\<not> truthy (pin_revokedAt p)"
    "gc_id (pin_card p) \<noteq> gc_id c \<or> gc_publicKey (pin_card p) \<noteq> gc_publicKey c" "cl_pins s \<noteq> None"
    and i: "i = \<lparr>ci_status = Status_Changed, ci_pin = Some p, ci_diff = Some (diffCards (pin_card p) c)\<rparr>"
  shows "(\<exists>e. park_update cfg now name c i s = (Inl e, s)) \<or>
    (\<exists>t. park_update cfg now name c i s = (Inr (), t) \<and> gate_ok cfg now name c s t)"
proof (cases "cc_resilientUpdates cfg")
  case False
  then show ?thesis by (simp add: park_update_def i throw_def)
next
  case True
  let ?e = "\<lparr>pe_toolName = name, pe_newCard = c, pe_diff = diffCards (pin_card p) c, pe_detectedAt = now\<rparr>"
  from with_queue_put [OF assms(1), of ?e] assms(2) obtain t where t:
    "with_queue () (queue_put ?e) s = (Inr (), t)" "stores_ok t" "pins_of t = pins_of s"
    "cl_requests t = cl_requests s" "cl_queue s \<noteq> None \<longrightarrow> parked_of t = (parked_of s)(name \<mapsto> ?e)"
    "cl_pins t = cl_pins s" by auto
  from notify_parked_ok [of ?e t] obtain u where u:
    "notify_parked ?e t = (Inr (), u)" "pins_of u = pins_of t" "parked_of u = parked_of t"
    "cl_requests u = cl_requests t" "cl_pins u = cl_pins t" "cl_queue u = cl_queue t" by blast
  have "approved cfg now name c s u"
    using assms True t u by (intro approved_parked [of s name p]) auto
  moreover have "park_update cfg now name c i s = (Inr (), u)"
    using True t u by (simp add: park_update_def i and_then_def Let_def)
  ultimately show ?thesis using t u assms(6) stores_ok_cong [OF u(5,6)] by (auto simp: gate_ok_def)
qed

lemma approve_or_park_changed:
  assumes s: "stores_ok s" "gc_name c = name" "pins_of s name = Some p" "\<not> truthy (pin_revokedAt p)"
    "gc_id (pin_card p) \<noteq> gc_id c \<or> gc_publicKey (pin_card p) \<noteq> gc_publicKey c" "cl_pins s \<noteq> None"
    and i: "i = \<lparr>ci_status = Status_Changed, ci_pin = Some p, ci_diff = Some (diffCards (pin_card p) c)\<rparr>"
  shows "(\<exists>e. approve_or_park cfg now name c i s = (Inl e, s)) \<or>
    (\<exists>t. approve_or_park cfg now name c i s = (Inr (), t) \<and> gate_ok cfg now name c s t)"
proof (cases "(cc_secureMode cfg \<and> \<not> cc_autoApproveReviewChanges cfg) \<or> df_requiresApproval (diffCards (pin_card p) c)")
  case True
  then have "approve_or_park cfg now name c i s = park_update cfg now name c i s"
    by (auto simp: approve_or_park_def i)
  with park_update_cases [OF assms] show ?thesis by simp
next
  case False
  let ?p = "p\<lparr>pin_card := c, pin_approvedAt := now\<rparr>"
  have n: "pin_toolName p = name" using s(1,3) by (simp add: stores_ok_def)
  from with_pins_set [OF s(1,6), of ?p] obtain t where t:
    "with_pins (pins_set ?p) s = (Inr (), t)" "pins_of t = (pins_of s)(name \<mapsto> ?p)" "parked_of t = parked_of s"
    "cl_requests t = cl_requests s" "cl_pins t \<noteq> None" "stores_ok t" using n s(2) by auto
  have "approved cfg now name c s t"
    using s t False by (intro approved_review [of s name p]) auto
  moreover have "approve_or_park cfg now name c i s = (Inr (), t)"
    using False t by (auto simp: approve_or_park_def i)
  ultimately show ?thesis using t by (simp add: gate_ok_def)
qed

lemma approve_or_park_new:
  assumes s: "stores_ok s" "gc_name c = name" "pins_of s name = None" "cl_pins s \<noteq> None"
    and i: "i = \<lparr>ci_status = Status_New, ci_pin = None, ci_diff = None\<rparr>"
  shows "(\<exists>e. approve_or_park cfg now name c i s = (Inl e, s)) \<or>
    (\<exists>t. approve_or_park cfg now name c i s = (Inr (), t) \<and> gate_ok cfg now name c s t)"
proof (cases "cc_tofu cfg \<and> verifyGlyph (cc_crypto cfg) c")
  case False
  then show ?thesis
    by (auto simp: approve_or_park_def i park_update_def throw_def)
next
  case True
  let ?p = "\<lparr>pin_toolName = name, pin_approvedAt = now, pin_card = c, pin_revokedAt = None, pin_revokeReason = None\<rparr>"
  from with_pins_set [OF s(1,4), of ?p] obtain t where t:
    "with_pins (pins_set ?p) s = (Inr (), t)" "pins_of t = (pins_of s)(name \<mapsto> ?p)" "parked_of t = parked_of s"
    "cl_requests t = cl_requests s" "cl_pins t \<noteq> None" "stores_ok t" using s(2) by auto
  have "truthy (gc_signature c)" using True by (simp add: verifyGlyph_iff)
  then have "approve_or_park cfg now name c i s = (Inr (), t)"
    using True t by (simp add: approve_or_park_def i)
  moreover have "approved cfg now name c s t"
    using s t True by (intro approved_first_use) auto
  ultimately show ?thesis using t by (simp add: gate_ok_def)
qed

text \<open>Every run of the gate: it either throws and changed nothing, or it passed as \<open>approved\<close> says.\<close>

lemma ensureApproved_cases:
  assumes "stores_ok s" "cl_pins s \<noteq> None"
  shows "(\<exists>e t. ensureApproved cfg now name s = (Inl e, t) \<and> reads s t) \<or>
    (\<exists>c s1 t. ensureApproved cfg now name s = (Inr (), t) \<and> current_card cfg name s = (Inr c, s1) \<and>
       gc_name c = name \<and> gate_ok cfg now name c s t)"
proof -
  obtain q s1 where q: "current_card cfg name s = (q, s1)" by fastforce
  have r1: "reads s s1" by (rule readerD [OF reader_current_card assms(1) q])
  have ok1: "stores_ok s1" "cl_pins s1 \<noteq> None" using reads_ok [OF r1 assms(1)] readsD(3) [OF r1] assms(2) by auto
  show ?thesis
  proof (cases "\<exists>c. q = Inr c \<and> gc_name c = name")
    case False
    then show ?thesis using q r1 assms(2)
      by (cases q) (auto simp: ensureApproved_def and_then_def throw_def)
  next
    case True
    then obtain c where c: "q = Inr c" "gc_name c = name" by blast
    let ?i = "classify_card (pins_of s1 name) c"
    from with_pins_get [OF ok1, of name] obtain s2 where
      s2: "with_pins (pins_get name) s1 = (Inr (pins_of s1 name), s2)" "reads s1 s2" by blast
    have ok2: "stores_ok s2" "cl_pins s2 \<noteq> None" using reads_ok [OF s2(2)] readsD(3) [OF s2(2)] ok1 by auto
    have r2: "reads s s2" using r1 s2(2) by (rule reads_trans)
    have p2: "pins_of s2 name = pins_of s1 name" using readsD(1) [OF s2(2)] by simp
    have g: "gets_only (cl_requests s2) (cl_requests s2)" by simp
    have e: "ensureApproved cfg now name s =
        (case ci_status ?i of Status_Unchanged \<Rightarrow> return ()
         | Status_Revoked \<Rightarrow> throw (Tool_Revoked name (Option.bind (ci_pin ?i) pin_revokeReason))
         | _ \<Rightarrow> approve_or_park cfg now name c ?i) s2"
      using assms(2) q c s2(1) by (auto simp: ensureApproved_def client_inspectCard_def and_then_def return_def)
    have "(\<exists>x. ensureApproved cfg now name s = (Inl x, s2)) \<or>
       (\<exists>t. ensureApproved cfg now name s = (Inr (), t) \<and> gate_ok cfg now name c s2 t)"
    proof (cases "ci_status ?i")
      case Status_New
      then have n: "pins_of s1 name = None" by (rule classify_card_cases)
      then have "?i = \<lparr>ci_status = Status_New, ci_pin = None, ci_diff = None\<rparr>" by (simp add: classify_card_def)
      from approve_or_park_new [OF ok2(1) c(2) _ ok2(2) this] n p2 Status_New e show ?thesis by simp
    next
      case Status_Unchanged
      then obtain p where "pins_of s1 name = Some p" "\<not> truthy (pin_revokedAt p)"
        "gc_id (pin_card p) = gc_id c" "gc_publicKey (pin_card p) = gc_publicKey c"
        using classify_card_cases(2) by blast
      then have "approved cfg now name c s2 s2" using p2 by (intro approved_unchanged [of s2 name p]) auto
      with ok2 g have "gate_ok cfg now name c s2 s2" unfolding gate_ok_def by blast
      then show ?thesis using e Status_Unchanged by (simp add: return_def)
    next
      case Status_Changed
      then obtain p where p: "pins_of s1 name = Some p" "\<not> truthy (pin_revokedAt p)"
        "gc_id (pin_card p) \<noteq> gc_id c \<or> gc_publicKey (pin_card p) \<noteq> gc_publicKey c"
        "?i = \<lparr>ci_status = Status_Changed, ci_pin = Some p, ci_diff = Some (diffCards (pin_card p) c)\<rparr>"
        using classify_card_cases(3) by blast
      from approve_or_park_changed [OF ok2(1) c(2) _ p(2,3) ok2(2) p(4)] p(1) p2 Status_Changed e
      show ?thesis by simp
    next
      case Status_Revoked
      then show ?thesis using e by (simp add: throw_def)
    qed
    then show ?thesis using r2 q c gate_ok_transfer [OF _ r2] by blast
  qed
qed

lemma ensureApproved_no_store: "cl_pins s = None \<Longrightarrow> ensureApproved cfg now name s = (Inr (), s)"
  by (simp add: ensureApproved_def)

text \<open>Whoever passes the gate leaves a pin that is not revoked.\<close>

lemma approved_pin:
  assumes "approved cfg now name c s t"
  shows "\<exists>p. pins_of t name = Some p \<and> \<not> truthy (pin_revokedAt p) \<and>
    (gc_id (pin_card p) = gc_id c \<and> gc_publicKey (pin_card p) = gc_publicKey c \<or> cc_resilientUpdates cfg)"
  using assms by cases auto

lemma approved_other: "approved cfg now name c s t \<Longrightarrow> n \<noteq> name \<Longrightarrow> pins_of t n = pins_of s n"
  by (cases rule: approved.cases) auto

section \<open>Passing the other gates\<close>

lemma enforceTrust_Inr:
  assumes "enforceTrust cfg name s = (Inr (), t)" "cc_trustEnabled cfg" "\<not> cc_trustAllowUnknown cfg"
  shows "\<exists>c s1 e key t1. current_card cfg name s = (Inr c, s1) \<and>
    resolve_provider cfg (gc_provider c) s1 = (Inr (Some e), t1) \<and> gc_publicKey c = Some key \<and>
    key \<noteq> [] \<and> key \<in> set (te_publicKeys e)"
  using assms
  by (auto simp: enforceTrust_def and_then_Inr throw_def return_def truthy_iff split: option.splits if_splits)

lemma run_verifiers_True:
  "run_verifiers reg c ts fs = Some (True, out) \<Longrightarrow>
     \<exists>t\<in>set ts. \<exists>v r. registry_get t reg = Some v \<and> vf_verify v c = Some r \<and> opens_gate r"
proof (induction reg c ts fs rule: run_verifiers.induct)
  case (2 reg c t ts failures)
  then show ?case by (auto split: option.splits if_splits)
qed simp

lemma check_attested_Inr:
  "check_attested cfg name c s = (Inr (), t) \<Longrightarrow> attestation_required (cc_requireAttestation cfg) c \<Longrightarrow>
     gc_attestation c \<noteq> None \<and> (\<exists>ty v r. registry_get ty (cc_verifiers cfg) = Some v \<and>
       vf_verify v c = Some r \<and> opens_gate r)"
  by (auto simp: check_attested_def throw_def split: option.splits if_splits bool.splits)
     (use run_verifiers_True in blast)+

lemma ensureAttested_Inr:
  assumes "ensureAttested cfg name s = (Inr (), t)" "cc_requireAttestation cfg \<noteq> Att_None"
  shows "\<exists>c s1. current_card cfg name s = (Inr c, s1) \<and> gc_name c = name \<and>
    (attestation_required (cc_requireAttestation cfg) c \<longrightarrow> gc_attestation c \<noteq> None \<and>
       (\<exists>ty v r. registry_get ty (cc_verifiers cfg) = Some v \<and> vf_verify v c = Some r \<and> opens_gate r))"
  using assms check_attested_Inr
  by (auto simp: ensureAttested_def and_then_Inr throw_def split: if_splits)

section \<open>What an accepted receipt establishes\<close>

definition receipt_binds :: "crypto \<Rightarrow> sealed_envelope \<Rightarrow> glyph_card \<Rightarrow> jstr \<Rightarrow> call_receipt \<Rightarrow> bool" where
  "receipt_binds C e c callId r \<longleftrightarrow> se_receipt e = Some r \<and> gc_publicKey c = Some (cr_serverPublicKey r) \<and>
     verifyReceipt C r \<and> cr_glyphId r = gc_id c \<and> canonicalHash C (se_payload e) = Some (cr_outputHash r) \<and>
     canonicalHash C (case se_inspection e of None \<Rightarrow> JObj [] | Some i \<Rightarrow> sanitization_json i) = Some (cr_inspectionHash r) \<and>
     nullish_or (default_to JUndef (cr_clientCallId r)) (JStr (cr_callId r)) = JStr callId"

lemma hash_undef: "canonicalHash C JUndef = None"
  by simp

lemma client_verifyReceipt_Inr:
  "client_verifyReceipt cfg e c callId s = (Inr (), t) \<longleftrightarrow>
     t = s \<and> (\<exists>r. receipt_binds (cc_crypto cfg) e c callId r)"
  by (auto simp: client_verifyReceipt_def Let_def receipt_binds_def throw_def return_def hash_undef
      simp del: canonicalHash_None_iff split: option.splits if_splits)

lemma check_receipt_Inr:
  assumes "check_receipt cfg callId name e s = (Inr (), t)" "stores_ok s"
    "cc_secureMode cfg" "cc_verifyReceipts cfg" "cl_pins s \<noteq> None"
  shows "\<exists>p r. pins_of s name = Some p \<and> receipt_binds (cc_crypto cfg) e (pin_card p) callId r"
  using assms with_pins_get [OF assms(2,5), of name]
  by (auto simp: check_receipt_def and_then_Inr throw_def client_verifyReceipt_Inr split: option.splits)

end
