(* ===== verification/Client_Runs.thy ===== *)
theory Client_Runs
  imports Client_Properties
begin

text \<open>
  The life of a client: any sequence of its methods against any server, background audits
  included. Method calls are atomic here; a background pass runs between two of them. Three
  invariants: the stores stay consistent, a revoked tool stays revoked until it is reinstated,
  and in strict mode every pinned card verifies.
\<close>

section \<open>Method calls that set pins\<close>

lemma reader_approve_checks:
  assumes "stores_ok s" "client_approveCard cfg now c reinstate s = (r, t)"
  shows "reads s t \<or> (pins_of t = (pins_of s)(gc_name c \<mapsto> \<lparr>pin_toolName = gc_name c, pin_approvedAt = now,
      pin_card = c, pin_revokedAt = None, pin_revokeReason = None\<rparr>) \<and> parked_of t = parked_of s \<and> stores_ok t \<and>
      cl_pins t \<noteq> None \<and> verifyGlyph (cc_crypto cfg) c \<and>
      (flag reinstate \<or> (\<forall>p. pins_of s (gc_name c) = Some p \<longrightarrow> \<not> truthy (pin_revokedAt p))))"
proof (cases "truthy (gc_signature c) \<and> verifyGlyph (cc_crypto cfg) c \<and> cl_pins s \<noteq> None")
  case False
  then have "t = s" using assms(2)
    by (cases "truthy (gc_signature c) \<and> verifyGlyph (cc_crypto cfg) c")
      (simp_all add: client_approveCard_def throw_def and_then_def with_pins_def)
  then show ?thesis by simp
next
  case True
  then have sig: "truthy (gc_signature c)" "verifyGlyph (cc_crypto cfg) c" and st: "cl_pins s \<noteq> None" by simp_all
  from with_pins_get [OF assms(1) st, of "gc_name c"] obtain u where
    u: "with_pins (pins_get (gc_name c)) s = (Inr (pins_of s (gc_name c)), u)" "reads s u" by blast
  have ok: "stores_ok u" "cl_pins u \<noteq> None" using reads_ok [OF u(2) assms(1)] readsD(3) [OF u(2)] st by auto
  let ?pin = "\<lparr>pin_toolName = gc_name c, pin_approvedAt = now, pin_card = c, pin_revokedAt = None, pin_revokeReason = None\<rparr>"
  from with_pins_set [OF ok, of ?pin] obtain w where
    w: "with_pins (pins_set ?pin) u = (Inr (), w)" "pins_of w = (pins_of u)(gc_name c \<mapsto> ?pin)"
      "parked_of w = parked_of u" "cl_pins w \<noteq> None" "stores_ok w" by auto
  show ?thesis
  proof (cases "(case pins_of s (gc_name c) of None \<Rightarrow> False | Some p \<Rightarrow> truthy (pin_revokedAt p)) \<and> \<not> flag reinstate")
    case True
    then have "t = u" using assms(2) sig u by (auto simp: client_approveCard_def and_then_def throw_def)
    then show ?thesis using u by simp
  next
    case False
    then have "t = w" using assms(2) sig u w by (auto simp: client_approveCard_def and_then_def return_def Let_def)
    then show ?thesis using w u readsD(1,2) [OF u(2)] sig False by (auto split: option.splits)
  qed
qed

lemma revokeTool_cases:
  assumes "stores_ok s" "client_revokeTool now name reason s = (r, t)"
  shows "reads s t \<or> (\<exists>p. pins_of s name = Some p \<and> \<not> truthy (pin_revokedAt p) \<and>
      pins_of t = (pins_of s)(name \<mapsto> p\<lparr>pin_revokedAt := Some now, pin_revokeReason := reason\<rparr>) \<and>
      parked_of t = parked_of s \<and> stores_ok t \<and> cl_pins t \<noteq> None)"
proof (cases "cl_pins s = None")
  case True
  then show ?thesis using assms(2) by (auto simp: client_revokeTool_def and_then_def with_pins_def)
next
  case False
  from with_pins_get [OF assms(1) False, of name] obtain u where
    u: "with_pins (pins_get name) s = (Inr (pins_of s name), u)" "reads s u" by blast
  have ok: "stores_ok u" "cl_pins u \<noteq> None" using reads_ok [OF u(2) assms(1)] readsD(3) [OF u(2)] False by auto
  show ?thesis
  proof (cases "\<exists>p. pins_of s name = Some p \<and> \<not> truthy (pin_revokedAt p)")
    case False
    then have "t = u" using assms(2) u
      by (auto simp: client_revokeTool_def and_then_def throw_def return_def split: option.splits)
    then show ?thesis using u by simp
  next
    case True
    then obtain p where p: "pins_of s name = Some p" "\<not> truthy (pin_revokedAt p)" by blast
    let ?p = "p\<lparr>pin_revokedAt := Some now, pin_revokeReason := reason\<rparr>"
    have n: "pin_toolName p = name" "gc_name (pin_card p) = name" using assms(1) p(1) by (simp_all add: stores_ok_def)
    from with_pins_set [OF ok, of ?p] n obtain w where
      w: "with_pins (pins_set ?p) u = (Inr (), w)" "pins_of w = (pins_of u)(name \<mapsto> ?p)"
        "parked_of w = parked_of u" "cl_pins w \<noteq> None" "stores_ok w" by auto
    have "t = w" using assms(2) u w p by (auto simp: client_revokeTool_def and_then_def return_def Let_def)
    then show ?thesis using w p readsD(1,2) [OF u(2)] by auto
  qed
qed

section \<open>What a pass of the audits promotes\<close>

text \<open>\<open>describes e r\<close>: the report is the audit of the parked update.\<close>

definition describes :: "client_config \<Rightarrow> pending_entry \<Rightarrow> audit_report \<Rightarrow> bool" where
  "describes cfg e r \<longleftrightarrow> ap_toolName r = pe_toolName e \<and> ap_newCardId r = gc_id (pe_newCard e) \<and>
     ap_diff r = pe_diff e \<and> ap_signatureValid r = verifyGlyph (cc_crypto cfg) (pe_newCard e)"

lemma auditEntry_describes: "auditEntry cfg e s = (Inr r, t) \<Longrightarrow> describes cfg e r"
  by (auto simp: auditEntry_def Let_def and_then_Inr return_def describes_def verifyGlyph_iff split: prod.splits)

lemma audit_entries_describe:
  "audit_entries cfg es s = (Inr rs, t) \<Longrightarrow> \<forall>r\<in>set rs. \<exists>e\<in>set es. describes cfg e r"
proof (induction es arbitrary: s rs)
  case Nil
  then show ?case by (simp add: return_def)
next
  case (Cons e es)
  from Cons.prems obtain r u rs' where "auditEntry cfg e s = (Inr r, u)" "audit_entries cfg es u = (Inr rs', t)" "rs = r # rs'"
    by (auto simp: and_then_Inr return_def)
  with Cons.IH auditEntry_describes show ?case by fastforce
qed

lemma auditPending_describes:
  assumes "stores_ok s" "auditPending cfg s = (Inr rs, t)"
  shows "\<forall>r\<in>set rs. \<exists>e. parked_of s (ap_toolName r) = Some e \<and> describes cfg e r"
proof
  fix r assume r: "r \<in> set rs"
  from assms(2) obtain es u where "client_pendingAudits s = (Inr es, u)" "audit_entries cfg es u = (Inr rs, t)"
    by (auto simp: auditPending_def and_then_Inr)
  moreover from this(1) with_queue_ok(2) [OF assms(1)] have "set es = ran (parked_of s)"
    by (auto simp: client_pendingAudits_def)
  ultimately obtain e where e: "e \<in> ran (parked_of s)" "describes cfg e r"
    using audit_entries_describe r by blast
  then obtain n where "parked_of s n = Some e" by (auto simp: ran_def)
  moreover have "pe_toolName e = n" using assms(1) calculation by (simp add: stores_ok_def)
  ultimately show "\<exists>e. parked_of s (ap_toolName r) = Some e \<and> describes cfg e r"
    using e(2) by (auto simp: describes_def)
qed

definition promoted_pin :: "(jstr \<Rightarrow> jstr) \<Rightarrow> jstr \<Rightarrow> pending_entry \<Rightarrow> pin" where
  "promoted_pin nowOf n e = \<lparr>pin_toolName = n, pin_approvedAt = nowOf n, pin_card = pe_newCard e,
     pin_revokedAt = None, pin_revokeReason = None\<rparr>"

text \<open>From \<open>s\<close> to \<open>t\<close> the tool \<open>n\<close> was promoted on one of the reports.\<close>

definition promoted_on ::
  "client_config \<Rightarrow> (jstr \<Rightarrow> jstr) \<Rightarrow> audit_report list \<Rightarrow> client_state \<Rightarrow> client_state \<Rightarrow> jstr \<Rightarrow> bool" where
  "promoted_on cfg nowOf rs s t n \<longleftrightarrow> (\<exists>r e. r \<in> set rs \<and> ap_toolName r = n \<and> fst (policy_verdict cfg r) \<and>
     parked_of s n = Some e \<and> gc_id (pe_newCard e) = ap_newCardId r \<and>
     (\<forall>p. pins_of s n = Some p \<longrightarrow> \<not> truthy (pin_revokedAt p)) \<and>
     pins_of t n = Some (promoted_pin nowOf n e) \<and> parked_of t n = None)"

definition unchanged_at :: "client_state \<Rightarrow> client_state \<Rightarrow> jstr \<Rightarrow> bool" where
  "unchanged_at s t n \<longleftrightarrow> pins_of t n = pins_of s n \<and> parked_of t n = parked_of s n"

lemma reads_unchanged: "reads s t \<Longrightarrow> unchanged_at s t n"
  by (simp add: unchanged_at_def reads_def)

lemma promote_report_cases:
  assumes "stores_ok s" "promote_report cfg nowOf r s = (x, t)"
  shows "stores_ok t \<and> (cl_pins t = None) = (cl_pins s = None) \<and>
    (\<forall>n. unchanged_at s t n \<or> promoted_on cfg nowOf [r] s t n)"
proof (cases "fst (policy_verdict cfg r) \<and> cl_pins s \<noteq> None")
  case False
  then have "t = s" using assms(2) by (auto simp: promote_report_def)
  then show ?thesis using assms(1) by (simp add: unchanged_at_def)
next
  case True
  let ?n = "ap_toolName r"
  from with_queue_ok(1) [OF assms(1), of ?n] obtain u where
    u: "with_queue None (queue_get ?n) s = (Inr (parked_of s ?n), u)" "reads s u" by blast
  have ou: "stores_ok u" "cl_pins u \<noteq> None" using reads_ok [OF u(2) assms(1)] readsD(3) [OF u(2)] True by auto
  from with_pins_get [OF ou, of ?n] obtain v where
    v: "with_pins (pins_get ?n) u = (Inr (pins_of u ?n), v)" "reads u v" by blast
  have sv: "reads s v" using u(2) v(2) by (rule reads_trans)
  have ov: "stores_ok v" "cl_pins v \<noteq> None" using reads_ok [OF sv assms(1)] readsD(3) [OF sv] True by auto
  have pu: "pins_of u ?n = pins_of s ?n" using readsD(1) [OF u(2)] by simp
  show ?thesis
  proof (cases "promotable_entry r (parked_of s ?n) (pins_of s ?n)")
    case False
    then have "t = v" using assms(2) True u v pu
      by (auto simp: promote_report_def and_then_def return_def)
    then show ?thesis using ov sv readsD(3) [OF sv] reads_unchanged by auto
  next
    case prom: True
    then obtain e where e: "parked_of s ?n = Some e" "gc_id (pe_newCard e) = ap_newCardId r"
      "\<forall>p. pins_of s ?n = Some p \<longrightarrow> \<not> truthy (pin_revokedAt p)"
      by (auto simp: promotable_entry_def split: option.splits)
    have n: "gc_name (pe_newCard e) = ?n" using assms(1) e(1) by (simp add: stores_ok_def)
    from with_pins_set [OF ov, of "promoted_pin nowOf ?n e"] n obtain w where
      w: "with_pins (pins_set (promoted_pin nowOf ?n e)) v = (Inr (), w)"
        "pins_of w = (pins_of v)(?n \<mapsto> promoted_pin nowOf ?n e)" "parked_of w = parked_of v" "cl_pins w \<noteq> None" "stores_ok w"
      by (auto simp: promoted_pin_def)
    from with_queue_remove [OF w(5), of ?n] obtain z where
      z: "with_queue () (queue_remove ?n) w = (Inr (), z)" "stores_ok z" "pins_of z = pins_of w"
        "parked_of z = (parked_of w)(?n := None)" "cl_pins z = cl_pins w" by blast
    have t: "t = z" using assms(2) True u v w(1) z(1) pu prom e(1)
      by (auto simp: promote_report_def and_then_def return_def promoted_pin_def)
    have "promoted_on cfg nowOf [r] s z ?n"
      unfolding promoted_on_def using True e w z by (intro exI [of _ r] exI [of _ e]) auto
    moreover have "unchanged_at s z m" if "m \<noteq> ?n" for m
      using that w z readsD(1,2) [OF sv] by (simp add: unchanged_at_def)
    ultimately show ?thesis using t z(2,5) w(4) True by metis
  qed
qed

lemma promoted_on_mono: "promoted_on cfg nowOf rs s t n \<Longrightarrow> set rs \<subseteq> set rs' \<Longrightarrow> promoted_on cfg nowOf rs' s t n"
  unfolding promoted_on_def by blast

lemma promote_reports_cases:
  "stores_ok s \<Longrightarrow> promote_reports cfg nowOf rs s = (x, t) \<Longrightarrow>
     stores_ok t \<and> (cl_pins t = None) = (cl_pins s = None) \<and>
     (\<forall>n. unchanged_at s t n \<or> promoted_on cfg nowOf rs s t n)"
proof (induction rs arbitrary: s x t)
  case Nil
  then show ?case by (simp add: return_def unchanged_at_def)
next
  case (Cons r rs)
  obtain y u where y: "promote_report cfg nowOf r s = (y, u)" by fastforce
  note step = promote_report_cases [OF Cons.prems(1) y]
  have step_n: "unchanged_at s u n \<or> promoted_on cfg nowOf (r # rs) s u n" for n
    using step promoted_on_mono [of cfg nowOf "[r]" s u n "r # rs"] by auto
  show ?case
  proof (cases y)
    case (Inl e)
    then have "t = u" using Cons.prems(2) y by (simp add: and_then_def)
    then show ?thesis using step step_n by auto
  next
    case (Inr b)
    let ?u = "u\<lparr>cl_decisions := cl_decisions u @ [\<lparr>ad_report = r, ad_promoted = b, ad_reasons = snd (policy_verdict cfg r)\<rparr>]\<rparr>"
    have same: "pins_of ?u = pins_of u" "parked_of ?u = parked_of u" by (auto simp: pins_of_def parked_of_def)
    have ok: "stores_ok ?u" using stores_ok_cong [of ?u u] step by simp
    obtain z w where z: "promote_reports cfg nowOf rs ?u = (z, w)" by fastforce
    have "t = w" using Cons.prems(2) y Inr z
      by (cases z) (auto simp: and_then_def notify_decision_def Let_def return_def)
    moreover note IH = Cons.IH [OF ok z]
    have "unchanged_at s w n \<or> promoted_on cfg nowOf (r # rs) s w n" for n
    proof (cases "unchanged_at s u n")
      case True
      then show ?thesis using IH same unfolding unchanged_at_def promoted_on_def by (metis list.set_intros(2))
    next
      case False
      then have p: "promoted_on cfg nowOf (r # rs) s u n" using step_n by blast
      then have "parked_of ?u n = None" using same by (auto simp: promoted_on_def)
      then have "unchanged_at ?u w n" using IH by (auto simp: promoted_on_def)
      then show ?thesis using p same unfolding unchanged_at_def promoted_on_def by metis
    qed
    ultimately show ?thesis using IH step by simp
  qed
qed

lemma reads_promoted:
  assumes "reads s u"
  shows "unchanged_at u t n = unchanged_at s t n" "promoted_on cfg nowOf rs u t n = promoted_on cfg nowOf rs s t n"
  using readsD(1,2) [OF assms] by (simp_all add: unchanged_at_def promoted_on_def)

lemma processAudits_cases:
  assumes "stores_ok s" "processAudits cfg nowOf s = (x, t)"
  shows "stores_ok t \<and> (cl_pins t = None) = (cl_pins s = None) \<and>
    (\<forall>n. unchanged_at s t n \<or>
      (\<exists>rs. promoted_on cfg nowOf rs s t n \<and>
        (\<forall>r\<in>set rs. \<exists>e. parked_of s (ap_toolName r) = Some e \<and> describes cfg e r)))"
proof (cases "\<not> cc_resilientUpdates cfg \<or> cl_queue s = None")
  case True
  then have "t = s" using assms(2) by (auto simp: processAudits_def)
  then show ?thesis using assms(1) by (simp add: unchanged_at_def)
next
  case False
  obtain y u where y: "auditPending cfg s = (y, u)" by fastforce
  have r: "reads s u" by (rule readerD [OF reader_audit(2) assms(1) y])
  have ok: "stores_ok u" by (rule reads_ok [OF r assms(1)])
  show ?thesis
  proof (cases y)
    case (Inl e)
    then have "t = u" using assms(2) False y by (auto simp: processAudits_def and_then_def)
    then show ?thesis using ok readsD(3) [OF r] reads_unchanged [OF r] by simp
  next
    case (Inr rs)
    then have p: "promote_reports cfg nowOf rs u = (x, t)"
      using assms(2) False y by (auto simp: processAudits_def and_then_def)
    from promote_reports_cases [OF ok p] reads_promoted [OF r] readsD(3) [OF r]
      auditPending_describes [OF assms(1), of cfg rs u] y Inr show ?thesis by auto
  qed
qed

lemma audited_card:
  assumes "stores_ok s" "processAudits cfg nowOf s = (x, t)" "pins_of t n \<noteq> pins_of s n"
  shows "\<exists>e r policy. parked_of s n = Some e \<and> verifyGlyph (cc_crypto cfg) (pe_newCard e) \<and>
    cc_autoPromotionPolicy cfg = Some policy \<and> ap_diff r = pe_diff e \<and> fst (evaluatePromotion r policy) \<and>
    (\<forall>p. pins_of s n = Some p \<longrightarrow> \<not> truthy (pin_revokedAt p)) \<and>
    pins_of t n = Some (promoted_pin nowOf n e) \<and> parked_of t n = None"
proof -
  from processAudits_cases [OF assms(1,2)] assms(3) obtain rs where
    rs: "promoted_on cfg nowOf rs s t n" "\<forall>r\<in>set rs. \<exists>e. parked_of s (ap_toolName r) = Some e \<and> describes cfg e r"
    unfolding unchanged_at_def by blast
  then obtain r e where r: "r \<in> set rs" "ap_toolName r = n" "fst (policy_verdict cfg r)" "parked_of s n = Some e"
    "\<forall>p. pins_of s n = Some p \<longrightarrow> \<not> truthy (pin_revokedAt p)"
    "pins_of t n = Some (promoted_pin nowOf n e)" "parked_of t n = None" unfolding promoted_on_def by blast
  with rs(2) have d: "describes cfg e r" by auto
  from r(3) obtain policy where pol: "cc_autoPromotionPolicy cfg = Some policy" "fst (evaluatePromotion r policy)"
    by (auto simp: policy_verdict_def split: option.splits)
  have "ap_signatureValid r" using pol(2) by (simp add: evaluatePromotion_def promotion_reasons_def)
  with d r pol show ?thesis by (auto simp: describes_def)
qed

section \<open>Runs\<close>

text \<open>
  The methods of a client, in any order and with any arguments; \<open>reinst\<close> are the tools that may
  be approved with the \<open>reinstate\<close> option.
\<close>

inductive client_act :: "client_config \<Rightarrow> (jstr \<Rightarrow> bool) \<Rightarrow> client_state \<Rightarrow> client_state \<Rightarrow> bool"
  for cfg reinst where
  act_call: "client_call cfg now callId name input token s = (r, t) \<Longrightarrow> client_act cfg reinst s t"
| act_invoke: "client_invoke cfg now callId name input token s = (r, t) \<Longrightarrow> client_act cfg reinst s t"
| act_approve: "client_approveCard cfg now c reinstate s = (r, t) \<Longrightarrow> (flag reinstate \<Longrightarrow> reinst (gc_name c)) \<Longrightarrow>
    client_act cfg reinst s t"
| act_revoke: "client_revokeTool now name reason s = (r, t) \<Longrightarrow> client_act cfg reinst s t"
| act_process: "processAudits cfg nowOf s = (r, t) \<Longrightarrow> client_act cfg reinst s t"
| act_background: "client_act cfg reinst s (background_pass cfg nowOf s)"
| act_start: "client_act cfg reinst s (startAuditRunner ms s)"
| act_stop: "client_act cfg reinst s (stopAuditRunner s)"
| act_connect: "client_connect cfg depth s = (r, t) \<Longrightarrow> client_act cfg reinst s t"
| act_prepare: "client_prepare cfg name input s = (r, t) \<Longrightarrow> client_act cfg reinst s t"
| act_lexicon: "client_getLexicon cfg s = (r, t) \<Longrightarrow> client_act cfg reinst s t"
| act_card: "client_getCard cfg name depth s = (r, t) \<Longrightarrow> client_act cfg reinst s t"
| act_manifest: "client_getManifest cfg name s = (r, t) \<Longrightarrow> client_act cfg reinst s t"
| act_discover: "client_discoverProviders cfg url root s = (r, t) \<Longrightarrow> client_act cfg reinst s t"
| act_inspect: "client_inspectCard c s = (r, t) \<Longrightarrow> client_act cfg reinst s t"
| act_inspect_all: "client_inspectLexicon es s = (r, t) \<Longrightarrow> client_act cfg reinst s t"
| act_pending: "client_pendingAudits s = (r, t) \<Longrightarrow> client_act cfg reinst s t"
| act_audit: "auditPending cfg s = (r, t) \<Longrightarrow> client_act cfg reinst s t"

inductive client_run :: "client_config \<Rightarrow> (jstr \<Rightarrow> bool) \<Rightarrow> client_state \<Rightarrow> client_state \<Rightarrow> bool"
  for cfg reinst where
  run_refl: "client_run cfg reinst s s"
| run_step: "client_run cfg reinst s t \<Longrightarrow> client_act cfg reinst t u \<Longrightarrow> client_run cfg reinst s u"

text \<open>A client with a pin store whose stores are consistent.\<close>

definition secured :: "client_state \<Rightarrow> bool" where
  "secured s \<longleftrightarrow> stores_ok s \<and> cl_pins s \<noteq> None"

text \<open>What one method may do to the pin of a tool: nothing, revoke it, or set it to a card.\<close>

definition sound_card :: "client_config \<Rightarrow> pin \<Rightarrow> bool" where
  "sound_card cfg p \<longleftrightarrow> verifyGlyph (cc_crypto cfg) (pin_card p) \<or> \<not> cc_secureMode cfg \<or> cc_autoApproveReviewChanges cfg"

inductive pin_change :: "client_config \<Rightarrow> bool \<Rightarrow> pin option \<Rightarrow> pin option \<Rightarrow> bool" for cfg reinst where
  pin_kept: "pin_change cfg reinst p p"
| pin_revoked: "\<not> truthy (pin_revokedAt p) \<Longrightarrow>
    pin_change cfg reinst (Some p) (Some (p\<lparr>pin_revokedAt := Some now, pin_revokeReason := reason\<rparr>))"
| pin_replaced: "reinst \<or> (\<forall>p. old = Some p \<longrightarrow> \<not> truthy (pin_revokedAt p)) \<Longrightarrow> \<not> truthy (pin_revokedAt q) \<Longrightarrow>
    sound_card cfg q \<Longrightarrow> pin_change cfg reinst old (Some q)"

inductive_cases pin_changeE: "pin_change cfg reinst p q"

lemma pin_change_verifies:
  assumes "pin_change cfg reinst old (Some q)" "cc_secureMode cfg" "\<not> cc_autoApproveReviewChanges cfg"
    and "\<And>p. old = Some p \<Longrightarrow> verifyGlyph (cc_crypto cfg) (pin_card p)"
  shows "verifyGlyph (cc_crypto cfg) (pin_card q)"
  using assms(1) by cases (use assms(2-4) in \<open>auto simp: sound_card_def\<close>)

definition sound_step :: "client_config \<Rightarrow> (jstr \<Rightarrow> bool) \<Rightarrow> client_state \<Rightarrow> client_state \<Rightarrow> bool" where
  "sound_step cfg reinst s t \<longleftrightarrow> secured t \<and> (\<forall>n. pin_change cfg (reinst n) (pins_of s n) (pins_of t n))"

lemma sound_same:
  assumes "secured s" "cl_pins t = cl_pins s" "cl_queue t = cl_queue s"
  shows "sound_step cfg reinst s t"
proof -
  have "pins_of t = pins_of s" using assms(2) by (simp add: pins_of_def fun_eq_iff)
  then show ?thesis using assms stores_ok_cong [OF assms(2,3)] by (simp add: sound_step_def secured_def pin_kept)
qed

lemma sound_reads: "secured s \<Longrightarrow> reads s t \<Longrightarrow> sound_step cfg reinst s t"
  using reads_ok [of s t] readsD(1,3) [of s t] by (simp add: sound_step_def secured_def pin_kept)

lemma sound_reader: "secured s \<Longrightarrow> reader m \<Longrightarrow> m s = (r, t) \<Longrightarrow> sound_step cfg reinst s t"
  by (rule sound_reads) (auto simp: secured_def dest: readerD)

lemma sound_post:
  assumes "secured s" "client_post cfg answer path body s = (r, t)"
  shows "sound_step cfg reinst s t"
  by (rule sound_same [OF assms(1)])
    (use assms(2) in \<open>auto simp: client_post_def and_then_def fetch_reply_def body_or_throw_def return_def throw_def
       split: reply.splits\<close>)

lemma gate_pin_change:
  assumes "gate_ok cfg now name c s t"
  shows "pin_change cfg reinst (pins_of s n) (pins_of t n)"
proof (cases "n = name")
  case True
  from assms have "approved cfg now name c s t" by (simp add: gate_ok_def)
  then show ?thesis
  proof cases
    case approved_first_use
    with True show ?thesis by (auto intro!: pin_replaced simp: sound_card_def)
  next
    case (approved_review p)
    with True show ?thesis by (auto intro!: pin_replaced simp: sound_card_def)
  qed (simp_all add: pin_kept)
next
  case False
  then show ?thesis using approved_other [of cfg now name c s t n] assms by (simp add: gate_ok_def pin_kept)
qed

lemma sound_call:
  assumes "secured s" "client_call cfg now callId name input token s = (r, t)"
  shows "sound_step cfg reinst s t"
proof -
  have g: ?thesis if "gate_ok cfg now name c s s1" "pins_of t = pins_of s1" "secured t" for c s1
    using gate_pin_change [OF that(1)] that(2,3) by (simp add: sound_step_def)
  have ok: "stores_ok s" "cl_pins s \<noteq> None" using assms(1) by (simp_all add: secured_def)
  show ?thesis
  proof (cases "went_through cfg now callId name input token s r t")
    case True
    from went_through_pins [OF True] g show ?thesis by (auto simp: secured_def)
  next
    case False
    with client_call_cases [OF ok assms(2)] have t: "secured t"
      and "reads s t \<or> (\<exists>c s1. gate_ok cfg now name c s s1 \<and> reads s1 t)" by (auto simp: secured_def)
    then show ?thesis using g [OF _ readsD(1) t] sound_reads [OF assms(1)] by blast
  qed
qed

lemma sound_audits:
  assumes "secured s" "processAudits cfg nowOf s = (r, t)"
  shows "sound_step cfg reinst s t"
proof -
  have c: "pin_change cfg (reinst n) (pins_of s n) (pins_of t n)" for n
  proof (cases "pins_of t n = pins_of s n")
    case True
    then show ?thesis by (simp add: pin_kept)
  next
    case False
    from audited_card [OF _ assms(2) False] assms(1) show ?thesis
      by (auto simp: secured_def sound_card_def promoted_pin_def intro!: pin_replaced)
  qed
  with processAudits_cases [OF _ assms(2)] assms(1) show ?thesis by (auto simp: sound_step_def secured_def)
qed

text \<open>Every method keeps the stores consistent and changes each pin as \<open>pin_change\<close> allows.\<close>

lemma client_act_sound:
  assumes "client_act cfg reinst s t" "secured s"
  shows "sound_step cfg reinst s t"
  using assms(1)
proof cases
  case (act_call now callId name input token r)
  with assms(2) show ?thesis by (intro sound_call)
next
  case (act_invoke now callId name input token r)
  then obtain r' where "client_call cfg now callId name input token s = (r', t)"
    by (auto simp: client_invoke_def and_then_def return_def split: prod.splits sum.splits)
  with assms(2) show ?thesis by (rule sound_call)
next
  case (act_approve now c reinstate r)
  from reader_approve_checks [OF _ this(1)] assms(2) have
    "reads s t \<or> (pins_of t = (pins_of s)(gc_name c \<mapsto> \<lparr>pin_toolName = gc_name c, pin_approvedAt = now,
      pin_card = c, pin_revokedAt = None, pin_revokeReason = None\<rparr>) \<and> secured t \<and> verifyGlyph (cc_crypto cfg) c \<and>
      (flag reinstate \<or> (\<forall>p. pins_of s (gc_name c) = Some p \<longrightarrow> \<not> truthy (pin_revokedAt p))))"
    by (auto simp: secured_def)
  then show ?thesis
  proof
    assume "reads s t"
    with assms(2) show ?thesis by (rule sound_reads)
  next
    assume "pins_of t = (pins_of s)(gc_name c \<mapsto> \<lparr>pin_toolName = gc_name c, pin_approvedAt = now,
      pin_card = c, pin_revokedAt = None, pin_revokeReason = None\<rparr>) \<and> secured t \<and> verifyGlyph (cc_crypto cfg) c \<and>
      (flag reinstate \<or> (\<forall>p. pins_of s (gc_name c) = Some p \<longrightarrow> \<not> truthy (pin_revokedAt p)))"
    with act_approve(2) show ?thesis by (auto simp: sound_step_def sound_card_def intro!: pin_replaced pin_kept)
  qed
next
  case (act_revoke now name reason r)
  show ?thesis
  proof (cases "reads s t")
    case True
    with assms(2) show ?thesis by (rule sound_reads)
  next
    case False
    with revokeTool_cases [OF _ act_revoke] assms(2) show ?thesis
      by (auto simp: sound_step_def secured_def intro!: pin_revoked pin_kept)
  qed
next
  case (act_process nowOf r)
  with assms(2) show ?thesis by (intro sound_audits)
next
  case (act_background nowOf)
  let ?s = "s\<lparr>cl_background := cl_background s - 1\<rparr>"
  obtain r u where "processAudits cfg nowOf ?s = (r, u)" by fastforce
  moreover have "secured ?s" "pins_of ?s = pins_of s"
    using assms(2) stores_ok_cong [of ?s s] by (simp_all add: secured_def pins_of_def fun_eq_iff)
  ultimately show ?thesis using act_background sound_audits [of ?s cfg nowOf r u reinst] sound_same [OF assms(2)]
    by (auto simp: background_pass_def sound_step_def)
next
  case (act_start ms)
  then show ?thesis using assms(2)
    by (intro sound_same) (auto simp: startAuditRunner_def Let_def split: option.splits)
next
  case act_stop
  then show ?thesis using assms(2)
    by (intro sound_same) (auto simp: stopAuditRunner_def Let_def split: option.splits)
next
  case (act_connect depth r)
  then show ?thesis using sound_post [OF assms(2)] by (simp add: client_connect_def)
next
  case (act_prepare name input r)
  then show ?thesis using sound_post [OF assms(2)] sound_same [OF assms(2)]
    by (auto simp: client_prepare_def with_encoded_def throw_def split: option.splits)
next
  case (act_lexicon r)
  then show ?thesis using sound_reader [OF assms(2) reader_client_get] by (simp add: client_getLexicon_def)
qed (use sound_reader [OF assms(2)] in \<open>blast intro: reads_intros\<close>)+

lemma client_run_secured: "client_run cfg reinst s t \<Longrightarrow> secured s \<Longrightarrow> secured t"
  by (induction rule: client_run.induct) (auto dest: client_act_sound simp: sound_step_def)

text \<open>
  C11. A revoked tool stays revoked: whatever the client does afterwards, short of an approval of
  that tool with \<open>reinstate\<close>, its pin keeps the revocation and its date, and a call of the tool
  throws without sending anything but GETs.
\<close>

theorem revoked_stays:
  assumes "client_run cfg reinst s t" "secured s" "\<not> reinst n"
    and "pins_of s n = Some p" "truthy (pin_revokedAt p)"
    and "client_call cfg now callId n input token t = (r, u)"
  shows "pins_of t n = Some p \<and> (\<exists>e. r = Inl e) \<and> gets_only (cl_requests t) (cl_requests u) \<and> pins_of u n = Some p"
proof -
  have t: "pins_of t n = Some p" using assms(1,2,4)
  proof (induction rule: client_run.induct)
    case (run_step s t u)
    then have "sound_step cfg reinst t u" by (blast intro: client_act_sound client_run_secured)
    then have "pin_change cfg (reinst n) (Some p) (pins_of u n)" using run_step unfolding sound_step_def by metis
    then show ?case using assms(3,5) by (auto elim: pin_changeE)
  qed
  have ok: "secured t" by (rule client_run_secured [OF assms(1,2)])
  have no: "\<not> gate_ok cfg now n c t v" for c v
    using t assms(5) by (auto simp: gate_ok_def elim: approved.cases)
  then have "\<not> went_through cfg now callId n input token t r u" by (auto simp: went_through_def)
  with client_call_cases [OF _ _ assms(6)] ok no have "gets_only (cl_requests t) (cl_requests u)" "\<exists>e. r = Inl e" "reads t u"
    by (auto simp: secured_def)
  with t readsD(1) [of t u] show ?thesis by simp
qed

text \<open>
  C12. A client in secure mode that does not auto-approve review-level changes only ever pins
  cards that verify, and under their own name.
\<close>

theorem verified_pins:
  assumes "client_run cfg reinst s t" "secured s" "cc_secureMode cfg" "\<not> cc_autoApproveReviewChanges cfg"
    and "\<And>n p. pins_of s n = Some p \<Longrightarrow> verifyGlyph (cc_crypto cfg) (pin_card p)"
    and "pins_of t n = Some p"
  shows "verifyGlyph (cc_crypto cfg) (pin_card p) \<and> gc_name (pin_card p) = n"
proof -
  have "\<forall>n p. pins_of t n = Some p \<longrightarrow> verifyGlyph (cc_crypto cfg) (pin_card p)"
    using assms(1,2,5)
  proof (induction rule: client_run.induct)
    case (run_step s t u)
    then have "sound_step cfg reinst t u" by (blast intro: client_act_sound client_run_secured)
    moreover from run_step have "\<forall>n p. pins_of t n = Some p \<longrightarrow> verifyGlyph (cc_crypto cfg) (pin_card p)" by blast
    ultimately show ?case using assms(3,4) pin_change_verifies unfolding sound_step_def by metis
  qed blast
  with client_run_secured [OF assms(1,2)] assms(6) show ?thesis by (simp add: secured_def stores_ok_def)
qed

end
