(* ===== verification/Client_Examples.thy ===== *)
theory Client_Examples
  imports Client_Properties Signer
begin

text \<open>
  A concrete client with one pinned tool and an honest server, on which the properties of the
  client are exercised.
\<close>

definition wipe_card :: glyph_card where
  "wipe_card = toy_sign_card (js ''k'') sample_card"

lemma wipe_card [simp]:
  "gc_name wipe_card = js ''wipe''" "gc_publicKey wipe_card = Some (js ''k'')" "verifyGlyph toy_crypto wipe_card"
  "gc_attestation wipe_card = None" "truthy (gc_signature wipe_card)"
  by (simp_all add: wipe_card_def toy_sign_card_verifies) (simp_all add: toy_sign_card_def sample_card_def)

definition unsigned_receipt :: "jstr \<Rightarrow> call_receipt" where
  "unsigned_receipt callId =
     \<lparr>cr_receiptVersion = RECEIPT_VERSION, cr_callId = js ''s1'', cr_clientCallId = Some (JStr callId),
      cr_glyphId = gc_id wipe_card, cr_glyphName = js ''wipe'', cr_inputHash = js ''i'',
      cr_outputHash = the (canonicalHash toy_crypto (JNum 7)),
      cr_inspectionHash = the (canonicalHash toy_crypto (JObj [])), cr_riskTier = Danger,
      cr_provider = js ''acme'', cr_latencyMs = 3, cr_timestamp = js ''t'', cr_serverPublicKey = js ''k'',
      cr_signature = []\<rparr>"

definition wipe_receipt :: "jstr \<Rightarrow> call_receipt" where
  "wipe_receipt callId = (unsigned_receipt callId)
     \<lparr>cr_signature := js ''k'' @ the (canonicalHash toy_crypto (receipt_json (unsigned_receipt callId)))\<rparr>"

lemma wipe_receipt [simp]:
  "cr_serverPublicKey (wipe_receipt i) = js ''k''" "cr_glyphId (wipe_receipt i) = gc_id wipe_card"
  "cr_outputHash (wipe_receipt i) = the (canonicalHash toy_crypto (JNum 7))"
  "cr_inspectionHash (wipe_receipt i) = the (canonicalHash toy_crypto (JObj []))"
  "cr_clientCallId (wipe_receipt i) = Some (JStr i)"
  by (simp_all add: wipe_receipt_def unsigned_receipt_def)

lemma toy_verify_hash:
  "v \<noteq> JUndef \<Longrightarrow> verify_hash toy_crypto v (k @ the (canonicalHash toy_crypto v)) k"
  by (simp add: verify_hash_def canonicalHash_Some verify_or_false_def) (simp add: toy_crypto_def)

lemma wipe_receipt_verifies: "verifyReceipt toy_crypto (wipe_receipt i)"
proof -
  have "receipt_json (wipe_receipt i) = receipt_json (unsigned_receipt i)" by (simp add: wipe_receipt_def)
  then show ?thesis using toy_verify_hash [of "receipt_json (unsigned_receipt i)" "js ''k''"]
    by (simp add: verifyReceipt_def) (simp add: wipe_receipt_def)
qed

definition wipe_envelope :: "jstr \<Rightarrow> sealed_envelope" where
  "wipe_envelope callId = \<lparr>se_glyphId = gc_id wipe_card, se_callId = js ''s1'', se_payload = JNum 7, se_latencyMs = 3,
     se_provider = js ''acme'', se_timestamp = js ''t'', se_inspection = None, se_receipt = Some (wipe_receipt callId)\<rparr>"

definition unsigned_manifest :: update_manifest where
  "unsigned_manifest =
     \<lparr>um_manifestVersion = MANIFEST_VERSION, um_toolName = js ''wipe'', um_previousCardId = js ''p'',
      um_newCardId = gc_id wipe_card, um_reason = js ''r'', um_breaking = False, um_securityImpact = Impact_Low,
      um_issuedAt = js ''t'', um_serverPublicKey = js ''k'', um_signature = []\<rparr>"

definition wipe_manifest :: update_manifest where
  "wipe_manifest = unsigned_manifest
     \<lparr>um_signature := js ''k'' @ the (canonicalHash toy_crypto (manifest_json unsigned_manifest))\<rparr>"

lemma wipe_manifest:
  "um_toolName wipe_manifest = js ''wipe''" "um_serverPublicKey wipe_manifest = js ''k''"
  "verifyManifest toy_crypto wipe_manifest"
proof -
  show u: "um_toolName wipe_manifest = js ''wipe''" "um_serverPublicKey wipe_manifest = js ''k''"
    by (simp_all add: wipe_manifest_def unsigned_manifest_def)
  have "manifest_json wipe_manifest = manifest_json unsigned_manifest" by (simp add: wipe_manifest_def)
  then show "verifyManifest toy_crypto wipe_manifest"
    using toy_verify_hash [of "manifest_json unsigned_manifest" "js ''k''"] u
    by (simp add: verifyManifest_def) (simp add: wipe_manifest_def)
qed

definition honest_net :: network where
  "honest_net = \<lparr>nt_handshake = (\<lambda>_ _. No_Reply), nt_lexicon = (\<lambda>_ _. No_Reply),
     nt_card = (\<lambda>_ _. Reply wipe_card), nt_ticket = (\<lambda>_ _. No_Reply),
     nt_envelope = (\<lambda>_ _. Reply (wipe_envelope (js ''c1''))), nt_manifest = (\<lambda>_ _. Reply wipe_manifest),
     nt_providers = (\<lambda>_ _. No_Reply)\<rparr>"

definition wipe_pin :: pin where
  "wipe_pin = \<lparr>pin_toolName = js ''wipe'', pin_approvedAt = js ''now'', pin_card = wipe_card,
     pin_revokedAt = None, pin_revokeReason = None\<rparr>"

definition plain_options :: client_options where
  "plain_options = \<lparr>op_baseUrl = js ''http://s/'', op_consumerId = None, op_contextBudget = None,
     op_authToken = None, op_headers = None, op_pins = Some (Memory_Pins [(js ''wipe'', wipe_pin)]),
     op_secureMode = Some True, op_autoApproveReviewChanges = None, op_verifyReceipts = None, op_trust = None,
     op_requireAttestation = None, op_attestationVerifiers = None, op_resilientUpdates = None,
     op_pendingAuditQueue = None, op_tofu = None, op_autoPromotionPolicy = None\<rparr>"

definition no_world :: "client_request list \<Rightarrow> trust_world" where
  "no_world _ = \<lparr>tw_file = None, tw_http = (\<lambda>_. None)\<rparr>"

definition wipe_cfg :: client_config where
  "wipe_cfg = client_config_of toy_crypto honest_net no_world (js ''u'') plain_options"

definition wipe_client :: client_state where
  "wipe_client = initial_client plain_options"

lemma wipe_cfg [simp]:
  "cc_crypto wipe_cfg = toy_crypto" "cc_net wipe_cfg = honest_net" "cc_secureMode wipe_cfg"
  "cc_verifyReceipts wipe_cfg" "\<not> cc_trustEnabled wipe_cfg" "cc_requireAttestation wipe_cfg = Att_None"
  by (simp_all add: wipe_cfg_def client_config_of_def plain_options_def default_to_def)

lemma wipe_client [simp]:
  "cl_pins wipe_client = Some (Memory_Pins [(js ''wipe'', wipe_pin)])" "cl_cache wipe_client = []"
  "cl_queue wipe_client = None" "cl_requests wipe_client = []"
  by (simp_all add: wipe_client_def initial_client_def plain_options_def)

lemma wipe_client_ok: "stores_ok wipe_client"
  by (auto simp: stores_ok_def omap_wf_def wipe_pin_def split: if_splits)

lemma encode_wipe: "encodeURIComponent (js ''wipe'') = Some (js ''wipe'')"
  by (simp add: encodeURIComponent_def js_def uc_def is_high_def uri_unreserved_def)

lemmas call_eval = client_call_def and_then_def ensureApproved_def current_card_def client_getCard_def
  with_encoded_def client_get_def fetch_reply_def body_or_throw_def return_def throw_def cache_card_def
  client_inspectCard_def with_pins_def pins_get_def mem_pin_get_def classify_card_def enforceTrust_def
  ensureAttested_def send_call_def client_post_def check_receipt_def encode_wipe honest_net_def

lemma wipe_call:
  "\<exists>t. client_call wipe_cfg (js ''n'') (js ''c1'') (js ''wipe'') JNull None wipe_client = (Inr (wipe_envelope (js ''c1'')), t) \<and>
     (\<exists>q r. cl_requests t = [q, r] \<and> is_post r)"
proof -
  have p: "pin_card wipe_pin = wipe_card" "pin_revokedAt wipe_pin = None" by (simp_all add: wipe_pin_def)
  have b: "\<exists>r. receipt_binds toy_crypto (wipe_envelope (js ''c1'')) wipe_card (js ''c1'') r"
    by (simp add: receipt_binds_def wipe_envelope_def wipe_receipt_verifies canonicalHash_Some nullish_or_def default_to_def)
  then have v: "client_verifyReceipt wipe_cfg (wipe_envelope (js ''c1'')) wipe_card (js ''c1'') s = (Inr (), s)" for s
    by (simp add: client_verifyReceipt_Inr)
  show ?thesis by (simp add: call_eval p v)
qed


theorem call_receipt_bound_witness:
  "\<exists>(p::pin) r. receipt_binds toy_crypto (wipe_envelope (js ''c1'')) (pin_card p) (js ''c1'') r"
proof -
  from wipe_call obtain t where t: "client_call wipe_cfg (js ''n'') (js ''c1'') (js ''wipe'') JNull None wipe_client
      = (Inr (wipe_envelope (js ''c1'')), t)" by blast
  from call_receipt_bound [OF wipe_client_ok _ _ _ t] show ?thesis by auto
qed

theorem builtin_verifiers_block_witness:
  "\<exists>err. fst (client_call (wipe_cfg\<lparr>cc_requireAttestation := Att_All\<rparr>) (js ''n'') (js ''c1'') (js ''wipe'') JNull None
      wipe_client) = Inl err"
  by (rule builtin_verifiers_block)
     (simp_all add: wipe_cfg_def client_config_of_def plain_options_def default_to_def)

theorem getManifest_sound_witness:
  "\<exists>t. client_getManifest wipe_cfg (js ''wipe'') wipe_client = (Inr (Some wipe_manifest), t) \<and> reads wipe_client t"
proof -
  have "\<exists>t. client_getManifest wipe_cfg (js ''wipe'') wipe_client = (Inr (Some wipe_manifest), t)"
    by (simp add: client_getManifest_def manifest_reply_def manifest_ok_def pin_if_any_def wipe_manifest call_eval wipe_pin_def)
  then obtain t where t: "client_getManifest wipe_cfg (js ''wipe'') wipe_client = (Inr (Some wipe_manifest), t)" by blast
  from getManifest_sound [OF wipe_client_ok t] t show ?thesis by auto
qed

end
