(* ===== verification/Client_Limits.thy ===== *)
theory Client_Limits
  imports Client_Runs Client_Examples
begin

text \<open>
  What the client does not promise: the gates judge the card that was served, which need not be
  the one that was pinned; a background pass judges an audit by card ids; a second start of the
  audit runner leaves a timer behind. The file ends with runs on which the properties of
  \<open>Client_Runs\<close> are exercised.
\<close>

section \<open>The card the gates look at\<close>

text \<open>The state after a request for the card of \<open>name\<close> that brought an unsigned one.\<close>

definition asked_card :: "client_config \<Rightarrow> jstr \<Rightarrow> client_state \<Rightarrow> client_state" where
  "asked_card cfg enc s =
     s\<lparr>cl_requests := cl_requests s @ [Get_Request (cc_baseUrl cfg @ js ''/glyphs/'' @ enc) (buildHeaders cfg False)]\<rparr>"

lemma asked_card [simp]:
  "cl_pins (asked_card cfg enc s) = cl_pins s" "cl_cache (asked_card cfg enc s) = cl_cache s"
  "cl_queue (asked_card cfg enc s) = cl_queue s" "pins_of (asked_card cfg enc s) = pins_of s"
  by (simp_all add: asked_card_def pins_of_def fun_eq_iff)

lemma current_card_unsigned:
  assumes "map_of (cl_cache s) name = None" "encodeURIComponent name = Some enc"
    "\<And>h q. nt_card (cc_net cfg) h q = Reply c" "\<not> truthy (gc_signature c)"
  shows "current_card cfg name s = (Inr c, asked_card cfg enc s)"
  using assms by (simp add: current_card_def client_getCard_def with_encoded_def client_get_def and_then_def
      fetch_reply_def body_or_throw_def cache_card_def return_def asked_card_def)

text \<open>
  C20. Under the policy \<open>danger\<close> the attestation gate is opened by the served card alone: an
  unsigned card that repeats the id and the key of the pinned one but names a lower risk tier
  passes the pin gate and the attestation gate, whatever the pinned card's tier.
\<close>

theorem danger_gate_bypassed:
  assumes "stores_ok s" "pins_of s name = Some p" "\<not> truthy (pin_revokedAt p)"
    and "map_of (cl_cache s) name = None" "encodeURIComponent name = Some enc"
    and "\<And>h q. nt_card (cc_net cfg) h q = Reply c" "\<not> truthy (gc_signature c)"
    and "gc_name c = name" "gc_id c = gc_id (pin_card p)" "gc_publicKey c = gc_publicKey (pin_card p)"
    and "co_riskTier (gc_cost c) \<noteq> Danger" "cc_requireAttestation cfg = Att_Danger"
  shows "\<exists>t u. ensureApproved cfg now name s = (Inr (), t) \<and> ensureAttested cfg name t = (Inr (), u)"
proof -
  let ?s1 = "asked_card cfg enc s"
  have card: "current_card cfg name s = (Inr c, ?s1)" by (rule current_card_unsigned [OF assms(4-7)])
  have r: "reads s ?s1" by (rule reads_same) (simp_all add: asked_card_def gets_only_get)
  have st: "cl_pins s \<noteq> None" using assms(2) by (auto simp: pins_of_def split: option.splits)
  from with_pins_get [of ?s1 name] reads_ok [OF r assms(1)] st obtain t where
    t: "with_pins (pins_get name) ?s1 = (Inr (Some p), t)" "reads ?s1 t" using assms(2) by auto
  have status: "ci_status (classify_card (Some p) c) = Status_Unchanged"
    using assms(3,9,10) by (simp add: classify_card_def)
  have e: "ensureApproved cfg now name s = (Inr (), t)"
    using st card t(1) status assms(8) by (auto simp: ensureApproved_def client_inspectCard_def and_then_def return_def)
  have "cl_cache t = cl_cache s" using t(1) by (auto simp: with_pins_def split: option.splits prod.splits sum.splits)
  then have "current_card cfg name t = (Inr c, asked_card cfg enc t)"
    using assms(4-7) by (intro current_card_unsigned) auto
  then have "ensureAttested cfg name t = (Inr (), asked_card cfg enc t)"
    using assms(8,11,12) by (simp add: ensureAttested_def and_then_def check_attested_def attestation_required_def return_def)
  with e show ?thesis by blast
qed

text \<open>
  Outside strict mode a changed card is pinned without a look at its signature, when the change is
  of the review class.
\<close>

lemma review_change_pins_unverified:
  assumes "stores_ok s" "pins_of s (gc_name c) = Some p" "\<not> truthy (pin_revokedAt p)"
    and "map_of (cl_cache s) (gc_name c) = None" "encodeURIComponent (gc_name c) = Some enc"
    and "\<And>h q. nt_card (cc_net cfg) h q = Reply c" "\<not> truthy (gc_signature c)"
    and "gc_id c \<noteq> gc_id (pin_card p)" "\<not> df_requiresApproval (diffCards (pin_card p) c)"
    and "\<not> cc_secureMode cfg \<or> cc_autoApproveReviewChanges cfg"
  shows "\<exists>t q. ensureApproved cfg now (gc_name c) s = (Inr (), t) \<and> pins_of t (gc_name c) = Some q \<and>
    pin_card q = c \<and> \<not> verifyGlyph (cc_crypto cfg) (pin_card q)"
proof -
  let ?s1 = "asked_card cfg enc s"
  let ?n = "gc_name c"
  have card: "current_card cfg ?n s = (Inr c, ?s1)" by (rule current_card_unsigned [OF assms(4-7)])
  have r: "reads s ?s1" by (rule reads_same) (simp_all add: asked_card_def gets_only_get)
  have st: "cl_pins s \<noteq> None" using assms(2) by (auto simp: pins_of_def split: option.splits)
  have ok: "stores_ok ?s1" "cl_pins ?s1 \<noteq> None" using reads_ok [OF r assms(1)] st by simp_all
  from with_pins_get [OF ok, of ?n] obtain t where
    t: "with_pins (pins_get ?n) ?s1 = (Inr (Some p), t)" "reads ?s1 t" using assms(2) by auto
  have okt: "stores_ok t" "cl_pins t \<noteq> None" using reads_ok [OF t(2) ok(1)] readsD(3) [OF t(2)] st by simp_all
  let ?q = "p\<lparr>pin_card := c, pin_approvedAt := now\<rparr>"
  have "pin_toolName p = ?n" using assms(1,2) by (simp add: stores_ok_def)
  with with_pins_set [OF okt, of ?q] obtain u where
    u: "with_pins (pins_set ?q) t = (Inr (), u)" "pins_of u = (pins_of t)(?n \<mapsto> ?q)" by auto
  have "classify_card (Some p) c =
      \<lparr>ci_status = Status_Changed, ci_pin = Some p, ci_diff = Some (diffCards (pin_card p) c)\<rparr>"
    using assms(3,8) by (auto simp: classify_card_def)
  then have "ensureApproved cfg now ?n s = (Inr (), u)"
    using st card t(1) u(1) assms(9,10)
    by (auto simp: ensureApproved_def client_inspectCard_def and_then_def return_def approve_or_park_def)
  moreover have "\<not> verifyGlyph (cc_crypto cfg) c" using assms(7) by (simp add: verifyGlyph_iff)
  ultimately show ?thesis using u(2) by auto
qed

text \<open>
  Starting the audit runner with an interval twice and stopping it once leaves the first
  timer running for ever: no later stop clears it.
\<close>

theorem runner_timer_leaks:
  assumes "0 < a" "0 < b" "cl_nextTimer s \<notin> set (cl_timers s)"
  shows "cl_nextTimer s \<in> set (cl_timers (stopAuditRunner (startAuditRunner (Some b) (startAuditRunner (Some a) s)))) \<and>
    stopAuditRunner (stopAuditRunner (startAuditRunner (Some b) (startAuditRunner (Some a) s)))
      = stopAuditRunner (startAuditRunner (Some b) (startAuditRunner (Some a) s))"
  using assms by (simp add: startAuditRunner_def stopAuditRunner_def Let_def)

theorem runner_timer_leaks_witness:
  "0 \<in> set (cl_timers (stopAuditRunner (startAuditRunner (Some 5) (startAuditRunner (Some 5) wipe_client))))"
proof -
  have "cl_nextTimer wipe_client = 0" "cl_timers wipe_client = []"
    by (simp_all add: wipe_client_def initial_client_def)
  with runner_timer_leaks [of 5 5 wipe_client] show ?thesis by simp
qed

section \<open>Runs\<close>

definition masked_card :: glyph_card where
  "masked_card = wipe_card\<lparr>gc_cost := sample_cost\<lparr>co_riskTier := Safe\<rparr>, gc_signature := None\<rparr>"

definition masking_net :: network where
  "masking_net = honest_net\<lparr>nt_card := \<lambda>_ _. Reply masked_card\<rparr>"

theorem danger_gate_bypassed_witness:
  "co_riskTier (gc_cost wipe_card) = Danger \<and>
   (\<exists>t u. ensureApproved (wipe_cfg\<lparr>cc_net := masking_net, cc_requireAttestation := Att_Danger\<rparr>) (js ''n'') (js ''wipe'')
        wipe_client = (Inr (), t) \<and>
      ensureAttested (wipe_cfg\<lparr>cc_net := masking_net, cc_requireAttestation := Att_Danger\<rparr>) (js ''wipe'') t = (Inr (), u))"
proof
  show "co_riskTier (gc_cost wipe_card) = Danger"
    by (simp add: wipe_card_def toy_sign_card_def sample_card_def sample_cost_def)
  have m: "gc_name masked_card = js ''wipe''" "gc_id masked_card = gc_id wipe_card"
    "gc_publicKey masked_card = gc_publicKey wipe_card" "\<not> truthy (gc_signature masked_card)"
    "co_riskTier (gc_cost masked_card) \<noteq> Danger"
    by (simp_all add: masked_card_def sample_cost_def)
  show "\<exists>t u. ensureApproved (wipe_cfg\<lparr>cc_net := masking_net, cc_requireAttestation := Att_Danger\<rparr>) (js ''n'') (js ''wipe'')
        wipe_client = (Inr (), t) \<and>
      ensureAttested (wipe_cfg\<lparr>cc_net := masking_net, cc_requireAttestation := Att_Danger\<rparr>) (js ''wipe'') t = (Inr (), u)"
    by (rule danger_gate_bypassed [OF wipe_client_ok, where p = wipe_pin and enc = "js ''wipe''" and c = masked_card])
      (simp_all add: m encode_wipe masking_net_def wipe_pin_def)
qed

definition revoked_pin :: pin where
  "revoked_pin = wipe_pin\<lparr>pin_revokedAt := Some (js ''t1''), pin_revokeReason := None\<rparr>"

definition revoked_client :: client_state where
  "revoked_client = wipe_client\<lparr>cl_pins := Some (Memory_Pins [(js ''wipe'', revoked_pin)])\<rparr>"

lemma revoked_client_ok: "secured revoked_client"
  by (auto simp: secured_def stores_ok_def revoked_client_def revoked_pin_def wipe_pin_def omap_wf_def split: if_splits)

theorem revoked_stays_witness:
  "\<exists>e u. client_call wipe_cfg (js ''n'') (js ''c1'') (js ''wipe'') JNull None (startAuditRunner None revoked_client) = (Inl e, u) \<and>
     pins_of u (js ''wipe'') = Some revoked_pin"
proof -
  obtain r u where c: "client_call wipe_cfg (js ''n'') (js ''c1'') (js ''wipe'') JNull None
      (startAuditRunner None revoked_client) = (r, u)" by fastforce
  have "client_run wipe_cfg (\<lambda>_. False) revoked_client (startAuditRunner None revoked_client)"
    by (rule run_step [OF run_refl act_start])
  from revoked_stays [OF this revoked_client_ok _ _ _ c, of revoked_pin] c show ?thesis
    by (auto simp: revoked_client_def revoked_pin_def)
qed

theorem verified_pins_witness:
  "verifyGlyph toy_crypto (pin_card wipe_pin) \<and> gc_name (pin_card wipe_pin) = js ''wipe''"
proof -
  have s: "secured wipe_client" using wipe_client_ok by (simp add: secured_def)
  have "client_run wipe_cfg (\<lambda>_. False) wipe_client (startAuditRunner None wipe_client)"
    by (rule run_step [OF run_refl act_start])
  from verified_pins [OF this s, of "js ''wipe''" wipe_pin] show ?thesis
    by (auto simp: pins_of_def startAuditRunner_def wipe_pin_def wipe_cfg_def client_config_of_def plain_options_def
        default_to_def split: if_splits)
qed

definition reworded_card :: glyph_card where
  "reworded_card = toy_sign_card (js ''k'') (sample_card\<lparr>gc_intent := js ''erase a disk''\<rparr>)"

definition reworded_entry :: pending_entry where
  "reworded_entry = \<lparr>pe_toolName = js ''wipe'', pe_newCard = reworded_card,
     pe_diff = diffCards wipe_card reworded_card, pe_detectedAt = js ''t''\<rparr>"

definition resilient_cfg :: client_config where
  "resilient_cfg = wipe_cfg\<lparr>cc_resilientUpdates := True, cc_autoPromotionPolicy := Some empty_policy,
     cc_net := honest_net\<lparr>nt_manifest := \<lambda>_ _. Not_Ok 404 []\<rparr>\<rparr>"

definition resilient_client :: client_state where
  "resilient_client = wipe_client\<lparr>cl_queue := Some (Memory_Queue [(js ''wipe'', reworded_entry)])\<rparr>"

lemma reworded_card [simp]:
  "gc_name reworded_card = js ''wipe''" "verifyGlyph toy_crypto reworded_card" "truthy (gc_signature reworded_card)"
  "gc_attestation reworded_card = None"
  "\<not> df_requiresApproval (diffCards wipe_card reworded_card)" "gc_publicKey reworded_card = Some (js ''k'')"
proof -
  show "gc_name reworded_card = js ''wipe''" "verifyGlyph toy_crypto reworded_card" "truthy (gc_signature reworded_card)"
    "gc_attestation reworded_card = None" "gc_publicKey reworded_card = Some (js ''k'')"
    by (simp_all add: reworded_card_def toy_sign_card_verifies) (simp_all add: toy_sign_card_def sample_card_def)
  show "\<not> df_requiresApproval (diffCards wipe_card reworded_card)"
    by (simp add: requiresApproval_iff wipe_card_def reworded_card_def toy_sign_card_def)
qed

lemma resilient_client_ok: "stores_ok resilient_client"
  using wipe_client_ok by (auto simp: stores_ok_def resilient_client_def omap_wf_def reworded_entry_def pins_of_def
    split: if_splits)


lemmas audit_eval = call_eval processAudits_def auditPending_def client_pendingAudits_def with_queue_def queue_list_def
  mem_queue_list_def auditEntry_def Let_def audit_manifest_def catching_def client_getManifest_def manifest_reply_def
  audit_attestation_def default_to_def promote_report_def queue_get_def mem_queue_get_def queue_remove_def
  mem_queue_remove_def pins_set_def mem_pin_set_def notify_decision_def


end
