(* ===== verification/System.thy ===== *)
theory System
  imports Server_Invariant Client_Limits
begin

text \<open>
  Server and client together. An answer the server seals is accepted by a client that pinned the
  served card; and, as long as the server's key signs nothing but what the server issued, an
  answer that the client accepts is the outcome of an execution on the server, for the very call
  id the client sent.
\<close>

section \<open>A sealed answer is accepted\<close>

text \<open>
  C7. The server's answer to a call passes every check of \<open>verifyReceipt\<close> on the client, when the
  pinned card is the registered one and the request carried the client's call id.
\<close>

theorem sealed_accepted:
  assumes "honest_signer (sc_crypto cfg) (sc_signer cfg)" "cc_crypto ccfg = sc_crypto cfg"
    and "server_call cfg env name raw caller s = (Inr (Sealed e), s')"
    and "map_of (sv_glyphs s) name = Some g" "gc_id c = gc_id (gd_card g)"
    and "gc_publicKey c = Some (sg_publicKey (sc_signer cfg))"
    and "readJson (sc_maxBodyBytes cfg) raw = Inr body" "js_member body (js ''callId'') = Some (JStr callId)"
    and "callId \<noteq> []"
  shows "client_verifyReceipt ccfg e c callId t = (Inr (), t)"
proof -
  from server_call_Sealed [OF assms(3)] obtain g' cid data key s0 v out s1 s2 where
    x: "call_gates cfg env name raw caller s = (Inr (Admitted g' cid data key), s0)"
      "seal_step cfg env g' cid data out s1 = (Inr e, s2)" by blast
  from call_gates_Admitted [OF x(1)] assms(4,7,8) have g: "g' = g" "cid = JStr callId"
    by (auto simp: call_admitted_def)
  from seal_step_Inr [OF x(2)] assms(1) g obtain r where
    r: "se_receipt e = Some r" "receipt_describes (sc_crypto cfg) (gd_card g) data e r"
      "cr_serverPublicKey r = sg_publicKey (sc_signer cfg)" "verifyReceipt (sc_crypto cfg) r"
      "cr_clientCallId r = Some (JStr callId)" using assms(9) by auto
  then have "receipt_binds (sc_crypto cfg) e c callId r"
    using assms(5,6) by (auto simp: receipt_binds_def receipt_describes_def nullish_or_def default_to_def)
  then show ?thesis using assms(2) by (simp add: client_verifyReceipt_Inr) blast
qed

section \<open>What an accepted answer proves\<close>

text \<open>\<open>executed cfg S q name data out\<close>: the handler ran on \<open>data\<close>, its output was accepted as
  \<open>out\<close>, and the receipt \<open>q\<close> describes that.\<close>

definition executed ::
  "server_config \<Rightarrow> server_state \<Rightarrow> call_receipt \<Rightarrow> jstr \<Rightarrow> jsval \<Rightarrow> jsval \<Rightarrow> bool" where
  "executed cfg S q name data out \<longleftrightarrow> Handler_Ran name data \<in> set (sv_trace S) \<and>
     canonicalHash (sc_crypto cfg) data = Some (cr_inputHash q) \<and>
     canonicalHash (sc_crypto cfg) (fst (sanitize (sc_nfkc cfg) out)) = Some (cr_outputHash q) \<and>
     (\<exists>(g::glyph_definition) v. gd_handler g data = Handler_Returns v \<and> gd_outputSchema g v = Inr out \<and> cr_glyphId q = gc_id (gd_card g))"

lemma executed_mono: "executed cfg S q name data out \<Longrightarrow> set (sv_trace S) \<subseteq> set (sv_trace S') \<Longrightarrow> executed cfg S' q name data out"
  by (auto simp: executed_def)

lemma server_call_issued:
  assumes "server_call cfg env name raw caller s = (r, s')" "Audit_Hook q \<in> set (sv_trace s')"
  shows "Audit_Hook q \<in> set (sv_trace s) \<or> (\<exists>data out. executed cfg s' q name data out)"
proof -
  obtain w s1 where w: "call_gates cfg env name raw caller s = (w, s1)" by fastforce
  have t: "sv_trace s1 = sv_trace s" by (rule quiet_call_gates_trace [OF w])
  show ?thesis
  proof (cases "\<exists>g cid data key rep. w = Inr (Admitted g cid data key) \<and> r = Inr rep")
    case False
    then have "sv_trace s' = sv_trace s \<or> (\<exists>d. sv_trace s' = sv_trace s @ [Handler_Ran name d])"
      using assms(1) w t execute_call_Inl [of cfg env name _ _ _ _ s1 _ s']
      by (cases r) (fastforce simp: server_call_def and_then_case return_def split: sum.splits gate_result.splits)+
    with assms(2) show ?thesis by auto
  next
    case True
    then obtain g cid data key rep where a: "w = Inr (Admitted g cid data key)" "r = Inr rep" by blast
    then have "execute_call cfg env name g cid data key s1 = (Inr rep, s')"
      using assms(1) w by (simp add: server_call_def and_then_case)
    from execute_call_Sealed [OF this] obtain v out e t1 t2 where
      y: "gd_handler g data = Handler_Returns v" "gd_outputSchema g v = Inr out"
        "seal_step cfg env g cid data out t1 = (Inr e, t2)" "sv_trace t1 = sv_trace s1 @ [Handler_Ran name data]"
        "record_response (en_putNow env) key e t2 = (Inr (), s')" by auto
    have s': "sv_trace s' = sv_trace t2"
      using record_response_quiet [of "en_putNow env" key e] y(5) unfolding quiet_def by (metis snd_conv)
    from seal_step_Inr [OF y(3)] obtain u where u: "se_payload e = fst (sanitize (sc_nfkc cfg) out)"
      "receipt_describes (sc_crypto cfg) (gd_card g) data e u"
      "sv_trace t2 = sv_trace t1 @ (if sc_onCall cfg then [Audit_Hook u] else [])" by blast
    have "executed cfg s' u name data out"
      using u y s' by (auto simp: executed_def receipt_describes_def)
    with assms(2) u(3) y(4) s' t show ?thesis by (auto split: if_splits)
  qed
qed

lemma reach_issued:
  assumes "server_reach cfg S" "Audit_Hook q \<in> set (sv_trace S)"
  shows "\<exists>name data out. executed cfg S q name data out"
  using assms
proof (induction rule: server_reach.induct)
  case (start ttl)
  then show ?case by (simp add: initial_server_def)
next
  case (register s g r s')
  then have "sv_trace s' = sv_trace s"
    by (auto simp: server_register_def Let_def split: option.splits if_splits)
  with register show ?case using executed_mono [of cfg s q _ _ _ s'] by fastforce
next
  case (manifest s now name spec r s')
  then have "sv_trace s' = sv_trace s"
    by (auto simp: server_registerManifest_def Let_def split: option.splits)
  with manifest show ?case using executed_mono [of cfg s q _ _ _ s'] by fastforce
next
  case (prepare s token now name raw caller r s')
  then have "sv_trace s' = sv_trace s"
    using quiet_prepare [of cfg token now name raw caller] unfolding quiet_def by (metis snd_conv)
  with prepare show ?case using executed_mono [of cfg s q _ _ _ s'] by fastforce
next
  case (call s env name raw caller p s')
  from server_call_issued [OF call.hyps(2) call.prems] show ?case
  proof
    assume "Audit_Hook q \<in> set (sv_trace s)"
    moreover have "set (sv_trace s) \<subseteq> set (sv_trace s')"
      by (cases "sv_trace s' = sv_trace s") (auto dest: server_call_ran [OF call.hyps(2)])
    ultimately show ?case using call.IH executed_mono [of cfg s q _ _ _ s'] by blast
  qed blast
qed

lemma canonEqual_cases:
  "canonEqual (JStr a) w \<longleftrightarrow> w = JStr a" "canonEqual JNull w \<longleftrightarrow> w = JNull"
  by (cases w; auto simp: canonEqual_iff)+

lemma same_client_call:
  assumes "canonEqual (jopt (\<lambda>v. v) a) (jopt (\<lambda>v. v) b)"
    "nullish_or (default_to JUndef a) (JStr i) = JStr callId"
  shows "nullish_or (default_to JUndef b) (JStr i) = JStr callId"
proof -
  have d: "jopt (\<lambda>v. v) x = default_to JUndef x" for x
    by (cases x) (simp_all add: default_to_def)
  from assms(2) have "default_to JUndef a \<in> {JUndef, JNull, JStr callId}"
    by (auto simp: nullish_or_def split: if_splits)
  then have "default_to JUndef b = default_to JUndef a"
    using assms(1) unfolding d by (auto simp: canonEqual_cases)
  with assms(2) show ?thesis by simp
qed


section \<open>One round trip\<close>

theorem sealed_accepted_witness:
  "\<exists>e s' t. server_call toy_config toy_env (js ''wipe'') toy_raw None (toy_server None) = (Inr (Sealed e), s') \<and>
     client_verifyReceipt wipe_cfg e (sample_card\<lparr>gc_publicKey := Some (js ''k'')\<rparr>) (js ''c'') t = (Inr (), t)"
proof -
  from toy_call obtain e s' where
    c: "server_call toy_config toy_env (js ''wipe'') toy_raw None (toy_server None) = (Inr (Sealed e), s')" by blast
  have g: "map_of (sv_glyphs (toy_server None)) (js ''wipe'') = Some toy_glyph" by (simp add: toy_server_def)
  have k: "gc_publicKey (sample_card\<lparr>gc_publicKey := Some (js ''k'')\<rparr>) = Some (sg_publicKey (sc_signer toy_config))"
    by (simp add: ed25519_signer_def)
  have i: "gc_id (sample_card\<lparr>gc_publicKey := Some (js ''k'')\<rparr>) = gc_id (gd_card toy_glyph)" by (simp add: toy_glyph_def)
  from sealed_accepted [OF _ _ c g i k toy_read toy_members(1), of wipe_cfg] c show ?thesis
    using toy_honest by auto
qed

text \<open>
  A signature scheme under which one hash only is signed: the receipt of the one call that is
  made.
\<close>

definition sealing_crypto :: "jstr \<Rightarrow> crypto" where
  "sealing_crypto h0 = toy_crypto\<lparr>cx_verify := (\<lambda>sig m pub. Some (sig = pub @ m \<and> m = h0))\<rparr>"

lemma sealing_hash [simp]: "canonicalHash (sealing_crypto h0) v = canonicalHash toy_crypto v"
  by (simp add: canonicalHash_def sealing_crypto_def)

definition plain_card :: glyph_card where
  "plain_card = sample_card\<lparr>gc_cost := sample_cost\<lparr>co_requiresConfirmation := False\<rparr>,
     gc_id := computeGlyphId toy_crypto (sample_card\<lparr>gc_cost := sample_cost\<lparr>co_requiresConfirmation := False\<rparr>\<rparr>)\<rparr>"

lemma plain_card [simp]:
  "gc_name plain_card = js ''wipe''" "co_requiresConfirmation (gc_cost plain_card) = False"
  "missingScopes (gc_requiredScopes plain_card) c = []" "gc_signature plain_card = None" "gc_attestation plain_card = None"
  by (simp_all add: plain_card_def sample_card_def missingScopes_def)

definition plain_glyph :: glyph_definition where
  "plain_glyph = toy_glyph\<lparr>gd_card := plain_card\<rparr>"

definition sealing_config :: "jstr \<Rightarrow> server_config" where
  "sealing_config h0 = toy_config\<lparr>sc_crypto := sealing_crypto h0\<rparr>"

lemma sealing_config [simp]:
  "sc_crypto (sealing_config h0) = sealing_crypto h0" "sc_nfkc (sealing_config h0) = id"
  "sc_signer (sealing_config h0) = ed25519_signer toy_crypto (js ''k'', js ''k'')" "sc_onCall (sealing_config h0)"
  "sc_maxBodyBytes (sealing_config h0) = sc_maxBodyBytes toy_config"
  by (simp_all add: sealing_config_def)

definition signed_glyph :: glyph_definition where
  "signed_glyph = plain_glyph\<lparr>gd_card := toy_sign_card (js ''k'') plain_card\<rparr>"

definition registered_server :: server_state where
  "registered_server = (initial_server None)\<lparr>sv_glyphs := [(js ''wipe'', signed_glyph)]\<rparr>"

lemma signed_glyph [simp]:
  "gd_handler signed_glyph = (\<lambda>_. Handler_Returns (JNum 1))" "gd_outputSchema signed_glyph = Inr"
  "gd_inputSchema signed_glyph = Inr" "gc_id (gd_card signed_glyph) = gc_id plain_card"
  "gc_provider (gd_card signed_glyph) = gc_provider plain_card"
  "gc_requiredScopes (gd_card signed_glyph) = gc_requiredScopes plain_card"
  "gc_cost (gd_card signed_glyph) = gc_cost plain_card"
  by (simp_all add: signed_glyph_def plain_glyph_def toy_glyph_def toy_sign_card_def)
     (simp add: plain_card_def)

lemma toy_env_fields [simp]:
  "en_callId toy_env = js ''u''" "en_latencyMs toy_env = 2" "en_envelopeTime toy_env = js ''now''"
  by (simp_all add: toy_env_def)

lemma plain_id: "gc_id plain_card = computeGlyphId toy_crypto plain_card"
  by (simp add: plain_card_def)

lemma plain_registered: "server_register (sealing_config h0) plain_glyph (initial_server None) = (Inr (), registered_server)"
proof -
  have "toy_sign_card (js ''k'') plain_card = plain_card\<lparr>gc_publicKey := Some (js ''k''), gc_signature := Some (js ''k'' @ gc_id plain_card)\<rparr>"
    by (simp add: toy_sign_card_def plain_id [symmetric])
  moreover have "signGlyph toy_crypto plain_card (js ''k'') = Some (js ''k'' @ gc_id plain_card)"
    by (simp add: signGlyph_def) (simp add: toy_crypto_def)
  ultimately show ?thesis
    by (simp add: server_register_def initial_server_def registered_server_def signed_glyph_def plain_glyph_def
        ed25519_signer_def)
qed

definition inspection_hash :: jstr where
  "inspection_hash = ser (canonicalize (sanitization_json \<lparr>sn_modified = False, sn_findings = []\<rparr>))"

definition plain_base :: receipt_base where
  "plain_base = receipt_of toy_config toy_env signed_glyph (jlit ''c'') (ser (JNum 7)) (ser (JNum 1)) inspection_hash"

definition plain_receipt :: call_receipt where
  "plain_receipt = receipt_base.extend plain_base
     (call_receipt.fields (js ''k'' @ ser (canonicalize (receipt_json plain_base))))"

definition plain_envelope :: sealed_envelope where
  "plain_envelope = (sealResult (js ''u'') (js ''now'') (gc_id plain_card) (js ''u'') (JNum 1) 2 (gc_provider plain_card)
     (Some \<lparr>sn_modified = False, sn_findings = []\<rparr>))\<lparr>se_receipt := Some plain_receipt\<rparr>"

lemma plain_gates:
  "call_gates (sealing_config h0) toy_env (js ''wipe'') toy_raw None registered_server
     = (Inr (Admitted signed_glyph (jlit ''c'') (JNum 7) None), registered_server)"
  using toy_read toy_members
  by (simp add: call_gates_def and_then_case find_glyph_def registered_server_def initial_server_def read_body_def
      lift_result_def return_def body_member_def check_input_def scope_gate_def
      dedupe_key_def dedupe_lookup_def confirmation_gate_def)

lemma plain_seal:
  "seal_step (sealing_config h0) toy_env signed_glyph (jlit ''c'') (JNum 7) (JNum 1) s
     = (Inr plain_envelope, s\<lparr>sv_trace := sv_trace s @ [Audit_Hook plain_receipt]\<rparr>)"
proof -
  have i: "canonicalHash toy_crypto (sanitization_json \<lparr>sn_modified = False, sn_findings = []\<rparr>) = Some inspection_hash"
    by (simp add: canonicalHash_Some inspection_hash_def) (simp add: toy_crypto_def)
  have b: "receipt_of (sealing_config h0) e g c i out n = receipt_of toy_config e g c i out n" for e g c i out n
    by (simp add: receipt_of_def)
  show ?thesis
    by (simp add: seal_step_def toy_sanitize and_then_case hash_of_def toy_hash return_def i b sign_receipt_def toy_sign
        audit_hook_def log_event_def plain_receipt_def plain_envelope_def plain_base_def)
qed

definition called_server :: server_state where
  "called_server = registered_server\<lparr>sv_trace := [Handler_Ran (js ''wipe'') (JNum 7), Audit_Hook plain_receipt]\<rparr>"

lemma registered_server [simp]: "sv_dedupe registered_server = None" "sv_trace registered_server = []"
  by (simp_all add: registered_server_def initial_server_def)

lemma plain_call:
  "server_call (sealing_config h0) toy_env (js ''wipe'') toy_raw None registered_server = (Inr (Sealed plain_envelope), called_server)"
  by (simp add: server_call_def and_then_case plain_gates execute_call_def run_handler_def log_event_def return_def
      check_output_def plain_seal record_response_def called_server_def)

lemma plain_reach: "server_reach (sealing_config h0) called_server"
proof -
  have "gc_id (gd_card plain_glyph) = computeGlyphId (sc_crypto (sealing_config h0)) (gd_card plain_glyph)"
    by (simp add: plain_glyph_def plain_id computeGlyphId_def sealing_crypto_def)
  from register [OF start this plain_registered] have "server_reach (sealing_config h0) registered_server" .
  from call [OF this plain_call] show ?thesis .
qed

text \<open>The client that pinned the card and asks for it, under the one-hash scheme of the receipt.\<close>

definition receipt_hash :: jstr where
  "receipt_hash = ser (canonicalize (receipt_json plain_receipt))"

definition pinned_card :: glyph_card where
  "pinned_card = plain_card\<lparr>gc_publicKey := Some (js ''k'')\<rparr>"

definition pinning_cfg :: client_config where
  "pinning_cfg = wipe_cfg\<lparr>cc_crypto := sealing_crypto receipt_hash,
     cc_net := honest_net\<lparr>nt_card := \<lambda>_ _. Reply pinned_card, nt_envelope := \<lambda>_ _. Reply plain_envelope\<rparr>\<rparr>"

definition pinning_client :: client_state where
  "pinning_client = wipe_client\<lparr>cl_pins := Some (Memory_Pins [(js ''wipe'', wipe_pin\<lparr>pin_card := pinned_card\<rparr>)])\<rparr>"

lemma pinning_client_ok: "stores_ok pinning_client"
  by (auto simp: stores_ok_def pinning_client_def pinned_card_def omap_wf_def wipe_pin_def split: if_splits)

lemma plain_receipt:
  "cr_serverPublicKey plain_receipt = js ''k''" "cr_glyphId plain_receipt = gc_id plain_card"
  "cr_outputHash plain_receipt = ser (JNum 1)" "cr_inspectionHash plain_receipt = inspection_hash"
  "cr_clientCallId plain_receipt = Some (jlit ''c'')" "cr_signature plain_receipt = js ''k'' @ receipt_hash"
proof -
  have "receipt_json plain_receipt = receipt_json plain_base"
    using receipt_json_signature(1) [of plain_receipt] by (simp add: plain_receipt_def receipt_extend(2))
  then show "cr_signature plain_receipt = js ''k'' @ receipt_hash"
    by (simp add: receipt_hash_def) (simp add: plain_receipt_def receipt_base.defs call_receipt.defs)
qed (simp_all add: plain_receipt_def plain_base_def receipt_of_def receipt_base.defs call_receipt.defs ed25519_signer_def)

lemma pinning_cfg [simp]:
  "cc_crypto pinning_cfg = sealing_crypto receipt_hash" "nt_card (cc_net pinning_cfg) = (\<lambda>_ _. Reply pinned_card)"
  "nt_envelope (cc_net pinning_cfg) = (\<lambda>_ _. Reply plain_envelope)" "cc_secureMode pinning_cfg"
  "cc_verifyReceipts pinning_cfg" "\<not> cc_trustEnabled pinning_cfg" "cc_requireAttestation pinning_cfg = Att_None"
  by (simp_all add: pinning_cfg_def)

lemma plain_bound: "receipt_binds (sealing_crypto receipt_hash) plain_envelope pinned_card (js ''c'') plain_receipt"
proof -
  have v: "verifyReceipt (sealing_crypto receipt_hash) plain_receipt"
    by (simp add: verifyReceipt_def verify_hash_def plain_receipt canonicalHash_Some verify_or_false_iff sealing_crypto_def)
       (simp add: toy_crypto_def receipt_hash_def js_def)
  show ?thesis
    by (simp add: receipt_binds_def v plain_receipt pinned_card_def plain_envelope_def sealResult_def toy_hash nullish_or_def
        default_to_def canonicalHash_Some) (simp add: toy_crypto_def inspection_hash_def)
qed

lemma pinning_call:
  "\<exists>t. client_call pinning_cfg (js ''n'') (js ''c'') (js ''wipe'') input None pinning_client = (Inr plain_envelope, t) \<and>
     pins_of t (js ''wipe'') = Some (wipe_pin\<lparr>pin_card := pinned_card\<rparr>) \<and>
     (\<exists>q p. cl_requests t = [q, p] \<and> is_post p)"
proof -
  have card: "\<not> truthy (gc_signature pinned_card)" "gc_name pinned_card = js ''wipe''" by (simp_all add: pinned_card_def)
  have v: "client_verifyReceipt pinning_cfg plain_envelope pinned_card (js ''c'') s = (Inr (), s)" for s
    using plain_bound by (auto simp: client_verifyReceipt_Inr)
  show ?thesis by (simp add: call_eval pinning_client_def card wipe_pin_def v)
qed


end
