(* ===== verification/Render.thy ===== *)
theory Render
  imports Client
begin

text \<open>
  \<open>packages/client/src/render.ts\<close>: the text block that hands a sealed envelope to a language model,
  between two markers that carry a random boundary (the argument \<open>nonce\<close>).
\<close>

section \<open>JSON text with an indent of two\<close>

definition nl :: "16 word" where
  "nl = 10"

definition json_block :: "jstr \<Rightarrow> 16 word \<Rightarrow> 16 word \<Rightarrow> jstr list \<Rightarrow> jstr" where
  "json_block indent opening closing items =
     (if items = [] then [opening, closing]
      else opening # nl # indent @ js ''  '' @ intercalate ([44, nl] @ indent @ js ''  '') items @ nl # indent @ [closing])"

fun ser_indented :: "jstr \<Rightarrow> jsval \<Rightarrow> jstr" where
  "ser_indented indent (JArr vs) = json_block indent 91 93 (map (ser_indented (indent @ js ''  '')) vs)"
| "ser_indented indent (JObj kvs) = json_block indent 123 125
     (map (\<lambda>(k, v). quote_json k @ js '': '' @ ser_indented (indent @ js ''  '') v) (filter (\<lambda>(k, v). v \<noteq> JUndef) kvs))"
| "ser_indented indent v = ser v"

section \<open>The data block\<close>

text \<open>\<open>text.split(nonce).join('')\<close>: the occurrences found from left to right are cut out, once.\<close>

function cut_out :: "jstr \<Rightarrow> jstr \<Rightarrow> jstr" where
  "cut_out nonce [] = []"
| "cut_out nonce (u # s) =
     (if nonce = [] then u # s
      else case strip_prefix nonce (u # s) of Some rest \<Rightarrow> cut_out nonce rest | None \<Rightarrow> u # cut_out nonce s)"
  by pat_completeness auto
termination
  by (relation "measure (\<lambda>(n, s). length s)") (auto simp: strip_prefix_Some)

definition open_marker :: "jstr \<Rightarrow> jstr" where
  "open_marker nonce = js ''<glyph:data boundary=\"'' @ nonce @ js ''\">''"

definition close_marker :: "jstr \<Rightarrow> jstr" where
  "close_marker nonce = js ''</glyph:data boundary=\"'' @ nonce @ js ''\">''"

definition sanitized_note :: jstr where
  "sanitized_note = js ''[glyph] this tool result was sanitized before delivery; see the envelope inspection report for details.''"

definition render_body :: "jstr \<Rightarrow> jsval \<Rightarrow> jstr" where
  "render_body nonce payload = cut_out nonce (if payload = JUndef then js ''null'' else ser_indented [] payload)"

text \<open>\<open>None\<close> is the error of an envelope that the caller's check rejected.\<close>

definition renderEnvelope :: "(sealed_envelope \<Rightarrow> bool) option \<Rightarrow> jstr \<Rightarrow> sealed_envelope \<Rightarrow> jstr option" where
  "renderEnvelope verify nonce e =
     (if (case verify of None \<Rightarrow> False | Some check \<Rightarrow> \<not> check e) then None
      else Some (intercalate [nl]
        ((case se_inspection e of Some i \<Rightarrow> if sn_modified i then [sanitized_note] else [] | None \<Rightarrow> []) @
         [open_marker nonce, render_body nonce (se_payload e), close_marker nonce])))"

section \<open>The boundary\<close>

definition occurs_in :: "jstr \<Rightarrow> jstr \<Rightarrow> bool" where
  "occurs_in n s \<longleftrightarrow> (\<exists>a b. s = a @ n @ b)"

lemma occurs_in_tail: "occurs_in n s \<Longrightarrow> occurs_in n (u # s)"
  unfolding occurs_in_def by (metis append_Cons)

lemma cut_out_absent: "\<not> occurs_in n s \<Longrightarrow> cut_out n s = s"
proof (induction n s rule: cut_out.induct)
  case (2 n u s)
  have "strip_prefix n (u # s) = None"
  proof (rule ccontr)
    assume "strip_prefix n (u # s) \<noteq> None"
    then obtain r where "u # s = [] @ n @ r" by (auto simp: strip_prefix_Some)
    with 2(3) show False unfolding occurs_in_def by blast
  qed
  with 2 occurs_in_tail show ?case by auto
qed simp



text \<open>
  The cut is made once: a payload that wraps the boundary in itself comes out with the boundary in
  it. (A boundary whose first unit repeats throughout is excluded; a UUID has hyphens.)
\<close>

lemma nonce_recreated:
  assumes "strip_prefix n (hd n # n @ tl n) = None"
  shows "cut_out n (hd n # n @ tl n) = n"
proof -
  have n: "n \<noteq> []" using assms by (cases n) auto
  have "cut_out n (hd n # n @ tl n) = hd n # cut_out n (n @ tl n)" using n assms by simp
  also have "cut_out n (n @ tl n) = cut_out n (tl n)"
  proof -
    obtain u s where us: "n = u # s" using n by (cases n) auto
    have "strip_prefix n (n @ tl n) = Some (tl n)" by (simp add: strip_prefix_Some)
    then show ?thesis using us by (metis append_Cons cut_out.simps(2) list.distinct(1) option.simps(5))
  qed
  also have "cut_out n (tl n) = tl n"
  proof (rule cut_out_absent)
    show "\<not> occurs_in n (tl n)"
    proof
      assume "occurs_in n (tl n)"
      then have "length n \<le> length (tl n)" unfolding occurs_in_def by (metis length_append trans_le_add1 trans_le_add2 le_refl)
      with n show False by (cases n) auto
    qed
  qed
  finally show ?thesis using n by simp
qed

end
