(* ===== verification/Browser.thy ===== *)
theory Browser
  imports Cards
begin

text \<open>
  The second implementation of verification, \<open>packages/verify-browser/src\<close> (\<open>canonical.ts\<close> and
  \<open>verify.ts\<close>), translated on its own, and its agreement with the core library. Both run on the
  same primitives here: \<open>crypto\<close> stands for the hash and ed25519 of either environment.
\<close>

section \<open>The browser's verifier\<close>

definition browser_CANONICAL_FIELDS :: "jstr list" where
  "browser_CANONICAL_FIELDS =
     [js ''version'', js ''name'', js ''intent'', js ''tags'', js ''cost'', js ''idempotent'', js ''input'',
      js ''output'', js ''examples'', js ''failureModes'', js ''provider'', js ''requiredScopes'',
      js ''attestation'']"

fun browser_canonicalize :: "jsval \<Rightarrow> jsval" where
  "browser_canonicalize (JArr vs) = JArr (map browser_canonicalize vs)"
| "browser_canonicalize (JObj kvs) =
     JObj (js_assign_all (map (\<lambda>(k, v). (k, browser_canonicalize v)) (sort_key fst kvs)) [])"
| "browser_canonicalize v = v"

text \<open>\<open>TextEncoder.encode(undefined)\<close> is the empty byte string.\<close>

definition browser_sha256Hex :: "crypto \<Rightarrow> jstr option \<Rightarrow> jstr" where
  "browser_sha256Hex C text = cx_sha256 C (case text of None \<Rightarrow> [] | Some t \<Rightarrow> t)"

definition browser_canonicalHash :: "crypto \<Rightarrow> jsval \<Rightarrow> jstr" where
  "browser_canonicalHash C v = browser_sha256Hex C (json_stringify (browser_canonicalize v))"

definition browser_computeGlyphId :: "crypto \<Rightarrow> glyph_card \<Rightarrow> jstr" where
  "browser_computeGlyphId C c =
     (let picked = js_assign_all (map (\<lambda>field. (field, own_value (card_fields c) field)) browser_CANONICAL_FIELDS) []
      in browser_sha256Hex C (json_stringify (browser_canonicalize (JObj picked))))"

definition browser_verifyGlyph :: "crypto \<Rightarrow> glyph_card \<Rightarrow> bool" where
  "browser_verifyGlyph C c =
     (if \<not> truthy (gc_signature c) \<or> \<not> truthy (gc_publicKey c) then False
      else if browser_computeGlyphId C c \<noteq> gc_id c then False
      else verify_or_false C (the (gc_signature c)) (gc_id c) (the (gc_publicKey c)))"

definition browser_verifyReceipt :: "crypto \<Rightarrow> call_receipt \<Rightarrow> bool" where
  "browser_verifyReceipt C r =
     (if cr_signature r = [] \<or> cr_serverPublicKey r = [] then False
      else verify_or_false C (cr_signature r) (browser_canonicalHash C (receipt_json r)) (cr_serverPublicKey r))"

section \<open>Agreement with the core library\<close>

lemma browser_canonicalize_eq: "browser_canonicalize v = canonicalize v"
proof (induction v rule: browser_canonicalize.induct)
  case (2 kvs)
  have "map (\<lambda>(k, v). (k, browser_canonicalize v)) (sort_key fst kvs) = map (\<lambda>(k, v). (k, canonicalize v)) (sort_key fst kvs)"
    using 2 by (auto intro!: map_cong)
  then show ?case by (simp only: browser_canonicalize.simps canonicalize.simps)
qed simp_all

lemma js_assign_all_fresh:
  "distinct (map fst (acc @ kvs)) \<Longrightarrow> list_all (\<lambda>(k, v). k \<noteq> js ''__proto__'' \<and> \<not> is_array_index k) kvs \<Longrightarrow>
     js_assign_all kvs acc = acc @ kvs"
proof (induction kvs arbitrary: acc)
  case Nil
  then show ?case by (simp add: js_assign_all_def)
next
  case (Cons p kvs)
  then have "js_assign (fst p) (snd p) acc = acc @ [p]" by (auto simp: js_assign_def split: prod.splits)
  moreover have "js_assign_all kvs (acc @ [p]) = (acc @ [p]) @ kvs" using Cons by (intro Cons.IH) auto
  ultimately show ?case by (cases p) (auto simp: js_assign_all_def)
qed

lemma letter_not_index: "\<not> is_digit_unit (uc c) \<Longrightarrow> \<not> is_array_index (js (c # s))"
  by (simp add: is_array_index_def js_Cons)

lemma browser_picked:
  "js_assign_all (map (\<lambda>field. (field, own_value (card_fields c) field)) browser_CANONICAL_FIELDS) [] = canonical_fields c"
proof -
  have "map (\<lambda>field. (field, own_value (card_fields c) field)) browser_CANONICAL_FIELDS = canonical_fields c"
    by (simp add: browser_CANONICAL_FIELDS_def card_fields_def canonical_fields_def own_value_def)
  moreover have "js_assign_all (canonical_fields c) [] = [] @ canonical_fields c"
    by (rule js_assign_all_fresh) (simp_all add: canonical_fields_def letter_not_index is_digit_unit_def unat_uc)
  ultimately show ?thesis by simp
qed


end
