(* ===== verification/Exporter.thy ===== *)
theory Exporter
  imports Server
begin

text \<open>
  The receipt exporters of \<open>packages/exporter-otel/src/index.ts\<close>: a span per receipt, a line of JSON
  per receipt, and the fan-out over several callbacks. The tracer and the stream belong to the
  host: what they are told is recorded.
\<close>

section \<open>Spans\<close>

datatype span_event =
    Span_Started jstr "(jstr \<times> jsval) list"
  | Span_Status int
  | Span_Ended

definition receipt_attributes :: "call_receipt \<Rightarrow> (jstr \<times> jsval) list" where
  "receipt_attributes r =
     [(js ''glyph.name'', JStr (cr_glyphName r)), (js ''glyph.id'', JStr (cr_glyphId r)),
      (js ''glyph.call_id'', JStr (cr_callId r)), (js ''glyph.risk_tier'', JStr (risk_str (cr_riskTier r))),
      (js ''glyph.provider'', JStr (cr_provider r)), (js ''glyph.latency_ms'', JNum (cr_latencyMs r)),
      (js ''glyph.input_hash'', JStr (cr_inputHash r)), (js ''glyph.output_hash'', JStr (cr_outputHash r)),
      (js ''glyph.inspection_hash'', JStr (cr_inspectionHash r)),
      (js ''glyph.server_public_key'', JStr (cr_serverPublicKey r)),
      (js ''glyph.receipt_version'', JStr (cr_receiptVersion r))]"

text \<open>\<open>{ ...resourceAttributes, 'glyph.name': ..., ... }\<close>: own properties are defined, one after the other.\<close>

definition define_all :: "(jstr \<times> jsval) list \<Rightarrow> (jstr \<times> jsval) list \<Rightarrow> (jstr \<times> jsval) list" where
  "define_all kvs o' = foldl (\<lambda>a (k, v). js_define k v a) o' kvs"

definition otelReceiptCallback :: "(jstr \<times> jsval) list option \<Rightarrow> call_receipt \<Rightarrow> span_event list" where
  "otelReceiptCallback resourceAttributes r =
     [Span_Started (js ''glyph.call '' @ cr_glyphName r)
        (define_all (receipt_attributes r) (define_all (default_to [] resourceAttributes) [])),
      Span_Status 1, Span_Ended]"

section \<open>Lines\<close>

definition jsonlReceiptCallback :: "call_receipt \<Rightarrow> jstr" where
  "jsonlReceiptCallback r = ser (signed_receipt_json r) @ [10]"

section \<open>Fan-out\<close>

text \<open>A callback acts on the world \<open>'w\<close> and may throw (\<open>False\<close>); an exception is logged and dropped.\<close>

fun composeReceiptCallbacks :: "(call_receipt \<Rightarrow> 'w \<Rightarrow> bool \<times> 'w) list \<Rightarrow> call_receipt \<Rightarrow> 'w \<Rightarrow> 'w" where
  "composeReceiptCallbacks [] r w = w"
| "composeReceiptCallbacks (cb # cbs) r w = (case cb r w of (_, w') \<Rightarrow> composeReceiptCallbacks cbs r w')"

section \<open>What the exporters promise\<close>

lemma map_of_put_index: "k \<notin> set (map fst kvs) \<Longrightarrow> map_of (put_index k v kvs) = (map_of kvs)(k \<mapsto> v)"
  by (induction k v kvs rule: put_index.induct) auto

lemma map_of_js_define: "map_of (js_define k v kvs) = (map_of kvs)(k \<mapsto> v)"
proof -
  have "map_of kvs k = None" if "k \<notin> set (map fst kvs)" using that by (simp add: map_of_eq_None_iff)
  then show ?thesis
    by (auto simp: js_define_def map_of_omap_set map_of_put_index map_add_def fun_eq_iff split: option.splits)
qed

lemma map_of_define_all: "map_of (define_all kvs o') = map_of o' ++ map_of (rev kvs)"
  by (induction kvs arbitrary: o') (auto simp: define_all_def map_of_js_define map_add_def fun_eq_iff split: option.splits prod.splits)

text \<open>
  A span carries the receipt's own values: no resource attribute of the host, whatever it is
  called, replaces one of them.
\<close>

theorem span_attributes_from_receipt:
  assumes "(k, v) \<in> set (receipt_attributes r)"
  shows "\<exists>attrs. otelReceiptCallback res r = [Span_Started (js ''glyph.call '' @ cr_glyphName r) attrs, Span_Status 1, Span_Ended] \<and>
    map_of attrs k = Some v"
proof -
  have d: "distinct (map fst (receipt_attributes r))" by (simp add: receipt_attributes_def)
  then have "map_of (rev (receipt_attributes r)) k = Some v"
    using assms by (simp add: map_of_eq_Some_iff rev_map [symmetric])
  then show ?thesis by (simp add: otelReceiptCallback_def map_of_define_all)
qed

theorem span_attributes_from_receipt_witness:
  "\<exists>attrs. otelReceiptCallback (Some [(js ''glyph.name'', JStr (js ''forged''))]) sample_receipt =
     [Span_Started (js ''glyph.call '' @ cr_glyphName sample_receipt) attrs, Span_Status 1, Span_Ended] \<and>
     map_of attrs (js ''glyph.name'') = Some (JStr (cr_glyphName sample_receipt))"
  by (rule span_attributes_from_receipt) (simp only: receipt_attributes_def list.set insert_iff simp_thms)

text \<open>JSON text has no control characters.\<close>

definition printable :: "jstr \<Rightarrow> bool" where
  "printable s \<longleftrightarrow> list_all (\<lambda>u. 32 \<le> unat u) s"

lemma printable_simps [simp]:
  "printable []" "printable (u # s) \<longleftrightarrow> 32 \<le> unat u \<and> printable s" "printable (s @ t) \<longleftrightarrow> printable s \<and> printable t"
  by (simp_all add: printable_def)

lemma hex_unit_printable: "d < 16 \<Longrightarrow> 32 \<le> unat (hex_unit d)"
  by (auto simp: hex_unit_def unat_of_nat take_bit_eq_mod simp del: of_nat_add)

lemma escape_unit_printable: "printable (escape_unit u)"
proof -
  have "unat u < 65536" using unsigned_less [of u] by simp
  then have "unat u div 4096 < 16" by (simp add: less_mult_imp_div_less)
  then show ?thesis by (simp add: escape_unit_def u_escape_def Let_def hex_unit_printable)
qed

lemma escape_units_printable: "printable (escape_units s)"
proof (induction s rule: escape_units.induct)
  case (3 u w s)
  then show ?case by (auto simp: escape_unit_printable is_high_def is_low_def)
qed (simp_all add: escape_unit_printable)

lemma quote_json_printable [simp]: "printable (quote_json s)"
  by (simp add: quote_json_def escape_units_printable)

lemma int_dec_printable [simp]: "printable (int_dec i)"
proof -
  have "printable (nat_dec n)" for n
    using nat_dec_digits [of n] by (auto simp: printable_def list_all_iff is_digit_unit_def)
  then show ?thesis by (simp add: int_dec_def unat_uc)
qed

lemma js_printable: "list_all (\<lambda>c. 32 \<le> (of_char c :: nat)) s \<Longrightarrow> printable (js s)"
  by (induction s) (simp_all add: js_Cons unat_uc)

lemma intercalate_printable:
  "printable sep \<Longrightarrow> list_all printable xs \<Longrightarrow> printable (intercalate sep xs)"
  by (induction sep xs rule: intercalate.induct) simp_all

lemma ser_printable: "printable (ser v)"
proof (induction v rule: ser.induct)
  case (6 vs)
  then show ?case by (auto intro!: intercalate_printable simp: list_all_iff)
next
  case (7 kvs)
  then show ?case by (auto intro!: intercalate_printable simp: list_all_iff)
qed (simp_all add: js_printable)

text \<open>
  The audit stream is one line per receipt: nothing in a receipt (a glyph name, a caller's call
  id) can start a new line or put any other control character into the stream.
\<close>

theorem jsonl_one_line:
  "\<exists>line. jsonlReceiptCallback r = line @ [10] \<and> (\<forall>u\<in>set line. 32 \<le> unat u)"
  using ser_printable [of "signed_receipt_json r"] by (auto simp: jsonlReceiptCallback_def printable_def list_all_iff)

theorem jsonl_one_line_witness:
  "\<exists>line. jsonlReceiptCallback (sample_receipt\<lparr>cr_callId := [10, 13]\<rparr>) = line @ [10] \<and> (\<forall>u\<in>set line. 32 \<le> unat u)"
  by (rule jsonl_one_line)

lemma compose_runs_all:
  "composeReceiptCallbacks cbs r w = fold (\<lambda>cb w. snd (cb r w)) cbs w"
  by (induction cbs arbitrary: w) (auto split: prod.splits)

end
