(* ===== verification/Resolver.thy ===== *)
theory Resolver
  imports Middleware
begin

text \<open>
  \<open>GlyphResolver\<close> of \<open>packages/resolver/src/resolver.ts\<close>: the candidates for an intent, ranked by an
  injected \<open>Scorer\<close>. Scores are taken from any linear order with a zero (the doubles that a
  scorer returns, without \<open>NaN\<close>); \<open>Array.prototype.sort\<close> is stable.
\<close>

record 'a resolver_match =
  rm_entry :: lexicon_entry
  rm_score :: 'a

text \<open>\<open>xs.slice(0, n)\<close>: a negative end counts from the back.\<close>

definition slice0 :: "int \<Rightarrow> 'a list \<Rightarrow> 'a list" where
  "slice0 n xs = take (nat (if n < 0 then int (length xs) + n else n)) xs"

text \<open>\<open>sort((a, b) => b.score - a.score)\<close>: stable and descending.\<close>

definition sort_descending :: "('b \<Rightarrow> 'a::linorder) \<Rightarrow> 'b list \<Rightarrow> 'b list" where
  "sort_descending f xs = rev (sort_key f (rev xs))"

definition resolver_resolve ::
  "(jstr \<Rightarrow> lexicon_entry list \<Rightarrow> ('a::{linorder,zero}) resolver_match list) \<Rightarrow> lexicon_entry list \<Rightarrow> jstr
     \<Rightarrow> int option \<Rightarrow> 'a option \<Rightarrow> 'a resolver_match list" where
  "resolver_resolve scorer entries query limit minScore =
     slice0 (default_to 5 limit)
       (sort_descending rm_score (filter (\<lambda>m. default_to 0 minScore \<le> rm_score m) (scorer query entries)))"

section \<open>The best candidates\<close>

lemma mset_sort_descending [simp]: "mset (sort_descending f xs) = mset xs"
  by (simp add: sort_descending_def)

lemma sorted_descending: "sorted_wrt (\<lambda>a b. f b \<le> f a) (sort_descending f xs)"
proof -
  have "sorted (map f (sort_key f (rev xs)))" by simp
  then show ?thesis by (simp add: sort_descending_def sorted_wrt_rev sorted_map)
qed

lemma sort_descending_stable: "filter (\<lambda>x. f x = k) (sort_descending f xs) = filter (\<lambda>x. f x = k) xs"
  using sort_key_stable [of f k "rev xs"] by (simp add: sort_descending_def rev_filter [symmetric])

text \<open>
  A query's answer is a best-first list of candidates the scorer ranked at least \<open>minScore\<close>, no
  more than the limit, and no candidate that was left out scores higher than one that was kept.
\<close>

theorem resolve_best_first:
  assumes "0 \<le> default_to 5 limit"
  shows "length (resolver_resolve scorer entries query limit minScore) \<le> nat (default_to 5 limit) \<and>
    sorted_wrt (\<lambda>a b. rm_score b \<le> rm_score a) (resolver_resolve scorer entries query limit minScore) \<and>
    (\<exists>rest. mset (resolver_resolve scorer entries query limit minScore) + mset rest
        = mset (filter (\<lambda>m. default_to 0 minScore \<le> rm_score m) (scorer query entries)) \<and>
      (\<forall>kept\<in>set (resolver_resolve scorer entries query limit minScore). \<forall>m\<in>set rest. rm_score m \<le> rm_score kept))"
proof -
  let ?all = "sort_descending rm_score (filter (\<lambda>m. default_to 0 minScore \<le> rm_score m) (scorer query entries))"
  let ?n = "nat (default_to 5 limit)"
  have r: "resolver_resolve scorer entries query limit minScore = take ?n ?all"
    using assms by (simp add: resolver_resolve_def slice0_def)
  have s: "sorted_wrt (\<lambda>a b. rm_score b \<le> rm_score a) (take ?n ?all @ drop ?n ?all)"
    unfolding append_take_drop_id by (rule sorted_descending)
  have "mset (take ?n ?all) + mset (drop ?n ?all) = mset ?all" by (metis append_take_drop_id mset_append)
  moreover have "sorted_wrt (\<lambda>a b. rm_score b \<le> rm_score a) (take ?n ?all)"
    "\<forall>kept\<in>set (take ?n ?all). \<forall>m\<in>set (drop ?n ?all). rm_score m \<le> rm_score kept"
    using s unfolding sorted_wrt_append by blast+
  ultimately show ?thesis unfolding r by (auto intro!: exI [of _ "drop ?n ?all"])
qed

theorem resolve_best_first_witness:
  "length (resolver_resolve (\<lambda>q es. map (\<lambda>e. \<lparr>rm_entry = e, rm_score = (1::int)\<rparr>) es) [] [] None None) \<le> 5"
  using resolve_best_first [of None "\<lambda>q es. map (\<lambda>e. \<lparr>rm_entry = e, rm_score = (1::int)\<rparr>) es" "[]" "[]" None]
  by (simp add: default_to_def)

end
