(* ===== verification/Resolver_Scorers.thy ===== *)
theory Resolver_Scorers
  imports Resolver Complex_Main
begin

text \<open>
  The two scorers of \<open>packages/resolver/src\<close>: token overlap (\<open>resolver.ts\<close>) and the similarity of
  embeddings (\<open>embedding.ts\<close>). A score is a double; its arithmetic is IEEE 754's and a parameter. What is
  used of it is that rounding is monotone and exact on the small integers.
\<close>

section \<open>Doubles\<close>

record 'f doubles =
  fl_nat :: "nat \<Rightarrow> 'f"
  fl_0_6 :: 'f
  fl_add :: "'f \<Rightarrow> 'f \<Rightarrow> 'f"
  fl_mul :: "'f \<Rightarrow> 'f \<Rightarrow> 'f"
  fl_div :: "'f \<Rightarrow> 'f \<Rightarrow> 'f"
  fl_sqrt :: "'f \<Rightarrow> 'f"

definition MAX_SAFE :: nat where
  "MAX_SAFE = 9007199254740991"

definition rounds :: "'f::linorder doubles \<Rightarrow> bool" where
  "rounds F \<longleftrightarrow>
     (\<forall>a b c d. a \<le> b \<longrightarrow> c \<le> d \<longrightarrow> fl_add F a c \<le> fl_add F b d) \<and>
     (\<forall>a b n. a \<le> b \<longrightarrow> 0 < n \<longrightarrow> n \<le> MAX_SAFE \<longrightarrow> fl_div F a (fl_nat F n) \<le> fl_div F b (fl_nat F n)) \<and>
     (\<forall>n<MAX_SAFE. fl_add F (fl_nat F n) (fl_nat F 1) = fl_nat F (Suc n)) \<and>
     (\<forall>n. fl_add F (fl_nat F n) (fl_nat F 0) = fl_nat F n) \<and>
     (\<forall>n. 0 < n \<longrightarrow> n \<le> MAX_SAFE \<longrightarrow>
        fl_div F (fl_nat F n) (fl_nat F n) = fl_nat F 1 \<and> fl_div F (fl_nat F 0) (fl_nat F n) = fl_nat F 0) \<and>
     fl_nat F 0 \<le> fl_0_6 F \<and> fl_0_6 F \<le> fl_nat F 1"

section \<open>Tokens\<close>

definition STOPWORDS :: "jstr list" where
  "STOPWORDS = map js [''the'', ''a'', ''an'', ''to'', ''of'', ''for'', ''in'', ''on'', ''and'', ''or'', ''with'', ''my'', ''is'', ''it'',
     ''that'', ''this'', ''how'', ''do'', ''can'', ''find'', ''get'', ''el'', ''la'', ''los'', ''las'', ''un'', ''una'', ''de'', ''del'',
     ''para'', ''por'', ''en'', ''con'', ''mi'', ''que'', ''como'', ''se'', ''al'']"

text \<open>The class of the separator's complement; with the flag \<open>i\<close> it has the letters in both cases.\<close>

definition token_unit :: "16 word \<Rightarrow> bool" where
  "token_unit u \<longleftrightarrow> (97 \<le> u \<and> u \<le> 122) \<or> (65 \<le> u \<and> u \<le> 90) \<or> (48 \<le> u \<and> u \<le> 57) \<or>
     u \<in> {225, 233, 237, 243, 250, 241, 252} \<or> u \<in> {193, 201, 205, 211, 218, 209, 220}"

text \<open>The pieces between separators.\<close>

function token_runs :: "jstr \<Rightarrow> jstr list" where
  "token_runs s = (case dropWhile (\<lambda>u. \<not> token_unit u) s of
     [] \<Rightarrow> [] | u # r \<Rightarrow> (u # takeWhile token_unit r) # token_runs (dropWhile token_unit r))"
  by pat_completeness auto
termination
proof (relation "measure length", simp)
  fix s :: jstr and u r assume d: "dropWhile (\<lambda>u. \<not> token_unit u) s = u # r"
  have "length (dropWhile token_unit r) \<le> length r" by (rule length_dropWhile_le)
  also have "\<dots> < length s" using length_dropWhile_le [of "\<lambda>u. \<not> token_unit u" s] d by simp
  finally show "(dropWhile token_unit r, s) \<in> measure length" by simp
qed

declare token_runs.simps [simp del]

definition tokenize :: "(jstr \<Rightarrow> jstr) \<Rightarrow> jstr \<Rightarrow> jstr list" where
  "tokenize lower text = filter (\<lambda>token. 1 < length token) (token_runs (lower text))"

definition queryTokens :: "(jstr \<Rightarrow> jstr) \<Rightarrow> jstr \<Rightarrow> jstr list" where
  "queryTokens lower query =
     (let all = tokenize lower query; meaningful = filter (\<lambda>token. token \<notin> set STOPWORDS) all in
      if meaningful \<noteq> [] then meaningful else all)"

section \<open>The lexical scorer\<close>

definition strong_tokens :: "(jstr \<Rightarrow> jstr) \<Rightarrow> lexicon_entry \<Rightarrow> jstr set" where
  "strong_tokens lower e = set (tokenize lower (lx_name e) @ concat (map (tokenize lower) (lx_tags e)))"

definition add_hit :: "'f doubles \<Rightarrow> jstr set \<Rightarrow> jstr set \<Rightarrow> 'f \<Rightarrow> jstr \<Rightarrow> 'f" where
  "add_hit F strong intent acc token =
     (if token \<in> strong then fl_add F acc (fl_nat F 1) else if token \<in> intent then fl_add F acc (fl_0_6 F) else acc)"

definition lexical_score :: "'f doubles \<Rightarrow> (jstr \<Rightarrow> jstr) \<Rightarrow> jstr list \<Rightarrow> lexicon_entry \<Rightarrow> 'f" where
  "lexical_score F lower qTokens e =
     fl_div F (foldl (add_hit F (strong_tokens lower e) (set (tokenize lower (lx_intent e)))) (fl_nat F 0) qTokens)
       (fl_nat F (length qTokens))"

definition lexical_rank :: "'f doubles \<Rightarrow> (jstr \<Rightarrow> jstr) \<Rightarrow> jstr \<Rightarrow> lexicon_entry list \<Rightarrow> 'f resolver_match list" where
  "lexical_rank F lower query entries =
     (let qTokens = queryTokens lower query in
      map (\<lambda>e. \<lparr>rm_entry = e, rm_score = if qTokens = [] then fl_nat F 0 else lexical_score F lower qTokens e\<rparr>) entries)"

section \<open>The embedding scorer\<close>

text \<open>A component that is missing in the second vector makes the sums \<open>NaN\<close>: \<open>None\<close>.\<close>

definition dot :: "'f doubles \<Rightarrow> 'f list \<Rightarrow> 'f list \<Rightarrow> 'f" where
  "dot F a b = foldl (fl_add F) (fl_nat F 0) (map2 (fl_mul F) a b)"

definition cosineSimilarity :: "'f doubles \<Rightarrow> 'f list \<Rightarrow> 'f list \<Rightarrow> 'f option" where
  "cosineSimilarity F a b =
     (let b' = take (length a) b; normA = dot F a a; normB = dot F b' b' in
        if normA = fl_nat F 0 then Some (fl_nat F 0)
        else if length b < length a then None
        else if normB = fl_nat F 0 then Some (fl_nat F 0)
        else Some (fl_div F (dot F a b') (fl_mul F (fl_sqrt F normA) (fl_sqrt F normB))))"

text \<open>\<open>Inl\<close> is the \<open>TypeError\<close> of a vector that the embedding function left out.\<close>

definition embedding_rank ::
  "'f doubles \<Rightarrow> (jstr list \<Rightarrow> 'f list list) \<Rightarrow> jstr \<Rightarrow> lexicon_entry list \<Rightarrow> unit + (lexicon_entry \<times> 'f option) list" where
  "embedding_rank F embedder query entries =
     (if entries = [] then Inr []
      else let vectors = embedder (query # map lx_intent entries) in
        if vectors = [] \<or> hd vectors \<noteq> [] \<and> length vectors < Suc (length entries) then Inl ()
        else Inr (map (\<lambda>(e, i). (e, map_option (\<lambda>cos. fl_div F (fl_add F cos (fl_nat F 1)) (fl_nat F 2))
          (cosineSimilarity F (hd vectors) (if i < length vectors then vectors ! i else []))))
          (zip entries [1..<Suc (length entries)])))"

section \<open>Scores between zero and one\<close>

lemma add_hit_bounds:
  assumes "rounds F" "k < MAX_SAFE" "fl_nat F 0 \<le> x" "x \<le> fl_nat F k"
  shows "fl_nat F 0 \<le> add_hit F S I x t \<and> add_hit F S I x t \<le> fl_nat F (Suc k)"
proof -
  have m: "a \<le> b \<Longrightarrow> c \<le> d \<Longrightarrow> fl_add F a c \<le> fl_add F b d" and n: "fl_add F (fl_nat F k) (fl_nat F 1) = fl_nat F (Suc k)"
    and z: "fl_add F (fl_nat F j) (fl_nat F 0) = fl_nat F j" and h: "fl_nat F 0 \<le> fl_0_6 F" "fl_0_6 F \<le> fl_nat F 1" for a b c d j
    using assms(1,2) by (auto simp: rounds_def)
  have o: "fl_nat F 0 \<le> fl_nat F 1" using h by order
  have "fl_nat F k \<le> fl_nat F (Suc k)" using m [OF order_refl o] n z by metis
  moreover have "fl_nat F 0 \<le> fl_add F x y" if "fl_nat F 0 \<le> y" for y using m [OF assms(3) that] z by metis
  moreover have "fl_add F x y \<le> fl_nat F (Suc k)" if "y \<le> fl_nat F 1" for y using m [OF assms(4) that] n by metis
  ultimately show ?thesis using assms(3,4) h o by (auto simp: add_hit_def)
qed

lemma sum_bounds:
  assumes "rounds F" "k + length ts \<le> MAX_SAFE" "fl_nat F 0 \<le> x" "x \<le> fl_nat F k"
  shows "fl_nat F 0 \<le> foldl (add_hit F S I) x ts \<and> foldl (add_hit F S I) x ts \<le> fl_nat F (k + length ts)"
  using assms(2-)
proof (induction ts arbitrary: x k)
  case (Cons t ts)
  have "k < MAX_SAFE" using Cons.prems(1) by simp
  note b = add_hit_bounds [OF assms(1) this Cons.prems(2,3), of S I t]
  have "Suc k + length ts \<le> MAX_SAFE" using Cons.prems(1) by simp
  from Cons.IH [OF this, of "add_hit F S I x t"] b show ?case by simp
qed simp

text \<open>
  The lexical scorer ranks every entry it is given, in order, with a score between 0 and 1, as
  long as a query has fewer tokens than a double can count.
\<close>

theorem lexical_rank_bounds:
  assumes "rounds F" "length (queryTokens lower query) \<le> MAX_SAFE"
  shows "map rm_entry (lexical_rank F lower query entries) = entries \<and>
    (\<forall>m\<in>set (lexical_rank F lower query entries). fl_nat F 0 \<le> rm_score m \<and> rm_score m \<le> fl_nat F 1)"
proof -
  let ?ts = "queryTokens lower query"
  have one: "fl_nat F 0 \<le> fl_nat F 1" using assms(1) unfolding rounds_def by (metis order_trans)
  have "fl_nat F 0 \<le> lexical_score F lower ?ts e \<and> lexical_score F lower ?ts e \<le> fl_nat F 1" if "?ts \<noteq> []" for e
  proof -
    let ?s = "foldl (add_hit F (strong_tokens lower e) (set (tokenize lower (lx_intent e)))) (fl_nat F 0) ?ts"
    from sum_bounds [OF assms(1), of 0 ?ts "fl_nat F 0"] assms(2) have s: "fl_nat F 0 \<le> ?s" "?s \<le> fl_nat F (length ?ts)" by auto
    have n: "0 < length ?ts" using that by simp
    have "a \<le> b \<Longrightarrow> fl_div F a (fl_nat F (length ?ts)) \<le> fl_div F b (fl_nat F (length ?ts))" for a b
      using assms n unfolding rounds_def by blast
    from this [OF s(1)] this [OF s(2)] show ?thesis
      using assms n unfolding rounds_def lexical_score_def by metis
  qed
  then show ?thesis using one by (auto simp: lexical_rank_def Let_def comp_def)
qed

section \<open>More overlap, no lower score\<close>

text \<open>
  An entry that is hit at least as well is ranked at least as high: when every query token found
  in the name or the tags of \<open>b\<close> is found in those of \<open>a\<close>, and every token found in \<open>b\<close> at all is
  found in \<open>a\<close>, the score of \<open>a\<close> is not below that of \<open>b\<close>.
\<close>

theorem lexical_score_monotone:
  assumes "rounds F" "ts \<noteq> []" "length ts \<le> MAX_SAFE"
    and "\<forall>t\<in>set ts. t \<in> strong_tokens lower b \<longrightarrow> t \<in> strong_tokens lower a"
    and "\<forall>t\<in>set ts. t \<in> set (tokenize lower (lx_intent b)) \<longrightarrow> t \<in> strong_tokens lower a \<or> t \<in> set (tokenize lower (lx_intent a))"
    and "\<forall>x. fl_add F x (fl_nat F 0) = x"
  shows "lexical_score F lower ts b \<le> lexical_score F lower ts a"
proof -
  let ?hit = "\<lambda>e. add_hit F (strong_tokens lower e) (set (tokenize lower (lx_intent e)))"
  have m: "x \<le> y \<Longrightarrow> c \<le> d \<Longrightarrow> fl_add F x c \<le> fl_add F y d" and h: "fl_nat F 0 \<le> fl_0_6 F" "fl_0_6 F \<le> fl_nat F 1" for x y c d
    using assms(1) by (auto simp: rounds_def)
  have up: "x \<le> y \<Longrightarrow> fl_nat F 0 \<le> d \<Longrightarrow> x \<le> fl_add F y d" for x y d using m [of x y "fl_nat F 0" d] assms(6) by simp
  have step: "?hit b x t \<le> ?hit a y t" if "x \<le> y" "t \<in> set ts" for x y t
    using assms(4,5) that m up h order_trans [OF h] by (auto simp: add_hit_def)
  have "foldl (?hit b) x us \<le> foldl (?hit a) y us" if "x \<le> y" "set us \<subseteq> set ts" for x y us
    using that by (induction us arbitrary: x y) (auto intro: step)
  then have "foldl (?hit b) (fl_nat F 0) ts \<le> foldl (?hit a) (fl_nat F 0) ts" by blast
  moreover have "0 < length ts" using assms(2) by simp
  ultimately show ?thesis using assms(1,3) unfolding rounds_def lexical_score_def by blast
qed

text \<open>The rational numbers, which do not round at all, satisfy the laws.\<close>

definition exact :: "rat doubles" where
  "exact = \<lparr>fl_nat = of_nat, fl_0_6 = 3 / 5, fl_add = (+), fl_mul = (*), fl_div = (/), fl_sqrt = id\<rparr>"

lemma rounds_exact: "rounds exact"
  by (auto simp: rounds_def exact_def divide_right_mono intro: add_mono)

lemma token_runs_length: "length (token_runs s) \<le> length s"
proof (induction s rule: token_runs.induct)
  case (1 s)
  show ?case
  proof (cases "dropWhile (\<lambda>u. \<not> token_unit u) s")
    case Nil
    then have "token_runs s = []" by (subst token_runs.simps) (simp only: list.case)
    then show ?thesis by simp
  next
    case (Cons u r)
    have "length (dropWhile token_unit r) \<le> length r" by (rule length_dropWhile_le)
    with 1 [OF Cons] length_dropWhile_le [of "\<lambda>u. \<not> token_unit u" s] Cons show ?thesis
      by (simp add: token_runs.simps [of s])
  qed
qed

lemma queryTokens_length: "length (queryTokens lower query) \<le> length (lower query)"
proof -
  have "length (tokenize lower query) \<le> length (lower query)"
    unfolding tokenize_def by (rule order_trans [OF length_filter_le token_runs_length])
  moreover have "length (queryTokens lower query) \<le> length (tokenize lower query)"
    by (simp add: queryTokens_def Let_def)
  ultimately show ?thesis by (rule order_trans [rotated])
qed

theorem lexical_rank_bounds_witness:
  "\<forall>m\<in>set (lexical_rank exact id (js ''send mail'') [\<lparr>lx_id = [], lx_name = js ''mail'', lx_intent = [], lx_tags = [], lx_riskTier = Safe\<rparr>]).
     0 \<le> rm_score m \<and> rm_score m \<le> 1"
proof -
  have "length (queryTokens id (js ''send mail'')) \<le> MAX_SAFE"
    using queryTokens_length [of id "js ''send mail''"] by (simp add: MAX_SAFE_def js_def)
  from lexical_rank_bounds [OF rounds_exact this] show ?thesis by (simp add: exact_def)
qed

end
