(* ===== verification/Adapters.thy ===== *)
theory Adapters
  imports Middleware Attestation Schema_Complexity
begin

text \<open>
  What the tool adapters (\<open>packages/adapters/mcp\<close> and \<open>packages/adapters/openapi\<close>) share, each with
  its own copy of the same code: glyph names in kebab case and the conversion of a JSON Schema
  into a Zod validator. Zod itself is third-party: its schemas are terms, their meaning a
  parameter.
\<close>

section \<open>Regular-expression replacements\<close>

definition is_lower_unit :: "16 word \<Rightarrow> bool" where
  "is_lower_unit u \<longleftrightarrow> 97 \<le> unat u \<and> unat u \<le> 122"

definition is_upper_unit :: "16 word \<Rightarrow> bool" where
  "is_upper_unit u \<longleftrightarrow> 65 \<le> unat u \<and> unat u \<le> 90"

definition is_alnum_unit :: "16 word \<Rightarrow> bool" where
  "is_alnum_unit u \<longleftrightarrow> is_lower_unit u \<or> is_upper_unit u \<or> is_digit_unit u"

text \<open>\<open>replace(/([a-z0-9])([A-Z])/g, '$1' + sep + '$2')\<close>\<close>

fun split_camel :: "16 word \<Rightarrow> jstr \<Rightarrow> jstr" where
  "split_camel sep (u # w # s) =
     (if (is_lower_unit u \<or> is_digit_unit u) \<and> is_upper_unit w then u # sep # w # split_camel sep s
      else u # split_camel sep (w # s))"
| "split_camel sep s = s"

text \<open>\<open>replace(/[class]+/g, c)\<close>\<close>

function collapse :: "(16 word \<Rightarrow> bool) \<Rightarrow> 16 word \<Rightarrow> jstr \<Rightarrow> jstr" where
  "collapse P c [] = []"
| "collapse P c (u # s) = (if P u then c # collapse P c (dropWhile P s) else u # collapse P c s)"
  by pat_completeness auto
termination
  by (relation "measure (\<lambda>(P, c, s). length s)") (auto simp: le_imp_less_Suc length_dropWhile_le)

definition ascii_lower :: "16 word \<Rightarrow> 16 word" where
  "ascii_lower u = (if is_upper_unit u then u + 32 else u)"

text \<open>\<open>replace(/^c+|c+$/g, '')\<close>\<close>

definition trim_unit :: "16 word \<Rightarrow> jstr \<Rightarrow> jstr" where
  "trim_unit c s = rev (dropWhile (\<lambda>u. u = c) (rev (dropWhile (\<lambda>u. u = c) s)))"

text \<open>\<open>s.split('/')\<close>\<close>

fun split_all :: "jstr \<Rightarrow> jstr list" where
  "split_all [] = [[]]"
| "split_all (u # s) =
     (if u = uc CHR ''/'' then [] # split_all s
      else case split_all s of [] \<Rightarrow> [[u]] | p # ps \<Rightarrow> (u # p) # ps)"

section \<open>Kebab case\<close>

definition dash :: "16 word" where
  "dash = 45"

text \<open>After the second replacement the text is ASCII, where \<open>toLowerCase\<close> is \<open>ascii_lower\<close>.\<close>

definition toKebab :: "jstr \<Rightarrow> jstr" where
  "toKebab s =
     trim_unit dash (map ascii_lower (collapse (\<lambda>u. \<not> is_alnum_unit u) dash (split_camel dash s)))"

section \<open>Zod schemas\<close>

datatype string_check = Any_String | Email_String | Url_String | Uuid_String | Datetime_String

text \<open>\<open>Z_Object\<close> lets unknown keys through; each field says whether it is optional.\<close>

datatype zod =
    Z_Unknown
  | Z_Literal jsval
  | Z_Union "zod list"
  | Z_String string_check
  | Z_Integer
  | Z_Number
  | Z_Boolean
  | Z_Array zod
  | Z_Object "(jstr \<times> bool \<times> zod) list"
  | Z_Record

definition string_format :: "jsval \<Rightarrow> string_check" where
  "string_format f =
     (if f = jlit ''email'' then Email_String else if f = jlit ''uri'' \<or> f = jlit ''url'' then Url_String
      else if f = jlit ''uuid'' then Uuid_String else if f = jlit ''date-time'' then Datetime_String else Any_String)"

text \<open>\<open>Object.entries\<close> of an object or an array.\<close>

fun js_entries :: "jsval \<Rightarrow> (jstr \<times> jsval) list" where
  "js_entries (JObj kvs) = kvs"
| "js_entries (JArr vs) = zip (map nat_dec [0..<length vs]) vs"
| "js_entries _ = []"

fun js_is_object :: "jsval \<Rightarrow> bool" where
  "js_is_object (JObj _) = True"
| "js_is_object (JArr _) = True"
| "js_is_object _ = False"

text \<open>\<open>new Set(Array.isArray(schema.required) ? schema.required : []).has(key)\<close>\<close>

fun is_required :: "jsval \<Rightarrow> jstr \<Rightarrow> bool" where
  "is_required (JArr vs) key \<longleftrightarrow> JStr key \<in> set vs"
| "is_required _ key \<longleftrightarrow> False"

definition zod_union :: "jsval list \<Rightarrow> zod" where
  "zod_union vs = (case vs of [v] \<Rightarrow> Z_Literal v | _ \<Rightarrow> Z_Union (map Z_Literal vs))"

lemma size_own_value: "size (own_value kvs k) < size (JObj kvs)"
proof (cases "map_of kvs k")
  case (Some v)
  then have "(k, v) \<in> set kvs" by (rule map_of_SomeD)
  then have "size v \<le> size_list (size_prod (\<lambda>_. 0) size) kvs" by (intro size_list_estimation' [of "(k, v)"]) auto
  then show ?thesis using Some by (simp add: own_value_def)
qed (simp add: own_value_def)

lemma size_js_entries: "(k, v) \<in> set (js_entries w) \<Longrightarrow> size v < size w"
proof (cases w)
  case (JArr vs)
  assume "(k, v) \<in> set (js_entries w)"
  then have "v \<in> set vs" using JArr by (auto dest: set_zip_rightD)
  then have "size v \<le> size_list size vs" by (rule size_list_estimation') simp
  then show ?thesis using JArr by simp
next
  case (JObj kvs)
  assume "(k, v) \<in> set (js_entries w)"
  then have "size v \<le> size_list (size_prod (\<lambda>_. 0) size) kvs"
    using JObj by (intro size_list_estimation' [of "(k, v)"]) auto
  then show ?thesis using JObj by simp
qed simp_all

lemma size_entry_of:
  "(k, v) \<in> set (js_entries (own_value kvs p)) \<Longrightarrow> size v < Suc (size_list (size_prod (\<lambda>x. 0) size) kvs)"
  using size_own_value [of kvs p] size_js_entries [of k v "own_value kvs p"] by simp

text \<open>\<open>Array.isArray(schema.enum) ? schema.enum : []\<close>\<close>

fun array_items :: "jsval \<Rightarrow> jsval list" where
  "array_items (JArr vs) = vs"
| "array_items _ = []"

function (sequential) jsonTypeToZod :: "jsval \<Rightarrow> zod" where
  "jsonTypeToZod (JObj kvs) =
     (let enumValues = array_items (own_value kvs (js ''enum''));
          ty = own_value kvs (js ''type'');
          items = own_value kvs (js ''items'');
          props = own_value kvs (js ''properties'') in
      if enumValues \<noteq> [] then zod_union enumValues
      else if ty = jlit ''string'' then Z_String (string_format (own_value kvs (js ''format'')))
      else if ty = jlit ''integer'' then Z_Integer
      else if ty = jlit ''number'' then Z_Number
      else if ty = jlit ''boolean'' then Z_Boolean
      else if ty = jlit ''array'' then Z_Array (if js_is_object items then jsonTypeToZod items else Z_Unknown)
      else if ty = jlit ''object'' then
        if js_is_object props
        then Z_Object (map (\<lambda>(key, field). (key, \<not> is_required (own_value kvs (js ''required'')) key, jsonTypeToZod field))
               (filter (\<lambda>(key, field). key \<noteq> js ''__proto__'') (js_entries props)))
        else Z_Record
      else Z_Unknown)"
| "jsonTypeToZod v = Z_Unknown"
  by pat_completeness auto
termination
  by (relation "measure size") (use size_own_value in \<open>auto intro: size_entry_of\<close>)

section \<open>Lists of tools and validators\<close>

text \<open>\<open>tools.map(f)\<close> where \<open>f\<close> may throw.\<close>

fun map_or_throw :: "('a \<Rightarrow> 'e + 'b) \<Rightarrow> 'a list \<Rightarrow> 'e + 'b list" where
  "map_or_throw f [] = Inr []"
| "map_or_throw f (x # xs) =
     (case f x of Inl e \<Rightarrow> Inl e
      | Inr y \<Rightarrow> (case map_or_throw f xs of Inl e \<Rightarrow> Inl e | Inr ys \<Rightarrow> Inr (y # ys)))"

lemma map_or_throw_Inr: "map_or_throw f xs = Inr ys \<Longrightarrow> list_all2 (\<lambda>x y. f x = Inr y) xs ys"
  by (induction f xs arbitrary: ys rule: map_or_throw.induct) (auto split: sum.splits)

text \<open>The compiled output schema as a validator: \<open>issues\<close> is how Zod reports the issues.\<close>

definition compiled_output :: "ajv \<Rightarrow> (schema_issue list \<Rightarrow> jsval) \<Rightarrow> jsval \<Rightarrow> compile_error + validator" where
  "compiled_output ajv issues schema =
     (case compileJsonSchema ajv schema False of
        Inl e \<Rightarrow> Inl e
      | Inr v \<Rightarrow> Inr (\<lambda>x. case v x of Inl is \<Rightarrow> Inl (issues is) | Inr y \<Rightarrow> Inr y))"

section \<open>Kebab names\<close>

definition kebab_unit :: "16 word \<Rightarrow> bool" where
  "kebab_unit u \<longleftrightarrow> is_lower_unit u \<or> is_digit_unit u \<or> u = dash"

definition kebab :: "jstr \<Rightarrow> bool" where
  "kebab s \<longleftrightarrow> list_all kebab_unit s \<and> successively (\<lambda>u w. u \<noteq> dash \<or> w \<noteq> dash) s \<and>
     (s \<noteq> [] \<longrightarrow> hd s \<noteq> dash \<and> last s \<noteq> dash)"

lemma unit_classes [simp]:
  "is_lower_unit u \<Longrightarrow> \<not> is_upper_unit u" "is_digit_unit u \<Longrightarrow> \<not> is_upper_unit u"
  "\<not> is_lower_unit dash" "\<not> is_upper_unit dash" "\<not> is_digit_unit dash" "\<not> is_alnum_unit dash"
  by (auto simp: is_lower_unit_def is_upper_unit_def is_digit_unit_def is_alnum_unit_def dash_def)

lemma ascii_lower_alnum: "is_alnum_unit u \<Longrightarrow> is_lower_unit (ascii_lower u) \<or> is_digit_unit (ascii_lower u)"
proof (cases "is_upper_unit u")
  case True
  then have "unat (u + 32) = unat u + 32"
    by (auto simp: is_upper_unit_def unat_word_ariths)
  with True show ?thesis by (auto simp: ascii_lower_def is_upper_unit_def is_lower_unit_def)
qed (auto simp: ascii_lower_def is_alnum_unit_def)

lemma ascii_lower_dash [simp]: "ascii_lower dash = dash"
  by (simp add: ascii_lower_def)

definition collapsed :: "jstr \<Rightarrow> bool" where
  "collapsed s \<longleftrightarrow> list_all (\<lambda>u. is_alnum_unit u \<or> u = dash) s \<and> successively (\<lambda>u w. u \<noteq> dash \<or> w \<noteq> dash) s"

lemma collapse_head:
  "collapse P c (dropWhile P s) \<noteq> [] \<Longrightarrow> \<not> P (hd (collapse P c (dropWhile P s)))"
proof (induction s)
  case (Cons u s)
  then show ?case by (cases "P u") auto
qed simp

lemma collapse_collapsed: "collapsed (collapse (\<lambda>u. \<not> is_alnum_unit u) dash s)"
proof (induction "\<lambda>u. \<not> is_alnum_unit u" dash s rule: collapse.induct)
  case (2 u s)
  show ?case
  proof (cases "is_alnum_unit u")
    case True
    then have "u \<noteq> dash" by auto
    with 2 True show ?thesis by (simp add: collapsed_def successively_Cons)
  next
    case False
    let ?r = "collapse (\<lambda>u. \<not> is_alnum_unit u) dash (dropWhile (\<lambda>u. \<not> is_alnum_unit u) s)"
    have "?r \<noteq> [] \<Longrightarrow> hd ?r \<noteq> dash" using collapse_head [of "\<lambda>u. \<not> is_alnum_unit u" dash s] by force
    with 2 False show ?thesis by (auto simp: collapsed_def successively_Cons)
  qed
qed (simp add: collapsed_def)

lemma lower_collapsed:
  assumes "collapsed s"
  shows "list_all kebab_unit (map ascii_lower s)" "successively (\<lambda>u w. u \<noteq> dash \<or> w \<noteq> dash) (map ascii_lower s)"
proof -
  have e: "ascii_lower u = dash \<longleftrightarrow> u = dash" if "u \<in> set s" for u
    using assms that ascii_lower_alnum [of u] by (auto simp: collapsed_def list_all_iff)
  show "list_all kebab_unit (map ascii_lower s)"
    using assms ascii_lower_alnum by (fastforce simp: collapsed_def list_all_iff kebab_unit_def)
  show "successively (\<lambda>u w. u \<noteq> dash \<or> w \<noteq> dash) (map ascii_lower s)"
    unfolding successively_map using assms e unfolding collapsed_def
    by (auto elim!: successively_mono)
qed

lemma trim_suffix:
  assumes "list_all Q s" "successively R s"
  shows "list_all Q (dropWhile P s)" "successively R (dropWhile P s)"
  using assms by (induction s) (auto simp: successively_Cons)

lemma trim_unit_kebab:
  assumes "list_all kebab_unit s" "successively (\<lambda>u w. u \<noteq> dash \<or> w \<noteq> dash) s"
  shows "kebab (trim_unit dash s)"
proof -
  let ?f = "dropWhile (\<lambda>u. u = dash) s"
  let ?b = "dropWhile (\<lambda>u. u = dash) (rev ?f)"
  have f: "list_all kebab_unit ?f" "successively (\<lambda>u w. u \<noteq> dash \<or> w \<noteq> dash) ?f"
    using trim_suffix [OF assms] .
  then have "list_all kebab_unit (rev ?f)" "successively (\<lambda>u w. u \<noteq> dash \<or> w \<noteq> dash) (rev ?f)"
    by (auto simp: elim: successively_mono)
  from trim_suffix [OF this] have b: "list_all kebab_unit ?b" "successively (\<lambda>u w. u \<noteq> dash \<or> w \<noteq> dash) ?b" .
  have "hd (rev ?b) \<noteq> dash" if "?b \<noteq> []"
  proof -
    have "?f \<noteq> []" using that by (cases "?f = []") simp_all
    then have "hd ?f \<noteq> dash" by (rule hd_dropWhile)
    moreover have "last ?b = last (rev ?f)" using that by (metis dropWhile_append3 dropWhile_eq_self_iff last_appendR takeWhile_dropWhile_id)
    moreover have "last (rev ?f) = hd ?f" using \<open>?f \<noteq> []\<close> by (simp add: last_rev)
    ultimately show ?thesis using that by (simp add: hd_rev)
  qed
  moreover have "last (rev ?b) \<noteq> dash" if "?b \<noteq> []"
    using hd_dropWhile [OF that] that by (metis last_rev)
  moreover have "list_all kebab_unit (rev ?b)" "successively (\<lambda>u w. u \<noteq> dash \<or> w \<noteq> dash) (rev ?b)"
    using b by (auto elim: successively_mono)
  ultimately show ?thesis by (auto simp: kebab_def trim_unit_def)
qed

lemma kebab_fixed:
  assumes "kebab s"
  shows "toKebab s = s"
proof -
  have k: "list_all kebab_unit s" "successively (\<lambda>u w. u \<noteq> dash \<or> w \<noteq> dash) s" using assms by (simp_all add: kebab_def)
  have up: "\<not> is_upper_unit u" if "kebab_unit u" for u using that by (auto simp: kebab_unit_def)
  have "list_all kebab_unit t \<Longrightarrow> split_camel dash t = t" for t
    by (induction dash t rule: split_camel.induct) (auto simp: up)
  then have 1: "split_camel dash s = s" using k(1) by blast
  have "list_all kebab_unit t \<Longrightarrow> successively (\<lambda>u w. u \<noteq> dash \<or> w \<noteq> dash) t \<Longrightarrow>
      collapse (\<lambda>u. \<not> is_alnum_unit u) dash t = t" for t
  proof (induction t)
    case (Cons u t)
    show ?case
    proof (cases "u = dash")
      case True
      then have "dropWhile (\<lambda>u. \<not> is_alnum_unit u) t = t"
        using Cons.prems by (cases t) (auto simp: successively_Cons kebab_unit_def is_alnum_unit_def)
      with Cons True show ?thesis by (auto simp: successively_Cons)
    next
      case False
      with Cons show ?thesis by (auto simp: successively_Cons kebab_unit_def is_alnum_unit_def)
    qed
  qed simp
  then have 2: "collapse (\<lambda>u. \<not> is_alnum_unit u) dash s = s" using k by blast
  have 3: "map ascii_lower s = s"
    using k(1) up by (auto simp: list_all_iff ascii_lower_def intro: map_idI)
  have 4: "trim_unit dash s = s"
    using assms by (cases s) (auto simp: trim_unit_def kebab_def hd_rev [symmetric] dropWhile_eq_self_iff)
  show ?thesis by (simp add: toKebab_def 1 2 3 4)
qed

lemma toKebab_kebab_name: "kebab (toKebab s)"
  unfolding toKebab_def by (rule trim_unit_kebab) (rule lower_collapsed [OF collapse_collapsed])+

text \<open>
  The glyph name an adapter derives is always in kebab case: lower-case letters, digits and
  single hyphens, none at an end; and a name in kebab case is kept.
\<close>

theorem toKebab_kebab: "kebab (toKebab s) \<and> toKebab (toKebab s) = toKebab s"
  by (rule conjI [OF toKebab_kebab_name kebab_fixed [OF toKebab_kebab_name]])

text \<open>A name without a Latin letter or digit has no kebab form: the glyph's name is empty.\<close>

lemma toKebab_empty:
  assumes "list_all (\<lambda>u. \<not> is_alnum_unit u) s"
  shows "toKebab s = []"
proof -
  have "list_all (\<lambda>u. \<not> is_alnum_unit u) t \<Longrightarrow> split_camel dash t = t" for t
    by (induction dash t rule: split_camel.induct) (auto simp: is_alnum_unit_def)
  then have "split_camel dash s = s" using assms by blast
  moreover have "collapse (\<lambda>u. \<not> is_alnum_unit u) dash s \<in> {[], [dash]}"
  proof (cases s)
    case (Cons u t)
    with assms have u: "\<not> is_alnum_unit u" and t: "dropWhile (\<lambda>u. \<not> is_alnum_unit u) t = []"
      by (auto simp: list_all_iff dropWhile_eq_Nil_conv)
    show ?thesis unfolding Cons using u by (simp del: dropWhile_eq_Nil_conv add: t)
  qed simp
  ultimately show ?thesis by (auto simp: toKebab_def trim_unit_def)
qed

end
