(* ===== verification/Mcp_Adapter.thy ===== *)
theory Mcp_Adapter
  imports Adapters
begin

text \<open>
  \<open>packages/adapters/mcp/src/index.ts\<close>: tools of an MCP server become glyphs. The tool list, its
  annotations and every answer come from that server, which is not trusted. \<open>lower\<close> is
  \<open>String.prototype.toLowerCase\<close> (Unicode tables); Zod and AJV are parameters.
\<close>

section \<open>Tools\<close>

record tool_annotations =
  ta_readOnlyHint :: "bool option"
  ta_destructiveHint :: "bool option"
  ta_idempotentHint :: "bool option"

record mcp_tool =
  mt_name :: jstr
  mt_description :: "jstr option"
  mt_inputSchema :: "jsval option"
  mt_outputSchema :: "jsval option"
  mt_annotations :: "tool_annotations option"

record mcp_tool_result =
  mr_content :: "(jstr \<times> jstr option) list option"
  mr_structuredContent :: jsval
  mr_isError :: bool

record mcp_options =
  mo_provider :: "jstr option"
  mo_validateOutput :: "bool option"
  mo_maxTools :: "int option"
  mo_redactDescriptions :: "bool option"
  mo_sanitizeErrors :: "bool option"
  mo_listToolsTimeoutMs :: "int option"

section \<open>Risk\<close>

definition DANGEROUS_TOOL_WORDS :: "jstr list" where
  "DANGEROUS_TOOL_WORDS = map js [''delete'', ''destroy'', ''remove'', ''truncate'', ''exec'', ''overwrite'',
     ''wipe'', ''purge'', ''drop'', ''write'', ''update'', ''kill'']"

text \<open>The word units of \<open>\\b\<close>.\<close>

definition is_word_unit :: "16 word \<Rightarrow> bool" where
  "is_word_unit u \<longleftrightarrow> is_alnum_unit u \<or> u = 95"

text \<open>Some word occurs with a boundary on either side; \<open>inside\<close>: the unit before is a word unit.\<close>

fun has_word :: "jstr list \<Rightarrow> bool \<Rightarrow> jstr \<Rightarrow> bool" where
  "has_word ws inside [] \<longleftrightarrow> False"
| "has_word ws inside (u # s) \<longleftrightarrow>
     (\<not> inside \<and> list_ex (\<lambda>w. case strip_prefix w (u # s) of
        Some rest \<Rightarrow> rest = [] \<or> \<not> is_word_unit (hd rest) | None \<Rightarrow> False) ws) \<or>
     has_word ws (is_word_unit u) s"

definition isDangerousName :: "(jstr \<Rightarrow> jstr) \<Rightarrow> jstr \<Rightarrow> bool" where
  "isDangerousName lower name =
     has_word DANGEROUS_TOOL_WORDS False
       (lower (split_camel 32 (collapse (\<lambda>u. u = 95 \<or> u = dash) 32 name)))"

definition hint :: "(tool_annotations \<Rightarrow> bool option) \<Rightarrow> tool_annotations option \<Rightarrow> bool" where
  "hint f annotations = (case annotations of None \<Rightarrow> False | Some a \<Rightarrow> f a = Some True)"

definition mcp_deriveCost :: "(jstr \<Rightarrow> jstr) \<Rightarrow> jstr \<Rightarrow> tool_annotations option \<Rightarrow> glyph_cost" where
  "mcp_deriveCost lower toolName annotations =
     (let dangerousName = isDangerousName lower toolName;
          readOnly = (hint ta_readOnlyHint annotations \<and> \<not> dangerousName);
          destructive = (hint ta_destructiveHint annotations \<or> dangerousName)
      in \<lparr>co_latency = Medium, co_sideEffects = \<not> readOnly, co_reversible = readOnly,
          co_riskTier = (if destructive then Danger else if readOnly then Safe else Caution),
          co_requiresConfirmation = destructive\<rparr>)"

section \<open>Handlers\<close>

definition mcp_error_text :: "mcp_tool_result \<Rightarrow> jstr" where
  "mcp_error_text r =
     (let text = intercalate (js '' '') (filter (\<lambda>t. t \<noteq> [])
            (map (\<lambda>(ty, t). default_to [] t) (default_to [] (mr_content r))))
      in if text = [] then js ''unknown error'' else text)"

definition content_json :: "(jstr \<times> jstr option) list option \<Rightarrow> jsval" where
  "content_json c = (case c of None \<Rightarrow> JUndef
     | Some bs \<Rightarrow> JArr (map (\<lambda>(ty, t). JObj [(js ''type'', JStr ty), (js ''text'', jopt JStr t)]) bs))"

text \<open>\<open>callTool\<close> gives \<open>None\<close> when it rejects; the message is the host's.\<close>

definition mcp_handler ::
  "jstr \<Rightarrow> (jstr \<Rightarrow> jsval \<Rightarrow> jstr + mcp_tool_result) \<Rightarrow> bool \<Rightarrow> jsval \<Rightarrow> handler_result" where
  "mcp_handler toolName callTool sanitizeErrors input =
     (case callTool toolName (nullish_or input (JObj [])) of
        Inl msg \<Rightarrow> Handler_Throws msg
      | Inr r \<Rightarrow>
          if mr_isError r then
            if sanitizeErrors then Handler_Throws (js ''MCP tool \"'' @ toolName @ js ''\" failed'')
            else Handler_Throws (js ''MCP tool \"'' @ toolName @ js ''\" failed: '' @ mcp_error_text r)
          else Handler_Returns (nullish_or (mr_structuredContent r) (nullish_or (content_json (mr_content r)) JNull)))"

section \<open>The conversion\<close>

definition mcp_buildZodInput :: "jsval option \<Rightarrow> zod" where
  "mcp_buildZodInput schema =
     (case schema of
        Some (JObj kvs) \<Rightarrow>
          let props = own_value kvs (js ''properties'') in
          if own_value kvs (js ''type'') \<noteq> jlit ''object'' \<or> \<not> js_is_object props then Z_Record
          else Z_Object (map (\<lambda>(key, field). (key, \<not> is_required (own_value kvs (js ''required'')) key, jsonTypeToZod field))
                 (filter (\<lambda>(key, field). key \<noteq> js ''__proto__'') (js_entries props)))
      | _ \<Rightarrow> Z_Record)"

definition mcp_cardBase :: "(jstr \<Rightarrow> jstr) \<Rightarrow> mcp_options \<Rightarrow> jstr \<Rightarrow> mcp_tool \<Rightarrow> glyph_card" where
  "mcp_cardBase lower opts now tool =
     \<lparr>gc_id = [], gc_version = js ''1.0.0'', gc_name = toKebab (mt_name tool),
      gc_intent = (if default_to False (mo_redactDescriptions opts) then mt_name tool
                   else default_to (mt_name tool) (mt_description tool)),
      gc_tags = [js ''mcp''], gc_cost = mcp_deriveCost lower (mt_name tool) (mt_annotations tool),
      gc_idempotent = (case mt_annotations tool of None \<Rightarrow> False | Some a \<Rightarrow> default_to False (ta_idempotentHint a)),
      gc_input = default_to (JObj [(js ''type'', jlit ''object'')]) (mt_inputSchema tool),
      gc_output = default_to (JObj []) (mt_outputSchema tool), gc_examples = [],
      gc_failureModes = [\<lparr>fm_code = js ''MCP_ERROR'', fm_description = js ''The MCP tool call returned an error''\<rparr>],
      gc_provider = default_to (js ''mcp'') (mo_provider opts), gc_requiredScopes = None, gc_attestation = None,
      gc_publicKey = None, gc_signature = None, gc_createdAt = now\<rparr>"

datatype import_error = Too_Many_Tools nat int | Bad_Schema compile_error | List_Failed jstr | List_Timed_Out int

text \<open>The output schema is compiled only when validation is on and the tool declares one.\<close>

definition mcp_output ::
  "ajv \<Rightarrow> (schema_issue list \<Rightarrow> jsval) \<Rightarrow> mcp_options \<Rightarrow> mcp_tool \<Rightarrow> import_error + validator" where
  "mcp_output ajv issues opts tool =
     (case mt_outputSchema tool of
        Some schema \<Rightarrow>
          if default_to True (mo_validateOutput opts) then
            (case compiled_output ajv issues schema of Inl e \<Rightarrow> Inl (Bad_Schema e) | Inr v \<Rightarrow> Inr v)
          else Inr Inr
      | None \<Rightarrow> Inr Inr)"

record mcp_env =
  me_crypto :: crypto
  me_lower :: "jstr \<Rightarrow> jstr"
  me_zod :: "zod \<Rightarrow> validator"
  me_ajv :: ajv
  me_issues :: "schema_issue list \<Rightarrow> jsval"
  me_now :: "jstr \<Rightarrow> jstr"

definition mcp_glyph ::
  "mcp_env \<Rightarrow> (jstr \<Rightarrow> jsval \<Rightarrow> jstr + mcp_tool_result) \<Rightarrow> mcp_options \<Rightarrow> mcp_tool \<Rightarrow> import_error + glyph_definition" where
  "mcp_glyph env callTool opts tool =
     (let cardBase = mcp_cardBase (me_lower env) opts (me_now env (mt_name tool)) tool in
      case mcp_output (me_ajv env) (me_issues env) opts tool of
        Inl e \<Rightarrow> Inl e
      | Inr out \<Rightarrow> Inr
          \<lparr>gd_card = cardBase\<lparr>gc_id := computeGlyphId (me_crypto env) cardBase\<rparr>,
           gd_inputSchema = me_zod env (mcp_buildZodInput (mt_inputSchema tool)), gd_outputSchema = out,
           gd_handler = mcp_handler (mt_name tool) callTool (default_to False (mo_sanitizeErrors opts))\<rparr>)"

definition glyphsFromMcpTools ::
  "mcp_env \<Rightarrow> mcp_tool list \<Rightarrow> (jstr \<Rightarrow> jsval \<Rightarrow> jstr + mcp_tool_result) \<Rightarrow> mcp_options
     \<Rightarrow> import_error + glyph_definition list" where
  "glyphsFromMcpTools env tools callTool opts =
     (case mo_maxTools opts of
        Some n \<Rightarrow> if int (length tools) > n then Inl (Too_Many_Tools (length tools) n)
                  else map_or_throw (mcp_glyph env callTool opts) tools
      | None \<Rightarrow> map_or_throw (mcp_glyph env callTool opts) tools)"

text \<open>
  A promise of the host: when it settles, and how; \<open>None\<close> is never. \<open>withTimeout\<close> gives \<open>None\<close> when
  the caller waits for ever.
\<close>

type_synonym 'a promise = "(int \<times> (jstr + 'a)) option"

definition timer_delay :: "int \<Rightarrow> int" where
  "timer_delay ms = (if ms < 1 \<or> ms > 2147483647 then 1 else ms)"

definition withTimeout :: "'a promise \<Rightarrow> int option \<Rightarrow> (import_error + 'a) option" where
  "withTimeout p timeoutMs =
     (case (p, timeoutMs) of
        (None, None) \<Rightarrow> None
      | (None, Some ms) \<Rightarrow> Some (Inl (List_Timed_Out ms))
      | (Some (at_ms, r), _) \<Rightarrow>
          (case timeoutMs of
             Some ms \<Rightarrow> if at_ms < timer_delay ms then Some (case r of Inl m \<Rightarrow> Inl (List_Failed m) | Inr a \<Rightarrow> Inr a)
                        else Some (Inl (List_Timed_Out ms))
           | None \<Rightarrow> Some (case r of Inl m \<Rightarrow> Inl (List_Failed m) | Inr a \<Rightarrow> Inr a)))"

definition glyphsFromMcpClient ::
  "mcp_env \<Rightarrow> mcp_tool list promise \<Rightarrow> (jstr \<Rightarrow> jsval \<Rightarrow> jstr + mcp_tool_result) \<Rightarrow> mcp_options
     \<Rightarrow> (import_error + glyph_definition list) option" where
  "glyphsFromMcpClient env listTools callTool opts =
     map_option (\<lambda>r. case r of Inl e \<Rightarrow> Inl e | Inr tools \<Rightarrow> glyphsFromMcpTools env tools callTool opts)
       (withTimeout listTools (mo_listToolsTimeoutMs opts))"

section \<open>What an import guarantees\<close>

definition fails_closed :: "(jstr \<Rightarrow> jstr) \<Rightarrow> mcp_tool \<Rightarrow> glyph_cost \<Rightarrow> bool" where
  "fails_closed lower tool cost \<longleftrightarrow>
     (isDangerousName lower (mt_name tool) \<or> hint ta_destructiveHint (mt_annotations tool) \<longrightarrow>
        co_riskTier cost = Danger \<and> co_requiresConfirmation cost) \<and>
     (co_riskTier cost = Safe \<longrightarrow> hint ta_readOnlyHint (mt_annotations tool)) \<and>
     (isDangerousName lower (mt_name tool) \<longrightarrow> co_sideEffects cost \<and> \<not> co_reversible cost)"

lemma mcp_cost_fails_closed: "fails_closed lower tool (mcp_deriveCost lower (mt_name tool) (mt_annotations tool))"
  by (simp add: fails_closed_def mcp_deriveCost_def Let_def)

lemma mcp_glyph_Inr:
  assumes "mcp_glyph env callTool opts tool = Inr g"
  shows "gc_id (gd_card g) = computeGlyphId (me_crypto env) (gd_card g)" "kebab (gc_name (gd_card g))"
    "gc_cost (gd_card g) = mcp_deriveCost (me_lower env) (mt_name tool) (mt_annotations tool)"
    "gd_handler g = mcp_handler (mt_name tool) callTool (default_to False (mo_sanitizeErrors opts))"
proof -
  let ?base = "mcp_cardBase (me_lower env) opts (me_now env (mt_name tool)) tool"
  have g: "gd_card g = ?base\<lparr>gc_id := computeGlyphId (me_crypto env) ?base\<rparr>"
    and h: "gd_handler g = mcp_handler (mt_name tool) callTool (default_to False (mo_sanitizeErrors opts))"
    using assms by (auto simp: mcp_glyph_def Let_def split: sum.splits)
  show "gc_id (gd_card g) = computeGlyphId (me_crypto env) (gd_card g)" by (simp add: g)
  show "kebab (gc_name (gd_card g))" by (simp add: g mcp_cardBase_def toKebab_kebab_name)
  show "gc_cost (gd_card g) = mcp_deriveCost (me_lower env) (mt_name tool) (mt_annotations tool)"
    by (simp add: g mcp_cardBase_def)
  show "gd_handler g = mcp_handler (mt_name tool) callTool (default_to False (mo_sanitizeErrors opts))" by (rule h)
qed

text \<open>
  C23. Whatever an MCP server claims about its tools, an import fails closed: it yields one glyph per
  tool or none at all, never more than \<open>maxTools\<close>; each card carries its own id and a kebab name;
  a tool with a dangerous name or a destructive hint is a \<open>danger\<close> glyph that requires
  confirmation, and no annotation makes it safe.
\<close>

theorem mcp_import_fails_closed:
  assumes "glyphsFromMcpTools env tools callTool opts = Inr gs"
  shows "length gs = length tools \<and> (\<forall>n. mo_maxTools opts = Some n \<longrightarrow> int (length gs) \<le> n) \<and>
    list_all2 (\<lambda>tool g. gc_id (gd_card g) = computeGlyphId (me_crypto env) (gd_card g) \<and> kebab (gc_name (gd_card g)) \<and>
      fails_closed (me_lower env) tool (gc_cost (gd_card g))) tools gs"
proof -
  from assms have m: "map_or_throw (mcp_glyph env callTool opts) tools = Inr gs"
    and n: "\<forall>n. mo_maxTools opts = Some n \<longrightarrow> int (length tools) \<le> n"
    by (auto simp: glyphsFromMcpTools_def split: option.splits if_splits)
  have l: "list_all2 (\<lambda>tool g. mcp_glyph env callTool opts tool = Inr g) tools gs" by (rule map_or_throw_Inr [OF m])
  then have "list_all2 (\<lambda>tool g. gc_id (gd_card g) = computeGlyphId (me_crypto env) (gd_card g) \<and>
      kebab (gc_name (gd_card g)) \<and> fails_closed (me_lower env) tool (gc_cost (gd_card g))) tools gs"
    by (rule list_all2_mono) (simp add: mcp_glyph_Inr(1,2), simp add: mcp_glyph_Inr(3) mcp_cost_fails_closed)
  with l n show ?thesis by (auto dest: list_all2_lengthD)
qed

definition toy_mcp_env :: mcp_env where
  "toy_mcp_env = \<lparr>me_crypto = toy_crypto, me_lower = map ascii_lower, me_zod = (\<lambda>_. Inr), me_ajv = toy_ajv,
     me_issues = (\<lambda>_. JNull), me_now = (\<lambda>_. js ''t'')\<rparr>"

definition toy_mcp_options :: mcp_options where
  "toy_mcp_options = \<lparr>mo_provider = None, mo_validateOutput = None, mo_maxTools = Some 1, mo_redactDescriptions = None,
     mo_sanitizeErrors = None, mo_listToolsTimeoutMs = None\<rparr>"

text \<open>A tool that deletes and says it only reads.\<close>

definition lying_tool :: "jstr \<Rightarrow> mcp_tool" where
  "lying_tool name = \<lparr>mt_name = name, mt_description = None, mt_inputSchema = None, mt_outputSchema = None,
     mt_annotations = Some \<lparr>ta_readOnlyHint = Some True, ta_destructiveHint = Some False, ta_idempotentHint = None\<rparr>\<rparr>"

lemmas name_eval = isDangerousName_def DANGEROUS_TOOL_WORDS_def is_word_unit_def is_alnum_unit_def is_lower_unit_def
  is_upper_unit_def is_digit_unit_def ascii_lower_def js_def uc_def dash_def

lemma delete_name: "isDangerousName (map ascii_lower) (js ''delete_user'')" "isDangerousName (map ascii_lower) (js ''deleteUser'')"
  by (simp_all add: name_eval)

theorem mcp_import_fails_closed_witness:
  "\<exists>g. glyphsFromMcpTools toy_mcp_env [lying_tool (js ''delete_user'')] (\<lambda>_ _. Inl []) toy_mcp_options = Inr [g] \<and>
     co_riskTier (gc_cost (gd_card g)) = Danger \<and> co_requiresConfirmation (gc_cost (gd_card g))"
proof -
  obtain g where g: "glyphsFromMcpTools toy_mcp_env [lying_tool (js ''delete_user'')] (\<lambda>_ _. Inl []) toy_mcp_options = Inr [g]"
    by (auto simp: glyphsFromMcpTools_def toy_mcp_options_def mcp_glyph_def Let_def mcp_output_def lying_tool_def)
  from mcp_import_fails_closed [OF g] g delete_name show ?thesis
    by (simp add: fails_closed_def toy_mcp_env_def lying_tool_def)
qed

text \<open>The words are found in camel case, but a run of capitals is not split: the same tool as \<open>DELETEUser\<close> is safe.\<close>

lemma acronym_name_escapes:
  "co_riskTier (mcp_deriveCost (map ascii_lower) (js ''DELETEUser'') (mt_annotations (lying_tool (js ''DELETEUser'')))) = Safe"
  by (simp add: mcp_deriveCost_def lying_tool_def hint_def Let_def) (simp add: name_eval)

text \<open>With \<open>sanitizeErrors\<close> nothing the upstream server answers reaches the error message.\<close>

lemma mcp_error_redacted:
  assumes "callTool toolName (nullish_or input (JObj [])) = Inr r" "mr_isError r"
  shows "mcp_handler toolName callTool True input = Handler_Throws (js ''MCP tool \"'' @ toolName @ js ''\" failed'')"
  using assms by (simp add: mcp_handler_def)

end
