(* ===== verification/Mcp_Bridge.thy ===== *)
theory Mcp_Bridge
  imports Client_Gates Render Adapters
begin

text \<open>
  \<open>packages/adapters/mcp-server/src\<close>: a Glyph server's tools for an MCP client, through a
  \<open>GlyphClient\<close>. \<open>index.ts\<close> lists every card as a tool; \<open>lazy.ts\<close> offers three meta-tools. Both hold
  a client and a cache of cards. \<open>explain\<close> is the text of an error; call ids and times are
  arguments. A request handler that throws is answered by the MCP SDK.
\<close>

section \<open>Results\<close>

record mcp_result =
  mx_isError :: bool
  mx_content :: "jstr option list"

definition mcp_text :: "jstr \<Rightarrow> mcp_result" where
  "mcp_text s = \<lparr>mx_isError = False, mx_content = [Some s]\<rparr>"

definition mcp_refusal :: "jstr \<Rightarrow> mcp_result" where
  "mcp_refusal s = \<lparr>mx_isError = True, mx_content = [Some s]\<rparr>"

fun count_kinds :: "sanitization_finding list \<Rightarrow> (jstr, nat) omap \<Rightarrow> (jstr, nat) omap" where
  "count_kinds [] m = m"
| "count_kinds (f # fs) m =
     (let k = kind_str (sf_kind f) in
      count_kinds fs (omap_set k ((case map_of m k of None \<Rightarrow> 0 | Some n \<Rightarrow> n) + sf_count f) m))"

definition sanitized_blocks :: "jstr \<Rightarrow> sanitization option \<Rightarrow> jstr option list" where
  "sanitized_blocks tail inspection =
     (case inspection of
        None \<Rightarrow> []
      | Some i \<Rightarrow>
          if sn_findings i = [] then []
          else
            let counts = count_kinds (sn_findings i) [];
                breakdown = intercalate (js '', '') (map (\<lambda>(k, n). nat_dec n @ js '' '' @ k) counts);
                total = sum_list (map snd counts)
            in [Some (js ''[glyph: sanitized '' @ nat_dec total @ js '' invisible character(s)'' @ tail @
                      uc CHR '' '' # [8212] @ js '' '' @ breakdown @ js '']'')])"

text \<open>\<open>JSON.stringify(payload, null, 2)\<close>, and without indent in the lazy bridge.\<close>

definition payload_text :: "(jsval \<Rightarrow> jstr) \<Rightarrow> jsval \<Rightarrow> jstr option" where
  "payload_text text v = (case v of JStr s \<Rightarrow> Some s | JUndef \<Rightarrow> None | _ \<Rightarrow> Some (text v))"

definition envelopeToMcpResult :: "sealed_envelope \<Rightarrow> mcp_result" where
  "envelopeToMcpResult e =
     \<lparr>mx_isError = False, mx_content = payload_text (ser_indented []) (se_payload e) #
        sanitized_blocks (js '' from this output'') (se_inspection e)\<rparr>"

definition lazy_envelopeToMcpResult :: "sealed_envelope \<Rightarrow> mcp_result" where
  "lazy_envelopeToMcpResult e =
     \<lparr>mx_isError = False, mx_content = payload_text ser (se_payload e) # sanitized_blocks [] (se_inspection e)\<rparr>"

section \<open>The eager bridge\<close>

record bridge_state =
  br_client :: client_state
  br_cards :: "((jstr, glyph_card) omap \<times> (jstr, jstr) omap) option"

datatype bridge_error = Client_Threw client_error | Name_Collision jstr jstr jstr

type_synonym 'a bridge_step = "(bridge_state, bridge_error, 'a) step"

definition on_client :: "'a client_step \<Rightarrow> 'a bridge_step" where
  "on_client m s = (case m (br_client s) of
     (Inl e, c) \<Rightarrow> (Inl (Client_Threw e), s\<lparr>br_client := c\<rparr>) | (Inr a, c) \<Rightarrow> (Inr a, s\<lparr>br_client := c\<rparr>))"

text \<open>\<open>name.replace(/[^a-zA-Z0-9_-]/g, '_')\<close>\<close>

definition sanitizeMcpName :: "jstr \<Rightarrow> jstr" where
  "sanitizeMcpName name = map (\<lambda>u. if is_alnum_unit u \<or> u = 95 \<or> u = dash then u else 95) name"

fun load_entries :: "client_config \<Rightarrow> lexicon_entry list \<Rightarrow> (jstr, glyph_card) omap \<Rightarrow> (jstr, jstr) omap
    \<Rightarrow> ((jstr, glyph_card) omap \<times> (jstr, jstr) omap) bridge_step" where
  "load_entries cfg [] cards aliases = return (cards, aliases)"
| "load_entries cfg (e # es) cards aliases =
     and_then (on_client (client_getCard cfg (lx_name e) (Some Rich))) (\<lambda>c.
       let safe = sanitizeMcpName (lx_name e) in
       case map_of aliases safe of
         Some other \<Rightarrow> throw (Name_Collision (lx_name e) other safe)
       | None \<Rightarrow> load_entries cfg es (omap_set (lx_name e) c cards) (omap_set safe (lx_name e) aliases))"

definition loadCards :: "client_config \<Rightarrow> bool option \<Rightarrow> ((jstr, glyph_card) omap \<times> (jstr, jstr) omap) bridge_step" where
  "loadCards cfg cacheLexicon s =
     (case (br_cards s, cacheLexicon \<noteq> Some False) of
        (Some loaded, True) \<Rightarrow> (Inr loaded, s)
      | _ \<Rightarrow>
          and_then (on_client (client_getLexicon cfg)) (\<lambda>lexicon.
          and_then (load_entries cfg lexicon [] []) (\<lambda>loaded.
            (\<lambda>t. (Inr loaded, t\<lparr>br_cards := Some loaded\<rparr>)))) s)"

definition describeForMcp :: "glyph_card \<Rightarrow> jstr" where
  "describeForMcp c =
     (let cost = gc_cost c;
          tags = (if co_riskTier cost \<noteq> Safe then [js ''risk: '' @ risk_str (co_riskTier cost)] else []) @
                 (if co_sideEffects cost then [js ''has side effects''] else []) @
                 (if \<not> co_reversible cost then [js ''not reversible''] else []) @
                 (if co_requiresConfirmation cost then [js ''requires confirmation''] else [])
      in gc_intent c @ (if tags \<noteq> [] then js '' ('' @ intercalate (js '', '') tags @ js '')'' else []))"

definition bridge_tool :: "glyph_card \<Rightarrow> jstr \<times> jstr \<times> jsval" where
  "bridge_tool c = (sanitizeMcpName (gc_name c), describeForMcp c,
     nullish_or (gc_input c) (JObj [(js ''type'', jlit ''object'')]))"

definition bridge_list :: "client_config \<Rightarrow> bool option \<Rightarrow> (jstr \<times> jstr \<times> jsval) list bridge_step" where
  "bridge_list cfg cacheLexicon =
     and_then (loadCards cfg cacheLexicon) (\<lambda>(cards, aliases). return (map (\<lambda>(n, c). bridge_tool c) cards))"

text \<open>\<open>try { ... } catch\<close> around the call.\<close>

definition call_or_refuse ::
  "(client_error \<Rightarrow> jstr) \<Rightarrow> (sealed_envelope \<Rightarrow> mcp_result) \<Rightarrow> sealed_envelope client_step \<Rightarrow> mcp_result bridge_step" where
  "call_or_refuse explain render m s =
     (case on_client m s of
        (Inl (Client_Threw e), t) \<Rightarrow> (Inr (mcp_refusal (explain e)), t)
      | (Inl e, t) \<Rightarrow> (Inl e, t)
      | (Inr e, t) \<Rightarrow> (Inr (render e), t))"

definition bridge_target :: "(jstr, jstr) omap \<Rightarrow> jstr \<Rightarrow> jstr" where
  "bridge_target aliases name = (case map_of aliases name of None \<Rightarrow> name | Some n \<Rightarrow> n)"

definition bridge_call ::
  "client_config \<Rightarrow> bool option \<Rightarrow> (client_error \<Rightarrow> jstr) \<Rightarrow> jstr \<Rightarrow> jstr \<Rightarrow> jstr \<Rightarrow> jsval \<Rightarrow> mcp_result bridge_step" where
  "bridge_call cfg cacheLexicon explain now callId name args =
     and_then (loadCards cfg cacheLexicon) (\<lambda>(cards, aliases).
       let originalName = bridge_target aliases name in
       case map_of cards originalName of
         None \<Rightarrow> return (mcp_refusal (js ''Unknown Glyph tool: '' @ name))
       | Some c \<Rightarrow>
           if co_requiresConfirmation (gc_cost c)
           then return (mcp_refusal (js ''Glyph tool \"'' @ name @ js ''\" requires confirmation. The MCP bridge cannot satisfy this flow'' @
                  uc CHR '' '' # [8212] @ js '' call this tool via a native Glyph client that supports the prepare/confirm handshake.''))
           else call_or_refuse (\<lambda>e. js ''Glyph call failed: '' @ explain e) envelopeToMcpResult
                  (client_call cfg now callId originalName (nullish_or args (JObj [])) None))"

section \<open>The lazy bridge\<close>

record lazy_state =
  lz_client :: client_state
  lz_cards :: "(jstr, glyph_card) omap"
  lz_indexLoaded :: bool

type_synonym 'a lazy_step = "(lazy_state, client_error, 'a) step"

definition lazily :: "'a client_step \<Rightarrow> 'a lazy_step" where
  "lazily m s = (case m (lz_client s) of (r, c) \<Rightarrow> (r, s\<lparr>lz_client := c\<rparr>))"

text \<open>A card is kept as soon as it came, also when a later one fails.\<close>

fun index_entries :: "client_config \<Rightarrow> lexicon_entry list \<Rightarrow> unit lazy_step" where
  "index_entries cfg [] = (\<lambda>s. (Inr (), s\<lparr>lz_indexLoaded := True\<rparr>))"
| "index_entries cfg (e # es) =
     and_then (lazily (client_getCard cfg (lx_name e) (Some Rich))) (\<lambda>c.
     and_then (\<lambda>s. (Inr (), s\<lparr>lz_cards := omap_set (lx_name e) c (lz_cards s)\<rparr>)) (\<lambda>_. index_entries cfg es))"

definition ensureIndex :: "client_config \<Rightarrow> unit lazy_step" where
  "ensureIndex cfg s =
     (if lz_indexLoaded s then (Inr (), s)
      else and_then (lazily (client_getLexicon cfg)) (index_entries cfg) s)"

definition card_of :: "jsval \<Rightarrow> (jstr, glyph_card) omap \<Rightarrow> glyph_card option" where
  "card_of target cards = (case target of JStr n \<Rightarrow> map_of cards n | _ \<Rightarrow> None)"

definition index_text :: "(jstr, glyph_card) omap \<Rightarrow> jstr" where
  "index_text cards = ser (JArr (map (\<lambda>(n, c). JObj [(js ''name'', JStr (gc_name c)), (js ''intent'', JStr (gc_intent c)),
     (js ''riskTier'', JStr (risk_str (co_riskTier (gc_cost c))))]) cards))"

definition describe_text :: "glyph_card \<Rightarrow> jstr" where
  "describe_text c = ser (JObj [(js ''name'', JStr (gc_name c)), (js ''intent'', JStr (gc_intent c)),
     (js ''input'', gc_input c), (js ''output'', gc_output c), (js ''cost'', cost_json (gc_cost c))])"

definition lazy_describe :: "client_config \<Rightarrow> jsval \<Rightarrow> mcp_result lazy_step" where
  "lazy_describe cfg args =
     and_then (ensureIndex cfg) (\<lambda>_ s.
       (let target = js_member_opt args (js ''name'') in
        if \<not> js_truthy target then (Inr (mcp_refusal (js ''glyph_describe requires {name}'')), s)
        else case card_of target (lz_cards s) of
          None \<Rightarrow> (Inr (mcp_refusal (js ''unknown glyph: '' @ js_to_string target)), s)
        | Some c \<Rightarrow> (Inr (mcp_text (describe_text c)), s)))"

definition lazy_invoke :: "client_config \<Rightarrow> jstr \<Rightarrow> jstr \<Rightarrow> jsval \<Rightarrow> mcp_result lazy_step" where
  "lazy_invoke cfg now callId args =
     and_then (ensureIndex cfg) (\<lambda>_ s.
       (let p = nullish_or args (JObj []); target = js_member_opt p (js ''name'') in
        if \<not> js_truthy target then (Inr (mcp_refusal (js ''glyph_invoke requires {name}'')), s)
        else case card_of target (lz_cards s) of
          None \<Rightarrow> (Inr (mcp_refusal (js ''unknown glyph: '' @ js_to_string target)), s)
        | Some c \<Rightarrow>
            if co_requiresConfirmation (gc_cost c)
            then (Inr (mcp_refusal (js ''glyph \"'' @ js_to_string target @ js ''\" requires confirmation; not supported via MCP bridge'')), s)
            else and_then (lazily (client_call cfg now callId (js_to_string target)
                     (nullish_or (js_member_opt p (js ''arguments'')) (JObj [])) None))
                   (\<lambda>e. return (lazy_envelopeToMcpResult e)) s))"

definition lazy_call :: "client_config \<Rightarrow> (client_error \<Rightarrow> jstr) \<Rightarrow> jstr \<Rightarrow> jstr \<Rightarrow> jstr \<Rightarrow> jsval \<Rightarrow> lazy_state
    \<Rightarrow> mcp_result \<times> lazy_state" where
  "lazy_call cfg explain now callId name args s =
     (case (if name = js ''glyph_index'' then
              and_then (ensureIndex cfg) (\<lambda>_ t. (Inr (mcp_text (index_text (lz_cards t))), t)) s
            else if name = js ''glyph_describe'' then lazy_describe cfg args s
            else if name = js ''glyph_invoke'' then lazy_invoke cfg now callId args s
            else (Inr (mcp_refusal (js ''unknown meta-tool: '' @ name)), s)) of
        (Inl e, t) \<Rightarrow> (mcp_refusal (js ''lazy bridge error: '' @ explain e), t)
      | (Inr r, t) \<Rightarrow> (r, t))"

section \<open>No tool that needs a confirmation is called\<close>

text \<open>Steps of a bridge that only read: its client sends GETs and its stores stay consistent.\<close>

definition bridge_reads :: "client_state \<Rightarrow> client_state \<Rightarrow> bool" where
  "bridge_reads c d \<longleftrightarrow> stores_ok d \<and> gets_only (cl_requests c) (cl_requests d)"

lemma bridge_reads_refl: "stores_ok c \<Longrightarrow> bridge_reads c c"
  by (simp add: bridge_reads_def)

lemma bridge_reads_trans: "bridge_reads a b \<Longrightarrow> bridge_reads b c \<Longrightarrow> bridge_reads a c"
  by (auto simp: bridge_reads_def intro: gets_only_trans)

lemma reader_bridge_reads: "reader m \<Longrightarrow> stores_ok c \<Longrightarrow> m c = (r, d) \<Longrightarrow> bridge_reads c d"
  using readerD [of m c r d] reads_ok [of c d] readsD(4) [of c d] by (simp add: bridge_reads_def)

lemma reader_getLexicon: "reader (client_getLexicon cfg)"
  unfolding client_getLexicon_def by (rule reader_client_get)

text \<open>The alias table: the safe name of every loaded glyph, and of nothing else, leads back to it.\<close>

definition names_ok :: "(jstr, glyph_card) omap \<Rightarrow> (jstr, jstr) omap \<Rightarrow> bool" where
  "names_ok cards aliases \<longleftrightarrow>
     (\<forall>n c. map_of cards n = Some c \<longrightarrow> map_of aliases (sanitizeMcpName n) = Some n) \<and>
     (\<forall>a n. map_of aliases a = Some n \<longrightarrow> a = sanitizeMcpName n \<and> map_of cards n \<noteq> None)"

lemma names_ok_add:
  assumes "names_ok cards aliases" "map_of aliases (sanitizeMcpName n) = None"
  shows "names_ok (omap_set n c cards) (omap_set (sanitizeMcpName n) n aliases)"
proof -
  have A: "map_of aliases (sanitizeMcpName m) = Some m" if "map_of cards m = Some d" for m d
    using assms(1) that by (simp add: names_ok_def)
  have B: "a = sanitizeMcpName m \<and> map_of cards m \<noteq> None" if "map_of aliases a = Some m" for a m
    using assms(1) that by (simp add: names_ok_def)
  show ?thesis
    unfolding names_ok_def
  proof (intro conjI allI impI)
    fix m d assume "map_of (omap_set n c cards) m = Some d"
    then show "map_of (omap_set (sanitizeMcpName n) n aliases) (sanitizeMcpName m) = Some m"
      using A [of m d] assms(2) by (cases "m = n") (auto simp: store_laws)
  next
    fix a m assume "map_of (omap_set (sanitizeMcpName n) n aliases) a = Some m"
    then have "(a = sanitizeMcpName n \<and> m = n) \<or> map_of aliases a = Some m" by (auto simp: store_laws split: if_splits)
    then show "a = sanitizeMcpName m" "map_of (omap_set n c cards) m \<noteq> None"
      using B [of a m] by (auto simp: store_laws)
  qed
qed

lemma load_entries_ok:
  "load_entries cfg es cards aliases s = (r, t) \<Longrightarrow> stores_ok (br_client s) \<Longrightarrow> names_ok cards aliases \<Longrightarrow>
     bridge_reads (br_client s) (br_client t) \<and> br_cards t = br_cards s \<and> (\<forall>l. r = Inr l \<longrightarrow> names_ok (fst l) (snd l))"
proof (induction es arbitrary: cards aliases s)
  case Nil
  then show ?case by (auto simp: return_def bridge_reads_refl)
next
  case (Cons e es)
  obtain q d where q: "client_getCard cfg (lx_name e) (Some Rich) (br_client s) = (q, d)" by fastforce
  let ?s = "s\<lparr>br_client := d\<rparr>"
  have rd: "bridge_reads (br_client s) d" by (rule reader_bridge_reads [OF reader_getCard Cons.prems(2) q])
  show ?case
  proof (cases "\<exists>c. q = Inr c \<and> map_of aliases (sanitizeMcpName (lx_name e)) = None")
    case False
    then have "t = ?s \<and> (\<exists>x. r = Inl x)"
      using Cons.prems(1) q by (cases q) (auto simp: and_then_def on_client_def throw_def Let_def split: option.splits)
    then show ?thesis using rd by auto
  next
    case True
    then obtain c where c: "q = Inr c" "map_of aliases (sanitizeMcpName (lx_name e)) = None" by blast
    then have l: "load_entries cfg es (omap_set (lx_name e) c cards) (omap_set (sanitizeMcpName (lx_name e)) (lx_name e) aliases) ?s = (r, t)"
      using Cons.prems(1) q by (simp add: and_then_def on_client_def Let_def)
    have "stores_ok (br_client ?s)" using rd by (simp add: bridge_reads_def)
    from Cons.IH [OF l this names_ok_add [OF Cons.prems(3) c(2)]] rd bridge_reads_trans show ?thesis by auto
  qed
qed

definition bridge_ok :: "bridge_state \<Rightarrow> bool" where
  "bridge_ok s \<longleftrightarrow> stores_ok (br_client s) \<and> (case br_cards s of None \<Rightarrow> True | Some l \<Rightarrow> names_ok (fst l) (snd l))"

lemma loadCards_ok:
  assumes "loadCards cfg cache s = (r, t)" "bridge_ok s"
  shows "bridge_reads (br_client s) (br_client t) \<and> bridge_ok t \<and> (\<forall>l. r = Inr l \<longrightarrow> br_cards t = Some l)"
proof (cases "br_cards s \<noteq> None \<and> cache \<noteq> Some False")
  case True
  then have "(r, t) = (Inr (the (br_cards s)), s)" using assms(1) by (auto simp: loadCards_def)
  then show ?thesis using True assms(2) by (auto simp: bridge_ok_def bridge_reads_refl)
next
  case False
  then have m: "and_then (on_client (client_getLexicon cfg)) (\<lambda>lexicon.
      and_then (load_entries cfg lexicon [] []) (\<lambda>loaded t. (Inr loaded, t\<lparr>br_cards := Some loaded\<rparr>))) s = (r, t)"
    using assms(1) by (auto simp: loadCards_def split: option.splits if_splits)
  obtain q d where q: "client_getLexicon cfg (br_client s) = (q, d)" by fastforce
  have ok: "stores_ok (br_client s)" using assms(2) by (simp add: bridge_ok_def)
  have rd: "bridge_reads (br_client s) d" by (rule reader_bridge_reads [OF reader_getLexicon ok q])
  let ?s = "s\<lparr>br_client := d\<rparr>"
  show ?thesis
  proof (cases q)
    case (Inl e)
    then have "t = ?s \<and> (\<exists>x. r = Inl x)" using m q by (auto simp: and_then_def on_client_def)
    then show ?thesis using rd assms(2) by (auto simp: bridge_ok_def bridge_reads_def)
  next
    case (Inr lexicon)
    obtain x u where u: "load_entries cfg lexicon [] [] ?s = (x, u)" by fastforce
    have "stores_ok (br_client ?s)" "names_ok [] []" using rd by (simp_all add: bridge_reads_def names_ok_def)
    from load_entries_ok [OF u this] have l: "bridge_reads d (br_client u)" "br_cards u = br_cards s"
      "\<forall>l. x = Inr l \<longrightarrow> names_ok (fst l) (snd l)" by simp_all
    have "(case x of Inl e \<Rightarrow> r = Inl e \<and> t = u | Inr l \<Rightarrow> r = Inr l \<and> t = u\<lparr>br_cards := Some l\<rparr>)"
      using m q Inr u by (cases x) (auto simp: and_then_def on_client_def)
    then show ?thesis using l bridge_reads_trans [OF rd l(1)] assms(2)
      by (cases x) (auto simp: bridge_ok_def bridge_reads_def)
  qed
qed


lemma index_entries_ok:
  "index_entries cfg es s = (r, t) \<Longrightarrow> stores_ok (lz_client s) \<Longrightarrow> bridge_reads (lz_client s) (lz_client t)"
proof (induction es arbitrary: s)
  case (Cons e es)
  obtain q d where q: "client_getCard cfg (lx_name e) (Some Rich) (lz_client s) = (q, d)" by fastforce
  have rd: "bridge_reads (lz_client s) d" by (rule reader_bridge_reads [OF reader_getCard Cons.prems(2) q])
  show ?case
  proof (cases q)
    case (Inl e)
    then show ?thesis using Cons.prems(1) q rd by (auto simp: and_then_def lazily_def)
  next
    case (Inr c)
    then have "index_entries cfg es (s\<lparr>lz_client := d, lz_cards := omap_set (lx_name e) c (lz_cards s)\<rparr>) = (r, t)"
      using Cons.prems(1) q by (simp add: and_then_def lazily_def)
    from Cons.IH [OF this] rd show ?thesis by (auto simp: bridge_reads_def intro: gets_only_trans)
  qed
qed (auto simp: bridge_reads_refl)

lemma ensureIndex_ok:
  assumes "ensureIndex cfg s = (r, t)" "stores_ok (lz_client s)"
  shows "bridge_reads (lz_client s) (lz_client t)"
proof (cases "lz_indexLoaded s")
  case True
  then show ?thesis using assms by (simp add: ensureIndex_def bridge_reads_refl)
next
  case False
  obtain q d where q: "client_getLexicon cfg (lz_client s) = (q, d)" by fastforce
  have rd: "bridge_reads (lz_client s) d" by (rule reader_bridge_reads [OF reader_getLexicon assms(2) q])
  show ?thesis
  proof (cases q)
    case (Inl e)
    then show ?thesis using assms(1) False q rd by (auto simp: ensureIndex_def and_then_def lazily_def)
  next
    case (Inr lexicon)
    then have "index_entries cfg lexicon (s\<lparr>lz_client := d\<rparr>) = (r, t)"
      using assms(1) False q by (simp add: ensureIndex_def and_then_def lazily_def)
    from index_entries_ok [OF this] rd show ?thesis by (auto simp: bridge_reads_def intro: gets_only_trans)
  qed
qed

text \<open>
  The lazy bridge keeps the same promise: a request that sends anything but GETs is a
  \<open>glyph_invoke\<close> of a loaded glyph whose card requires no confirmation.
\<close>

theorem lazy_never_confirms:
  assumes "stores_ok (lz_client s)" "lazy_call cfg explain now callId name args s = (r, t)"
    and "\<not> gets_only (cl_requests (lz_client s)) (cl_requests (lz_client t))"
  shows "name = js ''glyph_invoke'' \<and> (\<exists>n c. js_member_opt args (js ''name'') = JStr n \<and>
    map_of (lz_cards t) n = Some c \<and> \<not> co_requiresConfirmation (gc_cost c))"
proof -
  obtain q u where q: "ensureIndex cfg s = (q, u)" by fastforce
  have rd: "bridge_reads (lz_client s) (lz_client u)" by (rule ensureIndex_ok [OF q assms(1)])
  then have g: "gets_only (cl_requests (lz_client s)) (cl_requests (lz_client u))" by (simp add: bridge_reads_def)
  have quiet: "t \<in> {s, u}" if "name \<noteq> js ''glyph_invoke''"
    using assms(2) that q by (cases q) (auto simp: lazy_call_def lazy_describe_def and_then_def Let_def
        split: if_splits option.splits)
  have i: "name = js ''glyph_invoke''"
  proof (rule ccontr)
    assume "name \<noteq> js ''glyph_invoke''"
    from quiet [OF this] g assms(3) show False by auto
  qed
  let ?p = "nullish_or args (JObj [])"
  have m: "js_member_opt ?p (js ''name'') = js_member_opt args (js ''name'')"
    by (cases args) (auto simp: nullish_or_def js_member_opt_def own_value_def)
  show ?thesis
  proof (cases "\<exists>n c. js_member_opt args (js ''name'') = JStr n \<and> map_of (lz_cards u) n = Some c \<and>
      \<not> co_requiresConfirmation (gc_cost c) \<and> q = Inr ()")
    case False
    then have "t = u"
      using assms(2) i q by (cases q) (auto simp: lazy_call_def lazy_invoke_def and_then_def Let_def m card_of_def
          split: if_splits option.splits jsval.splits)
    with g assms(3) show ?thesis by simp
  next
    case True
    then obtain n c where n: "js_member_opt args (js ''name'') = JStr n" "map_of (lz_cards u) n = Some c"
      "\<not> co_requiresConfirmation (gc_cost c)" "q = Inr ()" by blast
    then have "lz_cards t = lz_cards u"
      using assms(2) i q by (auto simp: lazy_call_def lazy_invoke_def and_then_def Let_def m card_of_def lazily_def return_def
          split: if_splits prod.splits sum.splits)
    with n i show ?thesis by auto
  qed
qed

end
