(* ===== verification/Bridge_Examples.thy ===== *)
theory Bridge_Examples
  imports Mcp_Bridge System
begin

text \<open>The two bridges in front of the client of \<open>System\<close>, with one loaded glyph.\<close>

definition loaded_bridge :: bridge_state where
  "loaded_bridge = \<lparr>br_client = pinning_client,
     br_cards = Some ([(js ''wipe'', pinned_card)], [(js ''wipe'', js ''wipe'')])\<rparr>"

lemma safe_wipe: "sanitizeMcpName (js ''wipe'') = js ''wipe''"
  by (simp add: sanitizeMcpName_def js_def uc_def is_alnum_unit_def is_lower_unit_def)

lemma loaded_bridge_ok: "bridge_ok loaded_bridge"
  using pinning_client_ok by (simp add: bridge_ok_def loaded_bridge_def names_ok_def safe_wipe)

lemma pinned_confirmation [simp]: "\<not> co_requiresConfirmation (gc_cost pinned_card)"
  by (simp add: pinned_card_def)

lemma pinning_requests [simp]: "cl_requests pinning_client = []"
  by (simp add: pinning_client_def)


definition loaded_lazy :: lazy_state where
  "loaded_lazy = \<lparr>lz_client = pinning_client, lz_cards = [(js ''wipe'', pinned_card)], lz_indexLoaded = True\<rparr>"

theorem lazy_never_confirms_witness:
  "\<exists>r t c. lazy_call pinning_cfg (\<lambda>_. []) (js ''n'') (js ''c'') (js ''glyph_invoke'') (JObj [(js ''name'', jlit ''wipe'')]) loaded_lazy
     = (r, t) \<and> \<not> mx_isError r \<and> map_of (lz_cards t) (js ''wipe'') = Some c \<and> \<not> co_requiresConfirmation (gc_cost c)"
proof -
  let ?args = "JObj [(js ''name'', jlit ''wipe'')]"
  from pinning_call [of "JObj []"] obtain u q p where
    u: "client_call pinning_cfg (js ''n'') (js ''c'') (js ''wipe'') (JObj []) None pinning_client = (Inr plain_envelope, u)"
      "cl_requests u = [q, p]" "is_post p" by blast
  have a: "js_member_opt ?args (js ''name'') = jlit ''wipe''" "js_member_opt ?args (js ''arguments'') = JUndef"
    by (simp_all add: js_member_opt_def own_value_def)
  have c: "lazy_call pinning_cfg (\<lambda>_. []) (js ''n'') (js ''c'') (js ''glyph_invoke'') ?args loaded_lazy
      = (lazy_envelopeToMcpResult plain_envelope, loaded_lazy\<lparr>lz_client := u\<rparr>)"
    using u(1) by (simp add: lazy_call_def lazy_invoke_def ensureIndex_def and_then_def loaded_lazy_def Let_def
        nullish_or_def a card_of_def lazily_def return_def)
  have s: "stores_ok (lz_client loaded_lazy)" by (simp add: loaded_lazy_def pinning_client_ok)
  have "\<not> gets_only (cl_requests (lz_client loaded_lazy)) (cl_requests (lz_client (loaded_lazy\<lparr>lz_client := u\<rparr>)))"
    using u(2,3) by (simp add: gets_only_def loaded_lazy_def)
  from lazy_never_confirms [OF s c this] c a(1) show ?thesis
    by (auto simp: lazy_envelopeToMcpResult_def)
qed

end
