(* ===== verification/Openapi.thy ===== *)
theory Openapi
  imports Adapters Uri
begin

text \<open>
  The import of \<open>packages/adapters/openapi/src/index.ts\<close>: from an OpenAPI document to glyphs. The
  document is the parsed JSON value; its parts are read as the code reads them, and have the
  types \<open>openapi-types.ts\<close> declares. The parser of URLs (\<open>new URL\<close>) is a parameter. A pointer
  segment that names a property of \<open>Object.prototype\<close> is not modelled.
\<close>

abbreviation field :: "jsval \<Rightarrow> string \<Rightarrow> jsval" where
  "field v k \<equiv> js_member_opt v (js k)"

section \<open>References\<close>

fun js_property :: "jsval \<Rightarrow> jstr \<Rightarrow> jsval" where
  "js_property (JObj kvs) k = own_value kvs k"
| "js_property (JArr vs) k =
     (if is_array_index k \<and> digits_value k < length vs then vs ! digits_value k
      else if k = js ''length'' then JNum (int (length vs)) else JUndef)"
| "js_property _ k = JUndef"

text \<open>\<open>s.replace(/ab/g, c)\<close>\<close>

fun replace_two :: "16 word \<Rightarrow> 16 word \<Rightarrow> 16 word \<Rightarrow> jstr \<Rightarrow> jstr" where
  "replace_two a b c (u # w # s) =
     (if u = a \<and> w = b then c # replace_two a b c s else u # replace_two a b c (w # s))"
| "replace_two a b c s = s"

definition pointer_key :: "jstr \<Rightarrow> jstr" where
  "pointer_key part =
     replace_two (uc CHR ''~'') (uc CHR ''0'') (uc CHR ''~'') (replace_two (uc CHR ''~'') (uc CHR ''1'') (uc CHR ''/'') part)"

definition pointerLookup :: "jsval \<Rightarrow> jstr \<Rightarrow> jsval" where
  "pointerLookup doc ref =
     (case strip_prefix (js ''#/'') ref of
        None \<Rightarrow> JUndef
      | Some path \<Rightarrow> foldl (\<lambda>current part. js_property current (pointer_key part)) doc (split_all path))"

text \<open>\<open>typeof node.$ref === 'string'\<close>, and all such strings of a value.\<close>

definition string_ref :: "(jstr \<times> jsval) list \<Rightarrow> jstr option" where
  "string_ref kvs = (case own_value kvs (js ''$ref'') of JStr r \<Rightarrow> Some r | _ \<Rightarrow> None)"

fun refs_of :: "jsval \<Rightarrow> jstr list" where
  "refs_of (JArr vs) = concat (map refs_of vs)"
| "refs_of (JObj kvs) =
     (case string_ref kvs of Some r \<Rightarrow> [r] | None \<Rightarrow> []) @ concat (map (\<lambda>(k, v). refs_of v) kvs)"
| "refs_of v = []"

lemma refs_of_own: "r \<in> set (refs_of (own_value kvs k)) \<Longrightarrow> r \<in> set (refs_of (JObj kvs))"
  by (auto simp: own_value_def dest!: map_of_SomeD split: option.splits)

lemma refs_of_property: "r \<in> set (refs_of (js_property v k)) \<Longrightarrow> r \<in> set (refs_of v)"
  using refs_of_own by (cases v) (auto split: if_splits simp del: refs_of.simps(2) intro: bexI [OF _ nth_mem])

lemma refs_of_pointer: "r \<in> set (refs_of (pointerLookup doc ref)) \<Longrightarrow> r \<in> set (refs_of doc)"
proof -
  have "r \<in> set (refs_of (foldl (\<lambda>current part. js_property current (pointer_key part)) v ps)) \<Longrightarrow> r \<in> set (refs_of v)" for v ps
    by (induction ps arbitrary: v) (auto dest: refs_of_property)
  then show "r \<in> set (refs_of (pointerLookup doc ref)) \<Longrightarrow> r \<in> set (refs_of doc)"
    by (auto simp: pointerLookup_def split: option.splits)
qed

text \<open>The references that may still be followed: those of the node and the document not seen yet.\<close>

definition open_refs :: "jsval \<Rightarrow> jsval \<Rightarrow> jstr list \<Rightarrow> jstr set" where
  "open_refs node doc seen = (set (refs_of node) \<union> set (refs_of doc)) - set seen"

lemma open_refs_child:
  "set (refs_of child) \<subseteq> set (refs_of node) \<Longrightarrow> card (open_refs child doc seen) \<le> card (open_refs node doc seen)"
  by (rule card_mono) (auto simp: open_refs_def)

lemma open_refs_follow:
  assumes "string_ref kvs = Some r" "r \<notin> set seen"
  shows "card (open_refs (pointerLookup doc r) doc (seen @ [r])) < card (open_refs (JObj kvs) doc seen)"
proof (rule psubset_card_mono)
  have "r \<in> open_refs (JObj kvs) doc seen" using assms by (simp add: open_refs_def)
  moreover have "r \<notin> open_refs (pointerLookup doc r) doc (seen @ [r])" by (simp add: open_refs_def)
  moreover have "open_refs (pointerLookup doc r) doc (seen @ [r]) \<subseteq> open_refs (JObj kvs) doc seen"
    using refs_of_pointer by (auto simp: open_refs_def)
  ultimately show "open_refs (pointerLookup doc r) doc (seen @ [r]) \<subset> open_refs (JObj kvs) doc seen" by blast
qed (simp add: open_refs_def del: refs_of.simps)

definition refs_measure :: "((jsval \<times> jsval \<times> jstr list) \<times> (jsval \<times> jsval \<times> jstr list)) set" where
  "refs_measure = measures [\<lambda>(node, doc, seen). card (open_refs node doc seen), \<lambda>(node, doc, seen). size node]"

lemma wf_refs_measure: "wf refs_measure"
  by (simp add: refs_measure_def)

lemma refs_measure_child:
  assumes "set (refs_of child) \<subseteq> set (refs_of node)" "size child < size node"
  shows "((child, doc, seen), (node, doc, seen)) \<in> refs_measure"
  using open_refs_child [OF assms(1), of doc seen] assms(2) by (auto simp: refs_measure_def)

lemma refs_measure_follow:
  assumes "string_ref kvs = Some r" "r \<notin> set seen"
  shows "((pointerLookup doc r, doc, seen @ [r]), (JObj kvs, doc, seen)) \<in> refs_measure"
  using open_refs_follow [OF assms, of doc] by (simp add: refs_measure_def del: refs_of.simps)

lemma refs_measure_item: "v \<in> set vs \<Longrightarrow> ((v, doc, seen), (JArr vs, doc, seen)) \<in> refs_measure"
  by (rule refs_measure_child) (auto simp: less_Suc_eq_le intro: size_list_estimation')

lemma refs_measure_entry: "(k, v) \<in> set kvs \<Longrightarrow> ((v, doc, seen), (JObj kvs, doc, seen)) \<in> refs_measure"
  using size_js_entries [of k v "JObj kvs"] by (intro refs_measure_child) auto

function (sequential) resolveRefs :: "jsval \<Rightarrow> jsval \<Rightarrow> jstr list \<Rightarrow> jsval" where
  "resolveRefs (JArr vs) doc seen = JArr (map (\<lambda>v. resolveRefs v doc seen) vs)"
| "resolveRefs (JObj kvs) doc seen =
     (case string_ref kvs of
        Some ref \<Rightarrow>
          if ref \<in> set seen \<or> pointerLookup doc ref = JUndef then JObj []
          else resolveRefs (pointerLookup doc ref) doc (seen @ [ref])
      | None \<Rightarrow> JObj (js_assign_all (map (\<lambda>(k, v). (k, resolveRefs v doc seen)) kvs) []))"
| "resolveRefs v doc seen = v"
  by pat_completeness auto
termination
  by (relation refs_measure)
    (auto simp: wf_refs_measure intro: refs_measure_item refs_measure_entry refs_measure_follow)

section \<open>Operations\<close>

datatype http_method = Http_Get | Http_Post | Http_Put | Http_Patch | Http_Delete

definition HTTP_METHODS :: "http_method list" where
  "HTTP_METHODS = [Http_Get, Http_Post, Http_Put, Http_Patch, Http_Delete]"

fun method_str :: "http_method \<Rightarrow> string" where
  "method_str Http_Get = ''get''"
| "method_str Http_Post = ''post''"
| "method_str Http_Put = ''put''"
| "method_str Http_Patch = ''patch''"
| "method_str Http_Delete = ''delete''"

fun method_upper :: "http_method \<Rightarrow> string" where
  "method_upper Http_Get = ''GET''"
| "method_upper Http_Post = ''POST''"
| "method_upper Http_Put = ''PUT''"
| "method_upper Http_Patch = ''PATCH''"
| "method_upper Http_Delete = ''DELETE''"

text \<open>The operations of a document in the order of the two loops.\<close>

definition operations :: "jsval \<Rightarrow> (jstr \<times> http_method \<times> jsval) list" where
  "operations doc =
     concat (map (\<lambda>(path, item).
        map (\<lambda>m. (path, m, field item (method_str m))) (filter (\<lambda>m. js_truthy (field item (method_str m))) HTTP_METHODS))
       (js_entries (field doc ''paths'')))"

datatype openapi_error =
    No_Document_Server
  | Host_Not_Allowed jstr
  | Document_Server_Refused
  | No_Base_Url
  | Invalid_Risk jstr
  | Bad_Output_Schema compile_error

text \<open>\<open>RISK_TIERS\<close>\<close>

definition tier_of :: "jsval \<Rightarrow> risk_tier option" where
  "tier_of v = find (\<lambda>t. v = JStr (risk_str t)) [Safe, Caution, Danger]"

definition openapi_deriveCost :: "http_method \<Rightarrow> jsval \<Rightarrow> openapi_error + glyph_cost" where
  "openapi_deriveCost m op =
     (let isRead = (m = Http_Get);
          derivedTier = (if m = Http_Delete then Danger else if isRead then Safe else Caution);
          override = field op ''x-glyph-risk'';
          cost = (\<lambda>riskTier. Inr \<lparr>co_latency = Medium, co_sideEffects = \<not> isRead, co_reversible = isRead,
                   co_riskTier = riskTier, co_requiresConfirmation = (riskTier = Danger)\<rparr>)
      in if override = JUndef \<or> override = JNull then cost derivedTier
         else case tier_of override of
           None \<Rightarrow> Inl (Invalid_Risk (js_to_string override))
         | Some riskTier \<Rightarrow> cost riskTier)"

definition operationName :: "http_method \<Rightarrow> jstr \<Rightarrow> jsval \<Rightarrow> jstr" where
  "operationName m path op =
     (if js_truthy (field op ''operationId'') then toKebab (js_to_string (field op ''operationId''))
      else toKebab (js (method_str m) @ js ''-'' @ filter (\<lambda>u. u \<noteq> uc CHR ''{'' \<and> u \<noteq> uc CHR ''}'') path))"

section \<open>Schemas\<close>

definition op_parameters :: "jsval \<Rightarrow> jsval list" where
  "op_parameters op = array_items (nullish_or (field op ''parameters'') (JArr []))"

text \<open>A property key is the name as a string.\<close>

definition param_key :: "jsval \<Rightarrow> jstr" where
  "param_key p = js_to_string (field p ''name'')"

definition body_schema :: "jsval \<Rightarrow> jsval" where
  "body_schema op = field (js_member_opt (field (field op ''requestBody'') ''content'') (js ''application/json'')) ''schema''"

definition buildInputSchema :: "jsval \<Rightarrow> jsval \<Rightarrow> jsval" where
  "buildInputSchema op doc =
     (let params = op_parameters op; bodySchema = body_schema op;
          properties = js_assign_all (map (\<lambda>p. (param_key p, resolveRefs (nullish_or (field p ''schema'') (JObj [])) doc [])) params) [];
          needed = map (\<lambda>p. field p ''name'') (filter (\<lambda>p. js_truthy (field p ''required'')) params)
      in JObj [(js ''type'', jlit ''object''),
               (js ''properties'', JObj (if js_truthy bodySchema
                  then js_assign (js ''body'') (resolveRefs bodySchema doc []) properties else properties)),
               (js ''required'', JArr (if js_truthy bodySchema \<and> js_truthy (field (field op ''requestBody'') ''required'')
                  then needed @ [jlit ''body''] else needed))])"

definition buildOutputSchema :: "jsval \<Rightarrow> jsval \<Rightarrow> jsval" where
  "buildOutputSchema op doc =
     (let responses = nullish_or (field op ''responses'') (JObj []) in
      case find (\<lambda>(k, r). strip_prefix (js ''2'') k \<noteq> None) (js_entries responses) of
        None \<Rightarrow> JObj []
      | Some (k, r) \<Rightarrow>
          let schema = field (js_member_opt (field r ''content'') (js ''application/json'')) ''schema'' in
          if js_truthy schema then resolveRefs schema doc [] else JObj [])"

definition openapi_buildZodInput :: "jsval \<Rightarrow> jsval \<Rightarrow> zod" where
  "openapi_buildZodInput op doc =
     (let shape = js_assign_all (map (\<lambda>p.
            (param_key p, (\<not> js_truthy (field p ''required''),
               jsonTypeToZod (if js_truthy (field p ''schema'') then resolveRefs (field p ''schema'') doc [] else JUndef))))
            (op_parameters op)) [];
          bodySchema = body_schema op; requestBody = field op ''requestBody'';
          body = (if js_truthy bodySchema then jsonTypeToZod (resolveRefs bodySchema doc []) else Z_Unknown)
      in Z_Object (if js_truthy requestBody
           then js_assign (js ''body'') (\<not> js_truthy (field requestBody ''required''), body) shape else shape))"

section \<open>The base URL\<close>

datatype credential = Bearer_Token jstr | Basic_Auth jstr jstr | Api_Key jstr

record openapi_options =
  oo_baseUrl :: "jstr option"
  oo_provider :: "jstr option"
  oo_validateOutput :: "bool option"
  oo_credentials :: "(jstr, credential) omap option"
  oo_allowDocumentServerUrl :: "bool option"
  oo_allowedHosts :: "jstr list option"

definition document_server :: "jsval \<Rightarrow> jsval" where
  "document_server doc = field (case field doc ''servers'' of JArr (s # ss) \<Rightarrow> s | _ \<Rightarrow> JUndef) ''url''"

text \<open>\<open>hostname\<close> is \<open>new URL(url).hostname\<close>, \<open>None\<close> when the URL does not parse.\<close>

definition extractHost :: "(jstr \<Rightarrow> jstr option) \<Rightarrow> jstr \<Rightarrow> jstr" where
  "extractHost hostname url = default_to [] (hostname url)"

definition openapi_base :: "(jstr \<Rightarrow> jstr option) \<Rightarrow> jsval \<Rightarrow> openapi_options \<Rightarrow> openapi_error + jstr" where
  "openapi_base hostname doc opts =
     (let documentServerUrl = document_server doc; url = js_to_string documentServerUrl;
          hosts = default_to [] (oo_allowedHosts opts) in
      if truthy (oo_baseUrl opts) then Inr (the (oo_baseUrl opts))
      else if default_to False (oo_allowDocumentServerUrl opts) then
        if \<not> js_truthy documentServerUrl then Inl No_Document_Server
        else if hosts \<noteq> [] \<and> extractHost hostname url \<notin> set hosts then Inl (Host_Not_Allowed (extractHost hostname url))
        else Inr url
      else if js_truthy documentServerUrl then Inl Document_Server_Refused
      else Inl No_Base_Url)"

end
