(* ===== verification/Openapi_Request.thy ===== *)
theory Openapi_Request
  imports Openapi "HOL-Library.Sublist"
begin

text \<open>
  The handler of an imported operation (\<open>packages/adapters/openapi/src/index.ts\<close>): the request it
  builds from its input and the operator's credentials, and what it makes of the response.
  \<open>fetch\<close> is a parameter: a rejection or a response with its text.
\<close>

section \<open>Building the request\<close>

record request_parts =
  rp_url :: jstr
  rp_query :: url_params
  rp_headers :: "(jstr \<times> jstr) list"
  rp_cookies :: "jstr list"

text \<open>
  \<open>s.replace(pattern, text)\<close> with a string pattern: the first occurrence. The texts put in come
  from \<open>encodeURIComponent\<close>, which leaves no \<open>$\<close>.
\<close>

fun replace_first :: "jstr \<Rightarrow> jstr \<Rightarrow> jstr \<Rightarrow> jstr" where
  "replace_first pat r [] = (if pat = [] then r else [])"
| "replace_first pat r (u # s) =
     (case strip_prefix pat (u # s) of Some rest \<Rightarrow> r @ rest | None \<Rightarrow> u # replace_first pat r s)"

definition brace :: "jstr \<Rightarrow> jstr" where
  "brace name = js ''{'' @ name @ js ''}''"

definition appendQuery :: "url_params \<Rightarrow> jsval \<Rightarrow> jsval \<Rightarrow> url_params" where
  "appendQuery query param value =
     (case value of
        JArr items \<Rightarrow> foldl (\<lambda>q item. params_append (param_key param) (js_to_string item) q) query items
      | JObj kvs \<Rightarrow> foldl (\<lambda>q (k, v). params_append k (js_to_string v) q) query kvs
      | _ \<Rightarrow> params_append (param_key param) (js_to_string value) query)"

definition cookie_pair :: "jstr \<Rightarrow> jstr \<Rightarrow> jstr option" where
  "cookie_pair name value = map_option (\<lambda>e. name @ js ''='' @ e) (encodeURIComponent value)"

text \<open>One parameter; \<open>None\<close> is the \<open>URIError\<close> of a lone surrogate.\<close>

definition apply_param :: "jsval \<Rightarrow> jsval \<Rightarrow> request_parts \<Rightarrow> request_parts option" where
  "apply_param input param parts =
     (let name = param_key param; value = js_member_opt input name; place = field param ''in'' in
      if value = JUndef then Some parts
      else if place = jlit ''path'' then
        map_option (\<lambda>e. parts\<lparr>rp_url := replace_first (brace name) e (rp_url parts)\<rparr>) (encodeURIComponent (js_to_string value))
      else if place = jlit ''query'' then Some (parts\<lparr>rp_query := appendQuery (rp_query parts) param value\<rparr>)
      else if place = jlit ''header'' then Some (parts\<lparr>rp_headers := js_assign name (js_to_string value) (rp_headers parts)\<rparr>)
      else if place = jlit ''cookie'' then
        map_option (\<lambda>c. parts\<lparr>rp_cookies := rp_cookies parts @ [c]\<rparr>) (cookie_pair name (js_to_string value))
      else Some parts)"

fun each_or_throw :: "('a \<Rightarrow> 's \<Rightarrow> 's option) \<Rightarrow> 'a list \<Rightarrow> 's \<Rightarrow> 's option" where
  "each_or_throw f [] s = Some s"
| "each_or_throw f (x # xs) s = (case f x s of None \<Rightarrow> None | Some t \<Rightarrow> each_or_throw f xs t)"

section \<open>Security schemes\<close>

record security_context =
  sx_securitySchemes :: jsval
  sx_documentSecurity :: "jsval list"
  sx_credentials :: "(jstr, credential) omap"

text \<open>\<open>Buffer.from(s).toString('base64')\<close>\<close>

definition base64_unit :: "nat \<Rightarrow> 16 word" where
  "base64_unit n =
     (if n < 26 then of_nat (65 + n) else if n < 52 then of_nat (71 + n) else if n < 62 then of_nat (n - 4)
      else if n = 62 then 43 else 47)"

fun base64_text :: "nat list \<Rightarrow> jstr" where
  "base64_text [] = []"
| "base64_text [a] = [base64_unit (a div 4), base64_unit (a mod 4 * 16), 61, 61]"
| "base64_text [a, b] =
     [base64_unit (a div 4), base64_unit (a mod 4 * 16 + b div 16), base64_unit (b mod 16 * 4), 61]"
| "base64_text (a # b # c # bs) =
     base64_unit (a div 4) # base64_unit (a mod 4 * 16 + b div 16) # base64_unit (b mod 16 * 4 + c div 64) #
     base64_unit (c mod 64) # base64_text bs"

definition set_header :: "jstr \<Rightarrow> jstr \<Rightarrow> request_parts \<Rightarrow> request_parts" where
  "set_header k v parts = parts\<lparr>rp_headers := js_assign k v (rp_headers parts)\<rparr>"

definition apply_credential :: "jsval \<Rightarrow> credential \<Rightarrow> request_parts \<Rightarrow> request_parts option" where
  "apply_credential scheme credential parts =
     (let ty = field scheme ''type''; kind = field scheme ''scheme''; name = field scheme ''name'';
          place = field scheme ''in''; key = js_to_string name in
      if ty = jlit ''http'' \<and> kind = jlit ''bearer'' then
        Some (case credential of Bearer_Token t \<Rightarrow> set_header (js ''Authorization'') (js ''Bearer '' @ t) parts | _ \<Rightarrow> parts)
      else if ty = jlit ''http'' \<and> kind = jlit ''basic'' then
        Some (case credential of
            Basic_Auth u p \<Rightarrow> set_header (js ''Authorization'') (js ''Basic '' @ base64_text (utf8_bytes (u @ js '':'' @ p))) parts
          | _ \<Rightarrow> parts)
      else if ty = jlit ''apiKey'' \<and> js_truthy name then
        (case credential of
           Api_Key value \<Rightarrow>
             if value = [] then Some parts
             else if place = jlit ''header'' then Some (set_header key value parts)
             else if place = jlit ''query'' then Some (parts\<lparr>rp_query := params_set key value (rp_query parts)\<rparr>)
             else if place = jlit ''cookie'' then
               map_option (\<lambda>c. parts\<lparr>rp_cookies := rp_cookies parts @ [c]\<rparr>) (cookie_pair key value)
             else Some parts
         | _ \<Rightarrow> Some parts)
      else Some parts)"

definition apply_scheme :: "security_context \<Rightarrow> jstr \<Rightarrow> request_parts \<Rightarrow> request_parts option" where
  "apply_scheme ctx schemeName parts =
     (let scheme = js_member_opt (sx_securitySchemes ctx) schemeName in
      case map_of (sx_credentials ctx) schemeName of
        None \<Rightarrow> Some parts
      | Some credential \<Rightarrow> if \<not> js_truthy scheme then Some parts else apply_credential scheme credential parts)"

text \<open>The scheme names of a list of requirements, in the order of the two loops.\<close>

definition scheme_names :: "jsval list \<Rightarrow> jstr list" where
  "scheme_names requirements = concat (map (\<lambda>r. map fst (js_entries r)) requirements)"

definition applySecurity :: "jsval list \<Rightarrow> security_context \<Rightarrow> request_parts \<Rightarrow> request_parts option" where
  "applySecurity requirements ctx parts = each_or_throw (apply_scheme ctx) (scheme_names requirements) parts"

definition effective_security :: "jsval \<Rightarrow> security_context \<Rightarrow> jsval list" where
  "effective_security op ctx =
     (let own = field op ''security'' in if own = JUndef \<or> own = JNull then sx_documentSecurity ctx else array_items own)"

section \<open>The request\<close>

record http_out =
  ho_url :: jstr
  ho_method :: jstr
  ho_headers :: "(jstr \<times> jstr) list"
  ho_body :: "jstr option"

definition request_parts_of :: "jstr \<Rightarrow> jsval \<Rightarrow> jstr \<Rightarrow> security_context \<Rightarrow> jsval \<Rightarrow> request_parts option" where
  "request_parts_of path op baseUrl ctx input =
     (case each_or_throw (apply_param input) (op_parameters op)
        \<lparr>rp_url = strip_slash baseUrl @ path, rp_query = [], rp_headers = [], rp_cookies = []\<rparr> of
        None \<Rightarrow> None
      | Some parts \<Rightarrow> applySecurity (effective_security op ctx) ctx parts)"

definition with_query :: "url_params \<Rightarrow> jstr \<Rightarrow> jstr" where
  "with_query ps url = (let qs = params_to_string ps in if qs \<noteq> [] then url @ js ''?'' @ qs else url)"

definition finish_request :: "http_method \<Rightarrow> jsval \<Rightarrow> jsval \<Rightarrow> request_parts \<Rightarrow> http_out" where
  "finish_request m op input parts =
     (let headers = (if rp_cookies parts \<noteq> []
            then js_assign (js ''Cookie'') (intercalate (js ''; '') (rp_cookies parts)) (rp_headers parts) else rp_headers parts);
          out = \<lparr>ho_url = with_query (rp_query parts) (rp_url parts), ho_method = js (method_upper m),
                 ho_headers = headers, ho_body = None\<rparr>
      in if js_truthy (field op ''requestBody'') \<and> field input ''body'' \<noteq> JUndef
         then out\<lparr>ho_headers := js_assign (js ''Content-Type'') (js ''application/json'') headers,
                  ho_body := json_stringify (field input ''body'')\<rparr>
         else out)"

definition openapi_request :: "http_method \<Rightarrow> jstr \<Rightarrow> jsval \<Rightarrow> jstr \<Rightarrow> security_context \<Rightarrow> jsval \<Rightarrow> http_out option" where
  "openapi_request m path op baseUrl ctx input =
     map_option (finish_request m op input) (request_parts_of path op baseUrl ctx input)"

section \<open>Redaction\<close>

definition SENSITIVE_PARAMS :: "jstr list" where
  "SENSITIVE_PARAMS = map js [''api_key'', ''apikey'', ''key'', ''token'', ''access_token'', ''secret'', ''password'', ''authorization'']"

definition is_sensitive :: "(jstr \<Rightarrow> jstr) \<Rightarrow> jstr list \<Rightarrow> jstr \<Rightarrow> bool" where
  "is_sensitive lower extra key \<longleftrightarrow> lower key \<in> set SENSITIVE_PARAMS \<or> lower key \<in> set (map lower extra)"

definition query_of :: "jstr \<Rightarrow> jstr" where
  "query_of url = tl (dropWhile (\<lambda>u. u \<noteq> uc CHR ''?'') url)"

definition redacted_pair :: "(jstr \<Rightarrow> jstr) \<Rightarrow> jstr list \<Rightarrow> jstr \<times> jstr \<Rightarrow> jstr \<times> jstr" where
  "redacted_pair lower extra p = (if is_sensitive lower extra (fst p) then (fst p, js ''***'') else p)"

definition redactUrl :: "(jstr \<Rightarrow> jstr) \<Rightarrow> jstr \<Rightarrow> jstr list \<Rightarrow> jstr" where
  "redactUrl lower url extra =
     (if uc CHR ''?'' \<notin> set url then url
      else
        let base = takeWhile (\<lambda>u. u \<noteq> uc CHR ''?'') url;
            params = params_parse (query_of url);
            qs = params_to_string (map (redacted_pair lower extra) params)
        in if \<not> list_ex (\<lambda>p. is_sensitive lower extra (fst p)) params then url
           else if qs \<noteq> [] then base @ js ''?'' @ qs else base)"

text \<open>\<open>querySchemeNames\<close>\<close>

definition query_scheme_names :: "jsval \<Rightarrow> jstr list" where
  "query_scheme_names schemes =
     map (\<lambda>(k, s). js_to_string (field s ''name''))
       (filter (\<lambda>(k, s). field s ''type'' = jlit ''apiKey'' \<and> field s ''in'' = jlit ''query'' \<and> js_truthy (field s ''name''))
         (js_entries schemes))"

section \<open>The response\<close>

record http_response =
  rs_ok :: bool
  rs_status :: int
  rs_contentType :: "jstr option"
  rs_text :: jstr

fun contains_text :: "jstr \<Rightarrow> jstr \<Rightarrow> bool" where
  "contains_text pat [] = (pat = [])"
| "contains_text pat (u # s) = (strip_prefix pat (u # s) \<noteq> None \<or> contains_text pat s)"

definition raw_response :: "jstr \<Rightarrow> jstr \<Rightarrow> jsval" where
  "raw_response text contentType = JObj [(js ''raw'', JStr text), (js ''contentType'', JStr contentType)]"

definition parseResponse :: "http_response \<Rightarrow> jsval" where
  "parseResponse res =
     (let contentType = default_to [] (rs_contentType res); text = rs_text res in
      if text = [] then JNull
      else if contentType = [] \<or> contains_text (js ''application/json'') contentType then
        (case json_parse text of
           Some v \<Rightarrow> v
         | None \<Rightarrow> if contentType \<noteq> [] then raw_response text contentType else JNull)
      else raw_response text contentType)"

definition http_error :: "(jstr \<Rightarrow> jstr) \<Rightarrow> security_context \<Rightarrow> http_out \<Rightarrow> http_response \<Rightarrow> jstr" where
  "http_error lower ctx q res =
     js ''HTTP '' @ int_dec (rs_status res) @ js '' from '' @ ho_method q @ js '' '' @
     redactUrl lower (ho_url q) (query_scheme_names (sx_securitySchemes ctx))"

definition openapi_handler ::
  "(jstr \<Rightarrow> jstr) \<Rightarrow> (http_out \<Rightarrow> jstr + http_response) \<Rightarrow> http_method \<Rightarrow> jstr \<Rightarrow> jsval \<Rightarrow> jstr \<Rightarrow> security_context
     \<Rightarrow> jsval \<Rightarrow> handler_result" where
  "openapi_handler lower fetch m path op baseUrl ctx input =
     (case openapi_request m path op baseUrl ctx input of
        None \<Rightarrow> Handler_Throws (js ''URI malformed'')
      | Some q \<Rightarrow>
          (case fetch q of
             Inl msg \<Rightarrow> Handler_Throws msg
           | Inr res \<Rightarrow> if rs_ok res then Handler_Returns (parseResponse res) else Handler_Throws (http_error lower ctx q res)))"

section \<open>Secrets stay out of error messages\<close>

lemma wf16_stars: "wf16 (js ''***'')"
  by (simp add: wf16_def js_def uc_def is_high_def scalar_def)

lemma query_of_append: "uc CHR ''?'' \<notin> set base \<Longrightarrow> query_of (base @ js ''?'' @ qs) = qs"
  by (induction base) (auto simp: query_of_def js_Cons)

lemma query_of_none: "uc CHR ''?'' \<notin> set url \<Longrightarrow> query_of url = []"
  by (induction url) (auto simp: query_of_def)

lemma params_parse_Nil [simp]: "params_parse [] = []"
  by (simp add: params_parse_def utf8_bytes_def)

lemma redactUrl_masks:
  assumes "(k, v) \<in> set (params_parse (query_of (redactUrl lower url extra)))" "is_sensitive lower extra k"
  shows "v = js ''***''"
proof (cases "uc CHR ''?'' \<in> set url \<and> list_ex (\<lambda>p. is_sensitive lower extra (fst p)) (params_parse (query_of url))")
  case False
  then have "redactUrl lower url extra = url" by (auto simp: redactUrl_def Let_def)
  then show ?thesis using assms False by (auto simp: query_of_none list_ex_iff)
next
  case True
  let ?ps = "map (redacted_pair lower extra) (params_parse (query_of url))"
  let ?base = "takeWhile (\<lambda>u. u \<noteq> uc CHR ''?'') url"
  have wf: "list_all (\<lambda>p. wf16 (fst p) \<and> wf16 (snd p)) ?ps"
    using params_parse_wf16 wf16_stars by (auto simp: list_all_iff redacted_pair_def)
  have "uc CHR ''?'' \<notin> set ?base" by (auto dest: set_takeWhileD)
  moreover have "params_to_string ?ps = [] \<Longrightarrow> ?ps = []" using params_parse_string [OF wf] by simp
  ultimately have "params_parse (query_of (redactUrl lower url extra)) = ?ps"
    using True params_parse_string [OF wf] by (auto simp: redactUrl_def Let_def query_of_append)
  then show ?thesis using assms by (auto simp: redacted_pair_def split: if_splits)
qed

text \<open>
  When the upstream API answers with an error, the message of the glyph names the method, the
  status and the URL with every secret masked: in the query of the URL it prints, each parameter
  that is a known secret or the name of one of the document's API keys has the value \<open>***\<close>.
\<close>

theorem openapi_error_redacted:
  assumes "openapi_request m path op baseUrl ctx input = Some q" "fetch q = Inr res" "\<not> rs_ok res"
  shows "\<exists>url. openapi_handler lower fetch m path op baseUrl ctx input =
      Handler_Throws (js ''HTTP '' @ int_dec (rs_status res) @ js '' from '' @ ho_method q @ js '' '' @ url) \<and>
    (\<forall>(k, v)\<in>set (params_parse (query_of url)).
      is_sensitive lower (query_scheme_names (sx_securitySchemes ctx)) k \<longrightarrow> v = js ''***'')"
  using assms redactUrl_masks by (auto simp: openapi_handler_def http_error_def)

section \<open>Requests stay on their base URL\<close>

text \<open>The characters that delimit the parts of a URL.\<close>

definition url_delimiter :: "16 word \<Rightarrow> bool" where
  "url_delimiter u \<longleftrightarrow> u \<in> {uc CHR ''/'', uc CHR ''?'', uc CHR ''#'', uc CHR ''{'', uc CHR 0x5C, uc CHR ''@'', uc CHR '':''}"

lemma url_delimiter_unat: "url_delimiter u \<longleftrightarrow> unat u \<in> {47, 63, 35, 123, 92, 64, 58}"
  by (auto simp: url_delimiter_def unat_uc word_unat_eq_iff)

lemma percent_plain: "b < 256 \<Longrightarrow> list_all (\<lambda>u. \<not> url_delimiter u) (percent b)"
proof -
  assume b: "b < 256"
  have h: "\<not> url_delimiter (hex_upper d)" if "d < 16" for d
    using hex_upper_unat [OF that] that by (auto simp: url_delimiter_unat)
  have "b div 16 < 16" "b mod 16 < 16" using b by (simp_all add: less_mult_imp_div_less)
  then show ?thesis using h by (simp add: percent_def url_delimiter_unat unat_uc)
qed

lemma encode_points_plain: "encode_points cps = Some e \<Longrightarrow> list_all (\<lambda>cp. cp < 1114112) cps \<Longrightarrow> list_all (\<lambda>u. \<not> url_delimiter u) e"
proof (induction cps arbitrary: e)
  case (Cons cp cps)
  show ?case
  proof (cases "uri_unreserved cp")
    case True
    then have "cp < 128 \<and> cp \<notin> {47, 63, 35, 123, 92, 64, 58}" by (auto simp: uri_unreserved_def)
    then have "\<not> url_delimiter (of_nat cp)" by (simp add: url_delimiter_unat unat16)
    then show ?thesis using Cons True by auto
  next
    case False
    then have cp: "\<not> (55296 \<le> cp \<and> cp < 57344)" using Cons.prems(1) by (auto split: if_splits)
    then have "scalar cp" using Cons.prems(2) by (auto simp: scalar_def)
    then have "list_all (\<lambda>u. \<not> url_delimiter u) (concat (map percent (utf8 cp)))"
      using utf8_byte_range percent_plain by (fastforce simp: list_all_iff)
    then show ?thesis using Cons False cp by auto
  qed
qed simp

lemma encodeURIComponent_plain: "encodeURIComponent s = Some e \<Longrightarrow> list_all (\<lambda>u. \<not> url_delimiter u) e"
  using encode_points_plain decode_bound by (simp add: encodeURIComponent_def)

abbreviation delimiters :: "jstr \<Rightarrow> jstr" where
  "delimiters s \<equiv> filter url_delimiter s"

lemma filter_plain: "list_all (\<lambda>u. \<not> P u) r \<Longrightarrow> filter P r = []"
  by (simp add: list_all_iff filter_empty_conv)

lemma replace_first_delimiters:
  "list_all (\<lambda>u. \<not> url_delimiter u) r \<Longrightarrow> subseq (delimiters (replace_first pat r s)) (delimiters s)"
proof (induction pat r s rule: replace_first.induct)
  case (2 pat r u s)
  show ?case
  proof (cases "strip_prefix pat (u # s)")
    case None
    then show ?thesis using 2 by simp
  next
    case (Some rest)
    then have "delimiters (u # s) = delimiters pat @ delimiters rest"
      by (simp only: strip_prefix_Some filter_append)
    then show ?thesis using Some filter_plain [OF 2(2)]
      by (simp add: list_emb_append2 del: filter.simps)
  qed
qed (simp add: filter_plain)

lemma replace_first_base:
  "uc CHR ''{'' \<notin> set base \<Longrightarrow> replace_first (brace name) r (base @ s) = base @ replace_first (brace name) r s"
  by (induction base) (auto simp: brace_def js_Cons split: option.splits)

text \<open>A request URL so far: the base, then a path with no more delimiters than the template's.\<close>

definition on_base :: "jstr \<Rightarrow> jstr \<Rightarrow> jstr \<Rightarrow> bool" where
  "on_base base path url \<longleftrightarrow> (\<exists>p. url = base @ p \<and> subseq (delimiters p) (delimiters path))"

lemma on_base_replace:
  assumes "on_base base path url" "uc CHR ''{'' \<notin> set base" "encodeURIComponent v = Some e"
  shows "on_base base path (replace_first (brace name) e url)"
proof -
  obtain p where p: "url = base @ p" "subseq (delimiters p) (delimiters path)" using assms(1) by (auto simp: on_base_def)
  have "subseq (delimiters (replace_first (brace name) e p)) (delimiters p)"
    by (rule replace_first_delimiters [OF encodeURIComponent_plain [OF assms(3)]])
  then have "subseq (delimiters (replace_first (brace name) e p)) (delimiters path)"
    using p(2) by (rule subseq_order.order_trans)
  then show ?thesis unfolding on_base_def p(1) replace_first_base [OF assms(2)] by blast
qed

lemma apply_param_on_base:
  assumes "apply_param input param parts = Some parts'" "on_base base path (rp_url parts)" "uc CHR ''{'' \<notin> set base"
  shows "on_base base path (rp_url parts')"
  using assms on_base_replace [OF assms(2,3)]
  by (auto simp: apply_param_def Let_def split: if_splits)

lemma each_or_throw_invariant:
  assumes "each_or_throw f xs s = Some t" "I s" "\<And>x s t. f x s = Some t \<Longrightarrow> I s \<Longrightarrow> I t"
  shows "I t"
  using assms(1,2)
proof (induction xs arbitrary: s)
  case (Cons x xs)
  then show ?case using assms(3) by (auto split: option.splits)
qed simp

lemma apply_scheme_url: "apply_scheme ctx n parts = Some parts' \<Longrightarrow> rp_url parts' = rp_url parts"
  by (auto simp: apply_scheme_def apply_credential_def set_header_def Let_def split: option.splits if_splits credential.splits)

lemma request_parts_on_base:
  assumes "request_parts_of path op baseUrl ctx input = Some parts" "uc CHR ''{'' \<notin> set baseUrl"
  shows "on_base (strip_slash baseUrl) path (rp_url parts)"
proof -
  let ?b = "strip_slash baseUrl"
  have b: "uc CHR ''{'' \<notin> set ?b" using assms(2) by (auto simp: strip_slash_def dest: in_set_butlastD)
  obtain q where q: "each_or_throw (apply_param input) (op_parameters op)
      \<lparr>rp_url = ?b @ path, rp_query = [], rp_headers = [], rp_cookies = []\<rparr> = Some q"
    and sec: "applySecurity (effective_security op ctx) ctx q = Some parts"
    using assms(1) by (auto simp: request_parts_of_def split: option.splits)
  have "on_base ?b path (rp_url q)"
    by (rule each_or_throw_invariant [OF q, of "\<lambda>p. on_base ?b path (rp_url p)"])
       (use b in \<open>auto simp: on_base_def [of _ _ "_ @ _"] intro: apply_param_on_base\<close>)
  moreover have "rp_url parts = rp_url q"
    using each_or_throw_invariant [OF sec [unfolded applySecurity_def], of "\<lambda>p. rp_url p = rp_url q"] apply_scheme_url by auto
  ultimately show ?thesis by simp
qed

text \<open>
  C25. Whatever its input, an imported operation calls the base URL it was imported for: its request
  goes to the base, then a path, then possibly a query. The values put into the path add none of
  the characters that delimit the parts of a URL: those of the path are a part of the template's.
\<close>

theorem openapi_stays_on_base:
  assumes "openapi_request m path op baseUrl ctx input = Some q" "uc CHR ''{'' \<notin> set baseUrl"
  shows "\<exists>p query. ho_url q = strip_slash baseUrl @ p @ query \<and> (query = [] \<or> hd query = uc CHR ''?'') \<and>
    subseq (filter url_delimiter p) (filter url_delimiter path)"
proof -
  obtain parts where parts: "request_parts_of path op baseUrl ctx input = Some parts"
    and q: "q = finish_request m op input parts" using assms(1) by (auto simp: openapi_request_def)
  obtain p where p: "rp_url parts = strip_slash baseUrl @ p" "subseq (delimiters p) (delimiters path)"
    using request_parts_on_base [OF parts assms(2)] by (auto simp: on_base_def)
  have "ho_url q = with_query (rp_query parts) (rp_url parts)" by (simp add: q finish_request_def Let_def)
  then show ?thesis using p
    by (intro exI [of _ p] exI [of _ "drop (length (rp_url parts)) (ho_url q)"])
       (auto simp: with_query_def Let_def js_Cons)
qed

section \<open>Credentials reach only the operations that ask for them\<close>

lemma each_or_throw_cong:
  "(\<And>x s. x \<in> set xs \<Longrightarrow> f x s = g x s) \<Longrightarrow> each_or_throw f xs s = each_or_throw g xs s"
  by (induction xs arbitrary: s) (auto split: option.splits)

text \<open>
  A credential of the operator has no effect on the request of an operation that does not name
  its scheme: a request is the same under any credentials that agree on the schemes the operation
  (or, where it has none of its own, the document) requires.
\<close>

theorem openapi_credentials_confined:
  assumes "\<forall>n\<in>set (scheme_names (effective_security op ctx)). map_of creds n = map_of (sx_credentials ctx) n"
  shows "openapi_request m path op baseUrl (ctx\<lparr>sx_credentials := creds\<rparr>) input = openapi_request m path op baseUrl ctx input"
proof -
  let ?ctx = "ctx\<lparr>sx_credentials := creds\<rparr>"
  have e: "effective_security op ?ctx = effective_security op ctx" by (simp add: effective_security_def Let_def)
  have "applySecurity (effective_security op ctx) ?ctx parts = applySecurity (effective_security op ctx) ctx parts" for parts
    unfolding applySecurity_def using assms
    by (intro each_or_throw_cong) (auto simp: apply_scheme_def Let_def)
  then show ?thesis by (simp add: openapi_request_def request_parts_of_def e cong: option.case_cong)
qed

section \<open>Concrete operations\<close>

definition path_operation :: "string \<Rightarrow> jsval" where
  "path_operation name =
     JObj [(js ''parameters'', JArr [JObj [(js ''name'', jlit name), (js ''in'', jlit ''path''), (js ''required'', JBool True)]]),
           (js ''security'', JArr [JObj [(js ''header'', JArr [])]])]"

definition path_context :: security_context where
  "path_context = \<lparr>sx_securitySchemes = JObj [(js ''header'', JObj [(js ''type'', jlit ''apiKey''), (js ''in'', jlit ''query''),
        (js ''name'', jlit ''key'')])],
     sx_documentSecurity = [], sx_credentials = [(js ''header'', Api_Key (js ''s3cret''))]\<rparr>"

lemmas request_eval = openapi_request_def request_parts_of_def finish_request_def with_query_def path_operation_def
  path_context_def op_parameters_def nullish_or_def apply_param_def param_key_def effective_security_def applySecurity_def
  scheme_names_def apply_scheme_def apply_credential_def params_set_def params_to_string_def printed_pair_def form_encode_def
  form_byte_def utf8_bytes_def utf8_def to_scalar_def usv_def encode_def encode_point_def encodeURIComponent_def
  uri_unreserved_def brace_def strip_slash_def js_member_opt_def own_value_def js_def uc_def Let_def is_high_def is_low_def percent_def hex_upper_def

lemma path_request:
  "openapi_request Http_Delete (js ''/users/{id}/keys'') (path_operation ''id'') (js ''https://api.test/'') path_context
     (JObj [(js ''id'', jlit ''a/b'')]) =
   Some \<lparr>ho_url = js ''https://api.test/users/a%2Fb/keys?key=s3cret'', ho_method = js ''DELETE'', ho_headers = [], ho_body = None\<rparr>"
  by (simp add: request_eval)

abbreviation path_input :: "string \<Rightarrow> string \<Rightarrow> jsval" where
  "path_input name value \<equiv> JObj [(js name, jlit value)]"

theorem openapi_error_redacted_witness:
  "\<exists>url. openapi_handler (map ascii_lower) (\<lambda>_. Inr \<lparr>rs_ok = False, rs_status = 500, rs_contentType = None, rs_text = []\<rparr>)
      Http_Delete (js ''/users/{id}/keys'') (path_operation ''id'') (js ''https://api.test/'') path_context (path_input ''id'' ''a/b'') =
    Handler_Throws (js ''HTTP 500 from DELETE '' @ url) \<and>
    (\<forall>(k, v)\<in>set (params_parse (query_of url)).
      is_sensitive (map ascii_lower) (query_scheme_names (sx_securitySchemes path_context)) k \<longrightarrow> v = js ''***'')"
  using openapi_error_redacted [OF path_request, of "\<lambda>_. Inr \<lparr>rs_ok = False, rs_status = 500, rs_contentType = None, rs_text = []\<rparr>"
      _ "map ascii_lower"]
  by (simp add: js_append [symmetric] int_dec_def nat_dec.simps digit_unit_def js_def uc_def)

theorem openapi_stays_on_base_witness:
  "\<exists>p query. js ''https://api.test/users/a%2Fb/keys?key=s3cret'' = strip_slash (js ''https://api.test/'') @ p @ query \<and>
    (query = [] \<or> hd query = uc CHR ''?'') \<and>
    subseq (filter url_delimiter p) (filter url_delimiter (js ''/users/{id}/keys''))"
  using openapi_stays_on_base [OF path_request] by (simp add: js_def uc_eq_iff)

theorem openapi_credentials_confined_witness:
  "openapi_request Http_Delete (js ''/users/{id}/keys'') (path_operation ''id'') (js ''https://api.test/'')
     (path_context\<lparr>sx_credentials := (js ''other'', Bearer_Token (js ''t'')) # sx_credentials path_context\<rparr>) (path_input ''id'' ''a'') =
   openapi_request Http_Delete (js ''/users/{id}/keys'') (path_operation ''id'') (js ''https://api.test/'') path_context (path_input ''id'' ''a'')"
proof (rule openapi_credentials_confined)
  have "scheme_names (effective_security (path_operation ''id'') path_context) = [js ''header'']"
    by (simp add: request_eval)
  then show "\<forall>n\<in>set (scheme_names (effective_security (path_operation ''id'') path_context)).
      map_of ((js ''other'', Bearer_Token (js ''t'')) # sx_credentials path_context) n = map_of (sx_credentials path_context) n"
    by (simp add: js_eq_iff)
qed

text \<open>A value may still be \<open>..\<close>: the path then names another resource once the platform normalises it.\<close>

lemma dot_segment_escapes:
  "map_option ho_url (openapi_request Http_Delete (js ''/users/{id}/keys'') (path_operation ''id'') (js ''https://api.test'') path_context
     (path_input ''id'' ''..'')) = Some (js ''https://api.test/users/../keys?key=s3cret'')"
  by (simp add: request_eval)

text \<open>A base URL with a placeholder is filled from the input, its host included.\<close>

lemma templated_base_filled:
  "map_option ho_url (openapi_request Http_Get (js ''/me'') (path_operation ''host'') (js ''https://{host}'') path_context
     (path_input ''host'' ''evil.test'')) = Some (js ''https://evil.test/me?key=s3cret'')"
  by (simp add: request_eval)

end
