(* ===== verification/Openapi_Import.thy ===== *)
theory Openapi_Import
  imports Openapi_Request
begin

text \<open>
  \<open>glyphsFromOpenApi\<close>: the gate on the base URL, then one glyph per operation. The parameters
  (hashes, Zod, AJV, the URL parser, \<open>fetch\<close>, \<open>toLowerCase\<close>, the time) are the environment.
\<close>

record openapi_env =
  oe_crypto :: crypto
  oe_lower :: "jstr \<Rightarrow> jstr"
  oe_zod :: "zod \<Rightarrow> validator"
  oe_ajv :: ajv
  oe_issues :: "schema_issue list \<Rightarrow> jsval"
  oe_now :: "jstr \<Rightarrow> jstr"
  oe_hostname :: "jstr \<Rightarrow> jstr option"
  oe_fetch :: "http_out \<Rightarrow> jstr + http_response"

definition openapi_cardBase :: "jsval \<Rightarrow> openapi_options \<Rightarrow> jstr \<Rightarrow> http_method \<Rightarrow> jsval \<Rightarrow> glyph_cost \<Rightarrow> jstr \<Rightarrow> glyph_card" where
  "openapi_cardBase doc opts path m op cost now =
     \<lparr>gc_id = [], gc_version = js ''1.0.0'', gc_name = operationName m path op,
      gc_intent = js_to_string (nullish_or (field op ''summary'') (nullish_or (field op ''description'')
         (JStr (js (method_upper m) @ js '' '' @ path)))),
      gc_tags = map js_to_string (array_items (nullish_or (field op ''tags'') (JArr []))), gc_cost = cost,
      gc_idempotent = (m = Http_Get \<or> m = Http_Put \<or> m = Http_Delete), gc_input = buildInputSchema op doc,
      gc_output = buildOutputSchema op doc, gc_examples = [],
      gc_failureModes = [\<lparr>fm_code = js ''HTTP_ERROR'', fm_description = js ''The upstream API returned a non-2xx status''\<rparr>],
      gc_provider = default_to (js_to_string (nullish_or (field (field doc ''info'') ''title'') (jlit ''openapi''))) (oo_provider opts),
      gc_requiredScopes = None, gc_attestation = None, gc_publicKey = None, gc_signature = None, gc_createdAt = now\<rparr>"

text \<open>\<open>outputSchemaJson && Object.keys(outputSchemaJson).length > 0\<close>\<close>

fun has_keys :: "jsval \<Rightarrow> bool" where
  "has_keys (JObj kvs) = (kvs \<noteq> [])"
| "has_keys (JArr vs) = (vs \<noteq> [])"
| "has_keys (JStr s) = (s \<noteq> [])"
| "has_keys _ = False"

definition openapi_output :: "openapi_env \<Rightarrow> openapi_options \<Rightarrow> jsval \<Rightarrow> openapi_error + validator" where
  "openapi_output env opts schema =
     (if default_to True (oo_validateOutput opts) \<and> has_keys schema then
        (case compiled_output (oe_ajv env) (oe_issues env) schema of Inl e \<Rightarrow> Inl (Bad_Output_Schema e) | Inr v \<Rightarrow> Inr v)
      else Inr Inr)"

definition openapi_context :: "jsval \<Rightarrow> openapi_options \<Rightarrow> security_context" where
  "openapi_context doc opts =
     \<lparr>sx_securitySchemes = nullish_or (field (field doc ''components'') ''securitySchemes'') (JObj []),
      sx_documentSecurity = array_items (nullish_or (field doc ''security'') (JArr [])),
      sx_credentials = default_to [] (oo_credentials opts)\<rparr>"

definition openapi_glyph ::
  "openapi_env \<Rightarrow> jsval \<Rightarrow> openapi_options \<Rightarrow> jstr \<Rightarrow> jstr \<times> http_method \<times> jsval \<Rightarrow> openapi_error + glyph_definition" where
  "openapi_glyph env doc opts baseUrl entry =
     (case entry of (path, m, op) \<Rightarrow>
        case openapi_deriveCost m op of
          Inl e \<Rightarrow> Inl e
        | Inr cost \<Rightarrow>
            let cardBase = openapi_cardBase doc opts path m op cost (oe_now env (operationName m path op)) in
            (case openapi_output env opts (gc_output cardBase) of
               Inl e \<Rightarrow> Inl e
             | Inr out \<Rightarrow> Inr
                 \<lparr>gd_card = cardBase\<lparr>gc_id := computeGlyphId (oe_crypto env) cardBase\<rparr>,
                  gd_inputSchema = oe_zod env (openapi_buildZodInput op doc), gd_outputSchema = out,
                  gd_handler = openapi_handler (oe_lower env) (oe_fetch env) m path op baseUrl (openapi_context doc opts)\<rparr>))"

definition glyphsFromOpenApi :: "openapi_env \<Rightarrow> jsval \<Rightarrow> openapi_options \<Rightarrow> openapi_error + glyph_definition list" where
  "glyphsFromOpenApi env doc opts =
     (case openapi_base (oe_hostname env) doc opts of
        Inl e \<Rightarrow> Inl e
      | Inr baseUrl \<Rightarrow> map_or_throw (openapi_glyph env doc opts baseUrl) (operations doc))"

section \<open>What an import guarantees\<close>

text \<open>
  The base is the operator's, or the document's where the operator opted in to it, and then on an
  allowed host.
\<close>

definition base_trusted :: "(jstr \<Rightarrow> jstr option) \<Rightarrow> jsval \<Rightarrow> openapi_options \<Rightarrow> jstr \<Rightarrow> bool" where
  "base_trusted hostname doc opts base \<longleftrightarrow>
     oo_baseUrl opts = Some base \<or>
     oo_allowDocumentServerUrl opts = Some True \<and> base = js_to_string (document_server doc) \<and>
       (case oo_allowedHosts opts of None \<Rightarrow> True | Some hosts \<Rightarrow> hosts = [] \<or> default_to [] (hostname base) \<in> set hosts)"

lemma openapi_base_trusted: "openapi_base hostname doc opts = Inr base \<Longrightarrow> base_trusted hostname doc opts base"
  by (auto simp: openapi_base_def base_trusted_def extractHost_def Let_def default_to_def truthy_iff split: if_splits option.splits)

definition honest_cost :: "http_method \<Rightarrow> jsval \<Rightarrow> glyph_cost \<Rightarrow> bool" where
  "honest_cost m op cost \<longleftrightarrow>
     (co_sideEffects cost \<longleftrightarrow> m \<noteq> Http_Get) \<and> (co_reversible cost \<longleftrightarrow> m = Http_Get) \<and>
     (co_requiresConfirmation cost \<longleftrightarrow> co_riskTier cost = Danger) \<and>
     (field op ''x-glyph-risk'' = JStr (risk_str (co_riskTier cost)) \<or>
      field op ''x-glyph-risk'' \<in> {JUndef, JNull} \<and>
      co_riskTier cost = (if m = Http_Delete then Danger else if m = Http_Get then Safe else Caution))"

lemma openapi_cost_honest: "openapi_deriveCost m op = Inr cost \<Longrightarrow> honest_cost m op cost"
  by (auto simp: openapi_deriveCost_def honest_cost_def tier_of_def Let_def split: if_splits option.splits)

lemma operationName_kebab: "kebab (operationName m path op)"
  by (simp add: operationName_def toKebab_kebab_name)

lemma openapi_glyph_Inr:
  assumes "openapi_glyph env doc opts baseUrl (path, m, op) = Inr g"
  shows "gc_id (gd_card g) = computeGlyphId (oe_crypto env) (gd_card g)" "kebab (gc_name (gd_card g))"
    "honest_cost m op (gc_cost (gd_card g))"
    "gd_handler g = openapi_handler (oe_lower env) (oe_fetch env) m path op baseUrl (openapi_context doc opts)"
proof -
  obtain cost out where c: "openapi_deriveCost m op = Inr cost"
    and g: "g = (let cardBase = openapi_cardBase doc opts path m op cost (oe_now env (operationName m path op)) in
       \<lparr>gd_card = cardBase\<lparr>gc_id := computeGlyphId (oe_crypto env) cardBase\<rparr>,
        gd_inputSchema = oe_zod env (openapi_buildZodInput op doc), gd_outputSchema = out,
        gd_handler = openapi_handler (oe_lower env) (oe_fetch env) m path op baseUrl (openapi_context doc opts)\<rparr>)"
    using assms by (auto simp: openapi_glyph_def Let_def split: sum.splits)
  show "gc_id (gd_card g) = computeGlyphId (oe_crypto env) (gd_card g)" by (simp add: g Let_def)
  show "kebab (gc_name (gd_card g))" by (simp add: g Let_def openapi_cardBase_def operationName_kebab)
  show "honest_cost m op (gc_cost (gd_card g))" using openapi_cost_honest [OF c] by (simp add: g Let_def openapi_cardBase_def)
  show "gd_handler g = openapi_handler (oe_lower env) (oe_fetch env) m path op baseUrl (openapi_context doc opts)"
    by (simp add: g Let_def)
qed


definition one_operation :: jsval where
  "one_operation = JObj [(js ''servers'', JArr [JObj [(js ''url'', jlit ''https://evil.test'')]]),
     (js ''paths'', JObj [(js ''/users/{id}'', JObj [(js ''delete'', path_operation ''id'')])])]"

definition toy_openapi_env :: openapi_env where
  "toy_openapi_env = \<lparr>oe_crypto = toy_crypto, oe_lower = map ascii_lower, oe_zod = (\<lambda>_. Inr), oe_ajv = toy_ajv,
     oe_issues = (\<lambda>_. JNull), oe_now = (\<lambda>_. js ''t''), oe_hostname = (\<lambda>_. None), oe_fetch = (\<lambda>_. Inl [])\<rparr>"

definition operator_base :: openapi_options where
  "operator_base = \<lparr>oo_baseUrl = Some (js ''https://api.test''), oo_provider = None, oo_validateOutput = None,
     oo_credentials = None, oo_allowDocumentServerUrl = None, oo_allowedHosts = None\<rparr>"

lemma one_operation_ops: "operations one_operation = [(js ''/users/{id}'', Http_Delete, path_operation ''id'')]"
  by (simp add: operations_def one_operation_def HTTP_METHODS_def js_member_opt_def own_value_def js_eq_iff path_operation_def)


section \<open>Cyclic documents\<close>

lemma fold_max_le: "fold max xs a \<le> b \<longleftrightarrow> a \<le> b \<and> (\<forall>x\<in>set xs. x \<le> (b::nat))"
  by (induction xs arbitrary: a) auto

lemma fold_max_ge: "x \<in> set xs \<Longrightarrow> x \<le> fold max xs (a::nat)"
  using fold_max_le [of xs a "fold max xs a"] by blast

lemma nesting_item: "v \<in> set vs \<Longrightarrow> nesting v < nesting (JArr vs)"
  by (simp add: less_Suc_eq_le fold_max_ge)

lemma nesting_entry: "(k, v) \<in> set kvs \<Longrightarrow> nesting v < nesting (JObj kvs)"
  by (auto simp: less_Suc_eq_le intro!: fold_max_ge)

lemma nesting_property: "nesting (js_property v k) \<le> nesting v"
proof (cases v)
  case (JObj kvs)
  then show ?thesis
    using nesting_entry [of k _ kvs] by (auto simp: own_value_def dest!: map_of_SomeD split: option.splits intro: less_imp_le)
next
  case (JArr vs)
  then show ?thesis using nesting_item [OF nth_mem] by (auto intro: less_imp_le)
qed auto

lemma nesting_pointer: "nesting (pointerLookup doc ref) \<le> nesting doc"
proof -
  have "nesting (foldl (\<lambda>current part. js_property current (pointer_key part)) v ps) \<le> nesting v" for v ps
    by (induction ps arbitrary: v) (auto intro: order_trans [OF _ nesting_property])
  then show ?thesis by (auto simp: pointerLookup_def split: option.splits)
qed

lemma open_refs_item: "v \<in> set vs \<Longrightarrow> card (open_refs v doc seen) \<le> card (open_refs (JArr vs) doc seen)"
  by (rule open_refs_child) auto

lemma open_refs_entry: "(k, v) \<in> set kvs \<Longrightarrow> card (open_refs v doc seen) \<le> card (open_refs (JObj kvs) doc seen)"
  by (rule open_refs_child) auto

lemma nesting_resolveRefs:
  "nesting (resolveRefs node doc seen) \<le> nesting node + card (open_refs node doc seen) * nesting doc"
proof (induction node doc seen rule: resolveRefs.induct)
  case (1 vs doc seen)
  have "nesting (resolveRefs v doc seen) < nesting (JArr vs) + card (open_refs (JArr vs) doc seen) * nesting doc"
    if "v \<in> set vs" for v
    using 1 [OF that] nesting_item [OF that] mult_le_mono1 [OF open_refs_item [OF that, of doc seen], of "nesting doc"] by linarith
  then show ?case by (auto simp: Suc_le_eq fold_max_le less_Suc_eq_le simp del: refs_of.simps)
next
  case (2 kvs doc seen)
  show ?case
  proof (cases "string_ref kvs")
    case None
    have "nesting (resolveRefs v doc seen) < nesting (JObj kvs) + card (open_refs (JObj kvs) doc seen) * nesting doc"
      if "(k, v) \<in> set kvs" for k v
      using 2(1) [OF None that refl] nesting_entry [OF that]
        mult_le_mono1 [OF open_refs_entry [OF that, of doc seen], of "nesting doc"] by linarith
    moreover have "set (js_assign_all (map (\<lambda>(k, v). (k, resolveRefs v doc seen)) kvs) []) \<subseteq>
        set (map (\<lambda>(k, v). (k, resolveRefs v doc seen)) kvs)"
      using set_js_assign_all [of _ "[]"] by force
    ultimately show ?thesis
      by (fastforce simp: None fold_max_le less_Suc_eq_le simp del: refs_of.simps)
  next
    case (Some ref)
    show ?thesis
    proof (cases "ref \<in> set seen \<or> pointerLookup doc ref = JUndef")
      case False
      then have n: "Suc (card (open_refs (pointerLookup doc ref) doc (seen @ [ref]))) \<le> card (open_refs (JObj kvs) doc seen)"
        using open_refs_follow [OF Some] by (simp add: Suc_le_eq)
      show ?thesis
        using 2(2) [OF Some False] nesting_pointer [of doc ref] mult_le_mono1 [OF n, of "nesting doc"] Some False by simp
    qed (use Some in simp)
  qed
qed simp_all

text \<open>
  C27. Resolution ends on every document, those with cyclic references included: a reference is
  followed at most once on a path, so the result is nested at most as deep as the schema and one
  more document for each distinct reference.
\<close>

theorem resolveRefs_ends:
  "nesting (resolveRefs node doc []) \<le> nesting node + card (set (refs_of node) \<union> set (refs_of doc)) * nesting doc"
  using nesting_resolveRefs [of node doc "[]"] by (simp add: open_refs_def)

section \<open>The size of resolved schemas\<close>

text \<open>
  A chain of \<open>n\<close> schemas, each of which refers to the next one twice.
\<close>

definition link_name :: "nat \<Rightarrow> jstr" where
  "link_name i = js ''s'' @ replicate i (uc CHR ''x'')"

definition link_ref :: "nat \<Rightarrow> jsval" where
  "link_ref i = JObj [(js ''$ref'', JStr (js ''#/'' @ link_name i))]"

definition link :: "nat \<Rightarrow> nat \<Rightarrow> jsval" where
  "link n i = (if i = n then JObj [] else JObj [(js ''a'', link_ref (Suc i)), (js ''b'', link_ref (Suc i))])"

definition chained :: "nat \<Rightarrow> jsval" where
  "chained n = JObj (map (\<lambda>i. (link_name i, link n i)) [0..<Suc n])"

lemma link_name_eq [simp]: "link_name i = link_name j \<longleftrightarrow> i = j"
  by (auto simp: link_name_def dest: arg_cong [where f = length])

lemma replace_two_absent: "a \<notin> set s \<Longrightarrow> replace_two a b c s = s"
  by (induction a b c s rule: replace_two.induct) auto

lemma split_all_plain: "uc CHR ''/'' \<notin> set s \<Longrightarrow> split_all s = [s]"
  by (induction s) auto

lemma link_name_plain: "uc CHR ''/'' \<notin> set (link_name i)" "uc CHR ''~'' \<notin> set (link_name i)"
  by (auto simp: link_name_def js_Cons uc_eq_iff)

lemma link_lookup:
  assumes "i \<le> n"
  shows "pointerLookup (chained n) (js ''#/'' @ link_name i) = link n i"
proof -
  have "map_of (map (\<lambda>i. (link_name i, link n i)) [0..<Suc n]) (link_name i) = Some (link n i)"
    using assms by (subst map_of_eq_Some_iff) (auto simp: distinct_map inj_on_def o_def less_Suc_eq_le simp del: upt_Suc)
  then have "own_value (map (\<lambda>i. (link_name i, link n i)) [0..<Suc n]) (link_name i) = link n i"
    by (simp add: own_value_def)
  moreover have "strip_prefix (js ''#/'') (js ''#/'' @ link_name i) = Some (link_name i)" by (simp add: strip_prefix_Some)
  ultimately show ?thesis
    by (simp add: pointerLookup_def chained_def pointer_key_def replace_two_absent link_name_plain split_all_plain
        del: upt_Suc)
qed

lemma resolve_link:
  assumes "i \<le> n" "\<forall>r\<in>set seen. \<exists>j<i. r = js ''#/'' @ link_name j"
  shows "2 ^ (n - i) \<le> nodes (resolveRefs (link_ref i) (chained n) seen)"
  using assms
proof (induction i arbitrary: seen rule: inc_induct)
  case base
  then have "js ''#/'' @ link_name n \<notin> set seen" by fastforce
  then show ?case using link_lookup [of n n] by (auto simp: link_ref_def string_ref_def own_value_def link_def js_assign_all_def)
next
  case (step i)
  let ?ref = "js ''#/'' @ link_name i"
  have new: "?ref \<notin> set seen" using step.prems by fastforce
  have "\<forall>r\<in>set (seen @ [?ref]). \<exists>j<Suc i. r = js ''#/'' @ link_name j" using step.prems less_Suc_eq by auto
  from step.IH [OF this] have IH: "2 ^ (n - Suc i) \<le> nodes (resolveRefs (link_ref (Suc i)) (chained n) (seen @ [?ref]))" .
  have "pointerLookup (chained n) ?ref = JObj [(js ''a'', link_ref (Suc i)), (js ''b'', link_ref (Suc i))]"
    using link_lookup [of i n] step.hyps by (simp add: link_def)
  moreover have "string_ref [(js ''a'', link_ref (Suc i)), (js ''b'', link_ref (Suc i))] = None"
    by (simp add: string_ref_def own_value_def js_eq_iff)
  moreover have "js_assign_all [(js ''a'', t), (js ''b'', t)] [] = [(js ''a'', t), (js ''b'', t)]" for t :: jsval
    by (simp add: js_assign_all_def js_assign_def js_eq_iff is_array_index_def is_digit_unit_def js_Cons unat_uc)
  ultimately have "resolveRefs (link_ref i) (chained n) seen = JObj
      [(js ''a'', resolveRefs (link_ref (Suc i)) (chained n) (seen @ [?ref])),
       (js ''b'', resolveRefs (link_ref (Suc i)) (chained n) (seen @ [?ref]))]"
    using new by (simp add: link_ref_def [of i] string_ref_def own_value_def)
  moreover have "2 ^ (n - i) = 2 * (2::nat) ^ (n - Suc i)" using step.hyps by (simp add: Suc_diff_Suc flip: power_Suc)
  ultimately show ?case using IH by simp
qed

lemma nodes_chained: "nodes (chained n) \<le> 3 * n + 2"
proof -
  have l: "nodes (link n i) \<le> 3" for i by (auto simp: link_def link_ref_def)
  have "sum_list (map (\<lambda>i. nodes (link n i)) [0..<k]) \<le> 3 * k" for k
  proof (induction k)
    case (Suc k)
    then show ?case using l [of k] by simp
  qed simp
  then show ?thesis by (simp add: chained_def o_def link_def [of n n])
qed

text \<open>
  References are expanded without a bound: a document of \<open>n + 1\<close> schemas, linear in size, resolves
  to a schema with \<open>2 ^ n\<close> nodes. The limit on the size of a schema is checked only afterwards.
\<close>

theorem resolved_schemas_explode:
  "nodes (chained n) \<le> 3 * n + 2 \<and> 2 ^ n \<le> nodes (resolveRefs (link_ref 0) (chained n) [])"
  using nodes_chained resolve_link [of 0 n "[]"] by simp

end
