(* ===== verification/Integrations.thy ===== *)
theory Integrations
  imports Client_Examples Adapters
begin

text \<open>
  \<open>packages/integrations\<close>: the glyphs of a client as the tools of four agent frameworks
  (LangChain, the OpenAI Agents SDK, LlamaIndex and the Vercel AI SDK). A tool is listed from the
  lexicon and its card, and runs through \<open>GlyphClient.call\<close>; when the call is refused for want of
  a confirmation, it prepares a ticket and asks the operator's hook. The closure a tool holds is
  determined by the name it is bound to, which is what the model keeps of it.
\<close>

section \<open>Running a tool\<close>

text \<open>The arguments of \<open>onConfirmation\<close>.\<close>

record hook_question =
  hq_glyphName :: jstr
  hq_cost :: glyph_cost
  hq_input :: jsval
  hq_confirmationToken :: jstr

text \<open>A hook answers with a value, of any type, or throws.\<close>

type_synonym confirmation_hook = "hook_question \<Rightarrow> jstr + jsval"

datatype tool_error = Client_Error client_error | Hook_Threw jstr

text \<open>\<open>ts_asked\<close> are the questions the hook was asked.\<close>

record tool_state =
  ts_client :: client_state
  ts_asked :: "hook_question list"

type_synonym 'a tool_step = "(tool_state, tool_error, 'a) step"

definition by_client :: "'a client_step \<Rightarrow> 'a tool_step" where
  "by_client m s = (case m (ts_client s) of
     (Inl e, c) \<Rightarrow> (Inl (Client_Error e), s\<lparr>ts_client := c\<rparr>) | (Inr a, c) \<Rightarrow> (Inr a, s\<lparr>ts_client := c\<rparr>))"

text \<open>
  The \<open>code\<close> of a thrown value. The errors the client itself makes have none; the file system,
  \<open>fetch\<close>, the runtime and a verifier of the operator throw errors of their own, whose codes are
  the argument \<open>foreign\<close>.
\<close>

definition error_code :: "(client_error \<Rightarrow> jstr option) \<Rightarrow> client_error \<Rightarrow> jstr option" where
  "error_code foreign e =
     (case e of Store_Failed _ \<Rightarrow> foreign e | Network_Failed \<Rightarrow> foreign e | Verifier_Threw \<Rightarrow> foreign e
      | Malformed_Body \<Rightarrow> foreign e | Malformed_Uri \<Rightarrow> foreign e | Type_Error \<Rightarrow> foreign e | _ \<Rightarrow> None)"

definition CONFIRMATION_REQUIRED :: jstr where
  "CONFIRMATION_REQUIRED = js ''CONFIRMATION_REQUIRED''"

text \<open>\<open>options.onConfirmation ? await options.onConfirmation(...) : false\<close>\<close>

definition ask_hook :: "confirmation_hook option \<Rightarrow> hook_question \<Rightarrow> jsval tool_step" where
  "ask_hook hook q s =
     (case hook of
        None \<Rightarrow> (Inr (JBool False), s)
      | Some f \<Rightarrow>
          (case f q of Inl e \<Rightarrow> (Inl (Hook_Threw e), s\<lparr>ts_asked := ts_asked s @ [q]\<rparr>)
                     | Inr v \<Rightarrow> (Inr v, s\<lparr>ts_asked := ts_asked s @ [q]\<rparr>)))"

definition confirm_and_call ::
  "client_config \<Rightarrow> confirmation_hook option \<Rightarrow> jstr \<times> jstr \<Rightarrow> jstr \<Rightarrow> jsval \<Rightarrow> client_error \<Rightarrow> sealed_envelope tool_step" where
  "confirm_and_call cfg hook again name input err =
     and_then (by_client (client_prepare cfg name input)) (\<lambda>ticket.
     and_then (ask_hook hook \<lparr>hq_glyphName = name, hq_cost = ct_cost ticket, hq_input = input,
                 hq_confirmationToken = ct_confirmationToken ticket\<rparr>) (\<lambda>approved.
       if approved \<noteq> JBool True then throw (Client_Error err)
       else by_client (client_call cfg (fst again) (snd again) name input (Some (ct_confirmationToken ticket)))))"

text \<open>
  \<open>client.call(name, input).catch(...)\<close>, the same code in the four packages; \<open>first\<close> and \<open>again\<close>
  are the time and the call id of the two calls.
\<close>

definition call_confirmed ::
  "client_config \<Rightarrow> (client_error \<Rightarrow> jstr option) \<Rightarrow> confirmation_hook option \<Rightarrow> jstr \<times> jstr \<Rightarrow> jstr \<times> jstr \<Rightarrow>
     jstr \<Rightarrow> jsval \<Rightarrow> sealed_envelope tool_step" where
  "call_confirmed cfg foreign hook first again name input s =
     (case by_client (client_call cfg (fst first) (snd first) name input None) s of
        (Inl (Client_Error err), t) \<Rightarrow>
          if error_code foreign err = Some CONFIRMATION_REQUIRED
          then confirm_and_call cfg hook again name input err t else (Inl (Client_Error err), t)
      | r \<Rightarrow> r)"

definition langchain_makeInvoke where
  "langchain_makeInvoke cfg foreign hook first again name input =
     and_then (call_confirmed cfg foreign hook first again name input) (\<lambda>e. return (json_stringify (se_payload e)))"

definition openai_makeExecute where
  "openai_makeExecute cfg foreign hook first again name input =
     and_then (call_confirmed cfg foreign hook first again name input) (\<lambda>e. return (se_payload e))"

definition llamaindex_makeFn where
  "llamaindex_makeFn cfg foreign hook first again name input =
     and_then (call_confirmed cfg foreign hook first again name input) (\<lambda>e. return (se_payload e))"

definition vercel_makeExecute where
  "vercel_makeExecute cfg foreign hook first again name input =
     and_then (call_confirmed cfg foreign hook first again name input) (\<lambda>e. return (se_payload e))"

section \<open>Listing the tools\<close>

text \<open>\<open>ft_target\<close> is the name the tool's closure calls.\<close>

record framework_tool =
  ft_description :: jstr
  ft_schema :: jsval
  ft_target :: jstr

record named_tool = framework_tool +
  ft_name :: jstr

text \<open>The \<open>try\<close> around the fetch of the card; \<open>use\<close> is what is taken from its input schema.\<close>

definition schema_or :: "client_config \<Rightarrow> jsval \<Rightarrow> (jsval \<Rightarrow> jsval) \<Rightarrow> jstr \<Rightarrow> jsval client_step" where
  "schema_or cfg otherwise use name =
     and_then (catching (client_getCard cfg name (Some Rich))) (\<lambda>c.
       return (case c of None \<Rightarrow> otherwise | Some c \<Rightarrow> use (gc_input c)))"

definition empty_object_schema :: jsval where
  "empty_object_schema = JObj [(js ''type'', jlit ''object''), (js ''properties'', JObj [])]"

definition named :: "lexicon_entry \<Rightarrow> jsval \<Rightarrow> named_tool" where
  "named e schema = \<lparr>ft_description = lx_intent e, ft_schema = schema, ft_target = lx_name e, ft_name = lx_name e\<rparr>"

definition langchain_buildTool :: "client_config \<Rightarrow> lexicon_entry \<Rightarrow> named_tool client_step" where
  "langchain_buildTool cfg e =
     and_then (schema_or cfg (JObj []) (\<lambda>i. if js_truthy i then i else JObj []) (lx_name e)) (\<lambda>schema.
       return (named e (JObj [(js ''jsonSchema'', schema)])))"

definition openai_buildTool :: "client_config \<Rightarrow> lexicon_entry \<Rightarrow> named_tool client_step" where
  "openai_buildTool cfg e =
     and_then (schema_or cfg empty_object_schema (\<lambda>i. if js_truthy i then i else empty_object_schema) (lx_name e)) (\<lambda>schema.
       return (named e schema))"

definition mapToObjectSchema :: "jsval \<Rightarrow> jsval" where
  "mapToObjectSchema input =
     (if js_is_object input \<and> js_member_opt input (js ''type'') = jlit ''object'' \<and>
         js_is_object (js_member_opt input (js ''properties''))
      then JObj ([(js ''type'', jlit ''object''), (js ''properties'', js_member_opt input (js ''properties''))] @
                 (case js_member_opt input (js ''required'') of
                    JArr vs \<Rightarrow> [(js ''required'', JArr vs)] | _ \<Rightarrow> []))
      else if \<not> js_truthy input then empty_object_schema
      else JObj [(js ''type'', jlit ''object''), (js ''properties'', JObj [(js ''value'', input)]),
                 (js ''required'', JArr [jlit ''value''])])"

definition llamaindex_buildTool :: "client_config \<Rightarrow> lexicon_entry \<Rightarrow> named_tool client_step" where
  "llamaindex_buildTool cfg e =
     and_then (schema_or cfg empty_object_schema mapToObjectSchema (lx_name e)) (\<lambda>schema. return (named e schema))"

definition vercel_buildTool :: "client_config \<Rightarrow> lexicon_entry \<Rightarrow> framework_tool client_step" where
  "vercel_buildTool cfg e =
     and_then (schema_or cfg (JObj []) (\<lambda>i. if js_truthy i then i else JObj []) (lx_name e)) (\<lambda>schema.
       return \<lparr>ft_description = lx_intent e, ft_schema = JObj [(js ''jsonSchema'', schema)], ft_target = lx_name e\<rparr>)"

fun each_entry :: "(lexicon_entry \<Rightarrow> 'a client_step) \<Rightarrow> lexicon_entry list \<Rightarrow> 'a list client_step" where
  "each_entry build [] = return []"
| "each_entry build (e # es) =
     and_then (build e) (\<lambda>t. and_then (each_entry build es) (\<lambda>ts. return (t # ts)))"

definition glyphsAsLangChainTools :: "client_config \<Rightarrow> named_tool list client_step" where
  "glyphsAsLangChainTools cfg = and_then (client_getLexicon cfg) (each_entry (langchain_buildTool cfg))"

definition glyphsAsOpenAiAgentTools :: "client_config \<Rightarrow> named_tool list client_step" where
  "glyphsAsOpenAiAgentTools cfg = and_then (client_getLexicon cfg) (each_entry (openai_buildTool cfg))"

definition glyphsAsLlamaIndexTools :: "client_config \<Rightarrow> named_tool list client_step" where
  "glyphsAsLlamaIndexTools cfg = and_then (client_getLexicon cfg) (each_entry (llamaindex_buildTool cfg))"

text \<open>The tools as the properties of an object.\<close>

definition glyphsAsVercelAiTools :: "client_config \<Rightarrow> (jstr \<times> framework_tool) list client_step" where
  "glyphsAsVercelAiTools cfg =
     and_then (client_getLexicon cfg) (\<lambda>lexicon.
     and_then (each_entry (vercel_buildTool cfg) lexicon) (\<lambda>ts.
       return (js_assign_all (zip (map lx_name lexicon) ts) [])))"

definition langchain_fromLexicon :: "lexicon_entry list \<Rightarrow> named_tool list" where
  "langchain_fromLexicon lexicon = map (\<lambda>e. named e (JObj [(js ''jsonSchema'', JObj [])])) lexicon"

definition openai_fromLexicon :: "lexicon_entry list \<Rightarrow> named_tool list" where
  "openai_fromLexicon lexicon = map (\<lambda>e. named e empty_object_schema) lexicon"

definition llamaindex_fromLexicon :: "lexicon_entry list \<Rightarrow> named_tool list" where
  "llamaindex_fromLexicon lexicon = map (\<lambda>e. named e empty_object_schema) lexicon"

definition vercel_fromLexicon :: "lexicon_entry list \<Rightarrow> (jstr \<times> framework_tool) list" where
  "vercel_fromLexicon lexicon =
     js_assign_all (map (\<lambda>e. (lx_name e,
       \<lparr>ft_description = lx_intent e, ft_schema = JObj [(js ''jsonSchema'', JObj [])], ft_target = lx_name e\<rparr>)) lexicon) []"

section \<open>No tool confirms\<close>

text \<open>
  The error of a refused call is the client's own, which has no code. So the branch that prepares
  a ticket is never taken, as long as no foreign error has that very code.
\<close>

lemma no_confirmation_code:
  "\<forall>e. foreign e \<noteq> Some CONFIRMATION_REQUIRED \<Longrightarrow> error_code foreign err \<noteq> Some CONFIRMATION_REQUIRED"
  by (cases err) (auto simp: error_code_def)

lemma call_confirmed_plain:
  assumes "\<forall>e. foreign e \<noteq> Some CONFIRMATION_REQUIRED"
  shows "call_confirmed cfg foreign hook first again name input =
    by_client (client_call cfg (fst first) (snd first) name input None)"
  using no_confirmation_code [OF assms]
  by (auto simp: call_confirmed_def fun_eq_iff split: prod.split sum.split tool_error.split)

text \<open>What a call sends: nothing but GETs, or GETs and the one POST of the call.\<close>

definition sends_at_most :: "client_request list \<Rightarrow> client_request list \<Rightarrow> (client_request \<Rightarrow> bool) \<Rightarrow> bool" where
  "sends_at_most rs rs' P \<longleftrightarrow> (\<exists>qs. rs' = rs @ qs \<and>
     (filter is_post qs = [] \<or> (\<exists>q. filter is_post qs = [q] \<and> P q)))"

lemma sends_gets: "gets_only rs rs' \<Longrightarrow> sends_at_most rs rs' P"
  by (auto simp: gets_only_def sends_at_most_def filter_empty_conv list_all_iff)

lemma sends_one:
  assumes "gets_only a b" "gets_only (b @ [q]) c" "is_post q" "P q"
  shows "sends_at_most a c P"
  using assms by (auto simp: gets_only_def sends_at_most_def filter_empty_conv list_all_iff)

lemma reads_gets: "reads s t \<Longrightarrow> gets_only (cl_requests s) (cl_requests t)"
  by (rule readsD(4))

lemma client_call_no_pins:
  assumes "stores_ok s" "cl_pins s = None" "client_call cfg now callId name input token s = (r, t)"
  shows "sends_at_most (cl_requests s) (cl_requests t)
    (\<lambda>q. \<exists>enc. encodeURIComponent name = Some enc \<and> q = call_request cfg callId enc input token)"
proof -
  have e1: "ensureApproved cfg now name s = (Inr (), s)" by (simp add: ensureApproved_def assms(2))
  obtain r2 s2 where e2: "enforceTrust cfg name s = (r2, s2)" by fastforce
  have r12: "reads s s2" by (rule readerD [OF reader_enforceTrust assms(1) e2])
  obtain r3 s3 where e3: "ensureAttested cfg name s2 = (r3, s3)" by fastforce
  have r23: "reads s2 s3" by (rule readerD [OF reader_ensureAttested reads_ok [OF r12 assms(1)] e3])
  have r13: "reads s s3" by (rule reads_trans [OF r12 r23])
  show ?thesis
  proof (cases "r2 = Inr () \<and> r3 = Inr ()")
    case False
    then have "t = s2 \<or> t = s3"
      using assms(3) e1 e2 e3 by (cases r2; cases r3) (auto simp: client_call_def and_then_def)
    then show ?thesis using r12 r13 sends_gets reads_gets by blast
  next
    case True
    show ?thesis
    proof (cases rule: send_call_cases [of cfg callId name input token s3])
      case (unsent e)
      then have "t = s3" using assms(3) e1 e2 e3 True by (auto simp: client_call_def and_then_def)
      then show ?thesis using sends_gets [OF reads_gets [OF r13]] by simp
    next
      case (sent q enc)
      let ?s4 = "s3\<lparr>cl_requests := cl_requests s3 @ [call_request cfg callId enc input token]\<rparr>"
      have "cl_pins ?s4 = None" using readsD(3) [OF r13] assms(2) by simp
      then have "check_receipt cfg callId name e ?s4 = (Inr (), ?s4)" for e by (simp add: check_receipt_def)
      then have "t = ?s4"
        using assms(3) e1 e2 e3 True sent by (cases q) (auto simp: client_call_def and_then_def return_def)
      then show ?thesis using sent(2) by (intro sends_one [OF reads_gets [OF r13]]) (auto simp: call_request_def)
    qed
  qed
qed

lemma went_through_sends:
  assumes "went_through cfg now callId name input token s r t"
  shows "sends_at_most (cl_requests s) (cl_requests t)
    (\<lambda>q. \<exists>enc. encodeURIComponent name = Some enc \<and> q = call_request cfg callId enc input token)"
proof -
  from assms obtain c s1 s2 s3 s4 enc where w: "gate_ok cfg now name c s s1" "reads s1 s2" "reads s2 s3"
    "encodeURIComponent name = Some enc"
    "s4 = s3\<lparr>cl_requests := cl_requests s3 @ [call_request cfg callId enc input token]\<rparr>" "reads s4 t"
    unfolding went_through_def by blast
  have "gets_only (cl_requests s) (cl_requests s3)"
    using w(1) reads_gets [OF w(2)] reads_gets [OF w(3)] by (auto simp: gate_ok_def intro: gets_only_trans)
  moreover have "gets_only (cl_requests s3 @ [call_request cfg callId enc input token]) (cl_requests t)"
    using reads_gets [OF w(6)] w(5) by simp
  ultimately show ?thesis by (rule sends_one) (auto simp: call_request_def w(4))
qed

lemma client_call_sends:
  assumes "stores_ok s" "client_call cfg now callId name input token s = (r, t)"
  shows "sends_at_most (cl_requests s) (cl_requests t)
    (\<lambda>q. \<exists>enc. encodeURIComponent name = Some enc \<and> q = call_request cfg callId enc input token)"
proof (cases "cl_pins s = None")
  case True
  with assms show ?thesis by (intro client_call_no_pins)
next
  case False
  from client_call_cases [OF assms(1) this assms(2)] show ?thesis
    using went_through_sends sends_gets by blast
qed

text \<open>A framework's tool runs \<open>call_confirmed\<close> and only converts the envelope.\<close>

locale framework_run =
  fixes run :: "client_config \<Rightarrow> (client_error \<Rightarrow> jstr option) \<Rightarrow> confirmation_hook option \<Rightarrow> jstr \<times> jstr \<Rightarrow>
    jstr \<times> jstr \<Rightarrow> jstr \<Rightarrow> jsval \<Rightarrow> 'r tool_step"
    and convert :: "sealed_envelope \<Rightarrow> 'r"
  assumes run_law: "run cfg foreign hook first again name input =
    and_then (call_confirmed cfg foreign hook first again name input) (\<lambda>e. return (convert e))"
begin

lemma state: "snd (run cfg foreign hook first again name input s) = snd (call_confirmed cfg foreign hook first again name input s)"
  by (simp add: run_law and_then_def return_def split: prod.split sum.split)

lemma never_confirms:
  assumes "\<forall>e. foreign e \<noteq> Some CONFIRMATION_REQUIRED" "stores_ok (ts_client s)"
    "t = snd (run cfg foreign hook first again name input s)"
  shows "ts_asked t = ts_asked s \<and> sends_at_most (cl_requests (ts_client s)) (cl_requests (ts_client t))
    (\<lambda>q. \<exists>enc. encodeURIComponent name = Some enc \<and> q = call_request cfg (snd first) enc input None)"
proof -
  obtain r c where c: "client_call cfg (fst first) (snd first) name input None (ts_client s) = (r, c)" by fastforce
  have "t = s\<lparr>ts_client := c\<rparr>"
    using c by (simp add: assms(3) state call_confirmed_plain [OF assms(1)] by_client_def split: sum.split)
  then show ?thesis using client_call_sends [OF assms(2) c] by simp
qed

end

interpretation langchain: framework_run langchain_makeInvoke "\<lambda>e. json_stringify (se_payload e)"
  by unfold_locales (simp add: langchain_makeInvoke_def)

interpretation openai: framework_run openai_makeExecute se_payload
  by unfold_locales (simp add: openai_makeExecute_def)

interpretation llamaindex: framework_run llamaindex_makeFn se_payload
  by unfold_locales (simp add: llamaindex_makeFn_def)

interpretation vercel: framework_run vercel_makeExecute se_payload
  by unfold_locales (simp add: vercel_makeExecute_def)

text \<open>
  C22. A framework's tool never confirms a call. Whatever hook the operator gave, a run asks it
  nothing and sends at most one POST, the call without a token, so a glyph that requires
  confirmation stays refused: the errors of \<open>GlyphClient.post\<close> carry no \<open>code\<close>, and the branch
  that would prepare a ticket is dead.
\<close>

theorem framework_tools_never_confirm:
  assumes "\<forall>e. foreign e \<noteq> Some CONFIRMATION_REQUIRED" "stores_ok (ts_client s)"
    and "t \<in> {snd (langchain_makeInvoke cfg foreign hook first again name input s),
              snd (openai_makeExecute cfg foreign hook first again name input s),
              snd (llamaindex_makeFn cfg foreign hook first again name input s),
              snd (vercel_makeExecute cfg foreign hook first again name input s)}"
  shows "ts_asked t = ts_asked s \<and> sends_at_most (cl_requests (ts_client s)) (cl_requests (ts_client t))
    (\<lambda>q. \<exists>enc. encodeURIComponent name = Some enc \<and> q = call_request cfg (snd first) enc input None)"
  using assms(3) by (elim insertE emptyE)
    (simp_all only: langchain.never_confirms [OF assms(1,2) refl] openai.never_confirms [OF assms(1,2) refl]
      llamaindex.never_confirms [OF assms(1,2) refl] vercel.never_confirms [OF assms(1,2) refl] simp_thms)

definition refusing_net :: network where
  "refusing_net = honest_net\<lparr>nt_envelope := \<lambda>_ _. Not_Ok 403
     (js ''{\"error\":{\"code\":\"CONFIRMATION_REQUIRED\"}}'')\<rparr>"

definition refused_state :: tool_state where
  "refused_state = \<lparr>ts_client = wipe_client, ts_asked = []\<rparr>"

definition approving_hook :: confirmation_hook where
  "approving_hook _ = Inr (JBool True)"

theorem framework_tools_never_confirm_witness:
  "ts_asked (snd (langchain_makeInvoke (wipe_cfg\<lparr>cc_net := refusing_net\<rparr>) (\<lambda>_. None) (Some approving_hook)
     (js ''n'', js ''c1'') (js ''n'', js ''c2'') (js ''wipe'') JNull refused_state)) = []"
  using framework_tools_never_confirm [of "\<lambda>_. None" refused_state _ "wipe_cfg\<lparr>cc_net := refusing_net\<rparr>" "Some approving_hook"
      "(js ''n'', js ''c1'')" "(js ''n'', js ''c2'')" "js ''wipe''" JNull, OF _ _ insertI1]
  by (simp add: refused_state_def wipe_client_ok)

end
