(* ===== verification/Cli_Prelude.thy ===== *)
theory Cli_Prelude
  imports Middleware
begin

text \<open>
  What the commands of \<open>packages/cli/src/commands\<close> share: a result with its report, and steps that
  lift an option or a sum into the state of the command.
\<close>

record command_result =
  cm_ok :: bool
  cm_report :: jstr

abbreviation refused :: "jstr \<Rightarrow> command_result" where
  "refused why \<equiv> \<lparr>cm_ok = False, cm_report = why\<rparr>"

definition lines :: "jstr list \<Rightarrow> jstr" where
  "lines ls = intercalate [10] ls"

definition or_throw :: "'e \<Rightarrow> 'a option \<Rightarrow> ('s, 'e, 'a) step" where
  "or_throw e x = (case x of None \<Rightarrow> throw e | Some a \<Rightarrow> return a)"

definition or_raise :: "'e + 'a \<Rightarrow> ('s, 'e, 'a) step" where
  "or_raise x = (case x of Inl e \<Rightarrow> throw e | Inr a \<Rightarrow> return a)"

lemma or_throw_Some [simp]: "or_throw e (Some a) = return a"
  by (simp add: or_throw_def)

lemma or_raise_Inr [simp]: "or_raise (Inr a) = return a"
  by (simp add: or_raise_def)

lemma step_to: "m s = (Inr a, t) \<Longrightarrow> and_then m f s = f a t"
  by (simp add: and_then_def)

lemma return_at: "return a s = (Inr a, s)"
  by (simp add: return_def)

end
