(* ===== verification/Cli_Keys.thy ===== *)
theory Cli_Keys
  imports Key_Registry Cli_Prelude
begin

text \<open>
  The commands of \<open>packages/cli/src/commands/keys.ts\<close> over the file of a key registry: each run
  makes a new \<open>FileKeyRegistry\<close>, reads or writes the file and reports. Generated key pairs, the
  random server id and the clock's readings are arguments. The state is the file.
\<close>

section \<open>The commands\<close>

type_synonym keys_file = "key_registry disk_file"

record key_pair =
  kp_publicKey :: jstr
  kp_privateKey :: jstr

type_synonym keys_command = "(keys_file, registry_error, command_result) step"

text \<open>A fresh \<open>FileKeyRegistry\<close> on the file.\<close>

definition on_file :: "(file_source, registry_error, 'a) step \<Rightarrow> (keys_file, registry_error, 'a) step" where
  "on_file m d = (case m \<lparr>fk_cache = None, fk_disk = d\<rparr> of (r, s) \<Rightarrow> (r, fk_disk s))"

definition runKeysInit ::
  "crypto \<Rightarrow> jstr \<Rightarrow> key_pair \<Rightarrow> jstr \<Rightarrow> jstr \<Rightarrow> jstr \<Rightarrow> jstr option \<Rightarrow> keys_command" where
  "runKeysInit C randomId kp now issued file serverIdOption =
     (let serverId = default_to randomId serverIdOption in
      and_then (or_throw Signing_Threw (buildKeyEntry C (kp_publicKey kp) now None)) (\<lambda>entry.
      and_then (or_raise (buildKeyRegistry C issued serverId [entry] (kp_privateKey kp) None None)) (\<lambda>registry.
      and_then (on_file (file_save C registry)) (\<lambda>_.
        return \<lparr>cm_ok = True, cm_report = lines
          [js ''glyph keys init '' @ [8212] @ js '' wrote '' @ file, [],
           js ''  serverId:    '' @ serverId,
           js ''  fingerprint: '' @ ke_fingerprint entry,
           js ''  publicKey:   '' @ kp_publicKey kp,
           js ''  privateKey:  '' @ kp_privateKey kp, [],
           js ''Persist the private key via a secret manager '' @ [8212] @ js '' it is required to'',
           js ''sign cards, receipts, and any future rotation.'']\<rparr>))))"

definition retire_entry :: "jstr \<Rightarrow> jstr \<Rightarrow> key_entry \<Rightarrow> key_entry" where
  "retire_entry fp now k = (if ke_fingerprint k = fp then k\<lparr>ke_validUntil := Some now\<rparr> else k)"

definition runKeysRotate :: "crypto \<Rightarrow> key_pair \<Rightarrow> jstr \<Rightarrow> jstr \<Rightarrow> jstr \<Rightarrow> keys_command" where
  "runKeysRotate C newKp now issued previousPrivateKey =
     and_then (on_file (file_load C)) (\<lambda>current.
       case find (\<lambda>k. ke_fingerprint k = kr_active current) (kr_keys current) of
         None \<Rightarrow> return (refused (js ''no active key in current registry''))
       | Some activeEntry \<Rightarrow>
           and_then (or_throw Signing_Threw (buildKeyEntry C (kp_publicKey newKp) now
               (Some (ke_fingerprint activeEntry, previousPrivateKey)))) (\<lambda>newEntry.
           and_then (or_raise (buildKeyRegistry C issued (kr_serverId current)
               (map (retire_entry (ke_fingerprint activeEntry) now) (kr_keys current) @ [newEntry])
               (kp_privateKey newKp) None None)) (\<lambda>next.
           and_then (on_file (file_save C next)) (\<lambda>_.
             return \<lparr>cm_ok = True, cm_report = lines
               [js ''glyph keys rotate '' @ [8212] @ js '' registry rotated'', [],
                js ''  previous fingerprint: '' @ ke_fingerprint activeEntry @ js ''  (retired '' @ now @ js '')'',
                js ''  new active:           '' @ ke_fingerprint newEntry,
                js ''  new publicKey:        '' @ kp_publicKey newKp,
                js ''  new privateKey:       '' @ kp_privateKey newKp, [],
                js ''Update your secret manager with the new private key.'']\<rparr>))))"

definition revoke_entry :: "jstr \<Rightarrow> jstr \<Rightarrow> jstr option \<Rightarrow> key_entry \<Rightarrow> key_entry" where
  "revoke_entry fp now reason k =
     (if ke_fingerprint k = fp then k\<lparr>ke_revokedAt := Some now, ke_revocationReason := reason\<rparr> else k)"

definition runKeysRevoke ::
  "crypto \<Rightarrow> jstr \<Rightarrow> jstr \<Rightarrow> jstr \<Rightarrow> jstr option \<Rightarrow> jstr \<Rightarrow> keys_command" where
  "runKeysRevoke C now issued fingerprint reason activePrivateKey =
     and_then (on_file (file_load C)) (\<lambda>current.
       if find (\<lambda>k. ke_fingerprint k = fingerprint) (kr_keys current) = None
       then return (refused (js ''no key with fingerprint '' @ fingerprint))
       else if fingerprint = kr_active current
       then return (refused (js ''cannot revoke the active key '' @ [8212] @ js '' rotate first, then revoke''))
       else
         and_then (or_raise (buildKeyRegistry C issued (kr_serverId current)
             (map (revoke_entry fingerprint now reason) (kr_keys current)) activePrivateKey None None)) (\<lambda>next.
         and_then (on_file (file_save C next)) (\<lambda>_.
           return \<lparr>cm_ok = True, cm_report = lines (filter (\<lambda>l. l \<noteq> [])
             [js ''glyph keys revoke '' @ [8212] @ js '' '' @ fingerprint @ js '' revoked'',
              (if truthy reason then js ''  reason: '' @ the reason else []), [],
              js ''Re-published registry signed by '' @ kr_active current @ js ''.''])\<rparr>)))"

definition list_line :: "key_entry \<Rightarrow> jstr" where
  "list_line e =
     (let part = (\<lambda>label v. if truthy v then js label @ the v else []);
          tag = (if truthy (ke_revokedAt e) then js ''REVOKED''
                 else if truthy (ke_validUntil e) then js ''retired'' else js ''active'')
      in js ''  ['' @ tag @ js ''] '' @ ke_fingerprint e @ js ''  validFrom='' @ ke_validFrom e @
         part ''  validUntil='' (ke_validUntil e) @ part ''  revokedAt='' (ke_revokedAt e) @
         part ''  reason='' (ke_revocationReason e) @
         (if truthy (ke_signedBy e) then js ''  signedBy='' @ the (ke_signedBy e) else js ''  (genesis)''))"

definition runKeysList :: "crypto \<Rightarrow> jstr \<Rightarrow> keys_command" where
  "runKeysList C file =
     and_then (on_file (file_load C)) (\<lambda>registry.
     and_then (or_throw Verification_Threw (verifyKeyRegistry C registry)) (\<lambda>verified.
       return \<lparr>cm_ok = True, cm_report = lines
         ([js ''glyph keys list '' @ [8212] @ js '' '' @ file, [],
           js ''  serverId:    '' @ kr_serverId registry,
           js ''  active:      '' @ kr_active registry,
           js ''  issuedAt:    '' @ kr_issuedAt registry,
           js ''  ttlSeconds:  '' @ int_dec (kr_ttlSeconds registry),
           js ''  verified:    '' @ (if verified then js ''yes'' else js ''NO '' @ [8212] @ js '' chain or signature broken''),
           [], js ''keys ('' @ nat_dec (length (kr_keys registry)) @ js ''):''] @
          map list_line (kr_keys registry))\<rparr>))"

section \<open>What a command writes\<close>

lemma on_file_load:
  "on_file (file_load C) d = (r, d') \<Longrightarrow> d' = d \<and> (\<forall>reg. r = Inr reg \<longrightarrow> d = Holds reg \<and> verifyKeyRegistry C reg = Some True)"
  by (auto simp: on_file_def file_load_def split: disk_file.splits option.splits bool.splits)

lemma on_file_save:
  "on_file (file_save C reg) d = (r, d') \<Longrightarrow>
     (r = Inr () \<and> d' = Holds reg \<and> verifyKeyRegistry C reg = Some True) \<or> (\<exists>e. r = Inl e) \<and> d' = d"
  by (auto simp: on_file_def file_save_def split: option.splits bool.splits)

text \<open>Building a registry from entries and saving it: the file holds it, or nothing was written.\<close>

definition writes :: "crypto \<Rightarrow> key_entry list \<Rightarrow> keys_file \<Rightarrow> keys_file \<Rightarrow> bool" where
  "writes C es d d' \<longleftrightarrow> d' = d \<or>
     (\<exists>reg a. d' = Holds reg \<and> verifyKeyRegistry C reg = Some True \<and> kr_keys reg = es \<and>
        active_entry es = Some a \<and> kr_active reg = ke_fingerprint a)"

lemma buildKeyRegistry_keys:
  "buildKeyRegistry C now sid es priv ttl issued = Inr reg \<Longrightarrow>
     kr_keys reg = es \<and> (\<exists>a. active_entry es = Some a \<and> kr_active reg = ke_fingerprint a)"
  by (auto simp: buildKeyRegistry_def Let_def registry_base.defs key_registry.defs split: option.splits)

lemma build_and_save:
  assumes "and_then (or_raise (buildKeyRegistry C now sid es priv ttl issued)) (\<lambda>reg.
      and_then (on_file (file_save C reg)) (\<lambda>_. return (result reg))) d = (r, d')"
  shows "writes C es d d'"
proof (cases "buildKeyRegistry C now sid es priv ttl issued")
  case (Inl e)
  then show ?thesis using assms by (auto simp: and_then_def or_raise_def throw_def writes_def)
next
  case (Inr reg)
  obtain q u where q: "on_file (file_save C reg) d = (q, u)" by fastforce
  have "d' = u" using assms Inr q by (cases q) (auto simp: and_then_def or_raise_def return_def)
  then show ?thesis using on_file_save [OF q] buildKeyRegistry_keys [OF Inr] by (auto simp: writes_def)
qed

lemma runKeysInit_writes:
  assumes "runKeysInit C rid kp now issued file sid d = (r, d')"
  shows "\<exists>e. buildKeyEntry C (kp_publicKey kp) now None = Some e \<and> writes C [e] d d'"
proof -
  obtain e where "buildKeyEntry C (kp_publicKey kp) now None = Some e" by (simp add: buildKeyEntry_def)
  then show ?thesis
    using assms by (auto simp: runKeysInit_def Let_def intro: build_and_save)
qed

lemma runKeysRotate_writes:
  assumes "runKeysRotate C kp now issued priv d = (r, d')"
  shows "d' = d \<or> (\<exists>reg a e. d = Holds reg \<and> verifyKeyRegistry C reg = Some True \<and> a \<in> set (kr_keys reg) \<and>
    ke_fingerprint a = kr_active reg \<and> buildKeyEntry C (kp_publicKey kp) now (Some (kr_active reg, priv)) = Some e \<and>
    writes C (map (retire_entry (kr_active reg) now) (kr_keys reg) @ [e]) d d')"
proof -
  obtain q u where q: "on_file (file_load C) d = (q, u)" by fastforce
  note l = on_file_load [OF q]
  show ?thesis
  proof (cases "\<exists>reg a e. q = Inr reg \<and> find (\<lambda>k. ke_fingerprint k = kr_active reg) (kr_keys reg) = Some a \<and>
      buildKeyEntry C (kp_publicKey kp) now (Some (ke_fingerprint a, priv)) = Some e")
    case False
    then have "d' = u" using assms q
      by (cases q) (auto simp: runKeysRotate_def and_then_def or_throw_def throw_def return_def split: option.splits)
    then show ?thesis using l by simp
  next
    case True
    then obtain reg a e where t: "q = Inr reg" "find (\<lambda>k. ke_fingerprint k = kr_active reg) (kr_keys reg) = Some a"
      "buildKeyEntry C (kp_publicKey kp) now (Some (ke_fingerprint a, priv)) = Some e" by blast
    from find_SomeD [OF t(2)] have a: "a \<in> set (kr_keys reg)" "ke_fingerprint a = kr_active reg" by auto
    have "writes C (map (retire_entry (kr_active reg) now) (kr_keys reg) @ [e]) d d'"
      using assms q t l a(2)
      by (auto simp: runKeysRotate_def and_then_def [of "on_file (file_load C)"] intro: build_and_save)
    then show ?thesis using t a l by auto
  qed
qed

lemma runKeysRevoke_writes:
  assumes "runKeysRevoke C now issued fp reason priv d = (r, d')"
  shows "d' = d \<or> (\<exists>reg. d = Holds reg \<and> verifyKeyRegistry C reg = Some True \<and> fp \<noteq> kr_active reg \<and>
    writes C (map (revoke_entry fp now reason) (kr_keys reg)) d d')"
proof -
  obtain q u where q: "on_file (file_load C) d = (q, u)" by fastforce
  note l = on_file_load [OF q]
  show ?thesis
  proof (cases "\<exists>reg. q = Inr reg \<and> find (\<lambda>k. ke_fingerprint k = fp) (kr_keys reg) \<noteq> None \<and> fp \<noteq> kr_active reg")
    case False
    then have "d' = u" using assms q by (cases q) (auto simp: runKeysRevoke_def and_then_def return_def split: if_splits)
    then show ?thesis using l by simp
  next
    case True
    then obtain reg where t: "q = Inr reg" "find (\<lambda>k. ke_fingerprint k = fp) (kr_keys reg) \<noteq> None" "fp \<noteq> kr_active reg"
      by blast
    then have "writes C (map (revoke_entry fp now reason) (kr_keys reg)) d d'"
      using assms q l by (auto simp: runKeysRevoke_def and_then_def [of "on_file (file_load C)"] intro: build_and_save)
    then show ?thesis using t l by auto
  qed
qed

section \<open>The life of a key file\<close>

text \<open>
  The commands that write, as steps of the file; \<open>now\<close> is a time as \<open>toISOString\<close> prints it,
  never empty. \<open>key_runs\<close> excludes \<open>init\<close>, which starts a new registry.
\<close>

inductive key_step :: "crypto \<Rightarrow> keys_file \<Rightarrow> keys_file \<Rightarrow> bool" for C where
  rotate: "now \<noteq> [] \<Longrightarrow> runKeysRotate C kp now issued priv d = (r, d') \<Longrightarrow> key_step C d d'"
| revoke: "now \<noteq> [] \<Longrightarrow> runKeysRevoke C now issued fp reason priv d = (r, d') \<Longrightarrow> key_step C d d'"

inductive key_reachable :: "crypto \<Rightarrow> keys_file \<Rightarrow> bool" for C where
  absent: "key_reachable C No_File"
| init: "key_reachable C d \<Longrightarrow> runKeysInit C rid kp now issued file sid d = (r, d') \<Longrightarrow> key_reachable C d'"
| step: "key_reachable C d \<Longrightarrow> key_step C d d' \<Longrightarrow> key_reachable C d'"

text \<open>One key is in use: the last one, which the registry names; all others were retired.\<close>

definition one_active :: "key_registry \<Rightarrow> bool" where
  "one_active reg \<longleftrightarrow> (\<exists>es e. kr_keys reg = es @ [e] \<and> (\<forall>x\<in>set es. truthy (ke_validUntil x)) \<and>
     \<not> truthy (ke_validUntil e) \<and> \<not> truthy (ke_revokedAt e) \<and> kr_active reg = ke_fingerprint e)"

definition key_file_ok :: "crypto \<Rightarrow> keys_file \<Rightarrow> bool" where
  "key_file_ok C d \<longleftrightarrow> (case d of Holds reg \<Rightarrow> verifyKeyRegistry C reg = Some True \<and> one_active reg | _ \<Rightarrow> d = No_File)"

lemma active_entry_last: "\<not> truthy (ke_validUntil e) \<Longrightarrow> \<not> truthy (ke_revokedAt e) \<Longrightarrow> active_entry (es @ [e]) = Some e"
  by (simp add: active_entry_def)

lemma writes_ok:
  assumes "writes C (es @ [e]) d d'" "key_file_ok C d" "\<forall>x\<in>set es. truthy (ke_validUntil x)"
    "\<not> truthy (ke_validUntil e)" "\<not> truthy (ke_revokedAt e)"
  shows "key_file_ok C d'"
  using assms(1) assms(2-) active_entry_last [OF assms(4,5), of es]
  by (auto simp: writes_def key_file_ok_def one_active_def)

lemma buildKeyEntry_fresh:
  "buildKeyEntry C pub from parent = Some e \<Longrightarrow> ke_validUntil e = None \<and> ke_revokedAt e = None \<and>
     ke_fingerprint e = fingerprintKey C pub \<and> ke_validFrom e = from"
  by (auto simp: buildKeyEntry_def Let_def split: option.splits)

lemma key_step_ok: "key_step C d d' \<Longrightarrow> key_file_ok C d \<Longrightarrow> key_file_ok C d'"
proof (induction rule: key_step.induct)
  case (rotate now kp issued priv d r d')
  show ?case
  proof (cases "d' = d")
    case False
    with runKeysRotate_writes [OF rotate.hyps(2)] obtain reg e where w: "d = Holds reg"
      "buildKeyEntry C (kp_publicKey kp) now (Some (kr_active reg, priv)) = Some e"
      "writes C (map (retire_entry (kr_active reg) now) (kr_keys reg) @ [e]) d d'" by blast
    from w(1) rotate.prems obtain es a where o: "kr_keys reg = es @ [a]" "\<forall>x\<in>set es. truthy (ke_validUntil x)"
      "kr_active reg = ke_fingerprint a" by (auto simp: key_file_ok_def one_active_def)
    show ?thesis
      using buildKeyEntry_fresh [OF w(2)] o rotate.hyps(1)
      by (intro writes_ok [OF w(3) rotate.prems]) (auto simp: retire_entry_def)
  qed (use rotate in simp)
next
  case (revoke now issued fp reason priv d r d')
  show ?case
  proof (cases "d' = d")
    case False
    with runKeysRevoke_writes [OF revoke.hyps(2)] obtain reg where w: "d = Holds reg" "fp \<noteq> kr_active reg"
      "writes C (map (revoke_entry fp now reason) (kr_keys reg)) d d'" by blast
    from w(1) revoke.prems obtain es a where o: "kr_keys reg = es @ [a]" "\<forall>x\<in>set es. truthy (ke_validUntil x)"
      "\<not> truthy (ke_validUntil a)" "\<not> truthy (ke_revokedAt a)" "kr_active reg = ke_fingerprint a"
      by (auto simp: key_file_ok_def one_active_def)
    have "map (revoke_entry fp now reason) (kr_keys reg) = map (revoke_entry fp now reason) es @ [a]"
      using o w(2) by (auto simp: revoke_entry_def)
    then have "writes C (map (revoke_entry fp now reason) es @ [a]) d d'" using w(3) by simp
    then show ?thesis using o revoke.prems by (elim writes_ok) (auto simp: revoke_entry_def)
  qed (use revoke in simp)
qed

lemma key_init_ok:
  assumes "runKeysInit C rid kp now issued file sid d = (r, d')" "key_file_ok C d"
  shows "key_file_ok C d'"
proof -
  from runKeysInit_writes [OF assms(1)] obtain e where
    e: "buildKeyEntry C (kp_publicKey kp) now None = Some e" "writes C ([] @ [e]) d d'" by auto
  show ?thesis using buildKeyEntry_fresh [OF e(1)] by (intro writes_ok [OF e(2) assms(2)]) auto
qed

text \<open>The keys a file lists as revoked.\<close>

definition revoked_keys :: "keys_file \<Rightarrow> (jstr \<times> jstr) set" where
  "revoked_keys d = (case d of
     Holds reg \<Rightarrow> (\<lambda>e. (ke_fingerprint e, ke_publicKey e)) ` {e \<in> set (kr_keys reg). truthy (ke_revokedAt e)} | _ \<Rightarrow> {})"

lemma revoked_keysI:
  "e \<in> set (kr_keys reg) \<Longrightarrow> truthy (ke_revokedAt e) \<Longrightarrow> (ke_fingerprint e, ke_publicKey e) \<in> revoked_keys (Holds reg)"
  by (auto simp: revoked_keys_def)

text \<open>Entries changed in place, with new ones after them, when no change lifts a revocation.\<close>

lemma writes_revoked:
  assumes "writes C (map f (kr_keys reg) @ es) (Holds reg) d'"
    and "\<And>k. ke_fingerprint (f k) = ke_fingerprint k \<and> ke_publicKey (f k) = ke_publicKey k \<and>
      (truthy (ke_revokedAt k) \<longrightarrow> truthy (ke_revokedAt (f k)))"
  shows "revoked_keys (Holds reg) \<subseteq> revoked_keys d'"
proof (cases "d' = Holds reg")
  case False
  with assms(1) obtain reg' where d': "d' = Holds reg'" "kr_keys reg' = map f (kr_keys reg) @ es"
    by (auto simp: writes_def)
  show ?thesis
  proof
    fix x assume "x \<in> revoked_keys (Holds reg)"
    then obtain k where k: "k \<in> set (kr_keys reg)" "truthy (ke_revokedAt k)" "x = (ke_fingerprint k, ke_publicKey k)"
      by (auto simp: revoked_keys_def)
    then have "(ke_fingerprint (f k), ke_publicKey (f k)) \<in> revoked_keys d'"
      unfolding d'(1) using d'(2) assms(2) by (intro revoked_keysI) auto
    then show "x \<in> revoked_keys d'" using k(3) assms(2) by simp
  qed
qed simp

lemma key_step_revoked: "key_step C d d' \<Longrightarrow> revoked_keys d \<subseteq> revoked_keys d'"
proof (induction rule: key_step.induct)
  case (rotate now kp issued priv d r d')
  show ?case
    using runKeysRotate_writes [OF rotate(2)] by (auto dest!: writes_revoked simp: retire_entry_def)
next
  case (revoke now issued fp reason priv d r d')
  show ?case
  proof (cases "d' = d")
    case False
    with runKeysRevoke_writes [OF revoke(2)] obtain reg where
      w: "d = Holds reg" "writes C (map (revoke_entry fp now reason) (kr_keys reg) @ []) (Holds reg) d'" by auto
    show ?thesis unfolding w(1) by (rule writes_revoked [OF w(2)]) (simp add: revoke_entry_def revoke(1))
  qed simp
qed

text \<open>
  Whatever keys, private keys and times the commands are given, the file of a key registry
  that they made always verifies and has exactly one key in use, the last; with a wrong private
  key a command writes nothing.
\<close>

theorem key_file_sound:
  assumes "key_reachable C d"
  shows "key_file_ok C d"
  using assms by induction (auto simp: key_file_ok_def [of C No_File] intro: key_step_ok key_init_ok)

text \<open>
  C18. A revocation survives every rotation and every further revocation: a key that the file
  lists as revoked stays listed, under the same public key, as revoked. Only \<open>init\<close>, which
  replaces the registry without looking at the file, forgets it.
\<close>

theorem revoked_key_kept:
  assumes "(key_step C)\<^sup>*\<^sup>* (Holds reg) (Holds reg')" "e \<in> set (kr_keys reg)" "truthy (ke_revokedAt e)"
  shows "\<exists>e'\<in>set (kr_keys reg'). ke_fingerprint e' = ke_fingerprint e \<and> ke_publicKey e' = ke_publicKey e \<and>
    truthy (ke_revokedAt e')"
proof -
  have "revoked_keys d \<subseteq> revoked_keys d'" if "(key_step C)\<^sup>*\<^sup>* d d'" for d d'
    using that by induction (auto dest: key_step_revoked)
  from this [OF assms(1)] revoked_keysI [OF assms(2,3)]
  have "(ke_fingerprint e, ke_publicKey e) \<in> revoked_keys (Holds reg')" by blast
  then show ?thesis by (force simp: revoked_keys_def)
qed

section \<open>Rotation\<close>

lemma resolve_entries_distinct:
  "distinct (map ke_fingerprint es) \<Longrightarrow> e \<in> set es \<Longrightarrow>
     resolve_entries parse_time now (ke_fingerprint e) es = entry_status parse_time now e"
  by (induction es) auto

lemma save_verified: "verifyKeyRegistry C reg = Some True \<Longrightarrow> on_file (file_save C reg) d = (Inr (), Holds reg)"
  by (simp add: on_file_def file_save_def)

lemma load_verified: "verifyKeyRegistry C reg = Some True \<Longrightarrow> on_file (file_load C) (Holds reg) = (Inr reg, Holds reg)"
  by (simp add: on_file_def file_load_def)

lemma retire_entry_simps [simp]:
  "ke_fingerprint (retire_entry fp now k) = ke_fingerprint k" "ke_publicKey (retire_entry fp now k) = ke_publicKey k"
  "ke_revokedAt (retire_entry fp now k) = ke_revokedAt k" "ke_validFrom (retire_entry fp now k) = ke_validFrom k"
  by (simp_all add: retire_entry_def)

lemma retired_history: "history_ok C (map (retire_entry fp now) es) \<longleftrightarrow> history_ok C es"
proof -
  have "map key_core (map (retire_entry fp now) es) = map key_core es" by (simp add: retire_entry_def key_core_def)
  then show ?thesis using history_ok_core by metis
qed

lemma find_last_key:
  "ke_fingerprint a \<notin> ke_fingerprint ` set es \<Longrightarrow> find (\<lambda>k. ke_fingerprint k = ke_fingerprint a) (es @ [a]) = Some a"
  by (induction es) auto

lemma key_pair_signs: "key_pair_ok C pub priv \<Longrightarrow> \<exists>e. buildKeyEntry C newPub from (Some (fp, priv)) = Some e"
  unfolding key_pair_ok_def buildKeyEntry_def Let_def by (auto split: option.split)

text \<open>A file that holds a proper registry, with distinct keys and the pair of the key in use.\<close>

definition held :: "crypto \<Rightarrow> key_registry \<Rightarrow> jstr \<Rightarrow> bool" where
  "held C reg priv \<longleftrightarrow> key_file_ok C (Holds reg) \<and> distinct (map ke_fingerprint (kr_keys reg)) \<and>
     key_pair_ok C (ke_publicKey (last (kr_keys reg))) priv"

lemma heldE:
  assumes "held C reg priv"
  obtains es a where "kr_keys reg = es @ [a]" "\<not> truthy (ke_validUntil a)" "\<not> truthy (ke_revokedAt a)"
    "kr_active reg = ke_fingerprint a" "last (kr_keys reg) = a" "verifyKeyRegistry C reg = Some True"
    "history_ok C (kr_keys reg)" "key_pair_ok C (ke_publicKey a) priv"
  using assms verifyKeyRegistry_chain [of C reg]
  by (auto simp: held_def key_file_ok_def one_active_def history_ok_def)

lemma rotate_succeeds:
  assumes "held C reg priv" "key_pair_ok C pub newPriv" "fingerprintKey C pub \<notin> set (map ke_fingerprint (kr_keys reg))" "now \<noteq> []"
  shows "\<exists>res reg' e. runKeysRotate C \<lparr>kp_publicKey = pub, kp_privateKey = newPriv\<rparr> now issued priv (Holds reg) =
      (Inr res, Holds reg') \<and> cm_ok res \<and> held C reg' newPriv \<and>
      kr_keys reg' = map (retire_entry (kr_active reg) now) (kr_keys reg) @ [e] \<and> ke_fingerprint e = fingerprintKey C pub \<and>
      ke_validFrom e = now \<and> \<not> truthy (ke_validUntil e) \<and> \<not> truthy (ke_revokedAt e)"
proof -
  from assms(1) obtain es a where o: "kr_keys reg = es @ [a]" "kr_active reg = ke_fingerprint a" "last (kr_keys reg) = a"
    "verifyKeyRegistry C reg = Some True" "history_ok C (kr_keys reg)" "key_pair_ok C (ke_publicKey a) priv"
    by (rule heldE)
  let ?old = "retire_entry (ke_fingerprint a) now"
  obtain e where e: "buildKeyEntry C pub now (Some (ke_fingerprint a, priv)) = Some e" using key_pair_signs [OF o(6)] by metis
  note f = buildKeyEntry_fresh [OF e]
  let ?es = "map ?old (kr_keys reg) @ [e]"
  have h': "history_ok C ?es"
  proof (rule history_ok_append [where p = "?old a"])
    show "history_ok C (map ?old (kr_keys reg))" using o(5) by (simp add: retired_history)
    show "buildKeyEntry C pub now (Some (ke_fingerprint (?old a), priv)) = Some e" using e by simp
  qed (use assms(3) f o(1,6) in \<open>auto simp: comp_def\<close>)
  have "active_entry ?es = Some e" using f by (simp add: active_entry_last)
  moreover have pe: "key_pair_ok C (ke_publicKey e) newPriv" using buildKeyEntry_parent [OF e o(6)] assms(2) by simp
  ultimately obtain reg' where r: "buildKeyRegistry C issued (kr_serverId reg) ?es newPriv None None = Inr reg'"
    "verifyKeyRegistry C reg' = Some True" "kr_keys reg' = ?es" "kr_active reg' = ke_fingerprint e"
    using buildKeyRegistry_ok [OF h'] by blast
  have find: "find (\<lambda>k. ke_fingerprint k = ke_fingerprint a) (kr_keys reg) = Some a"
    using o(5) find_last_key [of a es] by (simp add: o(1) history_ok_def)
  obtain res where run: "runKeysRotate C \<lparr>kp_publicKey = pub, kp_privateKey = newPriv\<rparr> now issued priv (Holds reg) =
      (Inr res, Holds reg')" "cm_ok res"
    using load_verified [OF o(4)] save_verified [OF r(2)] r(1)
    by (simp add: runKeysRotate_def step_to o(2) find e return_at)
  have "key_file_ok C (Holds reg')"
    using key_step_ok [OF key_step.rotate [OF assms(4) run(1)]] assms(1) by (simp add: held_def)
  then have "held C reg' newPriv" using h' pe r(3) by (simp add: held_def history_ok_def)
  then show ?thesis using run r(3) f o(2) by auto
qed

lemma revoke_succeeds:
  assumes "held C reg priv" "fp \<in> set (map ke_fingerprint (kr_keys reg))" "fp \<noteq> kr_active reg" "now \<noteq> []"
  shows "\<exists>res reg'. runKeysRevoke C now issued fp reason priv (Holds reg) = (Inr res, Holds reg') \<and> cm_ok res \<and>
    held C reg' priv \<and> kr_keys reg' = map (revoke_entry fp now reason) (kr_keys reg)"
proof -
  from assms(1) obtain es a where o: "kr_keys reg = es @ [a]" "\<not> truthy (ke_validUntil a)" "\<not> truthy (ke_revokedAt a)"
    "kr_active reg = ke_fingerprint a" "verifyKeyRegistry C reg = Some True" "history_ok C (kr_keys reg)"
    "key_pair_ok C (ke_publicKey a) priv" by (rule heldE)
  let ?es = "map (revoke_entry fp now reason) (kr_keys reg)"
  have last: "?es = map (revoke_entry fp now reason) es @ [a]" using o(1,4) assms(3) by (auto simp: revoke_entry_def)
  have "map key_core ?es = map key_core (kr_keys reg)" by (simp add: revoke_entry_def key_core_def)
  then have h': "history_ok C ?es" using o(6) history_ok_core by metis
  have "active_entry ?es = Some a" unfolding last using o(2,3) by (simp add: active_entry_last)
  then obtain reg' where r: "buildKeyRegistry C issued (kr_serverId reg) ?es priv None None = Inr reg'"
    "verifyKeyRegistry C reg' = Some True" "kr_keys reg' = ?es"
    using buildKeyRegistry_ok [OF h' _ o(7)] by blast
  have "find (\<lambda>k. ke_fingerprint k = fp) (kr_keys reg) \<noteq> None" using assms(2) by (auto simp: find_None_iff)
  then obtain res where run: "runKeysRevoke C now issued fp reason priv (Holds reg) = (Inr res, Holds reg')" "cm_ok res"
    using load_verified [OF o(5)] save_verified [OF r(2)] r(1) assms(3)
    by (simp add: runKeysRevoke_def step_to return_at)
  have "key_file_ok C (Holds reg')"
    using key_step_ok [OF key_step.revoke [OF assms(4) run(1)]] assms(1) by (simp add: held_def)
  moreover have "last (kr_keys reg') = a" unfolding r(3) last by simp
  ultimately have "held C reg' priv" using h' o(7) r(3) by (simp add: held_def history_ok_def)
  then show ?thesis using run r(3) by blast
qed

text \<open>
  Rotation hands the server over to the new key. With the private key of the key in use and
  a new pair not listed yet, \<open>rotate\<close> succeeds; from then on the new key resolves as active and
  the old one as expired.
\<close>

theorem rotate_hands_over:
  assumes "held C reg priv" "key_pair_ok C pub newPriv" "fingerprintKey C pub \<notin> set (map ke_fingerprint (kr_keys reg))"
    and "now \<noteq> []" "parse_time now = Some t" "t \<le> at" "\<not> time_gt parse_time (ke_validFrom (last (kr_keys reg))) at"
  shows "\<exists>res reg' e old. runKeysRotate C \<lparr>kp_publicKey = pub, kp_privateKey = newPriv\<rparr> now issued priv (Holds reg) =
      (Inr res, Holds reg') \<and> cm_ok res \<and> held C reg' newPriv \<and>
    resolveKey C parse_time reg' pub at = Active e \<and>
    resolveKey C parse_time reg' (ke_publicKey (last (kr_keys reg))) at = Expired old"
proof -
  from assms(1) obtain es a where o: "kr_keys reg = es @ [a]" "\<not> truthy (ke_revokedAt a)" "kr_active reg = ke_fingerprint a"
    "last (kr_keys reg) = a" "history_ok C (kr_keys reg)" by (rule heldE)
  from rotate_succeeds [OF assms(1-4)] obtain res reg' e where
    run: "runKeysRotate C \<lparr>kp_publicKey = pub, kp_privateKey = newPriv\<rparr> now issued priv (Holds reg) = (Inr res, Holds reg')"
      "cm_ok res" "held C reg' newPriv"
    and r: "kr_keys reg' = map (retire_entry (ke_fingerprint a) now) (kr_keys reg) @ [e]"
    and f: "ke_fingerprint e = fingerprintKey C pub" "ke_validFrom e = now" "\<not> truthy (ke_validUntil e)" "\<not> truthy (ke_revokedAt e)"
    unfolding o(3) by blast
  let ?old = "retire_entry (ke_fingerprint a) now a"
  have d: "distinct (map ke_fingerprint (kr_keys reg'))" using run(3) by (simp add: held_def)
  have "resolveKey C parse_time reg' pub at = Active e"
    using resolve_entries_distinct [OF d, of e] f assms(5,6) by (simp add: resolveKey_def r entry_status_Active time_gt_def)
  moreover have "resolveKey C parse_time reg' (ke_publicKey (last (kr_keys reg))) at = Expired ?old"
  proof -
    have "fingerprintKey C (ke_publicKey a) = ke_fingerprint ?old"
      using o(1,5) by (simp add: history_ok_def fingerprints_ok_def)
    moreover have "?old \<in> set (kr_keys reg')" by (simp add: r o(1))
    ultimately show ?thesis
      using resolve_entries_distinct [OF d, of ?old] o(2,4) assms(4-7)
      by (simp add: resolveKey_def) (simp add: entry_status_def retire_entry_def time_le_def)
  qed
  ultimately show ?thesis using run by blast
qed

section \<open>Concrete commands\<close>

definition toy_pair :: "jstr \<Rightarrow> key_pair" where
  "toy_pair k = \<lparr>kp_publicKey = k, kp_privateKey = k\<rparr>"

lemma toy_init:
  "\<exists>res. runKeysInit toy_crypto [] (toy_pair (js ''g'')) (js ''t0'') [] [] (Some (js ''s'')) No_File = (Inr res, Holds toy_registry)"
proof -
  have "buildKeyEntry toy_crypto (js ''g'') (js ''t0'') None = Some toy_genesis"
    by (simp add: buildKeyEntry_def toy_genesis_def fingerprintKey_def toy_crypto_def Let_def)
  moreover obtain r where "buildKeyRegistry toy_crypto [] (js ''s'') [toy_genesis] (js ''g'') None None = Inr r"
    using buildKeyRegistry_verifies_witness by blast
  ultimately show ?thesis
    using save_verified [OF conjunct1 [OF toy_registry_verifies]]
    by (simp add: runKeysInit_def toy_pair_def default_to_def toy_registry_def Let_def step_to return_at)
qed

theorem key_file_sound_witness: "key_file_ok toy_crypto (Holds toy_registry)"
proof -
  from toy_init obtain res where
    "runKeysInit toy_crypto [] (toy_pair (js ''g'')) (js ''t0'') [] [] (Some (js ''s'')) No_File = (Inr res, Holds toy_registry)"
    by blast
  from key_file_sound [OF key_reachable.init [OF key_reachable.absent this]] show ?thesis .
qed

lemma toy_held: "held toy_crypto toy_registry (js ''g'')"
  using toy_registry_verifies toy_genesis_pair by (simp add: held_def key_file_ok_def one_active_def) (simp add: toy_genesis_def)

lemma toy_keys:
  "kr_keys toy_registry = [toy_genesis]" "kr_active toy_registry = js ''g''" "ke_fingerprint toy_genesis = js ''g''"
  "ke_publicKey toy_genesis = js ''g''" "ke_validFrom toy_genesis = js ''t0''" "fingerprintKey toy_crypto k = k"
  using toy_registry_verifies by (simp_all add: toy_genesis_def fingerprintKey_def toy_crypto_def)

theorem rotate_hands_over_witness:
  "\<exists>res reg e old. runKeysRotate toy_crypto (toy_pair (js ''h'')) (js ''t5'') [] (js ''g'') (Holds toy_registry) =
      (Inr res, Holds reg) \<and> cm_ok res \<and> resolveKey toy_crypto no_dates reg (js ''h'') 7 = Active e \<and>
    resolveKey toy_crypto no_dates reg (js ''g'') 7 = Expired old"
  using rotate_hands_over [OF toy_held, of "js ''h''" "js ''h''" "js ''t5''" no_dates 5 7 "[]"]
  by (auto simp: toy_keys toy_key_pair no_dates_def time_gt_def toy_pair_def)

text \<open>Rotate from \<open>g\<close> to \<open>h\<close>, revoke \<open>g\<close>, rotate to \<open>i\<close>: the last registry still lists \<open>g\<close> as revoked.\<close>

theorem revoked_key_kept_witness:
  "\<exists>reg2 reg3 res e'. runKeysRotate toy_crypto (toy_pair (js ''i'')) (js ''t9'') [] (js ''h'') (Holds reg2) = (Inr res, Holds reg3) \<and>
     e' \<in> set (kr_keys reg3) \<and> ke_fingerprint e' = js ''g'' \<and> truthy (ke_revokedAt e')"
proof -
  from rotate_succeeds [OF toy_held toy_key_pair [of "js ''h''"], of "js ''t5''" "[]"] obtain reg1 e where
    r1: "held toy_crypto reg1 (js ''h'')" "kr_keys reg1 = [retire_entry (js ''g'') (js ''t5'') toy_genesis, e]" "ke_fingerprint e = js ''h''"
    by (auto simp: toy_keys)
  have a1: "kr_active reg1 = js ''h''" using r1 by (auto elim!: heldE)
  from revoke_succeeds [OF r1(1), of "js ''g''" "js ''t7''" "[]" None] obtain reg2 where
    r2: "held toy_crypto reg2 (js ''h'')" "kr_keys reg2 = map (revoke_entry (js ''g'') (js ''t7'') None) (kr_keys reg1)"
    using a1 by (auto simp: r1(2) toy_keys)
  let ?g = "revoke_entry (js ''g'') (js ''t7'') None (retire_entry (js ''g'') (js ''t5'') toy_genesis)"
  have g: "?g \<in> set (kr_keys reg2)" "truthy (ke_revokedAt ?g)" "ke_fingerprint ?g = js ''g''"
    by (simp_all add: r2(2) r1(2) revoke_entry_def toy_keys)
  have "map ke_fingerprint (kr_keys reg2) = [js ''g'', js ''h'']" by (simp add: r2(2) r1(2,3) revoke_entry_def toy_keys)
  with rotate_succeeds [OF r2(1) toy_key_pair [of "js ''i''"], of "js ''t9''" "[]"] obtain res reg3 where
    r3: "runKeysRotate toy_crypto (toy_pair (js ''i'')) (js ''t9'') [] (js ''h'') (Holds reg2) = (Inr res, Holds reg3)"
    by (auto simp: toy_keys toy_pair_def)
  have "key_step toy_crypto (Holds reg2) (Holds reg3)" by (rule key_step.rotate [OF _ r3]) simp
  from revoked_key_kept [OF r_into_rtranclp [where r = "key_step toy_crypto", OF this] g(1,2)] g(3) r3 show ?thesis by auto
qed

end
