(* ===== verification/Cli_Cards.thy ===== *)
theory Cli_Cards
  imports Client_Examples Cli_Prelude
begin

text \<open>
  The commands of \<open>packages/cli/src/commands\<close> on cards, manifests, pins and parked audits, and the flag
  parser of \<open>cli.ts\<close>. Each prints a report and exits with 0 or 1. What a source gives when it is
  fetched or read is an argument; a document that parses has its declared type. Sorting by locale
  and padding are as the runtime does them.
\<close>

section \<open>Flags\<close>

datatype flag_value = Flag_Set | Flag_Text jstr

text \<open>\<open>Inl\<close> is the call of \<open>fail\<close>, which ends the process.\<close>

fun parse_flags ::
  "jstr list \<Rightarrow> jstr list \<Rightarrow> jstr list \<Rightarrow> (jstr \<times> flag_value) list \<Rightarrow> jstr + jstr list \<times> (jstr \<times> flag_value) list" where
  "parse_flags withValue [] rest flags = Inr (rest, flags)"
| "parse_flags withValue (token # raw) rest flags =
     (case strip_prefix (js ''--'') token of
        None \<Rightarrow> parse_flags withValue raw (rest @ [token]) flags
      | Some name \<Rightarrow>
          if name \<in> set withValue then
            (case raw of
               [] \<Rightarrow> Inl (js ''--'' @ name @ js '' requires a value'')
             | value # raw' \<Rightarrow> parse_flags withValue raw' rest (js_assign name (Flag_Text value) flags))
          else parse_flags withValue raw rest (js_assign name Flag_Set flags))"

definition parseFlags :: "jstr list \<Rightarrow> jstr list \<Rightarrow> jstr + jstr list \<times> (jstr \<times> flag_value) list" where
  "parseFlags raw withValue = parse_flags withValue raw [] []"

section \<open>Loading\<close>

datatype fetch_result = Fetch_Unreachable jstr | Fetch_Status nat | Fetch_Text jstr

record 'a source_reader =
  sr_fetch :: "jstr \<Rightarrow> fetch_result"
  sr_file :: "jstr \<Rightarrow> jstr + jstr"
  sr_parse :: "jstr \<Rightarrow> 'a option"

text \<open>\<open>loadCard\<close> and \<open>loadManifest\<close>, the same code for two types.\<close>

definition load_source :: "'a source_reader \<Rightarrow> jstr \<Rightarrow> jstr + 'a" where
  "load_source w source =
     (let raw = (if strip_prefix (js ''http://'') source \<noteq> None \<or> strip_prefix (js ''https://'') source \<noteq> None
                 then (case sr_fetch w source of
                         Fetch_Unreachable m \<Rightarrow> Inl m
                       | Fetch_Status n \<Rightarrow> Inl (js ''could not fetch '' @ source @ js '': HTTP '' @ nat_dec n)
                       | Fetch_Text t \<Rightarrow> Inr t)
                 else sr_file w source)
      in case raw of
           Inl m \<Rightarrow> Inl m
         | Inr t \<Rightarrow> (case sr_parse w t of None \<Rightarrow> Inl (source @ js '' is not valid JSON'') | Some v \<Rightarrow> Inr v))"

definition or_text :: "jstr \<Rightarrow> string \<Rightarrow> jstr" where
  "or_text s d = (if s = [] then js d else s)"

section \<open>Verifying a card or a manifest\<close>

definition runVerify :: "crypto \<Rightarrow> glyph_card source_reader \<Rightarrow> jstr \<Rightarrow> jstr + command_result" where
  "runVerify C w source =
     (case load_source w source of
        Inl e \<Rightarrow> Inl e
      | Inr c \<Rightarrow>
          let idOk = (computeGlyphId C c = gc_id c); sigOk = verifyGlyph C c; ok = (idOk \<and> sigOk)
          in Inr \<lparr>cm_ok = ok, cm_report = lines
               [js ''Verifying '' @ or_text (gc_name c) ''(unnamed card)'' @ js '' '' @ [8212] @ js '' '' @ source,
                js ''  content hash: '' @ (if idOk then js ''OK (id matches the canonical content)''
                                          else js ''FAIL (id does not match the content)''),
                js ''  signature:    '' @ (if sigOk then js ''OK (verifies against the embedded public key)''
                                          else js ''FAIL (missing or invalid)''),
                if ok then js ''PASS'' else js ''FAIL'']\<rparr>)"

definition bool_str :: "bool \<Rightarrow> jstr" where
  "bool_str b = (if b then js ''true'' else js ''false'')"

definition runManifestVerify :: "crypto \<Rightarrow> update_manifest source_reader \<Rightarrow> jstr \<Rightarrow> jstr + command_result" where
  "runManifestVerify C w source =
     (if source = [] then Inr (refused (js ''manifest verify requires a file path or URL''))
      else case load_source w source of
        Inl e \<Rightarrow> Inl e
      | Inr m \<Rightarrow>
          let sigOk = verifyManifest C m
          in Inr \<lparr>cm_ok = sigOk, cm_report = lines (filter (\<lambda>l. l \<noteq> [])
               [js ''Verifying update manifest '' @ [8212] @ js '' '' @ source,
                js ''  tool:       '' @ um_toolName m,
                js ''  '' @ um_previousCardId m @ js '' -> '' @ um_newCardId m,
                js ''  reason:     '' @ um_reason m,
                js ''  breaking:   '' @ bool_str (um_breaking m),
                js ''  security:   '' @ impact_str (um_securityImpact m),
                js ''  issued at:  '' @ um_issuedAt m,
                js ''  signed by:  '' @ um_serverPublicKey m,
                js ''  signature:  '' @ (if sigOk then js ''OK'' else js ''FAIL (does not verify against embedded key)''),
                if sigOk then js ''PASS'' else js ''FAIL'',
                if sigOk then js ''  note: this verifies internal consistency only. A pinned consumer also requires the manifest to be signed by the pinned key.''
                else []])\<rparr>)"

section \<open>Inspecting a server\<close>

text \<open>\<open>collate\<close> sorts a lexicon by name with \<open>localeCompare\<close>.\<close>

definition formatOverview ::
  "(lexicon_entry list \<Rightarrow> lexicon_entry list) \<Rightarrow> jstr \<Rightarrow> handshake_response \<Rightarrow> jstr" where
  "formatOverview collate url h =
     (let head_lines = [js ''Glyph server  '' @ url,
            js ''protocol '' @ hr_protocolVersion h @ js ''  '' @ [183] @ js ''  server '' @ hr_serverVersion h @ js ''  '' @
              [183] @ js ''  '' @ nat_dec (length (hr_lexicon h)) @ js '' glyph(s)'']
      in if hr_lexicon h = [] then lines (head_lines @ [[], js ''  (no glyphs registered)''])
         else lines (head_lines @ [[]] @ concat (map (\<lambda>g.
           [js ''  ['' @ risk_str (lx_riskTier g) @ js ''] '' @ lx_name g @ js '' '' @ [8212] @ js '' '' @ lx_intent g] @
           (if lx_tags g = [] then [] else [js ''            tags: '' @ intercalate (js '', '') (lx_tags g)]))
           (collate (hr_lexicon h)))))"

definition formatCard :: "crypto \<Rightarrow> glyph_card \<Rightarrow> jstr" where
  "formatCard C c =
     (let cost = gc_cost c; dot = js '' '' @ [183] @ js '' '' in lines
       [gc_name c @ js ''  ('' @ take 12 (gc_id c) @ [8230] @ js '')'',
        js ''  intent:       '' @ gc_intent c,
        js ''  provider:     '' @ gc_provider c,
        js ''  risk:         '' @ risk_str (co_riskTier cost) @ dot @ js ''latency '' @ latency_str (co_latency cost) @ dot @
          (if co_sideEffects cost then js ''side effects'' else js ''no side effects'') @ dot @
          (if co_reversible cost then js ''reversible'' else js ''irreversible''),
        js ''  confirmation: '' @ (if co_requiresConfirmation cost then js ''required'' else js ''not required''),
        js ''  tags:         '' @ (let t = intercalate (js '', '') (gc_tags c) in if t = [] then [8212] else t),
        js ''  signature:    '' @ (if verifyGlyph C c then js ''OK'' else js ''INVALID'')])"

definition runInspect ::
  "client_config \<Rightarrow> (lexicon_entry list \<Rightarrow> lexicon_entry list) \<Rightarrow> jstr \<Rightarrow> jstr option \<Rightarrow> jstr client_step" where
  "runInspect cfg collate url glyphName =
     (if truthy glyphName
      then and_then (client_getCard cfg (the glyphName) (Some Rich)) (\<lambda>c. return (formatCard (cc_crypto cfg) c))
      else and_then (client_connect cfg None) (\<lambda>h. return (formatOverview collate url h)))"

section \<open>Comparing cards\<close>

text \<open>\<open>s.padEnd(n)\<close>\<close>

definition padEnd :: "jstr \<Rightarrow> nat \<Rightarrow> jstr" where
  "padEnd s n = s @ replicate (n - length s) (uc CHR '' '')"

definition change_width :: "card_field_change list \<Rightarrow> nat" where
  "change_width changes = fold max (map (\<lambda>c. length (ch_field c)) changes) 0"

definition severity_tag :: "severity \<Rightarrow> jstr" where
  "severity_tag s = (if s = Breaking then js ''BREAKING'' else js ''review  '')"

definition fmt :: "jsval \<Rightarrow> jstr" where
  "fmt value =
     (if value = JUndef then js ''(absent)''
      else let s = (case value of JStr t \<Rightarrow> t | _ \<Rightarrow> ser value)
           in if length s > 60 then take 57 s @ js ''...'' else s)"

definition yes_no :: "bool \<Rightarrow> jstr" where
  "yes_no b = (if b then js ''yes'' else js ''no'')"

definition formatDiff :: "glyph_card \<Rightarrow> glyph_card \<Rightarrow> card_diff \<Rightarrow> jstr" where
  "formatDiff old_card next diff =
     (let head_lines = [js ''Comparing '' @ or_text (gc_name old_card) ''(unnamed card)'',
             js ''  old id: '' @ gc_id old_card, js ''  new id: '' @ gc_id next, []];
          width = change_width (df_changes diff)
      in if \<not> df_changed diff
         then lines (head_lines @ [js ''  no differences '' @ [8212] @ js '' the cards are identical'', js ''PASS''])
         else lines (head_lines @
           map (\<lambda>c. js ''  '' @ padEnd (ch_field c) width @ js ''  '' @ severity_tag (ch_severity c) @ js ''  '' @
             fmt (ch_before c) @ js '' -> '' @ fmt (ch_after c)) (df_changes diff) @
           [[], js ''  id changed:   '' @ yes_no (df_idChanged diff), js ''  key changed:  '' @ yes_no (df_keyChanged diff),
            if df_requiresApproval diff
            then js ''REQUIRES APPROVAL '' @ [8212] @ js '' breaking changes present, re-approval needed''
            else js ''REVIEW '' @ [8212] @ js '' descriptive changes only, no breaking change'']))"

definition runDiffCard :: "glyph_card source_reader \<Rightarrow> jstr \<Rightarrow> jstr \<Rightarrow> jstr + command_result" where
  "runDiffCard w oldSource newSource =
     (case load_source w oldSource of
        Inl e \<Rightarrow> Inl e
      | Inr old_card \<Rightarrow>
          (case load_source w newSource of
             Inl e \<Rightarrow> Inl e
           | Inr next \<Rightarrow>
               let diff = diffCards old_card next
               in Inr \<lparr>cm_ok = \<not> df_requiresApproval diff, cm_report = formatDiff old_card next diff\<rparr>))"

section \<open>Parked audits\<close>

definition renderDiff :: "card_diff \<Rightarrow> jstr list" where
  "renderDiff diff =
     (if \<not> df_changed diff then [js ''    (no field changes)'']
      else map (\<lambda>c. js ''    '' @ padEnd (ch_field c) (change_width (df_changes diff)) @ js ''  '' @ severity_tag (ch_severity c))
             (df_changes diff))"

definition audit_lines :: "pending_entry \<Rightarrow> jstr list" where
  "audit_lines e =
     [js ''  '' @ padEnd (pe_toolName e) 28 @ js '' '' @
        (if df_requiresApproval (pe_diff e) then js ''BREAKING '' @ [8212] @ js '' needs review'' else js ''review-only''),
      js ''    new id:    '' @ gc_id (pe_newCard e), js ''    detected:  '' @ pe_detectedAt e] @
     (if df_keyChanged (pe_diff e) then [js ''    keyChanged: yes''] else []) @ renderDiff (pe_diff e)"

text \<open>A store of a fresh process over a file; only its file survives the process.\<close>

definition fresh_store :: "'v store_file \<times> bool \<Rightarrow> 'v file_store" where
  "fresh_store f = \<lparr>fs_cache = None, fs_disk = fst f, fs_writable = snd f, fs_poisoned = False\<rparr>"

definition runAuditList :: "pending_entry store_file \<times> bool \<Rightarrow> store_error + command_result" where
  "runAuditList f =
     (case fst (file_queue_list (fresh_store f)) of
        Inl e \<Rightarrow> Inl e
      | Inr entries \<Rightarrow> Inr
          (if entries = [] then \<lparr>cm_ok = True, cm_report = js ''No pending audits. Tool updates are all reviewed.''\<rparr>
           else \<lparr>cm_ok = \<not> list_ex (\<lambda>e. df_requiresApproval (pe_diff e)) entries,
                 cm_report = lines ([js ''Pending tool updates awaiting audit:''] @ concat (map audit_lines entries) @
                   [[], js ''Review a card and run `glyph approve <card>` to promote it.''])\<rparr>))"

section \<open>Pins\<close>

type_synonym pin_file = "pin store_file \<times> bool"

definition pin_lines :: "pin \<Rightarrow> jstr list" where
  "pin_lines p =
     (let status = (if truthy (pin_revokedAt p) then js ''revoked'' else js ''approved'');
          when = default_to (pin_approvedAt p) (pin_revokedAt p);
          why = (if truthy (pin_revokeReason p) then js '' '' @ [8212] @ js '' '' @ the (pin_revokeReason p) else [])
      in [js ''  '' @ padEnd (pin_toolName p) 28 @ js '' '' @ padEnd status 9 @ js '' '' @ when @ why,
          js ''    id:        '' @ gc_id (pin_card p),
          js ''    publicKey: '' @ default_to (js ''undefined'') (gc_publicKey (pin_card p))])"

definition runPinsList :: "pin_file \<Rightarrow> store_error + command_result" where
  "runPinsList f =
     (case fst (file_pin_list (fresh_store f)) of
        Inl e \<Rightarrow> Inl e
      | Inr pins \<Rightarrow> Inr \<lparr>cm_ok = True, cm_report =
          (if pins = [] then js ''No pins. Use `glyph approve` to record one.''
           else lines (js ''Pinned tools:'' # concat (map pin_lines pins)))\<rparr>)"

text \<open>The client a command makes around the store, whose base URL is unused.\<close>

definition cli_client :: "pin_file \<Rightarrow> client_options" where
  "cli_client f = \<lparr>op_baseUrl = js ''http://unused'', op_consumerId = None, op_contextBudget = None, op_authToken = None,
     op_headers = None, op_pins = Some (Stored_Pins (fresh_store f)), op_secureMode = None, op_autoApproveReviewChanges = None,
     op_verifyReceipts = None, op_trust = None, op_requireAttestation = None, op_attestationVerifiers = None,
     op_resilientUpdates = None, op_pendingAuditQueue = None, op_tofu = None, op_autoPromotionPolicy = None\<rparr>"

definition pin_file_after :: "bool \<Rightarrow> client_state \<Rightarrow> pin_file" where
  "pin_file_after writable s =
     (case cl_pins s of Some (Stored_Pins st) \<Rightarrow> (fs_disk st, writable) | _ \<Rightarrow> (File_Missing, writable))"

definition with_client :: "'a client_step \<Rightarrow> (pin_file, client_error, 'a) step" where
  "with_client m f = (case m (initial_client (cli_client f)) of (r, s) \<Rightarrow> (r, pin_file_after (snd f) s))"

datatype pins_error = Load_Failed jstr | Client_Refused client_error

definition runPinsApprove ::
  "client_config \<Rightarrow> glyph_card source_reader \<Rightarrow> jstr \<Rightarrow> jstr \<Rightarrow> jstr \<Rightarrow> bool option \<Rightarrow> (pin_file, pins_error, command_result) step" where
  "runPinsApprove cfg w now path source reinstate f =
     (if source = [] then (Inr (refused (js ''approve requires a card source (file or URL)'')), f)
      else case load_source w source of
        Inl e \<Rightarrow> (Inl (Load_Failed e), f)
      | Inr c \<Rightarrow>
          (case with_client (client_approveCard cfg now c reinstate) f of
             (Inl e, f') \<Rightarrow> (Inl (Client_Refused e), f')
           | (Inr p, f') \<Rightarrow> (Inr \<lparr>cm_ok = True, cm_report = lines
               [js ''Approved \"'' @ pin_toolName p @ js ''\"'', js ''  id:        '' @ gc_id (pin_card p),
                js ''  publicKey: '' @ default_to (js ''undefined'') (gc_publicKey (pin_card p)),
                js ''  saved to:  '' @ path]\<rparr>, f')))"

definition runPinsRevoke ::
  "jstr \<Rightarrow> jstr \<Rightarrow> jstr option \<Rightarrow> (pin_file, pins_error, command_result) step" where
  "runPinsRevoke now toolName reason f =
     (if toolName = [] then (Inr (refused (js ''revoke requires a tool name'')), f)
      else case with_client (client_revokeTool now toolName reason) f of
        (Inl e, f') \<Rightarrow> (Inl (Client_Refused e), f')
      | (Inr p, f') \<Rightarrow> (Inr \<lparr>cm_ok = True, cm_report = lines (filter (\<lambda>l. l \<noteq> [])
          [js ''Revoked \"'' @ pin_toolName p @ js ''\"'',
           if truthy (pin_revokeReason p) then js ''  reason: '' @ the (pin_revokeReason p) else [],
           js ''  reinstate with: glyph approve <card> --reinstate''])\<rparr>, f'))"

section \<open>What the commands decide\<close>

text \<open>The exit code of \<open>verify\<close> is the verdict of \<open>verifyGlyph\<close>, which checks the id itself.\<close>

lemma runVerify_iff:
  "runVerify C w source = Inr res \<Longrightarrow> \<exists>c. load_source w source = Inr c \<and> (cm_ok res \<longleftrightarrow> verifyGlyph C c)"
  by (auto simp: runVerify_def Let_def verifyGlyph_iff split: sum.splits)

lemma runDiffCard_iff:
  "runDiffCard w a b = Inr res \<Longrightarrow> \<exists>c d. load_source w a = Inr c \<and> load_source w b = Inr d \<and>
     (cm_ok res \<longleftrightarrow> \<not> df_requiresApproval (diffCards c d))"
  by (auto simp: runDiffCard_def Let_def split: sum.splits)

text \<open>The pins of a file.\<close>

definition pins_in :: "pin_file \<Rightarrow> jstr \<Rightarrow> pin option" where
  "pins_in f = (case fst f of File_Entries m \<Rightarrow> map_of m | _ \<Rightarrow> Map.empty)"

definition pin_file_wf :: "pin_file \<Rightarrow> bool" where
  "pin_file_wf f \<longleftrightarrow> (case fst f of File_Entries m \<Rightarrow> omap_wf m | _ \<Rightarrow> True)"

lemma with_pins_get_file:
  assumes "cl_pins s = Some (Stored_Pins (fresh_store f))"
  shows "(\<exists>e t. with_pins (pins_get n) s = (Inl e, t) \<and> pin_file_after (snd f) t = f) \<or>
    (\<exists>t m. with_pins (pins_get n) s = (Inr (pins_in f n), t) \<and> map_of m = pins_in f \<and> (pin_file_wf f \<longrightarrow> omap_wf m) \<and>
       cl_pins t = Some (Stored_Pins ((fresh_store f)\<lparr>fs_cache := Some m\<rparr>)))"
  using assms
  by (cases f; cases "fst f") (auto simp: with_pins_def pins_get_def via_def file_pin_get_def file_get_def and_then_def
      store_load_def fresh_store_def return_def pin_file_after_def pins_in_def pin_file_wf_def)

lemma with_pins_set_file:
  assumes "cl_pins t = Some (Stored_Pins ((fresh_store f)\<lparr>fs_cache := Some m\<rparr>))" "omap_wf m" "map_of m = pins_in f"
    and "with_pins (pins_set p) t = (r, u)"
  shows "(\<exists>e. r = Inl e \<and> pin_file_after (snd f) u = f) \<or>
    (r = Inr () \<and> pins_in (pin_file_after (snd f) u) = (pins_in f)(pin_toolName p \<mapsto> p) \<and> pin_file_wf (pin_file_after (snd f) u))"
  using assms
  by (cases f) (auto simp: with_pins_def pins_set_def via_def file_pin_set_def file_put_def and_then_def store_load_def
      store_flush_def fresh_store_def Let_def pin_file_after_def pins_in_def pin_file_wf_def
      map_of_enumeration_order omap_wf_enumeration_order omap_wf_set map_of_omap_set split: if_splits)

lemma cli_pins: "cl_pins (initial_client (cli_client f)) = Some (Stored_Pins (fresh_store f))"
  by (simp add: initial_client_def cli_client_def)

definition is_revoked :: "pin option \<Rightarrow> bool" where
  "is_revoked p \<longleftrightarrow> (case p of None \<Rightarrow> False | Some p \<Rightarrow> truthy (pin_revokedAt p))"

text \<open>What a command may have done to the file: nothing, or set one pin.\<close>

definition sets_pin :: "pin_file \<Rightarrow> pin_file \<Rightarrow> pin \<Rightarrow> bool" where
  "sets_pin f f' p \<longleftrightarrow> pins_in f' = (pins_in f)(pin_toolName p \<mapsto> p) \<and> pin_file_wf f'"

lemma approve_file:
  assumes "with_client (client_approveCard cfg now c reinstate) f = (r, f')" "pin_file_wf f"
  shows "f' = f \<or> (verifyGlyph (cc_crypto cfg) c \<and> (flag reinstate \<or> \<not> is_revoked (pins_in f (gc_name c))) \<and>
    sets_pin f f' \<lparr>pin_toolName = gc_name c, pin_approvedAt = now, pin_card = c, pin_revokedAt = None, pin_revokeReason = None\<rparr>)"
proof -
  let ?s = "initial_client (cli_client f)"
  let ?p = "\<lparr>pin_toolName = gc_name c, pin_approvedAt = now, pin_card = c, pin_revokedAt = None, pin_revokeReason = None\<rparr>"
  have same: "pin_file_after (snd f) ?s = f" by (cases f) (simp add: pin_file_after_def cli_pins fresh_store_def)
  show ?thesis
  proof (cases "truthy (gc_signature c) \<and> verifyGlyph (cc_crypto cfg) c")
    case False
    then have "f' = pin_file_after (snd f) ?s"
      using assms(1) by (auto simp: with_client_def client_approveCard_def throw_def)
    then show ?thesis using same by simp
  next
    case True
    from with_pins_get_file [OF cli_pins [of f], of "gc_name c"] show ?thesis
    proof
      assume "\<exists>e t. with_pins (pins_get (gc_name c)) ?s = (Inl e, t) \<and> pin_file_after (snd f) t = f"
      then show ?thesis using assms(1) True by (auto simp: with_client_def client_approveCard_def and_then_def)
    next
      assume "\<exists>t m. with_pins (pins_get (gc_name c)) ?s = (Inr (pins_in f (gc_name c)), t) \<and> map_of m = pins_in f \<and>
        (pin_file_wf f \<longrightarrow> omap_wf m) \<and> cl_pins t = Some (Stored_Pins ((fresh_store f)\<lparr>fs_cache := Some m\<rparr>))"
      then obtain t m where t: "with_pins (pins_get (gc_name c)) ?s = (Inr (pins_in f (gc_name c)), t)" "map_of m = pins_in f"
        "omap_wf m" "cl_pins t = Some (Stored_Pins ((fresh_store f)\<lparr>fs_cache := Some m\<rparr>))" using assms(2) by blast
      show ?thesis
      proof (cases "is_revoked (pins_in f (gc_name c)) \<and> \<not> flag reinstate")
        case rv: True
        then have "f' = pin_file_after (snd f) t"
          using assms(1) True t(1) by (auto simp: with_client_def client_approveCard_def and_then_def throw_def is_revoked_def)
        also have "\<dots> = f" by (cases f) (simp add: pin_file_after_def t(4) fresh_store_def)
        finally show ?thesis by simp
      next
        case ok: False
        obtain q u where q: "with_pins (pins_set ?p) t = (q, u)" by fastforce
        have "f' = pin_file_after (snd f) u"
          using assms(1) True t(1) ok q
          by (cases q) (auto simp: with_client_def client_approveCard_def and_then_def return_def is_revoked_def Let_def)
        then show ?thesis using with_pins_set_file [OF t(4,3,2) q] True ok by (auto simp: sets_pin_def)
      qed
    qed
  qed
qed

lemma revoke_file:
  assumes "with_client (client_revokeTool now n reason) f = (r, f')" "pin_file_wf f"
  shows "f' = f \<or> (\<exists>p. pins_in f n = Some p \<and> \<not> truthy (pin_revokedAt p) \<and>
    sets_pin f f' (p\<lparr>pin_revokedAt := Some now, pin_revokeReason := reason\<rparr>))"
proof -
  let ?s = "initial_client (cli_client f)"
  from with_pins_get_file [OF cli_pins [of f], of n] show ?thesis
  proof
    assume "\<exists>e t. with_pins (pins_get n) ?s = (Inl e, t) \<and> pin_file_after (snd f) t = f"
    then show ?thesis using assms(1) by (auto simp: with_client_def client_revokeTool_def and_then_def)
  next
    assume "\<exists>t m. with_pins (pins_get n) ?s = (Inr (pins_in f n), t) \<and> map_of m = pins_in f \<and>
      (pin_file_wf f \<longrightarrow> omap_wf m) \<and> cl_pins t = Some (Stored_Pins ((fresh_store f)\<lparr>fs_cache := Some m\<rparr>))"
    then obtain t m where t: "with_pins (pins_get n) ?s = (Inr (pins_in f n), t)" "map_of m = pins_in f"
      "omap_wf m" "cl_pins t = Some (Stored_Pins ((fresh_store f)\<lparr>fs_cache := Some m\<rparr>))" using assms(2) by blast
    have same: "pin_file_after (snd f) t = f" by (cases f) (simp add: pin_file_after_def t(4) fresh_store_def)
    show ?thesis
    proof (cases "\<exists>p. pins_in f n = Some p \<and> \<not> truthy (pin_revokedAt p)")
      case False
      then have "f' = pin_file_after (snd f) t"
        using assms(1) t(1) by (auto simp: with_client_def client_revokeTool_def and_then_def throw_def return_def split: option.splits)
      then show ?thesis using same by simp
    next
      case True
      then obtain p where p: "pins_in f n = Some p" "\<not> truthy (pin_revokedAt p)" by blast
      obtain q u where q: "with_pins (pins_set (p\<lparr>pin_revokedAt := Some now, pin_revokeReason := reason\<rparr>)) t = (q, u)" by fastforce
      have "f' = pin_file_after (snd f) u"
        using assms(1) t(1) p q by (cases q) (auto simp: with_client_def client_revokeTool_def and_then_def return_def Let_def)
      then show ?thesis using with_pins_set_file [OF t(4,3,2) q] p by (auto simp: sets_pin_def)
    qed
  qed
qed

text \<open>Any sequence of \<open>approve\<close> without \<open>--reinstate\<close> and of \<open>revoke\<close>, each in a process of its own.\<close>

inductive pins_step :: "client_config \<Rightarrow> pin_file \<Rightarrow> pin_file \<Rightarrow> bool" for cfg where
  approve: "\<not> flag reinstate \<Longrightarrow> runPinsApprove cfg w now path source reinstate f = (r, f') \<Longrightarrow> pins_step cfg f f'"
| revoke: "runPinsRevoke now n reason f = (r, f') \<Longrightarrow> pins_step cfg f f'"

text \<open>Every pin of a file is for its own name, and its card verifies.\<close>

definition pins_verified :: "crypto \<Rightarrow> pin_file \<Rightarrow> bool" where
  "pins_verified C f \<longleftrightarrow> pin_file_wf f \<and>
     (\<forall>n p. pins_in f n = Some p \<longrightarrow> pin_toolName p = n \<and> gc_name (pin_card p) = n \<and> verifyGlyph C (pin_card p))"

lemma pins_step_cases:
  assumes "pins_step cfg f f'" "pins_verified (cc_crypto cfg) f"
  shows "pins_verified (cc_crypto cfg) f' \<and> (\<forall>n p. pins_in f n = Some p \<and> truthy (pin_revokedAt p) \<longrightarrow> pins_in f' n = Some p)"
  using assms(1)
proof cases
  case (approve reinstate w now path source r)
  then consider "f' = f" | c q where "with_client (client_approveCard cfg now c reinstate) f = (q, f')"
    by (auto simp: runPinsApprove_def split: if_splits sum.splits prod.splits)
  then show ?thesis
  proof cases
    case 1
    then show ?thesis using assms(2) by simp
  next
    case (2 c q)
    from approve_file [OF 2] assms(2) approve(1) show ?thesis
      by (auto simp: pins_verified_def sets_pin_def is_revoked_def split: if_splits option.splits)
  qed
next
  case (revoke now n reason r)
  then consider "f' = f" | q where "with_client (client_revokeTool now n reason) f = (q, f')"
    by (auto simp: runPinsRevoke_def split: if_splits prod.splits sum.splits)
  then show ?thesis
  proof cases
    case 1
    then show ?thesis using assms(2) by simp
  next
    case (2 q)
    from revoke_file [OF 2] assms(2) show ?thesis by (auto simp: pins_verified_def sets_pin_def split: if_splits)
  qed
qed

text \<open>
  The pin file of the command line holds verified cards only, and a revoked tool stays
  exactly as it was revoked, whatever cards are approved and whatever tools are revoked, until a
  card is approved with \<open>--reinstate\<close>.
\<close>

theorem cli_revocation_stands:
  assumes "(pins_step cfg)\<^sup>*\<^sup>* f f'" "pins_verified (cc_crypto cfg) f"
  shows "pins_verified (cc_crypto cfg) f' \<and> (\<forall>n p. pins_in f n = Some p \<and> truthy (pin_revokedAt p) \<longrightarrow> pins_in f' n = Some p)"
  using assms by (induction rule: rtranclp_induct) (blast dest: pins_step_cases)+

text \<open>A file with the pinned tool of the examples revoked; approving its card again changes nothing.\<close>

definition wiped_file :: pin_file where
  "wiped_file = (File_Entries [(js ''wipe'', wipe_pin\<lparr>pin_revokedAt := Some (js ''t'')\<rparr>)], True)"

definition wipe_reader :: "glyph_card source_reader" where
  "wipe_reader = \<lparr>sr_fetch = (\<lambda>_. Fetch_Status 404), sr_file = Inr, sr_parse = (\<lambda>_. Some wipe_card)\<rparr>"

theorem cli_revocation_stands_witness:
  "\<exists>r f. runPinsApprove wipe_cfg wipe_reader (js ''n'') [] (js ''card.json'') None wiped_file = (r, f) \<and>
     pins_in f (js ''wipe'') = Some (wipe_pin\<lparr>pin_revokedAt := Some (js ''t'')\<rparr>)"
proof -
  obtain r f where run: "runPinsApprove wipe_cfg wipe_reader (js ''n'') [] (js ''card.json'') None wiped_file = (r, f)" by (metis surj_pair)
  have v: "pins_verified (cc_crypto wipe_cfg) wiped_file"
    by (auto simp: pins_verified_def pin_file_wf_def wiped_file_def omap_wf_def pins_in_def wipe_pin_def split: if_splits)
  have "pins_step wipe_cfg wiped_file f" by (rule pins_step.approve [OF _ run]) simp
  from cli_revocation_stands [OF r_into_rtranclp [where r = "pins_step wipe_cfg", OF this] v] run show ?thesis
    by (auto simp: pins_in_def wiped_file_def)
qed

end
