(* ===== verification/Import_Config.thy ===== *)
theory Import_Config
  imports Adapters Json_Parse
begin

text \<open>
  \<open>packages/cli/src/commands/import-mcp\<close>, first part: the MCP servers an import is asked for, read
  from another program's configuration (\<open>clients/\<close>) or given by hand (\<open>manual.ts\<close>). A
  configuration file is its text, or nothing when it cannot be read; the parsers of TOML and of
  URLs are parameters. Error texts are shortened to their constant part.
\<close>

section \<open>Servers\<close>

datatype mcp_transport =
    Stdio_Transport jstr "jstr list option" "(jstr, jstr) omap option"
  | Http_Transport jstr "jstr option"

datatype client_id = Claude_Desktop | Cursor | Codex | Openclaw | Hermes_Agent

datatype config_source = From_Client client_id | Manual

record mcp_server_config =
  ms_name :: jstr
  ms_source :: config_source
  ms_transport :: mcp_transport

definition ALL_CLIENT_IDS :: "client_id list" where
  "ALL_CLIENT_IDS = [Claude_Desktop, Cursor, Codex, Openclaw, Hermes_Agent]"

fun client_str :: "client_id \<Rightarrow> string" where
  "client_str Claude_Desktop = ''claude-desktop''"
| "client_str Cursor = ''cursor''"
| "client_str Codex = ''codex''"
| "client_str Openclaw = ''openclaw''"
| "client_str Hermes_Agent = ''hermes-agent''"

fun source_str :: "config_source \<Rightarrow> jstr" where
  "source_str (From_Client c) = js (client_str c)"
| "source_str Manual = js ''manual''"

section \<open>Client configurations\<close>

definition string_items :: "jsval list \<Rightarrow> jstr list" where
  "string_items vs = concat (map (\<lambda>v. case v of JStr s \<Rightarrow> [s] | _ \<Rightarrow> []) vs)"

definition string_entries :: "(jstr \<times> jsval) list \<Rightarrow> (jstr, jstr) omap" where
  "string_entries kvs = concat (map (\<lambda>(k, v). case v of JStr s \<Rightarrow> [(k, s)] | _ \<Rightarrow> []) kvs)"

definition stdio_of :: "jstr \<Rightarrow> jsval \<Rightarrow> mcp_transport" where
  "stdio_of command e =
     Stdio_Transport command
       (case js_member_opt e (js ''args'') of JArr vs \<Rightarrow> Some (string_items vs) | _ \<Rightarrow> None)
       (if js_is_object (js_member_opt e (js ''env''))
        then Some (string_entries (js_entries (js_member_opt e (js ''env'')))) else None)"

text \<open>
  One iteration of the parsers' loops; \<open>bearer\<close> reads the token of an HTTP entry, which only the
  Codex parser does. A malformed entry is skipped.
\<close>

definition parse_entry :: "(jsval \<Rightarrow> jstr option) \<Rightarrow> client_id \<Rightarrow> jstr \<times> jsval \<Rightarrow> mcp_server_config list" where
  "parse_entry bearer src entry =
     (let e = snd entry; config = (\<lambda>t. [\<lparr>ms_name = fst entry, ms_source = From_Client src, ms_transport = t\<rparr>]) in
      if \<not> js_is_object e then []
      else case js_member_opt e (js ''url'') of
        JStr url \<Rightarrow> config (Http_Transport url (bearer e))
      | _ \<Rightarrow> (case js_member_opt e (js ''command'') of JStr c \<Rightarrow> config (stdio_of c e) | _ \<Rightarrow> []))"

text \<open>The entries of a value that is not an object are strings or none, and all are skipped.\<close>

definition config_block :: "string \<Rightarrow> jsval \<Rightarrow> (jstr \<times> jsval) list" where
  "config_block key parsed = js_entries (nullish_or (js_member_opt parsed (js key)) (JObj []))"

definition parseClaudeDesktopJson :: "jstr \<Rightarrow> client_id \<Rightarrow> jstr + mcp_server_config list" where
  "parseClaudeDesktopJson raw src =
     (case json_parse raw of
        None \<Rightarrow> Inl (js ''failed to parse '' @ js (client_str src) @ js '' config as JSON'')
      | Some parsed \<Rightarrow> Inr (concat (map (parse_entry (\<lambda>_. None) src) (config_block ''mcpServers'' parsed))))"

definition bearer_token :: "jsval \<Rightarrow> jstr option" where
  "bearer_token e = (case js_member_opt e (js ''bearer_token'') of JStr t \<Rightarrow> Some t | _ \<Rightarrow> None)"

definition parseCodexToml :: "(jstr \<Rightarrow> jstr + jsval) \<Rightarrow> jstr \<Rightarrow> jstr + mcp_server_config list" where
  "parseCodexToml toml raw =
     (case toml raw of
        Inl m \<Rightarrow> Inl (js ''failed to parse codex config as TOML: '' @ m)
      | Inr parsed \<Rightarrow> Inr (concat (map (parse_entry bearer_token Codex) (config_block ''mcp_servers'' parsed))))"

text \<open>\<open>for (const s of parse(raw)) merged.set(s.name, s)\<close>, when the file was read and is not empty.\<close>

definition merge_file ::
  "(jstr \<Rightarrow> jstr + mcp_server_config list) \<Rightarrow> jstr option \<Rightarrow> (jstr, mcp_server_config) omap
    \<Rightarrow> jstr + (jstr, mcp_server_config) omap" where
  "merge_file parse raw merged =
     (if truthy raw then
        (case parse (the raw) of
           Inl e \<Rightarrow> Inl e
         | Inr cs \<Rightarrow> Inr (foldl (\<lambda>m c. omap_set (ms_name c) c m) merged cs))
      else Inr merged)"

definition load_merged ::
  "(jstr \<Rightarrow> jstr + mcp_server_config list) \<Rightarrow> jstr option \<Rightarrow> jstr option \<Rightarrow> jstr + mcp_server_config list" where
  "load_merged parse globalRaw projectRaw =
     (case merge_file parse globalRaw [] of
        Inl e \<Rightarrow> Inl e
      | Inr m \<Rightarrow> (case merge_file parse projectRaw m of Inl e \<Rightarrow> Inl e | Inr m' \<Rightarrow> Inr (map snd m')))"

definition cursor_load :: "jstr option \<Rightarrow> jstr option \<Rightarrow> jstr + mcp_server_config list" where
  "cursor_load globalRaw projectRaw = load_merged (\<lambda>raw. parseClaudeDesktopJson raw Cursor) globalRaw projectRaw"

definition codex_load :: "(jstr \<Rightarrow> jstr + jsval) \<Rightarrow> jstr option \<Rightarrow> jstr option \<Rightarrow> jstr + mcp_server_config list" where
  "codex_load toml globalRaw projectRaw = load_merged (parseCodexToml toml) globalRaw projectRaw"

definition claudeDesktop_load :: "jstr option \<Rightarrow> jstr + mcp_server_config list" where
  "claudeDesktop_load raw =
     (case raw of None \<Rightarrow> Inl (js ''ENOENT'') | Some text \<Rightarrow> parseClaudeDesktopJson text Claude_Desktop)"

text \<open>The files of a machine: the global and, for two of the clients, the project's.\<close>

record client_files =
  cf_claude :: "jstr option"
  cf_cursorGlobal :: "jstr option"
  cf_cursorProject :: "jstr option"
  cf_codexGlobal :: "jstr option"
  cf_codexProject :: "jstr option"

fun adapter_detect :: "client_files \<Rightarrow> client_id \<Rightarrow> bool" where
  "adapter_detect f Claude_Desktop = (cf_claude f \<noteq> None)"
| "adapter_detect f Cursor = (cf_cursorGlobal f \<noteq> None \<or> cf_cursorProject f \<noteq> None)"
| "adapter_detect f Codex = (cf_codexGlobal f \<noteq> None \<or> cf_codexProject f \<noteq> None)"
| "adapter_detect f Openclaw = False"
| "adapter_detect f Hermes_Agent = False"

fun adapter_load :: "(jstr \<Rightarrow> jstr + jsval) \<Rightarrow> client_files \<Rightarrow> client_id \<Rightarrow> jstr + mcp_server_config list" where
  "adapter_load toml f Claude_Desktop = claudeDesktop_load (cf_claude f)"
| "adapter_load toml f Cursor = cursor_load (cf_cursorGlobal f) (cf_cursorProject f)"
| "adapter_load toml f Codex = codex_load toml (cf_codexGlobal f) (cf_codexProject f)"
| "adapter_load toml f Openclaw = Inl (js ''openclaw: import not implemented yet'')"
| "adapter_load toml f Hermes_Agent = Inl (js ''hermes-agent: import not implemented yet'')"

section \<open>A manual target\<close>

record manual_options =
  mn_command :: "jstr option"
  mn_url :: "jstr option"
  mn_bearerToken :: "jstr option"
  mn_name :: "jstr option"

text \<open>The class \<open>\s\<close>.\<close>

definition is_js_space :: "16 word \<Rightarrow> bool" where
  "is_js_space u \<longleftrightarrow> unat u \<in> {9, 10, 11, 12, 13, 32, 160, 5760, 8232, 8233, 8239, 8287, 12288, 65279} \<or>
     8192 \<le> unat u \<and> unat u \<le> 8202"

text \<open>\<open>s.split(/\s+/).filter(Boolean)\<close>\<close>

function words :: "jstr \<Rightarrow> jstr list" where
  "words s =
     (let t = dropWhile is_js_space s in
      if t = [] then [] else takeWhile (\<lambda>u. \<not> is_js_space u) t # words (dropWhile (\<lambda>u. \<not> is_js_space u) t))"
  by pat_completeness auto
termination
proof (relation "measure length", simp)
  fix s t :: jstr
  assume t: "t = dropWhile is_js_space s" "t \<noteq> []"
  then have "\<not> is_js_space (hd t)" by (metis hd_dropWhile)
  then have "length (dropWhile (\<lambda>u. \<not> is_js_space u) t) < length t"
    using t(2) by (cases t) (auto simp: le_imp_less_Suc length_dropWhile_le)
  also have "length t \<le> length s" by (simp add: t(1) length_dropWhile_le)
  finally show "(dropWhile (\<lambda>u. \<not> is_js_space u) t, s) \<in> measure length" by simp
qed

text \<open>\<open>replace(/[^a-z0-9]+/gi, '-').toLowerCase()\<close>; the text is ASCII when it is lowered.\<close>

definition slug :: "jstr \<Rightarrow> jstr" where
  "slug s = map ascii_lower (collapse (\<lambda>u. \<not> is_alnum_unit u) dash s)"

definition or_default :: "string \<Rightarrow> jstr \<Rightarrow> jstr" where
  "or_default d s = (if s = [] then js d else s)"

definition slugFromUrl :: "(jstr \<Rightarrow> jstr option) \<Rightarrow> jstr \<Rightarrow> jstr" where
  "slugFromUrl hostname url =
     (case hostname url of None \<Rightarrow> js ''mcp-remote'' | Some h \<Rightarrow> or_default ''mcp-remote'' (slug h))"

text \<open>The last path segment of the last word.\<close>

definition slugFromCommand :: "jstr list \<Rightarrow> jstr" where
  "slugFromCommand parts =
     (let last_word = (if parts = [] then js ''mcp'' else last parts)
      in or_default ''mcp'' (slug (rev (takeWhile (\<lambda>u. u \<noteq> uc CHR ''/'') (rev last_word)))))"

definition manualConfig :: "(jstr \<Rightarrow> jstr option) \<Rightarrow> manual_options \<Rightarrow> jstr + mcp_server_config" where
  "manualConfig hostname opts =
     (if truthy (mn_url opts) then
        Inr \<lparr>ms_name = default_to (slugFromUrl hostname (the (mn_url opts))) (mn_name opts), ms_source = Manual,
             ms_transport = Http_Transport (the (mn_url opts)) (mn_bearerToken opts)\<rparr>
      else if truthy (mn_command opts) then
        (case words (the (mn_command opts)) of
           [] \<Rightarrow> Inl (js ''manual import: --command was empty'')
         | head # rest \<Rightarrow>
             Inr \<lparr>ms_name = default_to (slugFromCommand (head # rest)) (mn_name opts), ms_source = Manual,
                  ms_transport = Stdio_Transport head (Some rest) None\<rparr>)
      else Inl (js ''manual import: pass either --command or --url''))"

end
