(* ===== verification/Paths.thy ===== *)
theory Paths
  imports Adapters
begin

text \<open>
  \<open>path.join\<close> of Node on POSIX, which the command line uses to place files, and what it does with
  segments that are plain names.
\<close>

section \<open>Joining\<close>

text \<open>The segments of a path, with \<open>.\<close> and \<open>..\<close> resolved.\<close>

definition push_segment :: "bool \<Rightarrow> jstr list \<Rightarrow> jstr \<Rightarrow> jstr list" where
  "push_segment allowAbove segs p =
     (if p = [] \<or> p = js ''.'' then segs
      else if p = js ''..'' then
        (if segs \<noteq> [] \<and> last segs \<noteq> js ''..'' then butlast segs else if allowAbove then segs @ [p] else segs)
      else segs @ [p])"

definition path_segments :: "bool \<Rightarrow> jstr \<Rightarrow> jstr list" where
  "path_segments allowAbove p = foldl (push_segment allowAbove) [] (split_all p)"

definition is_absolute :: "jstr \<Rightarrow> bool" where
  "is_absolute p \<longleftrightarrow> p \<noteq> [] \<and> hd p = uc CHR ''/''"

definition path_normalize :: "jstr \<Rightarrow> jstr" where
  "path_normalize p =
     (if p = [] then js ''.''
      else
        let absolute = is_absolute p; trailing = (last p = uc CHR ''/'');
            body = intercalate [uc CHR ''/''] (path_segments (\<not> absolute) p)
        in if body = [] then (if absolute then [uc CHR ''/''] else if trailing then js ''./'' else js ''.'')
           else (if absolute then [uc CHR ''/''] else []) @ body @ (if trailing then [uc CHR ''/''] else []))"

definition path_join :: "jstr \<Rightarrow> jstr \<Rightarrow> jstr" where
  "path_join a b = path_normalize (intercalate [uc CHR ''/''] (filter (\<lambda>s. s \<noteq> []) [a, b]))"

section \<open>Meaning\<close>

text \<open>What a path means: whether it is absolute, and its segments.\<close>

definition path_meaning :: "jstr \<Rightarrow> bool \<times> jstr list" where
  "path_meaning p = (is_absolute p, path_segments (\<not> is_absolute p) p)"

definition plain_segment :: "jstr \<Rightarrow> bool" where
  "plain_segment s \<longleftrightarrow> s \<noteq> [] \<and> s \<noteq> js ''.'' \<and> s \<noteq> js ''..'' \<and> uc CHR ''/'' \<notin> set s"

lemma split_all_append: "split_all (a @ uc CHR ''/'' # b) = split_all a @ split_all b"
proof (induction a)
  case (Cons u a)
  have "split_all a \<noteq> []" by (cases a) (auto split: list.splits)
  then show ?case using Cons by (auto split: list.splits)
qed simp

lemma split_all_no_slash: "uc CHR ''/'' \<notin> set s \<Longrightarrow> split_all s = [s]"
  by (induction s) auto

lemma split_all_segments: "p \<in> set (split_all s) \<Longrightarrow> uc CHR ''/'' \<notin> set p"
proof (induction s arbitrary: p)
  case (Cons u s)
  then show ?case by (cases "split_all s") (auto split: if_splits)
qed simp

lemma split_all_intercalate:
  "segs \<noteq> [] \<Longrightarrow> \<forall>p\<in>set segs. uc CHR ''/'' \<notin> set p \<Longrightarrow> split_all (intercalate [uc CHR ''/''] segs) = segs"
proof (induction segs rule: list_nonempty_induct)
  case (single p)
  then show ?case by (simp add: split_all_no_slash)
next
  case (cons p segs)
  then obtain q qs where "segs = q # qs" by (cases segs) auto
  with cons show ?case by (simp add: split_all_append split_all_no_slash)
qed

text \<open>A normalised list of segments: some \<open>..\<close>, if those are allowed, and then plain ones.\<close>

definition normal :: "bool \<Rightarrow> jstr list \<Rightarrow> bool" where
  "normal allow segs \<longleftrightarrow> (\<exists>k rest. segs = replicate k (js ''..'') @ rest \<and> (allow \<or> k = 0) \<and> list_all plain_segment rest)"

lemma normal_push:
  assumes "normal allow segs" "uc CHR ''/'' \<notin> set p"
  shows "normal allow (push_segment allow segs p)"
proof -
  from assms(1) obtain k rest where n: "segs = replicate k (js ''..'') @ rest" "allow \<or> k = 0" "list_all plain_segment rest"
    unfolding normal_def by blast
  consider "p = [] \<or> p = js ''.''" | "p = js ''..''" | "plain_segment p" using assms(2) by (auto simp: plain_segment_def)
  then show ?thesis
  proof cases
    case 1
    then show ?thesis using assms(1) by (simp add: push_segment_def)
  next
    case 3
    then have "push_segment allow segs p = replicate k (js ''..'') @ (rest @ [p])"
      by (simp add: push_segment_def plain_segment_def n(1))
    then show ?thesis unfolding normal_def using n 3 by (intro exI [of _ k] exI [of _ "rest @ [p]"]) auto
  next
    case 2
    show ?thesis
    proof (cases rest rule: rev_cases)
      case Nil
      then have "push_segment allow segs p = (if allow then replicate (Suc k) (js ''..'') else segs)"
        using n 2 by (auto simp: push_segment_def replicate_append_same)
      then show ?thesis using assms(1) unfolding normal_def
        by (cases allow) (auto intro: exI [of _ "Suc k"])
    next
      case (snoc r x)
      then have "push_segment allow segs p = replicate k (js ''..'') @ r"
        using n 2 by (auto simp: push_segment_def plain_segment_def butlast_append)
      then show ?thesis unfolding normal_def using n snoc by (intro exI [of _ k] exI [of _ r]) auto
    qed
  qed
qed

lemma foldl_push_normal: "normal allow segs \<Longrightarrow> \<forall>p\<in>set ps. uc CHR ''/'' \<notin> set p \<Longrightarrow> normal allow (foldl (push_segment allow) segs ps)"
  by (induction ps arbitrary: segs) (auto intro: normal_push)

lemma path_segments_normal: "normal allow (path_segments allow p)"
proof -
  have "normal allow []" by (simp add: normal_def)
  then show ?thesis unfolding path_segments_def using split_all_segments by (intro foldl_push_normal) auto
qed

lemma foldl_push_plain: "list_all plain_segment ps \<Longrightarrow> foldl (push_segment allow) segs ps = segs @ ps"
  by (induction ps arbitrary: segs) (auto simp: push_segment_def plain_segment_def)

lemma foldl_push_up: "foldl (push_segment True) (replicate j (js ''..'')) (replicate k (js ''..'')) = replicate (j + k) (js ''..'')"
proof (induction k arbitrary: j)
  case (Suc k)
  have "push_segment True (replicate j (js ''..'')) (js ''..'') = replicate (Suc j) (js ''..'')"
    by (cases j) (simp_all add: push_segment_def replicate_append_same)
  with Suc [of "Suc j"] show ?case by simp
qed simp

lemma normal_fixed:
  assumes "normal allow segs"
  shows "foldl (push_segment allow) [] segs = segs"
proof -
  obtain k rest where n: "segs = replicate k (js ''..'') @ rest" "allow \<or> k = 0" "list_all plain_segment rest"
    using assms unfolding normal_def by blast
  have "foldl (push_segment allow) [] (replicate k (js ''..'')) = replicate k (js ''..'')"
    using n(2) foldl_push_up [of 0 k] by (cases allow) simp_all
  then show ?thesis by (simp add: n(1) foldl_push_plain [OF n(3)])
qed

lemma normal_no_slash:
  assumes "normal allow segs" "p \<in> set segs"
  shows "uc CHR ''/'' \<notin> set p \<and> p \<noteq> []"
proof -
  obtain k rest where n: "segs = replicate k (js ''..'') @ rest" "list_all plain_segment rest"
    using assms(1) unfolding normal_def by blast
  then have "p = js ''..'' \<or> plain_segment p" using assms(2) by (auto simp: list_all_iff)
  then show ?thesis by (auto simp: plain_segment_def js_Cons)
qed

lemma segments_intercalate:
  assumes "normal allow segs" "segs \<noteq> []"
  shows "path_segments allow (intercalate [uc CHR ''/''] segs) = segs"
  using assms normal_no_slash [OF assms(1)]
  by (simp add: path_segments_def split_all_intercalate normal_fixed)

lemma segments_slash:
  "path_segments allow (uc CHR ''/'' # s) = path_segments allow s"
  "path_segments allow (s @ [uc CHR ''/'']) = path_segments allow s"
  using split_all_append [of s "[]"] by (simp_all add: path_segments_def push_segment_def)

lemma intercalate_Nil:
  assumes "normal allow segs"
  shows "intercalate [uc CHR ''/''] segs = [] \<longleftrightarrow> segs = []"
proof (cases segs)
  case (Cons p ps)
  then show ?thesis using normal_no_slash [OF assms, of p] by (cases ps) auto
qed simp

lemma intercalate_relative:
  assumes "normal allow segs"
  shows "\<not> is_absolute (intercalate [uc CHR ''/''] segs @ t) \<or> segs = []"
proof (cases segs)
  case (Cons p ps)
  then obtain u q where u: "p = u # q" using normal_no_slash [OF assms, of p] by (cases p) auto
  then have "u \<noteq> uc CHR ''/''" using normal_no_slash [OF assms, of p] Cons by auto
  then show ?thesis using Cons u by (cases ps) (simp_all add: is_absolute_def)
qed simp

text \<open>Normalising a path keeps its meaning; joining a plain name adds one segment.\<close>

lemma meaning_normalize: "path_meaning (path_normalize p) = path_meaning p"
proof (cases "p = []")
  case True
  then show ?thesis
    by (simp add: path_normalize_def path_meaning_def is_absolute_def path_segments_def push_segment_def js_Cons)
next
  case False
  let ?abs = "is_absolute p" and ?tr = "if last p = uc CHR ''/'' then [uc CHR ''/''] else []"
  let ?segs = "path_segments (\<not> ?abs) p"
  let ?body = "intercalate [uc CHR ''/''] ?segs"
  have n: "normal (\<not> ?abs) ?segs" by (rule path_segments_normal)
  have tr: "path_segments a (s @ ?tr) = path_segments a s" for a s by (simp add: segments_slash)
  show ?thesis
  proof (cases "?segs = []")
    case True
    then have "path_normalize p = (if ?abs then [uc CHR ''/''] else if ?tr \<noteq> [] then js ''./'' else js ''.'')"
      using False by (simp add: path_normalize_def Let_def)
    then show ?thesis using True
      by (cases ?abs) (auto simp: path_meaning_def is_absolute_def path_segments_def push_segment_def js_Cons)
  next
    case s: False
    then have b: "?body \<noteq> []" using intercalate_Nil [OF n] by simp
    have e: "path_normalize p = (if ?abs then [uc CHR ''/''] else []) @ ?body @ ?tr"
      using False b by (simp add: path_normalize_def Let_def)
    have g: "path_segments (\<not> ?abs) (?body @ ?tr) = ?segs" unfolding tr by (rule segments_intercalate [OF n s])
    have r: "\<not> is_absolute (?body @ ?tr)" using intercalate_relative [OF n] s by blast
    show ?thesis
    proof (cases ?abs)
      case True
      then have "path_meaning (path_normalize p) = (True, path_segments False (uc CHR ''/'' # (?body @ ?tr)))"
        unfolding e by (simp add: path_meaning_def is_absolute_def)
      then show ?thesis using g True by (simp only: segments_slash) (simp add: path_meaning_def)
    next
      case False
      then have "path_meaning (path_normalize p) = (False, path_segments True (?body @ ?tr))"
        unfolding e using r by (simp add: path_meaning_def)
      also have "\<dots> = path_meaning p" using g False by (simp add: path_meaning_def)
      finally show ?thesis .
    qed
  qed
qed

lemma push_plain: "plain_segment s \<Longrightarrow> push_segment allow segs s = segs @ [s]"
  by (simp add: push_segment_def plain_segment_def)

lemma meaning_join:
  assumes "plain_segment s"
  shows "path_meaning (path_join out s) = (fst (path_meaning out), snd (path_meaning out) @ [s])"
proof -
  have s: "split_all s = [s]" "s \<noteq> []" "\<not> is_absolute s"
    using assms by (cases s; auto simp: plain_segment_def is_absolute_def split_all_no_slash)+
  show ?thesis
  proof (cases "out = []")
    case True
    then show ?thesis using s assms
      by (simp add: path_join_def meaning_normalize)
         (simp add: path_meaning_def path_segments_def is_absolute_def push_plain push_segment_def plain_segment_def)
  next
    case False
    then have "is_absolute (out @ uc CHR ''/'' # s) = is_absolute out" by (simp add: is_absolute_def)
    then show ?thesis using s False assms
      by (simp add: path_join_def meaning_normalize) (simp add: path_meaning_def path_segments_def split_all_append push_plain)
  qed
qed

end
