(* ===== verification/Import_Mcp.thy ===== *)
theory Import_Mcp
  imports Import_Config Mcp_Adapter Render Cli_Prelude Paths
begin

text \<open>
  \<open>packages/cli/src/commands/import-mcp\<close>, second part: connecting to each server, generating a
  project for it and reporting (\<open>importer.ts\<close>, \<open>emitter.ts\<close>, \<open>report.ts\<close>, \<open>index.ts\<close>). The server at
  the other end is a pair of promises; the disk is the files written so far, and \<open>broken\<close> says on
  which paths writing fails. \<open>clock\<close> is the time a file is written at. The interactive choice and
  the console are not modelled.
\<close>

section \<open>Connecting\<close>

text \<open>What the process of a server does: \<open>connect\<close>, \<open>listTools\<close> and \<open>callTool\<close>.\<close>

record mcp_process =
  px_connect :: "unit promise"
  px_tools :: "mcp_tool list promise"
  px_call :: "jstr \<Rightarrow> jsval \<Rightarrow> jstr + mcp_tool_result"

definition import_race :: "'a promise \<Rightarrow> int \<Rightarrow> string \<Rightarrow> jstr + 'a" where
  "import_race p ms stage =
     (let late = Inl (js stage @ js '' timed out after '' @ int_dec ms @ js ''ms'') in
      case p of None \<Rightarrow> late | Some (at_ms, r) \<Rightarrow> if at_ms < timer_delay ms then r else late)"

definition importer_options :: "jstr \<Rightarrow> mcp_options" where
  "importer_options name = \<lparr>mo_provider = Some (js ''mcp:'' @ name), mo_validateOutput = None, mo_maxTools = None,
     mo_redactDescriptions = None, mo_sanitizeErrors = None, mo_listToolsTimeoutMs = None\<rparr>"

text \<open>The promise \<open>glyphsFromMcpClient\<close> returns: it settles when \<open>listTools\<close> does.\<close>

definition listed_glyphs ::
  "mcp_env \<Rightarrow> (import_error \<Rightarrow> jstr) \<Rightarrow> mcp_process \<Rightarrow> jstr \<Rightarrow> glyph_definition list promise" where
  "listed_glyphs env explain px name =
     (case (px_tools px, glyphsFromMcpClient env (px_tools px) (px_call px) (importer_options name)) of
        (Some (at_ms, _), Some r) \<Rightarrow> Some (at_ms, case r of Inl e \<Rightarrow> Inl (explain e) | Inr gs \<Rightarrow> Inr gs)
      | _ \<Rightarrow> None)"

definition importOneServer ::
  "mcp_env \<Rightarrow> (import_error \<Rightarrow> jstr) \<Rightarrow> (mcp_server_config \<Rightarrow> mcp_process) \<Rightarrow> int \<Rightarrow> mcp_server_config
    \<Rightarrow> jstr + glyph_definition list" where
  "importOneServer env explain spawn timeoutMs config =
     (case ms_transport config of
        Http_Transport _ _ \<Rightarrow> Inl (js ''HTTP/SSE transport not yet wired in import-mcp v1'')
      | Stdio_Transport _ _ _ \<Rightarrow>
          (case import_race (px_connect (spawn config)) timeoutMs ''connect'' of
             Inl e \<Rightarrow> Inl e
           | Inr _ \<Rightarrow> import_race (listed_glyphs env explain (spawn config) (ms_name config)) timeoutMs ''listTools''))"

section \<open>Files\<close>

definition safeDirName :: "jstr \<Rightarrow> jstr" where
  "safeDirName raw =
     or_default ''mcp'' (trim_unit dash (map ascii_lower (collapse (\<lambda>u. \<not> (is_alnum_unit u \<or> u = dash)) dash raw)))"

type_synonym disk = "(jstr, jstr) omap"

type_synonym 'a disk_step = "(disk, jstr, 'a) step"

definition touch :: "(jstr \<Rightarrow> jstr option) \<Rightarrow> jstr \<Rightarrow> unit disk_step" where
  "touch broken path = (case broken path of None \<Rightarrow> return () | Some m \<Rightarrow> throw m)"

definition write_file :: "(jstr \<Rightarrow> jstr option) \<Rightarrow> jstr \<Rightarrow> jstr \<Rightarrow> unit disk_step" where
  "write_file broken path content d =
     (case broken path of None \<Rightarrow> (Inr (), omap_set path content d) | Some m \<Rightarrow> (Inl m, d))"

section \<open>The generated project\<close>

record imported_card =
  ic_name :: jstr
  ic_riskTier :: risk_tier
  ic_requiresConfirmation :: bool

record imported_server =
  im_config :: mcp_server_config
  im_port :: int
  im_toolCount :: nat
  im_cards :: "imported_card list"
  im_outputDir :: jstr

definition imported_card_of :: "glyph_definition \<Rightarrow> imported_card" where
  "imported_card_of g = \<lparr>ic_name = gc_name (gd_card g), ic_riskTier = co_riskTier (gc_cost (gd_card g)),
     ic_requiresConfirmation = co_requiresConfirmation (gc_cost (gd_card g))\<rparr>"

definition quoted :: "jstr \<Rightarrow> jstr" where
  "quoted s = [39] @ s @ [39]"

definition env_keys :: "mcp_transport \<Rightarrow> jstr list" where
  "env_keys t = (case t of Stdio_Transport _ _ (Some env) \<Rightarrow> map fst env | _ \<Rightarrow> [])"

definition env_block :: "jstr list \<Rightarrow> jstr list" where
  "env_block keys =
     (if keys \<noteq> [] then
        [js ''  env: {''] @
        map (\<lambda>k. js ''    '' @ quote_json k @ js '': process.env['' @ quote_json k @ js ''] ?? '' @ quoted [] @ js '','') keys @
        [js ''    ...process.env,'', js ''  },'']
      else [js ''  env: process.env as Record<string, string>,''])"

definition renderServerTs :: "jstr \<Rightarrow> mcp_server_config \<Rightarrow> int \<Rightarrow> jstr + jstr" where
  "renderServerTs now config port =
     (case ms_transport config of
        Http_Transport _ _ \<Rightarrow> Inl (js ''emitter currently only supports stdio transports'')
      | Stdio_Transport command args env \<Rightarrow> Inr (lines
        ([js ''// Generated by `glyph import mcp` on '' @ now,
          js ''// Source: '' @ source_str (ms_source config) @ js ''/'' @ ms_name config,
          js ''//'',
          js ''// '' @ [9888] @ js '' Cost and risk tiers on each card were inferred by the MCP adapter from'',
          js ''// tool names and MCP annotations. Audit them before treating this server as'',
          js ''// production. See packages/adapters/mcp/src/index.ts for the heuristic.'',
          js ''import { Client } from '' @ quoted (js ''@modelcontextprotocol/sdk/client/index.js''),
          js ''import { StdioClientTransport } from '' @ quoted (js ''@modelcontextprotocol/sdk/client/stdio.js''),
          js ''import { glyphsFromMcpClient } from '' @ quoted (js ''@glyphp/adapter-mcp''),
          js ''import { GlyphServer } from '' @ quoted (js ''@glyphp/server''),
          [],
          js ''const transport = new StdioClientTransport({'',
          js ''  command: '' @ quote_json command @ js '','',
          js ''  args: '' @ ser (JArr (map JStr (default_to [] args))) @ js '',''] @
         env_block (env_keys (ms_transport config)) @
         [js ''})'',
          [],
          js ''const mcp = new Client({ name: '' @ quoted (js ''glyph-bridge'') @ js '', version: '' @ quoted (js ''0.1.0'') @ js '' })'',
          js ''await mcp.connect(transport)'',
          [],
          js ''const glyphs = await glyphsFromMcpClient(mcp, { provider: '' @ quoted (js ''mcp:'' @ ms_name config) @ js '' })'',
          js ''const server = new GlyphServer({ port: '' @ int_dec port @ js '' })'',
          js ''for (const g of glyphs) server.register(g)'',
          js ''await server.start()'',
          [],
          js ''console.log('' @ quoted (js ''[glyph] '' @ ms_name config @ js '' bridge live on http://localhost:'' @ int_dec port @ js '' with'') @
            js '', glyphs.length, '' @ quoted (js ''tools'') @ js '')'',
          []])))"

definition renderPackageJson :: "mcp_server_config \<Rightarrow> jstr" where
  "renderPackageJson config = ser_indented [] (JObj
     [(js ''name'', JStr (js ''glyph-bridge-'' @
         map ascii_lower (collapse (\<lambda>u. \<not> (is_alnum_unit u \<or> u = dash)) dash (ms_name config)))),
      (js ''version'', jlit ''0.0.1''), (js ''private'', JBool True), (js ''type'', jlit ''module''),
      (js ''scripts'', JObj [(js ''dev'', jlit ''tsx server.ts'')]),
      (js ''dependencies'', JObj [(js ''@glyphp/adapter-mcp'', jlit ''^1.0.0''), (js ''@glyphp/server'', jlit ''^1.1.0''),
         (js ''@modelcontextprotocol/sdk'', jlit ''^1.0.0'')]),
      (js ''devDependencies'', JObj [(js ''tsx'', jlit ''^4.11.0''), (js ''typescript'', jlit ''^5.4.0'')])]) @ [10]"

definition renderEnvExample :: "mcp_server_config \<Rightarrow> jstr" where
  "renderEnvExample config =
     (case ms_transport config of
        Http_Transport _ _ \<Rightarrow> []
      | Stdio_Transport _ _ _ \<Rightarrow>
          let keys = env_keys (ms_transport config) in
          if keys = [] then js ''# No environment variables were declared in the source client config.'' @ [10]
          else lines ([js ''# Environment variables declared in the source client config.'',
            js ''# Source: '' @ source_str (ms_source config) @ js ''/'' @ ms_name config,
            js ''# Values were intentionally NOT copied '' @ [8212] @ js '' fill them in here, then `source .env`.'', []] @
            map (\<lambda>k. k @ js ''='') keys @ [[]]))"

definition tier_count :: "risk_tier \<Rightarrow> imported_card list \<Rightarrow> jstr" where
  "tier_count t cards = nat_dec (length (filter (\<lambda>c. ic_riskTier c = t) cards))"

definition renderReadme :: "mcp_server_config \<Rightarrow> int \<Rightarrow> imported_card list \<Rightarrow> jstr" where
  "renderReadme config port cards = lines
     ([js ''# `'' @ ms_name config @ js ''` '' @ [8212] @ js '' Glyph bridge for an MCP server'', [],
       js ''Generated by `glyph import mcp` from **'' @ source_str (ms_source config) @ js ''**.'', [],
       js ''## Run'', [], js ''```bash'', js ''pnpm install'',
       js ''pnpm run dev   # arranca el bridge en http://localhost:'' @ int_dec port, js ''```'', [],
       js ''## Tools'', [],
       nat_dec (length cards) @ js '' tools ('' @ tier_count Safe cards @ js '' safe, '' @ tier_count Caution cards @
         js '' caution, '' @ tier_count Danger cards @ js '' danger):'', []] @
      map (\<lambda>c. js ''- `'' @ ic_name c @ js ''` '' @ [8212] @ js '' risk: **'' @ risk_str (ic_riskTier c) @ js ''**'' @
         (if ic_requiresConfirmation c then js '' '' @ [8226] @ js '' requires confirmation'' else [])) cards @
      [[], js ''## '' @ [9888] @ js '' Review before production'', [],
       js ''The MCP adapter inferred cost/risk from tool names and MCP annotations. '',
       js ''Verify each card whose risk is `danger` or `caution` matches your actual '',
       js ''security posture before connecting agents.'', []])"

definition write_project ::
  "(jstr \<Rightarrow> jstr option) \<Rightarrow> (jstr \<Rightarrow> jstr) \<Rightarrow> mcp_server_config \<Rightarrow> imported_card list \<Rightarrow> int \<Rightarrow> jstr \<Rightarrow> unit disk_step" where
  "write_project broken clock config cards port outDir =
     and_then (touch broken outDir) (\<lambda>_.
     and_then (or_raise (renderServerTs (clock (path_join outDir (js ''server.ts''))) config port)) (\<lambda>server.
     and_then (write_file broken (path_join outDir (js ''server.ts'')) server) (\<lambda>_.
     and_then (write_file broken (path_join outDir (js ''package.json'')) (renderPackageJson config)) (\<lambda>_.
     and_then (write_file broken (path_join outDir (js ''.env.example'')) (renderEnvExample config)) (\<lambda>_.
       write_file broken (path_join outDir (js ''README.md'')) (renderReadme config port cards))))))"

definition emitServerProject ::
  "(jstr \<Rightarrow> jstr option) \<Rightarrow> (jstr \<Rightarrow> jstr) \<Rightarrow> mcp_server_config \<Rightarrow> glyph_definition list \<Rightarrow> int \<Rightarrow> jstr \<Rightarrow> imported_server disk_step" where
  "emitServerProject broken clock config glyphs port outDir =
     (let cards = map imported_card_of glyphs in
      and_then (write_project broken clock config cards port outDir) (\<lambda>_.
        return \<lparr>im_config = config, im_port = port, im_toolCount = length glyphs, im_cards = cards,
                im_outputDir = outDir\<rparr>))"

section \<open>The run\<close>

type_synonym skipped_server = "mcp_server_config \<times> jstr"

definition emitTopLevelIndex ::
  "(jstr \<Rightarrow> jstr option) \<Rightarrow> (jstr \<Rightarrow> jstr) \<Rightarrow> jstr \<Rightarrow> imported_server list \<Rightarrow> unit disk_step" where
  "emitTopLevelIndex broken clock outDir imported =
     (let path = path_join outDir (js ''README.md'') in
      write_file broken path (lines
        ([js ''# Glyph imports'', [], js ''Generated by `glyph import mcp` on '' @ clock path @ js ''.'', [],
          nat_dec (length imported) @ js '' MCP server(s) bridged. See `IMPORT_REPORT.md` for '' @
            js ''the full import log including any sources that were skipped.'', [],
          js ''## Bridges'', [], js ''| Name | Source | Port | Tools | Path |'', js ''|---|---|--:|--:|---|''] @
         map (\<lambda>s. js ''| `'' @ ms_name (im_config s) @ js ''` | '' @ source_str (ms_source (im_config s)) @ js '' | '' @
           int_dec (im_port s) @ js '' | '' @ nat_dec (im_toolCount s) @ js '' | `'' @ im_outputDir s @ js ''/` |'') imported @
         [[]])))"

definition review_cards :: "imported_server list \<Rightarrow> (jstr \<times> imported_card) list" where
  "review_cards imported =
     concat (map (\<lambda>s. map (\<lambda>c. (ms_name (im_config s), c)) (filter (\<lambda>c. ic_riskTier c \<noteq> Safe) (im_cards s))) imported)"

definition emitReport ::
  "(jstr \<Rightarrow> jstr option) \<Rightarrow> (jstr \<Rightarrow> jstr) \<Rightarrow> jstr \<Rightarrow> imported_server list \<Rightarrow> skipped_server list \<Rightarrow> jstr disk_step" where
  "emitReport broken clock outDir imported skipped =
     (let path = path_join outDir (js ''IMPORT_REPORT.md'');
          review = review_cards imported;
          text = [js ''# Glyph MCP import report '' @ [8212] @ js '' '' @ clock path, [],
             js ''## Imported ('' @ nat_dec (length imported) @ js '')'', []] @
            (if imported = [] then [js ''(none)''] else map (\<lambda>s. js ''- `'' @ ms_name (im_config s) @ js ''` ('' @
               source_str (ms_source (im_config s)) @ js '') '' @ [8594] @ js '' `'' @ im_outputDir s @ js ''/`, port '' @
               int_dec (im_port s) @ js '', '' @ nat_dec (im_toolCount s) @ js '' tools'') imported) @
            [[], js ''## Skipped ('' @ nat_dec (length skipped) @ js '')'', []] @
            (if skipped = [] then [js ''(none)''] else map (\<lambda>(config, reason). js ''- `'' @ ms_name config @ js ''` ('' @
               source_str (ms_source config) @ js ''): '' @ reason) skipped) @
            [[], js ''## '' @ [9888] @ js '' Review before production ('' @ nat_dec (length review) @ js '' cards)'', []] @
            (if review = [] then [js ''All imported cards are tagged `safe` by the heuristic.'']
             else [js ''The MCP adapter infers cost/risk from tool names and MCP annotations.'',
                   js ''Audit the following before letting agents call them:'', []] @
               map (\<lambda>(server, c). js ''- `'' @ server @ js ''.'' @ ic_name c @ js ''` '' @ [8594] @ js '' **'' @
                 risk_str (ic_riskTier c) @ js ''**'' @
                 (if ic_requiresConfirmation c then js '' + requires confirmation'' else [])) review)
      in and_then (write_file broken path (lines text @ [10])) (\<lambda>_. return path))"

record import_options =
  io_output :: jstr
  io_portBase :: int
  io_dryRun :: bool
  io_timeoutMs :: int

text \<open>The world of an import: what it connects to and writes to.\<close>

record import_world =
  iw_env :: mcp_env
  iw_explain :: "import_error \<Rightarrow> jstr"
  iw_spawn :: "mcp_server_config \<Rightarrow> mcp_process"
  iw_broken :: "jstr \<Rightarrow> jstr option"
  iw_clock :: "jstr \<Rightarrow> jstr"

text \<open>The body of the \<open>try\<close>.\<close>

definition import_one :: "import_world \<Rightarrow> import_options \<Rightarrow> int \<Rightarrow> mcp_server_config \<Rightarrow> imported_server disk_step" where
  "import_one w opts port config =
     and_then (or_raise (importOneServer (iw_env w) (iw_explain w) (iw_spawn w) (io_timeoutMs opts) config)) (\<lambda>glyphs.
       emitServerProject (iw_broken w) (iw_clock w) config glyphs port
         (path_join (io_output opts) (safeDirName (ms_name config))))"

fun import_all ::
  "import_world \<Rightarrow> import_options \<Rightarrow> int \<Rightarrow> mcp_server_config list \<Rightarrow> disk \<Rightarrow> imported_server list \<times> skipped_server list \<times> disk" where
  "import_all w opts port [] d = ([], [], d)"
| "import_all w opts port (c # cs) d =
     (case import_one w opts port c d of
        (Inl reason, d') \<Rightarrow>
          (case import_all w opts port cs d' of (imported, skipped, d'') \<Rightarrow> (imported, (c, reason) # skipped, d''))
      | (Inr s, d') \<Rightarrow>
          (case import_all w opts (port + 1) cs d' of (imported, skipped, d'') \<Rightarrow> (s # imported, skipped, d'')))"

record import_result =
  ir_imported :: "imported_server list"
  ir_skipped :: "skipped_server list"
  ir_reportPath :: "jstr option"

text \<open>\<open>resolveConfigs\<close> without the interactive choice: a manual target, or all servers of a client.\<close>

definition resolveConfigs ::
  "(jstr \<Rightarrow> jstr option) \<Rightarrow> (jstr \<Rightarrow> jstr + jsval) \<Rightarrow> client_files \<Rightarrow> manual_options option \<Rightarrow> client_id option
    \<Rightarrow> jstr + mcp_server_config list" where
  "resolveConfigs hostname toml files manual client =
     (case manual of
        Some m \<Rightarrow> (case manualConfig hostname m of Inl e \<Rightarrow> Inl e | Inr c \<Rightarrow> Inr [c])
      | None \<Rightarrow>
          (case client of
             None \<Rightarrow> Inl (js ''interactive client picker requires a TTY'')
           | Some who \<Rightarrow>
               (case adapter_load toml files who of
                  Inl e \<Rightarrow> Inl e
                | Inr configs \<Rightarrow>
                    if configs = [] then Inl (js (client_str who) @ js '' config had no MCP servers declared'') else Inr configs)))"

text \<open>The index of what was imported, if anything was, and the report.\<close>

definition finish_import :: "import_world \<Rightarrow> import_options \<Rightarrow> imported_server list \<Rightarrow> skipped_server list \<Rightarrow> import_result disk_step" where
  "finish_import w opts imported skipped =
     and_then (if imported \<noteq> [] then emitTopLevelIndex (iw_broken w) (iw_clock w) (io_output opts) imported
               else return ()) (\<lambda>_.
     and_then (emitReport (iw_broken w) (iw_clock w) (io_output opts) imported skipped) (\<lambda>path.
       return \<lparr>ir_imported = imported, ir_skipped = skipped, ir_reportPath = Some path\<rparr>))"

definition import_configs :: "import_world \<Rightarrow> import_options \<Rightarrow> mcp_server_config list \<Rightarrow> import_result disk_step" where
  "import_configs w opts configs d =
     (case import_all w opts (io_portBase opts) configs d of (imported, skipped, d') \<Rightarrow> finish_import w opts imported skipped d')"

definition runImportMcp :: "import_world \<Rightarrow> import_options \<Rightarrow> jstr + mcp_server_config list \<Rightarrow> import_result disk_step" where
  "runImportMcp w opts resolved =
     and_then (or_raise resolved) (\<lambda>configs.
       if configs = [] then throw (js ''no MCP servers to import'')
       else if io_dryRun opts then return \<lparr>ir_imported = [], ir_skipped = [], ir_reportPath = None\<rparr>
       else and_then (touch (iw_broken w) (io_output opts)) (\<lambda>_. import_configs w opts configs))"

section \<open>Every server is accounted for\<close>

lemma emitServerProject_Inr:
  "emitServerProject broken clock config glyphs port outDir d = (Inr s, d') \<Longrightarrow>
     s = \<lparr>im_config = config, im_port = port, im_toolCount = length glyphs, im_cards = map imported_card_of glyphs,
          im_outputDir = outDir\<rparr>"
  by (auto simp: emitServerProject_def Let_def and_then_Inr return_def)

lemma import_one_Inr:
  assumes "import_one w opts port config d = (Inr s, d')"
  shows "im_config s = config \<and> im_port s = port \<and> im_outputDir s = path_join (io_output opts) (safeDirName (ms_name config)) \<and>
    (\<exists>gs. importOneServer (iw_env w) (iw_explain w) (iw_spawn w) (io_timeoutMs opts) config = Inr gs \<and>
       im_cards s = map imported_card_of gs)"
proof -
  from assms obtain gs where gs: "importOneServer (iw_env w) (iw_explain w) (iw_spawn w) (io_timeoutMs opts) config = Inr gs"
    and e: "emitServerProject (iw_broken w) (iw_clock w) config gs port
      (path_join (io_output opts) (safeDirName (ms_name config))) d = (Inr s, d')"
    by (auto simp: import_one_def and_then_Inr or_raise_def throw_def return_def split: sum.splits)
  show ?thesis using emitServerProject_Inr [OF e] gs by simp
qed

lemma import_all_accounts:
  "import_all w opts port cs d = (imported, skipped, d') \<Longrightarrow>
     mset cs = mset (map im_config imported) + mset (map fst skipped) \<and>
     map im_port imported = map (\<lambda>i. port + int i) [0..<length imported] \<and>
     (\<forall>s\<in>set imported. im_outputDir s = path_join (io_output opts) (safeDirName (ms_name (im_config s))) \<and>
        (\<exists>gs. importOneServer (iw_env w) (iw_explain w) (iw_spawn w) (io_timeoutMs opts) (im_config s) = Inr gs \<and>
           im_cards s = map imported_card_of gs))"
proof (induction cs arbitrary: port d imported skipped d')
  case (Cons c cs)
  obtain r u where r: "import_one w opts port c d = (r, u)" by fastforce
  show ?case
  proof (cases r)
    case (Inl reason)
    then obtain sk where "import_all w opts port cs u = (imported, sk, d')" "skipped = (c, reason) # sk"
      using Cons.prems r by (auto split: prod.splits)
    with Cons.IH show ?thesis by simp
  next
    case (Inr s)
    then obtain im where im: "import_all w opts (port + 1) cs u = (im, skipped, d')" "imported = s # im"
      using Cons.prems r by (auto split: prod.splits)
    have "[0..<length imported] = 0 # map Suc [0..<length im]" by (simp add: im(2) upt_conv_Cons map_Suc_upt del: upt_Suc)
    with Cons.IH [OF im(1)] import_one_Inr [OF r [unfolded Inr]] im(2) show ?thesis by (simp add: comp_def)
  qed
qed simp

lemma finish_import_Inr:
  "finish_import w opts im sk d = (Inr res, d') \<Longrightarrow> ir_imported res = im \<and> ir_skipped res = sk \<and> ir_reportPath res \<noteq> None"
  by (auto simp: finish_import_def and_then_Inr return_def)

lemma runImportMcp_Inr:
  assumes "runImportMcp w opts (Inr configs) d = (Inr res, d')" "\<not> io_dryRun opts"
  shows "\<exists>d1. import_all w opts (io_portBase opts) configs d = (ir_imported res, ir_skipped res, d1)"
proof -
  have "import_configs w opts configs d = (Inr res, d')"
    using assms by (auto simp: runImportMcp_def touch_def and_then_Inr throw_def return_def split: if_splits option.splits)
  then show ?thesis by (auto simp: import_configs_def dest!: finish_import_Inr split: prod.splits)
qed

text \<open>
  An import never loses a server. After a run every requested server is either imported or
  skipped with a reason, one bad server does not stop the others, the imported ones get
  consecutive ports from the base on, and the cards reported for review are those of the glyphs
  the server's tools were turned into.
\<close>

theorem import_accounts_for_all:
  assumes "runImportMcp w opts (Inr configs) d = (Inr res, d')" "\<not> io_dryRun opts"
  shows "mset configs = mset (map im_config (ir_imported res)) + mset (map fst (ir_skipped res)) \<and>
    map im_port (ir_imported res) = map (\<lambda>i. io_portBase opts + int i) [0..<length (ir_imported res)] \<and>
    (\<forall>s\<in>set (ir_imported res). \<exists>gs. im_cards s = map imported_card_of gs \<and>
       importOneServer (iw_env w) (iw_explain w) (iw_spawn w) (io_timeoutMs opts) (im_config s) = Inr gs)"
  using runImportMcp_Inr [OF assms] by (auto dest!: import_all_accounts)

section \<open>Nothing is written outside the output directory\<close>

text \<open>A path below a directory: the same root and the directory's segments, then plain names.\<close>

definition below :: "jstr \<Rightarrow> jstr \<Rightarrow> bool" where
  "below dir path \<longleftrightarrow> (\<exists>rest. path_meaning path = (fst (path_meaning dir), snd (path_meaning dir) @ rest) \<and>
     rest \<noteq> [] \<and> list_all plain_segment rest)"

lemma below_join: "plain_segment s \<Longrightarrow> below dir (path_join dir s)"
  by (simp add: below_def meaning_join)

lemma below_join_join: "plain_segment s \<Longrightarrow> plain_segment t \<Longrightarrow> below dir (path_join (path_join dir s) t)"
  by (auto simp: below_def meaning_join)

definition dir_unit :: "16 word \<Rightarrow> bool" where
  "dir_unit u \<longleftrightarrow> is_lower_unit u \<or> is_digit_unit u \<or> u = dash"

lemma set_collapse: "set (collapse P c s) \<subseteq> insert c (set s - Collect P)"
proof (induction P c s rule: collapse.induct)
  case (2 P c u s)
  have "set (dropWhile P s) \<subseteq> set s" by (auto dest: set_dropWhileD)
  with 2 show ?case by auto
qed simp

lemma set_trim: "set (trim_unit c s) \<subseteq> set s"
  by (auto simp: trim_unit_def dest!: set_dropWhileD)

lemma lower_dir_unit: "is_alnum_unit u \<or> u = dash \<Longrightarrow> dir_unit (ascii_lower u)"
proof -
  have "is_lower_unit (u + 32)" if "is_upper_unit u"
    using that by (simp add: is_lower_unit_def is_upper_unit_def unat_word_ariths)
  then show "is_alnum_unit u \<or> u = dash \<Longrightarrow> dir_unit (ascii_lower u)"
    by (auto simp: dir_unit_def ascii_lower_def is_alnum_unit_def)
qed

lemma safeDirName_units: "safeDirName raw \<noteq> [] \<and> list_all dir_unit (safeDirName raw)"
proof -
  let ?c = "collapse (\<lambda>u. \<not> (is_alnum_unit u \<or> u = dash)) dash raw"
  have "\<forall>u\<in>set ?c. is_alnum_unit u \<or> u = dash" using set_collapse [of "\<lambda>u. \<not> (is_alnum_unit u \<or> u = dash)" dash raw] by auto
  then have "\<forall>u\<in>set (trim_unit dash (map ascii_lower ?c)). dir_unit u"
    using set_trim [of dash "map ascii_lower ?c"] lower_dir_unit by fastforce
  moreover have "list_all dir_unit (js ''mcp'')"
    by (simp add: js_Cons dir_unit_def is_lower_unit_def unat_uc)
  ultimately show ?thesis by (simp add: safeDirName_def or_default_def list_all_iff)
qed

lemma dir_unit_plain: "s \<noteq> [] \<Longrightarrow> list_all dir_unit s \<Longrightarrow> plain_segment s"
  by (auto simp: plain_segment_def list_all_iff dir_unit_def js_Cons is_lower_unit_def is_digit_unit_def dash_def unat_uc)
     (auto simp: uc_def)

lemma safeDirName_plain: "plain_segment (safeDirName raw)"
  using safeDirName_units dir_unit_plain by blast

lemma file_names_plain:
  "plain_segment (js ''server.ts'')" "plain_segment (js ''package.json'')" "plain_segment (js ''.env.example'')"
  "plain_segment (js ''README.md'')" "plain_segment (js ''IMPORT_REPORT.md'')"
  by (simp_all add: plain_segment_def js_Cons)

text \<open>Steps that write below a directory only.\<close>

definition writes_below :: "jstr \<Rightarrow> 'a disk_step \<Rightarrow> bool" where
  "writes_below dir m \<longleftrightarrow> (\<forall>d path. path \<in> set (okeys (snd (m d))) \<longrightarrow> path \<in> set (okeys d) \<or> below dir path)"

named_theorems below_intros \<open>steps that write below a directory\<close>

lemma writes_belowD: "writes_below dir m \<Longrightarrow> m d = (r, d') \<Longrightarrow> path \<in> set (okeys d') \<Longrightarrow> path \<in> set (okeys d) \<or> below dir path"
  unfolding writes_below_def by (metis snd_conv)

lemma writes_below_then [below_intros]:
  assumes "writes_below dir m" "\<And>a. writes_below dir (f a)"
  shows "writes_below dir (and_then m f)"
  unfolding writes_below_def
proof (intro allI impI)
  fix d path
  obtain r d1 where m: "m d = (r, d1)" by fastforce
  assume p: "path \<in> set (okeys (snd (and_then m f d)))"
  show "path \<in> set (okeys d) \<or> below dir path"
  proof (cases r)
    case (Inl e)
    then show ?thesis using p m writes_belowD [OF assms(1) m] by (simp add: and_then_def)
  next
    case (Inr a)
    then have "path \<in> set (okeys (snd (f a d1)))" using p m by (simp add: and_then_def)
    then show ?thesis using writes_belowD [OF assms(2), of a d1] writes_belowD [OF assms(1) m] by (metis prod.collapse)
  qed
qed

lemma writes_below_basic [below_intros]:
  "writes_below dir (return a)" "writes_below dir (throw e)" "writes_below dir (touch broken p)" "writes_below dir (or_raise x)"
  by (auto simp: writes_below_def return_def throw_def touch_def or_raise_def split: option.splits sum.splits)

lemma writes_below_file [below_intros]: "below dir path \<Longrightarrow> writes_below dir (write_file broken path content)"
  by (auto simp: writes_below_def write_file_def set_okeys_omap_set [unfolded set_map] split: option.splits)

lemma writes_below_project:
  "plain_segment s \<Longrightarrow> writes_below dir (emitServerProject broken clock config glyphs port (path_join dir s))"
  unfolding emitServerProject_def write_project_def Let_def by (intro below_intros below_join_join file_names_plain)

lemma writes_below_one: "writes_below (io_output opts) (import_one w opts port config)"
  unfolding import_one_def by (intro below_intros writes_below_project safeDirName_plain)

lemma import_all_below:
  "import_all w opts port cs d = (im, sk, d') \<Longrightarrow> path \<in> set (okeys d') \<Longrightarrow> path \<in> set (okeys d) \<or> below (io_output opts) path"
proof (induction cs arbitrary: port d im sk)
  case (Cons c cs)
  obtain r u where r: "import_one w opts port c d = (r, u)" by fastforce
  then have u: "q \<in> set (okeys u) \<Longrightarrow> q \<in> set (okeys d) \<or> below (io_output opts) q" for q
    using writes_belowD [OF writes_below_one] by blast
  obtain port' im' sk' where "import_all w opts port' cs u = (im', sk', d')"
    using Cons.prems(1) r by (cases r) (auto split: prod.splits)
  from Cons.IH [OF this Cons.prems(2)] u show ?case by blast
qed auto

lemma writes_below_index: "writes_below dir (emitTopLevelIndex broken clock dir im)"
  unfolding emitTopLevelIndex_def Let_def by (rule writes_below_file [OF below_join]) (rule file_names_plain)

lemma writes_below_report: "writes_below dir (emitReport broken clock dir im sk)"
  unfolding emitReport_def Let_def by (rule writes_below_then [OF writes_below_file [OF below_join]]) (rule file_names_plain below_intros)+

lemma writes_below_finish: "writes_below (io_output opts) (finish_import w opts im sk)"
  unfolding finish_import_def
  by (cases "im = []") (simp_all add: writes_below_then writes_below_index writes_below_report writes_below_basic)

lemma writes_below_configs: "writes_below (io_output opts) (import_configs w opts configs)"
  unfolding writes_below_def
proof (intro allI impI)
  fix d path
  obtain im sk d1 where a: "import_all w opts (io_portBase opts) configs d = (im, sk, d1)" by (metis prod_cases3)
  assume "path \<in> set (okeys (snd (import_configs w opts configs d)))"
  then have "path \<in> set (okeys (snd (finish_import w opts im sk d1)))" by (simp add: import_configs_def a)
  then have "path \<in> set (okeys d1) \<or> below (io_output opts) path"
    using writes_below_finish [of opts w im sk] unfolding writes_below_def by blast
  then show "path \<in> set (okeys d) \<or> below (io_output opts) path" using import_all_below [OF a] by blast
qed

text \<open>
  C28. Whatever names the servers of a configuration file have, an import writes below its output
  directory only: every path it adds is that directory's, followed by plain names.
\<close>

theorem import_stays_inside:
  assumes "path \<in> set (okeys (snd (runImportMcp w opts resolved d)))" "path \<notin> set (okeys d)"
  shows "below (io_output opts) path"
proof -
  have "writes_below (io_output opts) (runImportMcp w opts resolved)"
    unfolding runImportMcp_def by (intro below_intros) (simp add: writes_below_basic writes_below_then writes_below_configs)
  with assms show ?thesis unfolding writes_below_def by blast
qed

section \<open>The values of environment variables are not written\<close>

text \<open>
  The same server for the files: everything but the values of its environment and, for an HTTP
  server, which is never generated, its address.
\<close>

definition env_alike :: "mcp_server_config \<Rightarrow> mcp_server_config \<Rightarrow> bool" where
  "env_alike c c' \<longleftrightarrow> ms_name c = ms_name c' \<and> ms_source c = ms_source c' \<and>
     env_keys (ms_transport c) = env_keys (ms_transport c') \<and>
     (case (ms_transport c, ms_transport c') of
        (Stdio_Transport command args _, Stdio_Transport command' args' _) \<Rightarrow> command = command' \<and> args = args'
      | (Http_Transport _ _, Http_Transport _ _) \<Rightarrow> True
      | _ \<Rightarrow> False)"

lemma env_alike_files:
  assumes "env_alike c c'"
  shows "renderServerTs now c port = renderServerTs now c' port" "renderPackageJson c = renderPackageJson c'"
    "renderEnvExample c = renderEnvExample c'" "renderReadme c port cards = renderReadme c' port cards"
  using assms
  by (auto simp: env_alike_def renderServerTs_def renderPackageJson_def renderEnvExample_def renderReadme_def Let_def
      split: mcp_transport.splits)

definition server_alike :: "imported_server \<Rightarrow> imported_server \<Rightarrow> bool" where
  "server_alike s s' \<longleftrightarrow> env_alike (im_config s) (im_config s') \<and> im_port s = im_port s' \<and>
     im_toolCount s = im_toolCount s' \<and> im_cards s = im_cards s' \<and> im_outputDir s = im_outputDir s'"

definition skipped_alike :: "skipped_server \<Rightarrow> skipped_server \<Rightarrow> bool" where
  "skipped_alike p p' \<longleftrightarrow> env_alike (fst p) (fst p') \<and> snd p = snd p'"

lemma import_one_alike:
  assumes "env_alike c c'" "iw_spawn w c = iw_spawn w c'"
  shows "(\<exists>e d1. import_one w opts port c d = (Inl e, d1) \<and> import_one w opts port c' d = (Inl e, d1)) \<or>
    (\<exists>s s' d1. import_one w opts port c d = (Inr s, d1) \<and> import_one w opts port c' d = (Inr s', d1) \<and> server_alike s s')"
proof -
  let ?imported = "importOneServer (iw_env w) (iw_explain w) (iw_spawn w) (io_timeoutMs opts)"
  have "?imported c = ?imported c'"
    using assms by (auto simp: importOneServer_def env_alike_def split: mcp_transport.splits sum.split)
  moreover have "write_project (iw_broken w) (iw_clock w) c cards port dir = write_project (iw_broken w) (iw_clock w) c' cards port dir"
    for cards dir by (simp add: write_project_def env_alike_files [OF assms(1)])
  moreover have "ms_name c = ms_name c'" using assms(1) by (simp add: env_alike_def)
  ultimately show ?thesis using assms(1)
    by (cases "?imported c'")
       (auto simp: import_one_def emitServerProject_def Let_def or_raise_def and_then_def throw_def return_def server_alike_def
         split: prod.split sum.split)
qed

lemma import_all_alike:
  assumes "list_all2 (\<lambda>c c'. env_alike c c' \<and> iw_spawn w c = iw_spawn w c') cs cs'"
    "import_all w opts port cs d = (im, sk, d1)" "import_all w opts port cs' d = (im', sk', d1')"
  shows "list_all2 server_alike im im' \<and> list_all2 skipped_alike sk sk' \<and> d1 = d1'"
  using assms
proof (induction arbitrary: port d im sk im' sk' rule: list_all2_induct)
  case (Cons c cs c' cs')
  from import_one_alike [of c c' w opts port d] Cons.hyps(1)
  consider (bad) e u where "import_one w opts port c d = (Inl e, u)" "import_one w opts port c' d = (Inl e, u)"
    | (good) s s' u where "import_one w opts port c d = (Inr s, u)" "import_one w opts port c' d = (Inr s', u)" "server_alike s s'"
    by blast
  then show ?case
  proof cases
    case bad
    then show ?thesis using Cons.prems Cons.IH [of port u] Cons.hyps(1) by (auto simp: skipped_alike_def split: prod.splits)
  next
    case good
    then show ?thesis using Cons.prems Cons.IH [of "port + 1" u] by (auto split: prod.splits)
  qed
qed simp

lemma map_alike: "list_all2 R xs ys \<Longrightarrow> (\<And>x y. R x y \<Longrightarrow> f x = f y) \<Longrightarrow> map f xs = map f ys"
  by (induction rule: list_all2_induct) auto

lemma list_all2_null: "list_all2 R xs ys \<Longrightarrow> xs = [] \<longleftrightarrow> ys = []"
  by (cases xs; cases ys) auto

lemma finish_import_alike:
  assumes im: "list_all2 server_alike im im'" and sk: "list_all2 skipped_alike sk sk'"
  shows "snd (finish_import w opts im sk d) = snd (finish_import w opts im' sk' d)"
proof -
  note l = list_all2_lengthD [OF im] list_all2_lengthD [OF sk] list_all2_null [OF im] list_all2_null [OF sk]
  have "emitTopLevelIndex (iw_broken w) (iw_clock w) (io_output opts) im = emitTopLevelIndex (iw_broken w) (iw_clock w) (io_output opts) im'"
    unfolding emitTopLevelIndex_def Let_def l
    by (subst map_alike [OF im]) (auto simp: server_alike_def env_alike_def)
  moreover have "review_cards im = review_cards im'"
    unfolding review_cards_def by (subst map_alike [OF im]) (auto simp: server_alike_def env_alike_def)
  then have "emitReport (iw_broken w) (iw_clock w) (io_output opts) im sk = emitReport (iw_broken w) (iw_clock w) (io_output opts) im' sk'"
    unfolding emitReport_def Let_def l
    by (subst map_alike [OF im], simp add: server_alike_def env_alike_def, subst map_alike [OF sk])
       (auto simp: skipped_alike_def env_alike_def)
  ultimately show ?thesis unfolding finish_import_def l by (auto simp: and_then_def return_def split: prod.split sum.split)
qed

text \<open>
  C29. The values of the environment variables in a configuration file reach no generated file:
  two imports whose servers differ only in these values, and behave the same when connected to,
  write exactly the same files.
\<close>

theorem env_values_not_written:
  assumes "list_all2 (\<lambda>c c'. env_alike c c' \<and> iw_spawn w c = iw_spawn w c') configs configs'"
  shows "snd (runImportMcp w opts (Inr configs) d) = snd (runImportMcp w opts (Inr configs') d)"
proof -
  obtain im sk d1 im' sk' d1' where a: "import_all w opts (io_portBase opts) configs d = (im, sk, d1)"
    "import_all w opts (io_portBase opts) configs' d = (im', sk', d1')" by (metis prod_cases3)
  from import_all_alike [OF assms a] finish_import_alike
  have "snd (import_configs w opts configs d) = snd (import_configs w opts configs' d)"
    unfolding import_configs_def a by auto
  with list_all2_null [OF assms] show ?thesis
    by (auto simp: runImportMcp_def touch_def and_then_def return_def throw_def split: option.split)
qed

end
