(* ===== verification/Import_Examples.thy ===== *)
theory Import_Examples
  imports Import_Mcp
begin

text \<open>A concrete import, on which the properties of \<open>Import_Mcp\<close> are applied.\<close>

section \<open>A concrete import\<close>

text \<open>One server whose name tries to climb out, with a secret in its environment, and an HTTP server.\<close>

definition climbing :: "jstr \<Rightarrow> mcp_server_config" where
  "climbing secret = \<lparr>ms_name = js ''../../etc'', ms_source = From_Client Cursor,
     ms_transport = Stdio_Transport (js ''npx'') None (Some [(js ''TOKEN'', secret)])\<rparr>"

definition remote :: mcp_server_config where
  "remote = \<lparr>ms_name = js ''r'', ms_source = From_Client Cursor, ms_transport = Http_Transport (js ''http://r'') None\<rparr>"

definition toy_world :: import_world where
  "toy_world = \<lparr>iw_env = toy_mcp_env, iw_explain = (\<lambda>_. []),
     iw_spawn = (\<lambda>_. \<lparr>px_connect = Some (0, Inr ()), px_tools = Some (0, Inr []), px_call = (\<lambda>_ _. Inl [])\<rparr>),
     iw_broken = (\<lambda>_. None), iw_clock = (\<lambda>_. js ''t'')\<rparr>"

definition toy_import :: import_options where
  "toy_import = \<lparr>io_output = js ''out'', io_portBase = 3100, io_dryRun = False, io_timeoutMs = 1000\<rparr>"

lemma toy_connects: "importOneServer toy_mcp_env (\<lambda>_. []) (iw_spawn toy_world) 1000 (climbing secret) = Inr []"
  by (simp add: importOneServer_def climbing_def toy_world_def import_race_def timer_delay_def listed_glyphs_def
      glyphsFromMcpClient_def withTimeout_def importer_options_def glyphsFromMcpTools_def)

lemma toy_refused: "\<exists>e. importOneServer toy_mcp_env (\<lambda>_. []) (iw_spawn toy_world) 1000 remote = Inl e"
  by (simp add: importOneServer_def remote_def)

lemmas write_eval = emitServerProject_def write_project_def touch_def write_file_def Let_def step_to return_at

lemma toy_import_one:
  "\<exists>s d1. import_one toy_world toy_import port (climbing secret) d = (Inr s, d1) \<and>
     path_join (path_join (js ''out'') (safeDirName (js ''../../etc''))) (js ''server.ts'') \<in> set (okeys d1)"
proof -
  obtain body where r: "renderServerTs (js ''t'') (climbing secret) port = Inr body"
    by (simp add: renderServerTs_def climbing_def)
  show ?thesis
    using toy_connects [of secret] r
    by (simp add: import_one_def write_eval toy_world_def toy_import_def set_okeys_omap_set [unfolded set_map])
       (simp add: climbing_def)
qed

lemma toy_fields [simp]:
  "iw_broken toy_world = (\<lambda>_. None)" "io_output toy_import = js ''out''" "io_portBase toy_import = 3100" "\<not> io_dryRun toy_import"
  by (simp_all add: toy_world_def toy_import_def)

lemma toy_finish: "\<exists>res d2. finish_import toy_world toy_import im sk d = (Inr res, d2) \<and> set (okeys d) \<subseteq> set (okeys d2)"
  by (auto simp: finish_import_def emitTopLevelIndex_def emitReport_def write_file_def Let_def step_to return_at
      set_okeys_omap_set [unfolded set_map])

lemma toy_run:
  "\<exists>res d1. runImportMcp toy_world toy_import (Inr [climbing secret, remote]) [] = (Inr res, d1) \<and>
     path_join (path_join (js ''out'') (safeDirName (js ''../../etc''))) (js ''server.ts'') \<in> set (okeys d1)"
proof -
  obtain s d1 where 1: "import_one toy_world toy_import 3100 (climbing secret) [] = (Inr s, d1)"
    "path_join (path_join (js ''out'') (safeDirName (js ''../../etc''))) (js ''server.ts'') \<in> set (okeys d1)"
    using toy_import_one by blast
  obtain e where 2: "import_one toy_world toy_import 3101 remote d1 = (Inl e, d1)"
    using toy_refused by (auto simp: import_one_def toy_world_def toy_import_def or_raise_def throw_def and_then_def)
  have a: "import_all toy_world toy_import 3100 [climbing secret, remote] [] = ([s], [(remote, e)], d1)"
    using 1 2 by simp
  from toy_finish obtain res d2 where
    "finish_import toy_world toy_import [s] [(remote, e)] d1 = (Inr res, d2)" "set (okeys d1) \<subseteq> set (okeys d2)" by blast
  then have "import_configs toy_world toy_import [climbing secret, remote] [] = (Inr res, d2)"
    unfolding import_configs_def toy_fields a by simp
  then have "runImportMcp toy_world toy_import (Inr [climbing secret, remote]) [] = (Inr res, d2)"
    by (simp add: runImportMcp_def touch_def)
  with 1(2) \<open>set (okeys d1) \<subseteq> set (okeys d2)\<close> show ?thesis by blast
qed

theorem import_accounts_for_all_witness:
  "\<exists>res d1. runImportMcp toy_world toy_import (Inr [climbing [], remote]) [] = (Inr res, d1) \<and>
     {#climbing [], remote#} = mset (map im_config (ir_imported res)) + mset (map fst (ir_skipped res))"
proof -
  obtain res d1 where r: "runImportMcp toy_world toy_import (Inr [climbing [], remote]) [] = (Inr res, d1)" using toy_run by blast
  from import_accounts_for_all [OF r] r show ?thesis by (auto simp: toy_import_def)
qed

theorem import_stays_inside_witness:
  "below (js ''out'') (path_join (path_join (js ''out'') (safeDirName (js ''../../etc''))) (js ''server.ts''))"
proof -
  obtain res d1 where r: "runImportMcp toy_world toy_import (Inr [climbing [], remote]) [] = (Inr res, d1)"
    "path_join (path_join (js ''out'') (safeDirName (js ''../../etc''))) (js ''server.ts'') \<in> set (okeys d1)"
    using toy_run by blast
  from import_stays_inside [of _ toy_world toy_import "Inr [climbing [], remote]" "[]"] r show ?thesis
    by (simp add: toy_import_def)
qed

theorem env_values_not_written_witness:
  "climbing (js ''secret'') \<noteq> climbing (js ''other'') \<and>
   snd (runImportMcp toy_world toy_import (Inr [climbing (js ''secret'')]) []) =
     snd (runImportMcp toy_world toy_import (Inr [climbing (js ''other'')]) [])"
proof
  show "climbing (js ''secret'') \<noteq> climbing (js ''other'')" by (simp add: climbing_def)
  show "snd (runImportMcp toy_world toy_import (Inr [climbing (js ''secret'')]) []) =
     snd (runImportMcp toy_world toy_import (Inr [climbing (js ''other'')]) [])"
    by (rule env_values_not_written) (simp add: env_alike_def climbing_def env_keys_def toy_world_def)
qed

end
