(* ===== verification/Json_Roundtrip.thy ===== *)
theory Json_Roundtrip
  imports Json_Parse
begin

text \<open>
  \<open>JSON.parse\<close> reads back what \<open>JSON.stringify\<close> prints: on values that JSON can hold the text is a
  faithful encoding, and the reader's fuel is enough for every printed text.
\<close>

section \<open>Strings\<close>

lemma hex_unit_unat: "d < 16 \<Longrightarrow> unat (hex_unit d) = (if d < 10 then 48 + d else 87 + d)"
  by (simp add: hex_unit_def unat_of_nat take_bit_eq_mod del: of_nat_add)

lemma hex_unit_digit: "d < 16 \<Longrightarrow> is_hex_unit (hex_unit d) \<and> hex_digit (hex_unit d) = d"
  by (auto simp: is_hex_unit_def hex_digit_def hex_unit_unat Let_def)

lemma hex_unit4_u_escape:
  "hex_unit4 (hex_unit (unat u div 4096)) (hex_unit (unat u div 256 mod 16))
     (hex_unit (unat u div 16 mod 16)) (hex_unit (unat u mod 16)) = Some (u :: 16 word)"
proof -
  have "unat u < 65536" using unsigned_less [of u] by simp
  then have d: "unat u div 4096 < 16" by (simp add: less_mult_imp_div_less)
  have m: "n mod 16 < 16" for n :: nat by simp
  have "hex4 (hex_unit (unat u div 4096)) (hex_unit (unat u div 256 mod 16))
      (hex_unit (unat u div 16 mod 16)) (hex_unit (unat u mod 16)) = u" by (rule hex4_u_escape)
  then show ?thesis
    using hex_unit_digit [OF d] hex_unit_digit [OF m]
    by (simp add: hex_unit4_def hex4_def hex_value_unit [OF d] hex_value_unit [OF m] del: of_nat_add of_nat_mult)
qed

lemma parse_escape_unit: "parse_string (escape_unit u @ s) = cons_read u (parse_string s)"
  by (auto simp: escape_unit_def u_escape_def Let_def simple_escape_def hex_unit4_u_escape)

lemma parse_escape_units: "parse_string (escape_units s @ 34 # r) = Some (s, r)"
proof (induction s rule: escape_units.induct)
  case (3 u w s)
  show ?case
  proof (cases "is_high u \<and> is_low w")
    case True
    then have "u \<noteq> 34" "u \<noteq> 92" "w \<noteq> 34" "w \<noteq> 92" "\<not> unat u < 32" "\<not> unat w < 32"
      by (auto simp: is_high_def is_low_def)
    with True 3 show ?thesis by (simp add: cons_read_def)
  next
    case False
    then have "escape_units (u # w # s) = escape_unit u @ escape_units (w # s)" by auto
    with 3 False show ?thesis
      by (simp add: parse_escape_unit cons_read_def del: parse_string.simps escape_units.simps)
  qed
qed (simp_all add: parse_escape_unit cons_read_def)

section \<open>Tokens\<close>

lemma expect_here: "\<not> is_ws u \<Longrightarrow> expect u (u # r) = Some r"
  by (simp add: expect_def)

lemma expect_other: "s \<noteq> [] \<Longrightarrow> \<not> is_ws (hd s) \<Longrightarrow> hd s \<noteq> u \<Longrightarrow> expect u s = None"
  by (cases s) (auto simp: expect_def)

lemma punctuation_no_ws: "\<not> is_ws 34" "\<not> is_ws 44" "\<not> is_ws 58" "\<not> is_ws 91" "\<not> is_ws 93" "\<not> is_ws 123" "\<not> is_ws 125"
  by (simp_all add: is_ws_def)

lemma ser_nonempty: "ser v \<noteq> []"
  by (cases v) (simp_all add: js_def quote_json_def)

lemma digit_no_ws: "is_digit_unit u \<Longrightarrow> \<not> is_ws u"
  by (auto simp: is_digit_unit_def is_ws_def)

lemma ser_hd_no_ws: "\<not> is_ws (hd (ser v))"
proof (cases v)
  case (JNum i)
  then show ?thesis using hd_int_dec [of i] digit_no_ws by (auto simp: is_ws_def)
qed (simp_all add: js_words quote_json_def is_ws_def)

lemma ser_skip: "skip_ws (ser v @ r) = ser v @ r"
  using ser_nonempty [of v] ser_hd_no_ws [of v] by (cases "ser v") auto

lemma nat_dec_head_zero: "hd (nat_dec n) = 48 \<Longrightarrow> n = 0"
proof (induction n rule: nat_dec.induct)
  case (1 n)
  show ?case
  proof (cases "n < 10")
    case True
    then have "unat (hd (nat_dec n)) = 48 + n" by (subst nat_dec.simps) (simp add: unat_digit_unit)
    with 1(2) show ?thesis by simp
  next
    case False
    then have "hd (nat_dec (n div 10)) = 48" using 1(2) by (subst (asm) nat_dec.simps) (simp add: hd_append)
    with 1(1) False have "n div 10 = 0" by simp
    with False show ?thesis by simp
  qed
qed

lemma parse_nat_dec:
  assumes "delim r"
  shows "parse_nat (nat_dec n @ r) = Some (n, r)"
proof -
  have t: "takeWhile is_digit_unit (nat_dec n @ r) = nat_dec n" "dropWhile is_digit_unit (nat_dec n @ r) = r"
    using take_digits [OF nat_dec_digits assms] by simp_all
  have z: "\<not> (hd (nat_dec n) = 48 \<and> 1 < length (nat_dec n))"
  proof
    assume "hd (nat_dec n) = 48 \<and> 1 < length (nat_dec n)"
    then have "n = 0" "1 < length (nat_dec n)" using nat_dec_head_zero by auto
    then show False by (subst (asm) nat_dec.simps) simp
  qed
  show ?thesis
    unfolding parse_nat_def Let_def t using assms z by (cases r) (auto simp: nat_dec_value)
qed

lemma int_dec_head: "hd (int_dec i) \<notin> {110, 116, 102, 34, 91, 123}"
  using hd_int_dec [of i] by (auto simp: is_digit_unit_def)

lemma strip_prefix_head: "s \<noteq> [] \<Longrightarrow> hd s \<noteq> p \<Longrightarrow> strip_prefix (p # ps) s = None"
  by (cases s) auto

lemma parse_number_dec:
  assumes "delim r"
  shows "parse_number (int_dec i @ r) = Some (JNum i, r)"
proof (cases "i < 0")
  case True
  then show ?thesis
    using parse_nat_dec [OF assms, of "nat (- i)"]
    by (simp add: parse_number_def int_dec_def js_def minus_unit)
next
  case False
  then have "strip_prefix (js ''-'') (int_dec i @ r) = None"
    using hd_nat_dec_digit [of "nat i"]
    by (auto simp: int_dec_def js_def minus_unit is_digit_unit_def hd_append intro!: strip_prefix_head)
  with False show ?thesis
    using parse_nat_dec [OF assms, of "nat i"] by (simp add: parse_number_def int_dec_def)
qed

lemma parse_atom_number:
  assumes "delim r"
  shows "parse_atom (int_dec i @ r) = Some (JNum i, r)"
proof -
  have n: "strip_prefix (p # ps) (int_dec i @ r) = None" if "p \<in> {110, 116, 102}" for p ps
    using int_dec_head [of i] that by (intro strip_prefix_head) (auto simp: hd_append)
  show ?thesis
    by (simp add: parse_atom_def or_else_def js_words n parse_number_dec [OF assms])
qed

lemma parse_atom_words:
  "parse_atom (js ''null'' @ r) = Some (JNull, r)" "parse_atom (js ''true'' @ r) = Some (JBool True, r)"
  "parse_atom (js ''false'' @ r) = Some (JBool False, r)"
  by (simp_all add: parse_atom_def or_else_def js_words)

section \<open>Objects\<close>

text \<open>The own properties of an object, in enumeration order.\<close>

definition enumerated :: "(jstr \<times> 'v) list \<Rightarrow> bool" where
  "enumerated kvs \<longleftrightarrow> distinct (map fst kvs) \<and>
     sorted_wrt (\<lambda>p q. is_array_index (fst q) \<longrightarrow> is_array_index (fst p) \<and> digits_value (fst p) < digits_value (fst q)) kvs"

text \<open>Values that JSON can hold: no \<open>undefined\<close> anywhere.\<close>

fun json_value :: "jsval \<Rightarrow> bool" where
  "json_value JUndef = False"
| "json_value (JArr vs) = list_all json_value vs"
| "json_value (JObj kvs) = (enumerated kvs \<and> list_all (\<lambda>(k, v). json_value v) kvs)"
| "json_value _ = True"

lemma put_index_last:
  assumes "list_all (\<lambda>p. is_array_index (fst p) \<and> digits_value (fst p) < digits_value k) acc"
  shows "put_index k v acc = acc @ [(k, v)]"
  using assms by (induction k v acc rule: put_index.induct) auto

lemma js_define_last:
  assumes "enumerated (acc @ [(k, v)])"
  shows "js_define k v acc = acc @ [(k, v)]"
  using assms by (auto simp: enumerated_def js_define_def sorted_wrt_append list_all_iff intro!: put_index_last)

lemma enumerated_prefix: "enumerated (xs @ ys) \<Longrightarrow> enumerated xs"
  by (auto simp: enumerated_def sorted_wrt_append)

lemma define_enumerated:
  "enumerated (acc @ kvs) \<Longrightarrow> foldl (\<lambda>o' (k, v). js_define k v o') acc kvs = acc @ kvs"
proof (induction kvs arbitrary: acc)
  case (Cons p kvs)
  then have "enumerated (acc @ [p])" using enumerated_prefix [of "acc @ [p]" kvs] by simp
  then have "js_define (fst p) (snd p) acc = acc @ [p]" using js_define_last [of acc "fst p" "snd p"] by simp
  then show ?case using Cons by (simp add: split_beta)
qed simp

lemma json_value_defined: "json_value v \<Longrightarrow> js_defined v"
  by (induction v rule: js_defined.induct) (auto simp: list_all_iff)

section \<open>The reader on a printed text\<close>

text \<open>A printed value, read with enough fuel before a delimiter.\<close>

definition reads_back :: "jsval \<Rightarrow> bool" where
  "reads_back v \<longleftrightarrow> (\<forall>n r. 2 * length (ser v) \<le> n \<longrightarrow> delim r \<longrightarrow> parse_value n (ser v @ r) = Some (v, r))"

abbreviation elems_text :: "jsval list \<Rightarrow> jstr" where
  "elems_text vs \<equiv> intercalate [44] (map ser vs) @ [93]"

abbreviation pair_text :: "jstr \<times> jsval \<Rightarrow> jstr" where
  "pair_text p \<equiv> quote_json (fst p) @ [58] @ ser (snd p)"

abbreviation members_text :: "(jstr \<times> jsval) list \<Rightarrow> jstr" where
  "members_text kvs \<equiv> intercalate [44] (map pair_text kvs) @ [125]"

lemma fuel_positive: "2 * length (t @ u # s) \<le> n \<Longrightarrow> \<exists>m. n = Suc m"
  by (cases n) auto

lemma parse_elems_text:
  assumes "vs \<noteq> []" "\<forall>v\<in>set vs. reads_back v" "2 * length (elems_text vs) \<le> n"
  shows "parse_elems n (elems_text vs @ r) = Some (vs, r)"
  using assms
proof (induction vs arbitrary: n)
  case (Cons v vs)
  from Cons.prems(3) obtain m where n: "n = Suc m" by (cases n) auto
  show ?case
  proof (cases vs)
    case Nil
    have "parse_value m (ser v @ 93 # r) = Some (v, 93 # r)"
      using Cons.prems Nil n by (auto simp: reads_back_def)
    with Nil n show ?thesis by (simp add: expect_here expect_other punctuation_no_ws)
  next
    case (Cons w ws)
    have l: "ser w \<noteq> []" "ser v \<noteq> []" by (rule ser_nonempty)+
    have v: "parse_value m (ser v @ 44 # elems_text vs @ r) = Some (v, 44 # elems_text vs @ r)"
      using Cons.prems Cons n by (auto simp: reads_back_def)
    have "2 * length (elems_text vs) \<le> m" using Cons.prems(3) Cons n l by (cases "ser v") auto
    then have "parse_elems m (elems_text vs @ r) = Some (vs, r)"
      using Cons.IH Cons.prems(2) Cons by simp
    with v Cons n show ?thesis by (simp add: expect_here punctuation_no_ws)
  qed
qed simp

lemma parse_members_text:
  assumes "kvs \<noteq> []" "\<forall>p\<in>set kvs. reads_back (snd p)" "2 * length (members_text kvs) \<le> n"
  shows "parse_members n (members_text kvs @ r) = Some (kvs, r)"
  using assms
proof (induction kvs arbitrary: n)
  case (Cons p kvs)
  obtain k v where p: "p = (k, v)" by (cases p)
  from Cons.prems(3) obtain m where n: "n = Suc m" by (cases n) auto
  have key: "Option.bind (expect 34 (quote_json k @ t)) parse_string = Some (k, t)" for t
    by (simp add: quote_json_def expect_here punctuation_no_ws parse_escape_units)
  show ?case
  proof (cases kvs)
    case Nil
    have "parse_value m (ser v @ 125 # r) = Some (v, 125 # r)"
      using Cons.prems Nil n p by (auto simp: reads_back_def)
    with Nil n p key show ?thesis by (simp add: expect_here expect_other punctuation_no_ws)
  next
    case (Cons q qs)
    have v: "parse_value m (ser v @ 44 # members_text kvs @ r) = Some (v, 44 # members_text kvs @ r)"
      using Cons.prems Cons n p by (auto simp: reads_back_def)
    have "2 * length (members_text kvs) \<le> m" using Cons.prems(3) Cons n p by (simp add: quote_json_def)
    then have "parse_members m (members_text kvs @ r) = Some (kvs, r)"
      using Cons.IH Cons.prems(2) Cons by simp
    with v Cons n p key show ?thesis by (simp add: expect_here punctuation_no_ws)
  qed
qed simp


lemma word_heads: "hd (js ''null'') = 110" "hd (js ''true'') = 116" "hd (js ''false'') = 102"
  by (simp_all add: js_words)

lemma members_ser: "js_defined (JObj kvs) \<Longrightarrow> ser (JObj kvs) = 123 # members_text kvs"
proof -
  assume d: "js_defined (JObj kvs)"
  then have "filter (\<lambda>(k, v). v \<noteq> JUndef) kvs = kvs" by (intro filter_True) (auto simp: list_all_iff)
  then show ?thesis by (simp add: case_prod_unfold)
qed

lemma list_head:
  assumes "vs \<noteq> []"
  shows "expect 93 (elems_text vs @ r) = None"
proof -
  obtain v ws where vs: "vs = v # ws" using assms by (cases vs) auto
  have "hd (ser v) \<noteq> 93" using ser_hd_not_close [of v "[]"] ser_nonempty [of v] by (simp add: hd_append)
  then show ?thesis
    using ser_nonempty [of v] ser_hd_no_ws [of v] vs by (intro expect_other) (simp_all add: intercalate_Cons hd_append)
qed

lemma parse_atom_value:
  assumes "parse_atom (t @ r) = Some (v, r)" "t \<noteq> []" "\<not> is_ws (hd t)" "hd t \<notin> {34, 91, 123}" "2 * length t \<le> n"
  shows "parse_value n (t @ r) = Some (v, r)"
  using assms by (cases n; cases t) auto

lemma members_head: "kvs \<noteq> [] \<Longrightarrow> expect 125 (members_text kvs @ r) = None"
  by (cases kvs) (auto simp: intercalate_Cons quote_json_def is_ws_def intro!: expect_other)

lemma ser_reads_back: "json_value v \<Longrightarrow> reads_back v"
proof (induction v)
  case (JArr vs)
  have "parse_value n (ser (JArr vs) @ r) = Some (JArr vs, r)" if f: "2 * length (ser (JArr vs)) \<le> n" for n r
  proof -
    obtain m where m: "n = Suc m" using f by (cases n) auto
    show ?thesis
    proof (cases "vs = []")
      case False
      have "parse_elems m (elems_text vs @ r) = Some (vs, r)"
        using False JArr f m by (intro parse_elems_text) (auto simp: list_all_iff)
      then show ?thesis using list_head [OF False, of r] m by (simp add: punctuation_no_ws)
    qed (simp add: m punctuation_no_ws expect_here)
  qed
  then show ?case by (simp add: reads_back_def)
next
  case (JObj kvs)
  have t: "ser (JObj kvs) = 123 # members_text kvs" using JObj.prems json_value_defined members_ser by blast
  have "parse_value n (ser (JObj kvs) @ r) = Some (JObj kvs, r)" if f: "2 * length (ser (JObj kvs)) \<le> n" for n r
  proof -
    obtain m where m: "n = Suc m" using f t by (cases n) auto
    show ?thesis
    proof (cases "kvs = []")
      case False
      have "parse_members m (members_text kvs @ r) = Some (kvs, r)"
        using False JObj f m unfolding t by (intro parse_members_text) (auto simp: list_all_iff snds.simps)
      then show ?thesis unfolding t
        using members_head [OF False, of r] m JObj.prems define_enumerated [of "[]" kvs] by (simp add: punctuation_no_ws)
    qed (simp add: m punctuation_no_ws expect_here)
  qed
  then show ?case by (simp add: reads_back_def)
next
  case (JStr s)
  have "parse_value n (ser (JStr s) @ r) = Some (JStr s, r)" if "2 * length (ser (JStr s)) \<le> n" for n r
    using that by (cases n) (simp_all add: quote_json_def punctuation_no_ws parse_escape_units)
  then show ?case by (simp add: reads_back_def)
next
  case (JNum i)
  have "\<not> is_ws (hd (int_dec i))" using ser_hd_no_ws [of "JNum i"] by simp
  then show ?case
    using int_dec_head [of i] by (auto simp: reads_back_def intro!: parse_atom_value parse_atom_number)
next
  case (JBool b)
  show ?case
    by (auto simp: reads_back_def word_heads is_ws_def intro!: parse_atom_value parse_atom_words)
next
  case JNull
  show ?case
    by (auto simp: reads_back_def word_heads is_ws_def intro!: parse_atom_value parse_atom_words)
qed simp

lemma json_parse_ser:
  assumes "json_value v"
  shows "json_parse (ser v) = Some v"
proof -
  have "parse_value (2 * length (ser v) + 2) (ser v @ []) = Some (v, [])"
    using ser_reads_back [OF assms] unfolding reads_back_def
    by (elim allE [of _ "2 * length (ser v) + 2"] allE [of _ "[]"]) (simp add: delim_def)
  then show ?thesis by (simp add: json_parse_def)
qed

lemma json_roundtrip_base: "json_value (js_norm v) \<Longrightarrow> json_parse (ser v) = Some (js_norm v)"
  using json_parse_ser [of "js_norm v"] by (simp add: ser_norm)

text \<open>
  \<open>JSON.parse\<close> of what \<open>JSON.stringify\<close> prints for a value gives the value back, without
  its \<open>undefined\<close> entries: whatever strings it holds, quotes, control characters and lone
  surrogates included, and with the properties of every object in the order they had.
\<close>

theorem json_roundtrip:
  assumes "json_value (js_norm v)"
  shows "json_parse (ser v) = Some (js_norm v)"
  using assms by (rule json_roundtrip_base)

theorem json_roundtrip_witness:
  "json_parse (ser (JObj [(js ''7'', JNum (- 12)), (js ''a'', JUndef), (js ''b'', JArr [JStr [34, 10, 55357], JNull])]))
     = Some (JObj [(js ''7'', JNum (- 12)), (js ''b'', JArr [JStr [34, 10, 55357], JNull])])"
  using json_roundtrip [of "JObj [(js ''7'', JNum (- 12)), (js ''a'', JUndef), (js ''b'', JArr [JStr [34, 10, 55357], JNull])]"]
  by (simp add: enumerated_def is_array_index_def js_def uc_def is_digit_unit_def)

end
