(* ===== verification/Conformance.thy ===== *)
theory Conformance
  imports Json_Roundtrip Uri Cards Key_Registry
begin

text \<open>
  The conformance suite of \<open>packages/conformance/src\<close>: its HTTP client (\<open>conformance.ts\<close>) and the
  four levels of checks (\<open>levels/\<close>). The server under test is a state of any type that answers
  requests. The compiled JSON schemas are parameters, and so is reading a JSON value as the card,
  receipt or key registry it claims to be; an error raised by the engine has a fixed text here.
\<close>

section \<open>Types\<close>

datatype conformance_level = Discovery | Execution | Security | Governance

definition ALL_LEVELS :: "conformance_level list" where
  "ALL_LEVELS = [Discovery, Execution, Security, Governance]"

fun level_str :: "conformance_level \<Rightarrow> jstr" where
  "level_str Discovery = js ''discovery''"
| "level_str Execution = js ''execution''"
| "level_str Security = js ''security''"
| "level_str Governance = js ''governance''"

datatype check_status = Passed | Failed | Skipped

record check_result =
  ck_name :: jstr
  ck_level :: conformance_level
  ck_status :: check_status
  ck_detail :: jstr

record fixture_glyphs =
  fx_echo :: "jstr option"
  fx_requiresConfirmation :: "jstr option"
  fx_slow :: "jstr option"
  fx_invalidOutput :: "jstr option"

record conf_request =
  cq_method :: jstr
  cq_url :: jstr
  cq_headers :: "(jstr, jstr) omap"
  cq_body :: "jstr option"

record conf_response =
  cs_status :: int
  cs_json :: jsval

text \<open>What is third-party: the compiled schemas, and values taken at their declared type.\<close>

record wire_schemas =
  ws_handshakeResponse :: "jsval \<Rightarrow> bool"
  ws_glyphError :: "jsval \<Rightarrow> bool"
  ws_lexiconEntry :: "jsval \<Rightarrow> bool"
  ws_glyphCard :: "jsval \<Rightarrow> bool"
  ws_sealedEnvelope :: "jsval \<Rightarrow> bool"
  ws_sanitization :: "jsval \<Rightarrow> bool"
  ws_confirmationTicket :: "jsval \<Rightarrow> bool"
  ws_updateManifest :: "jsval \<Rightarrow> bool"
  as_card :: "jsval \<Rightarrow> glyph_card option"
  as_receipt :: "jsval \<Rightarrow> call_receipt option"
  as_registry :: "jsval \<Rightarrow> key_registry option"

text \<open>A running suite: the server under test, the checks recorded so far and \<open>ctx.lexiconNames\<close>.\<close>

record 's probe =
  pr_server :: 's
  pr_checks :: "check_result list"
  pr_names :: "jsval list"

type_synonym ('s, 'a) probe_step = "('s probe, jstr, 'a) step"

type_synonym 's http_fn = "jstr \<Rightarrow> jstr \<Rightarrow> jsval \<Rightarrow> (jstr \<times> jstr) list \<Rightarrow> ('s, jstr, conf_response) step"

record 's level_context =
  lx_crypto :: crypto
  lx_http :: "'s http_fn"
  lx_schemas :: wire_schemas
  lx_fixtures :: fixture_glyphs
  lx_authToken :: "jstr option"

definition type_error :: jstr where
  "type_error = js ''TypeError''"

definition uri_error :: jstr where
  "uri_error = js ''URIError''"

section \<open>HTTP\<close>

definition set_header :: "(jstr \<Rightarrow> jstr) \<Rightarrow> jstr \<times> jstr \<Rightarrow> (jstr, jstr) omap \<Rightarrow> (jstr, jstr) omap" where
  "set_header lower h headers =
     (case h of (k, v) \<Rightarrow> if v = [] then omap_delete (lower k) headers else omap_set (lower k) v headers)"

definition build_request ::
  "(jstr \<Rightarrow> jstr) \<Rightarrow> jstr \<Rightarrow> jstr option \<Rightarrow> jstr \<Rightarrow> jstr \<Rightarrow> jsval \<Rightarrow> (jstr \<times> jstr) list \<Rightarrow> conf_request" where
  "build_request lower base authToken method path body extraHeaders =
     \<lparr>cq_method = method, cq_url = base @ path,
      cq_headers = fold (set_header lower) extraHeaders
        ((if body = JUndef then [] else [(js ''content-type'', js ''application/json'')]) @
         (if truthy authToken then [(js ''authorization'', js ''Bearer '' @ the authToken)] else [])),
      cq_body = (case body of JUndef \<Rightarrow> None | JStr t \<Rightarrow> Some t | v \<Rightarrow> Some (ser v))\<rparr>"

text \<open>\<open>fetch\<close> gives the status and the text of the response, or rejects with a message.\<close>

type_synonym 's server_under_test = "conf_request \<Rightarrow> ('s, jstr, int \<times> jstr) step"

definition read_response :: "int \<times> jstr \<Rightarrow> conf_response" where
  "read_response res = (case res of (status, t) \<Rightarrow>
     \<lparr>cs_status = status,
      cs_json = (if t = [] then JUndef else case json_parse t of None \<Rightarrow> JUndef | Some v \<Rightarrow> v)\<rparr>)"

definition buildHttp :: "(jstr \<Rightarrow> jstr) \<Rightarrow> 's server_under_test \<Rightarrow> jstr \<Rightarrow> jstr option \<Rightarrow> 's http_fn" where
  "buildHttp lower doFetch base authToken method path body extraHeaders =
     and_then (doFetch (build_request lower base authToken method path body extraHeaders))
       (\<lambda>res. return (read_response res))"

section \<open>Steps of a check\<close>

definition add_check :: "conformance_level \<Rightarrow> string \<Rightarrow> check_status \<Rightarrow> jstr \<Rightarrow> ('s, unit) probe_step" where
  "add_check level name status detail p =
     (Inr (), p\<lparr>pr_checks := pr_checks p @ [\<lparr>ck_name = js name, ck_level = level, ck_status = status, ck_detail = detail\<rparr>]\<rparr>)"

definition add_verdict :: "conformance_level \<Rightarrow> string \<Rightarrow> bool \<Rightarrow> jstr \<Rightarrow> jstr \<Rightarrow> ('s, unit) probe_step" where
  "add_verdict level name good yes no =
     add_check level name (if good then Passed else Failed) (if good then yes else no)"

text \<open>\<open>try { m } catch (e) { h(errMsg(e)) }\<close>\<close>

definition try_catch :: "('s, 'a) probe_step \<Rightarrow> (jstr \<Rightarrow> ('s, 'a) probe_step) \<Rightarrow> ('s, 'a) probe_step" where
  "try_catch m h p = (case m p of (Inl e, p') \<Rightarrow> h e p' | (Inr a, p') \<Rightarrow> (Inr a, p'))"

definition send ::
  "'s level_context \<Rightarrow> string \<Rightarrow> jstr \<Rightarrow> jsval \<Rightarrow> (jstr \<times> jstr) list \<Rightarrow> ('s, conf_response) probe_step" where
  "send ctx method path body extraHeaders p =
     (case lx_http ctx (js method) path body extraHeaders (pr_server p) of
        (r, s') \<Rightarrow> (r, p\<lparr>pr_server := s'\<rparr>))"

definition member_of :: "jsval \<Rightarrow> string \<Rightarrow> ('s, jsval) probe_step" where
  "member_of v k = (case js_member v (js k) of None \<Rightarrow> throw type_error | Some w \<Rightarrow> return w)"

definition encoded :: "jstr \<Rightarrow> ('s, jstr) probe_step" where
  "encoded s = (case encodeURIComponent s of None \<Rightarrow> throw uri_error | Some t \<Rightarrow> return t)"

text \<open>\<open>json?.error?.code ?? ''\<close> as a template prints it.\<close>

definition shown_code :: "jsval \<Rightarrow> jstr" where
  "shown_code json =
     (let c = js_member_opt (js_member_opt json (js ''error'')) (js ''code'')
      in if c = JUndef \<or> c = JNull then [] else js_to_string c)"

text \<open>\<open>status === n && validators.glyphError(json) === true && json.error.code === code\<close>\<close>

definition is_error :: "'s level_context \<Rightarrow> int \<Rightarrow> string \<Rightarrow> conf_response \<Rightarrow> ('s, bool) probe_step" where
  "is_error ctx n code r =
     (if cs_status r = n \<and> ws_glyphError (lx_schemas ctx) (cs_json r)
      then and_then (member_of (cs_json r) ''error'') (\<lambda>e.
           and_then (member_of e ''code'') (\<lambda>c. return (c = jlit code)))
      else return False)"

definition expected_error :: "int \<Rightarrow> string \<Rightarrow> conf_response \<Rightarrow> jstr" where
  "expected_error n code r =
     js ''expected '' @ int_dec n @ js '' '' @ js code @ js '', got '' @ int_dec (cs_status r) @ js '' '' @
     shown_code (cs_json r)"

definition arrow :: jstr where
  "arrow = js '' '' @ [8594] @ js '' ''"

text \<open>A check that sends a request and expects an error response of the protocol.\<close>

definition expect_refusal ::
  "'s level_context \<Rightarrow> conformance_level \<Rightarrow> string \<Rightarrow> ('s, conf_response) probe_step \<Rightarrow> int \<Rightarrow> string \<Rightarrow> string
    \<Rightarrow> ('s, unit) probe_step" where
  "expect_refusal ctx level name request n code what =
     try_catch
       (and_then request (\<lambda>r.
        and_then (is_error ctx n code r) (\<lambda>good.
          add_verdict level name good (js what @ arrow @ int_dec n @ js '' '' @ js code) (expected_error n code r))))
       (add_check level name Failed)"

definition glyph_path :: "jstr \<Rightarrow> string \<Rightarrow> ('s, jstr) probe_step" where
  "glyph_path name rest = and_then (encoded name) (\<lambda>t. return (js ''/glyphs/'' @ t @ js rest))"

definition get_glyph :: "'s level_context \<Rightarrow> jstr \<Rightarrow> string \<Rightarrow> ('s, conf_response) probe_step" where
  "get_glyph ctx name rest = and_then (glyph_path name rest) (\<lambda>path. send ctx ''GET'' path JUndef [])"

definition post_glyph :: "'s level_context \<Rightarrow> jstr \<Rightarrow> string \<Rightarrow> jsval \<Rightarrow> ('s, conf_response) probe_step" where
  "post_glyph ctx name rest body = and_then (glyph_path name rest) (\<lambda>path. send ctx ''POST'' path body [])"

definition in_quotes :: "jsval \<Rightarrow> jstr" where
  "in_quotes name = [39] @ js_to_string name @ [39]"

section \<open>Discovery\<close>

fun is_jstring :: "jsval \<Rightarrow> bool" where
  "is_jstring (JStr _) = True"
| "is_jstring _ = False"

definition discovery_health :: "'s level_context \<Rightarrow> ('s, unit) probe_step" where
  "discovery_health ctx =
     try_catch
       (and_then (send ctx ''GET'' (js ''/health'') JUndef []) (\<lambda>r.
          let json = cs_json r; v = js_member_opt json (js ''protocolVersion'') in
          add_verdict Discovery ''discovery.health''
            (cs_status r = 200 \<and> js_member_opt json (js ''ok'') = JBool True \<and> is_jstring v)
            (js ''protocolVersion='' @ js_to_string v)
            (js ''expected 200 + {ok,protocolVersion}, got '' @ int_dec (cs_status r))))
       (add_check Discovery ''discovery.health'' Failed)"

definition handshake_body :: "jstr \<Rightarrow> jsval" where
  "handshake_body version = JObj
     [(js ''protocolVersion'', JStr version), (js ''consumerId'', jlit ''glyph-conformance''),
      (js ''contextBudget'', JNum 50000), (js ''preferredCardDepth'', jlit ''standard'')]"

definition discovery_handshake :: "'s level_context \<Rightarrow> ('s, jsval) probe_step" where
  "discovery_handshake ctx =
     try_catch
       (and_then (send ctx ''POST'' (js ''/handshake'') (handshake_body PROTOCOL_VERSION) []) (\<lambda>r.
          let good = (cs_status r = 200 \<and> ws_handshakeResponse (lx_schemas ctx) (cs_json r)) in
          and_then (add_verdict Discovery ''discovery.handshake.accept'' good (js ''valid HandshakeResponse'')
                      (js ''expected 200 + HandshakeResponse, got '' @ int_dec (cs_status r)))
            (\<lambda>_. if good then member_of (cs_json r) ''lexicon'' else return (JArr []))))
       (\<lambda>e. and_then (add_check Discovery ''discovery.handshake.accept'' Failed e) (\<lambda>_. return (JArr [])))"

definition discovery_reject :: "'s level_context \<Rightarrow> ('s, unit) probe_step" where
  "discovery_reject ctx =
     expect_refusal ctx Discovery ''discovery.handshake.reject''
       (send ctx ''POST'' (js ''/handshake'') (handshake_body (js ''0.0-conformance-bogus'')) [])
       426 ''PROTOCOL_VERSION_UNSUPPORTED'' ''version mismatch''"

text \<open>\<open>v.length === 0\<close>\<close>

fun length_zero :: "jsval \<Rightarrow> bool option" where
  "length_zero JUndef = None"
| "length_zero JNull = None"
| "length_zero (JArr vs) = Some (vs = [])"
| "length_zero (JStr s) = Some (s = [])"
| "length_zero (JObj kvs) = Some (own_value kvs (js ''length'') = JNum 0)"
| "length_zero _ = Some False"

fun array_of :: "jsval \<Rightarrow> jsval list option" where
  "array_of (JArr vs) = Some vs"
| "array_of _ = None"

definition entries_detail :: "nat \<Rightarrow> jstr" where
  "entries_detail n = nat_dec n @ js '' entr'' @ (if n = 1 then js ''y'' else js ''ies'')"

definition discovery_lexicon :: "'s level_context \<Rightarrow> jsval \<Rightarrow> ('s, jsval) probe_step" where
  "discovery_lexicon ctx lexicon =
     try_catch
       (and_then (send ctx ''GET'' (js ''/lexicon'') JUndef []) (\<lambda>r.
          let es = array_of (cs_json r);
              good = (cs_status r = 200 \<and> es \<noteq> None \<and> list_all (ws_lexiconEntry (lx_schemas ctx)) (the es)) in
          and_then (add_verdict Discovery ''discovery.lexicon'' good (entries_detail (length (the es)))
                      (js ''expected 200 + LexiconEntry[], got '' @ int_dec (cs_status r)))
            (\<lambda>_. if \<not> good then return lexicon
                 else case length_zero lexicon of
                   None \<Rightarrow> throw type_error
                 | Some z \<Rightarrow> return (if z then cs_json r else lexicon))))
       (\<lambda>e. and_then (add_check Discovery ''discovery.lexicon'' Failed e) (\<lambda>_. return lexicon))"

text \<open>\<open>lexicon.map((e) => e.name)\<close>, outside every \<open>try\<close>: an error here ends the suite.\<close>

definition entry_names :: "jsval \<Rightarrow> jsval list option" where
  "entry_names lexicon =
     (case array_of lexicon of None \<Rightarrow> None | Some es \<Rightarrow> those (map (\<lambda>e. js_member e (js ''name'')) es))"

definition note_names :: "jsval \<Rightarrow> ('s, jsval list) probe_step" where
  "note_names lexicon p =
     (case entry_names lexicon of None \<Rightarrow> (Inl type_error, p) | Some ns \<Rightarrow> (Inr ns, p\<lparr>pr_names := ns\<rparr>))"

definition card_signature :: "'s level_context \<Rightarrow> jsval \<Rightarrow> jsval \<Rightarrow> ('s, unit) probe_step" where
  "card_signature ctx name json =
     (case as_card (lx_schemas ctx) json of
        None \<Rightarrow> throw type_error
      | Some c \<Rightarrow> add_verdict Discovery ''discovery.card.signature'' (verifyGlyph (lx_crypto ctx) c)
          (in_quotes name @ js '' signature and content hash verify'') (js ''signature or content-hash check failed''))"

definition discovery_card :: "'s level_context \<Rightarrow> jsval list \<Rightarrow> ('s, unit) probe_step" where
  "discovery_card ctx names =
     (case names of
        [] \<Rightarrow> and_then (add_check Discovery ''discovery.card.shape'' Skipped (js ''no glyphs advertised''))
                (\<lambda>_. add_check Discovery ''discovery.card.signature'' Skipped (js ''no glyphs advertised''))
      | name # _ \<Rightarrow>
          try_catch
            (and_then (get_glyph ctx (js_to_string name) ''?depth=rich'') (\<lambda>r.
               let shapeOk = (cs_status r = 200 \<and> ws_glyphCard (lx_schemas ctx) (cs_json r)) in
               and_then (add_verdict Discovery ''discovery.card.shape'' shapeOk (in_quotes name @ js '' is a valid GlyphCard'')
                           (js ''expected a valid GlyphCard, got '' @ int_dec (cs_status r)))
                 (\<lambda>_. if shapeOk then card_signature ctx name (cs_json r)
                      else add_check Discovery ''discovery.card.signature'' Failed
                             (js ''card shape invalid '' @ [8212] @ js '' cannot check signature''))))
            (\<lambda>e. and_then (add_check Discovery ''discovery.card.shape'' Failed e)
                    (\<lambda>_. add_check Discovery ''discovery.card.signature'' Failed e)))"

definition unknown_name :: jstr where
  "unknown_name = js ''__conformance_unknown__''"

definition discovery_depth :: "'s level_context \<Rightarrow> jsval list \<Rightarrow> ('s, unit) probe_step" where
  "discovery_depth ctx names =
     (let name = (case names of [] \<Rightarrow> JUndef | n # _ \<Rightarrow> n);
          probeName = (if name = JUndef \<or> name = JNull then unknown_name else js_to_string name)
      in expect_refusal ctx Discovery ''discovery.card.depthEnum'' (get_glyph ctx probeName ''?depth=bogus'')
           400 ''VALIDATION_FAILED'' ''depth=bogus'')"

definition discovery_notFound :: "'s level_context \<Rightarrow> ('s, unit) probe_step" where
  "discovery_notFound ctx =
     expect_refusal ctx Discovery ''discovery.error.notFound''
       (send ctx ''GET'' (js ''/glyphs/'' @ unknown_name) JUndef []) 404 ''NOT_FOUND'' ''unknown glyph''"

definition sample_sanitization :: "jsval \<Rightarrow> jsval list \<Rightarrow> jsval" where
  "sample_sanitization modified findings = JObj [(js ''modified'', modified), (js ''findings'', JArr findings)]"

definition discovery_schema :: "'s level_context \<Rightarrow> ('s, unit) probe_step" where
  "discovery_schema ctx =
     (let valid = ws_sanitization (lx_schemas ctx);
          finding = JObj [(js ''path'', jlit ''/msg''), (js ''kind'', jlit ''bidi-override''), (js ''count'', JNum 1)]
      in add_verdict Discovery ''discovery.schema.sanitization''
           (valid (sample_sanitization (JBool True) [finding]) \<and> valid (sample_sanitization (JBool False) []) \<and>
            \<not> valid (sample_sanitization (jlit ''yes'') []))
           (js ''bundled Sanitization schema validates representative samples'')
           (js ''bundled Sanitization schema is inconsistent''))"

definition discoveryLevel :: "'s level_context \<Rightarrow> ('s, unit) probe_step" where
  "discoveryLevel ctx =
     and_then (discovery_health ctx) (\<lambda>_.
     and_then (discovery_handshake ctx) (\<lambda>lexicon.
     and_then (discovery_reject ctx) (\<lambda>_.
     and_then (discovery_lexicon ctx lexicon) (\<lambda>lexicon'.
     and_then (note_names lexicon') (\<lambda>names.
     and_then (discovery_card ctx names) (\<lambda>_.
     and_then (discovery_depth ctx names) (\<lambda>_.
     and_then (discovery_notFound ctx) (\<lambda>_. discovery_schema ctx))))))))"

section \<open>Execution\<close>

definition names_of :: "('s, jsval list) probe_step" where
  "names_of p = (Inr (pr_names p), p)"

text \<open>\<open>!fixture || !ctx.lexiconNames.includes(fixture)\<close> decides between skipping and checking.\<close>

definition with_fixture ::
  "jstr option \<Rightarrow> ('s, unit) probe_step \<Rightarrow> (jstr \<Rightarrow> ('s, unit) probe_step) \<Rightarrow> ('s, unit) probe_step" where
  "with_fixture fixture skip run =
     and_then names_of (\<lambda>names.
       if \<not> truthy fixture \<or> JStr (the fixture) \<notin> set names then skip else run (the fixture))"

fun add_all :: "conformance_level \<Rightarrow> check_status \<Rightarrow> (string \<times> jstr) list \<Rightarrow> ('s, unit) probe_step" where
  "add_all level status [] = return ()"
| "add_all level status ((name, detail) # cs) =
     and_then (add_check level name status detail) (\<lambda>_. add_all level status cs)"

definition input_body :: "(jstr \<times> jsval) list \<Rightarrow> jsval" where
  "input_body kvs = JObj [(js ''input'', JObj kvs)]"

fun is_typeof_object :: "jsval \<Rightarrow> bool" where
  "is_typeof_object JNull = True"
| "is_typeof_object (JArr _) = True"
| "is_typeof_object (JObj _) = True"
| "is_typeof_object _ = False"

definition execution_receipt :: "'s level_context \<Rightarrow> jsval \<Rightarrow> ('s, unit) probe_step" where
  "execution_receipt ctx json =
     try_catch
       (and_then (member_of json ''receipt'') (\<lambda>v.
          case as_receipt (lx_schemas ctx) v of
            None \<Rightarrow> throw type_error
          | Some rc \<Rightarrow> add_verdict Execution ''execution.call.receipt'' (verifyReceipt (lx_crypto ctx) rc)
              (js ''receipt signature verifies against the server public key'')
              (js ''receipt signature did not verify'')))
       (add_check Execution ''execution.call.receipt'' Failed)"

definition execution_envelope :: "'s level_context \<Rightarrow> jsval \<Rightarrow> ('s, unit) probe_step" where
  "execution_envelope ctx json =
     and_then (member_of json ''type'') (\<lambda>t.
     and_then (if t = jlit ''data'' then and_then (member_of json ''payload'') (\<lambda>v. return (is_typeof_object v))
               else return False) (\<lambda>shape.
     and_then (add_verdict Execution ''execution.call.envelope'' shape (js ''envelope.type=data with payload'')
                 (js ''envelope.type=data with payload'')) (\<lambda>_.
     and_then (execution_receipt ctx json) (\<lambda>_.
     and_then (member_of json ''inspection'') (\<lambda>inspection.
       add_verdict Execution ''execution.call.sanitization''
         (js_truthy inspection \<and> ws_sanitization (lx_schemas ctx) inspection)
         (js ''envelope.inspection is a valid Sanitization report'') (js ''inspection missing or malformed''))))))"

definition execution_answered :: "'s level_context \<Rightarrow> jstr \<Rightarrow> conf_response \<Rightarrow> ('s, unit) probe_step" where
  "execution_answered ctx echo r =
     (let envelopeOk = (cs_status r = 200 \<and> ws_sealedEnvelope (lx_schemas ctx) (cs_json r)) in
      and_then (add_verdict Execution ''execution.call.success'' envelopeOk
                  (js ''POST /glyphs/'' @ echo @ js ''/call'' @ arrow @ js ''200 SealedEnvelope'')
                  (js ''expected 200 SealedEnvelope, got '' @ int_dec (cs_status r)))
        (\<lambda>_. if envelopeOk then execution_envelope ctx (cs_json r)
             else add_all Execution Failed
               [(''execution.call.envelope'', js ''envelope was not valid''),
                (''execution.call.receipt'', js ''envelope was not valid''),
                (''execution.call.sanitization'', js ''envelope was not valid'')]))"

definition execution_call :: "'s level_context \<Rightarrow> jstr \<Rightarrow> ('s, unit) probe_step" where
  "execution_call ctx echo =
     try_catch
       (and_then (post_glyph ctx echo ''/call'' (input_body [(js ''value'', jlit ''hello'')])) (execution_answered ctx echo))
       (\<lambda>e. add_all Execution Failed
          [(''execution.call.success'', e), (''execution.call.envelope'', e),
           (''execution.call.receipt'', e), (''execution.call.sanitization'', e)])"

definition execution_echo :: "'s level_context \<Rightarrow> jstr \<Rightarrow> ('s, unit) probe_step" where
  "execution_echo ctx echo =
     and_then (execution_call ctx echo) (\<lambda>_.
     and_then (expect_refusal ctx Execution ''execution.call.inputValidation''
                 (post_glyph ctx echo ''/call'' (input_body [(js ''value'', JNum 123)]))
                 400 ''VALIDATION_FAILED'' ''invalid input'') (\<lambda>_.
       expect_refusal ctx Execution ''execution.call.malformedJson''
         (post_glyph ctx echo ''/call'' (jlit ''{not json'')) 400 ''MALFORMED_JSON'' ''non-JSON body''))"

definition executionLevel :: "'s level_context \<Rightarrow> ('s, unit) probe_step" where
  "executionLevel ctx =
     and_then
       (with_fixture (fx_echo (lx_fixtures ctx))
          (add_all Execution Skipped
             [(''execution.call.success'', js ''fixtures.echo not declared or not present in /lexicon''),
              (''execution.call.receipt'', js ''depends on execution.call.success''),
              (''execution.call.envelope'', js ''depends on execution.call.success''),
              (''execution.call.sanitization'', js ''depends on execution.call.success'')])
          (execution_echo ctx)) (\<lambda>_.
     with_fixture (fx_invalidOutput (lx_fixtures ctx))
       (add_check Execution ''execution.call.outputValidation'' Skipped (js ''fixtures.invalidOutput not declared''))
       (\<lambda>invalidOutput. expect_refusal ctx Execution ''execution.call.outputValidation''
          (post_glyph ctx invalidOutput ''/call'' (input_body [])) 502 ''OUTPUT_VALIDATION_FAILED''
          ''mismatched handler output''))"

section \<open>Security\<close>

definition call_confirmed_with :: "'s level_context \<Rightarrow> jstr \<Rightarrow> jsval \<Rightarrow> ('s, unit) probe_step" where
  "call_confirmed_with ctx reqConf ticket =
     and_then (glyph_path reqConf ''/call'') (\<lambda>path.
     and_then (member_of ticket ''confirmationToken'') (\<lambda>token.
     and_then (send ctx ''POST'' path (JObj [(js ''input'', JObj []), (js ''confirmationToken'', token)]) []) (\<lambda>r.
       add_verdict Security ''security.confirmation.unlocks''
         (cs_status r = 200 \<and> ws_sealedEnvelope (lx_schemas ctx) (cs_json r))
         (js ''valid token unlocks the call'')
         (js ''expected 200 SealedEnvelope, got '' @ int_dec (cs_status r)))))"

definition security_unlocks :: "'s level_context \<Rightarrow> jstr \<Rightarrow> ('s, unit) probe_step" where
  "security_unlocks ctx reqConf =
     try_catch
       (and_then (post_glyph ctx reqConf ''/prepare'' (input_body [])) (\<lambda>prep.
          if cs_status prep = 200 \<and> ws_confirmationTicket (lx_schemas ctx) (cs_json prep)
          then call_confirmed_with ctx reqConf (cs_json prep)
          else add_check Security ''security.confirmation.unlocks'' Failed
                 (js ''prepare did not return a ConfirmationTicket (status '' @ int_dec (cs_status prep) @ js '')'')))
       (add_check Security ''security.confirmation.unlocks'' Failed)"

definition security_confirmation :: "'s level_context \<Rightarrow> jstr \<Rightarrow> ('s, unit) probe_step" where
  "security_confirmation ctx reqConf =
     and_then (expect_refusal ctx Security ''security.confirmation.required''
                 (post_glyph ctx reqConf ''/call'' (input_body [])) 403 ''CONFIRMATION_REQUIRED'' ''no token'') (\<lambda>_.
     and_then (expect_refusal ctx Security ''security.confirmation.invalid''
                 (post_glyph ctx reqConf ''/call''
                    (JObj [(js ''input'', JObj []), (js ''confirmationToken'', jlit ''not-a-real-token'')]))
                 403 ''INVALID_CONFIRMATION'' ''bogus token'') (\<lambda>_.
       security_unlocks ctx reqConf))"

definition security_auth :: "'s level_context \<Rightarrow> ('s, unit) probe_step" where
  "security_auth ctx =
     (if \<not> truthy (lx_authToken ctx) then
        add_check Security ''security.auth.required'' Skipped
          (js ''no authToken supplied '' @ [8212] @ js '' server is assumed open'')
      else try_catch
        (and_then (send ctx ''GET'' (js ''/lexicon'') JUndef [(js ''authorization'', [])]) (\<lambda>r.
           add_verdict Security ''security.auth.required'' (cs_status r = 401 \<or> cs_status r = 403)
             (js ''unauthenticated request'' @ arrow @ int_dec (cs_status r))
             (js ''expected 401/403, got '' @ int_dec (cs_status r))))
        (add_check Security ''security.auth.required'' Failed))"

text \<open>The loop of at most \<open>n\<close> calls, left at the first 429.\<close>

fun burst :: "'s level_context \<Rightarrow> jstr \<Rightarrow> nat \<Rightarrow> ('s, bool) probe_step" where
  "burst ctx echo 0 = return False"
| "burst ctx echo (Suc n) =
     and_then (post_glyph ctx echo ''/call'' (input_body [(js ''value'', jlit ''x'')])) (\<lambda>r.
       if cs_status r = 429 then return True else burst ctx echo n)"

definition security_rateLimit :: "'s level_context \<Rightarrow> jstr \<Rightarrow> ('s, unit) probe_step" where
  "security_rateLimit ctx echo =
     try_catch
       (and_then (burst ctx echo 200) (\<lambda>sawLimit.
          add_check Security ''security.rateLimit'' (if sawLimit then Passed else Skipped)
            (if sawLimit then js ''burst eventually produced 429''
             else js ''no 429 within 200 calls '' @ [8212] @ js '' server may have rate limit disabled'')))
       (add_check Security ''security.rateLimit'' Failed)"

definition securityLevel :: "'s level_context \<Rightarrow> ('s, unit) probe_step" where
  "securityLevel ctx =
     and_then
       (with_fixture (fx_requiresConfirmation (lx_fixtures ctx))
          (add_all Security Skipped
             [(''security.confirmation.required'', js ''fixtures.requiresConfirmation not declared''),
              (''security.confirmation.invalid'', js ''fixtures.requiresConfirmation not declared''),
              (''security.confirmation.unlocks'', js ''fixtures.requiresConfirmation not declared'')])
          (security_confirmation ctx)) (\<lambda>_.
     and_then (security_auth ctx) (\<lambda>_.
     and_then
       (with_fixture (fx_slow (lx_fixtures ctx))
          (add_check Security ''security.timeout'' Skipped (js ''fixtures.slow not declared''))
          (\<lambda>slow. expect_refusal ctx Security ''security.timeout'' (post_glyph ctx slow ''/call'' (input_body []))
             504 ''HANDLER_TIMEOUT'' ''slow handler'')) (\<lambda>_.
     with_fixture (fx_echo (lx_fixtures ctx))
       (add_check Security ''security.rateLimit'' Skipped (js ''fixtures.echo required for a rate-limit burst''))
       (security_rateLimit ctx))))"

section \<open>Governance\<close>

definition governance_depth :: "'s level_context \<Rightarrow> jsval \<Rightarrow> ('s, unit) probe_step" where
  "governance_depth ctx name =
     (if \<not> js_truthy name then
        add_check Governance ''governance.card.depthIdentity'' Skipped (js ''no glyphs advertised'')
      else try_catch
        (and_then (get_glyph ctx (js_to_string name) ''?depth=minimal'') (\<lambda>minimal.
         and_then (get_glyph ctx (js_to_string name) ''?depth=standard'') (\<lambda>standard.
         and_then (get_glyph ctx (js_to_string name) ''?depth=rich'') (\<lambda>rich.
           let cid = (\<lambda>r. js_member_opt (cs_json r) (js ''id'')) in
           add_verdict Governance ''governance.card.depthIdentity''
             (cs_status minimal = 200 \<and> cs_status standard = 200 \<and> cs_status rich = 200 \<and>
              is_jstring (cid rich) \<and> cid minimal = cid rich \<and> cid standard = cid rich)
             (in_quotes name @ js '' id identical across depths'') (js ''id drifted with depth'')))))
        (add_check Governance ''governance.card.depthIdentity'' Failed))"

definition governance_manifest :: "'s level_context \<Rightarrow> jsval \<Rightarrow> ('s, unit) probe_step" where
  "governance_manifest ctx name =
     (if \<not> js_truthy name then
        add_check Governance ''governance.manifest'' Skipped (js ''no glyphs advertised'')
      else try_catch
        (and_then (get_glyph ctx (js_to_string name) ''/manifest'') (\<lambda>r.
           if cs_status r = 404 then
             add_check Governance ''governance.manifest'' Skipped (js ''no manifest published for this glyph'')
           else add_verdict Governance ''governance.manifest''
                  (cs_status r = 200 \<and> ws_updateManifest (lx_schemas ctx) (cs_json r))
                  (js ''manifest is a valid UpdateManifest'')
                  (js ''expected 200 + UpdateManifest, got '' @ int_dec (cs_status r))))
        (add_check Governance ''governance.manifest'' Failed))"

definition registry_verifies :: "'s level_context \<Rightarrow> jsval \<Rightarrow> ('s, bool) probe_step" where
  "registry_verifies ctx json =
     (case as_registry (lx_schemas ctx) json of
        None \<Rightarrow> throw type_error
      | Some k \<Rightarrow> (case verifyKeyRegistry (lx_crypto ctx) k of None \<Rightarrow> throw type_error | Some b \<Rightarrow> return b))"

definition keys_answered :: "'s level_context \<Rightarrow> conf_response \<Rightarrow> ('s, unit) probe_step" where
  "keys_answered ctx r =
     (if cs_status r = 404 then
        add_check Governance ''governance.keyRegistry'' Skipped (js ''server does not publish /keys yet'')
      else
        and_then (if cs_status r = 200 then registry_verifies ctx (cs_json r) else return False) (\<lambda>good.
          let keyCount = (case array_of (js_member_opt (cs_json r) (js ''keys'')) of None \<Rightarrow> 0 | Some ks \<Rightarrow> length ks) in
          add_verdict Governance ''governance.keyRegistry'' good
            (nat_dec keyCount @ js '' key'' @ (if keyCount = 1 then [] else js ''s'') @ js '' published and verified'')
            (js ''expected 200 + verifiable KeyRegistry, got '' @ int_dec (cs_status r))))"

definition governance_keys :: "'s level_context \<Rightarrow> ('s, unit) probe_step" where
  "governance_keys ctx =
     try_catch (and_then (send ctx ''GET'' (js ''/keys'') JUndef []) (keys_answered ctx))
       (add_check Governance ''governance.keyRegistry'' Failed)"

definition governanceLevel :: "'s level_context \<Rightarrow> ('s, unit) probe_step" where
  "governanceLevel ctx =
     and_then names_of (\<lambda>names.
       let name = (case names of [] \<Rightarrow> JUndef | n # _ \<Rightarrow> n) in
       and_then (governance_depth ctx name) (\<lambda>_.
       and_then (governance_manifest ctx name) (\<lambda>_. governance_keys ctx)))"

end
