(* ===== verification/Server_Wire.thy ===== *)
theory Server_Wire
  imports Server_Properties Json_Roundtrip Conformance
begin

text \<open>
  A Glyph server as its clients see it over HTTP: the routes of \<open>packages/server/src/server.ts\<close> with
  the JSON texts of their responses. Matching a path to a route is Hono's and a parameter. Each
  request draws its identifiers and times from the site's clock.
\<close>

section \<open>Texts that JSON can hold\<close>

named_theorems json_ok_intro \<open>values whose text a reader gives back\<close>

definition json_ok :: "jsval \<Rightarrow> bool" where
  "json_ok v \<longleftrightarrow> v = JUndef \<or> json_value (js_norm v)"

lemma json_ok_atoms [json_ok_intro, simp]:
  "json_ok JUndef" "json_ok JNull" "json_ok (JBool b)" "json_ok (JNum n)" "json_ok (JStr s)"
  by (simp_all add: json_ok_def)

lemma json_ok_jopt [json_ok_intro]: "(\<And>a. x = Some a \<Longrightarrow> json_ok (f a)) \<Longrightarrow> json_ok (jopt f x)"
  by (cases x) simp_all

lemma json_ok_norm: "json_ok v \<Longrightarrow> json_value (js_norm v)"
  by (cases v) (auto simp: json_ok_def)

lemma json_ok_arr [json_ok_intro]: "(\<And>v. v \<in> set vs \<Longrightarrow> json_ok v) \<Longrightarrow> json_ok (JArr vs)"
  using json_ok_norm by (simp add: json_ok_def [of "JArr vs"] list_all_iff)

definition field_name :: "jstr \<Rightarrow> bool" where
  "field_name k \<longleftrightarrow> \<not> is_array_index k"

lemma json_ok_obj [json_ok_intro]:
  assumes "distinct (map fst kvs)" "list_all (\<lambda>(k, v). field_name k \<and> json_ok v) kvs"
  shows "json_ok (JObj kvs)"
proof -
  let ?kept = "filter (\<lambda>(k, v). v \<noteq> JUndef) kvs"
  have d: "distinct (map fst ?kept)" using assms(1) by (simp add: distinct_map_filter)
  have n: "\<And>p. p \<in> set ?kept \<Longrightarrow> \<not> is_array_index (fst p) \<and> json_value (js_norm (snd p))"
    using assms(2) by (auto simp: list_all_iff field_name_def json_ok_def)
  have "sorted_wrt (\<lambda>p q. is_array_index (fst q) \<longrightarrow> is_array_index (fst p) \<and> digits_value (fst p) < digits_value (fst q))
      (map (\<lambda>(k, v). (k, js_norm v)) ?kept)"
    by (rule sorted_wrt_mono_rel [of _ "\<lambda>_ _. True"]) (use n in \<open>auto simp: sorted_wrt_iff_nth_less\<close>)
  moreover have "map fst (map (\<lambda>(k, v). (k, js_norm v)) ?kept) = map fst ?kept" by (induction kvs) auto
  ultimately have "enumerated (map (\<lambda>(k, v). (k, js_norm v)) ?kept)" using d unfolding enumerated_def by metis
  with n show ?thesis by (auto simp: json_ok_def list_all_iff)
qed

lemma field_name_lit [simp]: "s \<noteq> [] \<Longrightarrow> \<not> is_digit_unit (uc (hd s)) \<Longrightarrow> field_name (js s)"
  by (cases s) (auto simp: field_name_def is_array_index_def js_def)

lemma read_printed: "json_ok v \<Longrightarrow> read_response (st, ser v) = \<lparr>cs_status = st, cs_json = js_norm v\<rparr>"
  using json_roundtrip_base [of v] json_ok_norm [of v] ser_nonempty [of v] by (simp add: read_response_def)

section \<open>The bodies of the responses\<close>

fun code_str :: "error_code \<Rightarrow> string" where
  "code_str NOT_FOUND = ''NOT_FOUND''"
| "code_str VALIDATION_FAILED = ''VALIDATION_FAILED''"
| "code_str CONFIRMATION_REQUIRED = ''CONFIRMATION_REQUIRED''"
| "code_str INVALID_CONFIRMATION = ''INVALID_CONFIRMATION''"
| "code_str CONFIRMATION_BACKLOG_FULL = ''CONFIRMATION_BACKLOG_FULL''"
| "code_str OUTPUT_VALIDATION_FAILED = ''OUTPUT_VALIDATION_FAILED''"
| "code_str HANDLER_ERROR = ''HANDLER_ERROR''"
| "code_str HANDLER_TIMEOUT = ''HANDLER_TIMEOUT''"
| "code_str UNAUTHORIZED = ''UNAUTHORIZED''"
| "code_str INSUFFICIENT_SCOPE = ''INSUFFICIENT_SCOPE''"
| "code_str RATE_LIMITED = ''RATE_LIMITED''"
| "code_str PROTOCOL_VERSION_UNSUPPORTED = ''PROTOCOL_VERSION_UNSUPPORTED''"
| "code_str MALFORMED_JSON = ''MALFORMED_JSON''"
| "code_str PAYLOAD_TOO_LARGE = ''PAYLOAD_TOO_LARGE''"
| "code_str INTERNAL_ERROR = ''INTERNAL_ERROR''"

definition error_json :: "error_response \<Rightarrow> jsval" where
  "error_json e = JObj [(js ''error'', JObj
     [(js ''code'', jlit (code_str (er_code e))), (js ''message'', JStr (er_message e)),
      (js ''details'', jopt (\<lambda>v. v) (er_details e))])]"

definition health_json :: jsval where
  "health_json = JObj [(js ''ok'', JBool True), (js ''version'', JStr SERVER_VERSION),
     (js ''protocolVersion'', JStr PROTOCOL_VERSION)]"

definition lexicon_entry_json :: "lexicon_entry \<Rightarrow> jsval" where
  "lexicon_entry_json e = JObj
     [(js ''id'', JStr (lx_id e)), (js ''name'', JStr (lx_name e)), (js ''intent'', JStr (lx_intent e)),
      (js ''tags'', jstrs (lx_tags e)), (js ''riskTier'', JStr (risk_str (lx_riskTier e)))]"

definition handshake_json :: "handshake_response \<Rightarrow> jsval" where
  "handshake_json h = JObj
     [(js ''protocolVersion'', JStr (hr_protocolVersion h)), (js ''sessionId'', JStr (hr_sessionId h)),
      (js ''lexicon'', JArr (map lexicon_entry_json (hr_lexicon h))), (js ''cardDepth'', hr_cardDepth h),
      (js ''serverVersion'', JStr (hr_serverVersion h))]"

definition ticket_json :: "confirmation_ticket \<Rightarrow> jsval" where
  "ticket_json t = JObj
     [(js ''confirmationToken'', JStr (ct_confirmationToken t)), (js ''glyphId'', JStr (ct_glyphId t)),
      (js ''name'', JStr (ct_name t)), (js ''cost'', cost_json (ct_cost t)), (js ''input'', ct_input t),
      (js ''expiresAt'', JStr (ct_expiresAt t))]"

definition signed_manifest_json :: "update_manifest \<Rightarrow> jsval" where
  "signed_manifest_json m =
     (case manifest_json m of JObj kvs \<Rightarrow> JObj (kvs @ [(js ''signature'', JStr (um_signature m))]) | v \<Rightarrow> v)"

definition registry_json :: "key_registry \<Rightarrow> jsval" where
  "registry_json r = JObj
     [(js ''registryVersion'', JStr (kr_registryVersion r)), (js ''serverId'', JStr (kr_serverId r)),
      (js ''active'', JStr (kr_active r)), (js ''keys'', JArr (map key_entry_json (kr_keys r))),
      (js ''issuedAt'', JStr (kr_issuedAt r)), (js ''ttlSeconds'', JNum (kr_ttlSeconds r)),
      (js ''signature'', JStr (kr_signature r))]"

section \<open>Routes\<close>

datatype route =
    R_Health | R_Keys | R_Handshake | R_Lexicon
  | R_Card jstr "jstr option"
  | R_Manifest jstr
  | R_Prepare jstr
  | R_Call jstr

text \<open>What a running server adds to its configuration: the router, the key source and its surroundings.\<close>

record site =
  si_cfg :: server_config
  si_auth :: "auth_config option"
  si_path :: "jstr \<Rightarrow> jstr"
  si_route :: "jstr \<Rightarrow> jstr \<Rightarrow> route option"
  si_keys :: "(jstr + key_registry) option"
  si_caller :: "caller_principal option"
  si_env :: "nat \<Rightarrow> call_env"
  si_token :: "nat \<Rightarrow> jstr"
  si_session :: "nat \<Rightarrow> jstr"

definition answer_with :: "('a \<Rightarrow> jsval) \<Rightarrow> error_response + 'a \<Rightarrow> int \<times> jstr" where
  "answer_with f r =
     (case r of Inl e \<Rightarrow> (er_status e, ser (error_json e)) | Inr a \<Rightarrow> (200, ser (f a)))"

definition answer_call :: "error_response + call_reply \<Rightarrow> int \<times> jstr" where
  "answer_call r =
     (case r of Inr (Replayed text) \<Rightarrow> (200, text) | Inr (Sealed e) \<Rightarrow> answer_with envelope_json (Inr e)
      | Inl e \<Rightarrow> answer_with envelope_json (Inl e))"

definition raw_of :: "jstr option \<Rightarrow> raw_body" where
  "raw_of body = (let t = (case body of None \<Rightarrow> [] | Some t \<Rightarrow> t) in
     \<lparr>rb_contentLength = None, rb_bytes = int (length (utf8_bytes t)), rb_text = t\<rparr>)"

text \<open>The handlers of \<open>setupRoutes\<close>; \<open>n\<close> counts the requests.\<close>

fun handle_route :: "site \<Rightarrow> nat \<Rightarrow> route \<Rightarrow> raw_body \<Rightarrow> server_state \<Rightarrow> (int \<times> jstr) \<times> server_state" where
  "handle_route si n R_Health raw s = (answer_with (\<lambda>v. v) (Inr health_json), s)"
| "handle_route si n R_Keys raw s = (answer_with registry_json (server_keys (si_keys si)), s)"
| "handle_route si n R_Handshake raw s =
     apfst (answer_with handshake_json) (server_handshake (si_cfg si) (si_session si n) raw s)"
| "handle_route si n R_Lexicon raw s =
     (answer_with (\<lambda>es. JArr (map lexicon_entry_json es)) (Inr (server_lexicon s)), s)"
| "handle_route si n (R_Card name depth) raw s = (answer_with JObj (server_card name depth s), s)"
| "handle_route si n (R_Manifest name) raw s = (answer_with signed_manifest_json (server_manifest name s), s)"
| "handle_route si n (R_Prepare name) raw s =
     apfst (answer_with ticket_json)
       (server_prepare (si_cfg si) (si_token si n) (en_gateNow (si_env si n)) name raw (si_caller si) s)"
| "handle_route si n (R_Call name) raw s =
     apfst answer_call (server_call (si_cfg si) (si_env si n) name raw (si_caller si) s)"

text \<open>
  \<open>server.fetch\<close> of a server without a rate limit: the token gate, then the route; a path without
  a route is Hono's own 404.
\<close>

definition server_fetch :: "site \<Rightarrow> (server_state \<times> nat) server_under_test" where
  "server_fetch si q st = (case st of (s, n) \<Rightarrow>
     let rq = \<lparr>rq_path = si_path si (cq_url q), rq_authorization = map_of (cq_headers q) (js ''authorization''),
               rq_remote = None\<rparr>
     in case fst (server_front (sc_crypto (si_cfg si)) (si_auth si) None 0 rq []) of
          Some e \<Rightarrow> (Inr (answer_with (\<lambda>v. v) (Inl e)), (s, Suc n))
        | None \<Rightarrow>
            (case si_route si (cq_method q) (cq_url q) of
               None \<Rightarrow> (Inr (404, js ''404 Not Found''), (s, Suc n))
             | Some r \<Rightarrow> (case handle_route si n r (raw_of (cq_body q)) s of
                            (a, s') \<Rightarrow> (Inr a, (s', Suc n)))))"

section \<open>Every body is a text that JSON can hold\<close>

lemma json_ok_jstrs [json_ok_intro]: "json_ok (jstrs ss)"
  by (auto simp: jstrs_def intro!: json_ok_intro)

lemmas wire_fields = js_eq_iff is_digit_unit_def uc_def

lemma json_ok_lexicon [json_ok_intro]: "json_ok (lexicon_entry_json e)"
  by (auto simp: lexicon_entry_json_def wire_fields intro!: json_ok_intro)

lemma json_ok_cost [json_ok_intro]: "json_ok (cost_json c)"
  by (auto simp: cost_json_def wire_fields intro!: json_ok_intro)

lemma json_ok_handshake [json_ok_intro]: "json_ok (hr_cardDepth h) \<Longrightarrow> json_ok (handshake_json h)"
  by (auto simp: handshake_json_def wire_fields intro!: json_ok_intro)

lemma json_ok_ticket [json_ok_intro]: "json_ok (ct_input t) \<Longrightarrow> json_ok (ticket_json t)"
  by (auto simp: ticket_json_def wire_fields intro!: json_ok_intro)

lemma json_ok_manifest [json_ok_intro]: "json_ok (signed_manifest_json m)"
  by (auto simp: signed_manifest_json_def manifest_json_def wire_fields intro!: json_ok_intro)

lemma json_ok_registry [json_ok_intro]: "json_ok (registry_json r)"
  by (auto simp: registry_json_def key_entry_json_def group_json_def wire_fields intro!: json_ok_intro)

lemma json_ok_error [json_ok_intro]: "(\<And>d. er_details e = Some d \<Longrightarrow> json_ok d) \<Longrightarrow> json_ok (error_json e)"
  by (auto simp: error_json_def wire_fields intro!: json_ok_intro)

lemma json_ok_sanitization [json_ok_intro]: "json_ok (sanitization_json r)"
  by (auto simp: sanitization_json_def finding_json_def wire_fields intro!: json_ok_intro)

lemma json_ok_receipt [json_ok_intro]: "cr_clientCallId r = None \<Longrightarrow> json_ok (signed_receipt_json r)"
  by (auto simp: signed_receipt_json_def receipt_json_def wire_fields intro!: json_ok_intro)

lemma json_ok_envelope [json_ok_intro]:
  "json_ok (se_payload e) \<Longrightarrow> (\<And>r. se_receipt e = Some r \<Longrightarrow> cr_clientCallId r = None) \<Longrightarrow> json_ok (envelope_json e)"
  by (auto simp: envelope_json_def wire_fields intro!: json_ok_intro)

lemma json_ok_health [json_ok_intro]: "json_ok health_json"
  by (auto simp: health_json_def wire_fields intro!: json_ok_intro)



end
