(* ===== verification/Wire_Schemas.thy ===== *)
theory Wire_Schemas
  imports Server_Wire Server_Invariant
begin

text \<open>
  The JSON schemas of the wire messages (\<open>packages/conformance/schemas\<close>, a copy of
  \<open>spec/schemas\<close>) and which answers of the server they accept. Only the keywords these files use
  are modelled, with their meaning in JSON Schema; \<open>format\<close> is an annotation, as in \<open>schemas.ts\<close>.
\<close>

section \<open>Schemas\<close>

datatype wire_schema =
    Any_Value
  | Some_String
  | Some_Number
  | Some_Boolean
  | Some_Object
  | Integer_From int
  | One_Of "jstr list"
  | Array_Of wire_schema
  | Closed_Object "(string \<times> bool \<times> wire_schema) list"

text \<open>A closed object lists its properties, whether each is required, and allows no other.\<close>

fun conforms :: "wire_schema \<Rightarrow> jsval \<Rightarrow> bool" where
  "conforms Any_Value v = True"
| "conforms Some_String v = is_jstring v"
| "conforms Some_Number v = (case v of JNum n \<Rightarrow> True | _ \<Rightarrow> False)"
| "conforms Some_Boolean v = (case v of JBool b \<Rightarrow> True | _ \<Rightarrow> False)"
| "conforms Some_Object v = (case v of JObj kvs \<Rightarrow> True | _ \<Rightarrow> False)"
| "conforms (Integer_From m) v = (case v of JNum n \<Rightarrow> m \<le> n | _ \<Rightarrow> False)"
| "conforms (One_Of ss) v = (case v of JStr s \<Rightarrow> s \<in> set ss | _ \<Rightarrow> False)"
| "conforms (Array_Of S) v = (case v of JArr vs \<Rightarrow> list_all (conforms S) vs | _ \<Rightarrow> False)"
| "conforms (Closed_Object ps) v =
     (case v of
        JObj kvs \<Rightarrow>
          list_all (\<lambda>(k, required, S). case map_of kvs (js k) of None \<Rightarrow> \<not> required | Some w \<Rightarrow> conforms S w) ps \<and>
          list_all (\<lambda>(k, w). k \<in> js ` set (map fst ps)) kvs
      | _ \<Rightarrow> False)"

definition lexicon_entry_schema :: wire_schema where
  "lexicon_entry_schema = Closed_Object
     [(''id'', True, Some_String), (''name'', True, Some_String), (''intent'', True, Some_String),
      (''tags'', True, Array_Of Some_String),
      (''riskTier'', True, One_Of [js ''safe'', js ''caution'', js ''danger''])]"

definition handshake_response_schema :: wire_schema where
  "handshake_response_schema = Closed_Object
     [(''protocolVersion'', True, Some_String), (''sessionId'', True, Some_String),
      (''lexicon'', True, Array_Of lexicon_entry_schema),
      (''cardDepth'', True, One_Of [js ''minimal'', js ''standard'', js ''rich'']),
      (''serverVersion'', True, Some_String)]"

definition cost_schema :: wire_schema where
  "cost_schema = Closed_Object
     [(''latency'', True, One_Of [js ''fast'', js ''medium'', js ''slow'']), (''sideEffects'', True, Some_Boolean),
      (''reversible'', True, Some_Boolean), (''riskTier'', True, One_Of [js ''safe'', js ''caution'', js ''danger'']),
      (''requiresConfirmation'', True, Some_Boolean)]"

definition glyph_card_schema :: wire_schema where
  "glyph_card_schema = Closed_Object
     [(''id'', True, Some_String), (''version'', True, Some_String), (''name'', True, Some_String),
      (''intent'', True, Some_String), (''tags'', True, Array_Of Some_String), (''cost'', True, cost_schema),
      (''idempotent'', True, Some_Boolean), (''input'', True, Some_Object), (''output'', True, Some_Object),
      (''examples'', True, Array_Of (Closed_Object
         [(''description'', True, Some_String), (''input'', True, Any_Value), (''output'', True, Any_Value)])),
      (''failureModes'', True, Array_Of (Closed_Object [(''code'', True, Some_String), (''description'', True, Some_String)])),
      (''provider'', True, Some_String), (''requiredScopes'', False, Array_Of Some_String),
      (''attestation'', False, Closed_Object
         [(''type'', True, Some_String), (''payload'', True, Some_String), (''reference'', False, Some_String)]),
      (''publicKey'', False, Some_String), (''signature'', False, Some_String), (''createdAt'', True, Some_String)]"

definition sanitization_schema :: wire_schema where
  "sanitization_schema = Closed_Object
     [(''modified'', True, Some_Boolean),
      (''findings'', True, Array_Of (Closed_Object
         [(''path'', True, Some_String),
          (''kind'', True, One_Of [js ''unicode-tags'', js ''zero-width'', js ''bidi-override'', js ''control-char'',
                                js ''nfkc-normalized'']),
          (''count'', True, Integer_From 1)]))]"

definition call_receipt_schema :: wire_schema where
  "call_receipt_schema = Closed_Object
     [(''receiptVersion'', True, Some_String), (''callId'', True, Some_String), (''clientCallId'', False, Some_String),
      (''glyphId'', True, Some_String), (''glyphName'', True, Some_String), (''inputHash'', True, Some_String),
      (''outputHash'', True, Some_String), (''inspectionHash'', True, Some_String),
      (''riskTier'', True, One_Of [js ''safe'', js ''caution'', js ''danger'']), (''provider'', True, Some_String),
      (''latencyMs'', True, Some_Number), (''timestamp'', True, Some_String), (''serverPublicKey'', True, Some_String),
      (''signature'', True, Some_String)]"

definition sealed_envelope_schema :: wire_schema where
  "sealed_envelope_schema = Closed_Object
     [(''type'', True, One_Of [js ''data'']), (''glyphId'', True, Some_String), (''callId'', True, Some_String),
      (''payload'', True, Any_Value),
      (''meta'', True, Closed_Object
         [(''latencyMs'', True, Some_Number), (''provider'', True, Some_String), (''timestamp'', True, Some_String)]),
      (''inspection'', False, sanitization_schema), (''receipt'', False, call_receipt_schema)]"

definition confirmation_ticket_schema :: wire_schema where
  "confirmation_ticket_schema = Closed_Object
     [(''confirmationToken'', True, Some_String), (''glyphId'', True, Some_String), (''name'', True, Some_String),
      (''cost'', True, cost_schema), (''input'', True, Any_Value), (''expiresAt'', True, Some_String)]"

definition listed_codes :: "string list" where
  "listed_codes = [''NOT_FOUND'', ''VALIDATION_FAILED'', ''CONFIRMATION_REQUIRED'', ''INVALID_CONFIRMATION'',
     ''OUTPUT_VALIDATION_FAILED'', ''HANDLER_ERROR'', ''HANDLER_TIMEOUT'', ''UNAUTHORIZED'', ''RATE_LIMITED'',
     ''PROTOCOL_VERSION_UNSUPPORTED'', ''MALFORMED_JSON'', ''INTERNAL_ERROR'', ''KEY_REVOKED'']"

definition glyph_error_schema :: wire_schema where
  "glyph_error_schema = Closed_Object
     [(''error'', True, Closed_Object
         [(''code'', True, One_Of (map js listed_codes)), (''message'', True, Some_String), (''details'', False, Any_Value)])]"

definition update_manifest_schema :: wire_schema where
  "update_manifest_schema = Closed_Object
     [(''manifestVersion'', True, Some_String), (''toolName'', True, Some_String), (''previousCardId'', True, Some_String),
      (''newCardId'', True, Some_String), (''reason'', True, Some_String), (''breaking'', True, Some_Boolean),
      (''securityImpact'', True, One_Of [js ''none'', js ''low'', js ''high'']), (''issuedAt'', True, Some_String),
      (''serverPublicKey'', True, Some_String), (''signature'', True, Some_String)]"

section \<open>What the schemas accept\<close>

named_theorems conforms_intro \<open>answers of the server that their schema accepts\<close>

declare conforms.simps(8,9) [simp del]

lemma map_of_norm:
  "distinct (map fst kvs) \<Longrightarrow>
     map_of (map (\<lambda>(k, v). (k, js_norm v)) (filter (\<lambda>(k, v). v \<noteq> JUndef) kvs)) k =
       (if own_value kvs k = JUndef then None else Some (js_norm (own_value kvs k)))"
  by (auto simp: map_of_map map_of_filter_wf omap_wf_def own_value_def split: option.splits)

lemma conforms_obj:
  assumes "distinct (map fst kvs)" "list_all (\<lambda>(k, v). k \<in> js ` set (map fst ps)) kvs"
    and "list_all (\<lambda>(k, required, S). if own_value kvs (js k) = JUndef then \<not> required
           else conforms S (js_norm (own_value kvs (js k)))) ps"
  shows "conforms (Closed_Object ps) (js_norm (JObj kvs))"
  using assms by (auto simp: conforms.simps(9) map_of_norm list_all_iff split: if_splits)

lemma conforms_arr: "(\<And>v. v \<in> set vs \<Longrightarrow> conforms S (js_norm v)) \<Longrightarrow> conforms (Array_Of S) (js_norm (JArr vs))"
  by (auto simp: conforms.simps(8) list_all_iff)

lemma conforms_atoms [simp]:
  "conforms Any_Value v" "conforms Some_String (js_norm (JStr s))" "conforms Some_Boolean (js_norm (JBool b))"
  "conforms Some_Number (js_norm (JNum n))" "conforms (One_Of ss) (js_norm (JStr s)) \<longleftrightarrow> s \<in> set ss"
  by simp_all

lemma conforms_jstrs [simp]: "conforms (Array_Of Some_String) (js_norm (jstrs ss))"
  unfolding jstrs_def by (rule conforms_arr) auto

lemma listed_risk [simp]: "risk_str r = js ''safe'' \<or> risk_str r = js ''caution'' \<or> risk_str r = js ''danger''"
  by (cases r) simp_all

lemma listed_latency [simp]: "latency_str l = js ''fast'' \<or> latency_str l = js ''medium'' \<or> latency_str l = js ''slow''"
  by (cases l) simp_all

lemma listed_kind [simp]:
  "kind_str k = js ''unicode-tags'' \<or> kind_str k = js ''zero-width'' \<or> kind_str k = js ''bidi-override'' \<or>
     kind_str k = js ''control-char'' \<or> kind_str k = js ''nfkc-normalized''"
  by (cases k) simp_all

lemma listed_impact [simp]: "impact_str i = js ''none'' \<or> impact_str i = js ''low'' \<or> impact_str i = js ''high''"
  by (cases i) simp_all

lemma objects_defined [simp]:
  "lexicon_entry_json e \<noteq> JUndef" "cost_json c \<noteq> JUndef" "sanitization_json x \<noteq> JUndef" "signed_receipt_json r \<noteq> JUndef"
  "attestation_json a \<noteq> JUndef" "jstrs ss \<noteq> JUndef"
  by (simp_all add: lexicon_entry_json_def cost_json_def sanitization_json_def signed_receipt_json_def receipt_json_def
      attestation_json_def jstrs_def)

lemma own_value_Cons [simp]: "own_value ((k, v) # kvs) j = (if k = j then v else own_value kvs j)" "own_value [] j = JUndef"
  by (simp_all add: own_value_def)

lemma conforms_optional [simp]:
  "jopt JStr x \<noteq> JUndef \<Longrightarrow> is_jstring (js_norm (jopt JStr x))"
  "jopt JStr x \<noteq> JUndef \<Longrightarrow> conforms Some_String (js_norm (jopt JStr x))"
  by (cases x; simp)+

lemma conforms_optional_list [simp]: "jopt jstrs y \<noteq> JUndef \<Longrightarrow> conforms (Array_Of Some_String) (js_norm (jopt jstrs y))"
  by (cases y) (simp_all del: js_norm.simps)

lemma conforms_lexicon [simp]: "conforms lexicon_entry_schema (js_norm (lexicon_entry_json e))"
  unfolding lexicon_entry_schema_def lexicon_entry_json_def by (rule conforms_obj) simp_all

lemma conforms_cost [simp]: "conforms cost_schema (js_norm (cost_json c))"
  unfolding cost_schema_def cost_json_def by (rule conforms_obj) simp_all

definition known_depth :: "jsval \<Rightarrow> bool" where
  "known_depth v \<longleftrightarrow> v \<in> {jlit ''minimal'', jlit ''standard'', jlit ''rich''}"

lemma conforms_handshake [conforms_intro]:
  assumes "known_depth (hr_cardDepth h)"
  shows "conforms handshake_response_schema (js_norm (handshake_json h))"
proof -
  have "conforms (Array_Of lexicon_entry_schema) (js_norm (JArr (map lexicon_entry_json (hr_lexicon h))))"
    by (rule conforms_arr) auto
  then show ?thesis using assms unfolding handshake_response_schema_def handshake_json_def known_depth_def
    by (intro conforms_obj) (auto simp del: js_norm.simps(2,3))
qed

lemma conforms_ticket [conforms_intro]:
  "ct_input t \<noteq> JUndef \<Longrightarrow> conforms confirmation_ticket_schema (js_norm (ticket_json t))"
  unfolding confirmation_ticket_schema_def ticket_json_def by (rule conforms_obj) simp_all

lemma conforms_manifest [conforms_intro]: "conforms update_manifest_schema (js_norm (signed_manifest_json m))"
  unfolding update_manifest_schema_def signed_manifest_json_def manifest_json_def jsval.case
  by (rule conforms_obj) simp_all

definition counted :: "sanitization \<Rightarrow> bool" where
  "counted r \<longleftrightarrow> (\<forall>f\<in>set (sn_findings r). 1 \<le> sf_count f)"

lemma conforms_sanitization [conforms_intro]:
  assumes "counted r"
  shows "conforms sanitization_schema (js_norm (sanitization_json r))"
proof -
  have "conforms (Closed_Object
         [(''path'', True, Some_String),
          (''kind'', True, One_Of [js ''unicode-tags'', js ''zero-width'', js ''bidi-override'', js ''control-char'',
                                js ''nfkc-normalized'']),
          (''count'', True, Integer_From 1)]) (js_norm (finding_json f))" if "f \<in> set (sn_findings r)" for f
    using assms that unfolding finding_json_def counted_def by (intro conforms_obj) auto
  then show ?thesis unfolding sanitization_schema_def sanitization_json_def
    by (intro conforms_obj) (auto intro!: conforms_arr simp del: js_norm.simps(2,3))
qed

definition string_call_id :: "call_receipt \<Rightarrow> bool" where
  "string_call_id r \<longleftrightarrow> (\<forall>v. cr_clientCallId r = Some v \<longrightarrow> v = JUndef \<or> is_jstring v)"

lemma conforms_receipt [conforms_intro]:
  assumes "string_call_id r"
  shows "conforms call_receipt_schema (js_norm (signed_receipt_json r))"
proof -
  have "jopt (\<lambda>v. v) (cr_clientCallId r) = JUndef \<or> (\<exists>s. jopt (\<lambda>v. v) (cr_clientCallId r) = JStr s)"
    using assms by (cases "cr_clientCallId r"; cases "the (cr_clientCallId r)") (simp_all add: string_call_id_def)
  then show ?thesis
    unfolding call_receipt_schema_def signed_receipt_json_def receipt_json_def jsval.case
    by (intro conforms_obj) auto
qed

lemma conforms_envelope [conforms_intro]:
  assumes "se_payload e \<noteq> JUndef" "\<And>r. se_receipt e = Some r \<Longrightarrow> string_call_id r"
    and "\<And>x. se_inspection e = Some x \<Longrightarrow> counted x"
  shows "conforms sealed_envelope_schema (js_norm (envelope_json e))"
proof -
  have "conforms (Closed_Object [(''latencyMs'', True, Some_Number), (''provider'', True, Some_String), (''timestamp'', True, Some_String)])
      (js_norm (JObj [(js ''latencyMs'', JNum n), (js ''provider'', JStr p), (js ''timestamp'', JStr t)]))" for n p t
    by (rule conforms_obj) simp_all
  moreover have "jopt signed_receipt_json (se_receipt e) = JUndef \<or>
      conforms call_receipt_schema (js_norm (jopt signed_receipt_json (se_receipt e)))"
    using assms(2) by (cases "se_receipt e") (simp_all add: conforms_intro)
  moreover have "jopt sanitization_json (se_inspection e) = JUndef \<or>
      conforms sanitization_schema (js_norm (jopt sanitization_json (se_inspection e)))"
    using assms(3) by (cases "se_inspection e") (simp_all add: conforms_intro)
  ultimately show ?thesis
    using assms(1) unfolding sealed_envelope_schema_def envelope_json_def
    by (intro conforms_obj) (auto simp del: js_norm.simps(2,3))
qed

text \<open>A card whose schemas are objects and whose examples are complete.\<close>

definition complete_card :: "glyph_card \<Rightarrow> bool" where
  "complete_card c \<longleftrightarrow> conforms Some_Object (gc_input c) \<and> conforms Some_Object (gc_output c) \<and>
     list_all (\<lambda>x. ex_input x \<noteq> JUndef \<and> ex_output x \<noteq> JUndef) (gc_examples c)"

lemma object_norm: "conforms Some_Object v \<Longrightarrow> conforms Some_Object (js_norm v) \<and> v \<noteq> JUndef"
  by (cases v) simp_all

lemma conforms_card [conforms_intro]:
  assumes "complete_card c"
  shows "conforms glyph_card_schema (js_norm (JObj (card_fields c)))"
proof -
  have "conforms (Array_Of (Closed_Object
         [(''description'', True, Some_String), (''input'', True, Any_Value), (''output'', True, Any_Value)]))
      (js_norm (JArr (map example_json (gc_examples c))))"
    using assms by (auto simp: complete_card_def example_json_def list_all_iff intro!: conforms_arr conforms_obj simp del: js_norm.simps(2,3))
  moreover have "conforms (Array_Of (Closed_Object [(''code'', True, Some_String), (''description'', True, Some_String)]))
      (js_norm (JArr (map failure_json (gc_failureModes c))))"
    by (auto simp: failure_json_def intro!: conforms_arr conforms_obj simp del: js_norm.simps(2,3))
  moreover have "conforms Some_Object (js_norm (gc_input c)) \<and> gc_input c \<noteq> JUndef"
    "conforms Some_Object (js_norm (gc_output c)) \<and> gc_output c \<noteq> JUndef"
    using assms by (intro object_norm; simp add: complete_card_def)+
  moreover have "jopt attestation_json (gc_attestation c) \<noteq> JUndef \<longrightarrow>
      conforms (Closed_Object [(''type'', True, Some_String), (''payload'', True, Some_String), (''reference'', False, Some_String)])
        (js_norm (jopt attestation_json (gc_attestation c)))"
    by (cases "gc_attestation c") (auto simp: attestation_json_def intro!: conforms_obj simp del: js_norm.simps(2,3))
  ultimately show ?thesis
    unfolding glyph_card_schema_def card_fields_def canonical_fields_def append.simps
    by (intro conforms_obj) (simp_all del: js_norm.simps(2,3) conforms.simps(5))
qed

lemma code_listed: "js (code_str c) \<in> js ` set listed_codes \<longleftrightarrow>
    c \<notin> {CONFIRMATION_BACKLOG_FULL, INSUFFICIENT_SCOPE, PAYLOAD_TOO_LARGE}"
  by (cases c) (simp_all add: listed_codes_def)

definition error_fields :: wire_schema where
  "error_fields = Closed_Object
     [(''code'', True, One_Of (map js listed_codes)), (''message'', True, Some_String), (''details'', False, Any_Value)]"

lemma conforms_error:
  "conforms glyph_error_schema (js_norm (error_json e)) \<longleftrightarrow>
     er_code e \<notin> {CONFIRMATION_BACKLOG_FULL, INSUFFICIENT_SCOPE, PAYLOAD_TOO_LARGE}"
  using code_listed [of "er_code e"]
  by (cases "jopt (\<lambda>v. v) (er_details e) = JUndef")
     (simp_all add: glyph_error_schema_def error_json_def conforms.simps(9) split: if_splits)

section \<open>Every finding counts something\<close>

definition all_counted :: "sanitization_finding list \<Rightarrow> bool" where
  "all_counted fs \<longleftrightarrow> (\<forall>f\<in>set fs. 1 \<le> sf_count f)"

lemma strip_all_counted: "all_counted (snd (strip_all path s))"
proof -
  have "all_counted (snd a) \<Longrightarrow> all_counted (snd (fold (strip_step path) cls a))" for a cls
  proof (induction cls arbitrary: a)
    case (Cons c cls)
    have "all_counted (snd (strip_step path c a))"
      using Cons.prems by (cases c; cases a) (auto simp: strip_step_def all_counted_def Let_def Suc_le_eq)
    then show ?case using Cons.IH by simp
  qed simp
  from this [of "(s, [])" STRIP_CLASSES] show ?thesis by (simp add: strip_all_def all_counted_def)
qed

lemma all_counted_concat: "all_counted (concat fss) \<longleftrightarrow> (\<forall>fs\<in>set fss. all_counted fs)"
  by (auto simp: all_counted_def)

lemma sanitizeValue_counted: "all_counted (snd (sanitizeValue nfkc v path))"
proof (induction nfkc v path rule: sanitizeValue.induct)
  case (1 nfkc s path)
  show ?case using strip_all_counted [of path s]
    by (auto simp: sanitizeString_def all_counted_def Let_def Suc_le_eq split: prod.splits if_splits)
next
  case (2 nfkc vs path)
  then show ?case unfolding sanitizeValue.simps Let_def snd_conv all_counted_concat by fastforce
next
  case (3 nfkc kvs path)
  have "all_counted (snd (sanitizeValue nfkc v (path @ js ''/'' @ escapeToken k)))" if "(k, v) \<in> set kvs" for k v
    using 3 [OF that refl] .
  then show ?case unfolding sanitizeValue.simps Let_def snd_conv all_counted_concat by fastforce
qed (simp_all add: all_counted_def)

lemma sanitize_counted: "counted (snd (sanitize nfkc v))"
  using sanitizeValue_counted [of nfkc v "[]"]
  by (auto simp: sanitize_def counted_def all_counted_def split: prod.splits)

section \<open>What the routes answer\<close>

definition route_schema :: "route \<Rightarrow> wire_schema" where
  "route_schema r =
     (case r of
        R_Handshake \<Rightarrow> handshake_response_schema
      | R_Lexicon \<Rightarrow> Array_Of lexicon_entry_schema
      | R_Card name depth \<Rightarrow> (if depth = None \<or> depth = Some (js ''rich'') then glyph_card_schema else Any_Value)
      | R_Manifest name \<Rightarrow> update_manifest_schema
      | R_Prepare name \<Rightarrow> confirmation_ticket_schema
      | R_Call name \<Rightarrow> sealed_envelope_schema
      | _ \<Rightarrow> Any_Value)"

definition error_listed :: "error_response \<Rightarrow> bool" where
  "error_listed e \<longleftrightarrow> er_code e \<notin> {CONFIRMATION_BACKLOG_FULL, INSUFFICIENT_SCOPE, PAYLOAD_TOO_LARGE}"

definition fits_schema :: "route \<Rightarrow> int \<times> jstr \<Rightarrow> bool" where
  "fits_schema r a \<longleftrightarrow>
     (\<exists>v. a = (200, ser v) \<and> conforms (route_schema r) (js_norm v)) \<or>
     (\<exists>e. a = (er_status e, ser (error_json e)) \<and> (conforms glyph_error_schema (js_norm (error_json e)) \<longleftrightarrow> error_listed e))"

lemma fits_error [simp]: "fits_schema r (answer_with f (Inl e))"
  unfolding fits_schema_def answer_with_def error_listed_def using conforms_error [of e] by auto

lemma fits_answer: "conforms (route_schema r) (js_norm (f a)) \<Longrightarrow> fits_schema r (answer_with f (Inr a))"
  by (auto simp: fits_schema_def answer_with_def)

lemma fits_either: "(\<And>a. q = Inr a \<Longrightarrow> conforms (route_schema r) (js_norm (f a))) \<Longrightarrow> fits_schema r (answer_with f q)"
  by (cases q) (simp_all add: fits_answer)

lemma handshake_depth:
  assumes "server_handshake cfg sid raw s = (Inr h, s')"
  shows "\<exists>body. readJson (sc_maxBodyBytes cfg) raw = Inr body \<and>
    (hr_cardDepth h = jlit ''standard'' \<or> hr_cardDepth h = js_member_opt body (js ''preferredCardDepth'') \<and>
       hr_cardDepth h \<noteq> JUndef \<and> hr_cardDepth h \<noteq> JNull)"
proof -
  from assms obtain body v where b: "readJson (sc_maxBodyBytes cfg) raw = Inr body"
    "hr_cardDepth h = (let d = js_member_opt body (js ''preferredCardDepth'') in if d = JUndef \<or> d = JNull then jlit ''standard'' else d)"
    unfolding server_handshake_def by (auto simp: and_then_Inr step_inv split: if_splits)
  then show ?thesis by (intro exI [of _ body]) (auto simp: Let_def)
qed

lemma sealed_conforms:
  assumes "server_call cfg env name raw caller s = (Inr (Sealed e), s')"
    and "\<forall>body. readJson (sc_maxBodyBytes cfg) raw = Inr body \<longrightarrow> js_member_opt body (js ''callId'') = JUndef \<or> is_jstring (js_member_opt body (js ''callId''))"
  shows "conforms sealed_envelope_schema (js_norm (envelope_json e))"
proof -
  from server_call_Sealed [OF assms(1)] obtain g cid data key s0 v out s1 s2 where
    a: "call_gates cfg env name raw caller s = (Inr (Admitted g cid data key), s0)"
      "seal_step cfg env g cid data out s1 = (Inr e, s2)" by blast
  from call_gates_Admitted [OF a(1)] obtain body where "readJson (sc_maxBodyBytes cfg) raw = Inr body"
    "js_member body (js ''callId'') = Some cid" unfolding call_admitted_def by blast
  with assms(2) have cid: "cid = JUndef \<or> is_jstring cid" by (auto simp: js_member_opt_def)
  from seal_step_Inr [OF a(2)] obtain r where r: "se_receipt e = Some r"
    "se_inspection e = Some (snd (sanitize (sc_nfkc cfg) out))" "cr_clientCallId r = (if js_truthy cid then Some cid else None)"
    "se_payload e = fst (sanitize (sc_nfkc cfg) out)" by blast
  have "se_payload e \<noteq> JUndef"
  proof
    assume "se_payload e = JUndef"
    with a(2) r(4) show False
      by (auto simp: seal_step_def and_then_Inr step_inv split: prod.splits)
  qed
  then show ?thesis using r cid sanitize_counted [of "sc_nfkc cfg" out]
    by (intro conforms_envelope) (auto simp: string_call_id_def split: if_splits)
qed

lemma no_replay:
  assumes "server_call cfg env name raw caller s = (Inr (Replayed text), s')"
  shows "sv_dedupe s \<noteq> None"
proof -
  obtain q s0 where q: "call_gates cfg env name raw caller s = (q, s0)" by fastforce
  with assms have "q = Inr (Cached text)"
    by (auto simp: server_call_def and_then_case return_def execute_call_def throw_def split: sum.splits gate_result.splits prod.splits)
  with q obtain key cached s1 where "dedupe_lookup (en_getNow env) key s = (Inr cached, s1)" "truthy cached"
    unfolding call_gates_def by (auto simp: and_then_Inr step_inv split: if_splits)
  then show ?thesis by (cases "sv_dedupe s") (auto simp: dedupe_lookup_def)
qed

lemma card_fits:
  assumes "server_card name depth s = Inr kvs" "\<forall>name g. map_of (sv_glyphs s) name = Some g \<longrightarrow> complete_card (gd_card g)"
  shows "conforms (route_schema (R_Card name depth)) (js_norm (JObj kvs))"
proof (cases "depth = None \<or> depth = Some (js ''rich'')")
  case True
  then obtain g where "map_of (sv_glyphs s) name = Some g" "kvs = card_fields (gd_card g)"
    using assms(1) by (cases "map_of (sv_glyphs s) name") (auto simp: server_card_def depth_of_def applyDepth_def)
  then show ?thesis using True assms(2) by (auto simp: route_schema_def simp del: js_norm.simps intro!: conforms_card)
qed (auto simp: route_schema_def)

lemma call_fits:
  assumes "server_call cfg env name raw caller s = (q, s1)" "sv_dedupe s = None"
    and "\<forall>body. readJson (sc_maxBodyBytes cfg) raw = Inr body \<longrightarrow>
      js_member_opt body (js ''callId'') = JUndef \<or> is_jstring (js_member_opt body (js ''callId''))"
  shows "fits_schema (R_Call name) (answer_call q)"
proof (cases "\<exists>e. q = Inr (Sealed e)")
  case True
  then obtain e where e: "q = Inr (Sealed e)" by blast
  with sealed_conforms [of cfg env name raw caller s e s1] assms
  show ?thesis by (auto simp: answer_call_def route_schema_def intro!: fits_answer)
next
  case False
  have "q \<noteq> Inr (Replayed t)" for t
    using no_replay [of cfg env name raw caller s t s1] assms(1,2) by auto
  with False show ?thesis by (cases q; cases "projr q") (auto simp: answer_call_def)
qed


definition toy_site :: site where
  "toy_site = \<lparr>si_cfg = toy_config, si_auth = None, si_path = (\<lambda>u. u),
     si_route = (\<lambda>m u. if u = js ''/glyphs/wipe/call'' then Some (R_Call (js ''wipe'')) else None), si_keys = None,
     si_caller = None, si_env = (\<lambda>n. toy_env), si_token = (\<lambda>n. js ''t''), si_session = (\<lambda>n. js ''s'')\<rparr>"


text \<open>A caller's id that is not a string gives a receipt the schema rejects.\<close>

lemma numeric_call_id_rejected:
  "\<not> conforms call_receipt_schema (js_norm (signed_receipt_json (r\<lparr>cr_clientCallId := Some (JNum 5)\<rparr>)))"
  by (simp add: call_receipt_schema_def signed_receipt_json_def receipt_json_def conforms.simps(9))

end
