(* ===== verification/Conformance_Report.thy ===== *)
theory Conformance_Report
  imports Conformance Import_Config
begin

text \<open>
  Running the conformance suite and reporting (\<open>packages/conformance/src/conformance.ts\<close>, \<open>cli.ts\<close>):
  which levels run, what a level's summary says, the report in its three forms and the exit code
  of the command. Profile names are the three of the source; the properties that every object
  inherits, which \<open>value in PROFILE_LEVELS\<close> also accepts, are not modelled. The usage text and the
  indented JSON of \<open>--output\<close> are not modelled.
\<close>

section \<open>Profiles and options\<close>

datatype conformance_profile = Profile_Minimal | Profile_Secure | Profile_Production

fun PROFILE_LEVELS :: "conformance_profile \<Rightarrow> conformance_level list" where
  "PROFILE_LEVELS Profile_Minimal = [Discovery, Execution]"
| "PROFILE_LEVELS Profile_Secure = [Discovery, Execution, Security]"
| "PROFILE_LEVELS Profile_Production = [Discovery, Execution, Security, Governance]"

definition DEFAULT_PROFILE :: conformance_profile where
  "DEFAULT_PROFILE = Profile_Secure"

definition profile_named :: "jstr \<Rightarrow> conformance_profile option" where
  "profile_named s = map_of
     [(js ''minimal'', Profile_Minimal), (js ''secure'', Profile_Secure), (js ''production'', Profile_Production)] s"

definition level_named :: "jstr \<Rightarrow> conformance_level option" where
  "level_named s = map_of (map (\<lambda>l. (level_str l, l)) ALL_LEVELS) s"

text \<open>\<open>s.split(',')\<close> and \<open>s.trim()\<close>\<close>

fun split_comma :: "jstr \<Rightarrow> jstr list" where
  "split_comma [] = [[]]"
| "split_comma (u # s) =
     (if u = uc CHR '','' then [] # split_comma s
      else case split_comma s of [] \<Rightarrow> [[u]] | p # ps \<Rightarrow> (u # p) # ps)"

definition js_trim :: "jstr \<Rightarrow> jstr" where
  "js_trim s = rev (dropWhile is_js_space (rev (dropWhile is_js_space s)))"

definition listed_levels :: "jstr \<Rightarrow> conformance_level list" where
  "listed_levels input = List.map_filter (\<lambda>s. level_named (js_trim s)) (split_comma input)"

definition resolveProfile :: "jstr \<Rightarrow> conformance_level list" where
  "resolveProfile input =
     (if input = js ''all'' then ALL_LEVELS
      else case profile_named input of Some p \<Rightarrow> PROFILE_LEVELS p | None \<Rightarrow> listed_levels input)"

record conformance_options =
  ko_levels :: "conformance_level list option"
  ko_profile :: "conformance_profile option"
  ko_fixtures :: fixture_glyphs
  ko_authToken :: "jstr option"

section \<open>Running the levels\<close>

definition requested_levels :: "conformance_options \<Rightarrow> conformance_level list" where
  "requested_levels opts =
     (case ko_levels opts of
        Some ls \<Rightarrow> ls
      | None \<Rightarrow> (case ko_profile opts of Some p \<Rightarrow> PROFILE_LEVELS p | None \<Rightarrow> PROFILE_LEVELS DEFAULT_PROFILE))"

definition level_order :: "conformance_level list \<Rightarrow> conformance_level list" where
  "level_order requested =
     (if Discovery \<in> set requested then [Discovery] else []) @
     filter (\<lambda>l. l \<noteq> Discovery \<and> l \<in> set requested) ALL_LEVELS"

fun RUNNERS :: "conformance_level \<Rightarrow> 's level_context \<Rightarrow> ('s, unit) probe_step" where
  "RUNNERS Discovery = discoveryLevel"
| "RUNNERS Execution = executionLevel"
| "RUNNERS Security = securityLevel"
| "RUNNERS Governance = governanceLevel"

text \<open>Without discovery the names come from a quiet request, and an error leaves them empty.\<close>

definition quiet_names :: "'s level_context \<Rightarrow> conformance_level list \<Rightarrow> ('s, unit) probe_step" where
  "quiet_names ctx requested =
     (if Discovery \<notin> set requested \<and> requested \<noteq> [] then
        try_catch
          (and_then (send ctx ''GET'' (js ''/lexicon'') JUndef []) (\<lambda>r p.
             case (cs_status r = 200, array_of (cs_json r)) of
               (True, Some es) \<Rightarrow>
                 (Inr (), p\<lparr>pr_names := filter is_jstring (map (\<lambda>e. js_member_opt e (js ''name'')) es)\<rparr>)
             | _ \<Rightarrow> (Inr (), p)))
          (\<lambda>e. return ())
      else return ())"

fun run_levels :: "'s level_context \<Rightarrow> conformance_level list \<Rightarrow> ('s, unit) probe_step" where
  "run_levels ctx [] = return ()"
| "run_levels ctx (l # ls) = and_then (RUNNERS l ctx) (\<lambda>_. run_levels ctx ls)"

record level_summary =
  ls_level :: conformance_level
  ls_passed :: nat
  ls_failed :: nat
  ls_skipped :: nat
  ls_pass :: bool

record conformance_report =
  rp_baseUrl :: jstr
  rp_protocolVersion :: jstr
  rp_timestamp :: jstr
  rp_passed :: bool
  rp_compatibility :: "conformance_level list"
  rp_levels :: "level_summary list"
  rp_checks :: "check_result list"

definition count_status :: "check_status \<Rightarrow> check_result list \<Rightarrow> nat" where
  "count_status st cs = length (filter (\<lambda>c. ck_status c = st) cs)"

definition summarize :: "check_result list \<Rightarrow> conformance_level \<Rightarrow> level_summary" where
  "summarize checks level =
     (let levelChecks = filter (\<lambda>c. ck_level c = level) checks;
          failed = count_status Failed levelChecks
      in \<lparr>ls_level = level, ls_passed = count_status Passed levelChecks, ls_failed = failed,
          ls_skipped = count_status Skipped levelChecks, ls_pass = (failed = 0)\<rparr>)"

definition report_of :: "jstr \<Rightarrow> jstr \<Rightarrow> conformance_level list \<Rightarrow> check_result list \<Rightarrow> conformance_report" where
  "report_of base now requested checks =
     (let levels = map (summarize checks) requested in
      \<lparr>rp_baseUrl = base, rp_protocolVersion = PROTOCOL_VERSION, rp_timestamp = now,
       rp_passed = list_all ls_pass levels, rp_compatibility = map ls_level (filter ls_pass levels),
       rp_levels = levels, rp_checks = checks\<rparr>)"

record 's suite =
  su_crypto :: crypto
  su_lower :: "jstr \<Rightarrow> jstr"
  su_schemas :: wire_schemas
  su_fetch :: "'s server_under_test"

definition suite_context :: "'s suite \<Rightarrow> jstr \<Rightarrow> conformance_options \<Rightarrow> 's level_context" where
  "suite_context su base opts =
     \<lparr>lx_crypto = su_crypto su, lx_http = buildHttp (su_lower su) (su_fetch su) base (ko_authToken opts),
      lx_schemas = su_schemas su, lx_fixtures = ko_fixtures opts, lx_authToken = ko_authToken opts\<rparr>"

definition runConformance ::
  "'s suite \<Rightarrow> jstr \<Rightarrow> jstr \<Rightarrow> conformance_options \<Rightarrow> ('s, jstr, conformance_report) step" where
  "runConformance su now baseUrl opts s =
     (let base = strip_slash baseUrl; requested = requested_levels opts; ctx = suite_context su base opts in
      case and_then (quiet_names ctx requested) (\<lambda>_. run_levels ctx (level_order requested))
             \<lparr>pr_server = s, pr_checks = [], pr_names = []\<rparr> of
        (Inl e, p) \<Rightarrow> (Inl e, pr_server p)
      | (Inr _, p) \<Rightarrow> (Inr (report_of base now requested (pr_checks p)), pr_server p))"

section \<open>The report\<close>

definition em_dash :: jstr where
  "em_dash = js '' '' @ [8212] @ js '' ''"

fun marker :: "check_status \<Rightarrow> jstr" where
  "marker Passed = js ''PASS''"
| "marker Failed = js ''FAIL''"
| "marker Skipped = js ''SKIP''"

definition checks_of :: "conformance_report \<Rightarrow> level_summary \<Rightarrow> check_result list" where
  "checks_of r s = filter (\<lambda>c. ck_level c = ls_level s) (rp_checks r)"

definition compatible :: "conformance_report \<Rightarrow> jstr" where
  "compatible r = intercalate (js '', '') (map level_str (rp_compatibility r))"

definition or_else_text :: "jstr \<Rightarrow> string \<Rightarrow> jstr" where
  "or_else_text s d = (if s = [] then js d else s)"

definition formatReport :: "conformance_report \<Rightarrow> jstr" where
  "formatReport r = intercalate [10]
     ([js ''Glyph conformance'' @ em_dash @ rp_baseUrl r] @
      concat (map (\<lambda>s.
        ([10] @ js ''  '' @ (if ls_pass s then js ''PASS'' else js ''FAIL'') @ js ''  '' @ level_str (ls_level s) @ em_dash @
         nat_dec (ls_passed s) @ js '' passed, '' @ nat_dec (ls_failed s) @ js '' failed, '' @ nat_dec (ls_skipped s) @
         js '' skipped'') #
        map (\<lambda>c. js ''    '' @ marker (ck_status c) @ js ''  '' @ ck_name c @ em_dash @ ck_detail c) (checks_of r s))
        (rp_levels r)) @
      [[], js ''compatible: '' @ (if rp_passed r then compatible r else or_else_text (compatible r) ''(none)'')])"

fun status_str :: "check_status \<Rightarrow> jstr" where
  "status_str Passed = js ''passed''"
| "status_str Failed = js ''failed''"
| "status_str Skipped = js ''skipped''"

fun emoji :: "check_status \<Rightarrow> jstr" where
  "emoji Passed = [9989]"
| "emoji Failed = [10060]"
| "emoji Skipped = [9197]"

definition formatReportMarkdown :: "conformance_report \<Rightarrow> jstr" where
  "formatReportMarkdown r = intercalate [10]
     ([js ''# Glyph conformance'' @ em_dash @ js ''`'' @ rp_baseUrl r @ js ''`'', [],
       js ''- protocol: '' @ rp_protocolVersion r, js ''- timestamp: '' @ rp_timestamp r,
       js ''- compatible: `'' @ or_else_text (compatible r) ''(none)'' @ js ''`'', [],
       js ''| Level | Status | Passed | Failed | Skipped |'', js ''| --- | --- | --: | --: | --: |''] @
      map (\<lambda>s. js ''| '' @ level_str (ls_level s) @ js '' | '' @
         (if ls_pass s then [9989] @ js '' pass'' else [10060] @ js '' fail'') @ js '' | '' @ nat_dec (ls_passed s) @
         js '' | '' @ nat_dec (ls_failed s) @ js '' | '' @ nat_dec (ls_skipped s) @ js '' |'') (rp_levels r) @
      [[]] @
      concat (map (\<lambda>s.
        [js ''## '' @ level_str (ls_level s), [], js ''| Check | Result | Detail |'', js ''| --- | --- | --- |''] @
        map (\<lambda>c. js ''| `'' @ ck_name c @ js ''` | '' @ emoji (ck_status c) @ js '' '' @ status_str (ck_status c) @
           js '' | '' @ ck_detail c @ js '' |'') (checks_of r s) @ [[]]) (rp_levels r)))"

record badge =
  bd_label :: jstr
  bd_message :: jstr
  bd_color :: jstr

definition formatBadgeJson :: "conformance_report \<Rightarrow> badge" where
  "formatBadgeJson r =
     \<lparr>bd_label = js ''glyph conformance '' @ rp_protocolVersion r,
      bd_message = (if rp_passed r then or_else_text (compatible r) ''passing'' else js ''failing''),
      bd_color = (if rp_passed r then js ''brightgreen'' else js ''red'')\<rparr>"

section \<open>The command\<close>

record conformance_args =
  ca_baseUrl :: "jstr option"
  ca_levels :: "conformance_level list option"
  ca_profile :: "conformance_profile option"
  ca_output :: "jstr option"
  ca_markdown :: "jstr option"
  ca_authToken :: "jstr option"
  ca_fixtures :: fixture_glyphs
  ca_help :: bool

definition no_args :: conformance_args where
  "no_args = \<lparr>ca_baseUrl = None, ca_levels = None, ca_profile = None, ca_output = None, ca_markdown = None,
     ca_authToken = None, ca_fixtures = \<lparr>fx_echo = None, fx_requiresConfirmation = None, fx_slow = None,
     fx_invalidOutput = None\<rparr>, ca_help = False\<rparr>"

text \<open>\<open>argv[++i]\<close>; past the end it is \<open>undefined\<close>. The flags that take a value:\<close>

definition flag_value :: "jstr \<Rightarrow> jstr option \<Rightarrow> conformance_args \<Rightarrow> conformance_args option" where
  "flag_value arg v out =
     (if arg = js ''--output'' then Some (out\<lparr>ca_output := v\<rparr>)
      else if arg = js ''--markdown'' then Some (out\<lparr>ca_markdown := v\<rparr>)
      else if arg = js ''--auth-token'' then Some (out\<lparr>ca_authToken := v\<rparr>)
      else if arg = js ''--fixture-echo'' then Some (out\<lparr>ca_fixtures := (ca_fixtures out)\<lparr>fx_echo := v\<rparr>\<rparr>)
      else if arg = js ''--fixture-requires-confirmation''
        then Some (out\<lparr>ca_fixtures := (ca_fixtures out)\<lparr>fx_requiresConfirmation := v\<rparr>\<rparr>)
      else if arg = js ''--fixture-slow'' then Some (out\<lparr>ca_fixtures := (ca_fixtures out)\<lparr>fx_slow := v\<rparr>\<rparr>)
      else if arg = js ''--fixture-invalid-output''
        then Some (out\<lparr>ca_fixtures := (ca_fixtures out)\<lparr>fx_invalidOutput := v\<rparr>\<rparr>)
      else None)"

definition first_arg :: "jstr list \<Rightarrow> jstr option" where
  "first_arg argv = (case argv of [] \<Rightarrow> None | a # _ \<Rightarrow> Some a)"

definition or_empty :: "jstr option \<Rightarrow> jstr" where
  "or_empty v = (case v of None \<Rightarrow> [] | Some s \<Rightarrow> s)"

text \<open>The left value is \<open>process.exit(2)\<close>.\<close>

function (sequential) parse_conformance_args :: "jstr list \<Rightarrow> conformance_args \<Rightarrow> unit + conformance_args" where
  "parse_conformance_args [] out = Inr out"
| "parse_conformance_args (arg # argv) out =
     (if arg = js ''--help'' \<or> arg = js ''-h'' then parse_conformance_args argv (out\<lparr>ca_help := True\<rparr>)
      else if arg = js ''--profile'' then
        (case profile_named (or_empty (first_arg argv)) of
           None \<Rightarrow> Inl ()
         | Some p \<Rightarrow> parse_conformance_args (tl argv) (out\<lparr>ca_profile := Some p\<rparr>))
      else if arg = js ''--level'' \<or> arg = js ''--levels'' then
        parse_conformance_args (tl argv) (out\<lparr>ca_levels := Some (resolveProfile (or_empty (first_arg argv)))\<rparr>)
      else (case flag_value arg (first_arg argv) out of
              Some out' \<Rightarrow> parse_conformance_args (tl argv) out'
            | None \<Rightarrow> parse_conformance_args argv
                (if take 1 arg \<noteq> js ''-'' \<and> \<not> truthy (ca_baseUrl out) then out\<lparr>ca_baseUrl := Some arg\<rparr> else out)))"
  by pat_completeness auto
termination
  by (relation "measure (length \<circ> fst)") auto

text \<open>
  The command: the exit code, and the text printed when the suite ran. A rejection of the suite
  ends the process with code 1.
\<close>

definition conformance_main ::
  "'s suite \<Rightarrow> jstr \<Rightarrow> jstr list \<Rightarrow> 's \<Rightarrow> (nat \<times> jstr option) \<times> 's" where
  "conformance_main su now argv s =
     (case parse_conformance_args argv no_args of
        Inl _ \<Rightarrow> ((2, None), s)
      | Inr a \<Rightarrow>
          if ca_help a \<or> \<not> truthy (ca_baseUrl a) then ((if truthy (ca_baseUrl a) then 0 else 2, None), s)
          else case runConformance su now (the (ca_baseUrl a))
                 \<lparr>ko_levels = ca_levels a, ko_profile = ca_profile a, ko_fixtures = ca_fixtures a, ko_authToken = ca_authToken a\<rparr> s of
                 (Inl e, s') \<Rightarrow> ((1, None), s')
               | (Inr r, s') \<Rightarrow> ((if rp_passed r then 0 else 1, Some (formatReport r)), s'))"

end
