(* ===== verification/Conformance_Properties.thy ===== *)
theory Conformance_Properties
  imports Conformance_Report
begin

text \<open>
  What a conformance report is worth: no answer of the server can make a check disappear, a report
  passes exactly when no recorded check failed, and an empty choice of levels passes without a
  single request.
\<close>

section \<open>Which checks a step records\<close>

named_theorems records_intro \<open>which checks a step of the suite records\<close>

text \<open>The step only appends checks of its level, and unless it throws those named \<open>ns\<close> are among them.\<close>

definition records :: "conformance_level \<Rightarrow> string list \<Rightarrow> ('s, 'a) probe_step \<Rightarrow> bool" where
  "records l ns m \<longleftrightarrow> (\<forall>p r p'. m p = (r, p') \<longrightarrow>
     (\<exists>cs. pr_checks p' = pr_checks p @ cs \<and> (\<forall>c\<in>set cs. ck_level c = l) \<and>
        (\<forall>a. r = Inr a \<longrightarrow> js ` set ns \<subseteq> ck_name ` set cs)))"

lemma recordsD:
  assumes "records l ns m" "m p = (Inr a, q)"
  obtains cs where "pr_checks q = pr_checks p @ cs" "\<forall>c\<in>set cs. ck_level c = l" "js ` set ns \<subseteq> ck_name ` set cs"
  using assms unfolding records_def by metis

lemma records_bind:
  assumes "records l ns m" "\<And>a. records l ns' (f a)"
  shows "records l (ns @ ns') (and_then m f)"
  unfolding records_def
proof (intro allI impI)
  fix p r p' assume run: "and_then m f p = (r, p')"
  obtain x q where m: "m p = (x, q)" by fastforce
  from assms(1) m obtain cs where cs: "pr_checks q = pr_checks p @ cs" "\<forall>c\<in>set cs. ck_level c = l"
    "\<forall>a. x = Inr a \<longrightarrow> js ` set ns \<subseteq> ck_name ` set cs" unfolding records_def by metis
  show "\<exists>cs. pr_checks p' = pr_checks p @ cs \<and> (\<forall>c\<in>set cs. ck_level c = l) \<and>
        (\<forall>a. r = Inr a \<longrightarrow> js ` set (ns @ ns') \<subseteq> ck_name ` set cs)"
  proof (cases x)
    case (Inl e)
    then show ?thesis using run m cs by (auto simp: and_then_def)
  next
    case (Inr a)
    then have "f a q = (r, p')" using run m by (simp add: and_then_def)
    with assms(2) obtain ds where "pr_checks p' = pr_checks q @ ds" "\<forall>c\<in>set ds. ck_level c = l"
      "\<forall>a. r = Inr a \<longrightarrow> js ` set ns' \<subseteq> ck_name ` set ds" unfolding records_def by metis
    with cs Inr show ?thesis by (intro exI [of _ "cs @ ds"]) auto
  qed
qed

lemma records_subset: "records l ns m \<Longrightarrow> set ns' \<subseteq> set ns \<Longrightarrow> records l ns' m"
  unfolding records_def by (meson image_mono subset_trans)

lemma records_then: "records l [] m \<Longrightarrow> (\<And>a. records l ns (f a)) \<Longrightarrow> records l ns (and_then m f)"
  using records_bind [of l "[]" m ns f] by simp

lemma records_first: "records l ns m \<Longrightarrow> (\<And>a. records l [] (f a)) \<Longrightarrow> records l ns (and_then m f)"
  using records_bind [of l ns m "[]" f] by simp

lemma records_Cons: "records l [n] m \<Longrightarrow> (\<And>a. records l ns (f a)) \<Longrightarrow> records l (n # ns) (and_then m f)"
  using records_bind [of l "[n]" m ns f] by simp

lemma records_try:
  assumes "records l ns m" "\<And>e. records l ns (h e)"
  shows "records l ns (try_catch m h)"
  unfolding records_def
proof (intro allI impI)
  fix p r p' assume run: "try_catch m h p = (r, p')"
  obtain x q where m: "m p = (x, q)" by fastforce
  from assms(1) m obtain cs where cs: "pr_checks q = pr_checks p @ cs" "\<forall>c\<in>set cs. ck_level c = l"
    "\<forall>a. x = Inr a \<longrightarrow> js ` set ns \<subseteq> ck_name ` set cs" unfolding records_def by metis
  show "\<exists>cs. pr_checks p' = pr_checks p @ cs \<and> (\<forall>c\<in>set cs. ck_level c = l) \<and>
        (\<forall>a. r = Inr a \<longrightarrow> js ` set ns \<subseteq> ck_name ` set cs)"
  proof (cases x)
    case (Inr a)
    then show ?thesis using run m cs by (auto simp: try_catch_def)
  next
    case (Inl e)
    then have "h e q = (r, p')" using run m by (simp add: try_catch_def)
    with assms(2) obtain ds where "pr_checks p' = pr_checks q @ ds" "\<forall>c\<in>set ds. ck_level c = l"
      "\<forall>a. r = Inr a \<longrightarrow> js ` set ns \<subseteq> ck_name ` set ds" unfolding records_def by metis
    with cs show ?thesis by (intro exI [of _ "cs @ ds"]) auto
  qed
qed

lemma records_throw [records_intro]: "records l ns (throw e)"
  by (simp add: records_def throw_def)

lemma records_add [records_intro]: "records l [n] (add_check l n st d)"
  by (auto simp: records_def add_check_def)

lemma records_verdict [records_intro]: "records l [n] (add_verdict l n good yes no)"
  by (simp add: add_verdict_def records_add)

text \<open>A step that records nothing.\<close>

lemma records_silent [records_intro]:
  "records l [] (return a)" "records l [] (send ctx m path body hs)" "records l [] (member_of v k)"
  "records l [] (encoded t)" "records l [] names_of" "records l [] (note_names v)" "records l [] (is_error ctx n code r)"
  "records l [] (registry_verifies ctx v)"
  by (auto simp: records_def return_def throw_def send_def member_of_def encoded_def names_of_def note_names_def
      is_error_def registry_verifies_def and_then_def split: option.splits prod.splits sum.splits if_splits)

lemma records_path [records_intro]: "records l [] (glyph_path name rest)"
  unfolding glyph_path_def by (intro records_then records_intro)

lemma records_requests [records_intro]:
  "records l [] (get_glyph ctx name rest)" "records l [] (post_glyph ctx name rest body)"
  unfolding get_glyph_def post_glyph_def by (intro records_then records_intro)+

lemma records_if: "records l ns m \<Longrightarrow> records l ns m' \<Longrightarrow> records l ns (if b then m else m')"
  by simp

lemma records_option: "records l ns m \<Longrightarrow> (\<And>a. records l ns (f a)) \<Longrightarrow> records l ns (case x of None \<Rightarrow> m | Some a \<Rightarrow> f a)"
  by (cases x) simp_all

lemma records_all [records_intro]: "records l (map fst cs) (add_all l st cs)"
proof (induction cs)
  case (Cons c cs)
  then show ?case by (cases c) (auto intro!: records_Cons records_add)
qed (simp add: records_intro)

lemma records_refusal [records_intro]:
  assumes "records l [] request"
  shows "records l [n] (expect_refusal ctx l n request st code what)"
  unfolding expect_refusal_def by (intro records_try records_then records_intro assms)

lemma records_with_fixture:
  assumes "records l ns skip" "\<And>x. records l ns (run x)"
  shows "records l ns (with_fixture fixture skip run)"
  unfolding with_fixture_def by (intro records_then records_intro records_if assms)

section \<open>The checks of each level\<close>

fun level_checks :: "conformance_level \<Rightarrow> string list" where
  "level_checks Discovery =
     [''discovery.health'', ''discovery.handshake.accept'', ''discovery.handshake.reject'', ''discovery.lexicon'',
      ''discovery.card.shape'', ''discovery.card.signature'', ''discovery.card.depthEnum'', ''discovery.error.notFound'',
      ''discovery.schema.sanitization'']"
| "level_checks Execution =
     [''execution.call.success'', ''execution.call.envelope'', ''execution.call.receipt'',
      ''execution.call.sanitization'', ''execution.call.outputValidation'']"
| "level_checks Security =
     [''security.confirmation.required'', ''security.confirmation.invalid'', ''security.confirmation.unlocks'',
      ''security.auth.required'', ''security.timeout'', ''security.rateLimit'']"
| "level_checks Governance =
     [''governance.card.depthIdentity'', ''governance.manifest'', ''governance.keyRegistry'']"

lemma records_discovery_parts:
  "records Discovery [''discovery.health''] (discovery_health ctx)"
  "records Discovery [''discovery.handshake.reject''] (discovery_reject ctx)"
  "records Discovery [''discovery.card.depthEnum''] (discovery_depth ctx names)"
  "records Discovery [''discovery.error.notFound''] (discovery_notFound ctx)"
  "records Discovery [''discovery.schema.sanitization''] (discovery_schema ctx)"
  unfolding discovery_health_def discovery_reject_def discovery_depth_def discovery_notFound_def discovery_schema_def Let_def
  by (intro records_try records_then records_intro)+

text \<open>A check first, then something that records nothing.\<close>

lemma records_checked:
  assumes "records l [] request" "\<And>r. records l [n] (chk r)" "\<And>r a. records l [] (f r a)" "\<And>e a. records l [] (g e a)"
  shows "records l [n] (try_catch (and_then request (\<lambda>r. and_then (chk r) (f r)))
    (\<lambda>e. and_then (add_check l n Failed e) (g e)))"
  by (intro records_try records_then [OF assms(1)] records_first assms records_add)

lemma records_answers:
  "records Discovery [''discovery.handshake.accept''] (discovery_handshake ctx)"
  "records Discovery [''discovery.lexicon''] (discovery_lexicon ctx lexicon)"
  unfolding discovery_handshake_def discovery_lexicon_def Let_def
  by (intro records_checked records_intro records_if records_option)+

lemma records_card:
  "records Discovery [''discovery.card.shape'', ''discovery.card.signature''] (discovery_card ctx names)"
proof -
  have s: "records Discovery [''discovery.card.signature''] (card_signature ctx n j)" for n j
    unfolding card_signature_def by (intro records_option records_intro)
  show ?thesis
  proof (cases names)
    case Nil
    then show ?thesis by (simp add: discovery_card_def) (intro records_Cons records_intro)
  next
    case (Cons name ns)
    then show ?thesis
      unfolding discovery_card_def Let_def list.case
      by simp (intro records_try records_then [OF records_requests(1)] records_Cons records_intro records_if s)
  qed
qed

lemma records_discovery: "records Discovery (level_checks Discovery) (discoveryLevel ctx)"
proof -
  have "records Discovery ([''discovery.health''] @ [''discovery.handshake.accept''] @ [''discovery.handshake.reject''] @
      [''discovery.lexicon''] @ [] @ [''discovery.card.shape'', ''discovery.card.signature''] @ [''discovery.card.depthEnum''] @
      [''discovery.error.notFound''] @ [''discovery.schema.sanitization'']) (discoveryLevel ctx)"
    unfolding discoveryLevel_def by (intro records_bind records_discovery_parts records_answers records_card records_intro)
  then show ?thesis by simp
qed

lemma records_execution: "records Execution (level_checks Execution) (executionLevel ctx)"
proof -
  let ?call = "[''execution.call.success'', ''execution.call.envelope'', ''execution.call.receipt'', ''execution.call.sanitization'']"
  have rc: "records Execution [''execution.call.receipt''] (execution_receipt ctx json)" for json
    unfolding execution_receipt_def by (intro records_try records_then records_option records_intro)
  have "records Execution (tl ?call) (execution_envelope ctx json)" for json
    unfolding execution_envelope_def list.sel
    by (intro records_then [of _ "member_of json ''type''"] records_then [of _ "if _ then _ else _"] records_Cons rc
        records_then [of _ "member_of json ''inspection''"] records_if records_then records_intro)
  moreover have "records Execution (tl ?call) (add_all Execution Failed
      [(''execution.call.envelope'', d), (''execution.call.receipt'', d), (''execution.call.sanitization'', d)])" for d
    using records_all [of Execution "[(''execution.call.envelope'', d), (''execution.call.receipt'', d), (''execution.call.sanitization'', d)]"]
    by simp
  moreover have "records Execution ?call (add_all Execution Failed
      [(''execution.call.success'', e), (''execution.call.envelope'', e), (''execution.call.receipt'', e), (''execution.call.sanitization'', e)])" for e
    using records_all [of Execution "[(''execution.call.success'', e), (''execution.call.envelope'', e),
      (''execution.call.receipt'', e), (''execution.call.sanitization'', e)]"] by simp
  ultimately have call: "records Execution ?call (execution_call ctx echo)" for echo
    unfolding execution_call_def execution_answered_def Let_def
    by (intro records_try records_then [OF records_requests(2)] records_Cons records_if records_intro) simp_all
  have echo: "records Execution ?call (execution_echo ctx echo)" for echo
    unfolding execution_echo_def
    by (intro records_first call records_subset [of Execution "[''execution.call.inputValidation'', ''execution.call.malformedJson'']" _ "[]"]
        records_Cons records_intro) simp
  have skip: "records Execution ?call (add_all Execution Skipped
      [(''execution.call.success'', a), (''execution.call.receipt'', b), (''execution.call.envelope'', c), (''execution.call.sanitization'', d)])" for a b c d
    by (rule records_subset [OF records_all]) auto
  have "records Execution (?call @ [''execution.call.outputValidation'']) (executionLevel ctx)"
    unfolding executionLevel_def by (intro records_bind records_with_fixture skip echo records_intro)
  then show ?thesis by simp
qed

lemma records_security: "records Security (level_checks Security) (securityLevel ctx)"
proof -
  let ?conf = "[''security.confirmation.required'', ''security.confirmation.invalid'', ''security.confirmation.unlocks'']"
  have "records Security [''security.confirmation.unlocks''] (security_unlocks ctx g)" for g
    unfolding security_unlocks_def call_confirmed_with_def by (intro records_try records_then records_if records_intro)
  then have conf: "records Security ?conf (security_confirmation ctx g)" for g
    unfolding security_confirmation_def by (intro records_Cons records_intro)
  have skip: "records Security ?conf (add_all Security Skipped
      [(''security.confirmation.required'', a), (''security.confirmation.invalid'', b), (''security.confirmation.unlocks'', c)])" for a b c
    by (rule records_subset [OF records_all]) auto
  have auth: "records Security [''security.auth.required''] (security_auth ctx)"
    unfolding security_auth_def by (intro records_if records_try records_then records_intro)
  have burst: "records Security [] (burst ctx g n)" for g n
    by (induction n) (auto intro!: records_then records_intro)
  have rate: "records Security [''security.rateLimit''] (security_rateLimit ctx g)" for g
    unfolding security_rateLimit_def by (intro records_try records_then [OF burst] records_intro)
  have "records Security (?conf @ [''security.auth.required''] @ [''security.timeout''] @ [''security.rateLimit'']) (securityLevel ctx)"
    unfolding securityLevel_def by (intro records_bind records_with_fixture skip conf auth rate records_intro)
  then show ?thesis by simp
qed

lemma records_governance: "records Governance (level_checks Governance) (governanceLevel ctx)"
proof -
  have "records Governance [''governance.card.depthIdentity''] (governance_depth ctx name)"
    "records Governance [''governance.manifest''] (governance_manifest ctx name)" for name
    unfolding governance_depth_def governance_manifest_def Let_def
    by (intro records_if records_try records_then records_intro)+
  moreover have "records Governance [''governance.keyRegistry''] (governance_keys ctx)"
    unfolding governance_keys_def keys_answered_def Let_def
    by (intro records_try records_then [OF records_silent(2)] records_if records_then [of _ "if _ then _ else _"] records_intro)
  ultimately show ?thesis
    unfolding governanceLevel_def Let_def level_checks.simps
    by (intro records_then [OF records_silent(5)] records_Cons)
qed

lemma records_level: "records l (level_checks l) (RUNNERS l ctx)"
  using records_discovery records_execution records_security records_governance by (cases l) auto

section \<open>The whole run\<close>

definition recorded :: "check_result list \<Rightarrow> conformance_level \<Rightarrow> bool" where
  "recorded cs l \<longleftrightarrow> (\<forall>n\<in>set (level_checks l). \<exists>c\<in>set cs. ck_level c = l \<and> ck_name c = js n)"

lemma recorded_mono: "recorded cs l \<Longrightarrow> set cs \<subseteq> set ds \<Longrightarrow> recorded ds l"
  unfolding recorded_def by blast

lemma level_recorded:
  assumes "RUNNERS l ctx p = (Inr a, q)"
  shows "recorded (pr_checks q) l \<and> (\<exists>cs. pr_checks q = pr_checks p @ cs \<and> (\<forall>c\<in>set cs. ck_level c = l))"
proof -
  from recordsD [OF records_level assms] obtain cs where cs: "pr_checks q = pr_checks p @ cs"
    "\<forall>c\<in>set cs. ck_level c = l" "js ` set (level_checks l) \<subseteq> ck_name ` set cs" .
  have "recorded cs l" unfolding recorded_def
  proof
    fix n assume "n \<in> set (level_checks l)"
    then have "js n \<in> ck_name ` set cs" using cs(3) by blast
    with cs(2) show "\<exists>c\<in>set cs. ck_level c = l \<and> ck_name c = js n" by force
  qed
  with cs(1,2) show ?thesis using recorded_mono [of cs l "pr_checks q"] by auto
qed

lemma run_levels_recorded:
  assumes "run_levels ctx ls p = (Inr a, q)"
  shows "(\<forall>l\<in>set ls. recorded (pr_checks q) l) \<and>
    (\<exists>cs. pr_checks q = pr_checks p @ cs \<and> (\<forall>c\<in>set cs. ck_level c \<in> set ls))"
  using assms
proof (induction ls arbitrary: p)
  case (Cons l ls)
  then obtain b m where m: "RUNNERS l ctx p = (Inr b, m)" "run_levels ctx ls m = (Inr a, q)"
    by (auto simp: and_then_Inr)
  from level_recorded [OF m(1)] obtain cs where cs: "recorded (pr_checks m) l" "pr_checks m = pr_checks p @ cs"
    "\<forall>c\<in>set cs. ck_level c = l" by blast
  from Cons.IH [OF m(2)] obtain ds where ds: "\<forall>l\<in>set ls. recorded (pr_checks q) l" "pr_checks q = pr_checks m @ ds"
    "\<forall>c\<in>set ds. ck_level c \<in> set ls" by blast
  have "recorded (pr_checks q) l" by (rule recorded_mono [OF cs(1)]) (simp add: ds(2))
  moreover have "pr_checks q = pr_checks p @ (cs @ ds)" using cs(2) ds(2) by simp
  moreover have "\<forall>c\<in>set (cs @ ds). ck_level c \<in> set (l # ls)" using cs(3) ds(3) by auto
  ultimately show ?case using ds(1) by (simp add: exI [of _ "cs @ ds"] del: append_assoc)
qed (simp add: return_def)

lemma level_order_set: "set (level_order requested) = set requested"
proof -
  have "l \<in> set ALL_LEVELS" for l by (cases l) (simp_all add: ALL_LEVELS_def)
  then show ?thesis unfolding level_order_def by auto
qed

lemma quiet_names_checks: "quiet_names ctx requested p = (r, q) \<Longrightarrow> pr_checks q = pr_checks p"
  by (auto simp: quiet_names_def try_catch_def and_then_def send_def return_def split: if_splits prod.splits sum.splits option.splits bool.splits)

lemma runConformance_report:
  assumes "runConformance su now url opts s = (Inr r, s')"
  shows "\<exists>checks. r = report_of (strip_slash url) now (requested_levels opts) checks \<and>
    (\<forall>l\<in>set (requested_levels opts). recorded checks l) \<and> (\<forall>c\<in>set checks. ck_level c \<in> set (requested_levels opts))"
proof -
  let ?ctx = "suite_context su (strip_slash url) opts" and ?p = "\<lparr>pr_server = s, pr_checks = [], pr_names = []\<rparr>"
  from assms obtain p where p: "and_then (quiet_names ?ctx (requested_levels opts))
      (\<lambda>_. run_levels ?ctx (level_order (requested_levels opts))) ?p = (Inr (), p)"
    "r = report_of (strip_slash url) now (requested_levels opts) (pr_checks p)"
    by (auto simp: runConformance_def Let_def split: prod.splits sum.splits)
  then obtain q where q: "quiet_names ?ctx (requested_levels opts) ?p = (Inr (), q)"
    "run_levels ?ctx (level_order (requested_levels opts)) q = (Inr (), p)" by (auto simp: and_then_Inr)
  from quiet_names_checks [OF q(1)] run_levels_recorded [OF q(2)] p(2) show ?thesis
    by (auto simp: level_order_set intro!: exI [of _ "pr_checks p"])
qed

lemma summarize_pass: "ls_pass (summarize checks l) \<longleftrightarrow> (\<forall>c\<in>set checks. ck_level c = l \<longrightarrow> ck_status c \<noteq> Failed)"
  by (auto simp: summarize_def count_status_def Let_def filter_empty_conv)

lemma report_of_pass:
  "rp_passed (report_of base now requested checks) \<longleftrightarrow>
     (\<forall>l\<in>set requested. \<forall>c\<in>set checks. ck_level c = l \<longrightarrow> ck_status c \<noteq> Failed)"
  by (simp add: report_of_def Let_def list_all_iff summarize_pass)

lemma report_of_compatibility:
  "rp_compatibility (report_of base now requested checks) =
     filter (\<lambda>l. \<forall>c\<in>set checks. ck_level c = l \<longrightarrow> ck_status c \<noteq> Failed) requested"
proof -
  have "ls_level (summarize checks l) = l" for l by (simp add: summarize_def Let_def)
  then show ?thesis by (simp add: report_of_def Let_def filter_map comp_def summarize_pass)
qed


text \<open>A server that refuses every connection: the governance level runs, and its key check fails.\<close>

definition down_suite :: "unit suite" where
  "down_suite = \<lparr>su_crypto = toy_crypto, su_lower = id,
     su_schemas = \<lparr>ws_handshakeResponse = \<lambda>v. True, ws_glyphError = \<lambda>v. True, ws_lexiconEntry = \<lambda>v. True,
       ws_glyphCard = \<lambda>v. True, ws_sealedEnvelope = \<lambda>v. True, ws_sanitization = \<lambda>v. True,
       ws_confirmationTicket = \<lambda>v. True, ws_updateManifest = \<lambda>v. True, as_card = \<lambda>v. None, as_receipt = \<lambda>v. None,
       as_registry = \<lambda>v. None\<rparr>,
     su_fetch = (\<lambda>q s. (Inl (js ''fetch failed''), s))\<rparr>"


text \<open>A misspelt level: nothing is run, the command prints a passing report and exits with 0.\<close>

lemma misspelt_level_passes:
  "conformance_main su now [js ''http://h'', js ''--level'', js ''securty''] s =
     ((0, Some (formatReport (report_of (js ''http://h'') now [] []))), s)"
proof -
  have r: "resolveProfile (js ''securty'') = []"
    by (simp add: resolveProfile_def profile_named_def listed_levels_def js_trim_def js_def uc_def is_js_space_def
        level_named_def ALL_LEVELS_def List.map_filter_simps)
  have u: "strip_slash (js ''http://h'') = js ''http://h''" by (simp add: strip_slash_def js_def uc_def)
  have l: "level_order [] = []" by (simp add: level_order_def)
  have a: "parse_conformance_args [js ''http://h'', js ''--level'', js ''securty''] no_args =
      Inr (no_args\<lparr>ca_baseUrl := Some (js ''http://h''), ca_levels := Some []\<rparr>)"
    by (simp add: flag_value_def r or_empty_def first_arg_def) (simp add: no_args_def js_def uc_def)
  have "runConformance su now (js ''http://h'') \<lparr>ko_levels = Some [], ko_profile = p, ko_fixtures = f, ko_authToken = t\<rparr> s =
      (Inr (report_of (js ''http://h'') now [] []), s)" for p f t
    by (simp add: runConformance_def requested_levels_def quiet_names_def Let_def l return_def u and_then_def)
  moreover have "rp_passed (report_of b now [] [])" for b by (simp add: report_of_def Let_def)
  ultimately show ?thesis unfolding conformance_main_def a by (simp add: no_args_def)
qed

end
