(* ===== verification/Conformance_Server.thy ===== *)
theory Conformance_Server
  imports Wire_Schemas Conformance_Properties
begin

text \<open>
  The server of this repository passes its own conformance suite. A check is shown to pass by a triple:
  from a running suite with no failed check and a server in order, the step ends without an error in
  such a state again.
\<close>

section \<open>Fixtures\<close>

text \<open>The Zod schemas of \<open>fixtures.ts\<close>; what they accept and their JSON Schema are the parameter \<open>zod\<close>.\<close>

datatype fixture_schema = Z_Value | Z_Anything | Z_Ok | Z_Ok_Count

type_synonym fixture_zod = "fixture_schema \<Rightarrow> validator \<times> jsval"

definition FIXTURE_NAMES :: fixture_glyphs where
  "FIXTURE_NAMES = \<lparr>fx_echo = Some (js ''conformance-echo''),
     fx_requiresConfirmation = Some (js ''conformance-requires-confirmation''),
     fx_slow = Some (js ''conformance-slow''), fx_invalidOutput = Some (js ''conformance-invalid-output'')\<rparr>"

definition safe_cost :: "latency \<Rightarrow> glyph_cost" where
  "safe_cost lat = \<lparr>co_latency = lat, co_sideEffects = False, co_reversible = True, co_riskTier = Safe,
     co_requiresConfirmation = False\<rparr>"

definition fixture_config ::
  "jstr option \<Rightarrow> jstr \<Rightarrow> glyph_cost \<Rightarrow> validator \<times> jsval \<Rightarrow> validator \<times> jsval \<Rightarrow> (jsval \<Rightarrow> handler_result) \<Rightarrow> glyph_config" where
  "fixture_config name intent cost inp out handler =
     \<lparr>cf_name = the name, cf_intent = intent, cf_tags = None, cf_cost = cost, cf_idempotent = None, cf_input = inp,
      cf_output = out, cf_examples = None, cf_failureModes = None, cf_provider = js ''conformance'',
      cf_requiredScopes = None, cf_handler = handler\<rparr>"

definition echo_config :: "fixture_zod \<Rightarrow> glyph_config" where
  "echo_config zod = fixture_config (fx_echo FIXTURE_NAMES) (js ''Echoes its input'' @ em_dash @ js ''safe round-trip fixture'')
     (safe_cost Fast) (zod Z_Value) (zod Z_Value) Handler_Returns"

definition confirmation_config :: "fixture_zod \<Rightarrow> glyph_config" where
  "confirmation_config zod = fixture_config (fx_requiresConfirmation FIXTURE_NAMES)
     (js ''Always requires confirmation'' @ em_dash @ js ''exercises the security gate'')
     \<lparr>co_latency = Fast, co_sideEffects = True, co_reversible = False, co_riskTier = Danger, co_requiresConfirmation = True\<rparr>
     (zod Z_Anything) (zod Z_Ok) (\<lambda>_. Handler_Returns (JObj [(js ''ok'', JBool True)]))"

text \<open>The slow handler resolves after sixty seconds, unless the server's timeout comes first.\<close>

definition slow_config :: "fixture_zod \<Rightarrow> int \<Rightarrow> glyph_config" where
  "slow_config zod timeoutMs = fixture_config (fx_slow FIXTURE_NAMES) (js ''Exceeds the server timeout'' @ em_dash @ js ''exercises HANDLER_TIMEOUT'')
     (safe_cost Slow) (zod Z_Anything) (zod Z_Ok)
     (\<lambda>_. if timeoutMs < 60000 then Handler_Times_Out else Handler_Returns (JObj [(js ''ok'', JBool True)]))"

definition invalid_config :: "fixture_zod \<Rightarrow> glyph_config" where
  "invalid_config zod = fixture_config (fx_invalidOutput FIXTURE_NAMES) (js ''Returns output that fails the declared schema'')
     (safe_cost Fast) (zod Z_Anything) (zod Z_Ok_Count)
     (\<lambda>_. Handler_Returns (JObj [(js ''ok'', jlit ''not-a-boolean''), (js ''count'', jlit ''three'')]))"

definition buildFixtureGlyphs :: "crypto \<Rightarrow> jstr \<Rightarrow> fixture_zod \<Rightarrow> int \<Rightarrow> glyph_definition list" where
  "buildFixtureGlyphs C now zod timeoutMs = map (defineGlyph C now)
     [echo_config zod, confirmation_config zod, slow_config zod timeoutMs, invalid_config zod]"

fun register_each :: "server_config \<Rightarrow> glyph_definition list \<Rightarrow> (server_state, register_error, unit) step" where
  "register_each cfg [] = return ()"
| "register_each cfg (g # gs) = and_then (server_register cfg g) (\<lambda>_. register_each cfg gs)"

definition registerFixtures :: "server_config \<Rightarrow> jstr \<Rightarrow> fixture_zod \<Rightarrow> (server_state, register_error, unit) step" where
  "registerFixtures cfg now zod =
     register_each cfg (buildFixtureGlyphs (sc_crypto cfg) now zod (sc_callTimeoutMs cfg))"

section \<open>Triples\<close>

named_theorems triple_intro \<open>triples of the suite's steps\<close>

definition triple :: "('p \<Rightarrow> bool) \<Rightarrow> ('p, 'e, 'a) step \<Rightarrow> ('a \<Rightarrow> 'p \<Rightarrow> bool) \<Rightarrow> bool" where
  "triple P m Q \<longleftrightarrow> (\<forall>p. P p \<longrightarrow> (\<exists>a p'. m p = (Inr a, p') \<and> Q a p'))"

lemma triple_bind:
  assumes "triple P m Q" "\<And>a. triple (Q a) (f a) R"
  shows "triple P (and_then m f) R"
  unfolding triple_def
proof (intro allI impI)
  fix p assume "P p"
  then obtain a p' where a: "m p = (Inr a, p')" "Q a p'" using assms(1) unfolding triple_def by blast
  then obtain b q where "f a p' = (Inr b, q)" "R b q" using assms(2) unfolding triple_def by blast
  with a show "\<exists>a p'. and_then m f p = (Inr a, p') \<and> R a p'" by (simp add: and_then_def)
qed

lemma triple_return: "(\<And>p. P p \<Longrightarrow> Q a p) \<Longrightarrow> triple P (return a) Q"
  by (simp add: triple_def return_def)

lemma triple_try:
  assumes "triple P m Q"
  shows "triple P (try_catch m h) Q"
  unfolding triple_def
proof (intro allI impI)
  fix p assume "P p"
  then obtain a p' where "m p = (Inr a, p')" "Q a p'" using assms unfolding triple_def by blast
  then show "\<exists>a p'. try_catch m h p = (Inr a, p') \<and> Q a p'" by (simp add: try_catch_def)
qed

lemma triple_pure: "(\<And>p. P p \<Longrightarrow> A) \<Longrightarrow> (A \<Longrightarrow> triple P m Q) \<Longrightarrow> triple P m Q"
  unfolding triple_def by blast

lemma triple_weaken: "triple P m Q \<Longrightarrow> (\<And>p. P' p \<Longrightarrow> P p) \<Longrightarrow> (\<And>a p. Q a p \<Longrightarrow> Q' a p) \<Longrightarrow> triple P' m Q'"
  unfolding triple_def by blast

text \<open>A running suite: no failed check, the names as given, the server's state as required.\<close>

definition running :: "('s \<Rightarrow> bool) \<Rightarrow> jsval list \<Rightarrow> 's probe \<Rightarrow> bool" where
  "running Ok names p \<longleftrightarrow> Ok (pr_server p) \<and> pr_names p = names \<and> (\<forall>c\<in>set (pr_checks p). ck_status c \<noteq> Failed)"

lemma triple_add [triple_intro]:
  "st \<noteq> Failed \<Longrightarrow> triple (running Ok ns) (add_check l name st d) (\<lambda>_. running Ok ns)"
  by (auto simp: triple_def running_def add_check_def)

lemma triple_verdict: "good \<Longrightarrow> triple (running Ok ns) (add_verdict l name good yes no) (\<lambda>_. running Ok ns)"
  by (simp add: add_verdict_def triple_add)

lemma triple_add_all [triple_intro]:
  "st \<noteq> Failed \<Longrightarrow> triple (running Ok ns) (add_all l st cs) (\<lambda>_. running Ok ns)"
  by (induction l st cs rule: add_all.induct) (auto intro!: triple_return triple_bind [OF triple_add])

lemma triple_names: "triple (running Ok ns) names_of (\<lambda>r p. r = ns \<and> running Ok ns p)"
  by (simp add: triple_def names_of_def running_def)

text \<open>A request whose answer is known, and what it does to the server.\<close>

definition answers :: "('s \<Rightarrow> bool) \<Rightarrow> ('s, jstr, conf_response) step \<Rightarrow> (conf_response \<Rightarrow> 's \<Rightarrow> bool) \<Rightarrow> bool" where
  "answers Ok m R \<longleftrightarrow> (\<forall>s. Ok s \<longrightarrow> (\<exists>r s'. m s = (Inr r, s') \<and> R r s'))"

lemma triple_send:
  assumes "answers Ok (lx_http ctx (js m) path body hs) (\<lambda>r s'. A r \<and> Ok' s')"
  shows "triple (running Ok ns) (send ctx m path body hs) (\<lambda>r p. A r \<and> running Ok' ns p)"
  using assms unfolding triple_def answers_def running_def send_def by fastforce

lemma triple_encoded: "encodeURIComponent s = Some t \<Longrightarrow> triple (running Ok ns) (encoded s) (\<lambda>r p. r = t \<and> running Ok ns p)"
  by (simp add: triple_def encoded_def return_def)

lemma triple_member: "js_member v (js k) = Some w \<Longrightarrow> triple P (member_of v k) (\<lambda>r p. r = w \<and> P p)"
  by (simp add: triple_def member_of_def return_def)

lemma triple_pre: "(A \<Longrightarrow> triple P m Q) \<Longrightarrow> triple (\<lambda>p. A \<and> P p) m Q"
  unfolding triple_def by blast

text \<open>A refusal that is expected.\<close>

definition refuses :: "'s level_context \<Rightarrow> int \<Rightarrow> string \<Rightarrow> conf_response \<Rightarrow> bool" where
  "refuses ctx n code r \<longleftrightarrow> cs_status r = n \<and> ws_glyphError (lx_schemas ctx) (cs_json r) \<and>
     (\<exists>e. js_member (cs_json r) (js ''error'') = Some e \<and> js_member e (js ''code'') = Some (jlit code))"

lemma triple_is_error:
  "refuses ctx n code r \<Longrightarrow> triple P (is_error ctx n code r) (\<lambda>b p. b \<and> P p)"
  by (auto simp: refuses_def is_error_def member_of_def triple_def and_then_def return_def)

lemma triple_refusal:
  assumes "triple (running Ok ns) request (\<lambda>r p. refuses ctx n code r \<and> running Ok ns p)"
  shows "triple (running Ok ns) (expect_refusal ctx l name request n code what) (\<lambda>_. running Ok ns)"
  unfolding expect_refusal_def
  by (intro triple_try triple_bind [OF assms] triple_pre triple_bind [OF triple_is_error] triple_verdict)

section \<open>The suite in front of a server\<close>

text \<open>
  The compiled schemas decide as JSON Schema says, and a value the server encoded is read back at its
  declared type.
\<close>

definition published_schemas :: "wire_schemas \<Rightarrow> bool" where
  "published_schemas W \<longleftrightarrow>
     ws_handshakeResponse W = conforms handshake_response_schema \<and> ws_glyphError W = conforms glyph_error_schema \<and>
     ws_lexiconEntry W = conforms lexicon_entry_schema \<and> ws_glyphCard W = conforms glyph_card_schema \<and>
     ws_sealedEnvelope W = conforms sealed_envelope_schema \<and> ws_sanitization W = conforms sanitization_schema \<and>
     ws_confirmationTicket W = conforms confirmation_ticket_schema \<and> ws_updateManifest W = conforms update_manifest_schema"

definition reads_declared :: "wire_schemas \<Rightarrow> glyph_card set \<Rightarrow> (jstr + key_registry) option \<Rightarrow> bool" where
  "reads_declared W gcards keys \<longleftrightarrow>
     (\<forall>c\<in>gcards. as_card W (js_norm (JObj (card_fields c))) = Some c) \<and>
     (\<forall>x. cr_clientCallId x = None \<longrightarrow> as_receipt W (js_norm (signed_receipt_json x)) = Some x) \<and>
     (\<forall>k. keys = Some (Inr k) \<longrightarrow> as_registry W (js_norm (registry_json k)) = Some k)"

text \<open>The router finds the handlers, for the names that are registered.\<close>

definition depth_queries :: "(string \<times> string) list" where
  "depth_queries = [(''?depth=minimal'', ''minimal''), (''?depth=standard'', ''standard''), (''?depth=rich'', ''rich''),
     (''?depth=bogus'', ''bogus'')]"

definition routed :: "site \<Rightarrow> jstr \<Rightarrow> jstr set \<Rightarrow> bool" where
  "routed si base names \<longleftrightarrow>
     si_route si (js ''GET'') (base @ js ''/health'') = Some R_Health \<and>
     si_route si (js ''GET'') (base @ js ''/keys'') = Some R_Keys \<and>
     si_route si (js ''GET'') (base @ js ''/lexicon'') = Some R_Lexicon \<and>
     si_route si (js ''POST'') (base @ js ''/handshake'') = Some R_Handshake \<and>
     si_route si (js ''GET'') (base @ js ''/glyphs/'' @ unknown_name) = Some (R_Card unknown_name None) \<and>
     si_path si (base @ js ''/lexicon'') \<noteq> js ''/health'' \<and>
     (\<forall>name\<in>names. \<exists>t. encodeURIComponent name = Some t \<and>
        (\<forall>(q, d)\<in>set depth_queries. si_route si (js ''GET'') (base @ js ''/glyphs/'' @ t @ js q) = Some (R_Card name (Some (js d)))) \<and>
        si_route si (js ''GET'') (base @ js ''/glyphs/'' @ t @ js ''/manifest'') = Some (R_Manifest name) \<and>
        si_route si (js ''POST'') (base @ js ''/glyphs/'' @ t @ js ''/prepare'') = Some (R_Prepare name) \<and>
        si_route si (js ''POST'') (base @ js ''/glyphs/'' @ t @ js ''/call'') = Some (R_Call name))"

definition token_fits :: "site \<Rightarrow> jstr option \<Rightarrow> bool" where
  "token_fits si tok \<longleftrightarrow>
     (case si_auth si of
        None \<Rightarrow> \<not> truthy tok
      | Some a \<Rightarrow> truthy tok \<and> buildVerify (sc_crypto (si_cfg si)) a (the tok))"

lemma passes_front:
  assumes "token_fits si tok" "rq_authorization rq = (if truthy tok then Some (js ''Bearer '' @ the tok) else None)"
  shows "fst (server_front (sc_crypto (si_cfg si)) (si_auth si) None 0 rq []) = None"
proof -
  have "take 7 (js ''Bearer '' @ t) = js ''Bearer ''" "drop 7 (js ''Bearer '' @ t) = t" for t
    by (simp_all add: js_def)
  then show ?thesis
    using assms by (auto simp: server_front_def token_fits_def authMiddleware_def bearerToken_def truthy_iff Let_def
        split: option.splits)
qed

lemma fetch_route:
  assumes "token_fits si tok" "si_route si (js m) (base @ path) = Some r"
    and "handle_route si n r (raw_of (cq_body (build_request lower base tok (js m) path body []))) s = (a, s')"
  shows "buildHttp lower (server_fetch si) base tok (js m) path body [] (s, n) = (Inr (read_response a), (s', Suc n))"
proof -
  let ?q = "build_request lower base tok (js m) path body []"
  let ?rq = "\<lparr>rq_path = si_path si (cq_url ?q), rq_authorization = map_of (cq_headers ?q) (js ''authorization''), rq_remote = None\<rparr>"
  have "rq_authorization ?rq = (if truthy tok then Some (js ''Bearer '' @ the tok) else None)"
    by (simp add: build_request_def)
  from passes_front [OF assms(1) this] assms(2,3) show ?thesis
    by (simp add: buildHttp_def server_fetch_def and_then_def return_def Let_def build_request_def)
qed

section \<open>Reading the request\<close>

lemma utf8_length: "length (utf8 cp) \<le> 4"
  by (simp add: utf8_def)

lemma decode_length: "length (decode s) \<le> length s"
  by (induction s rule: decode.induct) auto

lemma utf8_bytes_length: "length (utf8_bytes s) \<le> 4 * length s"
proof -
  have "length (concat (map (\<lambda>cp. utf8 (to_scalar cp)) cps)) \<le> 4 * length cps" for cps
  proof (induction cps)
    case (Cons cp cps)
    then show ?case using utf8_length [of "to_scalar cp"] by simp
  qed simp
  from this [of "decode s"] show ?thesis using decode_length [of s] by (simp add: utf8_bytes_def)
qed

lemma reads_text:
  assumes "int (4 * length t) \<le> limit"
  shows "readJson limit (raw_of (Some t)) = (case json_parse t of None \<Rightarrow> Inl malformed_json | Some v \<Rightarrow> Inr v)"
  using assms utf8_bytes_length [of t] by (simp add: readJson_def raw_of_def Let_def)

lemma escape_unit_length: "length (escape_unit u) \<le> 6"
  by (simp add: escape_unit_def u_escape_def Let_def)

lemma escape_units_length: "length (escape_units s) \<le> 6 * length s"
proof (induction s rule: escape_units.induct)
  case (2 u)
  then show ?case using escape_unit_length [of u] by simp
next
  case (3 u w s)
  then show ?case using escape_unit_length [of u] by (cases "is_high u \<and> is_low w") auto
qed simp

text \<open>The bodies the suite sends fit into 2000 bytes, with a token of at most 40 units.\<close>

definition confirm_body :: "jsval \<Rightarrow> jsval" where
  "confirm_body token = JObj [(js ''input'', JObj []), (js ''confirmationToken'', token)]"

lemma body_lengths:
  "length (ser (handshake_body PROTOCOL_VERSION)) \<le> 500" "length (ser (handshake_body (js ''0.0-conformance-bogus''))) \<le> 500"
  "length (ser (input_body [(js ''value'', jlit ''hello'')])) \<le> 500" "length (ser (input_body [(js ''value'', jlit ''x'')])) \<le> 500"
  "length (ser (input_body [(js ''value'', JNum 123)])) \<le> 500" "length (ser (input_body [])) \<le> 500"
  by (simp_all add: handshake_body_def input_body_def PROTOCOL_VERSION_def js_def uc_def quote_json_def escape_unit_def
      is_high_def is_low_def int_dec_def nat_dec.simps)

section \<open>What the handlers answer\<close>

lemma sanitize_defined: "v \<noteq> JUndef \<Longrightarrow> fst (sanitize nfkc v) \<noteq> JUndef"
  by (cases v) (auto simp: sanitize_def Let_def split: prod.splits)

lemma signs_receipt:
  assumes "honest_signer C sg" "cr_serverPublicKey b = sg_publicKey sg"
  shows "\<exists>sig. sg_signReceipt sg b = Some sig"
proof -
  let ?r = "receipt_base.extend b (call_receipt.fields [])"
  have "cr_serverPublicKey ?r = sg_publicKey sg" using assms(2) by (simp add: receipt_extend(3))
  then obtain sig where "sg_signReceipt sg (receipt_base.truncate ?r) = Some sig"
    using assms(1) unfolding honest_signer_def by blast
  then show ?thesis by (auto simp: receipt_extend(2))
qed

lemma seal_step_succeeds:
  assumes "honest_signer (sc_crypto cfg) (sc_signer cfg)" "data \<noteq> JUndef" "out \<noteq> JUndef"
  shows "\<exists>e s'. seal_step cfg env g cid data out s = (Inr e, s')"
proof -
  obtain clean insp where sz: "sanitize (sc_nfkc cfg) out = (clean, insp)" by fastforce
  have "clean \<noteq> JUndef" using sanitize_defined [OF assms(3), of "sc_nfkc cfg"] sz by simp
  then obtain ih oh nh where h: "canonicalHash (sc_crypto cfg) data = Some ih"
    "canonicalHash (sc_crypto cfg) clean = Some oh" "canonicalHash (sc_crypto cfg) (sanitization_json insp) = Some nh"
    using assms(2) by (auto simp: canonicalHash_Some sanitization_json_def)
  obtain sig where sig: "sg_signReceipt (sc_signer cfg) (receipt_of cfg env g cid ih oh nh) = Some sig"
    using signs_receipt [OF assms(1), of "receipt_of cfg env g cid ih oh nh"] by (auto simp: receipt_of_def)
  show ?thesis
    by (simp add: seal_step_def sz and_then_case hash_of_def h return_def sign_receipt_def sig audit_hook_def log_event_def)
qed

text \<open>What an unchanged server means here: the tables that the suite's requests do not touch.\<close>

definition same_tables :: "server_state \<Rightarrow> server_state \<Rightarrow> bool" where
  "same_tables s s' \<longleftrightarrow> sv_glyphs s' = sv_glyphs s \<and> sv_manifests s' = sv_manifests s"

definition good_envelope :: "server_config \<Rightarrow> jsval \<Rightarrow> sealed_envelope \<Rightarrow> bool" where
  "good_envelope cfg out e \<longleftrightarrow> se_payload e = fst (sanitize (sc_nfkc cfg) out) \<and>
     se_inspection e = Some (snd (sanitize (sc_nfkc cfg) out)) \<and>
     (\<exists>x. se_receipt e = Some x \<and> verifyReceipt (sc_crypto cfg) x \<and> cr_clientCallId x = None)"

lemma execute_succeeds:
  assumes "honest_signer (sc_crypto cfg) (sc_signer cfg)" "data \<noteq> JUndef" "gd_handler g data = Handler_Returns v"
    and "gd_outputSchema g v = Inr out" "out \<noteq> JUndef"
  shows "\<exists>e s'. execute_call cfg env name g JUndef data None s = (Inr (Sealed e), s') \<and> good_envelope cfg out e \<and>
    sv_confirmations s' = sv_confirmations s \<and> same_tables s s'"
proof -
  let ?s1 = "s\<lparr>sv_trace := sv_trace s @ [Handler_Ran name data]\<rparr>"
  obtain e s2 where e: "seal_step cfg env g JUndef data out ?s1 = (Inr e, s2)"
    using seal_step_succeeds [OF assms(1,2,5)] by blast
  have r: "record_response (en_putNow env) None e s2 = (Inr (), s2)" by (simp add: record_response_def split: option.splits prod.splits)
  have x: "execute_call cfg env name g JUndef data None s = (Inr (Sealed e), s2)"
    using assms(3,4) by (simp add: execute_call_def and_then_case run_handler_def log_event_def return_def check_output_def e r)
  have "good_envelope cfg out e"
    using seal_step_Inr [OF e] assms(1) by (auto simp: good_envelope_def)
  with x show ?thesis
    using execute_call_trace [of cfg env name g JUndef data None s] by (auto simp: same_tables_def)
qed

lemma execute_fails:
  assumes "gd_handler g data = Handler_Times_Out \<or>
    (\<exists>v. gd_handler g data = Handler_Returns v \<and> gd_outputSchema g v = Inl issues)"
  shows "\<exists>e s'. execute_call cfg env name g JUndef data None s = (Inl e, s') \<and> sv_confirmations s' = sv_confirmations s \<and>
    same_tables s s' \<and>
    (if gd_handler g data = Handler_Times_Out then er_status e = 504 \<and> er_code e = HANDLER_TIMEOUT \<and> er_details e = None
     else er_status e = 502 \<and> er_code e = OUTPUT_VALIDATION_FAILED \<and> (\<forall>d. er_details e = Some d \<longrightarrow> d = issues))"
  using assms
  by (auto simp: execute_call_def and_then_case run_handler_def log_event_def return_def throw_def check_output_def
      errorResponse_def same_tables_def)

text \<open>The gates of a call whose body has neither a call id nor, unless needed, a token.\<close>

lemma call_gates_eval:
  assumes "map_of (sv_glyphs s) name = Some g" "readJson (sc_maxBodyBytes cfg) raw = Inr body"
    and "js_member body (js ''callId'') = Some JUndef" "gd_inputSchema g (js_member_opt body (js ''input'')) = Inr data"
    and "gc_requiredScopes (gd_card g) = None"
  shows "call_gates cfg env name raw caller s =
    and_then (confirmation_gate cfg name g (js_member_opt body (js ''confirmationToken'')) data (en_gateNow env))
      (\<lambda>_. return (Admitted g JUndef data None)) s"
proof -
  have "dedupe_key cfg name JUndef data t = (Inr None, t)" for t by (simp add: dedupe_key_def)
  moreover have "dedupe_lookup now None t = (Inr None, t)" for now t
    by (simp add: dedupe_lookup_def split: option.splits prod.splits)
  ultimately show ?thesis
    using assms by (simp add: call_gates_def and_then_case find_glyph_def read_body_def lift_result_def return_def
        body_member_def check_input_def scope_gate_def missingScopes_def)
qed

lemma call_admits:
  assumes "call_gates cfg env name raw caller s = (Inr (Admitted g JUndef data None), s1)"
  shows "server_call cfg env name raw caller s = execute_call cfg env name g JUndef data None s1"
  using assms by (simp add: server_call_def and_then_case)

lemma call_refuses:
  "call_gates cfg env name raw caller s = (Inl e, s1) \<Longrightarrow> server_call cfg env name raw caller s = (Inl e, s1)"
  by (simp add: server_call_def and_then_case)

lemma call_bad_input:
  assumes "map_of (sv_glyphs s) name = Some g" "readJson (sc_maxBodyBytes cfg) raw = Inr body"
    and "js_member body (js ''callId'') = Some JUndef" "gd_inputSchema g (js_member_opt body (js ''input'')) = Inl issues"
  shows "server_call cfg env name raw caller s =
    (Inl (errorResponse 400 VALIDATION_FAILED (js ''Input validation failed'') issues), s)"
  using assms by (intro call_refuses) (simp add: call_gates_def and_then_case find_glyph_def read_body_def lift_result_def
      return_def body_member_def check_input_def throw_def)

lemma call_bad_json:
  assumes "map_of (sv_glyphs s) name = Some g" "readJson (sc_maxBodyBytes cfg) raw = Inl malformed_json"
  shows "server_call cfg env name raw caller s = (Inl malformed_json, s)"
  using assms by (intro call_refuses) (simp add: call_gates_def and_then_case find_glyph_def read_body_def lift_result_def throw_def)

end
