(* ===== verification/Conformance_Run.thy ===== *)
theory Conformance_Run
  imports Conformance_Server
begin

text \<open>
  A run of the four levels against the server of this repository: every check of \<open>levels/\<close> passes or
  is skipped, for any glyphs that are registered next to the fixtures.
\<close>

section \<open>The setting\<close>

type_synonym table = "(jstr, glyph_definition) omap"

text \<open>The server between two checks: the tables are as registered and no confirmation is pending.\<close>

definition in_order :: "table \<Rightarrow> (jstr, update_manifest) omap \<Rightarrow> server_state \<times> nat \<Rightarrow> bool" where
  "in_order G M p \<longleftrightarrow> sv_glyphs (fst p) = G \<and> sv_manifests (fst p) = M \<and> sv_confirmations (fst p) = []"

text \<open>
  What the suite relies on: an honest signer, room for the bodies it sends and for one confirmation,
  confirmation tokens, requests that follow each other within the life of a ticket, and cards that
  are JSON and verify.
\<close>

definition json_card :: "glyph_card \<Rightarrow> bool" where
  "json_card c \<longleftrightarrow> complete_card c \<and> (\<forall>d. json_ok (JObj (applyDepth c d)))"

definition served_card :: "crypto \<Rightarrow> jstr \<times> glyph_definition \<Rightarrow> bool" where
  "served_card C p \<longleftrightarrow> gc_name (gd_card (snd p)) = fst p \<and> verifyGlyph C (gd_card (snd p)) \<and> json_card (gd_card (snd p))"

definition site_ready :: "wire_schemas \<Rightarrow> site \<Rightarrow> jstr \<Rightarrow> jstr option \<Rightarrow> table \<Rightarrow> bool" where
  "site_ready W si base tok G \<longleftrightarrow>
     honest_signer (sc_crypto (si_cfg si)) (sc_signer (si_cfg si)) \<and>
     2000 \<le> sc_maxBodyBytes (si_cfg si) \<and> 1 \<le> sc_maxPending (si_cfg si) \<and>
     (\<forall>n. si_token si n \<noteq> [] \<and> length (si_token si n) \<le> 60 \<and>
        en_gateNow (si_env si (Suc n)) < en_gateNow (si_env si n) + CONFIRMATION_TTL_MS) \<and>
     published_schemas W \<and> reads_declared W (gd_card ` snd ` set G) (si_keys si) \<and> token_fits si tok \<and>
     routed si base (insert unknown_name (fst ` set G)) \<and>
     map_of G unknown_name = None \<and> (\<forall>p\<in>set G. json_card (gd_card (snd p))) \<and>
     (\<forall>k. si_keys si = Some k \<longrightarrow> (\<exists>r. k = Inr r \<and> verifyKeyRegistry (sc_crypto (si_cfg si)) r = Some True))"

definition in_front :: "(jstr \<Rightarrow> jstr) \<Rightarrow> site \<Rightarrow> jstr \<Rightarrow> table \<Rightarrow> (server_state \<times> nat) level_context \<Rightarrow> bool" where
  "in_front lower si base G ctx \<longleftrightarrow>
     lx_crypto ctx = sc_crypto (si_cfg si) \<and> lower (js ''authorization'') = js ''authorization'' \<and>
     lx_http ctx = buildHttp lower (server_fetch si) base (lx_authToken ctx) \<and>
     site_ready (lx_schemas ctx) si base (lx_authToken ctx) G \<and> list_all (served_card (lx_crypto ctx)) G \<and> omap_wf G"

section \<open>Requests\<close>

text \<open>The body of a request as the server reads it.\<close>

definition sent_body :: "jsval \<Rightarrow> raw_body" where
  "sent_body body = raw_of (case body of JUndef \<Rightarrow> None | JStr t \<Rightarrow> Some t | v \<Rightarrow> Some (ser v))"

lemma reads_value:
  assumes "json_ok (JObj kvs)" "length (ser (JObj kvs)) \<le> 500" "2000 \<le> limit"
  shows "readJson limit (sent_body (JObj kvs)) = Inr (js_norm (JObj kvs))"
proof -
  have "int (4 * length (ser (JObj kvs))) \<le> limit" using assms(2,3) by linarith
  from reads_text [OF this] json_roundtrip_base [OF json_ok_norm [OF assms(1)]]
  show ?thesis by (simp add: sent_body_def)
qed

lemma sends:
  assumes "in_front lower si base G ctx" "si_route si (js m) (base @ path) = Some r"
    and "\<And>s n. Ok (s, n) \<Longrightarrow>
      \<exists>a s'. handle_route si n r (sent_body body) s = (a, s') \<and> A (read_response a) \<and> Ok' (s', Suc n)"
  shows "triple (running Ok ns) (send ctx m path body []) (\<lambda>r p. A r \<and> running Ok' ns p)"
proof (rule triple_send)
  show "answers Ok (lx_http ctx (js m) path body []) (\<lambda>r s'. A r \<and> Ok' s')"
    unfolding answers_def
  proof (intro allI impI)
    fix p assume ok: "Ok p"
    obtain s n where p: "p = (s, n)" by fastforce
    from assms(3) ok p obtain a s' where a: "handle_route si n r (sent_body body) s = (a, s')"
      "A (read_response a)" "Ok' (s', Suc n)" by blast
    have "token_fits si (lx_authToken ctx)" using assms(1) by (simp add: in_front_def site_ready_def)
    moreover have "handle_route si n r (raw_of (cq_body (build_request lower base (lx_authToken ctx) (js m) path body []))) s = (a, s')"
      using a(1) by (simp add: build_request_def sent_body_def)
    ultimately have "lx_http ctx (js m) path body [] p = (Inr (read_response a), (s', Suc n))"
      using fetch_route [OF _ assms(2)] assms(1) by (simp add: in_front_def p)
    with a(2,3) show "\<exists>r s'. lx_http ctx (js m) path body [] p = (Inr r, s') \<and> A r \<and> Ok' s'" by blast
  qed
qed

text \<open>A route that only reads.\<close>

lemma sends_read:
  assumes "in_front lower si base G ctx" "si_route si (js m) (base @ path) = Some r"
    and "\<And>s n. in_order G M (s, n) \<Longrightarrow> \<exists>a. handle_route si n r (sent_body body) s = (a, s) \<and> A (read_response a)"
  shows "triple (running (in_order G M) ns) (send ctx m path body []) (\<lambda>r p. A r \<and> running (in_order G M) ns p)"
proof (rule sends [OF assms(1,2)])
  fix s n assume ok: "in_order G M (s, n)"
  from assms(3) [OF this] obtain a where "handle_route si n r (sent_body body) s = (a, s)" "A (read_response a)" by blast
  with ok show "\<exists>a s'. handle_route si n r (sent_body body) s = (a, s') \<and> A (read_response a) \<and> in_order G M (s', Suc n)"
    by (auto simp: in_order_def)
qed

lemma glyph_route:
  assumes "in_front lower si base G ctx" "name \<in> insert unknown_name (fst ` set G)"
  shows "\<exists>t. encodeURIComponent name = Some t \<and>
    (\<forall>(q, d)\<in>set depth_queries. si_route si (js ''GET'') (base @ js ''/glyphs/'' @ t @ js q) = Some (R_Card name (Some (js d)))) \<and>
    si_route si (js ''GET'') (base @ js ''/glyphs/'' @ t @ js ''/manifest'') = Some (R_Manifest name) \<and>
    si_route si (js ''POST'') (base @ js ''/glyphs/'' @ t @ js ''/prepare'') = Some (R_Prepare name) \<and>
    si_route si (js ''POST'') (base @ js ''/glyphs/'' @ t @ js ''/call'') = Some (R_Call name)"
proof -
  from assms(1) have "routed si base (insert unknown_name (fst ` set G))" by (simp add: in_front_def site_ready_def)
  then show ?thesis using assms(2) unfolding routed_def by blast
qed

lemma triple_path:
  "encodeURIComponent name = Some t \<Longrightarrow>
     triple (running Ok ns) (glyph_path name rest) (\<lambda>r p. r = js ''/glyphs/'' @ t @ js rest \<and> running Ok ns p)"
  unfolding glyph_path_def
  by (rule triple_bind [OF triple_encoded], assumption) (auto intro!: triple_pre triple_return)

lemma triple_get:
  assumes "encodeURIComponent name = Some t"
    and "triple (running Ok ns) (send ctx ''GET'' (js ''/glyphs/'' @ t @ js rest) JUndef []) Q"
  shows "triple (running Ok ns) (get_glyph ctx name rest) Q"
  unfolding get_glyph_def by (rule triple_bind [OF triple_path [OF assms(1)]]) (auto intro!: triple_pre assms(2))

lemma triple_post:
  assumes "encodeURIComponent name = Some t"
    and "triple (running Ok ns) (send ctx ''POST'' (js ''/glyphs/'' @ t @ js rest) body []) Q"
  shows "triple (running Ok ns) (post_glyph ctx name rest body) Q"
  unfolding post_glyph_def by (rule triple_bind [OF triple_path [OF assms(1)]]) (auto intro!: triple_pre assms(2))

section \<open>Refusals\<close>

lemma refuses_error:
  assumes "in_front lower si base G ctx" "er_status e = n" "code_str (er_code e) = code" "error_listed e"
    and "\<And>d. er_details e = Some d \<Longrightarrow> json_ok d"
  shows "refuses ctx n code (read_response (answer_with f (Inl e)))"
proof -
  have "ws_glyphError (lx_schemas ctx) = conforms glyph_error_schema"
    using assms(1) by (simp add: in_front_def site_ready_def published_schemas_def)
  then show ?thesis
    using assms(2-4) conforms_error [of e] json_ok_error [of e] assms(5)
    by (auto simp: refuses_def answer_with_def read_printed error_listed_def simp del: js_norm.simps)
      (auto simp: error_json_def own_value_def)
qed

section \<open>Discovery\<close>

definition ok_response :: "jsval \<Rightarrow> conf_response" where
  "ok_response v = \<lparr>cs_status = 200, cs_json = js_norm v\<rparr>"

lemma ok_printed: "json_ok v \<Longrightarrow> read_response (200, ser v) = ok_response v"
  by (simp add: ok_response_def read_printed)

lemma sends_ok:
  assumes "in_front lower si base G ctx" "si_route si (js m) (base @ path) = Some r" "json_ok v"
    and "\<And>s n. in_order G M (s, n) \<Longrightarrow> handle_route si n r (sent_body body) s = ((200, ser v), s)"
  shows "triple (running (in_order G M) ns) (send ctx m path body [])
    (\<lambda>r p. r = ok_response v \<and> running (in_order G M) ns p)"
  by (rule sends_read [OF assms(1,2)]) (use assms(3,4) ok_printed in fastforce)

lemma triple_health:
  assumes "in_front lower si base G ctx"
  shows "triple (running (in_order G M) ns) (discovery_health ctx) (\<lambda>_. running (in_order G M) ns)"
proof -
  have "si_route si (js ''GET'') (base @ js ''/health'') = Some R_Health"
    using assms by (simp add: in_front_def site_ready_def routed_def)
  note q = sends_ok [OF assms this json_ok_health, of M JUndef ns]
  show ?thesis
    unfolding discovery_health_def Let_def
    by (intro triple_try triple_bind [OF q] triple_pre triple_verdict)
       (simp_all add: answer_with_def ok_response_def health_json_def js_member_opt_def own_value_def)
qed

definition lexicon_of :: "table \<Rightarrow> lexicon_entry list" where
  "lexicon_of G = map (\<lambda>(name, g). toLexiconEntry (gd_card g)) G"

definition lexicon_value :: "table \<Rightarrow> jsval" where
  "lexicon_value G = JArr (map lexicon_entry_json (lexicon_of G))"

definition names_in :: "table \<Rightarrow> jsval list" where
  "names_in G = map (\<lambda>p. JStr (fst p)) G"

definition accepted :: "table \<Rightarrow> jstr \<Rightarrow> handshake_response" where
  "accepted G sid = \<lparr>hr_protocolVersion = PROTOCOL_VERSION, hr_sessionId = sid, hr_lexicon = lexicon_of G,
     hr_cardDepth = jlit ''standard'', hr_serverVersion = SERVER_VERSION\<rparr>"

lemma reads_handshake:
  assumes "in_front lower si base G ctx" "v \<in> {PROTOCOL_VERSION, js ''0.0-conformance-bogus''}"
  shows "readJson (sc_maxBodyBytes (si_cfg si)) (sent_body (handshake_body v)) = Inr (handshake_body v)"
proof -
  have "json_ok (handshake_body v)" by (auto simp: handshake_body_def wire_fields intro!: json_ok_intro)
  moreover have "length (ser (handshake_body v)) \<le> 500" using body_lengths(1,2) assms(2) by auto
  moreover have "2000 \<le> sc_maxBodyBytes (si_cfg si)" using assms(1) by (simp add: in_front_def site_ready_def)
  ultimately show ?thesis
    using reads_value [of "[(js ''protocolVersion'', JStr v), (js ''consumerId'', jlit ''glyph-conformance''),
      (js ''contextBudget'', JNum 50000), (js ''preferredCardDepth'', jlit ''standard'')]" "sc_maxBodyBytes (si_cfg si)"]
    by (simp add: handshake_body_def)
qed

lemma handshake_accepts:
  assumes "readJson (sc_maxBodyBytes cfg) raw = Inr (handshake_body PROTOCOL_VERSION)" "sv_glyphs s = G"
  shows "server_handshake cfg sid raw s = (Inr (accepted G sid), s)"
  using assms by (simp add: server_handshake_def and_then_case read_body_def lift_result_def return_def body_member_def
      handshake_body_def own_value_def js_member_opt_def Let_def accepted_def lexicon_of_def server_lexicon_def)

lemma triple_handshake:
  assumes "in_front lower si base G ctx"
  shows "triple (running (in_order G M) ns) (discovery_handshake ctx)
    (\<lambda>v p. v = js_norm (lexicon_value G) \<and> running (in_order G M) ns p)"
proof -
  have r: "si_route si (js ''POST'') (base @ js ''/handshake'') = Some R_Handshake"
    using assms by (simp add: in_front_def site_ready_def routed_def)
  have j: "json_ok (handshake_json (accepted G sid))" for sid
    by (intro json_ok_handshake) (simp add: accepted_def)
  have "triple (running (in_order G M) ns) (send ctx ''POST'' (js ''/handshake'') (handshake_body PROTOCOL_VERSION) [])
      (\<lambda>r p. (\<exists>sid. r = ok_response (handshake_json (accepted G sid))) \<and> running (in_order G M) ns p)"
  proof (rule sends_read [OF assms r])
    fix s n assume "in_order G M (s, n)"
    moreover have "readJson (sc_maxBodyBytes (si_cfg si)) (sent_body (handshake_body PROTOCOL_VERSION)) = Inr (handshake_body PROTOCOL_VERSION)"
      by (rule reads_handshake [OF assms]) simp
    ultimately have "handle_route si n R_Handshake (sent_body (handshake_body PROTOCOL_VERSION)) s
        = ((200, ser (handshake_json (accepted G (si_session si n)))), s)"
      using handshake_accepts [of "si_cfg si" "sent_body (handshake_body PROTOCOL_VERSION)" s G]
      by (simp add: in_order_def answer_with_def)
    then show "\<exists>a. handle_route si n R_Handshake (sent_body (handshake_body PROTOCOL_VERSION)) s = (a, s) \<and>
        (\<exists>sid. read_response a = ok_response (handshake_json (accepted G sid)))"
      using ok_printed [OF j] by blast
  qed
  note q = this
  have c: "ws_handshakeResponse (lx_schemas ctx) (js_norm (handshake_json (accepted G sid)))" for sid
    using assms conforms_handshake [of "accepted G sid"]
    by (simp add: in_front_def site_ready_def published_schemas_def accepted_def known_depth_def)
  have m: "js_member (js_norm (handshake_json (accepted G sid))) (js ''lexicon'') = Some (js_norm (lexicon_value G))" for sid
    by (simp add: handshake_json_def own_value_def lexicon_value_def accepted_def)
  show ?thesis
    unfolding discovery_handshake_def Let_def
    by (intro triple_try triple_bind [OF q] triple_pre) (auto simp: ok_response_def c intro!: triple_bind [OF triple_verdict] triple_member m)
qed

lemma triple_reject:
  assumes "in_front lower si base G ctx"
  shows "triple (running (in_order G M) ns) (discovery_reject ctx) (\<lambda>_. running (in_order G M) ns)"
proof -
  have r: "si_route si (js ''POST'') (base @ js ''/handshake'') = Some R_Handshake"
    using assms by (simp add: in_front_def site_ready_def routed_def)
  let ?b = "handshake_body (js ''0.0-conformance-bogus'')"
  let ?e = "errorResponse 426 PROTOCOL_VERSION_UNSUPPORTED (js ''This server speaks Glyph protocol '' @ PROTOCOL_VERSION)
    (JObj [(js ''serverProtocolVersion'', JStr PROTOCOL_VERSION), (js ''clientProtocolVersion'', jlit ''0.0-conformance-bogus'')])"
  have "refuses ctx 426 ''PROTOCOL_VERSION_UNSUPPORTED'' (read_response (answer_with handshake_json (Inl ?e)))"
    by (rule refuses_error [OF assms]) (auto simp: errorResponse_def error_listed_def wire_fields intro!: json_ok_intro)
  moreover have "handle_route si n R_Handshake (sent_body ?b) s = (answer_with handshake_json (Inl ?e), s)" for s n
    using reads_handshake [OF assms, of "js ''0.0-conformance-bogus''"]
    by (simp add: server_handshake_def and_then_case read_body_def lift_result_def return_def throw_def body_member_def
        handshake_body_def own_value_def PROTOCOL_VERSION_def)
  ultimately have "triple (running (in_order G M) ns) (send ctx ''POST'' (js ''/handshake'') ?b [])
      (\<lambda>r p. refuses ctx 426 ''PROTOCOL_VERSION_UNSUPPORTED'' r \<and> running (in_order G M) ns p)"
    by (intro sends_read [OF assms r]) blast
  then show ?thesis unfolding discovery_reject_def by (rule triple_refusal)
qed

lemma triple_lexicon:
  assumes "in_front lower si base G ctx"
  shows "triple (running (in_order G M) ns) (discovery_lexicon ctx (js_norm (lexicon_value G)))
    (\<lambda>v p. v = js_norm (lexicon_value G) \<and> running (in_order G M) ns p)"
proof -
  have r: "si_route si (js ''GET'') (base @ js ''/lexicon'') = Some R_Lexicon"
    using assms by (simp add: in_front_def site_ready_def routed_def)
  have j: "json_ok (lexicon_value G)" unfolding lexicon_value_def by (intro json_ok_arr) (auto intro: json_ok_lexicon)
  have "handle_route si n R_Lexicon (sent_body JUndef) s = ((200, ser (lexicon_value G)), s)" if "in_order G M (s, n)" for s n
    using that by (simp add: in_order_def answer_with_def lexicon_value_def lexicon_of_def server_lexicon_def)
  note q = sends_ok [OF assms r j this, of M ns]
  have w: "ws_lexiconEntry (lx_schemas ctx) = conforms lexicon_entry_schema"
    using assms by (simp add: in_front_def site_ready_def published_schemas_def)
  have l: "list_all (ws_lexiconEntry (lx_schemas ctx)) (map js_norm (map lexicon_entry_json (lexicon_of G)))"
    by (simp add: w list_all_iff)
  show ?thesis
    unfolding discovery_lexicon_def Let_def
    by (intro triple_try triple_bind [OF q] triple_pre)
       (use l in \<open>auto simp: ok_response_def lexicon_value_def intro!: triple_bind [OF triple_verdict] triple_return\<close>)
qed

lemma lexicon_names:
  assumes "list_all (served_card C) G"
  shows "entry_names (js_norm (lexicon_value G)) = Some (names_in G)"
proof -
  have m: "js_member (js_norm (lexicon_entry_json e)) (js ''name'') = Some (JStr (lx_name e))" for e
    by (simp add: lexicon_entry_json_def own_value_def)
  have "those (map (\<lambda>e. js_member (js_norm (lexicon_entry_json e)) (js ''name'')) (lexicon_of G)) = Some (names_in G)"
    using assms unfolding m
    by (induction G) (auto simp: lexicon_of_def names_in_def served_card_def toLexiconEntry_def)
  then show ?thesis by (simp add: entry_names_def lexicon_value_def comp_def)
qed

lemma triple_note_names:
  assumes "list_all (served_card C) G"
  shows "triple (running Ok ns) (note_names (js_norm (lexicon_value G)))
    (\<lambda>v p. v = names_in G \<and> running Ok (names_in G) p)"
  using lexicon_names [OF assms] by (simp add: triple_def note_names_def running_def)

section \<open>Cards\<close>

lemma ready_served:
  assumes "in_front lower si base G ctx"
  shows "list_all (served_card (lx_crypto ctx)) G" "omap_wf G" "map_of G unknown_name = None"
proof -
  show "list_all (served_card (lx_crypto ctx)) G" "omap_wf G" using assms unfolding in_front_def by blast+
  show "map_of G unknown_name = None" using assms unfolding in_front_def site_ready_def by blast
qed

lemma listed:
  assumes "in_front lower si base G ctx" "(name, g) \<in> set G"
  shows "map_of G name = Some g" "served_card (lx_crypto ctx) (name, g)" "name \<in> insert unknown_name (fst ` set G)"
  using ready_served [OF assms(1)] assms(2) by (auto simp: omap_wf_def list_all_iff intro: rev_image_eqI)

lemma triple_card_at:
  assumes "in_front lower si base G ctx" "(name, g) \<in> set G" "(q, d) \<in> set depth_queries" "depth_of (js d) = Some depth"
  shows "triple (running (in_order G M) ns) (get_glyph ctx name q)
    (\<lambda>r p. r = ok_response (JObj (applyDepth (gd_card g) depth)) \<and> running (in_order G M) ns p)"
proof -
  note l = listed [OF assms(1,2)]
  obtain t where t: "encodeURIComponent name = Some t"
    "si_route si (js ''GET'') (base @ js ''/glyphs/'' @ t @ js q) = Some (R_Card name (Some (js d)))"
    using glyph_route [OF assms(1) l(3)] assms(3) by fastforce
  have j: "json_ok (JObj (applyDepth (gd_card g) depth))" using l(2) by (simp add: served_card_def json_card_def)
  have "handle_route si n (R_Card name (Some (js d))) (sent_body JUndef) s = ((200, ser (JObj (applyDepth (gd_card g) depth))), s)"
    if "in_order G M (s, n)" for s n
    using that l(1) assms(4) by (simp add: in_order_def server_card_def answer_with_def)
  from triple_get [OF t(1) sends_ok [OF assms(1) _ j this]] t(2) show ?thesis by simp
qed

lemma triple_bogus_depth:
  assumes "in_front lower si base G ctx" "name \<in> insert unknown_name (fst ` set G)"
  shows "triple (running (in_order G M) ns) (get_glyph ctx name ''?depth=bogus'')
    (\<lambda>r p. refuses ctx 400 ''VALIDATION_FAILED'' r \<and> running (in_order G M) ns p)"
proof -
  obtain t where t: "encodeURIComponent name = Some t"
    "si_route si (js ''GET'') (base @ js ''/glyphs/'' @ t @ js ''?depth=bogus'') = Some (R_Card name (Some (js ''bogus'')))"
    using glyph_route [OF assms] by (fastforce simp: depth_queries_def)
  let ?e = "errorResponse 400 VALIDATION_FAILED (js ''Invalid depth value'')
    (JObj [(js ''field'', jlit ''depth''), (js ''expected'', jstrs [js ''minimal'', js ''standard'', js ''rich'']), (js ''got'', jlit ''bogus'')])"
  have "refuses ctx 400 ''VALIDATION_FAILED'' (read_response (answer_with JObj (Inl ?e)))"
    by (rule refuses_error [OF assms(1)]) (auto simp: errorResponse_def error_listed_def wire_fields intro!: json_ok_intro)
  moreover have "handle_route si n (R_Card name (Some (js ''bogus''))) (sent_body JUndef) s = (answer_with JObj (Inl ?e), s)" for s n
    by (simp add: server_card_def depth_of_def)
  ultimately show ?thesis
    by (intro triple_get [OF t(1)] sends_read [OF assms(1) t(2)]) blast
qed

lemma triple_depth:
  assumes "in_front lower si base G ctx"
  shows "triple (running (in_order G M) ns) (discovery_depth ctx (names_in G)) (\<lambda>_. running (in_order G M) ns)"
proof (cases G)
  case Nil
  from triple_refusal [OF triple_bogus_depth [OF assms insertI1]] show ?thesis
    unfolding discovery_depth_def Let_def by (simp add: Nil names_in_def)
next
  case (Cons p G')
  then have "fst p \<in> insert unknown_name (fst ` set G)" by simp
  from triple_refusal [OF triple_bogus_depth [OF assms this]] show ?thesis
    unfolding discovery_depth_def Let_def by (simp add: Cons names_in_def)
qed

lemma triple_notFound:
  assumes "in_front lower si base G ctx"
  shows "triple (running (in_order G M) ns) (discovery_notFound ctx) (\<lambda>_. running (in_order G M) ns)"
proof -
  have r: "si_route si (js ''GET'') (base @ js ''/glyphs/'' @ unknown_name) = Some (R_Card unknown_name None)"
    using assms by (simp add: in_front_def site_ready_def routed_def)
  let ?e = "errorResponse 404 NOT_FOUND (js ''Glyph not found'') JUndef"
  have "refuses ctx 404 ''NOT_FOUND'' (read_response (answer_with JObj (Inl ?e)))"
    by (rule refuses_error [OF assms]) (auto simp: errorResponse_def error_listed_def)
  moreover have "handle_route si n (R_Card unknown_name None) (sent_body JUndef) s = (answer_with JObj (Inl ?e), s)"
    if "in_order G M (s, n)" for s n
    using that ready_served(3) [OF assms] by (simp add: server_card_def in_order_def)
  ultimately show ?thesis
    unfolding discovery_notFound_def by (intro triple_refusal sends_read [OF assms r]) blast
qed

lemma triple_card:
  assumes "in_front lower si base G ctx"
  shows "triple (running (in_order G M) ns) (discovery_card ctx (names_in G)) (\<lambda>_. running (in_order G M) ns)"
proof (cases G)
  case Nil
  then show ?thesis unfolding discovery_card_def names_in_def
    by (auto intro!: triple_bind [OF triple_add] triple_add)
next
  case (Cons p G')
  obtain name g where p: "p = (name, g)" by fastforce
  have m: "(name, g) \<in> set G" by (simp add: Cons p)
  have q: "triple (running (in_order G M) ns) (get_glyph ctx name ''?depth=rich'')
      (\<lambda>r p. r = ok_response (JObj (card_fields (gd_card g))) \<and> running (in_order G M) ns p)"
    using triple_card_at [OF assms m, of "''?depth=rich''" "''rich''" Rich M ns]
    by (simp add: depth_queries_def depth_of_def applyDepth_def)
  have n: "names_in G = JStr name # names_in G'" by (simp add: names_in_def Cons p)
  have c: "ws_glyphCard (lx_schemas ctx) (js_norm (JObj (card_fields (gd_card g))))"
    "as_card (lx_schemas ctx) (js_norm (JObj (card_fields (gd_card g)))) = Some (gd_card g)"
    "verifyGlyph (lx_crypto ctx) (gd_card g)"
    using assms m listed(2) [OF assms m] conforms_card [of "gd_card g"]
    by (auto simp: in_front_def site_ready_def published_schemas_def reads_declared_def served_card_def json_card_def)
  have "triple (running (in_order G M) ns) (card_signature ctx n (js_norm (JObj (card_fields (gd_card g))))) (\<lambda>_. running (in_order G M) ns)" for n
    unfolding card_signature_def c(2) option.case by (rule triple_verdict [OF c(3)])
  with c(1) show ?thesis
    unfolding discovery_card_def Let_def n list.case js_to_string.simps
    by (intro triple_try triple_bind [OF q] triple_pre triple_bind [OF triple_verdict]) (simp_all add: ok_response_def)
qed

lemma triple_schema:
  assumes "in_front lower si base G ctx"
  shows "triple (running (in_order G M) ns) (discovery_schema ctx) (\<lambda>_. running (in_order G M) ns)"
proof -
  have "ws_sanitization (lx_schemas ctx) = conforms sanitization_schema"
    using assms by (simp add: in_front_def site_ready_def published_schemas_def)
  then show ?thesis
    unfolding discovery_schema_def Let_def
    by (intro triple_verdict) (simp add: sanitization_schema_def sample_sanitization_def conforms.simps(8,9))
qed

text \<open>The whole level: the names are those of the registered glyphs afterwards.\<close>

lemma triple_discovery:
  assumes "in_front lower si base G ctx"
  shows "triple (running (in_order G M) ns) (discoveryLevel ctx) (\<lambda>_. running (in_order G M) (names_in G))"
  unfolding discoveryLevel_def
  by (intro triple_bind [OF triple_health [OF assms]] triple_bind [OF triple_handshake [OF assms]] triple_pre)
     (auto intro!: triple_bind [OF triple_reject [OF assms]] triple_bind [OF triple_lexicon [OF assms]] triple_pre
        triple_bind [OF triple_note_names [OF ready_served(1) [OF assms]]] triple_bind [OF triple_card [OF assms]]
        triple_bind [OF triple_depth [OF assms]] triple_bind [OF triple_notFound [OF assms]] triple_schema [OF assms])

end
