(* ===== verification/Conformance_Levels.thy ===== *)
theory Conformance_Levels
  imports Conformance_Run
begin

text \<open>
  The levels execution, security and governance against the server: what a call answers, what a prepared
  ticket opens, and that every check of a level passes or is skipped.
\<close>

section \<open>Calls\<close>

text \<open>What the suite relies on of a declared fixture.\<close>

definition plain_call :: "glyph_definition \<Rightarrow> bool" where
  "plain_call g \<longleftrightarrow> \<not> co_requiresConfirmation (gc_cost (gd_card g)) \<and> gc_requiredScopes (gd_card g) = None"

definition value_body :: "jsval \<Rightarrow> (jstr \<times> jsval) list" where
  "value_body v = [(js ''value'', v)]"

definition takes_nothing :: "glyph_definition \<Rightarrow> bool" where
  "takes_nothing g \<longleftrightarrow> gd_inputSchema g (JObj []) = Inr (JObj [])"

definition echo_like :: "glyph_definition \<Rightarrow> bool" where
  "echo_like g \<longleftrightarrow> plain_call g \<and> (\<forall>v. gd_handler g v = Handler_Returns v) \<and>
     (\<forall>t. gd_inputSchema g (JObj (value_body (JStr t))) = Inr (JObj (value_body (JStr t))) \<and>
          gd_outputSchema g (JObj (value_body (JStr t))) = Inr (JObj (value_body (JStr t)))) \<and>
     (\<exists>issues. gd_inputSchema g (JObj (value_body (JNum 123))) = Inl issues \<and> json_ok issues)"

definition confirm_like :: "glyph_definition \<Rightarrow> bool" where
  "confirm_like g \<longleftrightarrow> co_requiresConfirmation (gc_cost (gd_card g)) \<and> gc_requiredScopes (gd_card g) = None \<and> takes_nothing g \<and>
     (\<exists>v b. gd_handler g (JObj []) = Handler_Returns v \<and> gd_outputSchema g v = Inr (JObj [(js ''ok'', JBool b)]))"

definition slow_like :: "glyph_definition \<Rightarrow> bool" where
  "slow_like g \<longleftrightarrow> plain_call g \<and> takes_nothing g \<and> gd_handler g (JObj []) = Handler_Times_Out"

definition invalid_like :: "glyph_definition \<Rightarrow> bool" where
  "invalid_like g \<longleftrightarrow> plain_call g \<and> takes_nothing g \<and>
     (\<exists>v issues. gd_handler g (JObj []) = Handler_Returns v \<and> gd_outputSchema g v = Inl issues \<and> json_ok issues)"

lemma reads_input:
  assumes "in_front lower si base G ctx" "kvs \<in> {[], value_body (jlit ''hello''), value_body (jlit ''x''), value_body (JNum 123)}"
  shows "readJson (sc_maxBodyBytes (si_cfg si)) (sent_body (input_body kvs)) = Inr (input_body kvs)"
proof -
  have "json_ok (input_body kvs)" using assms(2) by (auto simp: input_body_def value_body_def wire_fields intro!: json_ok_intro)
  moreover have "length (ser (input_body kvs)) \<le> 500" using body_lengths(3-6) assms(2) by (auto simp: value_body_def)
  moreover have "2000 \<le> sc_maxBodyBytes (si_cfg si)" using assms(1) by (simp add: in_front_def site_ready_def)
  ultimately have "readJson (sc_maxBodyBytes (si_cfg si)) (sent_body (input_body kvs)) = Inr (js_norm (input_body kvs))"
    unfolding input_body_def by (intro reads_value)
  moreover have "js_norm (input_body kvs) = input_body kvs" using assms(2) by (auto simp: input_body_def value_body_def)
  ultimately show ?thesis by simp
qed

lemma input_members:
  "js_member (input_body kvs) (js ''callId'') = Some JUndef" "js_member_opt (input_body kvs) (js ''input'') = JObj kvs"
  "js_member_opt (input_body kvs) (js ''confirmationToken'') = JUndef" "js_member (input_body kvs) (js ''input'') = Some (JObj kvs)"
  by (simp_all add: input_body_def js_member_opt_def own_value_def)

lemma plain_call_gates:
  assumes "map_of (sv_glyphs s) name = Some g" "readJson (sc_maxBodyBytes cfg) raw = Inr (input_body kvs)"
    and "gd_inputSchema g (JObj kvs) = Inr data" "plain_call g"
  shows "server_call cfg env name raw caller s = execute_call cfg env name g JUndef data None s"
proof -
  have "call_gates cfg env name raw caller s = (Inr (Admitted g JUndef data None), s)"
    using assms by (subst call_gates_eval [OF assms(1,2)])
      (simp_all add: input_members plain_call_def confirmation_gate_def and_then_case return_def)
  then show ?thesis by (rule call_admits)
qed

lemma sanitize_single:
  assumes "k \<noteq> js ''__proto__''" "field_name k" "is_jstring v \<or> (\<exists>b. v = JBool b)"
  shows "\<exists>w. fst (sanitize nfkc (JObj [(k, v)])) = JObj [(k, w)] \<and> json_ok (JObj [(k, w)])"
proof -
  have a: "js_assign_all [(k, w)] [] = [(k, w)]" for w
    using assms(1,2) by (simp add: js_assign_all_def js_assign_def field_name_def)
  have j: "json_ok (JObj [(k, w)])" if "json_ok w" for w using that assms(2) by (intro json_ok_obj) simp_all
  show ?thesis using assms(3)
    by (cases v) (auto simp: sanitize_def Let_def a j split: prod.splits)
qed

text \<open>The answer of an executed call, as the suite receives it.\<close>

definition good_answer :: "server_config \<Rightarrow> conf_response \<Rightarrow> bool" where
  "good_answer cfg r \<longleftrightarrow> (\<exists>e k v. r = ok_response (envelope_json e) \<and> se_payload e = JObj [(k, v)] \<and> counted (the (se_inspection e)) \<and>
     se_inspection e \<noteq> None \<and> (\<exists>x. se_receipt e = Some x \<and> verifyReceipt (sc_crypto cfg) x \<and> cr_clientCallId x = None))"

lemma answer_good:
  assumes "good_envelope cfg (JObj [(k, v)]) e" "k \<in> {js ''value'', js ''ok''}" "is_jstring v \<or> (\<exists>b. v = JBool b)"
  shows "good_answer cfg (read_response (answer_call (Inr (Sealed e))))"
proof -
  have "k \<noteq> js ''__proto__''" "field_name k" using assms(2) by (auto simp: wire_fields)
  from sanitize_single [OF this assms(3), of "sc_nfkc cfg"] assms(1) obtain w where
    p: "se_payload e = JObj [(k, w)]" "json_ok (JObj [(k, w)])" by (auto simp: good_envelope_def)
  have "json_ok (envelope_json e)"
    using assms(1) p by (intro json_ok_envelope) (auto simp: good_envelope_def)
  then have "read_response (answer_call (Inr (Sealed e))) = ok_response (envelope_json e)"
    by (simp add: answer_call_def answer_with_def ok_printed)
  with p assms(1) sanitize_counted [of "sc_nfkc cfg" "JObj [(k, v)]"] show ?thesis
    unfolding good_answer_def by (intro exI [of _ e] exI [of _ k] exI [of _ w]) (auto simp: good_envelope_def)
qed

lemma triple_call:
  assumes U: "in_front lower si base G ctx" and g: "(name, g) \<in> set G" "plain_call g"
    and b: "kvs \<in> {[], value_body (jlit ''hello''), value_body (jlit ''x''), value_body (JNum 123)}"
    and d: "gd_inputSchema g (JObj kvs) = Inr data"
    and A: "\<And>env s. map_of (sv_glyphs s) name = Some g \<Longrightarrow>
      \<exists>q s'. execute_call (si_cfg si) env name g JUndef data None s = (q, s') \<and> A (read_response (answer_call q)) \<and>
        sv_confirmations s' = sv_confirmations s \<and> same_tables s s'"
  shows "triple (running (in_order G M) ns) (post_glyph ctx name ''/call'' (input_body kvs))
    (\<lambda>r p. A r \<and> running (in_order G M) ns p)"
proof -
  note l = listed [OF U g(1)]
  obtain t where t: "encodeURIComponent name = Some t"
    "si_route si (js ''POST'') (base @ js ''/glyphs/'' @ t @ js ''/call'') = Some (R_Call name)"
    using glyph_route [OF U l(3)] by blast
  have "triple (running (in_order G M) ns) (send ctx ''POST'' (js ''/glyphs/'' @ t @ js ''/call'') (input_body kvs) [])
      (\<lambda>r p. A r \<and> running (in_order G M) ns p)"
  proof (rule sends [OF U])
    show "si_route si (js ''POST'') (base @ js ''/glyphs/'' @ t @ js ''/call'') = Some (R_Call name)" by (rule t(2))
    fix s n assume ok: "in_order G M (s, n)"
    then have m: "map_of (sv_glyphs s) name = Some g" using l(1) by (simp add: in_order_def)
    from A [OF m, of "si_env si n"] obtain q s' where
      q: "execute_call (si_cfg si) (si_env si n) name g JUndef data None s = (q, s')" "A (read_response (answer_call q))"
        "sv_confirmations s' = sv_confirmations s" "same_tables s s'" by blast
    then have "handle_route si n (R_Call name) (sent_body (input_body kvs)) s = (answer_call q, s')"
      using plain_call_gates [OF m reads_input [OF U b] d g(2)] by simp
    with q ok show "\<exists>a s'. handle_route si n (R_Call name) (sent_body (input_body kvs)) s = (a, s') \<and> A (read_response a) \<and>
        in_order G M (s', Suc n)"
      by (auto simp: in_order_def same_tables_def)
  qed
  then show ?thesis by (rule triple_post [OF t(1)])
qed

lemma ready_signer: "in_front lower si base G ctx \<Longrightarrow> honest_signer (sc_crypto (si_cfg si)) (sc_signer (si_cfg si))"
  by (simp add: in_front_def site_ready_def)

lemma triple_echo:
  assumes U: "in_front lower si base G ctx" and g: "(name, g) \<in> set G" "echo_like g" and b: "t \<in> {js ''hello'', js ''x''}"
  shows "triple (running (in_order G M) ns) (post_glyph ctx name ''/call'' (input_body [(js ''value'', JStr t)]))
    (\<lambda>r p. good_answer (si_cfg si) r \<and> running (in_order G M) ns p)"
proof -
  let ?d = "JObj (value_body (JStr t))"
  have "triple (running (in_order G M) ns) (post_glyph ctx name ''/call'' (input_body (value_body (JStr t))))
    (\<lambda>r p. good_answer (si_cfg si) r \<and> running (in_order G M) ns p)"
  proof (rule triple_call [OF U g(1)])
    show "plain_call g" "gd_inputSchema g ?d = Inr ?d" using g(2) by (auto simp: echo_like_def)
    show "value_body (JStr t) \<in> {[], value_body (jlit ''hello''), value_body (jlit ''x''), value_body (JNum 123)}" using b by auto
    fix env :: call_env and s :: server_state
    assume "map_of (sv_glyphs s) name = Some g"
    obtain e s' where e: "execute_call (si_cfg si) env name g JUndef ?d None s = (Inr (Sealed e), s')"
      "good_envelope (si_cfg si) ?d e" "sv_confirmations s' = sv_confirmations s" "same_tables s s'"
      using execute_succeeds [OF ready_signer [OF U], of ?d g ?d ?d env name s] g(2) by (auto simp: echo_like_def)
    have "good_answer (si_cfg si) (read_response (answer_call (Inr (Sealed e))))"
      using e(2) by (intro answer_good [of _ "js ''value''" "JStr t"]) (simp_all add: value_body_def)
    with e show "\<exists>q s'. execute_call (si_cfg si) env name g JUndef ?d None s = (q, s') \<and>
        good_answer (si_cfg si) (read_response (answer_call q)) \<and> sv_confirmations s' = sv_confirmations s \<and> same_tables s s'" by blast
  qed
  then show ?thesis by (simp add: value_body_def)
qed

text \<open>A handler that fails, and the refusal it causes.\<close>

lemma triple_failing:
  assumes U: "in_front lower si base G ctx" and g: "(name, g) \<in> set G" "plain_call g" "takes_nothing g"
    and f: "gd_handler g (JObj []) = Handler_Times_Out \<and> n = 504 \<and> code = ''HANDLER_TIMEOUT'' \<or>
      (\<exists>v issues. gd_handler g (JObj []) = Handler_Returns v \<and> gd_outputSchema g v = Inl issues \<and> json_ok issues \<and>
         n = 502 \<and> code = ''OUTPUT_VALIDATION_FAILED'')"
  shows "triple (running (in_order G M) ns) (post_glyph ctx name ''/call'' (input_body []))
    (\<lambda>r p. refuses ctx n code r \<and> running (in_order G M) ns p)"
proof (rule triple_call [OF U g(1,2)])
  show "gd_inputSchema g (JObj []) = Inr (JObj [])" using g(3) by (simp add: takes_nothing_def)
  fix env :: call_env and s :: server_state
  obtain issues where i: "gd_handler g (JObj []) = Handler_Times_Out \<or>
      (\<exists>v. gd_handler g (JObj []) = Handler_Returns v \<and> gd_outputSchema g v = Inl issues)"
    "gd_handler g (JObj []) \<noteq> Handler_Times_Out \<longrightarrow> json_ok issues" using f by auto
  obtain e s' where e: "execute_call (si_cfg si) env name g JUndef (JObj []) None s = (Inl e, s')"
    "sv_confirmations s' = sv_confirmations s" "same_tables s s'"
    "if gd_handler g (JObj []) = Handler_Times_Out then er_status e = 504 \<and> er_code e = HANDLER_TIMEOUT \<and> er_details e = None
     else er_status e = 502 \<and> er_code e = OUTPUT_VALIDATION_FAILED \<and> (\<forall>d. er_details e = Some d \<longrightarrow> d = issues)"
    using execute_fails [OF i(1)] by blast
  have "refuses ctx n code (read_response (answer_with envelope_json (Inl e)))"
    by (rule refuses_error [OF U]) (use e(4) f i(2) in \<open>auto simp: error_listed_def split: if_splits\<close>)
  then have "refuses ctx n code (read_response (answer_call (Inl e)))" by (simp add: answer_call_def)
  with e show "\<exists>q s'. execute_call (si_cfg si) env name g JUndef (JObj []) None s = (q, s') \<and>
      refuses ctx n code (read_response (answer_call q)) \<and> sv_confirmations s' = sv_confirmations s \<and> same_tables s s'" by blast
qed simp

section \<open>Execution\<close>

lemma envelope_members:
  "js_member (js_norm (envelope_json e)) (js ''type'') = Some (jlit ''data'')"
  "se_payload e = JObj kvs \<Longrightarrow> js_member (js_norm (envelope_json e)) (js ''payload'') = Some (js_norm (JObj kvs))"
  "se_receipt e = Some x \<Longrightarrow> js_member (js_norm (envelope_json e)) (js ''receipt'') = Some (js_norm (signed_receipt_json x))"
  "se_inspection e = Some y \<Longrightarrow> js_member (js_norm (envelope_json e)) (js ''inspection'') = Some (js_norm (sanitization_json y))"
  by (simp_all add: envelope_json_def)

lemma good_answer_valid:
  assumes U: "in_front lower si base G ctx" and r: "good_answer (si_cfg si) r"
  shows "cs_status r = 200 \<and> ws_sealedEnvelope (lx_schemas ctx) (cs_json r)"
proof -
  have W: "ws_sealedEnvelope (lx_schemas ctx) = conforms sealed_envelope_schema"
    using U by (simp add: in_front_def site_ready_def published_schemas_def)
  from r obtain e k v x y where e: "r = ok_response (envelope_json e)" "se_payload e = JObj [(k, v)]" "se_receipt e = Some x"
    "cr_clientCallId x = None" "se_inspection e = Some y" "counted y" by (auto simp: good_answer_def)
  then have "conforms sealed_envelope_schema (js_norm (envelope_json e))"
    by (intro conforms_envelope) (auto simp: string_call_id_def)
  with e(1) show ?thesis by (simp add: W ok_response_def)
qed

lemma triple_execution_call:
  assumes U: "in_front lower si base G ctx" and g: "(name, g) \<in> set G" "echo_like g"
  shows "triple (running (in_order G M) ns) (execution_call ctx name) (\<lambda>_. running (in_order G M) ns)"
proof -
  have W: "ws_sealedEnvelope (lx_schemas ctx) = conforms sealed_envelope_schema"
    "ws_sanitization (lx_schemas ctx) = conforms sanitization_schema" "lx_crypto ctx = sc_crypto (si_cfg si)"
    "\<And>x. cr_clientCallId x = None \<Longrightarrow> as_receipt (lx_schemas ctx) (js_norm (signed_receipt_json x)) = Some x"
    using U by (simp_all add: in_front_def site_ready_def published_schemas_def reads_declared_def)
  have main: "triple (running (in_order G M) ns) (execution_envelope ctx (js_norm (envelope_json e))) (\<lambda>_. running (in_order G M) ns)"
    if e: "se_payload e = JObj kvs" "se_receipt e = Some x" "verifyReceipt (sc_crypto (si_cfg si)) x" "cr_clientCallId x = None"
      "se_inspection e = Some y" "counted y" for e kvs x y
  proof -
    have rc: "triple (running (in_order G M) ns) (execution_receipt ctx (js_norm (envelope_json e))) (\<lambda>_. running (in_order G M) ns)"
      unfolding execution_receipt_def
      by (intro triple_try triple_bind [OF triple_member [OF envelope_members(3) [OF e(2)]]] triple_pre)
         (simp add: W e triple_verdict)
    have t: "js_truthy (js_norm (sanitization_json y))" by (simp add: sanitization_json_def)
    have s: "triple P (if jlit ''data'' = jlit ''data'' then and_then (member_of (js_norm (envelope_json e)) ''payload'')
        (\<lambda>v. return (is_typeof_object v)) else return False) (\<lambda>b p. b \<and> P p)" for P :: "(server_state \<times> nat) probe \<Rightarrow> bool"
      by simp (intro triple_bind [OF triple_member [OF envelope_members(2) [OF e(1)]]] triple_pre triple_return, simp)
    show ?thesis
      unfolding execution_envelope_def
      by (intro triple_bind [OF triple_member [OF envelope_members(1)]] triple_pre, simp only:)
         (intro triple_bind [OF s] triple_pre triple_bind [OF triple_verdict] triple_bind [OF rc]
            triple_bind [OF triple_member [OF envelope_members(4) [OF e(5)]]],
          simp_all add: W t conforms_sanitization [OF e(6)] triple_verdict)
  qed
  have "triple (running (in_order G M) ns) (execution_answered ctx name r) (\<lambda>_. running (in_order G M) ns)"
    if r: "good_answer (si_cfg si) r" for r
  proof -
    from r obtain e k v x y where e: "r = ok_response (envelope_json e)" "se_payload e = JObj [(k, v)]" "se_receipt e = Some x"
      "verifyReceipt (sc_crypto (si_cfg si)) x" "cr_clientCallId x = None" "se_inspection e = Some y" "counted y"
      by (auto simp: good_answer_def)
    from good_answer_valid [OF U r] main [OF e(2-7)] show ?thesis
      unfolding execution_answered_def Let_def by (intro triple_bind [OF triple_verdict]) (simp_all add: e(1) ok_response_def)
  qed
  then show ?thesis
    unfolding execution_call_def by (intro triple_try triple_bind [OF triple_echo [OF U g]] triple_pre) simp_all
qed

text \<open>The input is checked before anything runs.\<close>

lemma triple_call_error:
  assumes U: "in_front lower si base G ctx" and g: "(name, g) \<in> set G"
    and e: "\<And>s env. map_of (sv_glyphs s) name = Some g \<Longrightarrow> sv_confirmations s = [] \<Longrightarrow>
      server_call (si_cfg si) env name (sent_body body) (si_caller si) s = (Inl e, s)"
    and R: "refuses ctx n code (read_response (answer_with envelope_json (Inl e)))"
  shows "triple (running (in_order G M) ns) (post_glyph ctx name ''/call'' body)
    (\<lambda>r p. refuses ctx n code r \<and> running (in_order G M) ns p)"
proof -
  note l = listed [OF U g]
  obtain t where t: "encodeURIComponent name = Some t"
    "si_route si (js ''POST'') (base @ js ''/glyphs/'' @ t @ js ''/call'') = Some (R_Call name)"
    using glyph_route [OF U l(3)] by blast
  have "handle_route si n (R_Call name) (sent_body body) s = (answer_call (Inl e), s)" if "in_order G M (s, n)" for s n
    using that l(1) e [of s "si_env si n"] by (simp add: in_order_def)
  then have "triple (running (in_order G M) ns) (send ctx ''POST'' (js ''/glyphs/'' @ t @ js ''/call'') body [])
      (\<lambda>r p. refuses ctx n code r \<and> running (in_order G M) ns p)"
    using R by (intro sends_read [OF U t(2)]) (auto simp: answer_call_def)
  then show ?thesis by (rule triple_post [OF t(1)])
qed

lemma triple_invalid_input:
  assumes U: "in_front lower si base G ctx" and g: "(name, g) \<in> set G" "echo_like g"
  shows "triple (running (in_order G M) ns) (post_glyph ctx name ''/call'' (input_body [(js ''value'', JNum 123)]))
    (\<lambda>r p. refuses ctx 400 ''VALIDATION_FAILED'' r \<and> running (in_order G M) ns p)"
proof -
  from g(2) obtain issues where i: "gd_inputSchema g (JObj [(js ''value'', JNum 123)]) = Inl issues" "json_ok issues"
    by (auto simp: echo_like_def value_body_def)
  let ?e = "errorResponse 400 VALIDATION_FAILED (js ''Input validation failed'') issues"
  have "readJson (sc_maxBodyBytes (si_cfg si)) (sent_body (input_body [(js ''value'', JNum 123)])) = Inr (input_body [(js ''value'', JNum 123)])"
    using reads_input [OF U, of "value_body (JNum 123)"] by (simp add: value_body_def)
  note b = call_bad_input [OF _ this]
  show ?thesis
  proof (rule triple_call_error [OF U g(1)])
    show "refuses ctx 400 ''VALIDATION_FAILED'' (read_response (answer_with envelope_json (Inl ?e)))"
      by (rule refuses_error [OF U]) (use i(2) in \<open>auto simp: errorResponse_def error_listed_def split: if_splits\<close>)
    show "server_call (si_cfg si) env name (sent_body (input_body [(js ''value'', JNum 123)])) (si_caller si) s = (Inl ?e, s)"
      if "map_of (sv_glyphs s) name = Some g" for s env
      by (rule b [OF that]) (simp_all add: input_members i(1))
  qed
qed

lemma not_json: "readJson limit (sent_body (jlit ''{not json'')) = Inl malformed_json" if "2000 \<le> limit"
proof -
  have "json_parse (js ''{not json'') = None" by (simp add: json_parse_eval)
  then show ?thesis using that reads_text [of "js ''{not json''" limit] by (simp add: sent_body_def js_def)
qed

lemma triple_malformed:
  assumes U: "in_front lower si base G ctx" and g: "(name, g) \<in> set G"
  shows "triple (running (in_order G M) ns) (post_glyph ctx name ''/call'' (jlit ''{not json''))
    (\<lambda>r p. refuses ctx 400 ''MALFORMED_JSON'' r \<and> running (in_order G M) ns p)"
proof (rule triple_call_error [OF U g])
  show "refuses ctx 400 ''MALFORMED_JSON'' (read_response (answer_with envelope_json (Inl malformed_json)))"
    by (rule refuses_error [OF U]) (auto simp: malformed_json_def errorResponse_def error_listed_def)
  have "2000 \<le> sc_maxBodyBytes (si_cfg si)" using U by (simp add: in_front_def site_ready_def)
  then show "server_call (si_cfg si) env name (sent_body (jlit ''{not json'')) (si_caller si) s = (Inl malformed_json, s)"
    if "map_of (sv_glyphs s) name = Some g" for s env
    by (intro call_bad_json [OF that] not_json)
qed

text \<open>A fixture is skipped, or it is among the registered glyphs.\<close>

definition fixture_fits :: "jstr option \<Rightarrow> table \<Rightarrow> (glyph_definition \<Rightarrow> bool) \<Rightarrow> bool" where
  "fixture_fits fx G Q \<longleftrightarrow> (\<forall>name g. fx = Some name \<and> (name, g) \<in> set G \<longrightarrow> Q g)"

lemma triple_with_fixture:
  assumes "fixture_fits fx G Q" "triple (running Ok (names_in G)) skip (\<lambda>_. running Ok (names_in G))"
    and "\<And>name g. (name, g) \<in> set G \<Longrightarrow> Q g \<Longrightarrow> triple (running Ok (names_in G)) (run name) (\<lambda>_. running Ok (names_in G))"
  shows "triple (running Ok (names_in G)) (with_fixture fx skip run) (\<lambda>_. running Ok (names_in G))"
  unfolding with_fixture_def
proof (intro triple_bind [OF triple_names] triple_pre)
  fix names assume n: "names = names_in G"
  show "triple (running Ok (names_in G)) (if \<not> truthy fx \<or> JStr (the fx) \<notin> set names then skip else run (the fx)) (\<lambda>_. running Ok (names_in G))"
  proof (cases "\<not> truthy fx \<or> JStr (the fx) \<notin> set names")
    case False
    then obtain g where "(the fx, g) \<in> set G" "fx = Some (the fx)" by (auto simp: n names_in_def truthy_iff)
    moreover from this have "Q g" using assms(1) unfolding fixture_fits_def by blast
    ultimately show ?thesis using assms(3) False by simp
  qed (use assms(2) in simp)
qed

definition fixtures_fit :: "fixture_glyphs \<Rightarrow> table \<Rightarrow> bool" where
  "fixtures_fit fx G \<longleftrightarrow> fixture_fits (fx_echo fx) G echo_like \<and> fixture_fits (fx_requiresConfirmation fx) G confirm_like \<and>
     fixture_fits (fx_slow fx) G slow_like \<and> fixture_fits (fx_invalidOutput fx) G invalid_like"

lemma triple_execution:
  assumes U: "in_front lower si base G ctx" and fx: "fixtures_fit (lx_fixtures ctx) G"
  shows "triple (running (in_order G M) (names_in G)) (executionLevel ctx) (\<lambda>_. running (in_order G M) (names_in G))"
  unfolding executionLevel_def
proof (intro triple_bind [OF triple_with_fixture] triple_with_fixture)
  show "fixture_fits (fx_echo (lx_fixtures ctx)) G echo_like" "fixture_fits (fx_invalidOutput (lx_fixtures ctx)) G invalid_like"
    using fx by (simp_all add: fixtures_fit_def)
  show "triple (running (in_order G M) (names_in G)) (execution_echo ctx name) (\<lambda>_. running (in_order G M) (names_in G))"
    if "(name, g) \<in> set G" "echo_like g" for name g
    unfolding execution_echo_def
    by (rule triple_bind [OF triple_execution_call [OF U that]], rule triple_bind [OF triple_refusal [OF triple_invalid_input [OF U that]]],
        rule triple_refusal [OF triple_malformed [OF U that(1)]])
  show "triple (running (in_order G M) (names_in G))
      (expect_refusal ctx Execution ''execution.call.outputValidation'' (post_glyph ctx name ''/call'' (input_body [])) 502
         ''OUTPUT_VALIDATION_FAILED'' ''mismatched handler output'') (\<lambda>_. running (in_order G M) (names_in G))"
    if "(name, g) \<in> set G" "invalid_like g" for name g
    by (rule triple_refusal [OF triple_failing [OF U that(1)]]) (use that(2) in \<open>auto simp: invalid_like_def\<close>)
qed (rule triple_add_all triple_add; simp)+

section \<open>Governance\<close>

lemma norm_member:
  "distinct (map fst kvs) \<Longrightarrow> js_member_opt (js_norm (JObj kvs)) k
     = (if own_value kvs k = JUndef then JUndef else js_norm (own_value kvs k))"
  using map_of_norm [of kvs k] by (simp add: js_member_opt_def own_value_def)

lemma triple_governance_depth:
  assumes U: "in_front lower si base G ctx" and g: "(name, g) \<in> set G"
  shows "triple (running (in_order G M) ns) (governance_depth ctx (JStr name)) (\<lambda>_. running (in_order G M) ns)"
proof (cases "name = []")
  case False
  let ?id = "\<lambda>d. js_member_opt (js_norm (JObj (applyDepth (gd_card g) d))) (js ''id'')"
  have i: "?id d = JStr (gc_id (gd_card g))" for d
  proof -
    have "distinct (map fst (applyDepth (gd_card g) d))" "own_value (applyDepth (gd_card g) d) (js ''id'') = JStr (gc_id (gd_card g))"
      by (cases d; simp add: applyDepth_def card_fields_def canonical_fields_def Let_def)+
    then show ?thesis by (simp only: norm_member) simp
  qed
  have q: "triple (running (in_order G M) ns) (get_glyph ctx name q) (\<lambda>r p. r = ok_response (JObj (applyDepth (gd_card g) d)) \<and> running (in_order G M) ns p)"
    if "(q, k) \<in> set depth_queries" "depth_of (js k) = Some d" for q k d by (rule triple_card_at [OF U g that])
  have "triple (running (in_order G M) ns) (get_glyph ctx name ''?depth=minimal'') (\<lambda>r p. r = ok_response (JObj (applyDepth (gd_card g) Minimal)) \<and> running (in_order G M) ns p)"
    "triple (running (in_order G M) ns) (get_glyph ctx name ''?depth=standard'') (\<lambda>r p. r = ok_response (JObj (applyDepth (gd_card g) Standard)) \<and> running (in_order G M) ns p)"
    "triple (running (in_order G M) ns) (get_glyph ctx name ''?depth=rich'') (\<lambda>r p. r = ok_response (JObj (applyDepth (gd_card g) Rich)) \<and> running (in_order G M) ns p)"
    by (rule q [of _ "''minimal''"] q [of _ "''standard''"] q [of _ "''rich''"]; simp add: depth_queries_def depth_of_def)+
  note q3 = this
  show ?thesis
    unfolding governance_depth_def Let_def
    by (simp add: False del: js_norm.simps)
       (intro triple_try triple_bind [OF q3(1)] triple_pre triple_bind [OF q3(2)] triple_bind [OF q3(3)] triple_verdict,
        simp add: ok_response_def i del: js_norm.simps)
qed (simp add: governance_depth_def triple_add)

lemma triple_governance_manifest:
  assumes U: "in_front lower si base G ctx" and g: "(name, g) \<in> set G"
  shows "triple (running (in_order G M) ns) (governance_manifest ctx (JStr name)) (\<lambda>_. running (in_order G M) ns)"
proof (cases "name = []")
  case False
  note l = listed [OF U g]
  obtain t where t: "encodeURIComponent name = Some t"
    "si_route si (js ''GET'') (base @ js ''/glyphs/'' @ t @ js ''/manifest'') = Some (R_Manifest name)"
    using glyph_route [OF U l(3)] by blast
  have W: "ws_updateManifest (lx_schemas ctx) = conforms update_manifest_schema"
    using U by (simp add: in_front_def site_ready_def published_schemas_def)
  let ?A = "\<lambda>r. cs_status r = 404 \<or> cs_status r = 200 \<and> ws_updateManifest (lx_schemas ctx) (cs_json r)"
  have "?A (read_response (answer_with signed_manifest_json (server_manifest name s)))" if "map_of (sv_glyphs s) name = Some g" for s
  proof (cases "map_of (sv_manifests s) name")
    case None
    then show ?thesis using that by (simp add: server_manifest_def answer_with_def read_response_def errorResponse_def)
  next
    case (Some m)
    then have "server_manifest name s = Inr m" using that by (simp add: server_manifest_def)
    then show ?thesis
      using conforms_manifest [of m] by (simp add: answer_with_def ok_printed [OF json_ok_manifest] ok_response_def W)
  qed
  then have "triple (running (in_order G M) ns) (send ctx ''GET'' (js ''/glyphs/'' @ t @ js ''/manifest'') JUndef [])
      (\<lambda>r p. ?A r \<and> running (in_order G M) ns p)"
    using l(1) by (intro sends_read [OF U t(2)]) (simp add: in_order_def)
  note q = triple_get [OF t(1) this]
  show ?thesis
    unfolding governance_manifest_def
    by (simp add: False) (intro triple_try triple_bind [OF q] triple_pre, auto intro!: triple_add triple_verdict)
qed (simp add: governance_manifest_def triple_add)

lemma triple_governance_keys:
  assumes U: "in_front lower si base G ctx"
  shows "triple (running (in_order G M) ns) (governance_keys ctx) (\<lambda>_. running (in_order G M) ns)"
proof -
  have r: "si_route si (js ''GET'') (base @ js ''/keys'') = Some R_Keys"
    using U by (simp add: in_front_def site_ready_def routed_def)
  let ?A = "\<lambda>r. cs_status r = 404 \<or> cs_status r = 200 \<and> (\<exists>k. as_registry (lx_schemas ctx) (cs_json r) = Some k \<and>
     verifyKeyRegistry (lx_crypto ctx) k = Some True)"
  have "?A (read_response (answer_with registry_json (server_keys (si_keys si))))"
  proof (cases "si_keys si")
    case (Some x)
    then obtain k where k: "x = Inr k" "verifyKeyRegistry (sc_crypto (si_cfg si)) k = Some True"
      "as_registry (lx_schemas ctx) (js_norm (registry_json k)) = Some k"
      using U by (auto simp: in_front_def site_ready_def reads_declared_def)
    with U Some show ?thesis
      by (simp add: server_keys_def answer_with_def ok_printed json_ok_registry ok_response_def in_front_def)
  qed (simp add: server_keys_def answer_with_def read_response_def errorResponse_def)
  then have q: "triple (running (in_order G M) ns) (send ctx ''GET'' (js ''/keys'') JUndef []) (\<lambda>r p. ?A r \<and> running (in_order G M) ns p)"
    by (intro sends_read [OF U r]) simp
  have v: "triple P (registry_verifies ctx v) (\<lambda>b p. b \<and> P p)"
    if "as_registry (lx_schemas ctx) v = Some k" "verifyKeyRegistry (lx_crypto ctx) k = Some True"
    for v k and P :: "(server_state \<times> nat) probe \<Rightarrow> bool"
    using that by (simp add: registry_verifies_def triple_return)
  have "triple (running (in_order G M) ns) (keys_answered ctx r) (\<lambda>_. running (in_order G M) ns)" if "?A r" for r
    using that unfolding keys_answered_def Let_def
    by (auto intro!: triple_add triple_bind [OF v] triple_pre triple_verdict)
  then show ?thesis unfolding governance_keys_def by (intro triple_try triple_bind [OF q] triple_pre)
qed

lemma triple_governance:
  assumes U: "in_front lower si base G ctx"
  shows "triple (running (in_order G M) (names_in G)) (governanceLevel ctx) (\<lambda>_. running (in_order G M) (names_in G))"
  unfolding governanceLevel_def Let_def
proof (intro triple_bind [OF triple_names] triple_pre)
  fix names assume n: "names = names_in G"
  let ?name = "case names of [] \<Rightarrow> JUndef | m # _ \<Rightarrow> m"
  have "triple (running (in_order G M) ns) (governance_depth ctx ?name) (\<lambda>_. running (in_order G M) ns) \<and>
      triple (running (in_order G M) ns) (governance_manifest ctx ?name) (\<lambda>_. running (in_order G M) ns)" for ns
  proof (cases G)
    case (Cons p G')
    have "(fst p, snd p) \<in> set G" by (simp add: Cons)
    with triple_governance_depth [OF U this] triple_governance_manifest [OF U this] show ?thesis by (simp add: n names_in_def Cons)
  qed (simp add: n names_in_def governance_depth_def governance_manifest_def triple_add)
  then show "triple (running (in_order G M) (names_in G)) (and_then (governance_depth ctx ?name) (\<lambda>_.
       and_then (governance_manifest ctx ?name) (\<lambda>_. governance_keys ctx))) (\<lambda>_. running (in_order G M) (names_in G))"
    by (auto intro!: triple_bind triple_governance_keys [OF U])
qed

section \<open>Security\<close>

lemma confirm_body_read:
  assumes U: "in_front lower si base G ctx" and "length t \<le> 60"
  shows "readJson (sc_maxBodyBytes (si_cfg si)) (sent_body (confirm_body (JStr t))) = Inr (confirm_body (JStr t))"
proof -
  have q: "length (quote_json t) \<le> 362" using escape_units_length [of t] assms(2) by (simp add: quote_json_def)
  have l: "length (ser (confirm_body (JStr t))) = 33 + length (quote_json t)"
    by (simp add: confirm_body_def quote_json_def js_def uc_def escape_unit_def is_high_def is_low_def)
  have "json_ok (confirm_body (JStr t))" by (auto simp: confirm_body_def wire_fields intro!: json_ok_intro)
  moreover have "length (ser (confirm_body (JStr t))) \<le> 500" using q l by simp
  moreover have "2000 \<le> sc_maxBodyBytes (si_cfg si)" using U by (simp add: in_front_def site_ready_def)
  ultimately have "readJson (sc_maxBodyBytes (si_cfg si)) (sent_body (confirm_body (JStr t))) = Inr (js_norm (confirm_body (JStr t)))"
    unfolding confirm_body_def by (intro reads_value)
  then show ?thesis by (simp add: confirm_body_def)
qed

lemma confirm_members:
  "js_member (confirm_body v) (js ''callId'') = Some JUndef" "js_member_opt (confirm_body v) (js ''input'') = JObj []"
  "js_member_opt (confirm_body v) (js ''confirmationToken'') = v"
  by (simp_all add: confirm_body_def js_member_opt_def own_value_def)

lemma triple_required:
  assumes U: "in_front lower si base G ctx" and g: "(name, g) \<in> set G" "confirm_like g"
  shows "triple (running (in_order G M) ns) (post_glyph ctx name ''/call'' (input_body []))
    (\<lambda>r p. refuses ctx 403 ''CONFIRMATION_REQUIRED'' r \<and> running (in_order G M) ns p)"
proof (rule triple_call_error [OF U g(1)])
  show "refuses ctx 403 ''CONFIRMATION_REQUIRED'' (read_response (answer_with envelope_json (Inl (confirmation_required name g))))"
    by (rule refuses_error [OF U])
       (auto simp: confirmation_required_def errorResponse_def error_listed_def wire_fields intro!: json_ok_intro)
  show "server_call (si_cfg si) env name (sent_body (input_body [])) (si_caller si) s = (Inl (confirmation_required name g), s)"
    if "map_of (sv_glyphs s) name = Some g" for s env
    using g(2) reads_input [OF U, of "[]"]
      call_gates_eval [OF that, of "si_cfg si" "sent_body (input_body [])" "input_body []" "JObj []" env "si_caller si"]
    by (intro call_refuses)
       (simp add: input_members takes_nothing_def confirm_like_def confirmation_gate_def and_then_case throw_def)
qed

lemma triple_bogus_token:
  assumes U: "in_front lower si base G ctx" and g: "(name, g) \<in> set G" "confirm_like g"
  shows "triple (running (in_order G M) ns) (post_glyph ctx name ''/call'' (confirm_body (jlit ''not-a-real-token'')))
    (\<lambda>r p. refuses ctx 403 ''INVALID_CONFIRMATION'' r \<and> running (in_order G M) ns p)"
proof (rule triple_call_error [OF U g(1)])
  let ?e = "invalid_confirmation ''Unknown or already-consumed confirmation token''"
  show "refuses ctx 403 ''INVALID_CONFIRMATION'' (read_response (answer_with envelope_json (Inl ?e)))"
    by (rule refuses_error [OF U]) (auto simp: invalid_confirmation_def errorResponse_def error_listed_def)
  show "server_call (si_cfg si) env name (sent_body (confirm_body (jlit ''not-a-real-token''))) (si_caller si) s = (Inl ?e, s)"
    if "map_of (sv_glyphs s) name = Some g" "sv_confirmations s = []" for s env
  proof (rule call_refuses)
    have "readJson (sc_maxBodyBytes (si_cfg si)) (sent_body (confirm_body (jlit ''not-a-real-token''))) = Inr (confirm_body (jlit ''not-a-real-token''))"
      by (rule confirm_body_read [OF U]) (simp add: js_def)
    from call_gates_eval [OF that(1) this, of "JObj []" env "si_caller si"]
    show "call_gates (si_cfg si) env name (sent_body (confirm_body (jlit ''not-a-real-token''))) (si_caller si) s = (Inl ?e, s)"
      using g(2) that(2)
      by (simp add: confirm_members confirm_like_def takes_nothing_def confirmation_gate_def and_then_case consume_token_def
          confirmation_consume_def throw_def)
  qed
qed

text \<open>The ticket of request \<open>n\<close>, and the state in which it waits for request \<open>n + 1\<close>.\<close>

definition issued_ticket :: "site \<Rightarrow> nat \<Rightarrow> glyph_definition \<Rightarrow> confirmation_ticket" where
  "issued_ticket si n g = \<lparr>ct_confirmationToken = si_token si n, ct_glyphId = gc_id (gd_card g), ct_name = gc_name (gd_card g),
     ct_cost = gc_cost (gd_card g), ct_input = JObj [], ct_expiresAt = iso_string (en_gateNow (si_env si n) + CONFIRMATION_TTL_MS)\<rparr>"

definition waiting :: "site \<Rightarrow> nat \<Rightarrow> jstr \<Rightarrow> table \<Rightarrow> (jstr, update_manifest) omap \<Rightarrow> server_state \<times> nat \<Rightarrow> bool" where
  "waiting si n name G M p \<longleftrightarrow> snd p = Suc n \<and> sv_glyphs (fst p) = G \<and> sv_manifests (fst p) = M \<and>
     (\<exists>h. canonicalHash (sc_crypto (si_cfg si)) (JObj []) = Some h \<and>
        sv_confirmations (fst p) = [(si_token si n, \<lparr>pc_glyphName = name, pc_inputHash = h,
          pc_expiresAt = en_gateNow (si_env si n) + CONFIRMATION_TTL_MS\<rparr>)])"

lemma prepare_issues:
  assumes U: "in_front lower si base G ctx" and g: "(name, g) \<in> set G" "confirm_like g" and ok: "in_order G M (s, n)"
  shows "\<exists>s'. server_prepare (si_cfg si) (si_token si n) (en_gateNow (si_env si n)) name (sent_body (input_body [])) (si_caller si) s
      = (Inr (issued_ticket si n g), s') \<and> waiting si n name G M (s', Suc n)"
proof -
  obtain h where h: "canonicalHash (sc_crypto (si_cfg si)) (JObj []) = Some h" by (simp add: canonicalHash_Some)
  have m: "map_of (sv_glyphs s) name = Some g" using listed(1) [OF U g(1)] ok by (simp add: in_order_def)
  have p: "1 \<le> sc_maxPending (si_cfg si)" using U by (simp add: in_front_def site_ready_def)
  have c: "sv_confirmations s = []" using ok by (simp add: in_order_def)
  let ?s = "s\<lparr>sv_confirmations := [(si_token si n, \<lparr>pc_glyphName = name, pc_inputHash = h,
      pc_expiresAt = en_gateNow (si_env si n) + CONFIRMATION_TTL_MS\<rparr>)]\<rparr>"
  have "server_prepare (si_cfg si) (si_token si n) (en_gateNow (si_env si n)) name (sent_body (input_body [])) (si_caller si) s
      = (Inr (issued_ticket si n g), ?s)"
    using m g(2) c p h reads_input [OF U, of "[]"]
    by (simp add: server_prepare_def and_then_case find_glyph_def read_body_def lift_result_def return_def body_member_def
        input_members check_input_def confirm_like_def takes_nothing_def scope_gate_def missingScopes_def prepare_room_def
        confirmation_sweep_def Let_def hash_of_def put_ticket_def issued_ticket_def confirmation_put_def)
  moreover have "waiting si n name G M (?s, Suc n)" using ok h by (simp add: waiting_def in_order_def)
  ultimately show ?thesis by blast
qed

lemma ticket_unlocks:
  assumes U: "in_front lower si base G ctx" and g: "(name, g) \<in> set G" "confirm_like g" and w: "waiting si n name G M (s, k)"
  shows "\<exists>e s'. server_call (si_cfg si) (si_env si k) name (sent_body (confirm_body (JStr (si_token si n)))) (si_caller si) s
      = (Inr (Sealed e), s') \<and> good_answer (si_cfg si) (read_response (answer_call (Inr (Sealed e)))) \<and> in_order G M (s', Suc k)"
proof -
  let ?raw = "sent_body (confirm_body (JStr (si_token si n)))"
  have k: "k = Suc n" using w by (simp add: waiting_def)
  have t: "si_token si n \<noteq> []" "length (si_token si n) \<le> 60"
    "en_gateNow (si_env si (Suc n)) < en_gateNow (si_env si n) + CONFIRMATION_TTL_MS"
    using U by (simp_all add: in_front_def site_ready_def)
  have m: "map_of (sv_glyphs s) name = Some g" using listed(1) [OF U g(1)] w by (simp add: waiting_def)
  let ?s = "s\<lparr>sv_confirmations := []\<rparr>"
  have "call_gates (si_cfg si) (si_env si k) name ?raw (si_caller si) s = (Inr (Admitted g JUndef (JObj []) None), ?s)"
    using g(2) w t k
    by (subst call_gates_eval [OF m confirm_body_read [OF U t(2)]])
       (auto simp: confirm_members confirm_like_def takes_nothing_def confirmation_gate_def and_then_case consume_token_def
          confirmation_consume_def omap_delete_def ticket_matches_def hash_of_def return_def waiting_def)
  then have c: "server_call (si_cfg si) (si_env si k) name ?raw (si_caller si) s
      = execute_call (si_cfg si) (si_env si k) name g JUndef (JObj []) None ?s" by (rule call_admits)
  from g(2) obtain v b where v: "gd_handler g (JObj []) = Handler_Returns v" "gd_outputSchema g v = Inr (JObj [(js ''ok'', JBool b)])"
    by (auto simp: confirm_like_def)
  obtain e s' where e: "execute_call (si_cfg si) (si_env si k) name g JUndef (JObj []) None ?s = (Inr (Sealed e), s')"
    "good_envelope (si_cfg si) (JObj [(js ''ok'', JBool b)]) e" "sv_confirmations s' = sv_confirmations ?s" "same_tables ?s s'"
    using execute_succeeds [OF ready_signer [OF U] _ v] by (metis jsval.distinct(11))
  have "good_answer (si_cfg si) (read_response (answer_call (Inr (Sealed e))))"
    by (rule answer_good [OF e(2)]) simp_all
  moreover have "in_order G M (s', Suc k)" using e(3,4) w by (simp add: in_order_def same_tables_def waiting_def)
  ultimately show ?thesis using c e(1) by auto
qed

lemma triple_counted:
  "(\<And>n. triple (running (\<lambda>p. Ok p \<and> snd p = n) ns) m Q) \<Longrightarrow> triple (running Ok ns) m Q"
  unfolding triple_def running_def by blast

lemma triple_unlocks:
  assumes U: "in_front lower si base G ctx" and g: "(name, g) \<in> set G" "confirm_like g"
  shows "triple (running (in_order G M) ns) (security_unlocks ctx name) (\<lambda>_. running (in_order G M) ns)"
proof (rule triple_counted)
  fix n
  note l = listed [OF U g(1)]
  obtain t where t: "encodeURIComponent name = Some t"
    "si_route si (js ''POST'') (base @ js ''/glyphs/'' @ t @ js ''/prepare'') = Some (R_Prepare name)"
    "si_route si (js ''POST'') (base @ js ''/glyphs/'' @ t @ js ''/call'') = Some (R_Call name)"
    using glyph_route [OF U l(3)] by blast
  let ?t = "issued_ticket si n g" and ?P = "\<lambda>p. in_order G M p \<and> snd p = n"
  have j: "json_ok (ticket_json ?t)" by (intro json_ok_ticket) (auto simp: issued_ticket_def intro!: json_ok_obj)
  have c: "ws_confirmationTicket (lx_schemas ctx) (js_norm (ticket_json ?t))"
    using U conforms_ticket [of ?t] by (simp add: in_front_def site_ready_def published_schemas_def issued_ticket_def)
  have m: "js_member (js_norm (ticket_json ?t)) (js ''confirmationToken'') = Some (JStr (si_token si n))"
    by (simp add: ticket_json_def issued_ticket_def)
  have "triple (running ?P ns) (send ctx ''POST'' (js ''/glyphs/'' @ t @ js ''/prepare'') (input_body []) [])
      (\<lambda>r p. r = ok_response (ticket_json ?t) \<and> running (waiting si n name G M) ns p)"
  proof (rule sends [OF U t(2)])
    fix s k assume a: "in_order G M (s, k) \<and> snd (s, k) = n"
    with prepare_issues [OF U g, of M s n] ok_printed [OF j]
    show "\<exists>a s'. handle_route si k (R_Prepare name) (sent_body (input_body [])) s = (a, s') \<and>
        read_response a = ok_response (ticket_json ?t) \<and> waiting si n name G M (s', Suc k)"
      by (auto simp: answer_with_def)
  qed
  note prep = triple_post [OF t(1) this]
  have call: "triple (running (waiting si n name G M) ns)
      (send ctx ''POST'' (js ''/glyphs/'' @ t @ js ''/call'') (confirm_body (JStr (si_token si n))) [])
      (\<lambda>r p. good_answer (si_cfg si) r \<and> running (in_order G M) ns p)"
  proof (rule sends [OF U t(3)])
    fix s k assume "waiting si n name G M (s, k)"
    from ticket_unlocks [OF U g this] show "\<exists>a s'. handle_route si k (R_Call name) (sent_body (confirm_body (JStr (si_token si n)))) s = (a, s') \<and>
        good_answer (si_cfg si) (read_response a) \<and> in_order G M (s', Suc k)" by fastforce
  qed
  have "triple (running (waiting si n name G M) ns) (call_confirmed_with ctx name (js_norm (ticket_json ?t))) (\<lambda>_. running (in_order G M) ns)"
    unfolding call_confirmed_with_def
    by (intro triple_bind [OF triple_path [OF t(1)]] triple_pre triple_bind [OF triple_member [OF m]])
       (auto intro!: triple_bind [OF call [unfolded confirm_body_def]] triple_pre triple_verdict good_answer_valid [OF U])
  with c show "triple (running ?P ns) (security_unlocks ctx name) (\<lambda>_. running (in_order G M) ns)"
    unfolding security_unlocks_def by (intro triple_try triple_bind [OF prep] triple_pre) (simp add: ok_response_def)
qed

end
