(* ===== verification/Conformance_Passes.thy ===== *)
theory Conformance_Passes
  imports Conformance_Levels
begin

text \<open>
  The whole suite against the server, with the fixtures registered on it.
\<close>

text \<open>A request without its token, from a suite that has one.\<close>

lemma triple_auth:
  assumes U: "in_front lower si base G ctx"
  shows "triple (running (in_order G M) ns) (security_auth ctx) (\<lambda>_. running (in_order G M) ns)"
proof (cases "truthy (lx_authToken ctx)")
  case True
  let ?q = "build_request lower base (lx_authToken ctx) (js ''GET'') (js ''/lexicon'') JUndef [(js ''authorization'', [])]"
  have f: "lower (js ''authorization'') = js ''authorization''" "token_fits si (lx_authToken ctx)"
    "si_path si (base @ js ''/lexicon'') \<noteq> js ''/health''" "lx_http ctx = buildHttp lower (server_fetch si) base (lx_authToken ctx)"
    using U by (simp_all add: in_front_def site_ready_def routed_def)
  obtain a where a: "si_auth si = Some a" using f(2) True by (auto simp: token_fits_def split: option.splits)
  have h: "cq_headers ?q = []" "cq_url ?q = base @ js ''/lexicon''"
    using f(1) True by (simp_all add: build_request_def set_header_def omap_delete_def)
  let ?e = "errorResponse 401 UNAUTHORIZED (js ''Missing or invalid bearer token'') JUndef"
  have "server_fetch si ?q (s, n) = (Inr (answer_with (\<lambda>v. v) (Inl ?e)), (s, Suc n))" for s n
    using f(3) by (simp add: server_fetch_def Let_def server_front_def a authMiddleware_def bearerToken_def h)
  then have "lx_http ctx (js ''GET'') (js ''/lexicon'') JUndef [(js ''authorization'', [])] (s, n)
      = (Inr (read_response (answer_with (\<lambda>v. v) (Inl ?e))), (s, Suc n))" for s n
    by (simp add: f(4) buildHttp_def and_then_def return_def)
  moreover have "cs_status (read_response (answer_with (\<lambda>v. v) (Inl ?e))) = 401"
    by (simp add: answer_with_def read_response_def errorResponse_def)
  ultimately have "answers (in_order G M) (lx_http ctx (js ''GET'') (js ''/lexicon'') JUndef [(js ''authorization'', [])])
      (\<lambda>r s'. cs_status r = 401 \<and> in_order G M s')"
    by (auto simp: answers_def in_order_def)
  note q = triple_send [OF this]
  show ?thesis
    unfolding security_auth_def
    by (simp add: True) (intro triple_try triple_bind [OF q] triple_pre triple_verdict, simp)
qed (simp add: security_auth_def triple_add)

lemma triple_burst:
  assumes U: "in_front lower si base G ctx" and g: "(name, g) \<in> set G" "echo_like g"
  shows "triple (running (in_order G M) ns) (burst ctx name n) (\<lambda>b p. running (in_order G M) ns p)"
proof (induction n)
  case (Suc n)
  show ?case
    by simp (intro triple_bind [OF triple_echo [OF U g]] triple_pre, auto intro!: triple_return Suc)
qed (simp add: triple_return)

lemma triple_rateLimit:
  assumes U: "in_front lower si base G ctx" and g: "(name, g) \<in> set G" "echo_like g"
  shows "triple (running (in_order G M) ns) (security_rateLimit ctx name) (\<lambda>_. running (in_order G M) ns)"
  unfolding security_rateLimit_def
  by (intro triple_try triple_bind [OF triple_burst [OF U g]] triple_add) simp

lemma triple_security:
  assumes U: "in_front lower si base G ctx" and fx: "fixtures_fit (lx_fixtures ctx) G"
  shows "triple (running (in_order G M) (names_in G)) (securityLevel ctx) (\<lambda>_. running (in_order G M) (names_in G))"
  unfolding securityLevel_def
proof (intro triple_bind [OF triple_with_fixture] triple_bind [OF triple_auth [OF U]] triple_with_fixture)
  show "fixture_fits (fx_requiresConfirmation (lx_fixtures ctx)) G confirm_like" "fixture_fits (fx_slow (lx_fixtures ctx)) G slow_like"
    "fixture_fits (fx_echo (lx_fixtures ctx)) G echo_like" using fx by (simp_all add: fixtures_fit_def)
  show "triple (running (in_order G M) (names_in G)) (security_confirmation ctx name) (\<lambda>_. running (in_order G M) (names_in G))"
    if "(name, g) \<in> set G" "confirm_like g" for name g
    unfolding security_confirmation_def
    by (intro triple_bind [OF triple_refusal [OF triple_required [OF U that]]]
        triple_bind [OF triple_refusal [OF triple_bogus_token [OF U that, unfolded confirm_body_def]]] triple_unlocks [OF U that])
  show "triple (running (in_order G M) (names_in G))
      (expect_refusal ctx Security ''security.timeout'' (post_glyph ctx name ''/call'' (input_body [])) 504 ''HANDLER_TIMEOUT'' ''slow handler'')
      (\<lambda>_. running (in_order G M) (names_in G))"
    if "(name, g) \<in> set G" "slow_like g" for name g
    by (rule triple_refusal [OF triple_failing [OF U that(1)]]) (use that(2) in \<open>auto simp: slow_like_def\<close>)
  show "triple (running (in_order G M) (names_in G)) (security_rateLimit ctx name) (\<lambda>_. running (in_order G M) (names_in G))"
    if "(name, g) \<in> set G" "echo_like g" for name g by (rule triple_rateLimit [OF U that])
qed (rule triple_add_all triple_add; simp)+

section \<open>The whole suite\<close>

lemma triple_level:
  assumes "in_front lower si base G ctx" "fixtures_fit (lx_fixtures ctx) G"
  shows "triple (running (in_order G M) (names_in G)) (RUNNERS l ctx) (\<lambda>_. running (in_order G M) (names_in G))"
  using triple_discovery [OF assms(1)] triple_execution [OF assms] triple_security [OF assms] triple_governance [OF assms(1)]
  by (cases l) simp_all

lemma triple_levels:
  assumes "in_front lower si base G ctx" "fixtures_fit (lx_fixtures ctx) G"
  shows "triple (running (in_order G M) (names_in G)) (run_levels ctx ls) (\<lambda>_. running (in_order G M) (names_in G))"
  by (induction ls) (auto intro!: triple_return triple_bind [OF triple_level [OF assms]])

lemma triple_quiet_names:
  assumes U: "in_front lower si base G ctx" and "Discovery \<notin> set requested" "requested \<noteq> []"
  shows "triple (running (in_order G M) []) (quiet_names ctx requested) (\<lambda>_. running (in_order G M) (names_in G))"
proof -
  have r: "si_route si (js ''GET'') (base @ js ''/lexicon'') = Some R_Lexicon"
    using U by (simp add: in_front_def site_ready_def routed_def)
  have j: "json_ok (lexicon_value G)" unfolding lexicon_value_def by (intro json_ok_arr) (auto intro: json_ok_lexicon)
  have "handle_route si n R_Lexicon (sent_body JUndef) s = ((200, ser (lexicon_value G)), s)" if "in_order G M (s, n)" for s n
    using that by (simp add: in_order_def answer_with_def lexicon_value_def lexicon_of_def server_lexicon_def)
  note q = sends_ok [OF U r j this, of M "[]"]
  have "map (\<lambda>e. js_member_opt e (js ''name'')) (map js_norm (map lexicon_entry_json (lexicon_of G))) = names_in G"
    using ready_served(1) [OF U]
    by (induction G) (auto simp: lexicon_of_def names_in_def served_card_def toLexiconEntry_def lexicon_entry_json_def js_member_opt_def own_value_def)
  then have n: "filter is_jstring (map (\<lambda>e. js_member_opt e (js ''name'')) (map js_norm (map lexicon_entry_json (lexicon_of G)))) = names_in G"
    by (simp only:) (auto simp: names_in_def filter_id_conv)
  show ?thesis
    unfolding quiet_names_def using assms(2,3)
    by (simp, intro triple_try triple_bind [OF q] triple_pre)
       (use n in \<open>auto simp: triple_def running_def ok_response_def lexicon_value_def\<close>)
qed

lemma run_passes:
  assumes U: "in_front lower si base G ctx" and fx: "fixtures_fit (lx_fixtures ctx) G" and ok: "in_order G M p"
  shows "\<exists>q. and_then (quiet_names ctx requested) (\<lambda>_. run_levels ctx (level_order requested)) \<lparr>pr_server = p, pr_checks = [], pr_names = []\<rparr>
      = (Inr (), q) \<and> in_order G M (pr_server q) \<and> (\<forall>c\<in>set (pr_checks q). ck_status c \<noteq> Failed)"
proof -
  have "triple (running (in_order G M) []) (and_then (quiet_names ctx requested) (\<lambda>_. run_levels ctx (level_order requested)))
      (\<lambda>_ p. running (in_order G M) (pr_names p) p)"
  proof (cases "Discovery \<in> set requested")
    case True
    then have "level_order requested = Discovery # filter (\<lambda>l. l \<noteq> Discovery \<and> l \<in> set requested) ALL_LEVELS" by (simp add: level_order_def)
    moreover have "quiet_names ctx requested = return ()" using True by (simp add: quiet_names_def)
    ultimately show ?thesis
      by simp (rule triple_weaken [OF triple_bind [OF triple_discovery [OF U] triple_levels [OF U fx]]], auto simp: running_def)
  next
    case False
    show ?thesis
    proof (cases "requested = []")
      case True
      then show ?thesis
        by (simp add: quiet_names_def level_order_def) (auto simp: triple_def running_def return_def)
    next
      case ne: False
      show ?thesis
        by (rule triple_weaken [OF triple_bind [OF triple_quiet_names [OF U False ne] triple_levels [OF U fx]]]) (auto simp: running_def)
    qed
  qed
  with ok show ?thesis unfolding triple_def running_def by fastforce
qed

section \<open>The registered fixtures\<close>

text \<open>What Zod documents of the four schemas.\<close>

definition zod_documented :: "fixture_zod \<Rightarrow> bool" where
  "zod_documented zod \<longleftrightarrow>
     (\<forall>t. fst (zod Z_Value) (JObj (value_body (JStr t))) = Inr (JObj (value_body (JStr t)))) \<and>
     (\<exists>issues. fst (zod Z_Value) (JObj (value_body (JNum 123))) = Inl issues \<and> json_ok issues) \<and>
     fst (zod Z_Anything) (JObj []) = Inr (JObj []) \<and>
     fst (zod Z_Ok) (JObj [(js ''ok'', JBool True)]) = Inr (JObj [(js ''ok'', JBool True)]) \<and>
     (\<exists>issues. fst (zod Z_Ok_Count) (JObj [(js ''ok'', jlit ''not-a-boolean''), (js ''count'', jlit ''three'')]) = Inl issues \<and>
        json_ok issues)"

definition signed_by :: "server_config \<Rightarrow> glyph_definition \<Rightarrow> glyph_definition \<Rightarrow> bool" where
  "signed_by cfg g h \<longleftrightarrow> (\<exists>sig. h = g\<lparr>gd_card := (gd_card g)\<lparr>gc_publicKey := Some (sg_publicKey (sc_signer cfg)), gc_signature := Some sig\<rparr>\<rparr>)"

lemma register_Inr:
  assumes "server_register cfg g s = (Inr u, s')"
  shows "map_of (sv_glyphs s) (gc_name (gd_card g)) = None \<and>
    (\<exists>h. signed_by cfg g h \<and> s' = s\<lparr>sv_glyphs := omap_set (gc_name (gd_card g)) h (sv_glyphs s)\<rparr>)"
  using assms by (auto simp: server_register_def Let_def signed_by_def split: if_splits option.splits)

lemma register_each_Inr:
  assumes "register_each cfg gs s = (Inr u, s')" "honest_signer (sc_crypto cfg) (sc_signer cfg)" "server_inv cfg s"
    and "omap_wf (sv_glyphs s)" "\<forall>g\<in>set gs. gc_id (gd_card g) = computeGlyphId (sc_crypto cfg) (gd_card g)"
  shows "server_inv cfg s' \<and> omap_wf (sv_glyphs s') \<and> sv_confirmations s' = sv_confirmations s \<and>
    (\<forall>g\<in>set gs. \<exists>h. signed_by cfg g h \<and> map_of (sv_glyphs s') (gc_name (gd_card g)) = Some h) \<and>
    (\<forall>n h. map_of (sv_glyphs s) n = Some h \<longrightarrow> map_of (sv_glyphs s') n = Some h)"
  using assms
proof (induction gs arbitrary: s)
  case (Cons g gs)
  from Cons.prems(1) obtain a s1 where r: "server_register cfg g s = (Inr a, s1)" "register_each cfg gs s1 = (Inr u, s')"
    by (auto simp: and_then_Inr)
  from register_Inr [OF r(1)] obtain h where h: "map_of (sv_glyphs s) (gc_name (gd_card g)) = None" "signed_by cfg g h"
    "s1 = s\<lparr>sv_glyphs := omap_set (gc_name (gd_card g)) h (sv_glyphs s)\<rparr>" by blast
  have "server_inv cfg s1" by (rule inv_register [OF Cons.prems(2,3) _ r(1)]) (use Cons.prems(5) in simp)
  moreover have "omap_wf (sv_glyphs s1)" using Cons.prems(4) by (simp add: h(3) omap_wf_set)
  ultimately have IH: "server_inv cfg s' \<and> omap_wf (sv_glyphs s') \<and> sv_confirmations s' = sv_confirmations s1 \<and>
    (\<forall>g\<in>set gs. \<exists>h. signed_by cfg g h \<and> map_of (sv_glyphs s') (gc_name (gd_card g)) = Some h) \<and>
    (\<forall>n h. map_of (sv_glyphs s1) n = Some h \<longrightarrow> map_of (sv_glyphs s') n = Some h)"
    using Cons.IH [OF r(2) Cons.prems(2)] Cons.prems(5) by simp
  have "map_of (sv_glyphs s') (gc_name (gd_card g)) = Some h" using IH by (simp add: h(3) store_laws)
  moreover have "map_of (sv_glyphs s') n = Some k" if "map_of (sv_glyphs s) n = Some k" for n k
  proof -
    have "map_of (sv_glyphs s1) n = Some k" using that h(1) by (auto simp: h(3) store_laws)
    with IH show ?thesis by blast
  qed
  ultimately show ?case using IH h(2) by (auto simp: h(3))
qed (simp add: return_def)

lemma fixture_signed:
  assumes "\<exists>h. signed_by cfg (defineGlyph C now (fixture_config fx intent cost inp out handler)) h \<and>
      map_of G (gc_name (gd_card (defineGlyph C now (fixture_config fx intent cost inp out handler)))) = Some h"
    and "omap_wf G" "fx = Some name"
    and "\<And>h. gd_handler h = handler \<Longrightarrow> gd_inputSchema h = fst inp \<Longrightarrow> gd_outputSchema h = fst out \<Longrightarrow>
      gc_cost (gd_card h) = cost \<Longrightarrow> gc_requiredScopes (gd_card h) = None \<Longrightarrow> Q h"
  shows "fixture_fits fx G Q"
proof -
  from assms(1,3) obtain h where h: "signed_by cfg (defineGlyph C now (fixture_config fx intent cost inp out handler)) h"
    "map_of G name = Some h" by (auto simp: defineGlyph_def Let_def partial_card_def fixture_config_def)
  have "Q h" by (rule assms(4)) (use h(1) in \<open>auto simp: signed_by_def defineGlyph_def Let_def partial_card_def fixture_config_def declared_scopes_def\<close>)
  have "g = h" if "(name, g) \<in> set G" for g
    using map_of_is_SomeI [of G name g] that h(2) assms(2) by (simp add: omap_wf_def)
  with \<open>Q h\<close> assms(3) show ?thesis by (auto simp: fixture_fits_def)
qed

lemma registered_fixtures_fit:
  assumes "zod_documented zod" "timeoutMs < 60000" "omap_wf G"
    and "\<forall>g\<in>set (buildFixtureGlyphs C now zod timeoutMs). \<exists>h. signed_by cfg g h \<and> map_of G (gc_name (gd_card g)) = Some h"
  shows "fixtures_fit FIXTURE_NAMES G"
proof -
  note d = assms(1) [unfolded zod_documented_def]
  have b: "\<exists>h. signed_by cfg (defineGlyph C now c) h \<and> map_of G (gc_name (gd_card (defineGlyph C now c))) = Some h"
    if "c \<in> {echo_config zod, confirmation_config zod, slow_config zod timeoutMs, invalid_config zod}" for c
    using assms(4) that by (auto simp: buildFixtureGlyphs_def)
  have "fixture_fits (fx_echo FIXTURE_NAMES) G echo_like"
    by (rule fixture_signed [OF b [of "echo_config zod", unfolded echo_config_def] assms(3)])
       (use d in \<open>auto simp: FIXTURE_NAMES_def echo_like_def plain_call_def safe_cost_def echo_config_def\<close>)
  moreover have "fixture_fits (fx_requiresConfirmation FIXTURE_NAMES) G confirm_like"
    by (rule fixture_signed [OF b [of "confirmation_config zod", unfolded confirmation_config_def] assms(3)])
       (use d in \<open>auto simp: FIXTURE_NAMES_def confirm_like_def takes_nothing_def confirmation_config_def\<close>)
  moreover have "fixture_fits (fx_slow FIXTURE_NAMES) G slow_like"
    by (rule fixture_signed [OF b [of "slow_config zod timeoutMs", unfolded slow_config_def] assms(3)])
       (use d assms(2) in \<open>auto simp: FIXTURE_NAMES_def slow_like_def takes_nothing_def plain_call_def safe_cost_def slow_config_def\<close>)
  moreover have "fixture_fits (fx_invalidOutput FIXTURE_NAMES) G invalid_like"
    by (rule fixture_signed [OF b [of "invalid_config zod", unfolded invalid_config_def] assms(3)])
       (use d in \<open>auto simp: FIXTURE_NAMES_def invalid_like_def takes_nothing_def plain_call_def safe_cost_def invalid_config_def\<close>)
  ultimately show ?thesis by (simp add: fixtures_fit_def)
qed

text \<open>
  C38. The server of this repository passes its own conformance suite. Register the fixtures on a
  server with a sound state, next to any glyphs whose cards are JSON; then every run of the suite
  against its routes, whatever levels are requested, ends with a report that passes, lists
  every requested level as compatible, and leaves the registered tables and no pending confirmation
  behind.
\<close>

theorem server_conforms:
  assumes "registerFixtures (si_cfg si) created zod s0 = (Inr (), s)" "zod_documented zod"
    and "sc_callTimeoutMs (si_cfg si) < 60000"
    and "server_inv (si_cfg si) s0" "omap_wf (sv_glyphs s0)" "sv_confirmations s0 = []"
    and "site_ready (su_schemas su) si (strip_slash url) (ko_authToken opts) (sv_glyphs s)"
    and "su_fetch su = server_fetch si" "su_crypto su = sc_crypto (si_cfg si)"
    and "su_lower su (js ''authorization'') = js ''authorization''" "ko_fixtures opts = FIXTURE_NAMES"
  shows "\<exists>r p. runConformance su now url opts (s, n) = (Inr r, p) \<and> rp_passed r \<and>
    rp_compatibility r = requested_levels opts \<and> in_order (sv_glyphs s) (sv_manifests s) p"
proof -
  let ?ctx = "suite_context su (strip_slash url) opts" and ?G = "sv_glyphs s"
  have signer: "honest_signer (sc_crypto (si_cfg si)) (sc_signer (si_cfg si))" using assms(7) by (simp add: site_ready_def)
  have "\<forall>g\<in>set (buildFixtureGlyphs (sc_crypto (si_cfg si)) created zod (sc_callTimeoutMs (si_cfg si))).
      gc_id (gd_card g) = computeGlyphId (sc_crypto (si_cfg si)) (gd_card g)"
    by (simp add: buildFixtureGlyphs_def defineGlyph_id)
  from register_each_Inr [OF assms(1) [unfolded registerFixtures_def] signer assms(4,5) this]
  have reg: "server_inv (si_cfg si) s" "omap_wf ?G" "sv_confirmations s = []"
    "\<forall>g\<in>set (buildFixtureGlyphs (sc_crypto (si_cfg si)) created zod (sc_callTimeoutMs (si_cfg si))).
       \<exists>h. signed_by (si_cfg si) g h \<and> map_of ?G (gc_name (gd_card g)) = Some h"
    using assms(6) by auto
  have "map_of ?G (fst p) = Some (snd p)" if "p \<in> set ?G" for p
    using map_of_is_SomeI [of ?G "fst p" "snd p"] that reg(2) by (simp add: omap_wf_def)
  then have "list_all (served_card (sc_crypto (si_cfg si))) ?G"
    using reg(1) assms(7) by (auto simp: list_all_iff served_card_def server_inv_def site_ready_def)
  then have U: "in_front (su_lower su) si (strip_slash url) ?G ?ctx"
    using assms reg(2) by (simp add: in_front_def suite_context_def)
  have "fixtures_fit (lx_fixtures ?ctx) ?G"
    using registered_fixtures_fit [OF assms(2,3) reg(2,4)] assms(11) by (simp add: suite_context_def)
  from run_passes [OF U this, of "sv_manifests s" "(s, n)" "requested_levels opts"] obtain q where
    q: "and_then (quiet_names ?ctx (requested_levels opts)) (\<lambda>_. run_levels ?ctx (level_order (requested_levels opts)))
      \<lparr>pr_server = (s, n), pr_checks = [], pr_names = []\<rparr> = (Inr (), q)"
      "in_order ?G (sv_manifests s) (pr_server q)" "\<forall>c\<in>set (pr_checks q). ck_status c \<noteq> Failed"
    using reg(3) by (auto simp: in_order_def)
  then show ?thesis
    by (simp add: runConformance_def Let_def report_of_pass report_of_compatibility filter_True)
qed

end
