(* ===== verification/Conformance_Example.thy ===== *)
theory Conformance_Example
  imports Conformance_Passes Openapi_Request
begin

text \<open>A concrete server with the four fixtures, its router, and a run of the suite against it.\<close>

section \<open>Reading a receipt at its declared type\<close>

definition str_field :: "(jstr \<times> jsval) list \<Rightarrow> string \<Rightarrow> jstr" where
  "str_field kvs k = (case own_value kvs (js k) of JStr s \<Rightarrow> s | _ \<Rightarrow> [])"

definition risk_field :: "(jstr \<times> jsval) list \<Rightarrow> risk_tier" where
  "risk_field kvs = (if str_field kvs ''riskTier'' = js ''safe'' then Safe
     else if str_field kvs ''riskTier'' = js ''caution'' then Caution else Danger)"

definition read_receipt :: "jsval \<Rightarrow> call_receipt option" where
  "read_receipt v = (case v of
     JObj kvs \<Rightarrow> Some
       \<lparr>cr_receiptVersion = str_field kvs ''receiptVersion'', cr_callId = str_field kvs ''callId'', cr_clientCallId = None,
        cr_glyphId = str_field kvs ''glyphId'', cr_glyphName = str_field kvs ''glyphName'',
        cr_inputHash = str_field kvs ''inputHash'', cr_outputHash = str_field kvs ''outputHash'',
        cr_inspectionHash = str_field kvs ''inspectionHash'', cr_riskTier = risk_field kvs,
        cr_provider = str_field kvs ''provider'',
        cr_latencyMs = (case own_value kvs (js ''latencyMs'') of JNum n \<Rightarrow> n | _ \<Rightarrow> 0),
        cr_timestamp = str_field kvs ''timestamp'', cr_serverPublicKey = str_field kvs ''serverPublicKey'',
        cr_signature = str_field kvs ''signature''\<rparr>
   | _ \<Rightarrow> None)"

lemma read_receipt_json:
  assumes "cr_clientCallId x = None"
  shows "read_receipt (js_norm (signed_receipt_json x)) = Some x"
proof -
  have r: "risk_field kvs = t" if "str_field kvs ''riskTier'' = risk_str t" for kvs t
    using that by (cases t) (simp_all add: risk_field_def)
  show ?thesis
    using assms by (cases x; simp add: signed_receipt_json_def receipt_json_def read_receipt_def str_field_def r)
qed

section \<open>The server\<close>

definition toy_zod :: fixture_zod where
  "toy_zod z = ((case z of
       Z_Value \<Rightarrow> (\<lambda>v. case js_member_opt v (js ''value'') of JStr t \<Rightarrow> Inr (JObj (value_body (JStr t))) | _ \<Rightarrow> Inl (JArr []))
     | Z_Ok_Count \<Rightarrow> (\<lambda>v. case js_member_opt v (js ''count'') of JNum n \<Rightarrow> Inr v | _ \<Rightarrow> Inl (JArr []))
     | _ \<Rightarrow> Inr), JObj [])"

definition fixture_cfg :: server_config where
  "fixture_cfg = toy_config\<lparr>sc_maxBodyBytes := 2000\<rparr>"

definition toy_signed :: "glyph_definition \<Rightarrow> glyph_definition" where
  "toy_signed g = g\<lparr>gd_card := (gd_card g)\<lparr>gc_publicKey := Some (js ''k''), gc_signature := Some (js ''k'' @ gc_id (gd_card g))\<rparr>\<rparr>"

definition fixture_server :: server_state where
  "fixture_server = (initial_server None)\<lparr>sv_glyphs :=
     map (\<lambda>g. (gc_name (gd_card g), toy_signed g)) (buildFixtureGlyphs toy_crypto [] toy_zod 30000)\<rparr>"

lemma omap_set_new: "map_of m k = None \<Longrightarrow> omap_set k v m = m @ [(k, v)]"
  by (induction k v m rule: omap_set.induct) (auto split: if_splits)

lemma register_fresh:
  "map_of (sv_glyphs s) (gc_name (gd_card g)) = None \<Longrightarrow> server_register fixture_cfg g s =
     (Inr (), s\<lparr>sv_glyphs := sv_glyphs s @ [(gc_name (gd_card g), toy_signed g)]\<rparr>)"
  by (simp add: server_register_def Let_def omap_set_new fixture_cfg_def toy_config_def ed25519_signer_def signGlyph_def
      toy_crypto_def toy_signed_def)

lemma fixture_names:
  "map (\<lambda>g. gc_name (gd_card g)) (buildFixtureGlyphs C now zod t) =
     [js ''conformance-echo'', js ''conformance-requires-confirmation'', js ''conformance-slow'', js ''conformance-invalid-output'']"
  by (simp add: buildFixtureGlyphs_def defineGlyph_def Let_def partial_card_def echo_config_def confirmation_config_def
      slow_config_def invalid_config_def fixture_config_def FIXTURE_NAMES_def)

lemma register_all_fresh:
  "distinct (map fst (sv_glyphs s) @ map (\<lambda>g. gc_name (gd_card g)) gs) \<Longrightarrow>
     register_each fixture_cfg gs s =
       (Inr (), s\<lparr>sv_glyphs := sv_glyphs s @ map (\<lambda>g. (gc_name (gd_card g), toy_signed g)) gs\<rparr>)"
proof (induction gs arbitrary: s)
  case (Cons g gs)
  then have "map_of (sv_glyphs s) (gc_name (gd_card g)) = None" by (simp add: map_of_eq_None_iff)
  from register_fresh [OF this] Cons show ?case by (simp add: and_then_def)
qed (simp add: return_def)

lemma fixture_server_registered: "registerFixtures fixture_cfg [] toy_zod (initial_server None) = (Inr (), fixture_server)"
proof -
  have "sc_crypto fixture_cfg = toy_crypto" "sc_callTimeoutMs fixture_cfg = 30000"
    by (simp_all add: fixture_cfg_def toy_config_def)
  moreover have "distinct (map (\<lambda>g. gc_name (gd_card g)) (buildFixtureGlyphs toy_crypto [] toy_zod 30000))"
    unfolding fixture_names by simp
  ultimately show ?thesis
    using register_all_fresh [of "initial_server None" "buildFixtureGlyphs toy_crypto [] toy_zod 30000"]
    by (simp add: registerFixtures_def fixture_server_def initial_server_def)
qed

section \<open>The router\<close>

definition in_name :: "16 word \<Rightarrow> bool" where
  "in_name u \<longleftrightarrow> u \<noteq> 47 \<and> u \<noteq> 63"

definition toy_route :: "jstr \<Rightarrow> jstr \<Rightarrow> route option" where
  "toy_route m u =
     (if u = js ''/health'' then Some R_Health else if u = js ''/keys'' then Some R_Keys
      else if u = js ''/lexicon'' then Some R_Lexicon else if u = js ''/handshake'' then Some R_Handshake
      else if take 8 u \<noteq> js ''/glyphs/'' then None
      else let name = takeWhile in_name (drop 8 u); rest = dropWhile in_name (drop 8 u) in
        if rest = [] then Some (R_Card name None)
        else if take 7 rest = js ''?depth='' then Some (R_Card name (Some (drop 7 rest)))
        else if rest = js ''/manifest'' then Some (R_Manifest name)
        else if rest = js ''/prepare'' then Some (R_Prepare name)
        else if rest = js ''/call'' then Some (R_Call name) else None)"

lemma toy_route_glyph:
  assumes "list_all in_name name" "rest = [] \<or> \<not> in_name (hd rest)"
  shows "toy_route m (js ''/glyphs/'' @ name @ rest) =
    (if rest = [] then Some (R_Card name None)
     else if take 7 rest = js ''?depth='' then Some (R_Card name (Some (drop 7 rest)))
     else if rest = js ''/manifest'' then Some (R_Manifest name)
     else if rest = js ''/prepare'' then Some (R_Prepare name)
     else if rest = js ''/call'' then Some (R_Call name) else None)"
proof -
  have "takeWhile in_name (name @ rest) = name" "dropWhile in_name (name @ rest) = rest"
    using assms by (cases rest; auto simp: list_all_iff takeWhile_append dropWhile_append)+
  then show ?thesis by (simp add: toy_route_def js_def uc_def)
qed

text \<open>Names that need no escape.\<close>

definition plain_name :: "jstr \<Rightarrow> bool" where
  "plain_name s \<longleftrightarrow> list_all (\<lambda>u. uri_unreserved (unat u) \<and> \<not> is_high u \<and> in_name u) s"

lemma encode_plain_name: "plain_name s \<Longrightarrow> encodeURIComponent s = Some s"
proof (induction s)
  case (Cons u s)
  then show ?case by (simp add: encodeURIComponent_def plain_name_def decode_not_high)
qed (simp add: encodeURIComponent_def)

lemma fixture_names_plain:
  "\<forall>n \<in> {unknown_name, js ''conformance-echo'', js ''conformance-requires-confirmation'', js ''conformance-slow'',
     js ''conformance-invalid-output''}. plain_name n \<and> n \<noteq> []"
  by (simp add: unknown_name_def plain_name_def js_def uc_def uri_unreserved_def in_name_def is_high_def)

lemma toy_glyph_routes:
  assumes "plain_name name"
  shows "toy_route m (js ''/glyphs/'' @ name) = Some (R_Card name None)"
    "toy_route m (js ''/glyphs/'' @ name @ js (''?depth='' @ d)) = Some (R_Card name (Some (js d)))"
    "toy_route m (js ''/glyphs/'' @ name @ js ''/manifest'') = Some (R_Manifest name)"
    "toy_route m (js ''/glyphs/'' @ name @ js ''/prepare'') = Some (R_Prepare name)"
    "toy_route m (js ''/glyphs/'' @ name @ js ''/call'') = Some (R_Call name)"
proof -
  have n: "list_all in_name name" using assms by (auto simp: plain_name_def list_all_iff)
  have h: "\<not> in_name (uc CHR ''/'')" "\<not> in_name (uc CHR ''?'')" by (simp_all add: in_name_def uc_def)
  show "toy_route m (js ''/glyphs/'' @ name) = Some (R_Card name None)" using toy_route_glyph [OF n, of "[]"] by simp
  show "toy_route m (js ''/glyphs/'' @ name @ js (''?depth='' @ d)) = Some (R_Card name (Some (js d)))"
    using toy_route_glyph [OF n, of "js (''?depth='' @ d)"] h by (simp add: js_def)
  show "toy_route m (js ''/glyphs/'' @ name @ js ''/manifest'') = Some (R_Manifest name)"
    "toy_route m (js ''/glyphs/'' @ name @ js ''/prepare'') = Some (R_Prepare name)"
    "toy_route m (js ''/glyphs/'' @ name @ js ''/call'') = Some (R_Call name)"
    using toy_route_glyph [OF n, of "js ''/manifest''"] toy_route_glyph [OF n, of "js ''/prepare''"]
      toy_route_glyph [OF n, of "js ''/call''"] h by (simp_all add: js_def uc_def)
qed

section \<open>A site that is ready\<close>

lemma fixture_card_json:
  assumes "gc_input c = JObj []" "gc_output c = JObj []" "gc_examples c = []" "gc_failureModes c = []" "gc_attestation c = None"
  shows "json_card c"
proof -
  have "json_ok (JObj [])" by (simp add: json_ok_obj)
  then have "json_ok (JObj (applyDepth c d))" for d
    using assms by (cases d; simp add: applyDepth_def card_fields_def canonical_fields_def;
        auto simp: wire_fields intro!: json_ok_intro)
  then show ?thesis using assms by (simp add: json_card_def complete_card_def)
qed

lemma fixture_server_cards: "p \<in> set (sv_glyphs fixture_server) \<Longrightarrow> json_card (gd_card (snd p)) \<and> gc_name (gd_card (snd p)) = fst p"
  by (auto simp: fixture_server_def buildFixtureGlyphs_def defineGlyph_def Let_def partial_card_def echo_config_def
      confirmation_config_def slow_config_def invalid_config_def fixture_config_def toy_signed_def toy_zod_def
      default_to_def declared_scopes_def intro!: fixture_card_json)

lemma fixture_server_names: "map fst (sv_glyphs fixture_server) =
  [js ''conformance-echo'', js ''conformance-requires-confirmation'', js ''conformance-slow'', js ''conformance-invalid-output'']"
  using fixture_names [of toy_crypto "[]" toy_zod 30000] by (simp add: fixture_server_def initial_server_def comp_def)

lemma toy_zod_documented: "zod_documented toy_zod"
  using json_ok_arr [of "[]"] by (auto simp: zod_documented_def toy_zod_def value_body_def js_member_opt_def own_value_def)

definition fixture_site :: site where
  "fixture_site = \<lparr>si_cfg = fixture_cfg, si_auth = None, si_path = id, si_route = toy_route, si_keys = None, si_caller = None,
     si_env = (\<lambda>n. toy_env), si_token = (\<lambda>n. js ''t''), si_session = (\<lambda>n. js ''s'')\<rparr>"

definition read_card :: "jsval \<Rightarrow> glyph_card option" where
  "read_card v = (case v of
     JObj kvs \<Rightarrow> map_option gd_card (map_of (sv_glyphs fixture_server) (str_field kvs ''name'')) | _ \<Rightarrow> None)"

definition fixture_schemas :: wire_schemas where
  "fixture_schemas = \<lparr>ws_handshakeResponse = conforms handshake_response_schema, ws_glyphError = conforms glyph_error_schema,
     ws_lexiconEntry = conforms lexicon_entry_schema, ws_glyphCard = conforms glyph_card_schema,
     ws_sealedEnvelope = conforms sealed_envelope_schema, ws_sanitization = conforms sanitization_schema,
     ws_confirmationTicket = conforms confirmation_ticket_schema, ws_updateManifest = conforms update_manifest_schema,
     as_card = read_card, as_receipt = read_receipt, as_registry = (\<lambda>_. None)\<rparr>"

lemma read_card_json:
  assumes "p \<in> set (sv_glyphs fixture_server)"
  shows "read_card (js_norm (JObj (card_fields (gd_card (snd p))))) = Some (gd_card (snd p))"
proof -
  have "distinct (map fst (sv_glyphs fixture_server))" unfolding fixture_server_names by simp
  with assms have "map_of (sv_glyphs fixture_server) (fst p) = Some (snd p)" by simp
  moreover have "str_field (map (\<lambda>(k, v). (k, js_norm v)) (filter (\<lambda>(k, v). v \<noteq> JUndef) (card_fields c))) ''name'' = gc_name c" for c
    by (simp add: str_field_def own_value_def card_fields_def canonical_fields_def)
  ultimately show ?thesis using fixture_server_cards [OF assms] by (simp add: read_card_def)
qed

lemma fixture_reads: "reads_declared fixture_schemas (gd_card ` snd ` set (sv_glyphs fixture_server)) None"
  using read_card_json read_receipt_json by (auto simp: reads_declared_def fixture_schemas_def simp del: js_norm.simps)

lemma fixture_routed: "routed fixture_site [] (insert unknown_name (fst ` set (sv_glyphs fixture_server)))"
proof -
  have "fst ` set (sv_glyphs fixture_server) = set (map fst (sv_glyphs fixture_server))" by simp
  then have names: "plain_name n" if "n \<in> insert unknown_name (fst ` set (sv_glyphs fixture_server))" for n
    using that fixture_names_plain unfolding fixture_server_names by auto
  have "\<exists>t. encodeURIComponent n = Some t \<and>
      (\<forall>(q, d)\<in>set depth_queries. toy_route (js ''GET'') (js ''/glyphs/'' @ t @ js q) = Some (R_Card n (Some (js d)))) \<and>
      toy_route (js ''GET'') (js ''/glyphs/'' @ t @ js ''/manifest'') = Some (R_Manifest n) \<and>
      toy_route (js ''POST'') (js ''/glyphs/'' @ t @ js ''/prepare'') = Some (R_Prepare n) \<and>
      toy_route (js ''POST'') (js ''/glyphs/'' @ t @ js ''/call'') = Some (R_Call n)"
    if "n \<in> insert unknown_name (fst ` set (sv_glyphs fixture_server))" for n
  proof (intro exI conjI)
    note p = names [OF that]
    show "encodeURIComponent n = Some n" using p by (rule encode_plain_name)
    show "\<forall>(q, d)\<in>set depth_queries. toy_route (js ''GET'') (js ''/glyphs/'' @ n @ js q) = Some (R_Card n (Some (js d)))"
      using toy_glyph_routes(2) [OF p, of "js ''GET''"] by (auto simp: depth_queries_def)
  qed (use toy_glyph_routes [OF names [OF that]] in simp_all)
  moreover have "toy_route (js ''GET'') (js ''/glyphs/'' @ unknown_name) = Some (R_Card unknown_name None)"
    by (rule toy_glyph_routes(1) [OF names]) simp
  ultimately show ?thesis by (simp add: routed_def fixture_site_def toy_route_def)
qed

lemma fixture_ready: "site_ready fixture_schemas fixture_site [] None (sv_glyphs fixture_server)"
proof -
  have "map_of (sv_glyphs fixture_server) unknown_name = None"
    unfolding map_of_eq_None_iff set_map [symmetric] fixture_server_names by (simp add: unknown_name_def)
  moreover have "sc_crypto fixture_cfg = toy_crypto" "sc_signer fixture_cfg = ed25519_signer toy_crypto (js ''k'', js ''k'')"
    "sc_maxBodyBytes fixture_cfg = 2000" "sc_maxPending fixture_cfg = 1"
    by (simp_all add: fixture_cfg_def toy_config_def)
  moreover have "published_schemas fixture_schemas" by (simp add: published_schemas_def fixture_schemas_def)
  ultimately show ?thesis
    using fixture_routed fixture_reads fixture_server_cards toy_honest
    by (simp add: site_ready_def fixture_site_def toy_env_def CONFIRMATION_TTL_MS_def token_fits_def js_def)
qed

text \<open>The production profile, against the server with the four fixtures.\<close>

theorem server_conforms_witness:
  "\<exists>r p. runConformance \<lparr>su_crypto = toy_crypto, su_lower = id, su_schemas = fixture_schemas, su_fetch = server_fetch fixture_site\<rparr>
       [] [] \<lparr>ko_levels = None, ko_profile = Some Profile_Production, ko_fixtures = FIXTURE_NAMES, ko_authToken = None\<rparr>
       (fixture_server, 0) = (Inr r, p) \<and>
     rp_passed r \<and> rp_compatibility r = PROFILE_LEVELS Profile_Production"
proof -
  let ?su = "\<lparr>su_crypto = toy_crypto, su_lower = id, su_schemas = fixture_schemas, su_fetch = server_fetch fixture_site\<rparr>"
  let ?opts = "\<lparr>ko_levels = None, ko_profile = Some Profile_Production, ko_fixtures = FIXTURE_NAMES, ko_authToken = None\<rparr>"
  have c: "si_cfg fixture_site = fixture_cfg" "sc_crypto fixture_cfg = toy_crypto" "sc_callTimeoutMs fixture_cfg = 30000"
    by (simp_all add: fixture_site_def fixture_cfg_def toy_config_def)
  have i: "server_inv fixture_cfg (initial_server None)" "omap_wf (sv_glyphs (initial_server None))"
    "sv_confirmations (initial_server None) = []"
    by (simp_all add: server_inv_def initial_server_def omap_wf_def fixture_cfg_def)
  have "\<exists>r p. runConformance ?su [] [] ?opts (fixture_server, 0) = (Inr r, p) \<and> rp_passed r \<and>
      rp_compatibility r = requested_levels ?opts \<and> in_order (sv_glyphs fixture_server) (sv_manifests fixture_server) p"
    using server_conforms [of fixture_site "[]" toy_zod "initial_server None" fixture_server ?su "[]" ?opts "[]" 0]
    by (simp add: c i fixture_server_registered toy_zod_documented strip_slash_def fixture_ready)
  then show ?thesis by (auto simp: requested_levels_def)
qed

end
