(* ===== verification/Server_Start.thy ===== *)
theory Server_Start
  imports Wire_Schemas
begin

text \<open>
  The life of a server of \<open>packages/server/src/server.ts\<close>: its constructor with the production guard,
  the two ways to register a glyph, and a request from the middlewares to the answer. The log is the
  state of the constructor.
\<close>

section \<open>Construction\<close>

datatype log_line = Log_Warn jstr | Log_Info jstr jstr

record server_options =
  so_keyPair :: "(jstr \<times> jstr) option"
  so_signer :: "glyph_signer option"
  so_auth :: "auth_config option"
  so_rateLimit :: "rate_config option"
  so_callTimeoutMs :: "int option"
  so_onCall :: bool
  so_policy :: "(http_request \<Rightarrow> jstr + caller_principal option) option"
  so_maxPendingConfirmations :: "nat option"
  so_maxBodyBytes :: "int option"
  so_dedupe :: "int option option"
  so_strictProduction :: "bool option"

record glyph_server =
  gs_config :: server_config
  gs_auth :: "auth_config option"
  gs_rateLimit :: "rate_config option"
  gs_policy :: "(http_request \<Rightarrow> jstr + caller_principal option) option"
  gs_hits :: rate_hits
  gs_state :: server_state

definition DEFAULT_CALL_TIMEOUT_MS :: int where
  "DEFAULT_CALL_TIMEOUT_MS = 30000"

definition MAX_PENDING_CONFIRMATIONS :: nat where
  "MAX_PENDING_CONFIRMATIONS = 10000"

definition MAX_BODY_BYTES :: int where
  "MAX_BODY_BYTES = 1048576"

text \<open>
  Which key the server signs with: the signer given, the key pair given, or a fresh pair. \<open>Inl\<close> is the
  throw behind the production guard.
\<close>

definition choose_signer ::
  "crypto \<Rightarrow> bool \<Rightarrow> bool \<Rightarrow> jstr \<times> jstr \<Rightarrow> server_options \<Rightarrow> (log_line list, jstr, glyph_signer) step" where
  "choose_signer C isProduction strict fresh opts log =
     (case so_signer opts of
        Some s \<Rightarrow> (Inr s, log)
      | None \<Rightarrow> (case so_keyPair opts of
          Some kp \<Rightarrow> (Inr (ed25519_signer C kp), log)
        | None \<Rightarrow>
            if isProduction \<and> strict then (Inl (js ''[glyph] Production mode forbids ephemeral key pairs.''), log)
            else (Inr (ed25519_signer C fresh),
              log @ [Log_Warn (js ''[glyph] No keyPair provided '' @ [8212] @ js '' generated an ephemeral one for this run.'')])))"

definition check_production :: "bool \<Rightarrow> server_options \<Rightarrow> (log_line list, jstr, unit) step" where
  "check_production isProduction opts log =
     (case production_guard isProduction (so_strictProduction opts) (so_auth opts \<noteq> None) (so_rateLimit opts \<noteq> None)
        (so_keyPair opts \<noteq> None) (so_signer opts \<noteq> None) of
        Inl msg \<Rightarrow> (Inl msg, log)
      | Inr warning \<Rightarrow> (Inr (), log @ (case warning of None \<Rightarrow> [] | Some msg \<Rightarrow> [Log_Warn msg])))"

definition configured ::
  "crypto \<Rightarrow> (jstr \<Rightarrow> jstr) \<Rightarrow> server_options \<Rightarrow> glyph_signer \<Rightarrow> server_config" where
  "configured C nfkc opts signer =
     \<lparr>sc_crypto = C, sc_nfkc = nfkc, sc_signer = signer,
      sc_callTimeoutMs = default_to DEFAULT_CALL_TIMEOUT_MS (so_callTimeoutMs opts), sc_onCall = so_onCall opts,
      sc_maxPending = default_to MAX_PENDING_CONFIRMATIONS (so_maxPendingConfirmations opts),
      sc_maxBodyBytes = default_to MAX_BODY_BYTES (so_maxBodyBytes opts)\<rparr>"

text \<open>\<open>new GlyphServer(options)\<close>; \<open>fresh\<close> is what \<open>generateKeyPair\<close> would give.\<close>

definition new_server ::
  "crypto \<Rightarrow> (jstr \<Rightarrow> jstr) \<Rightarrow> bool \<Rightarrow> jstr \<times> jstr \<Rightarrow> server_options \<Rightarrow> (log_line list, jstr, glyph_server) step" where
  "new_server C nfkc isProduction fresh opts =
     (let strict = default_to isProduction (so_strictProduction opts) in
      and_then (check_production isProduction opts) (\<lambda>_.
      and_then (choose_signer C isProduction strict fresh opts) (\<lambda>signer log.
        (Inr \<lparr>gs_config = configured C nfkc opts signer, gs_auth = so_auth opts, gs_rateLimit = so_rateLimit opts,
              gs_policy = so_policy opts, gs_hits = [],
              gs_state = initial_server (map_option (default_to (5 * 60000)) (so_dedupe opts))\<rparr>,
         log @ [Log_Info (js ''[glyph] provider publicKey:'') (sg_publicKey signer)]))))"

section \<open>Registering through the asynchronous signer\<close>

text \<open>The check comes before the \<open>await\<close> of the signature, the entry after it.\<close>

definition registerAsync_check :: "glyph_definition \<Rightarrow> (server_state, register_error, unit) step" where
  "registerAsync_check g s =
     (let name = gc_name (gd_card g) in
      if map_of (sv_glyphs s) name \<noteq> None then (Inl (Already_Registered name), s) else (Inr (), s))"

definition registerAsync_enter ::
  "server_config \<Rightarrow> glyph_definition \<Rightarrow> (server_state, register_error, unit) step" where
  "registerAsync_enter cfg g s =
     (case sg_signGlyph (sc_signer cfg) (gd_card g) of
        None \<Rightarrow> (Inl Signer_Threw, s)
      | Some sig \<Rightarrow>
          let signedCard = (gd_card g)\<lparr>gc_publicKey := Some (sg_publicKey (sc_signer cfg)), gc_signature := Some sig\<rparr>
          in (Inr (), s\<lparr>sv_glyphs := omap_set (gc_name signedCard) (g\<lparr>gd_card := signedCard\<rparr>) (sv_glyphs s)\<rparr>))"

definition registerAsync :: "server_config \<Rightarrow> glyph_definition \<Rightarrow> (server_state, register_error, unit) step" where
  "registerAsync cfg g = and_then (registerAsync_check g) (\<lambda>_. registerAsync_enter cfg g)"

text \<open>When nothing happens during the \<open>await\<close>, the two ways to register agree.\<close>

lemma registerAsync_register: "registerAsync cfg g = server_register cfg g"
  by (rule ext)
     (simp add: registerAsync_def registerAsync_check_def registerAsync_enter_def server_register_def and_then_def Let_def
        split: option.split)

section \<open>Requests\<close>

definition resolvePrincipal ::
  "(http_request \<Rightarrow> jstr + caller_principal option) option \<Rightarrow> http_request \<Rightarrow> caller_principal option" where
  "resolvePrincipal policy rq =
     (case policy of
        None \<Rightarrow> None
      | Some f \<Rightarrow> (case f rq of Inl err \<Rightarrow> None | Inr p \<Rightarrow> p))"

text \<open>
  A request through \<open>setupRoutes\<close>: the rate limiter, the token gate, then the route the router found.
  \<open>w\<close> gives the identifiers, the clock and the key source, \<open>now\<close> is the limiter's clock.
\<close>

definition serve ::
  "site \<Rightarrow> nat \<Rightarrow> int \<Rightarrow> http_request \<Rightarrow> route option \<Rightarrow> raw_body \<Rightarrow> glyph_server \<Rightarrow> (int \<times> jstr) \<times> glyph_server" where
  "serve w n now rq r raw g =
     (case server_front (sc_crypto (gs_config g)) (gs_auth g) (gs_rateLimit g) now rq (gs_hits g) of
        (Some e, hits) \<Rightarrow> (answer_with (\<lambda>v. v) (Inl e), g\<lparr>gs_hits := hits\<rparr>)
      | (None, hits) \<Rightarrow>
          (case r of
             None \<Rightarrow> ((404, js ''404 Not Found''), g\<lparr>gs_hits := hits\<rparr>)
           | Some route \<Rightarrow>
               (case handle_route (w\<lparr>si_cfg := gs_config g, si_caller := resolvePrincipal (gs_policy g) rq\<rparr>) n route raw (gs_state g) of
                  (a, s) \<Rightarrow> (a, g\<lparr>gs_hits := hits, gs_state := s\<rparr>))))"

text \<open>What a running server does: the operator registers glyphs and manifests, and requests arrive.\<close>

inductive runs :: "glyph_server \<Rightarrow> glyph_server \<Rightarrow> bool" where
  Started: "runs g g"
| Registered: "runs g h \<Longrightarrow> server_register (gs_config h) d (gs_state h) = (r, s) \<Longrightarrow> runs g (h\<lparr>gs_state := s\<rparr>)"
| Manifested: "runs g h \<Longrightarrow> server_registerManifest (gs_config h) issued name m (gs_state h) = (r, s) \<Longrightarrow>
    runs g (h\<lparr>gs_state := s\<rparr>)"
| Served: "runs g h \<Longrightarrow> serve w n now rq r raw h = (a, h') \<Longrightarrow> runs g h'"

text \<open>No request and no registration changes what the server was started with.\<close>

lemma serve_settings:
  assumes "serve w n now rq r raw g = (a, h)"
  shows "gs_config h = gs_config g \<and> gs_auth h = gs_auth g \<and> gs_rateLimit h = gs_rateLimit g \<and> gs_policy h = gs_policy g"
  using assms by (auto simp: serve_def split: prod.splits option.splits)

lemma runs_settings:
  "runs g h \<Longrightarrow> gs_config h = gs_config g \<and> gs_auth h = gs_auth g \<and> gs_rateLimit h = gs_rateLimit g \<and> gs_policy h = gs_policy g"
  by (induction rule: runs.induct) (auto dest: serve_settings)

section \<open>The production guard\<close>

lemma guard_Inr:
  assumes "check_production True opts log = (Inr u, log')" "so_strictProduction opts \<noteq> Some False"
  shows "so_auth opts \<noteq> None \<and> so_rateLimit opts \<noteq> None \<and> (so_keyPair opts \<noteq> None \<or> so_signer opts \<noteq> None)"
  using assms
  by (cases "so_auth opts = None"; cases "so_rateLimit opts = None"; cases "so_keyPair opts = None"; cases "so_signer opts = None";
      cases "so_strictProduction opts")
     (auto simp: check_production_def production_guard_def default_to_def)

lemma new_server_Inr:
  assumes "new_server C nfkc isProduction fresh opts log = (Inr g, log')"
  shows "\<exists>u log1 signer log2. check_production isProduction opts log = (Inr u, log1) \<and>
    choose_signer C isProduction (default_to isProduction (so_strictProduction opts)) fresh opts log1 = (Inr signer, log2) \<and>
    gs_config g = configured C nfkc opts signer \<and> gs_auth g = so_auth opts \<and> gs_rateLimit g = so_rateLimit opts \<and>
    gs_state g = initial_server (map_option (default_to (5 * 60000)) (so_dedupe opts))"
  using assms by (auto simp: new_server_def Let_def and_then_case split: prod.splits sum.splits)

definition given_signer :: "crypto \<Rightarrow> server_options \<Rightarrow> glyph_signer \<Rightarrow> bool" where
  "given_signer C opts signer \<longleftrightarrow>
     (case so_signer opts of Some s \<Rightarrow> signer = s | None \<Rightarrow> (\<exists>kp. so_keyPair opts = Some kp \<and> signer = ed25519_signer C kp))"

lemma production_Inr:
  assumes "new_server C nfkc True fresh opts log = (Inr g, log')" "so_strictProduction opts \<noteq> Some False"
  shows "\<exists>signer. gs_auth g = so_auth opts \<and> gs_auth g \<noteq> None \<and> gs_rateLimit g \<noteq> None \<and>
    gs_config g = configured C nfkc opts signer \<and> given_signer C opts signer"
proof -
  from new_server_Inr [OF assms(1)] obtain u log1 signer log2 where n: "check_production True opts log = (Inr u, log1)"
    "choose_signer C True (default_to True (so_strictProduction opts)) fresh opts log1 = (Inr signer, log2)"
    "gs_config g = configured C nfkc opts signer" "gs_auth g = so_auth opts" "gs_rateLimit g = so_rateLimit opts" by blast
  from guard_Inr [OF n(1) assms(2)] n show ?thesis
    by (auto simp: choose_signer_def given_signer_def split: option.splits)
qed

text \<open>The guard leaves nothing for the second check of the key: it never throws.\<close>

lemma ephemeral_unreachable:
  assumes "check_production isProduction opts log = (Inr u, log1)"
  shows "\<exists>signer log2. choose_signer C isProduction (default_to isProduction (so_strictProduction opts)) fresh opts log1 = (Inr signer, log2)"
proof (cases "isProduction \<and> so_strictProduction opts \<noteq> Some False")
  case True
  with guard_Inr [of opts log u log1] assms show ?thesis by (auto simp: choose_signer_def split: option.splits)
qed (auto simp: choose_signer_def default_to_def split: option.splits)

section \<open>A production server\<close>

lemma refused_serve:
  assumes "gs_auth g = Some a" "rq_path rq \<noteq> js ''/health''"
    and "\<not> (bearerToken (rq_authorization rq) \<noteq> [] \<and> buildVerify (sc_crypto (gs_config g)) a (bearerToken (rq_authorization rq)))"
    and "serve w n now rq r raw g = (ans, h)"
  shows "fst ans \<in> {401, 429} \<and> gs_state h = gs_state g"
  using assms
  by (auto simp: serve_def server_front_def authMiddleware_def rateLimitMiddleware_def answer_with_def errorResponse_def Let_def
      split: prod.splits option.splits if_splits)

text \<open>
  C26. A server that was started in production, its guard not switched off, answers no request but the
  health check without a token its operator accepts: whatever was registered and served before,
  every other request is refused with 401 or 429 and changes nothing but the limiter's counters. And
  it signs with the operator's key, never with an ephemeral one.
\<close>

theorem production_gated:
  assumes "new_server C nfkc True fresh opts log = (Inr g, log')" "so_strictProduction opts \<noteq> Some False"
    and "runs g h" "serve w n now rq r raw h = (ans, h')" "rq_path rq \<noteq> js ''/health''"
  shows "given_signer C opts (sc_signer (gs_config h')) \<and>
    ((\<exists>a. so_auth opts = Some a \<and> bearerToken (rq_authorization rq) \<noteq> [] \<and>
        buildVerify C a (bearerToken (rq_authorization rq))) \<or>
     fst ans \<in> {401, 429} \<and> gs_state h' = gs_state h)"
proof -
  from production_Inr [OF assms(1,2)] obtain signer where p: "gs_auth g = so_auth opts" "gs_auth g \<noteq> None"
    "gs_config g = configured C nfkc opts signer" "given_signer C opts signer" by blast
  then obtain a where g: "gs_auth g = Some a" "so_auth opts = Some a" by auto
  with p(3) runs_settings [OF assms(3)] serve_settings [OF assms(4)] have
    "gs_auth h = Some a" "sc_crypto (gs_config h) = C" "sc_signer (gs_config h') = signer" by (simp_all add: configured_def)
  with refused_serve [OF this(1) assms(5) _ assms(4)] g p(4) show ?thesis by auto
qed

definition toy_options :: server_options where
  "toy_options = \<lparr>so_keyPair = Some (js ''k'', js ''k''), so_signer = None,
     so_auth = Some \<lparr>au_tokens = Some [js ''secret''], au_verify = None\<rparr>, so_rateLimit = Some \<lparr>rc_windowMs = 60000, rc_max = 9\<rparr>,
     so_callTimeoutMs = None, so_onCall = False, so_policy = None, so_maxPendingConfirmations = None, so_maxBodyBytes = None,
     so_dedupe = None, so_strictProduction = None\<rparr>"

lemma toy_start: "\<exists>g log. new_server toy_crypto id True (js ''f'', js ''f'') toy_options [] = (Inr g, log)"
  by (simp add: new_server_def toy_options_def check_production_def production_guard_def choose_signer_def and_then_def default_to_def)

lemma toy_options_strict: "so_strictProduction toy_options \<noteq> Some False"
  by (simp add: toy_options_def)

theorem production_gated_witness:
  "\<exists>g log. new_server toy_crypto id True (js ''f'', js ''f'') toy_options [] = (Inr g, log) \<and>
     fst (fst (serve toy_site 0 5 \<lparr>rq_path = js ''/lexicon'', rq_authorization = Some (js ''Bearer guess''), rq_remote = None\<rparr>
       (Some R_Lexicon) (raw_of None) g)) \<in> {401, 429}"
proof -
  let ?rq = "\<lparr>rq_path = js ''/lexicon'', rq_authorization = Some (js ''Bearer guess''), rq_remote = None\<rparr>"
  obtain g log where g: "new_server toy_crypto id True (js ''f'', js ''f'') toy_options [] = (Inr g, log)"
    using toy_start by blast
  obtain ans h where s: "serve toy_site 0 5 ?rq (Some R_Lexicon) (raw_of None) g = (ans, h)" by fastforce
  have t: "bearerToken (rq_authorization ?rq) = js ''guess''" by (simp add: bearerToken_def js_def)
  have "\<not> (\<exists>a. so_auth toy_options = Some a \<and> bearerToken (rq_authorization ?rq) \<noteq> [] \<and>
      buildVerify toy_crypto a (bearerToken (rq_authorization ?rq)))"
    unfolding t by (simp add: toy_options_def buildVerify_def toy_crypto_def)
  moreover have "rq_path ?rq \<noteq> js ''/health''" by simp
  ultimately have "fst ans \<in> {401, 429}" using production_gated [OF g toy_options_strict Started s] by blast
  with g s show ?thesis by auto
qed

section \<open>Scopes\<close>

text \<open>A policy that throws is a caller without scopes: a call or a ticket that needs one is refused.\<close>

lemma policy_fails_closed:
  assumes "map_of (sv_glyphs s) name = Some g" "default_to [] (gc_requiredScopes (gd_card g)) \<noteq> []" "f rq = Inl err"
    and "server_call cfg env name raw (resolvePrincipal (Some f) rq) s = (ans, s')"
  shows "sv_trace s' = sv_trace s"
proof (rule ccontr)
  assume "sv_trace s' \<noteq> sv_trace s"
  from server_call_ran [OF assms(4) this] assms(1) have "missingScopes (gc_requiredScopes (gd_card g)) None = []"
    by (auto simp: call_admitted_def resolvePrincipal_def assms(3))
  then show False using assms(2) by (simp add: missingScopes_Nil_iff)
qed

section \<open>Two registrations at once\<close>

text \<open>
  The check for a duplicate name comes before the \<open>await\<close>. Two registrations of one name that overlap
  both pass it, and the second card replaces the first without an error.
\<close>

lemma registerAsync_race:
  assumes "map_of (sv_glyphs s) (gc_name (gd_card g)) = None" "gc_name (gd_card h) = gc_name (gd_card g)"
    and "sg_signGlyph (sc_signer cfg) (gd_card g) = Some sig1" "sg_signGlyph (sc_signer cfg) (gd_card h) = Some sig2"
  shows "\<exists>s1 s2 k. registerAsync_check g s = (Inr (), s) \<and> registerAsync_check h s = (Inr (), s) \<and>
    registerAsync_enter cfg g s = (Inr (), s1) \<and> registerAsync_enter cfg h s1 = (Inr (), s2) \<and>
    map_of (sv_glyphs s2) (gc_name (gd_card g)) = Some k \<and> gd_handler k = gd_handler h"
  using assms by (auto simp: registerAsync_check_def registerAsync_enter_def Let_def store_laws)

end
