(* ===== verification/Cli_Init.thy ===== *)
theory Cli_Init
  imports Import_Mcp Conformance_Report Promotion
begin

text \<open>
  \<open>packages/cli/src/commands/init.ts\<close>: scaffolding a project. The texts of the generated programs are
  constants of the source; \<open>tmpl\<close> gives them by name. The disk is as in \<open>Import_Mcp\<close>.
\<close>

section \<open>Profiles\<close>

datatype init_template = LOCAL_DEV_SERVER | PRODUCTION_SERVER | CONSUMER_AGENT | MCP_BRIDGE_SERVER |
  OPENAPI_WRAPPER_SERVER | PYTHON_CLIENT | PYTHON_REQUIREMENTS

record init_project =
  ip_entry :: init_template
  ip_entryFile :: jstr
  ip_pkg :: jsval
  ip_extras :: "(jstr \<times> init_template) list"

definition TSCONFIG :: jstr where
  "TSCONFIG = ser_indented [] (JObj [(js ''compilerOptions'', JObj
     [(js ''target'', jlit ''ES2022''), (js ''module'', jlit ''NodeNext''), (js ''moduleResolution'', jlit ''NodeNext''),
      (js ''strict'', JBool True), (js ''skipLibCheck'', JBool True)])]) @ [10]"

definition ts_package :: "string \<Rightarrow> string \<times> string \<Rightarrow> (string \<times> string) list \<Rightarrow> jsval" where
  "ts_package name script deps =
     (let texts = (\<lambda>kvs. JObj (map (\<lambda>(k, v). (js k, jlit v)) kvs)) in JObj
       [(js ''name'', jlit name), (js ''private'', JBool True), (js ''type'', jlit ''module''), (js ''scripts'', texts [script]),
        (js ''dependencies'', texts deps), (js ''devDependencies'', texts [(''tsx'', ''^4.11.0'')])])"

definition agent_project :: init_project where
  "agent_project = \<lparr>ip_entry = CONSUMER_AGENT, ip_entryFile = js ''agent.ts'',
     ip_pkg = ts_package ''my-glyph-agent'' (''start'', ''tsx agent.ts'')
       [(''@glyphp/client'', ''latest''), (''@glyphp/core'', ''latest'')], ip_extras = []\<rparr>"

definition server_project :: "init_template \<Rightarrow> string \<Rightarrow> string \<Rightarrow> (string \<times> string) list \<Rightarrow> init_project" where
  "server_project entry name script deps = \<lparr>ip_entry = entry, ip_entryFile = js ''server.ts'',
     ip_pkg = ts_package name (script, ''tsx server.ts'') ((''@glyphp/server'', ''latest'') # deps), ip_extras = []\<rparr>"

definition python_project :: init_project where
  "python_project = \<lparr>ip_entry = PYTHON_CLIENT, ip_entryFile = js ''agent.py'',
     ip_pkg = JObj [(js ''name'', jlit ''my-glyph-python-client''), (js ''private'', JBool True), (js ''type'', jlit ''module'')],
     ip_extras = [(js ''requirements.txt'', PYTHON_REQUIREMENTS)]\<rparr>"

definition PROFILES :: "(jstr \<times> init_project) list" where
  "PROFILES =
     [(js ''local-dev'', server_project LOCAL_DEV_SERVER ''my-glyph-server'' ''dev'' [(''zod'', ''^3.23.8'')]),
      (js ''production-server'', server_project PRODUCTION_SERVER ''my-glyph-server'' ''start''
         [(''@glyphp/core'', ''latest''), (''zod'', ''^3.23.8'')]),
      (js ''agent-ts'', agent_project), (js ''consumer-agent'', agent_project),
      (js ''mcp-bridge'', server_project MCP_BRIDGE_SERVER ''my-mcp-bridge'' ''start'' [(''@glyphp/adapter-mcp'', ''latest'')]),
      (js ''openapi-wrapper'', server_project OPENAPI_WRAPPER_SERVER ''my-openapi-wrapper'' ''start''
         [(''@glyphp/adapter-openapi'', ''latest'')]),
      (js ''python-client'', python_project)]"

section \<open>Writing the project\<close>

definition in_dir :: "disk \<Rightarrow> jstr \<Rightarrow> jstr \<Rightarrow> bool" where
  "in_dir d dir name \<longleftrightarrow> map_of d (path_join dir name) \<noteq> None"

fun write_extras :: "(init_template \<Rightarrow> jstr) \<Rightarrow> (jstr \<Rightarrow> jstr option) \<Rightarrow> jstr \<Rightarrow> (jstr \<times> init_template) list \<Rightarrow> unit disk_step" where
  "write_extras tmpl broken dir [] = return ()"
| "write_extras tmpl broken dir ((name, body) # rest) =
     and_then (write_file broken (path_join dir name) (tmpl body)) (\<lambda>_. write_extras tmpl broken dir rest)"

definition write_scaffold ::
  "(init_template \<Rightarrow> jstr) \<Rightarrow> (jstr \<Rightarrow> jstr option) \<Rightarrow> jstr \<Rightarrow> jstr \<Rightarrow> init_project \<Rightarrow> unit disk_step" where
  "write_scaffold tmpl broken dir profile cfg =
     (let python = (profile = js ''python-client'') in
      and_then (write_file broken (path_join dir (js ''package.json'')) (ser_indented [] (ip_pkg cfg) @ [10])) (\<lambda>_.
      and_then (write_file broken (path_join dir (ip_entryFile cfg)) (tmpl (ip_entry cfg))) (\<lambda>_.
      and_then (if \<not> python then write_file broken (path_join dir (js ''tsconfig.json'')) TSCONFIG else return ()) (\<lambda>_.
      and_then (write_file broken (path_join dir (js ''.gitignore''))
         (if python then lines [js ''venv'', js ''__pycache__'', js ''*.pyc'', []] else lines [js ''node_modules'', []])) (\<lambda>_.
        write_extras tmpl broken dir (ip_extras cfg))))))"

definition next_steps :: "jstr \<Rightarrow> jstr \<Rightarrow> jstr list" where
  "next_steps dir profile =
     (let cd = js ''  cd '' @ dir; install = js ''  pnpm install''; start = js ''  pnpm start'' in
      if profile = js ''production-server'' then
        [cd, install, js ''  # Set GLYPH_PUBLIC_KEY, GLYPH_PRIVATE_KEY, GLYPH_AUTH_TOKEN in your env'', start]
      else if profile = js ''agent-ts'' \<or> profile = js ''consumer-agent'' then
        [cd, install, js ''  # Set GLYPH_SERVER_URL (and optionally GLYPH_AUTH_TOKEN)'', start]
      else if profile = js ''mcp-bridge'' then
        [cd, install, js ''  # Point MCP_COMMAND/MCP_ARGS at the MCP server you want to re-export'', start]
      else if profile = js ''openapi-wrapper'' then
        [cd, install, js ''  # Drop your OpenAPI 3.x spec at ./openapi.json and set UPSTREAM_BASE_URL'', start]
      else if profile = js ''python-client'' then
        [cd, js ''  python -m venv venv && source venv/bin/activate'', js ''  pip install -r requirements.txt'',
         js ''  # Set GLYPH_SERVER_URL (and optionally GLYPH_AUTH_TOKEN)'', js ''  python agent.py'']
      else [cd, install, js ''  pnpm dev''])"

definition init_report :: "jstr \<Rightarrow> jstr \<Rightarrow> init_project \<Rightarrow> jstr" where
  "init_report dir profile cfg =
     (let dot = js ''  '' @ [183] @ js ''  '' in lines
       ([js ''Scaffolded a Glyph project (profile: '' @ profile @ js '') in '' @ dir,
         js ''  package.json'' @ dot @ ip_entryFile cfg @ dot @ js ''tsconfig.json'' @ dot @ js ''.gitignore'', [],
         js ''next steps:''] @ next_steps dir profile))"

text \<open>
  \<open>PROFILES[profile]\<close> with an inherited name finds a member of \<open>Object.prototype\<close>: it is truthy and has
  neither an entry file nor a package, so \<open>undefined\<close> is written before \<open>join\<close> throws.
\<close>

definition init_inherited :: "(jstr \<Rightarrow> jstr option) \<Rightarrow> jstr \<Rightarrow> jstr disk_step" where
  "init_inherited broken dir =
     and_then (touch broken dir) (\<lambda>_ d.
       if in_dir d dir (js ''package.json'') then (Inl (dir @ js '' already contains a project '' @ [8212] @ js '' refusing to overwrite''), d)
       else and_then (write_file broken (path_join dir (js ''package.json'')) (js ''undefined'' @ [10])) (\<lambda>_.
         throw (js ''The \"path\" argument must be of type string. Received undefined'')) d)"

definition scaffold ::
  "(init_template \<Rightarrow> jstr) \<Rightarrow> (jstr \<Rightarrow> jstr option) \<Rightarrow> jstr \<Rightarrow> jstr \<Rightarrow> init_project \<Rightarrow> jstr disk_step" where
  "scaffold tmpl broken dir profile cfg d =
     (if in_dir d dir (js ''package.json'') \<or> in_dir d dir (ip_entryFile cfg)
      then (Inl (dir @ js '' already contains a project '' @ [8212] @ js '' refusing to overwrite''), d)
      else and_then (write_scaffold tmpl broken dir profile cfg) (\<lambda>_. return (init_report dir profile cfg)) d)"

definition runInit ::
  "(init_template \<Rightarrow> jstr) \<Rightarrow> (jstr \<Rightarrow> jstr option) \<Rightarrow> jstr \<Rightarrow> jstr option \<Rightarrow> jstr disk_step" where
  "runInit tmpl broken dir option =
     (let profile = default_to (js ''production-server'') option in
      if profile \<in> set inherited_keys then init_inherited broken dir
      else case map_of PROFILES profile of
        None \<Rightarrow> throw (js ''unknown profile \"'' @ profile @ js ''\" '' @ [8212] @ js '' choose from: '' @ intercalate (js '', '') (map fst PROFILES))
      | Some cfg \<Rightarrow>
          and_then (touch broken dir) (\<lambda>_. scaffold tmpl broken dir profile cfg))"

section \<open>The interactive choice\<close>

definition PROMPT_CHOICES :: "(jstr \<times> jstr) list" where
  "PROMPT_CHOICES = [(js ''1'', js ''production-server''), (js ''2'', js ''agent-ts''), (js ''3'', js ''mcp-bridge''),
     (js ''4'', js ''openapi-wrapper''), (js ''5'', js ''python-client''), (js ''6'', js ''local-dev'')]"

definition promptInitProfile :: "jstr \<Rightarrow> jstr" where
  "promptInitProfile typed =
     (let answer = (if js_trim typed = [] then js ''1'' else js_trim typed) in
      case find (\<lambda>(key, profile). key = answer \<or> profile = answer) PROMPT_CHOICES of
        None \<Rightarrow> js ''production-server'' | Some (key, profile) \<Rightarrow> profile)"

text \<open>Whatever is typed, the profile is one that exists.\<close>

lemma prompt_known: "map_of PROFILES (promptInitProfile typed) \<noteq> None \<and> promptInitProfile typed \<notin> set inherited_keys"
proof -
  have "promptInitProfile typed \<in> snd ` set PROMPT_CHOICES"
  proof (cases "find (\<lambda>(key, profile). key = (if js_trim typed = [] then js ''1'' else js_trim typed) \<or>
      profile = (if js_trim typed = [] then js ''1'' else js_trim typed)) PROMPT_CHOICES")
    case None
    then show ?thesis by (simp add: promptInitProfile_def Let_def PROMPT_CHOICES_def)
  next
    case (Some c)
    then have "c \<in> set PROMPT_CHOICES" by (auto simp: find_Some_iff intro: nth_mem)
    moreover have "promptInitProfile typed = snd c" using Some by (cases c) (simp add: promptInitProfile_def Let_def)
    ultimately show ?thesis by simp
  qed
  then show ?thesis by (auto simp: PROMPT_CHOICES_def PROFILES_def inherited_keys_def)
qed

section \<open>What a scaffold replaces\<close>

text \<open>The step leaves every path but those of \<open>names\<close> in the directory as it was.\<close>

definition replaces :: "jstr \<Rightarrow> jstr set \<Rightarrow> 'a disk_step \<Rightarrow> bool" where
  "replaces dir names m \<longleftrightarrow> (\<forall>d p. map_of (snd (m d)) p \<noteq> map_of d p \<longrightarrow> (\<exists>n\<in>names. p = path_join dir n))"

lemma replaces_then:
  assumes "replaces dir names m" "\<And>a. replaces dir names (f a)"
  shows "replaces dir names (and_then m f)"
  unfolding replaces_def
proof (intro allI impI)
  fix d p assume "map_of (snd (and_then m f d)) p \<noteq> map_of d p"
  then consider "map_of (snd (m d)) p \<noteq> map_of d p" | a d' where "m d = (Inr a, d')" "map_of (snd (f a d')) p \<noteq> map_of d' p"
    by (cases "map_of (snd (m d)) p = map_of d p") (auto simp: and_then_def split: prod.splits sum.splits)
  then show "\<exists>n\<in>names. p = path_join dir n" using assms unfolding replaces_def by cases blast+
qed

lemma replaces_basic:
  "replaces dir names (return a)" "replaces dir names (throw e)" "replaces dir names (touch broken p)"
  by (simp_all add: replaces_def return_def throw_def touch_def split: option.splits)

lemma replaces_file: "n \<in> names \<Longrightarrow> replaces dir names (write_file broken (path_join dir n) content)"
  by (auto simp: replaces_def write_file_def store_laws split: option.splits if_splits)

lemma replaces_extras: "set (map fst extras) \<subseteq> names \<Longrightarrow> replaces dir names (write_extras tmpl broken dir extras)"
  by (induction tmpl broken dir extras rule: write_extras.induct) (simp_all add: replaces_basic replaces_then replaces_file)

definition scaffold_names :: "init_project \<Rightarrow> jstr set" where
  "scaffold_names cfg =
     {js ''package.json'', ip_entryFile cfg, js ''tsconfig.json'', js ''.gitignore''} \<union> set (map fst (ip_extras cfg))"

lemma replaces_scaffold: "replaces dir (scaffold_names cfg) (write_scaffold tmpl broken dir profile cfg)"
  unfolding write_scaffold_def Let_def
  by (intro replaces_then; (split if_split)?; auto intro!: replaces_file replaces_extras replaces_basic simp: scaffold_names_def)

lemma replaces_guarded: "replaces dir (scaffold_names cfg) (scaffold tmpl broken dir profile cfg)"
  using replaces_then [OF replaces_scaffold replaces_basic(1), of dir cfg tmpl broken profile "\<lambda>_. init_report dir profile cfg"]
  unfolding replaces_def scaffold_def by (simp split: if_split)

text \<open>
  C34. Scaffolding never replaces a project: \<open>runInit\<close> changes no file outside the fixed names of the
  chosen profile in its directory, and when that directory holds a \<open>package.json\<close> or the profile's
  program already, it throws and changes nothing.
\<close>

theorem init_keeps_project:
  assumes "runInit tmpl broken dir (Some profile) d = (r, d')" "map_of PROFILES profile = Some cfg"
  shows "(\<forall>p. map_of d' p \<noteq> map_of d p \<longrightarrow> (\<exists>n\<in>scaffold_names cfg. p = path_join dir n)) \<and>
    (in_dir d dir (js ''package.json'') \<or> in_dir d dir (ip_entryFile cfg) \<longrightarrow> d' = d \<and> (\<exists>msg. r = Inl msg))"
proof -
  have n: "profile \<notin> set inherited_keys" using assms(2) by (auto simp: PROFILES_def inherited_keys_def split: if_splits)
  then have run: "runInit tmpl broken dir (Some profile) = and_then (touch broken dir) (\<lambda>_. scaffold tmpl broken dir profile cfg)"
    using assms(2) by (simp add: runInit_def default_to_def)
  have "replaces dir (scaffold_names cfg) (runInit tmpl broken dir (Some profile))"
    unfolding run by (intro replaces_then replaces_basic replaces_guarded)
  then have "\<forall>p. map_of d' p \<noteq> map_of d p \<longrightarrow> (\<exists>n\<in>scaffold_names cfg. p = path_join dir n)"
    using assms(1) unfolding replaces_def by (metis snd_conv)
  moreover have "d' = d \<and> (\<exists>msg. r = Inl msg)" if "in_dir d dir (js ''package.json'') \<or> in_dir d dir (ip_entryFile cfg)"
    using assms(1) that unfolding run
    by (auto simp: and_then_def touch_def return_def throw_def scaffold_def split: option.splits)
  ultimately show ?thesis by blast
qed

definition old_disk :: disk where
  "old_disk = [(js ''app/package.json'', js ''{}''), (js ''app/.gitignore'', js ''.env'')]"

lemmas path_eval = path_join_def path_normalize_def path_segments_def push_segment_def is_absolute_def js_def uc_def

theorem init_keeps_project_witness:
  "snd (runInit (\<lambda>_. []) (\<lambda>_. None) (js ''app'') (Some (js ''agent-ts'')) old_disk) = old_disk"
proof -
  obtain r d' where r: "runInit (\<lambda>_. []) (\<lambda>_. None) (js ''app'') (Some (js ''agent-ts'')) old_disk = (r, d')" by fastforce
  have "map_of PROFILES (js ''agent-ts'') = Some agent_project" by (simp add: PROFILES_def)
  moreover have "path_join (js ''app'') (js ''package.json'') = js ''app/package.json''" by (simp add: path_eval)
  then have "in_dir old_disk (js ''app'') (js ''package.json'')" by (simp add: in_dir_def old_disk_def)
  ultimately have "d' = old_disk" using init_keeps_project [OF r] by blast
  with r show ?thesis by simp
qed

text \<open>
  The guard looks at two names only. A directory that holds just a \<open>.gitignore\<close> of its own loses it.
\<close>

lemma init_replaces_gitignore:
  "map_of (snd (runInit (\<lambda>_. []) (\<lambda>_. None) (js ''app'') (Some (js ''agent-ts'')) [(js ''app/.gitignore'', js ''.env'')]))
     (js ''app/.gitignore'') = Some (lines [js ''node_modules'', []])"
proof -
  have p: "path_join (js ''app'') (js n) = js (''app/'' @ n)" if "n \<in> {''package.json'', ''agent.ts'', ''tsconfig.json'', ''.gitignore''}" for n
    using that by (auto simp: path_eval)
  show ?thesis
    by (simp add: runInit_def default_to_def PROFILES_def inherited_keys_def agent_project_def scaffold_def in_dir_def touch_def write_scaffold_def
        and_then_def return_def write_file_def p [simplified] Let_def)
qed

end
