(* ===== verification/Import_Select.thy ===== *)
theory Import_Select
  imports Import_Mcp Conformance_Report
begin

text \<open>
  The choice of servers in \<open>packages/cli/src/commands/import-mcp/index.ts\<close>, with a terminal: \<open>answer\<close> is
  what is typed at a prompt. \<open>number\<close> is \<open>Number(text)\<close>, \<open>None\<close> unless it is an integer.
\<close>

definition pickFromList ::
  "(jstr \<Rightarrow> int option) \<Rightarrow> jstr \<Rightarrow> mcp_server_config list \<Rightarrow> jstr + mcp_server_config list" where
  "pickFromList number answer configs =
     (let pick = js_trim answer in
      if pick = [] \<or> map ascii_lower pick = js ''all'' then Inr configs
      else
        let picks = List.map_filter (\<lambda>p. map_option (\<lambda>n. n - 1) (number (js_trim p))) (split_comma pick);
            subset = map (\<lambda>n. configs ! nat n) (filter (\<lambda>n. 0 \<le> n \<and> n < int (length configs)) picks)
        in if subset = [] then Inl (js ''no valid selections in \"'' @ pick @ js ''\"'') else Inr subset)"

text \<open>A client whose files cannot be read is left out with a warning.\<close>

definition detected_clients ::
  "(jstr \<Rightarrow> jstr + jsval) \<Rightarrow> client_files \<Rightarrow> (client_id \<times> mcp_server_config list) list" where
  "detected_clients toml files =
     List.map_filter (\<lambda>c. if adapter_detect files c
       then (case adapter_load toml files c of Inl _ \<Rightarrow> None | Inr configs \<Rightarrow> Some (c, configs)) else None) ALL_CLIENT_IDS"

definition interactiveSelect ::
  "(jstr \<Rightarrow> int option) \<Rightarrow> bool \<Rightarrow> jstr \<times> jstr \<Rightarrow> (jstr \<Rightarrow> jstr + jsval) \<Rightarrow> client_files \<Rightarrow> jstr + mcp_server_config list" where
  "interactiveSelect number tty answers toml files =
     (if \<not> tty then Inl (js ''interactive client picker requires a TTY '' @ [8212] @ js '' pass --from <client> or --command/--url'')
      else
        let detected = detected_clients toml files in
        if detected = [] then Inl (js ''no supported MCP client config detected on this machine. Pass --command or --url for a manual target.'')
        else
          let pick = (if js_trim (fst answers) = [] then js ''1'' else js_trim (fst answers)) in
          case number pick of
            Some n \<Rightarrow>
              if 1 \<le> n \<and> n \<le> int (length detected) then pickFromList number (snd answers) (snd (detected ! nat (n - 1)))
              else Inl (js ''invalid selection: '' @ pick)
          | None \<Rightarrow> Inl (js ''invalid selection: '' @ pick))"

definition select_configs ::
  "(jstr \<Rightarrow> int option) \<Rightarrow> bool \<Rightarrow> jstr \<times> jstr \<Rightarrow> (jstr \<Rightarrow> jstr option) \<Rightarrow> (jstr \<Rightarrow> jstr + jsval) \<Rightarrow> client_files
    \<Rightarrow> jstr option \<Rightarrow> bool \<Rightarrow> manual_options option \<Rightarrow> jstr + mcp_server_config list" where
  "select_configs number tty answers hostname toml files from pick manual =
     (if manual = None \<and> \<not> truthy from then interactiveSelect number tty answers toml files
      else case resolveConfigs hostname toml files manual (find (\<lambda>c. Some (js (client_str c)) = from) ALL_CLIENT_IDS) of
        Inl e \<Rightarrow> Inl e
      | Inr configs \<Rightarrow> if manual = None \<and> pick \<and> tty then pickFromList number (fst answers) configs else Inr configs)"

section \<open>Only what was offered\<close>

lemma pick_subset: "pickFromList number answer configs = Inr cs \<Longrightarrow> set cs \<subseteq> set configs"
  by (auto simp: pickFromList_def Let_def split: if_splits)

lemma chosen_nth: "1 \<le> n \<Longrightarrow> n \<le> int (length xs) \<Longrightarrow> P (xs ! nat (n - 1)) \<Longrightarrow> \<exists>i<length xs. P (xs ! i)"
  by (rule exI [of _ "nat (n - 1)"]) simp

lemma interactive_offered:
  assumes "interactiveSelect number tty answers toml files = Inr cs"
  shows "\<exists>c configs. adapter_detect files c \<and> adapter_load toml files c = Inr configs \<and> set cs \<subseteq> set configs"
proof -
  let ?d = "detected_clients toml files"
  have "\<exists>i<length ?d. pickFromList number (snd answers) (snd (?d ! i)) = Inr cs"
    using assms by (auto simp: interactiveSelect_def Let_def split: if_splits option.splits intro: chosen_nth)
  then obtain i where i: "i < length ?d" "set cs \<subseteq> set (snd (?d ! i))" using pick_subset by blast
  then obtain c configs where c: "?d ! i = (c, configs)" by fastforce
  with i have "(c, configs) \<in> set ?d" using nth_mem by metis
  then have "adapter_detect files c \<and> adapter_load toml files c = Inr configs"
    by (auto simp: detected_clients_def List.map_filter_def split: if_splits sum.splits)
  with i(2) c show ?thesis by auto
qed

end
