(* ===== verification/Cli_Main.thy ===== *)
theory Cli_Main
  imports Cli_Cards Cli_Keys Cli_Init Import_Select
begin

text \<open>
  \<open>packages/cli/src/cli.ts\<close>: from a command line to a command, its effect and the exit code of the
  process. The console is not modelled; an error a command throws is exit code 1.
\<close>

section \<open>Commands\<close>

datatype cli_call =
    Call_Inspect jstr "jstr option"
  | Call_Verify jstr
  | Call_Diff jstr jstr
  | Call_Pins_List "jstr option"
  | Call_Approve jstr "jstr option" bool
  | Call_Revoke jstr "jstr option" "jstr option"
  | Call_Audit_List "jstr option"
  | Call_Manifest_Verify jstr
  | Call_Init jstr "jstr option"
  | Call_Import "jstr option" bool "manual_options option" import_options
  | Call_Keys_Init jstr "jstr option"
  | Call_Keys_Rotate jstr jstr
  | Call_Keys_Revoke jstr jstr jstr "jstr option"
  | Call_Keys_List jstr
  | Call_Help

text \<open>The surroundings of one process: keys it may generate, clocks, the network, the terminal.\<close>

record cli_env =
  ce_crypto :: crypto
  ce_freshKey :: key_pair
  ce_randomId :: jstr
  ce_now :: jstr
  ce_issued :: jstr
  ce_home :: jstr
  ce_cards :: "glyph_card source_reader"
  ce_manifests :: "update_manifest source_reader"
  ce_client :: client_config
  ce_collate :: "lexicon_entry list \<Rightarrow> lexicon_entry list"
  ce_import :: import_world
  ce_hostname :: "jstr \<Rightarrow> jstr option"
  ce_toml :: "jstr \<Rightarrow> jstr + jsval"
  ce_clientFiles :: client_files
  ce_templates :: "init_template \<Rightarrow> jstr"
  ce_number :: "jstr \<Rightarrow> int option"
  ce_tty :: bool
  ce_typed :: "jstr \<times> jstr"

text \<open>The files the commands work on, by path: key registries, pin stores, audit queues, and the rest.\<close>

record cli_world =
  cw_keys :: "jstr \<Rightarrow> keys_file"
  cw_pins :: "jstr \<Rightarrow> pin_file"
  cw_audits :: "jstr \<Rightarrow> pending_entry store_file \<times> bool"
  cw_disk :: disk

section \<open>Reading the command line\<close>

type_synonym cli_flags = "(jstr \<times> flag_value) list"

definition text_flag :: "cli_flags \<Rightarrow> string \<Rightarrow> jstr option" where
  "text_flag flags name = (case map_of flags (js name) of Some (Flag_Text t) \<Rightarrow> Some t | _ \<Rightarrow> None)"

definition bool_flag :: "cli_flags \<Rightarrow> string \<Rightarrow> bool" where
  "bool_flag flags name = (case map_of flags (js name) of Some (Flag_Text t) \<Rightarrow> t \<noteq> [] | Some Flag_Set \<Rightarrow> True | None \<Rightarrow> False)"

text \<open>\<open>args[i]\<close>, \<open>undefined\<close> beyond the end; \<open>!args[i]\<close> also holds of an empty text.\<close>

definition arg :: "jstr list \<Rightarrow> nat \<Rightarrow> jstr option" where
  "arg args i = (if i < length args then Some (args ! i) else None)"

definition needs :: "jstr option \<Rightarrow> string \<Rightarrow> (jstr \<Rightarrow> jstr + 'a) \<Rightarrow> jstr + 'a" where
  "needs a message k = (if truthy a then k (the a) else Inl (js message))"

definition with_flags :: "jstr list \<Rightarrow> string list \<Rightarrow> (jstr list \<Rightarrow> cli_flags \<Rightarrow> jstr + 'a) \<Rightarrow> jstr + 'a" where
  "with_flags args withValue k = (case parseFlags args (map js withValue) of Inl e \<Rightarrow> Inl e | Inr (rest, flags) \<Rightarrow> k rest flags)"

definition dispatch_inspect :: "jstr list \<Rightarrow> jstr + cli_call" where
  "dispatch_inspect args = needs (arg args 0) ''inspect requires a server URL'' (\<lambda>url. Inr (Call_Inspect url (arg args 1)))"

definition dispatch_verify :: "jstr list \<Rightarrow> jstr + cli_call" where
  "dispatch_verify args = needs (arg args 0) ''verify requires a file path or URL'' (\<lambda>source. Inr (Call_Verify source))"

definition dispatch_diff :: "jstr list \<Rightarrow> jstr + cli_call" where
  "dispatch_diff args =
     needs (arg args 0) ''diff-card requires two card sources (file or URL)'' (\<lambda>a.
     needs (arg args 1) ''diff-card requires two card sources (file or URL)'' (\<lambda>b. Inr (Call_Diff a b)))"

definition dispatch_pins :: "jstr list \<Rightarrow> jstr + cli_call" where
  "dispatch_pins args = with_flags args [''file''] (\<lambda>rest flags.
     if arg rest 0 \<noteq> Some (js ''list'') then Inl (js ''pins list is the only subcommand for now'')
     else Inr (Call_Pins_List (text_flag flags ''file'')))"

definition dispatch_approve :: "jstr list \<Rightarrow> jstr + cli_call" where
  "dispatch_approve args = with_flags args [''file''] (\<lambda>rest flags.
     needs (arg rest 0) ''approve requires a card source (file or URL)'' (\<lambda>source.
       Inr (Call_Approve source (text_flag flags ''file'') (bool_flag flags ''reinstate''))))"

definition dispatch_revoke :: "jstr list \<Rightarrow> jstr + cli_call" where
  "dispatch_revoke args = with_flags args [''file'', ''reason''] (\<lambda>rest flags.
     needs (arg rest 0) ''revoke requires a tool name'' (\<lambda>tool.
       Inr (Call_Revoke tool (text_flag flags ''file'') (text_flag flags ''reason''))))"

definition dispatch_audit :: "jstr list \<Rightarrow> jstr + cli_call" where
  "dispatch_audit args = with_flags args [''file''] (\<lambda>rest flags.
     if arg rest 0 \<noteq> Some (js ''list'') then Inl (js ''audit list is the only subcommand for now'')
     else Inr (Call_Audit_List (text_flag flags ''file'')))"

definition dispatch_manifest :: "jstr list \<Rightarrow> jstr + cli_call" where
  "dispatch_manifest args =
     (if arg args 0 \<noteq> Some (js ''verify'') then Inl (js ''manifest verify is the only subcommand'')
      else needs (arg args 1) ''manifest verify requires a file path or URL'' (\<lambda>source. Inr (Call_Manifest_Verify source)))"

definition dispatch_init :: "bool \<Rightarrow> jstr \<Rightarrow> jstr list \<Rightarrow> jstr + cli_call" where
  "dispatch_init tty typed args = with_flags args [''profile''] (\<lambda>rest flags.
     let profile = text_flag flags ''profile'' in
       Inr (Call_Init (default_to (js ''.'') (arg rest 0))
         (if \<not> truthy profile \<and> tty then Some (promptInitProfile typed) else profile)))"

definition number_flag :: "(jstr \<Rightarrow> int option) \<Rightarrow> cli_flags \<Rightarrow> string \<Rightarrow> int \<Rightarrow> int option" where
  "number_flag number flags name d =
     (if truthy (text_flag flags name) then number (the (text_flag flags name)) else Some d)"

definition import_manual :: "cli_flags \<Rightarrow> manual_options option" where
  "import_manual flags =
     (let command = text_flag flags ''command''; url = text_flag flags ''url'' in
      if truthy command \<or> truthy url
      then Some \<lparr>mn_command = command, mn_url = url, mn_bearerToken = text_flag flags ''bearer-token'', mn_name = text_flag flags ''name''\<rparr>
      else None)"

definition dispatch_import :: "(jstr \<Rightarrow> int option) \<Rightarrow> jstr list \<Rightarrow> jstr + cli_call" where
  "dispatch_import number args =
     (if arg args 0 \<noteq> Some (js ''mcp'') then Inl (js ''import mcp is the only subcommand for now'')
      else with_flags (drop 1 args)
        [''from'', ''command'', ''url'', ''bearer-token'', ''output'', ''port-base'', ''timeout-ms'', ''name''] (\<lambda>_ flags.
          let from = text_flag flags ''from''; ids = map (\<lambda>c. js (client_str c)) ALL_CLIENT_IDS;
              portBase = number_flag number flags ''port-base'' 3100; timeoutMs = number_flag number flags ''timeout-ms'' 10000 in
          if truthy from \<and> the from \<notin> set ids then Inl (js ''--from must be one of: '' @ intercalate (js '', '') ids)
          else (case portBase of None \<Rightarrow> Inl (js ''--port-base must be a valid port'') | Some port \<Rightarrow>
            if port < 1 \<or> port > 65535 then Inl (js ''--port-base must be a valid port'')
            else (case timeoutMs of None \<Rightarrow> Inl (js ''--timeout-ms must be '' @ [8805] @ js '' 100'') | Some ms \<Rightarrow>
              if ms < 100 then Inl (js ''--timeout-ms must be '' @ [8805] @ js '' 100'')
              else Inr (Call_Import from (bool_flag flags ''pick'') (import_manual flags)
                \<lparr>io_output = default_to (js ''glyph-imports'') (text_flag flags ''output''), io_portBase = port,
                 io_dryRun = bool_flag flags ''dry-run'', io_timeoutMs = ms\<rparr>)))))"

definition dispatch_keys :: "jstr list \<Rightarrow> jstr + cli_call" where
  "dispatch_keys args = with_flags args [''file'', ''server-id'', ''previous-private-key'', ''active-private-key'', ''reason''] (\<lambda>rest flags.
     let sub = arg rest 0; file = default_to (js ''./keys.json'') (text_flag flags ''file'') in
     if sub = Some (js ''init'') then Inr (Call_Keys_Init file (text_flag flags ''server-id''))
     else if sub = Some (js ''rotate'') then
       needs (text_flag flags ''previous-private-key'') ''keys rotate requires --previous-private-key <hex>'' (\<lambda>key.
         Inr (Call_Keys_Rotate file key))
     else if sub = Some (js ''revoke'') then
       needs (arg rest 1) ''keys revoke requires a fingerprint'' (\<lambda>fingerprint.
       needs (text_flag flags ''active-private-key'') ''keys revoke requires --active-private-key <hex>'' (\<lambda>key.
         Inr (Call_Keys_Revoke file fingerprint key (text_flag flags ''reason''))))
     else if sub = Some (js ''list'') then Inr (Call_Keys_List file)
     else Inl (js ''keys <init|rotate|revoke|list>''))"

text \<open>\<open>Inl\<close> is \<open>fail\<close>: the usage on the console and exit code 2.\<close>

definition dispatch :: "(jstr \<Rightarrow> int option) \<Rightarrow> bool \<Rightarrow> jstr \<Rightarrow> jstr list \<Rightarrow> jstr + cli_call" where
  "dispatch number tty typed argv =
     (case argv of
        [] \<Rightarrow> Inr Call_Help
      | command # args \<Rightarrow>
          if command = js ''inspect'' then dispatch_inspect args
          else if command = js ''verify'' then dispatch_verify args
          else if command = js ''diff-card'' then dispatch_diff args
          else if command = js ''pins'' then dispatch_pins args
          else if command = js ''approve'' then dispatch_approve args
          else if command = js ''revoke'' then dispatch_revoke args
          else if command = js ''audit'' then dispatch_audit args
          else if command = js ''manifest'' then dispatch_manifest args
          else if command = js ''init'' then dispatch_init tty typed args
          else if command = js ''import'' then dispatch_import number args
          else if command = js ''keys'' then dispatch_keys args
          else if command = js ''--help'' \<or> command = js ''-h'' then Inr Call_Help
          else Inl (js ''unknown command: '' @ command))"

section \<open>Running a command\<close>

type_synonym cli_step = "(cli_world, unit, bool) step"

text \<open>The result of a command is its verdict; what it throws is \<open>Inl\<close>.\<close>

definition verdict :: "'e + command_result \<Rightarrow> unit + bool" where
  "verdict r = (case r of Inl e \<Rightarrow> Inl () | Inr c \<Rightarrow> Inr (cm_ok c))"

definition completed :: "'e + 'a \<Rightarrow> unit + bool" where
  "completed r = (case r of Inl e \<Rightarrow> Inl () | Inr a \<Rightarrow> Inr True)"

definition on_keys :: "jstr \<Rightarrow> keys_command \<Rightarrow> cli_step" where
  "on_keys f m w = (case m (cw_keys w f) of (r, d) \<Rightarrow> (verdict r, w\<lparr>cw_keys := (cw_keys w)(f := d)\<rparr>))"

definition on_pins :: "jstr \<Rightarrow> (pin_file, 'e, command_result) step \<Rightarrow> cli_step" where
  "on_pins f m w = (case m (cw_pins w f) of (r, d) \<Rightarrow> (verdict r, w\<lparr>cw_pins := (cw_pins w)(f := d)\<rparr>))"

definition on_disk :: "'a disk_step \<Rightarrow> cli_step" where
  "on_disk m w = (case m (cw_disk w) of (r, d) \<Rightarrow> (completed r, w\<lparr>cw_disk := d\<rparr>))"

definition DEFAULT_PIN_FILE :: "cli_env \<Rightarrow> jstr" where
  "DEFAULT_PIN_FILE env = ce_home env @ js ''/.glyph/pins.json''"

definition DEFAULT_QUEUE_FILE :: "cli_env \<Rightarrow> jstr" where
  "DEFAULT_QUEUE_FILE env = ce_home env @ js ''/.glyph/pending-audits.json''"

definition inspect_client :: "jstr \<Rightarrow> client_options" where
  "inspect_client url = (cli_client (File_Missing, True))\<lparr>op_baseUrl := url, op_pins := None\<rparr>"

fun run_call :: "cli_env \<Rightarrow> cli_call \<Rightarrow> cli_step" where
  "run_call env (Call_Inspect url name) w =
     (completed (fst (runInspect (ce_client env) (ce_collate env) url name (initial_client (inspect_client url)))), w)"
| "run_call env (Call_Verify source) w = (verdict (runVerify (ce_crypto env) (ce_cards env) source), w)"
| "run_call env (Call_Diff a b) w = (verdict (runDiffCard (ce_cards env) a b), w)"
| "run_call env (Call_Pins_List file) w = (verdict (runPinsList (cw_pins w (default_to (DEFAULT_PIN_FILE env) file))), w)"
| "run_call env (Call_Approve source file reinstate) w =
     (let f = default_to (DEFAULT_PIN_FILE env) file in
      on_pins f (runPinsApprove (ce_client env) (ce_cards env) (ce_now env) f source (Some reinstate)) w)"
| "run_call env (Call_Revoke tool file reason) w =
     on_pins (default_to (DEFAULT_PIN_FILE env) file) (runPinsRevoke (ce_now env) tool reason) w"
| "run_call env (Call_Audit_List file) w = (verdict (runAuditList (cw_audits w (default_to (DEFAULT_QUEUE_FILE env) file))), w)"
| "run_call env (Call_Manifest_Verify source) w = (verdict (runManifestVerify (ce_crypto env) (ce_manifests env) source), w)"
| "run_call env (Call_Init dir profile) w = on_disk (runInit (ce_templates env) (iw_broken (ce_import env)) dir profile) w"
| "run_call env (Call_Import from pick manual opts) w =
     on_disk (runImportMcp (ce_import env) opts (select_configs (ce_number env) (ce_tty env) (ce_typed env)
       (ce_hostname env) (ce_toml env) (ce_clientFiles env) from pick manual)) w"
| "run_call env (Call_Keys_Init file sid) w =
     on_keys file (runKeysInit (ce_crypto env) (ce_randomId env) (ce_freshKey env) (ce_now env) (ce_issued env) file sid) w"
| "run_call env (Call_Keys_Rotate file key) w =
     on_keys file (runKeysRotate (ce_crypto env) (ce_freshKey env) (ce_now env) (ce_issued env) key) w"
| "run_call env (Call_Keys_Revoke file fingerprint key reason) w =
     on_keys file (runKeysRevoke (ce_crypto env) (ce_now env) (ce_issued env) fingerprint reason key) w"
| "run_call env (Call_Keys_List file) w = on_keys file (runKeysList (ce_crypto env) file) w"
| "run_call env Call_Help w = (Inr True, w)"

text \<open>The process: its exit code and what it leaves behind.\<close>

definition cli_main :: "cli_env \<Rightarrow> jstr list \<Rightarrow> cli_world \<Rightarrow> nat \<times> cli_world" where
  "cli_main env argv w =
     (case dispatch (ce_number env) (ce_tty env) (fst (ce_typed env)) argv of
        Inl message \<Rightarrow> (2, w)
      | Inr call \<Rightarrow> (case run_call env call w of
          (Inl _, w') \<Rightarrow> (1, w')
        | (Inr ok, w') \<Rightarrow> (if ok then 0 else 1, w')))"

section \<open>A session\<close>

definition cli_session :: "(cli_env \<times> jstr list) list \<Rightarrow> cli_world \<Rightarrow> cli_world" where
  "cli_session inputs w = foldl (\<lambda>w (env, argv). snd (cli_main env argv w)) w inputs"

text \<open>The key registries have one key in use and verify; the pin stores hold verified cards under their names.\<close>

definition cli_sound :: "crypto \<Rightarrow> cli_world \<Rightarrow> bool" where
  "cli_sound C w \<longleftrightarrow> (\<forall>f. key_file_ok C (cw_keys w f)) \<and> (\<forall>f. pins_verified C (cw_pins w f))"

text \<open>The signature scheme, and a clock that prints a time.\<close>

definition shell_ok :: "crypto \<Rightarrow> cli_env \<Rightarrow> bool" where
  "shell_ok C env \<longleftrightarrow> ce_crypto env = C \<and> cc_crypto (ce_client env) = C \<and> ce_now env \<noteq> []"

definition keeps :: "('d \<Rightarrow> bool) \<Rightarrow> ('d, 'e, 'a) step \<Rightarrow> bool" where
  "keeps P m \<longleftrightarrow> (\<forall>d. P d \<longrightarrow> P (snd (m d)))"

lemma on_file_snd:
  "snd (on_keys f m w) = w\<lparr>cw_keys := (cw_keys w)(f := snd (m (cw_keys w f)))\<rparr>"
  "snd (on_pins f n w) = w\<lparr>cw_pins := (cw_pins w)(f := snd (n (cw_pins w f)))\<rparr>"
  by (simp_all add: on_keys_def on_pins_def split: prod.split)

lemma on_disk_sound: "cli_sound C (snd (on_disk m w)) = cli_sound C w"
  by (simp add: on_disk_def cli_sound_def split: prod.split)

lemma keeps_keys: "keeps (key_file_ok C) m \<Longrightarrow> cli_sound C w \<Longrightarrow> cli_sound C (snd (on_keys f m w))"
  unfolding keeps_def cli_sound_def on_file_snd by simp

lemma keeps_pins: "keeps (pins_verified C) m \<Longrightarrow> cli_sound C w \<Longrightarrow> cli_sound C (snd (on_pins f m w))"
  unfolding keeps_def cli_sound_def on_file_snd by (simp del: split_paired_All)

lemma key_commands_keep:
  assumes "now \<noteq> []"
  shows "keeps (key_file_ok C) (runKeysInit C rid kp now issued file sid)" "keeps (key_file_ok C) (runKeysRotate C kp now issued key)"
    "keeps (key_file_ok C) (runKeysRevoke C now issued fp reason key)"
proof -
  show "keeps (key_file_ok C) (runKeysInit C rid kp now issued file sid)"
    unfolding keeps_def using key_init_ok by (metis prod.collapse)
  show "keeps (key_file_ok C) (runKeysRotate C kp now issued key)" "keeps (key_file_ok C) (runKeysRevoke C now issued fp reason key)"
    unfolding keeps_def using key_step_ok key_step.intros [OF assms] by (metis prod.collapse)+
qed

lemma list_keeps: "keeps (key_file_ok C) (runKeysList C file)"
  unfolding keeps_def runKeysList_def and_then_def
  by (auto simp: or_throw_def throw_def return_def dest!: on_file_load split: prod.splits sum.splits option.splits)

lemma approve_keeps: "keeps (pins_verified (cc_crypto cfg)) (runPinsApprove cfg rd now path source reinstate)"
  unfolding keeps_def
proof (intro allI impI)
  fix f assume v: "pins_verified (cc_crypto cfg) f"
  obtain r f' where run: "runPinsApprove cfg rd now path source reinstate f = (r, f')" by (metis surj_pair)
  then consider "f' = f" | c q where "with_client (client_approveCard cfg now c reinstate) f = (q, f')"
    by (auto simp: runPinsApprove_def split: if_splits sum.splits prod.splits)
  then have "pins_verified (cc_crypto cfg) f'"
  proof cases
    case (2 c q)
    from approve_file [OF 2] v show ?thesis by (auto simp: pins_verified_def sets_pin_def split: if_splits)
  qed (use v in simp)
  with run show "pins_verified (cc_crypto cfg) (snd (runPinsApprove cfg rd now path source reinstate f))" by simp
qed

lemma revoke_keeps: "keeps (pins_verified C) (runPinsRevoke now tool reason)"
  unfolding keeps_def
proof (intro allI impI)
  fix f assume v: "pins_verified C f"
  define cfg :: client_config where "cfg = wipe_cfg\<lparr>cc_crypto := C\<rparr>"
  have "pins_step cfg f (snd (runPinsRevoke now tool reason f))" by (rule pins_step.revoke [OF surjective_pairing])
  from pins_step_cases [OF this] v show "pins_verified C (snd (runPinsRevoke now tool reason f))" by (simp add: cfg_def)
qed

lemma run_call_sound: "shell_ok C env \<Longrightarrow> cli_sound C w \<Longrightarrow> cli_sound C (snd (run_call env call w))"
proof (cases call)
  case (Call_Approve source f reinstate)
  assume "shell_ok C env" "cli_sound C w"
  then show ?thesis
    using approve_keeps [of "ce_client env"] by (simp add: Call_Approve Let_def keeps_pins shell_ok_def)
qed (simp_all add: keeps_keys keeps_pins key_commands_keep list_keeps revoke_keeps shell_ok_def on_disk_sound)

lemma cli_main_world:
  "snd (cli_main env argv w) = (case dispatch (ce_number env) (ce_tty env) (fst (ce_typed env)) argv of
     Inl _ \<Rightarrow> w | Inr call \<Rightarrow> snd (run_call env call w))"
  by (simp add: cli_main_def split: sum.split prod.split)

section \<open>Revocations\<close>

lemma js_assign_keys: "x \<in> fst ` set (js_assign k v kvs) \<Longrightarrow> x = k \<or> x \<in> fst ` set kvs"
proof -
  have "set (put_index k v kvs) = insert (k, v) (set kvs)"
    by (metis mset_put_index set_mset_add_mset_insert set_mset_mset)
  then show "x \<in> fst ` set (js_assign k v kvs) \<Longrightarrow> x = k \<or> x \<in> fst ` set kvs"
    using set_okeys_omap_set [of k v kvs] by (auto simp: js_assign_def split: if_splits)
qed

lemma parse_flags_given:
  "parse_flags withValue raw rest flags = Inr (rest', flags') \<Longrightarrow> x \<in> fst ` set flags' \<Longrightarrow>
     x \<in> fst ` set flags \<or> js ''--'' @ x \<in> set raw"
proof (induction withValue raw rest flags rule: parse_flags.induct)
  case (2 withValue token raw rest flags)
  show ?case
  proof (cases "strip_prefix (js ''--'') token")
    case None
    then show ?thesis using 2 by auto
  next
    case (Some name)
    then have t: "token = js ''--'' @ name" by (simp add: strip_prefix_Some)
    have "\<exists>v raw'. parse_flags withValue raw' rest (js_assign name v flags) = Inr (rest', flags') \<and> set raw' \<subseteq> set raw \<and>
        (x \<in> fst ` set (js_assign name v flags) \<or> js ''--'' @ x \<in> set raw')"
    proof (cases "name \<in> set withValue")
      case True
      then obtain u raw1 where u: "raw = u # raw1" using Some "2.prems"(1) by (cases raw) auto
      then have p: "parse_flags withValue raw1 rest (js_assign name (Flag_Text u) flags) = Inr (rest', flags')"
        using Some True "2.prems"(1) by simp
      from "2.IH"(2) [OF Some True u p "2.prems"(2)] p u show ?thesis by auto
    next
      case False
      then have p: "parse_flags withValue raw rest (js_assign name Flag_Set flags) = Inr (rest', flags')"
        using Some "2.prems"(1) by simp
      from "2.IH"(3) [OF Some False p "2.prems"(2)] p show ?thesis by auto
    qed
    then obtain v raw' where "set raw' \<subseteq> set raw" "x \<in> fst ` set (js_assign name v flags) \<or> js ''--'' @ x \<in> set raw'" by blast
    with js_assign_keys [of x name v flags] t show ?thesis by (cases "x = name") auto
  qed
qed simp

lemma no_reinstate:
  assumes "dispatch number tty typed argv = Inr (Call_Approve source f reinstate)" "js ''--reinstate'' \<notin> set argv"
  shows "\<not> reinstate"
proof -
  have *: "\<not> bool_flag flags ''reinstate''" if "parseFlags args withValue = Inr (rest, flags)" "js ''--reinstate'' \<notin> set args" for args withValue rest flags
  proof -
    have "js ''reinstate'' \<notin> fst ` set flags"
      using parse_flags_given [OF that(1) [unfolded parseFlags_def]] that(2) by (fastforce simp: js_def)
    then show ?thesis by (simp add: bool_flag_def map_of_eq_None_iff [THEN iffD2])
  qed
  show ?thesis
    using assms
    by (auto simp: dispatch_def dispatch_inspect_def dispatch_verify_def dispatch_diff_def dispatch_pins_def dispatch_approve_def
        dispatch_revoke_def dispatch_audit_def dispatch_manifest_def dispatch_init_def dispatch_import_def dispatch_keys_def
        with_flags_def needs_def Let_def dest: * split: list.splits if_splits sum.splits prod.splits option.splits)
qed

text \<open>The revocation of a pin, in whatever file.\<close>

definition revoked_in :: "cli_world \<Rightarrow> jstr \<Rightarrow> jstr \<Rightarrow> pin \<Rightarrow> bool" where
  "revoked_in w f name p \<longleftrightarrow> pins_in (cw_pins w f) name = Some p \<and> truthy (pin_revokedAt p)"

lemma pins_command_revoked:
  assumes "\<And>d. pins_step cfg d (snd (m d))" "pins_verified (cc_crypto cfg) (cw_pins w f)" "revoked_in w g name p"
  shows "revoked_in (snd (on_pins f m w)) g name p"
  using pins_step_cases [OF assms(1,2)] assms(3) by (auto simp: revoked_in_def on_file_snd)

lemma run_call_revoked:
  assumes "shell_ok C env" "cli_sound C w" "\<And>source f r. call = Call_Approve source f r \<Longrightarrow> \<not> r" "revoked_in w g name p"
  shows "revoked_in (snd (run_call env call w)) g name p"
proof -
  have v: "pins_verified (cc_crypto (ce_client env)) (cw_pins w f)" for f using assms(1,2) by (simp add: shell_ok_def cli_sound_def)
  show ?thesis
  proof (cases call)
    case (Call_Approve source f r)
    with assms(3) have r: "\<not> flag (Some r)" by simp
    have "pins_step (ce_client env) d (snd (runPinsApprove (ce_client env) (ce_cards env) (ce_now env) path source (Some r) d))" for d path
      by (rule pins_step.approve [OF r surjective_pairing])
    from pins_command_revoked [OF this v assms(4)] show ?thesis by (simp add: Call_Approve Let_def)
  next
    case (Call_Revoke tool f reason)
    have "pins_step (ce_client env) d (snd (runPinsRevoke (ce_now env) tool reason d))" for d
      by (rule pins_step.revoke [OF surjective_pairing])
    from pins_command_revoked [OF this v assms(4)] show ?thesis by (simp add: Call_Revoke)
  qed (use assms(4) in \<open>simp_all add: revoked_in_def on_file_snd on_disk_def split: prod.split\<close>)
qed

lemma cli_main_sound:
  assumes "shell_ok C env" "cli_sound C w"
  shows "cli_sound C (snd (cli_main env argv w))"
    and "js ''--reinstate'' \<notin> set argv \<Longrightarrow> revoked_in w f name p \<Longrightarrow> revoked_in (snd (cli_main env argv w)) f name p"
proof -
  show "cli_sound C (snd (cli_main env argv w))"
    using run_call_sound [OF assms] assms(2) by (simp add: cli_main_world split: sum.split)
  show "revoked_in (snd (cli_main env argv w)) f name p" if "js ''--reinstate'' \<notin> set argv" "revoked_in w f name p"
  proof (cases "dispatch (ce_number env) (ce_tty env) (fst (ce_typed env)) argv")
    case (Inr call)
    have "\<not> r" if "call = Call_Approve source f r" for source f r
      using no_reinstate [OF _ \<open>js ''--reinstate'' \<notin> set argv\<close>] Inr that by simp
    from run_call_revoked [OF assms this that(2)] Inr show ?thesis by (simp add: cli_main_world)
  qed (use that(2) in \<open>simp add: cli_main_world\<close>)
qed


section \<open>A concrete session\<close>

definition toy_shell :: cli_env where
  "toy_shell = \<lparr>ce_crypto = toy_crypto, ce_freshKey = toy_pair (js ''g''), ce_randomId = js ''id'', ce_now = js ''t1'', ce_issued = js ''t1'',
     ce_home = js ''/home'', ce_cards = wipe_reader, ce_manifests = \<lparr>sr_fetch = (\<lambda>_. Fetch_Status 404), sr_file = Inl, sr_parse = (\<lambda>_. None)\<rparr>,
     ce_client = wipe_cfg, ce_collate = id,
     ce_import = \<lparr>iw_env = toy_mcp_env, iw_explain = (\<lambda>_. []), iw_spawn = (\<lambda>_. \<lparr>px_connect = None, px_tools = None, px_call = (\<lambda>_ _. Inl [])\<rparr>),
       iw_broken = (\<lambda>_. None), iw_clock = (\<lambda>_. js ''t1'')\<rparr>,
     ce_hostname = (\<lambda>_. None), ce_toml = Inl,
     ce_clientFiles = \<lparr>cf_claude = None, cf_cursorGlobal = None, cf_cursorProject = None, cf_codexGlobal = None, cf_codexProject = None\<rparr>,
     ce_templates = (\<lambda>_. []), ce_number = (\<lambda>_. None), ce_tty = False, ce_typed = ([], [])\<rparr>"

definition toy_files :: cli_world where
  "toy_files = \<lparr>cw_keys = (\<lambda>_. No_File), cw_pins = (\<lambda>_. wiped_file), cw_audits = (\<lambda>_. (File_Missing, True)), cw_disk = []\<rparr>"

lemma toy_files_sound: "cli_sound toy_crypto toy_files"
  by (auto simp: cli_sound_def toy_files_def key_file_ok_def pins_verified_def pin_file_wf_def wiped_file_def omap_wf_def
      pins_in_def wipe_pin_def split: if_splits)


text \<open>
  A flag that is misspelt is taken for a switch, and its value for an argument: the reason of a
  revocation becomes the name of the tool.
\<close>

lemma misspelt_reason_revokes_another_tool:
  "dispatch number tty typed [js ''revoke'', js ''--raeson'', js ''wipe'', js ''search''] = Inr (Call_Revoke (js ''wipe'') None None)"
  by (simp add: dispatch_def dispatch_revoke_def with_flags_def parseFlags_def needs_def arg_def text_flag_def js_assign_def truthy_iff
      is_array_index_def js_def uc_def)

end
