(* ===== verification/Jail.thy ===== *)
theory Jail
  imports Paths "HOL-Library.Sublist"
begin

text \<open>
  The workspace jail of \<open>examples/05-hermes-integration/jail.ts\<close>, over a POSIX file system that does
  not change during a call: a node per physical path, symbolic links followed at most forty times.
  \<open>resolve\<close>, \<open>dirname\<close> and \<open>basename\<close> are Node's; a path is \<open>dirname\<close>'s argument only to be resolved
  again, so repeated slashes do not matter.
\<close>

section \<open>The file system\<close>

type_synonym phys = "jstr list"

datatype fs_node = File_Node | Dir_Node | Link_Node jstr

type_synonym file_system = "phys \<Rightarrow> fs_node option"

datatype errno = ENOENT | ENOTDIR | ELOOP

abbreviation slash :: "16 word" where
  "slash \<equiv> uc CHR ''/''"

text \<open>Where the target of a link is looked up.\<close>

definition link_base :: "phys \<Rightarrow> jstr \<Rightarrow> phys" where
  "link_base cur t = (if is_absolute t then [] else cur)"

text \<open>
  The kernel's walk from a directory along the segments of a path; \<open>n\<close> is the number of links that
  may still be followed. With \<open>create\<close> the last segment may be missing (\<open>O_CREAT\<close>).
\<close>

function walk :: "bool \<Rightarrow> file_system \<Rightarrow> nat \<Rightarrow> phys \<Rightarrow> jstr list \<Rightarrow> errno + phys" where
  "walk create fs n cur [] = Inr cur"
| "walk create fs n cur (s # ss) =
     (if fs cur \<noteq> Some Dir_Node then Inl ENOTDIR
      else if s = [] \<or> s = js ''.'' then walk create fs n cur ss
      else if s = js ''..'' then walk create fs n (butlast cur) ss
      else case fs (cur @ [s]) of
             None \<Rightarrow> if create \<and> ss = [] then Inr (cur @ [s]) else Inl ENOENT
           | Some (Link_Node t) \<Rightarrow>
               (case n of
                  0 \<Rightarrow> Inl ELOOP
                | Suc m \<Rightarrow> if t = [] then Inl ENOENT
                          else walk create fs m (link_base cur t) (split_all t @ ss))
           | Some _ \<Rightarrow> walk create fs n (cur @ [s]) ss)"
  by pat_completeness auto
termination
  by (relation "inv_image (less_than <*lex*> less_than) (\<lambda>(create, fs, n, cur, ss). (n, length ss))") auto

definition MAX_LINKS :: nat where
  "MAX_LINKS = 40"

definition path_string :: "phys \<Rightarrow> jstr" where
  "path_string segs = slash # intercalate [slash] segs"

definition realpath :: "file_system \<Rightarrow> jstr \<Rightarrow> errno + jstr" where
  "realpath fs p = map_sum (\<lambda>e. e) path_string (walk False fs MAX_LINKS [] (split_all p))"

text \<open>\<open>lstat\<close>: the node itself, a link included, unless the last segment is \<open>.\<close>, \<open>..\<close> or empty.\<close>

definition lstat :: "file_system \<Rightarrow> jstr \<Rightarrow> errno + fs_node" where
  "lstat fs p =
     (let segs = split_all p; s = last segs in
      case walk False fs MAX_LINKS [] (if plain_segment s then butlast segs else segs) of
        Inl e \<Rightarrow> Inl e
      | Inr d \<Rightarrow>
          if plain_segment s \<and> fs d \<noteq> Some Dir_Node then Inl ENOTDIR
          else (case fs (if plain_segment s then d @ [s] else d) of None \<Rightarrow> Inl ENOENT | Some nd \<Rightarrow> Inr nd))"

text \<open>The file that \<open>open(p, O_CREAT)\<close> writes.\<close>

definition opened_for_writing :: "file_system \<Rightarrow> jstr \<Rightarrow> errno + phys" where
  "opened_for_writing fs p = walk True fs MAX_LINKS [] (split_all p)"

definition opened_for_reading :: "file_system \<Rightarrow> jstr \<Rightarrow> errno + phys" where
  "opened_for_reading fs p = walk False fs MAX_LINKS [] (split_all p)"

section \<open>Node's path functions\<close>

text \<open>\<open>resolve(root, p)\<close> for an absolute \<open>root\<close>\<close>

definition path_resolve :: "jstr \<Rightarrow> jstr \<Rightarrow> jstr" where
  "path_resolve root p =
     path_string (path_segments False (if is_absolute p then p else root @ [slash] @ p))"

definition path_dirname :: "jstr \<Rightarrow> jstr" where
  "path_dirname p =
     (let t = rev (dropWhile (\<lambda>u. u = slash) (rev p));
          d = rev (dropWhile (\<lambda>u. u \<noteq> slash) (rev t))
      in if d = [] \<or> d = [slash] then [slash] else butlast d)"

definition path_basename :: "jstr \<Rightarrow> jstr" where
  "path_basename p =
     (let t = rev (dropWhile (\<lambda>u. u = slash) (rev p)) in rev (takeWhile (\<lambda>u. u \<noteq> slash) (rev t)))"

section \<open>The jail\<close>

datatype jail_error = Errno errno | Path_Escapes jstr | Chain_Too_Deep

definition escapes :: "jstr \<Rightarrow> jstr \<Rightarrow> bool" where
  "escapes real root \<longleftrightarrow> real \<noteq> root \<and> take (length root + 1) real \<noteq> root @ [slash]"

fun walkChain :: "file_system \<Rightarrow> jstr \<Rightarrow> nat \<Rightarrow> jail_error + jstr" where
  "walkChain fs cur 0 = Inl Chain_Too_Deep"
| "walkChain fs cur (Suc i) =
     (case lstat fs cur of
        Inl e \<Rightarrow> if e = ENOENT then Inr cur else Inl (Errno e)
      | Inr (Link_Node next) \<Rightarrow>
          walkChain fs (if is_absolute next then next else path_resolve (path_dirname cur) next) i
      | Inr _ \<Rightarrow> Inr cur)"

text \<open>The state is \<open>realRoot\<close>, the real path of the workspace once it has been asked for.\<close>

type_synonym 'a jail_step = "(jstr option, jail_error, 'a) step"

definition os_call :: "errno + 'a \<Rightarrow> 'a jail_step" where
  "os_call r = (case r of Inl e \<Rightarrow> throw (Errno e) | Inr a \<Rightarrow> return a)"

definition workspaceReal :: "file_system \<Rightarrow> jstr \<Rightarrow> jstr jail_step" where
  "workspaceReal fs ROOT realRoot =
     (case realRoot of
        Some r \<Rightarrow> (Inr r, realRoot)
      | None \<Rightarrow> (case realpath fs ROOT of Inl e \<Rightarrow> (Inl (Errno e), None) | Inr r \<Rightarrow> (Inr r, Some r)))"

definition inside_or_throw :: "string \<Rightarrow> jstr \<Rightarrow> jstr \<Rightarrow> jstr \<Rightarrow> unit jail_step" where
  "inside_or_throw what input real rr =
     (if escapes real rr then throw (Path_Escapes (js what @ input)) else return ())"

definition jailedReadPath :: "file_system \<Rightarrow> jstr \<Rightarrow> jstr \<Rightarrow> jstr jail_step" where
  "jailedReadPath fs ROOT input =
     and_then (os_call (realpath fs (path_resolve ROOT input))) (\<lambda>real.
     and_then (workspaceReal fs ROOT) (\<lambda>rr.
     and_then (inside_or_throw ''path escapes workspace: '' input real rr) (\<lambda>_. return real)))"

text \<open>The \<open>try\<close> block: an \<open>ENOENT\<close> that reaches its end is ignored.\<close>

definition check_existing :: "file_system \<Rightarrow> jstr \<Rightarrow> jstr \<Rightarrow> jstr \<Rightarrow> jail_error + unit" where
  "check_existing fs input rr final =
     (case lstat fs final of
        Inl e \<Rightarrow> Inl (Errno e)
      | Inr (Link_Node _) \<Rightarrow>
          (case (case realpath fs final of
                   Inr q \<Rightarrow> Inr q
                 | Inl e \<Rightarrow> if e \<noteq> ENOENT then Inl (Errno e) else walkChain fs final 40) of
             Inl e \<Rightarrow> Inl e
           | Inr resolved \<Rightarrow>
               if escapes resolved rr then Inl (Path_Escapes (js ''path escapes workspace via symlink chain: '' @ input))
               else Inr ())
      | Inr _ \<Rightarrow>
          (case realpath fs final of
             Inl e \<Rightarrow> Inl (Errno e)
           | Inr finalReal \<Rightarrow>
               if escapes finalReal rr
               then Inl (Path_Escapes (js ''path escapes workspace via existing symlink: '' @ input)) else Inr ()))"

definition jailedWritePath :: "file_system \<Rightarrow> jstr \<Rightarrow> jstr \<Rightarrow> jstr jail_step" where
  "jailedWritePath fs ROOT input =
     (let candidate = path_resolve ROOT input in
      and_then (os_call (realpath fs (path_dirname candidate))) (\<lambda>parentReal.
      and_then (workspaceReal fs ROOT) (\<lambda>rr.
      and_then (inside_or_throw ''path escapes workspace: '' input parentReal rr) (\<lambda>_.
        let final = path_resolve parentReal (path_basename candidate) in
        case check_existing fs input rr final of
          Inl e \<Rightarrow> if e = Errno ENOENT then return final else throw e
        | Inr _ \<Rightarrow> return final))))"

section \<open>Physical paths\<close>

text \<open>A path without links: every directory on the way is one, and the last node is a file or a directory.\<close>

definition physical :: "file_system \<Rightarrow> phys \<Rightarrow> bool" where
  "physical fs p \<longleftrightarrow> list_all plain_segment p \<and> (\<forall>q. strict_prefix q p \<longrightarrow> fs q = Some Dir_Node) \<and>
     fs p \<in> {Some File_Node, Some Dir_Node}"

lemma physical_root: "fs [] = Some Dir_Node \<Longrightarrow> physical fs []"
  by (simp add: physical_def)

lemma physical_child:
  assumes "physical fs cur" "fs cur = Some Dir_Node" "plain_segment s" "fs (cur @ [s]) \<in> {Some File_Node, Some Dir_Node}"
  shows "physical fs (cur @ [s])"
  using assms unfolding physical_def by (auto simp: strict_prefix_def)

lemma physical_prefix:
  assumes "physical fs p" "prefix q p"
  shows "physical fs q"
proof (cases "q = p")
  case False
  with assms have "strict_prefix q p" by (simp add: strict_prefix_def)
  with assms show ?thesis
    unfolding physical_def by (auto simp: prefix_def dest: prefix_order.strict_trans)
qed (use assms in simp)

lemma physical_parent: "physical fs p \<Longrightarrow> physical fs (butlast p)"
  by (rule physical_prefix) (auto simp: prefixeq_butlast)

lemma plain_or: "slash \<notin> set s \<Longrightarrow> s = [] \<or> s = js ''.'' \<or> s = js ''..'' \<or> plain_segment s"
  by (auto simp: plain_segment_def)

lemma walk_physical:
  assumes "fs [] = Some Dir_Node"
  shows "walk create fs n cur ss = Inr p \<Longrightarrow> \<not> create \<Longrightarrow> physical fs cur \<Longrightarrow> \<forall>s\<in>set ss. slash \<notin> set s \<Longrightarrow> physical fs p"
  using assms
proof (induction create fs n cur ss rule: walk.induct)
  case (2 create fs n cur s ss)
  have d: "fs cur = Some Dir_Node" using "2.prems"(1) by (simp split: if_splits)
  note ph = "2.prems"(3) and sl = "2.prems"(4)
  consider "s = [] \<or> s = js ''.''" | "s = js ''..''" | "plain_segment s"
    using plain_or [of s] sl by auto
  then show ?case
  proof cases
    case 1
    then show ?thesis using "2.IH"(1) "2.prems" d by auto
  next
    case 2
    then have "s \<noteq> []" "s \<noteq> js ''.''" by (auto simp: js_def)
    then show ?thesis using "2.IH"(2) "2.prems" d 2 physical_parent [OF ph] by simp
  next
    case 3
    then have s: "s \<noteq> []" "s \<noteq> js ''.''" "s \<noteq> js ''..''" by (auto simp: plain_segment_def)
    show ?thesis
    proof (cases "fs (cur @ [s])")
      case None
      then show ?thesis using "2.prems"(1,2) s d by simp
    next
      case (Some nd)
      note child = physical_child [OF ph d 3]
      show ?thesis
      proof (cases nd)
        case (Link_Node t)
        then obtain m where m: "n = Suc m" "t \<noteq> []" using "2.prems"(1) Some s d by (cases n) (auto split: if_splits)
        let ?cur = "link_base cur t"
        have "walk create fs m ?cur (split_all t @ ss) = Inr p" using "2.prems"(1) Some s d m Link_Node by simp
        moreover have "physical fs ?cur" using ph physical_root "2.prems"(5) by (simp add: link_base_def)
        moreover have "\<forall>s\<in>set (split_all t @ ss). slash \<notin> set s" using sl split_all_segments by auto
        ultimately show ?thesis
          using "2.IH"(5) Some Link_Node m s d "2.prems"(2,5) by simp
      next
        case File_Node
        then show ?thesis using "2.IH"(3) "2.prems" Some s d child by simp
      next
        case Dir_Node
        then show ?thesis using "2.IH"(4) "2.prems" Some s d child by simp
      qed
    qed
  qed
qed simp

lemma walk_plain:
  "physical fs (cur @ ss) \<Longrightarrow> walk create fs n cur ss = Inr (cur @ ss)"
proof (induction ss arbitrary: cur)
  case (Cons s ss)
  from Cons.prems have d: "fs cur = Some Dir_Node" "plain_segment s"
    unfolding physical_def by (auto simp: strict_prefix_def)
  have "physical fs (cur @ [s])" by (rule physical_prefix [OF Cons.prems]) (auto simp: prefix_def)
  then have "fs (cur @ [s]) = Some File_Node \<or> fs (cur @ [s]) = Some Dir_Node" by (auto simp: physical_def)
  then show ?case using Cons d by (auto simp: plain_segment_def)
qed simp

lemma walk_creating: "walk create fs n cur ss = Inr p \<Longrightarrow> walk True fs n cur ss = Inr p"
  by (induction create fs n cur ss rule: walk.induct) (auto 0 3 split: if_splits option.splits fs_node.splits nat.splits)

lemma split_path_string:
  assumes "list_all plain_segment p"
  shows "split_all (path_string p) = [] # (if p = [] then [[]] else p)"
proof -
  have "\<forall>s\<in>set p. slash \<notin> set s" using assms by (auto simp: list_all_iff plain_segment_def)
  then show ?thesis
    using split_all_intercalate [of p] split_all_append [of "[]" "intercalate [slash] p"] by (auto simp: path_string_def)
qed

lemma path_string_inject: "list_all plain_segment p \<Longrightarrow> list_all plain_segment q \<Longrightarrow> path_string p = path_string q \<Longrightarrow> p = q"
proof -
  assume a: "list_all plain_segment p" "list_all plain_segment q" "path_string p = path_string q"
  then have "(if p = [] then [[]] else p) = (if q = [] then [[]] else q)"
    using split_path_string [of p] split_path_string [of q] by simp
  then show "p = q" using a(1,2) by (auto simp: plain_segment_def split: if_splits)
qed

lemma walk_path_string:
  assumes "fs [] = Some Dir_Node" "physical fs p"
  shows "walk create fs n [] (split_all (path_string p)) = Inr p"
proof -
  have "list_all plain_segment p" using assms(2) by (simp add: physical_def)
  then show ?thesis using walk_plain [of fs "[]" p] assms by (simp add: split_path_string)
qed

lemma realpath_physical:
  assumes "fs [] = Some Dir_Node" "realpath fs p = Inr r"
  shows "\<exists>q. physical fs q \<and> r = path_string q \<and> opened_for_writing fs p = Inr q"
proof -
  from assms(2) obtain q where q: "walk False fs MAX_LINKS [] (split_all p) = Inr q" "r = path_string q"
    by (cases "walk False fs MAX_LINKS [] (split_all p)") (auto simp: realpath_def)
  have "physical fs q"
    by (rule walk_physical [OF assms(1) q(1)]) (auto simp: physical_root assms(1) split_all_segments)
  with q show ?thesis using walk_creating [OF q(1)] by (auto simp: opened_for_writing_def)
qed

section \<open>Inside the workspace\<close>

lemma not_escaping:
  assumes "\<not> escapes (path_string q) (path_string ws)" "list_all plain_segment q" "list_all plain_segment ws"
  shows "prefix ws q"
proof (cases "path_string q = path_string ws")
  case True
  then show ?thesis using path_string_inject assms(2,3) by blast
next
  case False
  then have t: "take (length (path_string ws) + 1) (path_string q) = path_string ws @ [slash]"
    using assms(1) by (simp add: escapes_def)
  define rest where "rest = drop (length (path_string ws) + 1) (path_string q)"
  have e: "path_string q = path_string ws @ slash # rest"
    using append_take_drop_id [of "length (path_string ws) + 1" "path_string q", unfolded t] by (simp add: rest_def)
  have sp: "[] # (if q = [] then [[]] else q) = split_all (path_string ws) @ split_all rest"
    using split_path_string [OF assms(2)] by (simp add: e split_all_append)
  have q: "q \<noteq> []"
  proof
    assume "q = []"
    then show False using e by (simp add: path_string_def)
  qed
  have ws: "ws \<noteq> []"
  proof
    assume "ws = []"
    then have "q = [] # split_all rest" using sp q by (simp add: path_string_def)
    with assms(2) show False by (simp add: plain_segment_def)
  qed
  from sp q ws show ?thesis using split_path_string [OF assms(3)] by (auto simp: prefix_def)
qed

text \<open>The cached root is what \<open>realpath\<close> gives.\<close>

definition root_ok :: "file_system \<Rightarrow> jstr \<Rightarrow> jstr option \<Rightarrow> bool" where
  "root_ok fs ROOT realRoot \<longleftrightarrow> (\<forall>r. realRoot = Some r \<longrightarrow> realpath fs ROOT = Inr r)"

lemma workspaceReal_Inr: "root_ok fs ROOT st \<Longrightarrow> workspaceReal fs ROOT st = (Inr r, st') \<Longrightarrow> realpath fs ROOT = Inr r"
  by (auto simp: workspaceReal_def root_ok_def split: option.splits sum.splits)

lemma os_call_Inr: "os_call r st = (Inr a, st') \<longleftrightarrow> r = Inr a \<and> st' = st"
  by (auto simp: os_call_def throw_def return_def split: sum.splits)

lemma inside_or_throw_Inr: "inside_or_throw what input real rr st = (Inr u, st') \<longleftrightarrow> \<not> escapes real rr \<and> st' = st"
  by (auto simp: inside_or_throw_def throw_def return_def)

text \<open>
  Reading: what \<open>fs.read\<close> opens under a path the jail lets through lies physically inside the
  workspace, whatever links and \<open>..\<close> the input went through.
\<close>

theorem jail_read_inside:
  assumes "fs [] = Some Dir_Node" "root_ok fs ROOT st" "jailedReadPath fs ROOT input st = (Inr p, st')"
  shows "\<exists>ws q. realpath fs ROOT = Inr (path_string ws) \<and> opened_for_reading fs p = Inr (ws @ q)"
proof -
  from assms(3) obtain rr st1 where j: "realpath fs (path_resolve ROOT input) = Inr p"
    "workspaceReal fs ROOT st = (Inr rr, st1)" "\<not> escapes p rr"
    by (auto simp: jailedReadPath_def and_then_Inr os_call_Inr inside_or_throw_Inr return_def)
  from realpath_physical [OF assms(1) j(1)] obtain q where q: "physical fs q" "p = path_string q" by blast
  from realpath_physical [OF assms(1) workspaceReal_Inr [OF assms(2) j(2)]] obtain ws where
    ws: "physical fs ws" "rr = path_string ws" by blast
  have "prefix ws q" using not_escaping j(3) q ws by (simp add: physical_def)
  then obtain rest where "q = ws @ rest" by (auto simp: prefix_def)
  then show ?thesis
    using walk_path_string [OF assms(1) q(1)] workspaceReal_Inr [OF assms(2) j(2)] ws q by (auto simp: opened_for_reading_def)
qed

lemma last_part:
  assumes "segs \<noteq> []"
  shows "\<exists>pre. path_string segs = pre @ slash # last segs"
proof (cases segs rule: rev_cases)
  case (snoc xs x)
  show ?thesis
  proof (cases "xs = []")
    case False
    then have "intercalate [slash] (xs @ [x]) = intercalate [slash] xs @ slash # x"
      by (induction xs rule: list_nonempty_induct) (auto simp: intercalate_Cons)
    then show ?thesis using snoc by (auto simp: path_string_def intro: exI [of _ "slash # intercalate [slash] xs"])
  qed (use snoc in \<open>auto simp: path_string_def\<close>)
qed (use assms in simp)

lemma basename_path_string:
  assumes "list_all plain_segment segs"
  shows "path_basename (path_string segs) = (if segs = [] then [] else last segs)"
proof (cases "segs = []")
  case True
  then show ?thesis by (simp add: path_basename_def path_string_def)
next
  case False
  then obtain pre where pre: "path_string segs = pre @ slash # last segs" using last_part by blast
  have b: "plain_segment (last segs)" using assms False by (simp add: list_all_iff)
  then have ns: "slash \<notin> set (last segs)" "last segs \<noteq> []" by (auto simp: plain_segment_def)
  have "dropWhile (\<lambda>u. u = slash) (rev (path_string segs)) = rev (path_string segs)"
    using ns by (cases "last segs" rule: rev_cases) (auto simp: pre)
  moreover have "takeWhile (\<lambda>u. u \<noteq> slash) (rev (path_string segs)) = rev (last segs)"
    using ns by (auto simp: pre takeWhile_append)
  ultimately show ?thesis using False by (simp add: path_basename_def Let_def)
qed

lemma path_segments_plain: "list_all plain_segment (path_segments False p)"
  using path_segments_normal [of False p] by (auto simp: normal_def)

lemma resolve_child:
  assumes "list_all plain_segment d" "b = [] \<or> plain_segment b"
  shows "path_resolve (path_string d) b = path_string (if b = [] then d else d @ [b])"
proof -
  have nb: "\<not> is_absolute b" using assms(2) by (cases b) (auto simp: is_absolute_def plain_segment_def)
  have sb: "split_all b = [b]" using assms(2) by (auto simp: split_all_no_slash plain_segment_def)
  have "foldl (push_segment False) [] ([] # (if d = [] then [[]] else d) @ [b]) = (if b = [] then d else d @ [b])"
    using assms foldl_push_plain [OF assms(1), of False "[]"] by (auto simp: push_segment_def plain_segment_def)
  then show ?thesis
    by (simp add: path_resolve_def nb path_segments_def split_all_append sb split_path_string [OF assms(1)])
qed

lemma lstat_missing:
  assumes "fs [] = Some Dir_Node" "physical fs d" "plain_segment b" "lstat fs (path_string (d @ [b])) = Inl ENOENT"
  shows "opened_for_writing fs (path_string (d @ [b])) = Inr (d @ [b])"
proof -
  have pl: "list_all plain_segment (d @ [b])" using assms(2,3) by (simp add: physical_def)
  note sp = split_path_string [OF pl]
  have wd: "walk c fs n [] ([] # d) = Inr d" for c n
    using walk_plain [of fs "[]" d] assms(1,2) by simp
  have d: "fs d = Some Dir_Node" and m: "fs (d @ [b]) = None"
    using assms(3,4) wd sp by (auto simp: lstat_def Let_def split: if_splits option.splits)
  have "walk True fs n cur (ss @ [b]) = Inr (cur @ ss @ [b])" if "cur @ ss = d" for n cur ss
    using that
  proof (induction ss arbitrary: cur)
    case Nil
    then show ?case using d m assms(3) by (auto simp: plain_segment_def)
  next
    case (Cons s ss)
    then have "physical fs (cur @ [s])" "physical fs cur"
      using assms(2) by (auto intro!: physical_prefix [OF assms(2)] simp: prefix_def)
    moreover have "strict_prefix cur d" using Cons(2) by (auto simp: strict_prefix_def)
    ultimately have "fs cur = Some Dir_Node" "plain_segment s" "fs (cur @ [s]) = Some File_Node \<or> fs (cur @ [s]) = Some Dir_Node"
      using assms(2) by (auto simp: physical_def)
    then show ?case using Cons by (auto simp: plain_segment_def)
  qed
  from this [of "[]" d] show ?thesis using sp assms(1) by (simp add: opened_for_writing_def)
qed

lemma ignore_missing:
  "(case r of Inl e \<Rightarrow> if e = Errno ENOENT then return final else throw e | Inr _ \<Rightarrow> return final) st = (Inr p, st') \<longleftrightarrow>
     (r = Inr () \<or> r = Inl (Errno ENOENT)) \<and> p = final \<and> st' = st"
  by (cases r) (auto simp: return_def throw_def)

lemma basename_plain: "path_basename (path_resolve base input) = [] \<or> plain_segment (path_basename (path_resolve base input))"
proof -
  let ?segs = "path_segments False (if is_absolute input then input else base @ [slash] @ input)"
  have "list_all plain_segment ?segs" by (rule path_segments_plain)
  then show ?thesis using basename_path_string [of ?segs] by (auto simp: path_resolve_def list_all_iff)
qed

lemma checked_physical:
  assumes "check_existing fs input rr p = Inr () \<or> check_existing fs input rr p = Inl (Errno ENOENT)"
    and "lstat fs p \<noteq> Inl ENOENT" "realpath fs p \<noteq> Inl ENOENT"
  shows "\<exists>r. realpath fs p = Inr r \<and> \<not> escapes r rr"
  using assms by (auto simp: check_existing_def split: sum.splits fs_node.splits if_splits)

text \<open>
  C33. Writing: unless the path the jail lets through is a link that dangles, what \<open>fs.write\<close> opens
  or creates under it lies physically inside the workspace.
\<close>

theorem jail_write_inside:
  assumes "fs [] = Some Dir_Node" "root_ok fs ROOT st" "jailedWritePath fs ROOT input st = (Inr p, st')"
    and "realpath fs p \<noteq> Inl ENOENT \<or> lstat fs p = Inl ENOENT" "opened_for_writing fs p = Inr f"
  shows "\<exists>ws q. realpath fs ROOT = Inr (path_string ws) \<and> f = ws @ q"
proof -
  let ?c = "path_resolve ROOT input"
  from assms(3) obtain parentReal rr st1 where j: "realpath fs (path_dirname ?c) = Inr parentReal"
    "workspaceReal fs ROOT st = (Inr rr, st1)" "\<not> escapes parentReal rr"
    "p = path_resolve parentReal (path_basename ?c)"
    "check_existing fs input rr p = Inr () \<or> check_existing fs input rr p = Inl (Errno ENOENT)"
    by (auto simp: jailedWritePath_def Let_def and_then_Inr os_call_Inr inside_or_throw_Inr ignore_missing)
  note root = workspaceReal_Inr [OF assms(2) j(2)]
  from realpath_physical [OF assms(1) j(1)] obtain d where d: "physical fs d" "parentReal = path_string d" by blast
  from realpath_physical [OF assms(1) root] obtain ws where ws: "physical fs ws" "rr = path_string ws" by blast
  have pd: "prefix ws d" using not_escaping j(3) d ws by (simp add: physical_def)
  define b where "b = path_basename ?c"
  have b: "b = [] \<or> plain_segment b" unfolding b_def by (rule basename_plain)
  have p: "p = path_string (if b = [] then d else d @ [b])"
    using resolve_child [of d b] b d by (simp add: j(4) b_def physical_def)
  show ?thesis
  proof (cases "lstat fs p = Inl ENOENT")
    case True
    have "f = (if b = [] then d else d @ [b])"
    proof (cases "b = []")
      case False
      then show ?thesis using lstat_missing [OF assms(1) d(1)] b True assms(5) p by simp
    next
      case True
      then show ?thesis using walk_path_string [OF assms(1) d(1)] p assms(5) by (simp add: opened_for_writing_def)
    qed
    then show ?thesis using pd root ws by (auto simp: prefix_def)
  next
    case False
    from checked_physical [OF j(5) False] assms(4) False obtain r where r: "realpath fs p = Inr r" "\<not> escapes r rr" by blast
    from realpath_physical [OF assms(1) r(1)] obtain q where
      q: "physical fs q" "r = path_string q" "opened_for_writing fs p = Inr q" by blast
    have "prefix ws q" using not_escaping r(2) q ws by (auto simp: physical_def)
    then show ?thesis using q(3) assms(5) root ws by (auto simp: prefix_def)
  qed
qed

section \<open>The way out\<close>

text \<open>
  A workspace \<open>/w\<close> with a link \<open>out\<close> to \<open>/etc\<close> and a link \<open>note\<close> to \<open>out/new\<close>, which does not exist.
\<close>

definition linked_fs :: file_system where
  "linked_fs = map_of [([], Dir_Node), ([js ''etc''], Dir_Node), ([js ''w''], Dir_Node), ([js ''w'', js ''f''], File_Node),
     ([js ''w'', js ''out''], Link_Node (js ''/etc'')), ([js ''w'', js ''note''], Link_Node (js ''out/new''))]"

lemmas jail_eval = linked_fs_def realpath_def lstat_def opened_for_writing_def opened_for_reading_def path_resolve_def
  path_dirname_def path_basename_def path_string_def path_segments_def push_segment_def is_absolute_def escapes_def
  link_base_def MAX_LINKS_def plain_segment_def js_def uc_def Let_def

lemma linked_realpath:
  "realpath linked_fs (js ''/w'') = Inr (js ''/w'')" "realpath linked_fs (js ''/w/f'') = Inr (js ''/w/f'')"
  "realpath linked_fs (js ''/w/note'') = Inl ENOENT"
  by (simp_all add: jail_eval)

lemma linked_root: "linked_fs [] = Some Dir_Node"
  by (simp add: linked_fs_def)

theorem jail_read_inside_witness:
  "\<exists>ws q. realpath linked_fs (js ''/w'') = Inr (path_string ws) \<and>
     opened_for_reading linked_fs (js ''/w/f'') = Inr (ws @ q)"
proof -
  have "jailedReadPath linked_fs (js ''/w'') (js ''x/../f'') None = (Inr (js ''/w/f''), Some (js ''/w''))"
  proof -
    have "path_resolve (js ''/w'') (js ''x/../f'') = js ''/w/f''" "\<not> escapes (js ''/w/f'') (js ''/w'')"
      by (simp_all add: jail_eval)
    then show ?thesis
      by (simp add: jailedReadPath_def linked_realpath os_call_def and_then_def return_def workspaceReal_def inside_or_throw_def)
  qed
  then show ?thesis
    by (intro jail_read_inside [where input = "js ''x/../f''"]) (auto simp: linked_root root_ok_def)
qed

theorem jail_write_inside_witness:
  "\<exists>ws q. realpath linked_fs (js ''/w'') = Inr (path_string ws) \<and> [js ''w'', js ''g''] = ws @ q"
proof -
  have r: "path_resolve (js ''/w'') (js ''g'') = js ''/w/g''" "path_dirname (js ''/w/g'') = js ''/w''"
    "path_basename (js ''/w/g'') = js ''g''" "lstat linked_fs (js ''/w/g'') = Inl ENOENT"
    "opened_for_writing linked_fs (js ''/w/g'') = Inr [js ''w'', js ''g'']" "\<not> escapes (js ''/w'') (js ''/w'')"
    by (simp_all add: jail_eval)
  then have "jailedWritePath linked_fs (js ''/w'') (js ''g'') None = (Inr (js ''/w/g''), Some (js ''/w''))"
    by (simp add: jailedWritePath_def linked_realpath os_call_def and_then_def return_def workspaceReal_def
        inside_or_throw_def check_existing_def)
  then show ?thesis
    using r by (intro jail_write_inside [where input = "js ''g''"]) (auto simp: linked_root root_ok_def)
qed

text \<open>
  The jail on writing can be left through a link that dangles behind another link: the chain
  of links is followed by names only, the path is let through, and writing to it creates a file
  outside the workspace. (The comment in \<open>jail.ts\<close> says that this vector is closed.)
\<close>

theorem jail_dangling_escape:
  "fst (jailedWritePath linked_fs (js ''/w'') (js ''note'') None) = Inr (js ''/w/note'') \<and>
   realpath linked_fs (js ''/w'') = Inr (path_string [js ''w'']) \<and>
   opened_for_writing linked_fs (js ''/w/note'') = Inr [js ''etc'', js ''new'']"
proof -
  have r: "path_resolve (js ''/w'') (js ''note'') = js ''/w/note''" "path_dirname (js ''/w/note'') = js ''/w''"
    "path_basename (js ''/w/note'') = js ''note''" "path_resolve (js ''/w'') (js ''out/new'') = js ''/w/out/new''"
    by (simp_all add: jail_eval)
  have l: "lstat linked_fs (js ''/w/note'') = Inr (Link_Node (js ''out/new''))"
    "lstat linked_fs (js ''/w/out/new'') = Inl ENOENT" by (simp_all add: jail_eval)
  have a: "\<not> is_absolute (js ''out/new'')" by (simp add: jail_eval)
  have w: "walkChain linked_fs (js ''/w/note'') (Suc (Suc 38)) = Inr (js ''/w/out/new'')"
    by (simp only: walkChain.simps l a r sum.case fs_node.case if_False if_True refl)
  have e: "\<not> escapes (js ''/w/out/new'') (js ''/w'')" "\<not> escapes (js ''/w'') (js ''/w'')" by (simp_all add: jail_eval)
  have "check_existing linked_fs (js ''note'') (js ''/w'') (js ''/w/note'') = Inr ()"
    using w by (simp add: check_existing_def l linked_realpath e)
  moreover have "workspaceReal linked_fs (js ''/w'') None = (Inr (js ''/w''), Some (js ''/w''))"
    by (simp add: workspaceReal_def linked_realpath)
  ultimately have "jailedWritePath linked_fs (js ''/w'') (js ''note'') None = (Inr (js ''/w/note''), Some (js ''/w''))"
    by (simp add: jailedWritePath_def r linked_realpath os_call_def and_then_def return_def inside_or_throw_def e)
  moreover have "opened_for_writing linked_fs (js ''/w/note'') = Inr [js ''etc'', js ''new'']" by (simp add: jail_eval)
  moreover have "js ''/w'' = path_string [js ''w'']" by (simp add: jail_eval)
  ultimately show ?thesis using linked_realpath(1) by simp
qed

end
