(* ===== verification/Spec2Isabelle.thy ===== *)
theory Spec2Isabelle
  imports Schema_Complexity Key_Registry System Render Browser Exporter Resolver_Scorers Mcp_Adapter Bridge_Examples Openapi_Import Integrations Cli_Keys Cli_Cards Import_Examples Conformance_Example Server_Start Cli_Main Jail
begin

text \<open>
  \<^bold>\<open>The Glyph protocol: server, client and their tools, modelled from the TypeScript sources.\<close>

  A \<^emph>\<open>glyph\<close> is a typed, priced and signed tool. A server publishes a card per glyph; the id of a card
  is the hash of its contract, and the server's key signs it. A client pins the cards its operator
  approved, calls only those, and checks the signed receipt of every answer. A change of a card
  is a diff for a human, or an audit and a promotion policy. Tools of MCP servers and of OpenAPI
  documents can be imported as glyphs, and glyphs can be shown to MCP clients and agent
  frameworks.

  \<^bold>\<open>The theories\<close>, in the order they build on each other (paths are under \<open>src/packages\<close>):

  \<^item> \<open>Prelude\<close>, \<open>Js_Values\<close>, \<open>Json_Text\<close>, \<open>Json_Parse\<close>, \<open>Uri\<close>, \<open>Paths\<close>: what the sources use of the
    language and its runtime. A string is a list of 16-bit units; an object is the list of its own
    properties in enumeration order, with assignment as ECMAScript has it (array-index keys first,
    \<open>__proto__\<close> not a property); a \<open>Map\<close> is an insertion-ordered association list; \<open>JSON.stringify\<close>,
    \<open>JSON.parse\<close>, \<open>encodeURIComponent\<close> and \<open>path.join\<close> are functions. A function that may throw or
    return early gives a sum, the error on the left, with the state reached; \<open>and_then\<close> sequences.
  \<^item> \<open>Glyph_Types\<close>, \<open>Type_Json\<close>: \<open>types/src\<close>. One record or datatype per wire type, and its JSON.
  \<^item> \<open>Canonical\<close>, \<open>Cards\<close>, \<open>Sanitize\<close>, \<open>Signer\<close>, \<open>Key_Registry\<close>, \<open>Attestation\<close>,
    \<open>Schema_Complexity\<close>: \<open>core/src\<close> (and \<open>attestation-sigstore\<close>, \<open>client/src/attestation.ts\<close>):
    canonical form and hash, content-addressed ids, signatures, diffs, output cleaning, the chain of
    keys, the verifiers of attestations and the bound on untrusted schemas.
  \<^item> \<open>Stores\<close>, \<open>Middleware\<close>, \<open>Server\<close>: \<open>server/src\<close>. The state is a record with the registered
    glyphs, the three stores and a trace of handler runs; a route handler is a sequence of steps on
    it. \<open>Server_Properties\<close> has the gates, \<open>Server_Invariant\<close> the transition system, \<open>Server_Start\<close> the
    constructor and the way of a request through the middlewares.
  \<^item> \<open>Pins\<close>, \<open>Promotion\<close>, \<open>Trust\<close>, \<open>Render\<close>, \<open>Client\<close>: \<open>client/src\<close>. The state of a client is its pin
    store, its audit queue, the state of its trust resolver and the record of requests sent; a
    method is a sequence of steps on it against a server that is any function of that history.
    \<open>Client_Gates\<close> states what each gate needs, \<open>Client_Properties\<close> what a method promises,
    \<open>Client_Runs\<close> what holds of every sequence of methods and background audits, \<open>Client_Limits\<close>
    what is not promised, \<open>Client_Examples\<close> a concrete client.
  \<^item> \<open>System\<close>: the two ends together.
  \<^item> \<open>Browser\<close> (\<open>verify-browser\<close>), \<open>Exporter\<close> (\<open>exporter-otel\<close>), \<open>Resolver\<close> and
    \<open>Resolver_Scorers\<close> (\<open>resolver\<close>).
  \<^item> \<open>Adapters\<close>, \<open>Mcp_Adapter\<close>, \<open>Mcp_Bridge\<close>, \<open>Bridge_Examples\<close>: \<open>adapters/mcp\<close> and
    \<open>adapters/mcp-server\<close>. \<open>Openapi\<close>, \<open>Openapi_Request\<close>, \<open>Openapi_Import\<close>: \<open>adapters/openapi\<close>: the
    document, the request of one operation, the whole import. \<open>Integrations\<close>: \<open>integrations/*\<close>.
  \<^item> \<open>Cli_Prelude\<close>, \<open>Cli_Keys\<close>, \<open>Cli_Cards\<close>, \<open>Import_Config\<close>, \<open>Import_Mcp\<close>, \<open>Import_Select\<close>,
    \<open>Import_Examples\<close>, \<open>Cli_Init\<close>, \<open>Cli_Main\<close>: \<open>cli/src\<close>. A command is a step of the file or the disk it
    works on, with its report; \<open>Cli_Main\<close> goes from the command line to the command and the exit code.

  \<^item> \<open>Server_Wire\<close>, \<open>Wire_Schemas\<close>: the routes of the server with the JSON text of every answer, and
    the published schemas of the messages (\<open>conformance/schemas\<close>).
  \<^item> \<open>Conformance\<close>, \<open>Conformance_Report\<close>, \<open>Conformance_Properties\<close>: \<open>conformance/src\<close>: the four levels
    of checks against a server that is any function, the report and the command.
    \<open>Conformance_Server\<close>, \<open>Conformance_Run\<close>, \<open>Conformance_Levels\<close>, \<open>Conformance_Passes\<close>: the fixtures,
    and the suite run against the server of the repository, check by check, in triples over the
    state of the running suite. \<open>Conformance_Example\<close>: a concrete server, with its router.
  \<^item> \<open>Jail\<close>: the workspace jail of \<open>src/examples/05-hermes-integration/jail.ts\<close> over a file system with
    links.

  \<^bold>\<open>Interfaces.\<close> Where a component relies on another, the contract is a locale and the code's model is
  its interpretation: the confirmation and the dedupe store in \<open>Stores\<close>; the family of signers; the
  verifiers of attestations, with those that only look at structure as an extension; the three
  sources of a key registry; the pin stores and the audit queues, each with an in-memory and a
  file instance; the four frameworks.

  \<^bold>\<open>What is shown.\<close>

  \<^item> The call path, the centre of the protocol: the server runs a handler only behind all its gates and
    a ticket buys one execution; the client sends a call only behind its own; an accepted answer is
    bound to the pinned card and to the call, and, unless the server's key is used elsewhere, is the
    outcome of an execution for that very call. Conversely what an honest server seals is accepted,
    and a prepared ticket admits its call.
  \<^item> Content addressing: equal ids mean equal contracts; a diff is empty exactly when nothing a human
    reviews has changed; canonical texts agree exactly up to the order of keys; the browser verifier
    decides as the core does.
  \<^item> State over time: the server's invariant, revocations and verified pins in every run of a client,
    the pins of a file store across restarts, genesis pins; key registries and pin stores over any
    session at the command line, whatever is typed. A server started in production serves nothing
    without a token its operator accepts.
  \<^item> Untrusted input: the cleaning of outputs, the block for the model that a payload cannot close,
    the bounds on schemas, reference resolution that ends on cyclic documents, tools and operations
    of foreign servers that keep their place and their cost, requests that stay on the operator's
    base URL, credentials that stay with the operations that ask for them and out of error texts, and
    a project generator that writes below its directory and no secret.
  \<^item> The wire: \<open>JSON.parse\<close> reads back every text \<open>JSON.stringify\<close> prints (\<open>Json_Roundtrip\<close>), so the
    answers of the server arrive as they were encoded, and they fit the published schemas; a
    conformance report leaves out no check of a requested level, and the server passes its own suite,
    at any levels and next to any other glyphs, leaving its tables as they were.
  \<^item> The jail: a path it lets through is opened inside the workspace for reading, and for writing
    unless a dangling link is in the way, which is shown to escape.
  \<^item> Where the code does less than its comments say, a theorem states what it does: the attestation
    gate that an unsigned card avoids (\<open>danger_gate_bypassed\<close>), the confirmation that no framework
    tool ever asks for (\<open>framework_tools_never_confirm\<close>).

  \<^bold>\<open>Hypotheses about code outside the repository.\<close> The hash is a parameter; where contents are to follow
  from hashes, its injectivity on the texts concerned is a hypothesis. A signature scheme is a pair of
  functions; honest signers verify, and unforgeability is stated of the server's key alone: what it
  verifies was signed by this server. NFKC, \<open>toLowerCase\<close>, \<open>Date.parse\<close>, Zod, AJV, the parsers of URLs
  and of TOML, base64, the Sigstore libraries, \<open>fetch\<close> and the file system are arguments of the
  definitions that use them. Identifiers, nonces, generated keys and clock readings are arguments.

  \<^bold>\<open>Recursion and bounds.\<close> Every definition is total. \<open>JSON.parse\<close> has fuel, twice the length of the
  text and two more, which \<open>Json_Roundtrip\<close> shows to be enough for every printed text. The reference expansion of an OpenAPI document ends because the set of
  references in progress grows inside the document's finite set; the theorem bounds the nesting of
  the result. The walk over a JSON Schema is compared with a count that has no bound. The loops of
  the stores run over their finite contents.

  \<^bold>\<open>Not modelled.\<close>

  \<^item> Numbers are the integers a double holds exactly; fractions in JSON texts are not read. The scores
    of the resolver are doubles whose arithmetic is a parameter, with monotone rounding as the law.
  \<^item> Client methods are atomic steps; interleaving is modelled between them, for background audits, and
    for the two awaits of \<open>prepare\<close> on the server.
  \<^item> A JSON-pointer segment that names a property of \<open>Object.prototype\<close>; served documents without
    their declared type; failed GET requests keep their text.
  \<^item> Routing (Hono), process start, logging, console tables, the texts of the programs that \<open>init\<close>
    writes and the fixed preamble of \<open>render\<close>. Error texts in the import of MCP
    configurations are shortened to their constant part.
  \<^item> The usage text and the indented JSON of the conformance command.
  \<^item> The other examples, which are workflows that print, the benchmarks, the scripts and the SDKs in
    other languages; tests.
\<close>

end
